(* ===== verification/Prelude.thy ===== *)
theory Prelude
  imports Main "HOL-Library.Word"
begin

text \<open>
  Vocabulary shared by every component of the development.

  The C and C++ sources are read for the platform their build files target: x86-64
  Linux with the LP64 data model. So \<open>int\<close> and \<open>unsigned int\<close> have 32 bits,
  \<open>long\<close> and \<open>size_t\<close> have 64 bits, memory is little-endian, and plain
  \<open>char\<close> is a \<^emph>\<open>signed\<close> 8-bit type: converting a \<open>char\<close> to
  \<open>uint32_t\<close> or \<open>uint64_t\<close> extends its sign, converting an \<open>unsigned char\<close>
  or \<open>uint8_t\<close> pads with zeros.

  A byte is an 8-bit word, a \<open>std::string\<close> or a \<open>(pointer, length)\<close> pair that is
  only read is the list of its bytes.
\<close>

unbundle bit_operations_syntax

type_synonym u8 = "8 word"
type_synonym u16 = "16 word"
type_synonym u32 = "32 word"
type_synonym u64 = "64 word"
type_synonym bytes = "u8 list"

named_theorems bitw \<open>definitions and equations that turn the code's word operations into bits\<close>
named_theorems le_simps \<open>little-endian loads and stores\<close>

subsection \<open>Conversions of bytes\<close>

text \<open>\<open>(uint32_t)c\<close> and \<open>(uint64_t)c\<close> for a \<open>char\<close>, and for a \<open>uint8_t\<close>.\<close>

definition sx32 :: "u8 \<Rightarrow> u32" where
  "sx32 c = scast c"

definition sx64 :: "u8 \<Rightarrow> u64" where
  "sx64 c = scast c"

definition zx32 :: "u8 \<Rightarrow> u32" where
  "zx32 c = ucast c"

text \<open>A byte is ASCII when its top bit is clear: there both conversions agree.\<close>

definition ascii :: "u8 \<Rightarrow> bool" where
  "ascii c \<longleftrightarrow> \<not> bit c 7"

subsection \<open>Word facts\<close>

text \<open>Masks of the sources as \<open>mask\<close>, so that \<open>bit_simps\<close> applies to them.\<close>

lemma mask_numerals [bitw]:
  "(255 :: 'a::len word) = mask 8" "(32767 :: 'a::len word) = mask 15"
  "(65535 :: 'a::len word) = mask 16" "(16777215 :: 'a::len word) = mask 24"
  by (simp_all add: mask_numeral)

lemma unat_ucast_up [simp]:
  "LENGTH('a) \<le> LENGTH('b) \<Longrightarrow> unat (ucast (x::'a::len word) :: 'b::len word) = unat x"
  by (simp add: unsigned_ucast_eq take_bit_nat_eq_self order.strict_trans2[OF unsigned_less])

lemma unat_drop_bit_less: "unat (drop_bit n (x :: 'a::len word)) < 2 ^ (LENGTH('a) - n)"
proof -
  have "unat x < 2 ^ n * 2 ^ (LENGTH('a) - n)"
    using order.strict_trans2[OF unsigned_less[where 'a=nat and w=x]]
    by (simp flip: power_add)
  then have "unat x div 2 ^ n < 2 ^ (LENGTH('a) - n)"
    by (intro less_mult_imp_div_less) (simp add: mult.commute)
  moreover have "unat (drop_bit n x) = unat x div 2 ^ n"
    by (rule trans[OF unat_drop_bit_eq drop_bit_eq_div])
  ultimately show ?thesis by simp
qed

text \<open>A shift-and-\<open>XOR\<close> and a multiplication by an odd constant lose no information.\<close>

lemma xorshift_inject:
  fixes x y :: "'a::len word"
  assumes "0 < n"
  shows "x XOR drop_bit n x = y XOR drop_bit n y \<longleftrightarrow> x = y"
proof
  assume eq: "x XOR drop_bit n x = y XOR drop_bit n y"
  define d where "d = x XOR y"
  have "d XOR drop_bit n d = (x XOR drop_bit n x) XOR (y XOR drop_bit n y)"
    by (simp add: d_def ac_simps)
  then have d: "drop_bit n d = d"
    using eq by (metis xor.assoc xor.left_neutral xor_self_eq)
  have "drop_bit (k * n) d = d" for k
    by (induction k) (simp_all add: d flip: drop_bit_drop_bit)
  from this[of "LENGTH('a)"] have "d = drop_bit (LENGTH('a) * n) d" by simp
  also have "\<dots> = 0"
    using assms by (intro bit_word_eqI) (auto simp: bit_simps dest: bit_imp_le_length)
  finally show "x = y"
    unfolding d_def by (metis xor.assoc xor.right_neutral xor_self_eq)
qed simp

lemma mult_unit_inject:
  fixes m m' :: "'a::len word"
  assumes "m * m' = 1"
  shows "x * m = y * m \<longleftrightarrow> x = y"
  by (metis assms mult.assoc mult.right_neutral)

lemma xor_left_inject [simp]: "(a :: 'a::len word) XOR b = a XOR c \<longleftrightarrow> b = c"
  by (metis xor.assoc xor.left_neutral xor_self_eq)

lemma xor_right_inject [simp]: "(b :: 'a::len word) XOR a = c XOR a \<longleftrightarrow> b = c"
  by (metis xor.commute xor_left_inject)

lemma ucast_up_inject [simp]:
  "LENGTH('a) \<le> LENGTH('b) \<Longrightarrow>
     (ucast (x::'a::len word) :: 'b::len word) = ucast y \<longleftrightarrow> x = y"
  by (metis unat_ucast_up word_unat_eq_iff)

lemma sx32_inject [simp]: "sx32 a = sx32 b \<longleftrightarrow> a = b"
proof
  assume "sx32 a = sx32 b"
  then have "(ucast (sx32 a) :: u8) = ucast (sx32 b)" by simp
  moreover have "(ucast (sx32 c) :: u8) = c" for c
  proof (rule bit_word_eqI)
    fix n
    assume "n < LENGTH(8)"
    then have "n < 7 \<or> n = 7" by auto
    then show "bit (ucast (sx32 c) :: u8) n = bit c n"
      by (auto simp: sx32_def bit_simps)
  qed
  ultimately show "a = b" by simp
qed simp

lemma zx32_inject [simp]: "zx32 a = zx32 b \<longleftrightarrow> a = b"
  by (simp add: zx32_def)

lemma sx32_ascii: "ascii c \<Longrightarrow> sx32 c = zx32 c"
proof (rule bit_word_eqI)
  fix n
  assume "ascii c"
  moreover have "n = 7" if "7 \<le> n" "bit c n"
    using that bit_imp_le_length[of c n] by simp
  ultimately show "bit (sx32 c) n = bit (zx32 c) n" if "n < LENGTH(32)"
    using that by (auto simp: ascii_def sx32_def zx32_def bit_simps min_def)
qed

text \<open>A loop over the bytes of a key commutes with a projection of its state.\<close>

lemma foldl_project:
  "(\<And>c b. g (f c b) = f' (g c) b) \<Longrightarrow> g (foldl f a xs) = foldl f' (g a) xs"
  by (induction xs arbitrary: a) simp_all

subsection \<open>Little-endian loads and stores\<close>

text \<open>
  \<open>get_le\<close> reads the integer stored in a run of bytes, as \<open>*(uint32_t *)p\<close> or a
  \<open>memcpy\<close> into an integer does; \<open>put_le n\<close> is the \<open>n\<close> bytes a store leaves.
\<close>

fun get_le :: "bytes \<Rightarrow> 'a::len word" where
  "get_le [] = 0"
| "get_le (b # bs) = ucast b OR push_bit 8 (get_le bs)"

fun put_le :: "nat \<Rightarrow> 'a::len word \<Rightarrow> bytes" where
  "put_le 0 w = []"
| "put_le (Suc n) w = ucast w # put_le n (drop_bit 8 w)"

lemma length_put_le [simp]: "length (put_le n w) = n"
  by (induction n w rule: put_le.induct) simp_all

lemma get_put_le [le_simps]: "get_le (put_le n w) = take_bit (8 * n) w"
proof (induction n w rule: put_le.induct)
  case (2 n w)
  then show ?case
    by (intro bit_word_eqI) (auto simp: bit_simps)
qed simp

lemma get_le_high: "8 * length bs \<le> i \<Longrightarrow> \<not> bit (get_le bs :: 'a::len word) i"
  by (induction bs arbitrary: i) (auto simp: bit_simps dest: bit_imp_le_length)

lemma put_get_le [le_simps]:
  "8 * length bs \<le> LENGTH('a) \<Longrightarrow> put_le (length bs) (get_le bs :: 'a::len word) = bs"
proof (induction bs)
  case (Cons b bs)
  have "ucast (get_le (b # bs) :: 'a word) = b"
    using Cons.prems by (intro bit_word_eqI) (auto simp: bit_simps)
  moreover have "drop_bit 8 (get_le (b # bs) :: 'a word) = get_le bs"
    using Cons.prems get_le_high[of bs, where 'a='a]
    by (intro bit_word_eqI) (auto simp: bit_simps dest: bit_imp_le_length)
  ultimately show ?case using Cons by simp
qed simp

lemma get_le_inject:
  assumes "length as = length bs" "8 * length bs \<le> LENGTH('a)"
  shows "(get_le as :: 'a::len word) = get_le bs \<longleftrightarrow> as = bs"
  using assms by (metis put_get_le)

lemma byte_high [simp]: "8 \<le> n \<Longrightarrow> \<not> bit (b :: u8) n"
  by (auto dest: bit_imp_le_length)

lemma byte_bit_less: "bit (b :: u8) n \<Longrightarrow> n < 8"
  by (auto dest: bit_imp_le_length)

lemma get_le_Cons_add: "(get_le (b # bs) :: u32) = zx32 b + push_bit 8 (get_le bs)"
  unfolding get_le.simps zx32_def
  by (rule disjunctive_add[symmetric]) (auto simp: bit_simps)

lemma bit_get_le_take:
  "bit (get_le (take n bs) :: 'a::len word) i \<longleftrightarrow> bit (get_le bs :: 'a word) i \<and> i < 8 * n"
proof (induction bs arbitrary: n i)
  case (Cons b bs)
  show ?case
    by (cases n) (auto simp: bit_simps Cons dest: byte_bit_less)
qed simp

lemma get_le_masks [le_simps]:
  "(get_le bs :: 'a::len word) AND 0xff = get_le (take 1 bs)"
  "(get_le bs :: 'a::len word) AND 0xffff = get_le (take 2 bs)"
  "(get_le bs :: 'a::len word) AND 0xffffff = get_le (take 3 bs)"
  by (rule bit_word_eqI, auto simp: bit_simps bitw bit_get_le_take simp del: take_Suc_conv_app_nth)+

lemma unat_add_one:
  assumes "x < y"
  shows "unat (x + 1 :: 'a::len word) = Suc (unat x)"
proof -
  have "Suc (unat x) \<le> unat y" using assms by (simp add: word_less_nat_alt)
  also have "unat y < 2 ^ LENGTH('a)" by (rule unsigned_less)
  finally show ?thesis by (simp add: unat_word_ariths)
qed

lemma unat_sub_one: "0 < unat x \<Longrightarrow> unat (x - 1 :: 'a::len word) = unat x - 1"
  by (metis unat_minus_one unat_gt_0 word_neq_0_conv)

lemma unat_and_mask: "unat (x AND mask n :: 'a::len word) = unat x mod 2 ^ n"
  by (simp flip: take_bit_eq_mask add: unsigned_take_bit_eq) (simp add: take_bit_eq_mod)

lemma mod_carry:
  fixes n s P :: nat
  assumes "0 < P"
  shows "(n + s) div P = n div P + s div P + (if (n + s) mod P < n mod P then 1 else 0)"
proof -
  define q where "q = n mod P + s mod P"
  have less: "n mod P < P" "s mod P < P" using assms by simp_all
  have d: "(n + s) div P = n div P + s div P + q div P"
    unfolding q_def by (rule div_add1_eq)
  have m: "(n + s) mod P = q mod P"
    unfolding q_def by (rule mod_add_eq[symmetric])
  show ?thesis
  proof (cases "q < P")
    case True
    then show ?thesis by (simp add: d m) (simp add: q_def)
  next
    case False
    then have "P \<le> q" by simp
    moreover have "q - P < P" "q - P < n mod P"
      using less \<open>P \<le> q\<close> unfolding q_def by linarith+
    ultimately have "q div P = 1" "q mod P = q - P" "q - P < n mod P"
      using assms by (simp_all add: le_div_geq le_mod_geq)
    then show ?thesis by (simp add: d m)
  qed
qed

lemma put_le_add: "put_le (a + b) w = put_le a w @ put_le b (drop_bit (8 * a) w)"
  by (induction a w rule: put_le.induct) (simp_all add: drop_bit_drop_bit add.commute)

lemma put_le_take_bit: "8 * n \<le> k \<Longrightarrow> put_le n (take_bit k w) = put_le n w"
proof (induction n w arbitrary: k rule: put_le.induct)
  case (2 n w)
  have "ucast (take_bit k w) = (ucast w :: u8)"
    using "2.prems" by (intro bit_word_eqI) (auto simp: bit_simps)
  moreover have "drop_bit 8 (take_bit k w) = take_bit (k - 8) (drop_bit 8 w)"
    by (rule drop_bit_take_bit)
  ultimately show ?case using 2 by simp
qed simp

lemma put_le_ucast:
  assumes "8 * n \<le> LENGTH('b)" "LENGTH('b) \<le> LENGTH('a)"
  shows "put_le n (ucast (w :: 'a::len word) :: 'b::len word) = put_le n w"
  using assms
proof (induction n arbitrary: w)
  case (Suc n)
  have "put_le n (drop_bit 8 (ucast w :: 'b word)) = put_le n (drop_bit 8 w)"
  proof -
    have "drop_bit 8 (ucast w :: 'b word) = take_bit (LENGTH('b) - 8) (ucast (drop_bit 8 w))"
      using Suc.prems by (intro bit_word_eqI) (auto simp: bit_simps)
    moreover have "8 * n \<le> LENGTH('b) - 8" using Suc.prems by simp
    ultimately show ?thesis using Suc by (simp add: put_le_take_bit)
  qed
  moreover have "ucast (ucast w :: 'b word) = (ucast w :: u8)"
    using Suc.prems by (intro bit_word_eqI) (auto simp: bit_simps)
  ultimately show ?case by simp
qed simp

subsection \<open>Lists\<close>

lemma length4_conv:
  "length xs = 4 + n \<longleftrightarrow> (\<exists>a b c d ys. xs = a # b # c # d # ys \<and> length ys = n)"
  by (auto simp: eval_nat_numeral length_Suc_conv)

lemma find_append:
  "find P (xs @ ys) = (case find P xs of None \<Rightarrow> find P ys | Some x \<Rightarrow> Some x)"
  by (induction xs) auto

subsection \<open>Sorted maps\<close>

text \<open>A \<open>std::map\<close> is the list of its pairs, sorted by key.\<close>

text \<open>\<open>map[key] = value\<close> on a \<open>std::map\<close>.\<close>

fun map_set :: "'k::linorder \<Rightarrow> 'v \<Rightarrow> ('k \<times> 'v) list \<Rightarrow> ('k \<times> 'v) list" where
  "map_set k v [] = [(k, v)]"
| "map_set k v ((k', v') # kvs) =
     (if k < k' then (k, v) # (k', v') # kvs
      else if k = k' then (k, v) # kvs
      else (k', v') # map_set k v kvs)"

lemma map_set_fold:
  assumes "sorted_wrt (<) (map fst (kvs @ kvs'))"
  shows "foldl (\<lambda>q (k, v). map_set k v q) kvs kvs' = kvs @ (kvs' :: ('k::linorder \<times> 'v) list)"
  using assms
proof (induction kvs' arbitrary: kvs)
  case (Cons kv kvs')
  obtain k v where kv: "kv = (k, v)" by (cases kv)
  have "map_set k v kvs = kvs @ [(k, v)]" if "\<forall>(k', v')\<in>set kvs. k' < k" for kvs :: "('k \<times> 'v) list"
    using that by (induction kvs) auto
  moreover have "\<forall>(k', v')\<in>set kvs. k' < k"
    using Cons.prems by (auto simp: kv sorted_wrt_append)
  ultimately show ?case using Cons by (simp add: kv)
qed simp

end
