(* ===== verification/ByteHash.thy ===== *)
theory ByteHash
  imports Prelude
begin

text \<open>
  The shape most functions of \<open>common/hashkit\<close> share: a state is updated once per byte
  of the key and finished into the result. The locale \<open>byte_hash\<close> is the contract of
  such a loop whose update and finish lose no information; its consequence is that two
  keys that differ in exactly one byte never collide. Each hash function that keeps the
  contract interprets the locale in its own theory.
\<close>

locale byte_hash =
  fixes step :: "'s \<Rightarrow> u8 \<Rightarrow> 's"
    and fin :: "'s \<Rightarrow> 'r"
  assumes step_state: "step v c = step w c \<longleftrightarrow> v = w"
    and step_byte: "step v a = step v b \<longleftrightarrow> a = b"
    and fin_state: "fin v = fin w \<longleftrightarrow> v = w"
begin

lemma foldl_state: "foldl step v s = foldl step w s \<longleftrightarrow> v = w"
  by (induction s arbitrary: v w) (simp_all add: step_state)

lemma one_byte:
  "fin (foldl step i (p @ a # s)) = fin (foldl step i (p @ b # s)) \<longleftrightarrow> a = b"
  by (simp add: foldl_state step_byte fin_state)

end

end
