(* ===== verification/Crc.thy ===== *)
theory Crc
  imports ByteHash
begin

text \<open>
  The table-driven checksums of \<open>common/hashkit/nc_crc16.c\<close> and
  \<open>common/hashkit/nc_crc32.c\<close>: \<open>hash_crc16\<close>, \<open>hash_crc32\<close>, \<open>hash_crc32a\<close>
  and their tables, entry by entry.

  The specification is the bit-serial division by the generator polynomial
  (\<open>crc16_ref\<close>, \<open>crc32_ref\<close>). The tables are checked against it in the kernel,
  and the table-driven loops are shown to compute it on every key. What both
  polynomials share, linearity of a step over \<open>XOR\<close>, is the locale \<open>linear_step\<close>.
\<close>

subsection \<open>The tables\<close>

definition crc16tab :: "u16 list" where
  "crc16tab = [
    0x0000, 0x1021, 0x2042, 0x3063, 0x4084, 0x50a5, 0x60c6, 0x70e7,
    0x8108, 0x9129, 0xa14a, 0xb16b, 0xc18c, 0xd1ad, 0xe1ce, 0xf1ef,
    0x1231, 0x0210, 0x3273, 0x2252, 0x52b5, 0x4294, 0x72f7, 0x62d6,
    0x9339, 0x8318, 0xb37b, 0xa35a, 0xd3bd, 0xc39c, 0xf3ff, 0xe3de,
    0x2462, 0x3443, 0x0420, 0x1401, 0x64e6, 0x74c7, 0x44a4, 0x5485,
    0xa56a, 0xb54b, 0x8528, 0x9509, 0xe5ee, 0xf5cf, 0xc5ac, 0xd58d,
    0x3653, 0x2672, 0x1611, 0x0630, 0x76d7, 0x66f6, 0x5695, 0x46b4,
    0xb75b, 0xa77a, 0x9719, 0x8738, 0xf7df, 0xe7fe, 0xd79d, 0xc7bc,
    0x48c4, 0x58e5, 0x6886, 0x78a7, 0x0840, 0x1861, 0x2802, 0x3823,
    0xc9cc, 0xd9ed, 0xe98e, 0xf9af, 0x8948, 0x9969, 0xa90a, 0xb92b,
    0x5af5, 0x4ad4, 0x7ab7, 0x6a96, 0x1a71, 0x0a50, 0x3a33, 0x2a12,
    0xdbfd, 0xcbdc, 0xfbbf, 0xeb9e, 0x9b79, 0x8b58, 0xbb3b, 0xab1a,
    0x6ca6, 0x7c87, 0x4ce4, 0x5cc5, 0x2c22, 0x3c03, 0x0c60, 0x1c41,
    0xedae, 0xfd8f, 0xcdec, 0xddcd, 0xad2a, 0xbd0b, 0x8d68, 0x9d49,
    0x7e97, 0x6eb6, 0x5ed5, 0x4ef4, 0x3e13, 0x2e32, 0x1e51, 0x0e70,
    0xff9f, 0xefbe, 0xdfdd, 0xcffc, 0xbf1b, 0xaf3a, 0x9f59, 0x8f78,
    0x9188, 0x81a9, 0xb1ca, 0xa1eb, 0xd10c, 0xc12d, 0xf14e, 0xe16f,
    0x1080, 0x00a1, 0x30c2, 0x20e3, 0x5004, 0x4025, 0x7046, 0x6067,
    0x83b9, 0x9398, 0xa3fb, 0xb3da, 0xc33d, 0xd31c, 0xe37f, 0xf35e,
    0x02b1, 0x1290, 0x22f3, 0x32d2, 0x4235, 0x5214, 0x6277, 0x7256,
    0xb5ea, 0xa5cb, 0x95a8, 0x8589, 0xf56e, 0xe54f, 0xd52c, 0xc50d,
    0x34e2, 0x24c3, 0x14a0, 0x0481, 0x7466, 0x6447, 0x5424, 0x4405,
    0xa7db, 0xb7fa, 0x8799, 0x97b8, 0xe75f, 0xf77e, 0xc71d, 0xd73c,
    0x26d3, 0x36f2, 0x0691, 0x16b0, 0x6657, 0x7676, 0x4615, 0x5634,
    0xd94c, 0xc96d, 0xf90e, 0xe92f, 0x99c8, 0x89e9, 0xb98a, 0xa9ab,
    0x5844, 0x4865, 0x7806, 0x6827, 0x18c0, 0x08e1, 0x3882, 0x28a3,
    0xcb7d, 0xdb5c, 0xeb3f, 0xfb1e, 0x8bf9, 0x9bd8, 0xabbb, 0xbb9a,
    0x4a75, 0x5a54, 0x6a37, 0x7a16, 0x0af1, 0x1ad0, 0x2ab3, 0x3a92,
    0xfd2e, 0xed0f, 0xdd6c, 0xcd4d, 0xbdaa, 0xad8b, 0x9de8, 0x8dc9,
    0x7c26, 0x6c07, 0x5c64, 0x4c45, 0x3ca2, 0x2c83, 0x1ce0, 0x0cc1,
    0xef1f, 0xff3e, 0xcf5d, 0xdf7c, 0xaf9b, 0xbfba, 0x8fd9, 0x9ff8,
    0x6e17, 0x7e36, 0x4e55, 0x5e74, 0x2e93, 0x3eb2, 0x0ed1, 0x1ef0]"

definition crc32tab :: "u32 list" where
  "crc32tab = [
    0x00000000, 0x77073096, 0xee0e612c, 0x990951ba,
    0x076dc419, 0x706af48f, 0xe963a535, 0x9e6495a3,
    0x0edb8832, 0x79dcb8a4, 0xe0d5e91e, 0x97d2d988,
    0x09b64c2b, 0x7eb17cbd, 0xe7b82d07, 0x90bf1d91,
    0x1db71064, 0x6ab020f2, 0xf3b97148, 0x84be41de,
    0x1adad47d, 0x6ddde4eb, 0xf4d4b551, 0x83d385c7,
    0x136c9856, 0x646ba8c0, 0xfd62f97a, 0x8a65c9ec,
    0x14015c4f, 0x63066cd9, 0xfa0f3d63, 0x8d080df5,
    0x3b6e20c8, 0x4c69105e, 0xd56041e4, 0xa2677172,
    0x3c03e4d1, 0x4b04d447, 0xd20d85fd, 0xa50ab56b,
    0x35b5a8fa, 0x42b2986c, 0xdbbbc9d6, 0xacbcf940,
    0x32d86ce3, 0x45df5c75, 0xdcd60dcf, 0xabd13d59,
    0x26d930ac, 0x51de003a, 0xc8d75180, 0xbfd06116,
    0x21b4f4b5, 0x56b3c423, 0xcfba9599, 0xb8bda50f,
    0x2802b89e, 0x5f058808, 0xc60cd9b2, 0xb10be924,
    0x2f6f7c87, 0x58684c11, 0xc1611dab, 0xb6662d3d,
    0x76dc4190, 0x01db7106, 0x98d220bc, 0xefd5102a,
    0x71b18589, 0x06b6b51f, 0x9fbfe4a5, 0xe8b8d433,
    0x7807c9a2, 0x0f00f934, 0x9609a88e, 0xe10e9818,
    0x7f6a0dbb, 0x086d3d2d, 0x91646c97, 0xe6635c01,
    0x6b6b51f4, 0x1c6c6162, 0x856530d8, 0xf262004e,
    0x6c0695ed, 0x1b01a57b, 0x8208f4c1, 0xf50fc457,
    0x65b0d9c6, 0x12b7e950, 0x8bbeb8ea, 0xfcb9887c,
    0x62dd1ddf, 0x15da2d49, 0x8cd37cf3, 0xfbd44c65,
    0x4db26158, 0x3ab551ce, 0xa3bc0074, 0xd4bb30e2,
    0x4adfa541, 0x3dd895d7, 0xa4d1c46d, 0xd3d6f4fb,
    0x4369e96a, 0x346ed9fc, 0xad678846, 0xda60b8d0,
    0x44042d73, 0x33031de5, 0xaa0a4c5f, 0xdd0d7cc9,
    0x5005713c, 0x270241aa, 0xbe0b1010, 0xc90c2086,
    0x5768b525, 0x206f85b3, 0xb966d409, 0xce61e49f,
    0x5edef90e, 0x29d9c998, 0xb0d09822, 0xc7d7a8b4,
    0x59b33d17, 0x2eb40d81, 0xb7bd5c3b, 0xc0ba6cad,
    0xedb88320, 0x9abfb3b6, 0x03b6e20c, 0x74b1d29a,
    0xead54739, 0x9dd277af, 0x04db2615, 0x73dc1683,
    0xe3630b12, 0x94643b84, 0x0d6d6a3e, 0x7a6a5aa8,
    0xe40ecf0b, 0x9309ff9d, 0x0a00ae27, 0x7d079eb1,
    0xf00f9344, 0x8708a3d2, 0x1e01f268, 0x6906c2fe,
    0xf762575d, 0x806567cb, 0x196c3671, 0x6e6b06e7,
    0xfed41b76, 0x89d32be0, 0x10da7a5a, 0x67dd4acc,
    0xf9b9df6f, 0x8ebeeff9, 0x17b7be43, 0x60b08ed5,
    0xd6d6a3e8, 0xa1d1937e, 0x38d8c2c4, 0x4fdff252,
    0xd1bb67f1, 0xa6bc5767, 0x3fb506dd, 0x48b2364b,
    0xd80d2bda, 0xaf0a1b4c, 0x36034af6, 0x41047a60,
    0xdf60efc3, 0xa867df55, 0x316e8eef, 0x4669be79,
    0xcb61b38c, 0xbc66831a, 0x256fd2a0, 0x5268e236,
    0xcc0c7795, 0xbb0b4703, 0x220216b9, 0x5505262f,
    0xc5ba3bbe, 0xb2bd0b28, 0x2bb45a92, 0x5cb36a04,
    0xc2d7ffa7, 0xb5d0cf31, 0x2cd99e8b, 0x5bdeae1d,
    0x9b64c2b0, 0xec63f226, 0x756aa39c, 0x026d930a,
    0x9c0906a9, 0xeb0e363f, 0x72076785, 0x05005713,
    0x95bf4a82, 0xe2b87a14, 0x7bb12bae, 0x0cb61b38,
    0x92d28e9b, 0xe5d5be0d, 0x7cdcefb7, 0x0bdbdf21,
    0x86d3d2d4, 0xf1d4e242, 0x68ddb3f8, 0x1fda836e,
    0x81be16cd, 0xf6b9265b, 0x6fb077e1, 0x18b74777,
    0x88085ae6, 0xff0f6a70, 0x66063bca, 0x11010b5c,
    0x8f659eff, 0xf862ae69, 0x616bffd3, 0x166ccf45,
    0xa00ae278, 0xd70dd2ee, 0x4e048354, 0x3903b3c2,
    0xa7672661, 0xd06016f7, 0x4969474d, 0x3e6e77db,
    0xaed16a4a, 0xd9d65adc, 0x40df0b66, 0x37d83bf0,
    0xa9bcae53, 0xdebb9ec5, 0x47b2cf7f, 0x30b5ffe9,
    0xbdbdf21c, 0xcabac28a, 0x53b39330, 0x24b4a3a6,
    0xbad03605, 0xcdd70693, 0x54de5729, 0x23d967bf,
    0xb3667a2e, 0xc4614ab8, 0x5d681b02, 0x2a6f2b94,
    0xb40bbe37, 0xc30c8ea1, 0x5a05df1b, 0x2d02ef8d]"

subsection \<open>The hash functions\<close>

text \<open>
  \<open>crc = (crc << 8) ^ crc16tab[((crc >> 8) ^ *key++) & 0x00ff]\<close>, with a 32-bit
  \<open>crc\<close> that is never cut down to 16 bits.
\<close>

definition crc16_step :: "u32 \<Rightarrow> u8 \<Rightarrow> u32" where
  "crc16_step crc k =
     push_bit 8 crc XOR ucast (crc16tab ! unat ((drop_bit 8 crc XOR sx32 k) AND 0x00ff))"

definition hash_crc16 :: "bytes \<Rightarrow> u32" where
  "hash_crc16 key = foldl crc16_step 0 key"

text \<open>
  \<open>crc = (crc >> 8) ^ crc32tab[(crc ^ (uint64_t)key[x]) & 0xff]\<close>: the index is
  computed in 64 bits, from a sign-extended \<open>char\<close>.
\<close>

definition crc32_step :: "u32 \<Rightarrow> u8 \<Rightarrow> u32" where
  "crc32_step crc k =
     drop_bit 8 crc XOR crc32tab ! unat ((ucast crc XOR sx64 k) AND 0xff)"

definition hash_crc32 :: "bytes \<Rightarrow> u32" where
  "hash_crc32 key = drop_bit 16 (NOT (foldl crc32_step 0xffffffff key)) AND 0x7fff"

text \<open>\<open>crc = crc32tab[(crc ^ *p++) & 0xFF] ^ (crc >> 8)\<close>, over \<open>uint8_t\<close>.\<close>

definition crc32a_step :: "u32 \<Rightarrow> u8 \<Rightarrow> u32" where
  "crc32a_step crc p =
     crc32tab ! unat ((crc XOR zx32 p) AND 0xFF) XOR drop_bit 8 crc"

definition hash_crc32a :: "bytes \<Rightarrow> u32" where
  "hash_crc32a key = foldl crc32a_step (NOT 0) key XOR NOT 0"

subsection \<open>The reference: division by the generator polynomial, bit by bit\<close>

definition crc16_bit :: "u16 \<Rightarrow> u16" where
  "crc16_bit c = (if bit c 15 then push_bit 1 c XOR 0x1021 else push_bit 1 c)"

definition crc16_byte :: "u16 \<Rightarrow> u16" where
  "crc16_byte c = (crc16_bit ^^ 8) c"

definition crc16_ref :: "bytes \<Rightarrow> u16" where
  "crc16_ref key = foldl (\<lambda>c b. crc16_byte (c XOR push_bit 8 (ucast b))) 0 key"

definition crc32_bit :: "u32 \<Rightarrow> u32" where
  "crc32_bit c = (if bit c 0 then drop_bit 1 c XOR 0xedb88320 else drop_bit 1 c)"

definition crc32_byte :: "u32 \<Rightarrow> u32" where
  "crc32_byte c = (crc32_bit ^^ 8) c"

definition crc32_ref :: "bytes \<Rightarrow> u32" where
  "crc32_ref key = NOT (foldl (\<lambda>c b. crc32_byte (c XOR ucast b)) (NOT 0) key)"

subsection \<open>The tables hold the reference's byte steps\<close>

lemma crc16_bit_if:
  "bit c 15 \<Longrightarrow> crc16_bit c = push_bit 1 c XOR 0x1021"
  "\<not> bit c 15 \<Longrightarrow> crc16_bit c = push_bit 1 c"
  by (simp_all add: crc16_bit_def)

lemma crc16_byte_unfold:
  "crc16_byte c = crc16_bit (crc16_bit (crc16_bit (crc16_bit
     (crc16_bit (crc16_bit (crc16_bit (crc16_bit c)))))))"
  by (simp add: crc16_byte_def eval_nat_numeral)

lemma crc32_bit_if:
  "bit c 0 \<Longrightarrow> crc32_bit c = drop_bit 1 c XOR 0xedb88320"
  "\<not> bit c 0 \<Longrightarrow> crc32_bit c = drop_bit 1 c"
  by (simp_all add: crc32_bit_def)

lemma crc32_byte_unfold:
  "crc32_byte c = crc32_bit (crc32_bit (crc32_bit (crc32_bit
     (crc32_bit (crc32_bit (crc32_bit (crc32_bit c)))))))"
  by (simp add: crc32_byte_def eval_nat_numeral)

lemma crc16tab_entries:
  "crc16tab = map (\<lambda>i. crc16_byte (push_bit 8 (of_nat i))) [0..<256]"
  by (simp add: crc16tab_def upt_conv_Cons crc16_byte_unfold crc16_bit_if)

lemma crc32tab_entries:
  "crc32tab = map (\<lambda>i. crc32_byte (of_nat i)) [0..<256]"
  by (simp add: crc32tab_def upt_conv_Cons crc32_byte_unfold crc32_bit_if)

subsection \<open>Both generator steps are linear over \<open>XOR\<close>\<close>

locale linear_step =
  fixes f :: "'a::len word \<Rightarrow> 'a word"
  assumes step_xor: "f (x XOR y) = f x XOR f y"
begin

lemma pow_xor: "(f ^^ n) (x XOR y) = (f ^^ n) x XOR (f ^^ n) y"
  by (induction n) (simp_all add: step_xor)

end

interpretation crc16: linear_step crc16_bit
  by unfold_locales (rule bit_word_eqI, auto simp: crc16_bit_def bit_simps)

interpretation crc32: linear_step crc32_bit
  by unfold_locales (rule bit_word_eqI, auto simp: crc32_bit_def bit_simps)

lemma crc32_pow_shift:
  "(\<And>i. i < n \<Longrightarrow> \<not> bit x i) \<Longrightarrow> (crc32_bit ^^ n) x = drop_bit n x"
proof (induction n arbitrary: x)
  case (Suc n)
  have "\<not> bit x 0" using Suc.prems by simp
  then have "(crc32_bit ^^ Suc n) x = (crc32_bit ^^ n) (drop_bit 1 x)"
    by (simp add: funpow_Suc_right crc32_bit_if del: funpow.simps)
  also have "\<dots> = drop_bit n (drop_bit 1 x)"
    by (rule Suc.IH) (simp add: bit_simps Suc.prems)
  finally show ?case by simp
qed simp

lemma crc16_pow_shift:
  "(\<And>i. i < n \<Longrightarrow> \<not> bit x (15 - i)) \<Longrightarrow> n \<le> 16 \<Longrightarrow> (crc16_bit ^^ n) x = push_bit n x"
proof (induction n arbitrary: x)
  case (Suc n)
  have "\<not> bit x 15" using Suc.prems(1)[of 0] by simp
  then have "(crc16_bit ^^ Suc n) x = (crc16_bit ^^ n) (push_bit 1 x)"
    by (simp add: funpow_Suc_right crc16_bit_if del: funpow.simps)
  also have "\<dots> = push_bit n (push_bit 1 x)"
  proof (rule Suc.IH)
    show "\<not> bit (push_bit 1 x) (15 - i)" if "i < n" for i
      using Suc.prems(1)[of "Suc i"] Suc.prems(2) that by (subst bit_push_bit_iff) simp
  qed (use Suc.prems in simp)
  finally show ?case by simp
qed simp

lemma crc32_byte_split:
  "crc32_byte c = drop_bit 8 c XOR crc32tab ! unat (c AND 0xff)"
proof -
  have idx: "unat (c AND 0xff) < 256"
    using word_and_le1[of c "0xff"] by (simp add: word_le_nat_alt)
  have c: "c = (c AND NOT 0xff) XOR (c AND 0xff)"
    by (rule bit_word_eqI) (auto simp: bit_simps)
  have "crc32_byte c = (crc32_bit ^^ 8) (c AND NOT 0xff) XOR crc32_byte (c AND 0xff)"
    unfolding crc32_byte_def by (subst c) (rule crc32.pow_xor)
  also have "(crc32_bit ^^ 8) (c AND NOT 0xff) = drop_bit 8 (c AND NOT 0xff)"
    by (rule crc32_pow_shift) (simp add: bit_simps bitw)
  also have "drop_bit 8 (c AND NOT 0xff) = drop_bit 8 c"
    by (rule bit_word_eqI) (auto simp: bit_simps bitw dest: bit_imp_le_length)
  also have "crc32_byte (c AND 0xff) = crc32tab ! unat (c AND 0xff)"
    using idx by (simp add: crc32tab_entries)
  finally show ?thesis .
qed

lemma crc16_byte_split:
  "crc16_byte c = push_bit 8 c XOR crc16tab ! unat (drop_bit 8 c)"
proof -
  have idx: "unat (drop_bit 8 c) < 256"
    using unat_drop_bit_less[of 8 c] by simp
  have c: "c = (c AND 0xff) XOR push_bit 8 (drop_bit 8 c)"
    by (rule bit_word_eqI) (auto simp: bit_simps bitw dest: bit_imp_le_length)
  have "crc16_byte c = (crc16_bit ^^ 8) (c AND 0xff) XOR crc16_byte (push_bit 8 (drop_bit 8 c))"
    unfolding crc16_byte_def by (subst c) (rule crc16.pow_xor)
  also have "(crc16_bit ^^ 8) (c AND 0xff) = push_bit 8 (c AND 0xff)"
    by (rule crc16_pow_shift) (auto simp: bit_simps bitw)
  also have "push_bit 8 (c AND 0xff) = push_bit 8 c"
    by (rule bit_word_eqI) (auto simp: bit_simps bitw dest: bit_imp_le_length)
  also have "crc16_byte (push_bit 8 (drop_bit 8 c)) = crc16tab ! unat (drop_bit 8 c)"
    using idx by (simp add: crc16tab_entries)
  finally show ?thesis .
qed

lemma crc16_step_ref:
  "ucast (crc16_step crc k) = crc16_byte (ucast crc XOR push_bit 8 (ucast k))"
proof -
  have idx: "(drop_bit 8 crc XOR sx32 k) AND 0xff = ucast (drop_bit 8 (ucast crc XOR push_bit 8 (ucast k) :: u16))"
    by (rule bit_word_eqI) (auto simp: bit_simps bitw sx32_def dest: bit_imp_le_length)
  have sh: "push_bit 8 (ucast crc XOR push_bit 8 (ucast k) :: u16) = ucast (push_bit 8 crc)"
    by (rule bit_word_eqI) (auto simp: bit_simps dest: bit_imp_le_length)
  show ?thesis
    unfolding crc16_step_def crc16_byte_split sh idx
    by (rule bit_word_eqI) (simp del: push_bit_xor add: bit_simps)
qed

lemma crc32a_step_ref: "crc32a_step crc p = crc32_byte (crc XOR ucast p)"
proof -
  have "drop_bit 8 crc = drop_bit 8 (crc XOR ucast p)"
    by (rule bit_word_eqI) (auto simp: bit_simps dest: bit_imp_le_length)
  then show ?thesis
    by (simp add: crc32a_step_def crc32_byte_split zx32_def xor.commute)
qed

text \<open>The sign extension of \<open>hash_crc32\<close>'s 64-bit index is masked away.\<close>

lemma crc32_step_crc32a: "crc32_step crc k = crc32a_step crc k"
proof -
  have "unat ((ucast crc XOR sx64 k) AND 0xff) = unat ((crc XOR zx32 k) AND 0xff)"
  proof -
    have "(ucast crc XOR sx64 k) AND 0xff = ucast ((crc XOR zx32 k) AND 0xff)"
      by (rule bit_word_eqI)
         (auto simp: bit_simps bitw sx64_def zx32_def dest: bit_imp_le_length)
    then show ?thesis by simp
  qed
  then show ?thesis by (simp add: crc32_step_def crc32a_step_def xor.commute)
qed

subsection \<open>\<open>hash_crc32a\<close> keeps the contract of \<open>byte_hash\<close>\<close>

lemma crc32_bit_inject: "crc32_bit c = crc32_bit d \<longleftrightarrow> c = d"
proof
  assume eq: "crc32_bit c = crc32_bit d"
  have top: "bit (crc32_bit x) 31 = bit x 0" for x
    by (auto simp: crc32_bit_def bit_simps dest: bit_imp_le_length)
  have low: "bit x (Suc n) = (bit (crc32_bit x) n \<noteq> (bit x 0 \<and> bit (0xedb88320 :: u32) n))"
    for x n by (auto simp: crc32_bit_def bit_simps)
  from eq top[of c] top[of d] have "bit c 0 = bit d 0" by simp
  with eq low[of c] low[of d] have "bit c (Suc n) = bit d (Suc n)" for n by simp
  with \<open>bit c 0 = bit d 0\<close> show "c = d"
    by (metis bit_word_eqI not0_implies_Suc)
qed simp

lemma crc32_byte_inject: "crc32_byte c = crc32_byte d \<longleftrightarrow> c = d"
  by (simp add: crc32_byte_unfold crc32_bit_inject)

interpretation crc32a: byte_hash crc32a_step "\<lambda>crc. crc XOR NOT 0"
  by unfold_locales (simp_all add: crc32a_step_ref crc32_byte_inject)

subsection \<open>Properties\<close>

text \<open>
  \<open>hash_crc16\<close> computes the CRC-16 with polynomial \<open>0x1021\<close> and initial value 0
  in its low 16 bits, for every key: the table lookup, the sign-extended \<open>char\<close> and
  the 32-bit accumulator that is never masked do not disturb it.
\<close>

theorem hash_crc16_correct: "ucast (hash_crc16 key) = crc16_ref key"
  unfolding hash_crc16_def crc16_ref_def
  using foldl_project[where g = "ucast :: u32 \<Rightarrow> u16" and f = crc16_step and a = 0,
      OF crc16_step_ref]
  by simp

text \<open>
  C30. \<open>hash_crc32a\<close> is the standard reflected CRC-32 (polynomial \<open>0xedb88320\<close>, initial
  value and final complement all ones), computed bit by bit, for every key.
\<close>

theorem hash_crc32a_correct: "hash_crc32a key = crc32_ref key"
  by (simp add: hash_crc32a_def crc32_ref_def crc32a_step_ref[abs_def])

text \<open>
  \<open>hash_crc32\<close>, which the source calls incompatible with the specification, is bits
  16 to 30 of the standard CRC-32 that \<open>hash_crc32a\<close> computes: the two loops agree
  although one works on signed and the other on unsigned characters.
\<close>

lemma hash_crc32_of_crc32a: "hash_crc32 key = drop_bit 16 (hash_crc32a key) AND 0x7fff"
proof -
  have "(0xffffffff :: u32) = NOT 0" by simp
  then show ?thesis
    unfolding hash_crc32_def hash_crc32a_def
    by (simp only: ext[OF ext[OF crc32_step_crc32a]])
       (rule arg_cong, rule bit_word_eqI, auto simp: bit_simps)
qed

text \<open>
  Two keys that differ in exactly one byte, at any position, have different
  \<open>hash_crc32a\<close> values.
\<close>

theorem hash_crc32a_one_byte:
  "hash_crc32a (p @ a # s) = hash_crc32a (p @ b # s) \<longleftrightarrow> a = b"
  unfolding hash_crc32a_def by (rule crc32a.one_byte)

end
