(* ===== verification/Hashes.thy ===== *)
theory Hashes
  imports ByteHash
begin

text \<open>
  The multiplicative and shift-based hash functions of \<open>common/hashkit\<close>:
  \<open>hash_one_at_a_time\<close> (\<open>nc_one_at_a_time.c\<close>), the four FNV variants (\<open>nc_fnv.c\<close>),
  \<open>hash_hsieh\<close> (\<open>nc_hsieh.c\<close>) and \<open>hash_murmur\<close> (\<open>nc_murmur.c\<close>, and its
  copy in \<open>common/hashkit.cpp\<close>).

  A loop that visits one byte per iteration is a \<open>foldl\<close> over the key. The loops that
  read blocks are recursive functions on the bytes that remain; the \<open>switch\<close> on
  the tail with its fall-through is one equation per tail length.
\<close>

subsection \<open>One at a time\<close>

definition oaat_step :: "u32 \<Rightarrow> u8 \<Rightarrow> u32" where
  "oaat_step value0 c =
     (let val = sx32 c;
          value1 = value0 + val;
          value2 = value1 + push_bit 10 value1
      in value2 XOR drop_bit 6 value2)"

definition oaat_final :: "u32 \<Rightarrow> u32" where
  "oaat_final value0 =
     (let value1 = value0 + push_bit 3 value0;
          value2 = value1 XOR drop_bit 11 value1
      in value2 + push_bit 15 value2)"

definition hash_one_at_a_time :: "bytes \<Rightarrow> u32" where
  "hash_one_at_a_time key = oaat_final (foldl oaat_step 0 key)"

subsection \<open>FNV\<close>

definition FNV_64_INIT :: u64 where "FNV_64_INIT = 0xcbf29ce484222325"
definition FNV_64_PRIME :: u64 where "FNV_64_PRIME = 0x100000001b3"
definition FNV_32_INIT :: u32 where "FNV_32_INIT = 2166136261"
definition FNV_32_PRIME :: u32 where "FNV_32_PRIME = 16777619"

lemmas fnv_constants = FNV_64_INIT_def FNV_64_PRIME_def FNV_32_INIT_def FNV_32_PRIME_def

text \<open>\<open>hash *= FNV_64_PRIME; hash ^= (uint64_t)key[x]\<close> in 64 bits, truncated at the end.\<close>

definition hash_fnv1_64 :: "bytes \<Rightarrow> u32" where
  "hash_fnv1_64 key = ucast (foldl (\<lambda>hash c. hash * FNV_64_PRIME XOR sx64 c) FNV_64_INIT key)"

text \<open>The \<open>1a\<close> variant keeps only 32 bits from the start.\<close>

definition hash_fnv1a_64 :: "bytes \<Rightarrow> u32" where
  "hash_fnv1a_64 key =
     foldl (\<lambda>hash c. (hash XOR sx32 c) * ucast FNV_64_PRIME) (ucast FNV_64_INIT) key"

definition hash_fnv1_32 :: "bytes \<Rightarrow> u32" where
  "hash_fnv1_32 key = foldl (\<lambda>hash c. hash * FNV_32_PRIME XOR sx32 c) FNV_32_INIT key"

definition hash_fnv1a_32 :: "bytes \<Rightarrow> u32" where
  "hash_fnv1a_32 key = foldl (\<lambda>hash c. (hash XOR sx32 c) * FNV_32_PRIME) FNV_32_INIT key"

subsection \<open>Hsieh\<close>

text \<open>\<open>get16bits\<close> for targets other than 32-bit x86: two unsigned bytes, low one first.\<close>

definition get16bits :: "u8 \<Rightarrow> u8 \<Rightarrow> u32" where
  "get16bits d0 d1 = push_bit 8 (zx32 d1) + zx32 d0"

definition hsieh_block :: "u32 \<Rightarrow> u8 \<Rightarrow> u8 \<Rightarrow> u8 \<Rightarrow> u8 \<Rightarrow> u32" where
  "hsieh_block hash0 k0 k1 k2 k3 =
     (let hash1 = hash0 + get16bits k0 k1;
          tmp = push_bit 11 (get16bits k2 k3) XOR hash1;
          hash2 = push_bit 16 hash1 XOR tmp
      in hash2 + drop_bit 11 hash2)"

definition hsieh_tail3 :: "u32 \<Rightarrow> u8 \<Rightarrow> u8 \<Rightarrow> u8 \<Rightarrow> u32" where
  "hsieh_tail3 hash0 k0 k1 k2 =
     (let hash1 = hash0 + get16bits k0 k1;
          hash2 = hash1 XOR push_bit 16 hash1;
          hash3 = hash2 XOR push_bit 18 (sx32 k2)
      in hash3 + drop_bit 11 hash3)"

definition hsieh_tail2 :: "u32 \<Rightarrow> u8 \<Rightarrow> u8 \<Rightarrow> u32" where
  "hsieh_tail2 hash0 k0 k1 =
     (let hash1 = hash0 + get16bits k0 k1;
          hash2 = hash1 XOR push_bit 11 hash1
      in hash2 + drop_bit 17 hash2)"

definition hsieh_tail1 :: "u32 \<Rightarrow> u8 \<Rightarrow> u32" where
  "hsieh_tail1 hash0 k0 =
     (let hash1 = hash0 + zx32 k0;
          hash2 = hash1 XOR push_bit 10 hash1
      in hash2 + drop_bit 1 hash2)"

fun hsieh_loop :: "u32 \<Rightarrow> bytes \<Rightarrow> u32" where
  "hsieh_loop hash (k0 # k1 # k2 # k3 # key) = hsieh_loop (hsieh_block hash k0 k1 k2 k3) key"
| "hsieh_loop hash [k0, k1, k2] = hsieh_tail3 hash k0 k1 k2"
| "hsieh_loop hash [k0, k1] = hsieh_tail2 hash k0 k1"
| "hsieh_loop hash [k0] = hsieh_tail1 hash k0"
| "hsieh_loop hash [] = hash"

definition hsieh_final :: "u32 \<Rightarrow> u32" where
  "hsieh_final hash0 =
     (let hash1 = hash0 XOR push_bit 3 hash0;
          hash2 = hash1 + drop_bit 5 hash1;
          hash3 = hash2 XOR push_bit 4 hash2;
          hash4 = hash3 + drop_bit 17 hash3;
          hash5 = hash4 XOR push_bit 25 hash4
      in hash5 + drop_bit 6 hash5)"

definition hash_hsieh :: "bytes \<Rightarrow> u32" where
  "hash_hsieh key = (if length key \<le> 0 then 0 else hsieh_final (hsieh_loop 0 key))"

subsection \<open>Murmur 2\<close>

definition murmur_m :: u32 where
  "murmur_m = 0x5bd1e995"

text \<open>\<open>k *= m; k ^= k >> r; k *= m\<close> with \<open>r = 24\<close>.\<close>

definition murmur_mix :: "u32 \<Rightarrow> u32" where
  "murmur_mix k0 =
     (let k1 = k0 * murmur_m;
          k2 = k1 XOR drop_bit 24 k1
      in k2 * murmur_m)"

text \<open>The loop \<open>while (length >= 4)\<close>, then the fall-through \<open>switch(length)\<close>.\<close>

fun murmur_loop :: "u32 \<Rightarrow> bytes \<Rightarrow> u32" where
  "murmur_loop h (d0 # d1 # d2 # d3 # data) =
     murmur_loop (h * murmur_m XOR murmur_mix (get_le [d0, d1, d2, d3])) data"
| "murmur_loop h [d0, d1, d2] =
     (h XOR push_bit 16 (zx32 d2) XOR push_bit 8 (zx32 d1) XOR zx32 d0) * murmur_m"
| "murmur_loop h [d0, d1] = (h XOR push_bit 8 (zx32 d1) XOR zx32 d0) * murmur_m"
| "murmur_loop h [d0] = (h XOR zx32 d0) * murmur_m"
| "murmur_loop h [] = h"

definition murmur_final :: "u32 \<Rightarrow> u32" where
  "murmur_final h0 =
     (let h1 = h0 XOR drop_bit 13 h0;
          h2 = h1 * murmur_m
      in h2 XOR drop_bit 15 h2)"

text \<open>\<open>seed = 0xdeadbeef * (uint32_t)length\<close> and \<open>h = seed ^ (uint32_t)length\<close>.\<close>

definition hash_murmur :: "bytes \<Rightarrow> u32" where
  "hash_murmur key =
     (let len = of_nat (length key); seed = 0xdeadbeef * len
      in murmur_final (murmur_loop (seed XOR len) key))"

subsection \<open>The updates and finishes lose no information\<close>

lemma shift_add_mult: "(v :: 'a::len word) + push_bit n v = v * (2 ^ n + 1)"
  by (simp add: push_bit_eq_mult algebra_simps)

lemma oaat_shift_inject:
  "(v::u32) + push_bit 10 v = w + push_bit 10 w \<longleftrightarrow> v = w"
  "(v::u32) + push_bit 3 v = w + push_bit 3 w \<longleftrightarrow> v = w"
  "(v::u32) + push_bit 15 v = w + push_bit 15 w \<longleftrightarrow> v = w"
  unfolding shift_add_mult
  using mult_unit_inject[of "1025::u32" "0xc00ffc01"]
    mult_unit_inject[of "9::u32" "0x38e38e39"]
    mult_unit_inject[of "32769::u32" "0x3fff8001"]
  by simp_all

interpretation oaat: byte_hash oaat_step oaat_final
  by unfold_locales
     (simp_all add: oaat_step_def oaat_final_def Let_def xorshift_inject oaat_shift_inject
       del: push_bit_xor)

lemma fnv_prime_inject [simp]:
  "x * FNV_32_PRIME = y * FNV_32_PRIME \<longleftrightarrow> x = y"
  "(x :: u32) * ucast FNV_64_PRIME = y * ucast FNV_64_PRIME \<longleftrightarrow> x = y"
  using mult_unit_inject[of FNV_32_PRIME "0x359c449b"]
    mult_unit_inject[of "ucast FNV_64_PRIME :: u32" "0xaff6957b"]
  by (simp_all add: fnv_constants)

interpretation fnv1_32: byte_hash "\<lambda>hash c. hash * FNV_32_PRIME XOR sx32 c" "\<lambda>h. h"
  by unfold_locales simp_all

interpretation fnv1a_32: byte_hash "\<lambda>hash c. (hash XOR sx32 c) * FNV_32_PRIME" "\<lambda>h. h"
  by unfold_locales simp_all

interpretation fnv1a_64:
  byte_hash "\<lambda>hash c. (hash XOR sx32 c) * ucast FNV_64_PRIME :: u32" "\<lambda>h. h"
  by unfold_locales simp_all

lemma ucast_sx64: "(ucast (sx64 c) :: u32) = sx32 c"
  by (rule bit_word_eqI) (auto simp: bit_simps sx64_def sx32_def)

lemma ucast_mult: "(ucast (x * y :: u64) :: u32) = ucast x * ucast y"
  by (rule word_uint_eqI)
     (simp add: unsigned_ucast_eq uint_word_ariths take_bit_eq_mod mod_mod_cancel mod_mult_eq)
lemma ucast_xor: "(ucast (x XOR y :: u64) :: u32) = ucast x XOR ucast y"
  by (rule bit_word_eqI) (auto simp: bit_simps)

lemma hash_fnv1_64_32:
  "hash_fnv1_64 key = foldl (\<lambda>hash c. hash * ucast FNV_64_PRIME XOR sx32 c) (ucast FNV_64_INIT) key"
  unfolding hash_fnv1_64_def
  by (rule foldl_project) (simp add: ucast_mult ucast_xor ucast_sx64)

interpretation fnv1_64:
  byte_hash "\<lambda>hash c. hash * ucast FNV_64_PRIME XOR sx32 c :: u32" "\<lambda>h. h"
  by unfold_locales simp_all

lemma murmur_m_inject [simp]: "x * murmur_m = y * murmur_m \<longleftrightarrow> x = y"
  using mult_unit_inject[of murmur_m "0xe59b19bd"] by (simp add: murmur_m_def)

lemma murmur_mix_inject: "murmur_mix x = murmur_mix y \<longleftrightarrow> x = y"
  by (simp add: murmur_mix_def Let_def xorshift_inject)

lemma murmur_final_inject: "murmur_final x = murmur_final y \<longleftrightarrow> x = y"
  by (simp add: murmur_final_def Let_def xorshift_inject)

lemma murmur_loop_state: "murmur_loop h s = murmur_loop g s \<longleftrightarrow> h = g"
  by (induction h s arbitrary: g rule: murmur_loop.induct) simp_all

lemma murmur_loop_prefix:
  assumes "4 dvd length p"
  shows "\<exists>g. \<forall>s. murmur_loop h (p @ s) = murmur_loop g s"
proof -
  from assms obtain n where "length p = 4 * n" ..
  then show ?thesis
  proof (induction n arbitrary: p h)
    case (Suc n)
    then obtain d0 d1 d2 d3 q where p: "p = d0 # d1 # d2 # d3 # q" "length q = 4 * n"
      using length4_conv[of p "4 * n"] by auto
    from Suc.IH[OF p(2)] show ?case by (simp add: p(1))
  qed auto
qed

lemma murmur_loop_tail:
  "0 < length t \<Longrightarrow> length t < 4 \<Longrightarrow> murmur_loop h t = (h XOR get_le t) * murmur_m"
proof -
  have e2: "h XOR push_bit 8 (zx32 b) XOR zx32 a = h XOR get_le [a, b]" for a b
    by (rule bit_word_eqI) (auto simp: zx32_def bit_simps dest: bit_imp_le_length)
  have e3: "h XOR push_bit 16 (zx32 c) XOR push_bit 8 (zx32 b) XOR zx32 a = h XOR get_le [a, b, c]"
    for a b c
    by (rule bit_word_eqI) (auto simp: zx32_def bit_simps dest: bit_imp_le_length)
  assume "0 < length t" "length t < 4"
  then consider a where "t = [a]" | a b where "t = [a, b]" | a b c where "t = [a, b, c]"
    by (cases "(h, t)" rule: murmur_loop.cases) auto
  then show ?thesis
    by cases (simp_all only: murmur_loop.simps e2 e3, simp add: zx32_def)
qed

subsection \<open>The FNV reference\<close>

text \<open>FNV-1 and FNV-1a as their specification has them: on unsigned octets, at full width.\<close>

definition fnv1_ref :: "'a::len word \<Rightarrow> 'a word \<Rightarrow> bytes \<Rightarrow> 'a word" where
  "fnv1_ref prime offset key = foldl (\<lambda>h b. h * prime XOR ucast b) offset key"

definition fnv1a_ref :: "'a::len word \<Rightarrow> 'a word \<Rightarrow> bytes \<Rightarrow> 'a word" where
  "fnv1a_ref prime offset key = foldl (\<lambda>h b. (h XOR ucast b) * prime) offset key"

lemma foldl_cong_set:
  "(\<And>h b. b \<in> set key \<Longrightarrow> f h b = g h b) \<Longrightarrow> foldl f i key = foldl g i key"
  by (induction key arbitrary: i) simp_all

lemma ucast_byte_64_32 [simp]: "(ucast (ucast (b :: u8) :: u64) :: u32) = ucast b"
  by (rule bit_word_eqI) (auto simp: bit_simps dest: bit_imp_le_length)

lemma ucast_fnv1_ref:
  "(ucast (fnv1_ref prime offset key :: u64) :: u32) = fnv1_ref (ucast prime) (ucast offset) key"
  unfolding fnv1_ref_def by (rule foldl_project) (simp add: ucast_mult ucast_xor)

lemma ucast_fnv1a_ref:
  "(ucast (fnv1a_ref prime offset key :: u64) :: u32) = fnv1a_ref (ucast prime) (ucast offset) key"
  unfolding fnv1a_ref_def by (rule foldl_project) (simp add: ucast_mult ucast_xor)

subsection \<open>Properties\<close>

text \<open>
  Two keys of the same length that differ only inside one aligned four-byte block, or
  only inside the shorter tail block, never have the same \<open>hash_murmur\<close>.
\<close>

theorem hash_murmur_window:
  assumes "4 dvd length p" "length a = length b" "length a \<le> 4" "length a < 4 \<longrightarrow> s = []"
  shows "hash_murmur (p @ a @ s) = hash_murmur (p @ b @ s) \<longleftrightarrow> a = b"
proof -
  define h0 where "h0 = (let len = of_nat (length (p @ a @ s)) in (0xdeadbeef * len :: u32) XOR len)"
  have len: "length (p @ b @ s) = length (p @ a @ s)" using assms(2) by simp
  have ha: "hash_murmur (p @ a @ s) = murmur_final (murmur_loop h0 (p @ a @ s))"
    by (simp add: hash_murmur_def h0_def Let_def)
  have hb: "hash_murmur (p @ b @ s) = murmur_final (murmur_loop h0 (p @ b @ s))"
    unfolding hash_murmur_def len by (simp add: h0_def Let_def)
  from murmur_loop_prefix[OF assms(1)] obtain g
    where g: "murmur_loop h0 (p @ t) = murmur_loop g t" for t by blast
  have "murmur_loop g (a @ s) = murmur_loop g (b @ s) \<longleftrightarrow> a = b"
  proof (cases "length a = 4")
    case True
    with assms(2) obtain a0 a1 a2 a3 b0 b1 b2 b3
      where a: "a = [a0, a1, a2, a3]" and b: "b = [b0, b1, b2, b3]"
      using length4_conv[of _ 0] by (metis add.right_neutral length_0_conv)
    show ?thesis
      using get_le_inject[of a b, where 'a=32]
      by (simp add: a b murmur_loop_state murmur_mix_inject del: get_le.simps)
  next
    case False
    then have s: "s = []" "length a < 4" using assms by auto
    show ?thesis
    proof (cases "a = []")
      case False
      then have "0 < length a" "0 < length b" using assms(2) by auto
      with s assms(2) show ?thesis
        using get_le_inject[of a b, where 'a=32] by (simp add: murmur_loop_tail)
    qed (use s assms in auto)
  qed
  then show ?thesis by (simp add: ha hb g murmur_final_inject)
qed

text \<open>The two-block key "abcd" "efg" with its second block replaced by "hij".\<close>

theorem hash_murmur_window_witness:
  "hash_murmur ([97, 98, 99, 100] @ [101, 102, 103] @ []) \<noteq>
   hash_murmur ([97, 98, 99, 100] @ [104, 105, 106] @ [])"
proof -
  have "4 dvd length [97, 98, 99, 100 :: u8]" by (rule dvdI[of _ _ 1]) simp
  from hash_murmur_window[OF this, of "[101, 102, 103]" "[104, 105, 106]" "[]"]
  show ?thesis by simp
qed

text \<open>
  Changing exactly one byte of a key, at any position, always changes the value of
  \<open>hash_one_at_a_time\<close> and of each of the four FNV functions; for \<open>hash_fnv1_64\<close> this
  holds although its 64-bit state is cut to 32 bits at the end.
\<close>

theorem byte_hashes_one_byte:
  "(hash_one_at_a_time (p @ a # s) = hash_one_at_a_time (p @ b # s) \<longleftrightarrow> a = b) \<and>
   (hash_fnv1_64 (p @ a # s) = hash_fnv1_64 (p @ b # s) \<longleftrightarrow> a = b) \<and>
   (hash_fnv1a_64 (p @ a # s) = hash_fnv1a_64 (p @ b # s) \<longleftrightarrow> a = b) \<and>
   (hash_fnv1_32 (p @ a # s) = hash_fnv1_32 (p @ b # s) \<longleftrightarrow> a = b) \<and>
   (hash_fnv1a_32 (p @ a # s) = hash_fnv1a_32 (p @ b # s) \<longleftrightarrow> a = b)"
  unfolding hash_one_at_a_time_def hash_fnv1_64_32 hash_fnv1a_64_def hash_fnv1_32_def
    hash_fnv1a_32_def
  by (intro conjI oaat.one_byte fnv1_64.one_byte fnv1a_64.one_byte fnv1_32.one_byte
      fnv1a_32.one_byte)

text \<open>
  On ASCII keys the four FNV functions are the published FNV-1 and FNV-1a; the two
  64-bit variants return the low half of the 64-bit hash, also \<open>hash_fnv1a_64\<close>, which
  computes in 32 bits throughout.
\<close>

theorem fnv_ascii:
  assumes "\<forall>c\<in>set key. ascii c"
  shows "hash_fnv1_64 key = ucast (fnv1_ref 0x100000001b3 (0xcbf29ce484222325 :: u64) key) \<and>
    hash_fnv1a_64 key = ucast (fnv1a_ref 0x100000001b3 (0xcbf29ce484222325 :: u64) key) \<and>
    hash_fnv1_32 key = fnv1_ref 0x01000193 0x811c9dc5 key \<and>
    hash_fnv1a_32 key = fnv1a_ref 0x01000193 0x811c9dc5 key"
proof -
  have sx: "sx32 c = ucast c" if "c \<in> set key" for c
    using assms that by (simp add: sx32_ascii zx32_def)
  show ?thesis
    unfolding hash_fnv1_64_32 hash_fnv1a_64_def hash_fnv1_32_def hash_fnv1a_32_def
      ucast_fnv1_ref ucast_fnv1a_ref
    unfolding fnv1_ref_def fnv1a_ref_def
    by (intro conjI foldl_cong_set) (simp_all add: sx fnv_constants cong: foldl_cong)
qed

theorem fnv_ascii_witness:
  "hash_fnv1a_32 [97] = 0xe40c292c \<and> hash_fnv1a_32 [97] = fnv1a_ref 0x01000193 0x811c9dc5 [97]"
  using fnv_ascii[of "[97]"]
  by (simp add: ascii_def fnv1a_ref_def)

text \<open>
  On a byte with its top bit set the sign extension of \<open>char\<close> shows: the 32-bit
  FNV-1a of the one-byte key \<open>0x80\<close> is not the published one.
\<close>

theorem fnv_sign_extension:
  "hash_fnv1a_32 [0x80] \<noteq> fnv1a_ref 0x01000193 0x811c9dc5 [0x80]"
  by (simp add: hash_fnv1a_32_def fnv1a_ref_def fnv_constants sx32_def)

end
