(* ===== verification/Jenkins.thy ===== *)
theory Jenkins
  imports Prelude
begin

text \<open>
  Bob Jenkins' hash, \<open>common/hashkit/nc_jenkins.c\<close>. The C function has three bodies, for
  keys aligned to four bytes, to two bytes, and not at all; the first reads whole words
  past the end of the key and masks them off. The model keeps all three. The key is a
  memory \<open>m\<close> read at offsets from the key pointer, so that what lies behind the key is
  part of the input, and the alignment is that of the address \<open>p\<close>.
\<close>

type_synonym abc = "u32 \<times> u32 \<times> u32"

subsection \<open>Mixing\<close>

definition rot :: "u32 \<Rightarrow> nat \<Rightarrow> u32" where
  "rot x k = push_bit k x OR drop_bit (32 - k) x"

definition mix :: "abc \<Rightarrow> abc" where
  "mix abc0 =
     (case abc0 of (a, b, c) \<Rightarrow>
      let a = a - c; a = a XOR rot c 4;  c = c + b;
          b = b - a; b = b XOR rot a 6;  a = a + c;
          c = c - b; c = c XOR rot b 8;  b = b + a;
          a = a - c; a = a XOR rot c 16; c = c + b;
          b = b - a; b = b XOR rot a 19; a = a + c;
          c = c - b; c = c XOR rot b 4;  b = b + a
      in (a, b, c))"

definition final :: "abc \<Rightarrow> u32" where
  "final abc0 =
     (case abc0 of (a, b, c) \<Rightarrow>
      let c = c XOR b; c = c - rot b 14;
          a = a XOR c; a = a - rot c 11;
          b = b XOR a; b = b - rot a 25;
          c = c XOR b; c = c - rot b 16;
          a = a XOR c; a = a - rot c 4;
          b = b XOR a; b = b - rot a 14;
          c = c XOR b; c = c - rot b 24
      in c)"

definition JENKINS_INITVAL :: u32 where
  "JENKINS_INITVAL = 13"

subsection \<open>Reads through the three pointer types\<close>

text \<open>\<open>k[i]\<close> for \<open>k\<close> a \<open>uint32_t *\<close>, a \<open>uint16_t *\<close> or a \<open>uint8_t *\<close> at offset \<open>k\<close>.\<close>

definition at32 :: "(nat \<Rightarrow> u8) \<Rightarrow> nat \<Rightarrow> nat \<Rightarrow> u32" where
  "at32 m k i =
     get_le [m (k + 4 * i), m (k + (4 * i + 1)), m (k + (4 * i + 2)), m (k + (4 * i + 3))]"

definition at16 :: "(nat \<Rightarrow> u8) \<Rightarrow> nat \<Rightarrow> nat \<Rightarrow> u32" where
  "at16 m k i = get_le [m (k + 2 * i), m (k + (2 * i + 1))]"

definition at8 :: "(nat \<Rightarrow> u8) \<Rightarrow> nat \<Rightarrow> nat \<Rightarrow> u32" where
  "at8 m k i = zx32 (m (k + i))"

subsection \<open>All but the last block\<close>

definition block32 :: "(nat \<Rightarrow> u8) \<Rightarrow> nat \<Rightarrow> abc \<Rightarrow> abc" where
  "block32 m k abc0 =
     (case abc0 of (a, b, c) \<Rightarrow> (a + at32 m k 0, b + at32 m k 1, c + at32 m k 2))"

definition block16 :: "(nat \<Rightarrow> u8) \<Rightarrow> nat \<Rightarrow> abc \<Rightarrow> abc" where
  "block16 m k abc0 =
     (case abc0 of (a, b, c) \<Rightarrow>
        (a + (at16 m k 0 + push_bit 16 (at16 m k 1)),
         b + (at16 m k 2 + push_bit 16 (at16 m k 3)),
         c + (at16 m k 4 + push_bit 16 (at16 m k 5))))"

definition block8 :: "(nat \<Rightarrow> u8) \<Rightarrow> nat \<Rightarrow> abc \<Rightarrow> abc" where
  "block8 m k abc0 =
     (case abc0 of (a, b, c) \<Rightarrow>
        (a + at8 m k 0 + push_bit 8 (at8 m k 1) + push_bit 16 (at8 m k 2)
           + push_bit 24 (at8 m k 3),
         b + at8 m k 4 + push_bit 8 (at8 m k 5) + push_bit 16 (at8 m k 6)
           + push_bit 24 (at8 m k 7),
         c + at8 m k 8 + push_bit 8 (at8 m k 9) + push_bit 16 (at8 m k 10)
           + push_bit 24 (at8 m k 11)))"

text \<open>\<open>while (len > 12)\<close>; the result is the offset, the length and the state left.\<close>

function loop :: "(nat \<Rightarrow> abc \<Rightarrow> abc) \<Rightarrow> nat \<Rightarrow> nat \<Rightarrow> abc \<Rightarrow> nat \<times> nat \<times> abc" where
  "loop block k len st =
     (if 12 < len then loop block (k + 12) (len - 12) (mix (block k st))
      else (k, len, st))"
  by pat_completeness auto
termination
  by (relation "measure (\<lambda>(block, k, len, st). len)") auto

declare loop.simps [simp del]

subsection \<open>The last block\<close>

text \<open>
  The three \<open>switch\<close>es. \<open>None\<close> is \<open>return c\<close> before the final mixing. A fall-through is
  written out: in the byte-wise body, where every case falls through, a statement runs
  when the length is at least its label.
\<close>

definition tail32 :: "(nat \<Rightarrow> u8) \<Rightarrow> nat \<Rightarrow> nat \<Rightarrow> abc \<Rightarrow> abc option" where
  "tail32 m k len abc0 =
     (case abc0 of (a, b, c) \<Rightarrow>
      let w = at32 m k in
      if len = 12 then Some (a + w 0, b + w 1, c + w 2)
      else if len = 11 then Some (a + w 0, b + w 1, c + (w 2 AND 0xffffff))
      else if len = 10 then Some (a + w 0, b + w 1, c + (w 2 AND 0xffff))
      else if len = 9 then Some (a + w 0, b + w 1, c + (w 2 AND 0xff))
      else if len = 8 then Some (a + w 0, b + w 1, c)
      else if len = 7 then Some (a + w 0, b + (w 1 AND 0xffffff), c)
      else if len = 6 then Some (a + w 0, b + (w 1 AND 0xffff), c)
      else if len = 5 then Some (a + w 0, b + (w 1 AND 0xff), c)
      else if len = 4 then Some (a + w 0, b, c)
      else if len = 3 then Some (a + (w 0 AND 0xffffff), b, c)
      else if len = 2 then Some (a + (w 0 AND 0xffff), b, c)
      else if len = 1 then Some (a + (w 0 AND 0xff), b, c)
      else None)"

definition tail16 :: "(nat \<Rightarrow> u8) \<Rightarrow> nat \<Rightarrow> nat \<Rightarrow> abc \<Rightarrow> abc option" where
  "tail16 m k len abc0 =
     (case abc0 of (a, b, c) \<Rightarrow>
      let h = at16 m k; k8 = at8 m k;
          a4 = a + (h 0 + push_bit 16 (h 1)); b4 = b + (h 2 + push_bit 16 (h 3)) in
      if len = 12 then Some (a4, b4, c + (h 4 + push_bit 16 (h 5)))
      else if len = 11 then Some (a4, b4, c + push_bit 16 (k8 10) + h 4)
      else if len = 10 then Some (a4, b4, c + h 4)
      else if len = 9 then Some (a4, b4, c + k8 8)
      else if len = 8 then Some (a4, b4, c)
      else if len = 7 then Some (a4, b + push_bit 16 (k8 6) + h 2, c)
      else if len = 6 then Some (a4, b + h 2, c)
      else if len = 5 then Some (a4, b + k8 4, c)
      else if len = 4 then Some (a4, b, c)
      else if len = 3 then Some (a + push_bit 16 (k8 2) + h 0, b, c)
      else if len = 2 then Some (a + h 0, b, c)
      else if len = 1 then Some (a + k8 0, b, c)
      else None)"

definition tail8 :: "(nat \<Rightarrow> u8) \<Rightarrow> nat \<Rightarrow> nat \<Rightarrow> abc \<Rightarrow> abc option" where
  "tail8 m k len abc0 =
     (case abc0 of (a, b, c) \<Rightarrow>
      let k8 = at8 m k;
          c = (if 12 \<le> len then c + push_bit 24 (k8 11) else c);
          c = (if 11 \<le> len then c + push_bit 16 (k8 10) else c);
          c = (if 10 \<le> len then c + push_bit 8 (k8 9) else c);
          c = (if 9 \<le> len then c + k8 8 else c);
          b = (if 8 \<le> len then b + push_bit 24 (k8 7) else b);
          b = (if 7 \<le> len then b + push_bit 16 (k8 6) else b);
          b = (if 6 \<le> len then b + push_bit 8 (k8 5) else b);
          b = (if 5 \<le> len then b + k8 4 else b);
          a = (if 4 \<le> len then a + push_bit 24 (k8 3) else a);
          a = (if 3 \<le> len then a + push_bit 16 (k8 2) else a);
          a = (if 2 \<le> len then a + push_bit 8 (k8 1) else a);
          a = (if 1 \<le> len then a + k8 0 else a)
      in if len = 0 \<or> 12 < len then None else Some (a, b, c))"

subsection \<open>The hash function\<close>

definition finish :: "(nat \<Rightarrow> nat \<Rightarrow> abc \<Rightarrow> abc option) \<Rightarrow> nat \<times> nat \<times> abc \<Rightarrow> u32" where
  "finish rest r =
     (case r of (k, len, st) \<Rightarrow>
      case rest k len st of None \<Rightarrow> snd (snd st) | Some st' \<Rightarrow> final st')"

definition hash_jenkins :: "u64 \<Rightarrow> (nat \<Rightarrow> u8) \<Rightarrow> nat \<Rightarrow> u32" where
  "hash_jenkins p m len =
     (let i = 0xdeadbeef + of_nat len + JENKINS_INITVAL; st = (i, i, i) in
      if p AND 0x3 = 0 then finish (tail32 m) (loop (block32 m) 0 len st)
      else if p AND 0x1 = 0 then finish (tail16 m) (loop (block16 m) 0 len st)
      else finish (tail8 m) (loop (block8 m) 0 len st))"

subsection \<open>The three bodies agree\<close>

lemma Suc3: "Suc (Suc (Suc k)) = k + 3"
  by simp

lemmas at_sums = Suc3 at16_def at8_def get_le_Cons_add push_bit_add push_bit_push_bit add.assoc

lemma at32_masks:
  "at32 m k i AND 0xff = at8 m (k + 4 * i) 0"
  "at32 m k i AND 0xffff = at16 m (k + 4 * i) 0"
  "at32 m k i AND 0xffffff = at16 m (k + 4 * i) 0 + push_bit 16 (at8 m (k + 4 * i) 2)"
  unfolding at32_def get_le_masks by (simp_all add: at_sums del: get_le.simps(2))

lemma at32_sum: "at32 m k i = at16 m (k + 4 * i) 0 + push_bit 16 (at16 m (k + 4 * i) 1)"
  unfolding at32_def by (simp add: at_sums del: get_le.simps(2))

lemma block32_block8: "block32 m k st = block8 m k st"
  by (cases st) (simp add: block32_def block8_def at32_sum at_sums ac_simps del: get_le.simps(2))

lemma block16_block8: "block16 m k st = block8 m k st"
  by (cases st) (simp add: block16_def block8_def at_sums del: get_le.simps(2))

lemma upto12: "len \<le> 12 \<Longrightarrow>
  len = 0 \<or> len = 1 \<or> len = 2 \<or> len = 3 \<or> len = 4 \<or> len = 5 \<or> len = 6 \<or>
  len = 7 \<or> len = 8 \<or> len = 9 \<or> len = 10 \<or> len = 11 \<or> len = (12 :: nat)" by presburger

lemma tail32_tail16: "len \<le> 12 \<Longrightarrow> tail32 m k len (a, b, c) = tail16 m k len (a, b, c)"
  unfolding tail32_def tail16_def Let_def prod.case at32_masks
  unfolding at32_sum
  by (drule upto12, elim disjE) (simp_all add: at_sums ac_simps del: get_le.simps(2))

lemma tail16_tail8: "len \<le> 12 \<Longrightarrow> tail16 m k len (a, b, c) = tail8 m k len (a, b, c)"
  by (drule upto12, elim disjE)
     (simp_all add: tail16_def tail8_def Let_def at_sums ac_simps del: get_le.simps(2))

lemma loop_len: "loop block k len st = (k', len', st') \<Longrightarrow> len' \<le> 12"
proof (induction block k len st rule: loop.induct)
  case (1 block k len st)
  then show ?case by (cases "12 < len") (simp_all add: loop.simps[of block k len st])
qed


lemma finish_loop_cong:
  assumes "\<And>k len a b c. len \<le> 12 \<Longrightarrow> f k len (a, b, c) = g k len (a, b, c)"
  shows "finish f (loop block k len st) = finish g (loop block k len st)"
proof -
  obtain k' len' a b c where r: "loop block k len st = (k', len', a, b, c)"
    by (metis prod.exhaust)
  with loop_len have "len' \<le> 12" by blast
  with assms show ?thesis by (simp add: r finish_def)
qed

lemma hash_jenkins_bytewise:
  "hash_jenkins p m len =
     (let i = 0xdeadbeef + of_nat len + JENKINS_INITVAL
      in finish (tail8 m) (loop (block8 m) 0 len (i, i, i)))"
proof -
  have b: "block32 m = block8 m" "block16 m = block8 m"
    by (simp_all add: block32_block8 block16_block8 fun_eq_iff)
  have "finish (tail32 m) (loop block k len st) = finish (tail8 m) (loop block k len st)"
    "finish (tail16 m) (loop block k len st) = finish (tail8 m) (loop block k len st)" for block k st
    by (rule finish_loop_cong, simp add: tail32_tail16 tail16_tail8)+
  then show ?thesis
    by (simp add: hash_jenkins_def Let_def b)
qed

text \<open>The byte-wise body reads only below the length of the key.\<close>

lemma at8_cong: "m (k + i) = m' (k + i) \<Longrightarrow> at8 m k i = at8 m' k i"
  by (simp add: at8_def)

lemma block8_cong:
  assumes "\<And>i. i < 12 \<Longrightarrow> m (k + i) = m' (k + i)"
  shows "block8 m k st = block8 m' k st"
proof -
  have "at8 m k i = at8 m' k i" if "i < 12" for i
    using assms[OF that] by (rule at8_cong)
  then show ?thesis by (cases st) (simp add: block8_def)
qed

lemma tail8_cong:
  assumes "\<And>i. i < len \<Longrightarrow> m (k + i) = m' (k + i)"
  shows "tail8 m k len st = tail8 m' k len st"
proof -
  have "at8 m k i = at8 m' k i" if "i < len" for i
    using assms[OF that] by (rule at8_cong)
  then show ?thesis by (cases st) (simp add: tail8_def Let_def cong: if_cong)
qed

lemma bytewise_cong:
  "(\<And>i. i < k + len \<Longrightarrow> m i = m' i) \<Longrightarrow>
    finish (tail8 m) (loop (block8 m) k len st) = finish (tail8 m') (loop (block8 m') k len st)"
proof (induction "block8 m" k len st rule: loop.induct)
  case (1 k len st)
  show ?case
  proof (cases "12 < len")
    case True
    with 1 have "block8 m k st = block8 m' k st" by (intro block8_cong) simp
    with 1 True show ?thesis
      by (simp add: loop.simps[of "block8 m" k len st] loop.simps[of "block8 m'" k len st])
  next
    case False
    with 1 have "tail8 m k len st = tail8 m' k len st" by (intro tail8_cong) simp
    with False show ?thesis
      by (simp add: loop.simps[of "block8 m" k len st] loop.simps[of "block8 m'" k len st] finish_def)
  qed
qed

subsection \<open>Properties\<close>

text \<open>
  C29. The three bodies of \<open>hash_jenkins\<close> compute the same function: the result depends on
  the bytes of the key and its length only, neither on the address of the key nor on the
  bytes behind its end that the word-wise body reads and masks.
\<close>

theorem hash_jenkins_alignment:
  assumes "\<forall>i<len. m i = m' i"
  shows "hash_jenkins p m len = hash_jenkins q m' len"
  using assms bytewise_cong[of 0 len m m'] by (simp add: hash_jenkins_bytewise Let_def)

theorem hash_jenkins_alignment_witness:
  "hash_jenkins 0 (\<lambda>i. if i < 3 then 97 else 0) 3 = hash_jenkins 1 (\<lambda>i. if i < 3 then 97 else 255) 3"
  by (rule hash_jenkins_alignment) simp
end
