(* ===== verification/Md5.thy ===== *)
theory Md5
  imports Prelude
begin

text \<open>
  The incremental MD5 of \<open>common/hashkit/nc_md5.c\<close> (\<open>MD5_Init\<close>, \<open>MD5_Update\<close>,
  \<open>MD5_Final\<close>, \<open>md5_signature\<close>, \<open>hash_md5\<close>) and \<open>ketama_hash\<close> of
  \<open>nc_ketama.c\<close>, for the little-endian branch of \<open>SET\<close>, which reads the input as words.

  The specification is the message digest of the whole message: padding, then the block
  function in its loop form. A context represents a message (\<open>represents\<close>) when its
  counters hold the length, its registers the digest of the full blocks and its buffer the
  bytes left over; every call of \<open>MD5_Update\<close> keeps that, wherever the message is cut.
\<close>

subsection \<open>The context\<close>

record MD5_CTX =
  lo :: u32
  hi :: u32
  reg_a :: u32
  reg_b :: u32
  reg_c :: u32
  reg_d :: u32
  buffer :: bytes
  block :: "u32 list"

type_synonym abcd = "u32 \<times> u32 \<times> u32 \<times> u32"

subsection \<open>The basic functions and one step\<close>

definition md5_F :: "u32 \<Rightarrow> u32 \<Rightarrow> u32 \<Rightarrow> u32" where
  "md5_F x y z = z XOR (x AND (y XOR z))"

definition md5_G :: "u32 \<Rightarrow> u32 \<Rightarrow> u32 \<Rightarrow> u32" where
  "md5_G x y z = y XOR (z AND (x XOR y))"

definition md5_H :: "u32 \<Rightarrow> u32 \<Rightarrow> u32 \<Rightarrow> u32" where
  "md5_H x y z = x XOR y XOR z"

definition md5_I :: "u32 \<Rightarrow> u32 \<Rightarrow> u32 \<Rightarrow> u32" where
  "md5_I x y z = y XOR (x OR NOT z)"

definition STEP ::
    "(u32 \<Rightarrow> u32 \<Rightarrow> u32 \<Rightarrow> u32) \<Rightarrow> u32 \<Rightarrow> u32 \<Rightarrow> u32 \<Rightarrow> u32 \<Rightarrow> u32 \<Rightarrow> u32 \<Rightarrow> nat \<Rightarrow> u32" where
  "STEP f a0 b c d x t s =
     (let a1 = a0 + (f b c d + x + t);
          a2 = push_bit s a1 OR drop_bit (32 - s) (a1 AND 0xffffffff)
      in a2 + b)"

text \<open>\<open>SET(n)\<close> and \<open>GET(n)\<close>: \<open>*(MD5_u32plus *)&ptr[n * 4]\<close>.\<close>

definition SET :: "bytes \<Rightarrow> nat \<Rightarrow> u32" where
  "SET ptr n = get_le (take 4 (drop (n * 4) ptr))"

subsection \<open>The block function, unrolled as in the source\<close>

definition body_block :: "abcd \<Rightarrow> bytes \<Rightarrow> abcd" where
  "body_block saved ptr = (case saved of (saved_a, saved_b, saved_c, saved_d) \<Rightarrow>
   let a = saved_a in let b = saved_b in let c = saved_c in let d = saved_d in
   \<comment> \<open>Round 1\<close>
   let a = STEP md5_F a b c d (SET ptr 0) 0xd76aa478 7 in
   let d = STEP md5_F d a b c (SET ptr 1) 0xe8c7b756 12 in
   let c = STEP md5_F c d a b (SET ptr 2) 0x242070db 17 in
   let b = STEP md5_F b c d a (SET ptr 3) 0xc1bdceee 22 in
   let a = STEP md5_F a b c d (SET ptr 4) 0xf57c0faf 7 in
   let d = STEP md5_F d a b c (SET ptr 5) 0x4787c62a 12 in
   let c = STEP md5_F c d a b (SET ptr 6) 0xa8304613 17 in
   let b = STEP md5_F b c d a (SET ptr 7) 0xfd469501 22 in
   let a = STEP md5_F a b c d (SET ptr 8) 0x698098d8 7 in
   let d = STEP md5_F d a b c (SET ptr 9) 0x8b44f7af 12 in
   let c = STEP md5_F c d a b (SET ptr 10) 0xffff5bb1 17 in
   let b = STEP md5_F b c d a (SET ptr 11) 0x895cd7be 22 in
   let a = STEP md5_F a b c d (SET ptr 12) 0x6b901122 7 in
   let d = STEP md5_F d a b c (SET ptr 13) 0xfd987193 12 in
   let c = STEP md5_F c d a b (SET ptr 14) 0xa679438e 17 in
   let b = STEP md5_F b c d a (SET ptr 15) 0x49b40821 22 in
   \<comment> \<open>Round 2\<close>
   let a = STEP md5_G a b c d (SET ptr 1) 0xf61e2562 5 in
   let d = STEP md5_G d a b c (SET ptr 6) 0xc040b340 9 in
   let c = STEP md5_G c d a b (SET ptr 11) 0x265e5a51 14 in
   let b = STEP md5_G b c d a (SET ptr 0) 0xe9b6c7aa 20 in
   let a = STEP md5_G a b c d (SET ptr 5) 0xd62f105d 5 in
   let d = STEP md5_G d a b c (SET ptr 10) 0x02441453 9 in
   let c = STEP md5_G c d a b (SET ptr 15) 0xd8a1e681 14 in
   let b = STEP md5_G b c d a (SET ptr 4) 0xe7d3fbc8 20 in
   let a = STEP md5_G a b c d (SET ptr 9) 0x21e1cde6 5 in
   let d = STEP md5_G d a b c (SET ptr 14) 0xc33707d6 9 in
   let c = STEP md5_G c d a b (SET ptr 3) 0xf4d50d87 14 in
   let b = STEP md5_G b c d a (SET ptr 8) 0x455a14ed 20 in
   let a = STEP md5_G a b c d (SET ptr 13) 0xa9e3e905 5 in
   let d = STEP md5_G d a b c (SET ptr 2) 0xfcefa3f8 9 in
   let c = STEP md5_G c d a b (SET ptr 7) 0x676f02d9 14 in
   let b = STEP md5_G b c d a (SET ptr 12) 0x8d2a4c8a 20 in
   \<comment> \<open>Round 3\<close>
   let a = STEP md5_H a b c d (SET ptr 5) 0xfffa3942 4 in
   let d = STEP md5_H d a b c (SET ptr 8) 0x8771f681 11 in
   let c = STEP md5_H c d a b (SET ptr 11) 0x6d9d6122 16 in
   let b = STEP md5_H b c d a (SET ptr 14) 0xfde5380c 23 in
   let a = STEP md5_H a b c d (SET ptr 1) 0xa4beea44 4 in
   let d = STEP md5_H d a b c (SET ptr 4) 0x4bdecfa9 11 in
   let c = STEP md5_H c d a b (SET ptr 7) 0xf6bb4b60 16 in
   let b = STEP md5_H b c d a (SET ptr 10) 0xbebfbc70 23 in
   let a = STEP md5_H a b c d (SET ptr 13) 0x289b7ec6 4 in
   let d = STEP md5_H d a b c (SET ptr 0) 0xeaa127fa 11 in
   let c = STEP md5_H c d a b (SET ptr 3) 0xd4ef3085 16 in
   let b = STEP md5_H b c d a (SET ptr 6) 0x04881d05 23 in
   let a = STEP md5_H a b c d (SET ptr 9) 0xd9d4d039 4 in
   let d = STEP md5_H d a b c (SET ptr 12) 0xe6db99e5 11 in
   let c = STEP md5_H c d a b (SET ptr 15) 0x1fa27cf8 16 in
   let b = STEP md5_H b c d a (SET ptr 2) 0xc4ac5665 23 in
   \<comment> \<open>Round 4\<close>
   let a = STEP md5_I a b c d (SET ptr 0) 0xf4292244 6 in
   let d = STEP md5_I d a b c (SET ptr 7) 0x432aff97 10 in
   let c = STEP md5_I c d a b (SET ptr 14) 0xab9423a7 15 in
   let b = STEP md5_I b c d a (SET ptr 5) 0xfc93a039 21 in
   let a = STEP md5_I a b c d (SET ptr 12) 0x655b59c3 6 in
   let d = STEP md5_I d a b c (SET ptr 3) 0x8f0ccc92 10 in
   let c = STEP md5_I c d a b (SET ptr 10) 0xffeff47d 15 in
   let b = STEP md5_I b c d a (SET ptr 1) 0x85845dd1 21 in
   let a = STEP md5_I a b c d (SET ptr 8) 0x6fa87e4f 6 in
   let d = STEP md5_I d a b c (SET ptr 15) 0xfe2ce6e0 10 in
   let c = STEP md5_I c d a b (SET ptr 6) 0xa3014314 15 in
   let b = STEP md5_I b c d a (SET ptr 13) 0x4e0811a1 21 in
   let a = STEP md5_I a b c d (SET ptr 4) 0xf7537e82 6 in
   let d = STEP md5_I d a b c (SET ptr 11) 0xbd3af235 10 in
   let c = STEP md5_I c d a b (SET ptr 2) 0x2ad7d2bb 15 in
   let b = STEP md5_I b c d a (SET ptr 9) 0xeb86d391 21 in
   (a + saved_a, b + saved_b, c + saved_c, d + saved_d))"

text \<open>
  \<open>do ... while (size -= 64)\<close> over a positive multiple of 64 bytes, which is what all the
  calls pass. The result is the registers and the pointer behind the last block.
\<close>

function body_loop :: "abcd \<Rightarrow> bytes \<Rightarrow> nat \<Rightarrow> abcd \<times> bytes" where
  "body_loop abcd ptr sz =
     (let abcd' = body_block abcd ptr; ptr' = drop 64 ptr in
      if 64 < sz then body_loop abcd' ptr' (sz - 64) else (abcd', ptr'))"
  by pat_completeness auto
termination
  by (relation "measure (\<lambda>(abcd, ptr, sz). sz)") auto

declare body_loop.simps [simp del]

definition regs :: "MD5_CTX \<Rightarrow> abcd" where
  "regs ctx = (reg_a ctx, reg_b ctx, reg_c ctx, reg_d ctx)"

definition body :: "MD5_CTX \<Rightarrow> bytes \<Rightarrow> nat \<Rightarrow> MD5_CTX \<times> bytes" where
  "body ctx data sz =
     (case body_loop (regs ctx) data sz of ((a, b, c, d), ptr) \<Rightarrow>
      (ctx\<lparr>reg_a := a, reg_b := b, reg_c := c, reg_d := d\<rparr>, ptr))"

subsection \<open>Init, update, final\<close>

definition MD5_Init :: "MD5_CTX \<Rightarrow> MD5_CTX" where
  "MD5_Init ctx = ctx\<lparr>reg_a := 0x67452301, reg_b := 0xefcdab89, reg_c := 0x98badcfe,
     reg_d := 0x10325476, lo := 0, hi := 0\<rparr>"

text \<open>\<open>memcpy(&buf[off], data, n)\<close>.\<close>

definition memcpy_at :: "bytes \<Rightarrow> nat \<Rightarrow> bytes \<Rightarrow> nat \<Rightarrow> bytes" where
  "memcpy_at buf off data n = take off buf @ take n data @ drop (off + n) buf"

definition MD5_Update_blocks :: "MD5_CTX \<Rightarrow> bytes \<Rightarrow> nat \<Rightarrow> MD5_CTX" where
  "MD5_Update_blocks ctx data sz =
     (let (ctx, data, sz) =
        (if 64 \<le> sz
         then (let (ctx, data) = body ctx data (sz - sz mod 64) in (ctx, data, sz mod 64))
         else (ctx, data, sz))
      in ctx\<lparr>buffer := memcpy_at (buffer ctx) 0 data sz\<rparr>)"

definition MD5_Update :: "MD5_CTX \<Rightarrow> bytes \<Rightarrow> nat \<Rightarrow> MD5_CTX" where
  "MD5_Update ctx data sz =
     (let saved_lo = lo ctx;
          ctx = ctx\<lparr>lo := ucast ((ucast saved_lo + of_nat sz :: u64) AND 0x1fffffff)\<rparr>;
          ctx = (if lo ctx < saved_lo then ctx\<lparr>hi := hi ctx + 1\<rparr> else ctx);
          ctx = ctx\<lparr>hi := hi ctx + ucast (drop_bit 29 (of_nat sz :: u64))\<rparr>;
          used = unat (saved_lo AND 0x3f)
      in if used \<noteq> 0
         then let free = 64 - used in
              if sz < free
              then ctx\<lparr>buffer := memcpy_at (buffer ctx) used data sz\<rparr>
              else let ctx = ctx\<lparr>buffer := memcpy_at (buffer ctx) used data free\<rparr>;
                       data = drop free data;
                       sz = sz - free;
                       ctx = fst (body ctx (buffer ctx) 64)
                   in MD5_Update_blocks ctx data sz
         else MD5_Update_blocks ctx data sz)"

definition MD5_Final :: "MD5_CTX \<Rightarrow> bytes \<times> MD5_CTX" where
  "MD5_Final ctx =
     (let used = unat (lo ctx AND 0x3f);
          ctx = ctx\<lparr>buffer := (buffer ctx)[used := 0x80]\<rparr>;
          used = used + 1;
          free = 64 - used;
          (ctx, used, free) =
            (if free < 8
             then (let ctx = ctx\<lparr>buffer := memcpy_at (buffer ctx) used (replicate free 0) free\<rparr>;
                       ctx = fst (body ctx (buffer ctx) 64)
                   in (ctx, 0, 64))
             else (ctx, used, free));
          ctx = ctx\<lparr>buffer := memcpy_at (buffer ctx) used (replicate (free - 8) 0) (free - 8)\<rparr>;
          ctx = ctx\<lparr>lo := push_bit 3 (lo ctx)\<rparr>;
          ctx = ctx\<lparr>buffer := memcpy_at (buffer ctx) 56 (put_le 4 (lo ctx)) 4\<rparr>;
          ctx = ctx\<lparr>buffer := memcpy_at (buffer ctx) 60 (put_le 4 (hi ctx)) 4\<rparr>;
          ctx = fst (body ctx (buffer ctx) 64);
          result = put_le 4 (reg_a ctx) @ put_le 4 (reg_b ctx) @ put_le 4 (reg_c ctx)
                     @ put_le 4 (reg_d ctx)
      in (result, \<lparr>lo = 0, hi = 0, reg_a = 0, reg_b = 0, reg_c = 0, reg_d = 0,
            buffer = replicate 64 0, block = replicate 16 0\<rparr>))"

text \<open>
  \<open>my_md5\<close> is an uninitialised local: the model takes the garbage it starts with as an
  argument, and so do the functions that call it.
\<close>

definition md5_signature :: "MD5_CTX \<Rightarrow> bytes \<Rightarrow> bytes" where
  "md5_signature my_md5 key =
     (let my_md5 = MD5_Init my_md5; my_md5 = MD5_Update my_md5 key (length key)
      in fst (MD5_Final my_md5))"

definition hash_md5 :: "MD5_CTX \<Rightarrow> bytes \<Rightarrow> u32" where
  "hash_md5 my_md5 key =
     (let results = md5_signature my_md5 key in
      push_bit 24 (zx32 (results ! 3) AND 0xFF) OR push_bit 16 (zx32 (results ! 2) AND 0xFF)
      OR push_bit 8 (zx32 (results ! 1) AND 0xFF) OR (zx32 (results ! 0) AND 0xFF))"

text \<open>\<open>ketama_hash\<close> picks one of the four words; its caller keeps \<open>alignment\<close> below 4.\<close>

definition ketama_hash :: "MD5_CTX \<Rightarrow> bytes \<Rightarrow> nat \<Rightarrow> u32" where
  "ketama_hash my_md5 key alignment =
     (let results = md5_signature my_md5 key in
      push_bit 24 (zx32 (results ! (3 + alignment * 4)) AND 0xFF)
      OR push_bit 16 (zx32 (results ! (2 + alignment * 4)) AND 0xFF)
      OR push_bit 8 (zx32 (results ! (1 + alignment * 4)) AND 0xFF)
      OR (zx32 (results ! (0 + alignment * 4)) AND 0xFF))"

subsection \<open>The specification\<close>

text \<open>The four functions as RFC 1321 defines them.\<close>

definition rfc_F :: "u32 \<Rightarrow> u32 \<Rightarrow> u32 \<Rightarrow> u32" where
  "rfc_F x y z = (x AND y) OR (NOT x AND z)"

definition rfc_G :: "u32 \<Rightarrow> u32 \<Rightarrow> u32 \<Rightarrow> u32" where
  "rfc_G x y z = (x AND z) OR (y AND NOT z)"

definition rfc_K :: "u32 list" where
  "rfc_K = [
    0xd76aa478, 0xe8c7b756, 0x242070db, 0xc1bdceee,
    0xf57c0faf, 0x4787c62a, 0xa8304613, 0xfd469501,
    0x698098d8, 0x8b44f7af, 0xffff5bb1, 0x895cd7be,
    0x6b901122, 0xfd987193, 0xa679438e, 0x49b40821,
    0xf61e2562, 0xc040b340, 0x265e5a51, 0xe9b6c7aa,
    0xd62f105d, 0x02441453, 0xd8a1e681, 0xe7d3fbc8,
    0x21e1cde6, 0xc33707d6, 0xf4d50d87, 0x455a14ed,
    0xa9e3e905, 0xfcefa3f8, 0x676f02d9, 0x8d2a4c8a,
    0xfffa3942, 0x8771f681, 0x6d9d6122, 0xfde5380c,
    0xa4beea44, 0x4bdecfa9, 0xf6bb4b60, 0xbebfbc70,
    0x289b7ec6, 0xeaa127fa, 0xd4ef3085, 0x04881d05,
    0xd9d4d039, 0xe6db99e5, 0x1fa27cf8, 0xc4ac5665,
    0xf4292244, 0x432aff97, 0xab9423a7, 0xfc93a039,
    0x655b59c3, 0x8f0ccc92, 0xffeff47d, 0x85845dd1,
    0x6fa87e4f, 0xfe2ce6e0, 0xa3014314, 0x4e0811a1,
    0xf7537e82, 0xbd3af235, 0x2ad7d2bb, 0xeb86d391]"

definition rfc_shift :: "nat \<Rightarrow> nat" where
  "rfc_shift i =
     (if i < 16 then [7, 12, 17, 22] else if i < 32 then [5, 9, 14, 20]
      else if i < 48 then [4, 11, 16, 23] else [6, 10, 15, 21]) ! (i mod 4)"

text \<open>Which word of the block step \<open>i\<close> reads: \<open>i\<close>, \<open>5i + 1\<close>, \<open>3i + 5\<close> and \<open>7i\<close> modulo 16.\<close>

definition rfc_index :: "nat \<Rightarrow> nat" where
  "rfc_index i =
     (if i < 16 then i else if i < 32 then (5 * i + 1) mod 16
      else if i < 48 then (3 * i + 5) mod 16 else (7 * i) mod 16)"

definition rfc_fun :: "nat \<Rightarrow> u32 \<Rightarrow> u32 \<Rightarrow> u32 \<Rightarrow> u32" where
  "rfc_fun i = (if i < 16 then rfc_F else if i < 32 then rfc_G
     else if i < 48 then (\<lambda>x y z. x XOR y XOR z) else (\<lambda>x y z. y XOR (x OR NOT z)))"

definition rfc_step :: "bytes \<Rightarrow> abcd \<Rightarrow> nat \<Rightarrow> abcd" where
  "rfc_step ptr st i =
     (case st of (a, b, c, d) \<Rightarrow>
      (d, STEP (rfc_fun i) a b c d (SET ptr (rfc_index i)) (rfc_K ! i) (rfc_shift i), b, c))"

definition rfc_block :: "abcd \<Rightarrow> bytes \<Rightarrow> abcd" where
  "rfc_block st ptr =
     (case (st, foldl (rfc_step ptr) st [0..<64]) of
       ((a, b, c, d), (a', b', c', d')) \<Rightarrow> (a' + a, b' + b, c' + c, d' + d))"

text \<open>All full blocks of a message, from the first on.\<close>

function blocks :: "abcd \<Rightarrow> bytes \<Rightarrow> abcd" where
  "blocks st m = (if 64 \<le> length m then blocks (rfc_block st (take 64 m)) (drop 64 m) else st)"
  by pat_completeness auto
termination
  by (relation "measure (\<lambda>(st, m). length m)") auto

declare blocks.simps [simp del]

text \<open>
  Padding to a multiple of 64 bytes: the byte \<open>0x80\<close>, zeros up to 56 modulo 64, the
  length in bits as 64 bits.
\<close>

definition pad :: "bytes \<Rightarrow> bytes" where
  "pad m = m @ [0x80] @ replicate ((119 - length m mod 64) mod 64) 0
     @ put_le 8 (of_nat (8 * length m) :: u64)"

definition md5_init_regs :: abcd where
  "md5_init_regs = (0x67452301, 0xefcdab89, 0x98badcfe, 0x10325476)"

definition digest :: "abcd \<Rightarrow> bytes" where
  "digest st = (case st of (a, b, c, d) \<Rightarrow> put_le 4 a @ put_le 4 b @ put_le 4 c @ put_le 4 d)"

definition md5_ref :: "bytes \<Rightarrow> bytes" where
  "md5_ref m = digest (blocks md5_init_regs (pad m))"

subsection \<open>The unrolled block function is the loop form\<close>

lemma case_Let:
  "(case (let x = t in g x) of (a, b, c, d) \<Rightarrow> h a b c d) =
     (let x = t in (case g x of (a, b, c, d) \<Rightarrow> h a b c d))"
  by (simp add: Let_def)

lemma md5_F_rfc: "md5_F = rfc_F"
  by (intro ext bit_word_eqI) (auto simp: md5_F_def rfc_F_def bit_simps)

lemma md5_G_rfc: "md5_G = rfc_G"
  by (intro ext bit_word_eqI) (auto simp: md5_G_def rfc_G_def bit_simps)

lemma rfc_fun_code:
  "rfc_fun i = (if i < 16 then md5_F else if i < 32 then md5_G else if i < 48 then md5_H else md5_I)"
  by (simp add: rfc_fun_def md5_F_rfc md5_G_rfc md5_H_def[abs_def] md5_I_def[abs_def])

text \<open>The schedule of the loop form, step by step: function, word, constant, shift.\<close>

definition rfc_args :: "nat \<Rightarrow> (u32 \<Rightarrow> u32 \<Rightarrow> u32 \<Rightarrow> u32) \<times> nat \<times> u32 \<times> nat" where
  "rfc_args i = (rfc_fun i, rfc_index i, rfc_K ! i, rfc_shift i)"

fun args_step :: "bytes \<Rightarrow> abcd \<Rightarrow> (u32 \<Rightarrow> u32 \<Rightarrow> u32 \<Rightarrow> u32) \<times> nat \<times> u32 \<times> nat \<Rightarrow> abcd" where
  "args_step ptr (a, b, c, d) (f, n, t, s) = (d, STEP f a b c d (SET ptr n) t s, b, c)"

lemma rfc_step_args: "rfc_step ptr st i = args_step ptr st (rfc_args i)"
  by (cases st) (simp add: rfc_step_def rfc_args_def)

lemma rfc_steps_args: "foldl (rfc_step ptr) st is = foldl (args_step ptr) st (map rfc_args is)"
  by (induction "is" arbitrary: st) (simp_all add: rfc_step_args)

lemma rfc_schedule: "map rfc_args [0..<64] = [
     (md5_F, 0, 0xd76aa478, 7), (md5_F, 1, 0xe8c7b756, 12),
     (md5_F, 2, 0x242070db, 17), (md5_F, 3, 0xc1bdceee, 22),
     (md5_F, 4, 0xf57c0faf, 7), (md5_F, 5, 0x4787c62a, 12),
     (md5_F, 6, 0xa8304613, 17), (md5_F, 7, 0xfd469501, 22),
     (md5_F, 8, 0x698098d8, 7), (md5_F, 9, 0x8b44f7af, 12),
     (md5_F, 10, 0xffff5bb1, 17), (md5_F, 11, 0x895cd7be, 22),
     (md5_F, 12, 0x6b901122, 7), (md5_F, 13, 0xfd987193, 12),
     (md5_F, 14, 0xa679438e, 17), (md5_F, 15, 0x49b40821, 22),
     (md5_G, 1, 0xf61e2562, 5), (md5_G, 6, 0xc040b340, 9),
     (md5_G, 11, 0x265e5a51, 14), (md5_G, 0, 0xe9b6c7aa, 20),
     (md5_G, 5, 0xd62f105d, 5), (md5_G, 10, 0x02441453, 9),
     (md5_G, 15, 0xd8a1e681, 14), (md5_G, 4, 0xe7d3fbc8, 20),
     (md5_G, 9, 0x21e1cde6, 5), (md5_G, 14, 0xc33707d6, 9),
     (md5_G, 3, 0xf4d50d87, 14), (md5_G, 8, 0x455a14ed, 20),
     (md5_G, 13, 0xa9e3e905, 5), (md5_G, 2, 0xfcefa3f8, 9),
     (md5_G, 7, 0x676f02d9, 14), (md5_G, 12, 0x8d2a4c8a, 20),
     (md5_H, 5, 0xfffa3942, 4), (md5_H, 8, 0x8771f681, 11),
     (md5_H, 11, 0x6d9d6122, 16), (md5_H, 14, 0xfde5380c, 23),
     (md5_H, 1, 0xa4beea44, 4), (md5_H, 4, 0x4bdecfa9, 11),
     (md5_H, 7, 0xf6bb4b60, 16), (md5_H, 10, 0xbebfbc70, 23),
     (md5_H, 13, 0x289b7ec6, 4), (md5_H, 0, 0xeaa127fa, 11),
     (md5_H, 3, 0xd4ef3085, 16), (md5_H, 6, 0x04881d05, 23),
     (md5_H, 9, 0xd9d4d039, 4), (md5_H, 12, 0xe6db99e5, 11),
     (md5_H, 15, 0x1fa27cf8, 16), (md5_H, 2, 0xc4ac5665, 23),
     (md5_I, 0, 0xf4292244, 6), (md5_I, 7, 0x432aff97, 10),
     (md5_I, 14, 0xab9423a7, 15), (md5_I, 5, 0xfc93a039, 21),
     (md5_I, 12, 0x655b59c3, 6), (md5_I, 3, 0x8f0ccc92, 10),
     (md5_I, 10, 0xffeff47d, 15), (md5_I, 1, 0x85845dd1, 21),
     (md5_I, 8, 0x6fa87e4f, 6), (md5_I, 15, 0xfe2ce6e0, 10),
     (md5_I, 6, 0xa3014314, 15), (md5_I, 13, 0x4e0811a1, 21),
     (md5_I, 4, 0xf7537e82, 6), (md5_I, 11, 0xbd3af235, 10),
     (md5_I, 2, 0x2ad7d2bb, 15), (md5_I, 9, 0xeb86d391, 21)]"
  by (simp add: upt_conv_Cons rfc_args_def rfc_fun_code rfc_index_def rfc_K_def rfc_shift_def)

lemma args_unroll:
  "foldl (args_step ptr) (a, b, c, d) ((f, n, t, s) # args) =
     (let e = STEP f a b c d (SET ptr n) t s in foldl (args_step ptr) (d, e, b, c) args)"
  by simp

lemma body_block_rfc: "body_block st ptr = rfc_block st ptr"
proof (cases st)
  case (fields a b c d)
  have "rfc_block (a, b, c, d) ptr =
      (case foldl (args_step ptr) (a, b, c, d) (map rfc_args [0..<64]) of
        (a', b', c', d') \<Rightarrow> (a' + a, b' + b, c' + c, d' + d))"
    by (simp only: rfc_block_def rfc_steps_args prod.case)
  also have "\<dots> = body_block (a, b, c, d) ptr"
    unfolding rfc_schedule body_block_def
    by (simp only: args_unroll foldl.simps(1) prod.case Let_def[of a] Let_def[of b] Let_def[of c] Let_def[of d] case_Let)
  finally show ?thesis by (simp only: fields)
qed

subsection \<open>Folding blocks\<close>

lemma rfc_index_less: "i < 64 \<Longrightarrow> rfc_index i < 16"
  by (simp add: rfc_index_def)

lemma SET_take: "n < 16 \<Longrightarrow> SET (take 64 ptr) n = SET ptr n"
  by (simp add: SET_def drop_take)

lemma rfc_block_take: "rfc_block st (take 64 ptr) = rfc_block st ptr"
proof -
  have "foldl (rfc_step (take 64 ptr)) st xs = foldl (rfc_step ptr) st xs"
    if "\<forall>i\<in>set xs. i < 64" for xs
    using that by (induction xs arbitrary: st) (auto simp: rfc_step_def SET_take rfc_index_less)
  from this[of "[0..<64]"] show ?thesis by (simp add: rfc_block_def)
qed

lemma blocks_short: "length m < 64 \<Longrightarrow> blocks st m = st"
  by (simp add: blocks.simps)

lemma blocks_long: "64 \<le> length m \<Longrightarrow> blocks st m = blocks (rfc_block st m) (drop 64 m)"
  by (subst blocks.simps) (simp add: rfc_block_take)

lemma blocks_append: "64 dvd length m \<Longrightarrow> blocks st (m @ m') = blocks (blocks st m) m'"
proof (induction st m rule: blocks.induct)
  case (1 st m)
  show ?case
  proof (cases "64 \<le> length m")
    case True
    with "1.prems" have "64 dvd length (drop 64 m)" by simp
    from "1.IH"[OF True this] True show ?thesis
      by (simp add: blocks_long rfc_block_take[of st "m @ m'", symmetric] rfc_block_take[of st m, symmetric])
  next
    case False
    with "1.prems" have "m = []" by (metis length_0_conv nat_dvd_not_less not_le_imp_less not_gr_zero)
    then show ?thesis by (simp add: blocks_short)
  qed
qed

lemma body_loop_blocks:
  "sz = 64 * Suc k \<Longrightarrow> sz \<le> length ptr \<Longrightarrow>
     body_loop st ptr sz = (blocks st (take sz ptr), drop sz ptr)"
proof (induction k arbitrary: sz st ptr)
  case 0
  then show ?case
    by (simp add: body_loop.simps[of st ptr] body_block_rfc blocks_long blocks_short rfc_block_take Let_def)
next
  case (Suc k)
  then have "body_loop st ptr sz = body_loop (rfc_block st ptr) (drop 64 ptr) (sz - 64)"
    by (simp add: body_loop.simps[of st ptr] body_block_rfc Let_def)
  also have "\<dots> = (blocks (rfc_block st ptr) (take (sz - 64) (drop 64 ptr)), drop (sz - 64) (drop 64 ptr))"
    using Suc.prems by (intro Suc.IH) simp_all
  also have "blocks (rfc_block st ptr) (take (sz - 64) (drop 64 ptr)) = blocks st (take sz ptr)"
    using Suc.prems rfc_block_take[of st ptr] rfc_block_take[of st "take sz ptr"]
    by (simp add: blocks_long drop_take)
  finally show ?case using Suc.prems by simp
qed

lemma body_regs:
  assumes "64 \<le> sz" "64 dvd sz" "sz \<le> length data"
  shows "regs (fst (body ctx data sz)) = blocks (regs ctx) (take sz data)"
    and "snd (body ctx data sz) = drop sz data"
    and "lo (fst (body ctx data sz)) = lo ctx" "hi (fst (body ctx data sz)) = hi ctx"
    and "buffer (fst (body ctx data sz)) = buffer ctx"
proof -
  from assms(1,2) obtain k where "sz = 64 * Suc k"
    by (metis dvd_def mult_0_right not0_implies_Suc not_numeral_le_zero)
  then have "body_loop (regs ctx) data sz = (blocks (regs ctx) (take sz data), drop sz data)"
    using assms(3) by (rule body_loop_blocks)
  then show "regs (fst (body ctx data sz)) = blocks (regs ctx) (take sz data)"
    and "snd (body ctx data sz) = drop sz data"
    and "lo (fst (body ctx data sz)) = lo ctx" "hi (fst (body ctx data sz)) = hi ctx"
    and "buffer (fst (body ctx data sz)) = buffer ctx"
    by (auto simp: body_def regs_def split: prod.splits)
qed

subsection \<open>What a context represents\<close>

definition absorbed :: "MD5_CTX \<Rightarrow> bytes \<Rightarrow> bool" where
  "absorbed ctx m \<longleftrightarrow>
     regs ctx = blocks md5_init_regs m \<and> length (buffer ctx) = 64 \<and>
     take (length m mod 64) (buffer ctx) = drop (length m - length m mod 64) m"

definition counted :: "MD5_CTX \<Rightarrow> nat \<Rightarrow> bool" where
  "counted ctx n \<longleftrightarrow> lo ctx = of_nat (n mod 2 ^ 29) \<and> hi ctx = of_nat (n div 2 ^ 29)"

definition represents :: "MD5_CTX \<Rightarrow> bytes \<Rightarrow> bool" where
  "represents ctx m \<longleftrightarrow> absorbed ctx m \<and> counted ctx (length m)"

lemma blocks_full_part: "blocks st (take (length m - length m mod 64) m) = blocks st m"
proof -
  have "blocks st m = blocks (blocks st (take (length m - length m mod 64) m)) (drop (length m - length m mod 64) m)"
    using blocks_append[of "take (length m - length m mod 64) m" st "drop (length m - length m mod 64) m"]
    by simp
  then show ?thesis by (simp add: blocks_short)
qed

lemma Update_blocks_absorbed:
  assumes "absorbed ctx m" "64 dvd length m"
  shows "absorbed (MD5_Update_blocks ctx d (length d)) (m @ d)"
    and "lo (MD5_Update_blocks ctx d (length d)) = lo ctx"
    and "hi (MD5_Update_blocks ctx d (length d)) = hi ctx"
proof -
  define r where "r = length d mod 64"
  have md: "length (m @ d) mod 64 = r" using assms(2) by (auto simp: r_def dvd_def)
  have dr: "drop (length (m @ d) - r) (m @ d) = drop (length d - r) d"
    by (simp add: r_def)
  have regs: "blocks md5_init_regs (m @ d) = blocks (regs ctx) d"
    using assms by (simp add: absorbed_def blocks_append)
  have buf: "length (buffer ctx) = 64" using assms(1) by (simp add: absorbed_def)
  have r: "r < 64" by (simp add: r_def)
  show "absorbed (MD5_Update_blocks ctx d (length d)) (m @ d)"
    and "lo (MD5_Update_blocks ctx d (length d)) = lo ctx"
    and "hi (MD5_Update_blocks ctx d (length d)) = hi ctx"
  proof (atomize (full), cases "64 \<le> length d")
    case True
    have "64 dvd (length d - r)" "64 \<le> length d - r" using True unfolding r_def
      by (auto simp: minus_mod_eq_div_mult) 
    note br = body_regs[OF this(2,1), of d ctx]
    show "absorbed (MD5_Update_blocks ctx d (length d)) (m @ d) \<and> lo (MD5_Update_blocks ctx d (length d)) = lo ctx \<and>
      hi (MD5_Update_blocks ctx d (length d)) = hi ctx"
      using True br buf r unfolding absorbed_def md dr regs
      by (auto simp: MD5_Update_blocks_def Let_def case_prod_beta memcpy_at_def regs_def
          blocks_full_part[of _ d, folded r_def] simp flip: r_def)
  next
    case False
    then have rd: "r = length d" by (simp add: r_def)
    show "absorbed (MD5_Update_blocks ctx d (length d)) (m @ d) \<and> lo (MD5_Update_blocks ctx d (length d)) = lo ctx \<and>
      hi (MD5_Update_blocks ctx d (length d)) = hi ctx"
      using False buf r unfolding absorbed_def md dr regs rd
      by (auto simp: MD5_Update_blocks_def Let_def memcpy_at_def regs_def blocks_short)
  qed
qed


text \<open>The counters after an update: 29 low bits in \<open>lo\<close>, a carry and the rest in \<open>hi\<close>.\<close>

lemma lo_counts:
  assumes "lo ctx = of_nat (n mod 2 ^ 29)"
  shows "(ucast ((ucast (lo ctx) + of_nat s :: u64) AND 0x1fffffff) :: u32) = of_nat ((n + s) mod 2 ^ 29)"
proof -
  have m: "(0x1fffffff :: u64) = mask 29" by (simp add: mask_numeral)
  have l: "unat (lo ctx) = n mod 2 ^ 29"
    unfolding assms by (simp add: unat_of_nat)
  have "unat (ucast (lo ctx) + of_nat s :: u64) = (n mod 2 ^ 29 + s) mod 2 ^ 64"
    using l by (simp add: unat_word_ariths unat_of_nat mod_simps)
  then have u: "unat ((ucast (lo ctx) + of_nat s :: u64) AND 0x1fffffff) = (n + s) mod 2 ^ 29"
    unfolding m unat_and_mask by (simp add: mod_mod_cancel mod_simps)
  have "(ucast ((ucast (lo ctx) + of_nat s :: u64) AND 0x1fffffff) :: u32)
      = of_nat (unat ((ucast (lo ctx) + of_nat s :: u64) AND 0x1fffffff))"
    by simp
  then show ?thesis unfolding u .
qed

lemma hi_counts:
  assumes "s < 2 ^ 64"
  shows "(ucast (drop_bit 29 (of_nat s :: u64)) :: u32) = of_nat (s div 2 ^ 29)"
proof -
  have "unat (drop_bit 29 (of_nat s :: u64)) = unat (of_nat s :: u64) div 2 ^ 29"
    by (rule trans[OF unat_drop_bit_eq drop_bit_eq_div])
  also have "unat (of_nat s :: u64) = s"
    using assms by (simp add: unat_of_nat)
  finally have u: "unat (drop_bit 29 (of_nat s :: u64)) = s div 2 ^ 29" .
  have "(ucast (drop_bit 29 (of_nat s :: u64)) :: u32) = of_nat (unat (drop_bit 29 (of_nat s :: u64)))"
    by (simp only: of_nat_unat)
  then show ?thesis unfolding u .
qed

definition count_up :: "MD5_CTX \<Rightarrow> nat \<Rightarrow> MD5_CTX" where
  "count_up ctx sz =
    (let saved_lo = lo ctx;
          ctx = ctx\<lparr>lo := ucast ((ucast saved_lo + of_nat sz :: u64) AND 0x1fffffff)\<rparr>;
          ctx = (if lo ctx < saved_lo then ctx\<lparr>hi := hi ctx + 1\<rparr> else ctx)
     in ctx\<lparr>hi := hi ctx + ucast (drop_bit 29 (of_nat sz :: u64))\<rparr>)"

lemma count_up_counted:
  assumes "counted ctx n" "s < 2 ^ 64"
  shows "counted (count_up ctx s) (n + s)"
proof -
  have l: "lo ctx = of_nat (n mod 2 ^ 29)" and h: "hi ctx = of_nat (n div 2 ^ 29)"
    using assms(1) by (simp_all add: counted_def)
  have "of_nat ((n + s) mod 2 ^ 29) < (of_nat (n mod 2 ^ 29) :: u32) \<longleftrightarrow> (n + s) mod 2 ^ 29 < n mod 2 ^ 29"
    by (simp add: word_less_nat_alt unat_of_nat)
  then show ?thesis
    unfolding counted_def count_up_def Let_def lo_counts[OF l] hi_counts[OF assms(2)]
    using mod_carry[of "2 ^ 29" n s] by (auto simp: l h ac_simps)
qed

lemma count_up_frame:
  "regs (count_up ctx s) = regs ctx" "buffer (count_up ctx s) = buffer ctx"
  by (simp_all add: count_up_def regs_def Let_def)

lemma used_of_count:
  assumes "counted ctx n"
  shows "unat (lo ctx AND 0x3f) = n mod 64"
proof -
  have m: "(0x3f :: u32) = mask 6" by (simp add: mask_numeral)
  have "unat (lo ctx) = n mod 2 ^ 29"
    using assms by (simp add: counted_def unat_of_nat)
  then show ?thesis
    unfolding m unat_and_mask by (simp add: mod_mod_cancel)
qed

lemma MD5_Update_count_up:
  "MD5_Update ctx data sz =
     (let used = unat (lo ctx AND 0x3f); ctx = count_up ctx sz
      in if used \<noteq> 0
         then let free = 64 - used in
              if sz < free
              then ctx\<lparr>buffer := memcpy_at (buffer ctx) used data sz\<rparr>
              else let ctx = ctx\<lparr>buffer := memcpy_at (buffer ctx) used data free\<rparr>;
                       ctx = fst (body ctx (buffer ctx) 64)
                   in MD5_Update_blocks ctx (drop free data) (sz - free)
         else MD5_Update_blocks ctx data sz)"
  by (simp add: MD5_Update_def count_up_def Let_def)

lemma absorbed_cong: "regs ctx' = regs ctx \<Longrightarrow> buffer ctx' = buffer ctx \<Longrightarrow> absorbed ctx' m = absorbed ctx m"
  by (simp add: absorbed_def)

text \<open>A partly filled buffer takes more bytes, or is completed and folded.\<close>

lemma absorbed_fill:
  assumes "absorbed ctx m" "r = length m mod 64" "r + length d < 64"
  shows "absorbed (ctx\<lparr>buffer := memcpy_at (buffer ctx) r d (length d)\<rparr>) (m @ d)"
proof -
  have b: "length (buffer ctx) = 64" "take r (buffer ctx) = drop (length m - r) m" "r \<le> length m"
    using assms(1,2) by (simp_all add: absorbed_def)
  have md: "(length m + length d) mod 64 = r + length d"
    using assms(2,3) by (metis mod_add_left_eq mod_less)
  have full: "64 dvd length (take (length m - r) m)" unfolding assms(2) by (simp add: dvd_minus_mod)
  have "blocks md5_init_regs (m @ d) = blocks md5_init_regs m"
    using blocks_append[OF full, of md5_init_regs "drop (length m - r) m @ d"]
      blocks_append[OF full, of md5_init_regs "drop (length m - r) m"] assms(3) b(3)
    by (simp add: blocks_short flip: append_assoc)
  then show ?thesis
    using assms b by (simp add: absorbed_def md memcpy_at_def regs_def)
qed

lemma absorbed_complete:
  assumes "absorbed ctx m" "r = length m mod 64" "length d = 64 - r" 
  defines "ctx' \<equiv> ctx\<lparr>buffer := memcpy_at (buffer ctx) r d (length d)\<rparr>"
  shows "absorbed (fst (body ctx' (buffer ctx') 64)) (m @ d)" "64 dvd length (m @ d)"
    "lo (fst (body ctx' (buffer ctx') 64)) = lo ctx" "hi (fst (body ctx' (buffer ctx') 64)) = hi ctx"
proof -
  have b: "length (buffer ctx) = 64" "take r (buffer ctx) = drop (length m - r) m" "r \<le> length m" "r < 64"
    using assms(1,2) by (simp_all add: absorbed_def)
  have full: "64 dvd length (take (length m - r) m)" unfolding assms(2) by (simp add: dvd_minus_mod)
  have buf: "buffer ctx' = drop (length m - r) m @ d" "length (buffer ctx') = 64"
    using assms(3) b by (simp_all add: ctx'_def memcpy_at_def)
  have "blocks md5_init_regs (m @ d) = blocks (regs ctx) (drop (length m - r) m @ d)"
    using blocks_append[OF full, of md5_init_regs "drop (length m - r) m @ d"]
      blocks_full_part[of md5_init_regs m, folded assms(2)] assms(1) b(3)
    by (simp add: absorbed_def flip: append_assoc)
  moreover have "regs ctx' = regs ctx" by (simp add: ctx'_def regs_def)
  moreover show dv: "64 dvd length (m @ d)"
  proof -
    have "length (m @ d) = length (take (length m - r) m) + 64"
      using assms(3) b(3,4) by simp
    then show ?thesis using full by (simp only: dvd_add dvd_refl)
  qed
  moreover note br = body_regs[of 64 "buffer ctx'" ctx']
  ultimately show "absorbed (fst (body ctx' (buffer ctx') 64)) (m @ d)"
    using buf br by (simp add: absorbed_def)
  show "lo (fst (body ctx' (buffer ctx') 64)) = lo ctx" "hi (fst (body ctx' (buffer ctx') 64)) = hi ctx"
    using br buf(2) by (simp_all add: ctx'_def)
qed

lemma memcpy_at_take: "memcpy_at buf off (take n data) n = memcpy_at buf off data n"
  by (simp add: memcpy_at_def)

lemma Update_represents:
  assumes "represents ctx m" "length d < 2 ^ 64"
  shows "represents (MD5_Update ctx d (length d)) (m @ d)"
proof -
  define c where "c = count_up ctx (length d)"
  define r where "r = length m mod 64"
  have abs: "absorbed ctx m" and cnt: "counted ctx (length m)"
    using assms(1) by (simp_all add: represents_def)
  have used: "unat (lo ctx AND 0x3f) = r" unfolding r_def by (rule used_of_count[OF cnt])
  have c: "absorbed c m" "counted c (length (m @ d))"
    using abs absorbed_cong[OF count_up_frame(1,2)] count_up_counted[OF cnt assms(2)]
    by (simp_all add: c_def)
  consider "r = 0" | "r \<noteq> 0" "length d < 64 - r" | "r \<noteq> 0" "64 - r \<le> length d" by linarith
  then show ?thesis
  proof cases
    case 1
    then have "64 dvd length m" by (auto simp: r_def)
    note u = Update_blocks_absorbed[OF c(1) this, of d]
    have "MD5_Update ctx d (length d) = MD5_Update_blocks c d (length d)"
      using 1 by (simp add: MD5_Update_count_up used c_def Let_def)
    then show ?thesis using u c(2) by (simp add: represents_def counted_def)
  next
    case 2
    have "MD5_Update ctx d (length d) = c\<lparr>buffer := memcpy_at (buffer c) r d (length d)\<rparr>"
      using 2 by (simp add: MD5_Update_count_up used c_def Let_def)
    moreover have "absorbed (c\<lparr>buffer := memcpy_at (buffer c) r d (length d)\<rparr>) (m @ d)"
      using 2 by (intro absorbed_fill[OF c(1) r_def]) simp
    ultimately show ?thesis using c(2) by (simp add: represents_def counted_def)
  next
    case 3
    define free where "free = 64 - r"
    define c' where "c' = c\<lparr>buffer := memcpy_at (buffer c) r d free\<rparr>"
    define c'' where "c'' = fst (body c' (buffer c') 64)"
    have len: "length (take free d) = 64 - r" using 3 by (simp add: free_def)
    have c'_eq: "c' = c\<lparr>buffer := memcpy_at (buffer c) r (take free d) (length (take free d))\<rparr>"
      unfolding len c'_def by (simp add: free_def memcpy_at_take)
    note a = absorbed_complete[OF c(1) r_def len, folded c'_eq, folded c''_def]
    note u = Update_blocks_absorbed[OF a(1,2), of "drop free d"]
    have "MD5_Update ctx d (length d) = MD5_Update_blocks c'' (drop free d) (length (drop free d))"
      using 3 by (simp add: MD5_Update_count_up used c_def c''_def c'_def free_def Let_def)
    then show ?thesis using u a(3,4) c(2) by (simp add: represents_def counted_def)
  qed
qed


lemma Init_represents: "length (buffer ctx) = 64 \<Longrightarrow> represents (MD5_Init ctx) []"
  by (simp add: represents_def absorbed_def counted_def MD5_Init_def regs_def blocks_short
      md5_init_regs_def)

text \<open>Padding, as a tail behind the bytes left over.\<close>

lemma blocks_tail:
  assumes "absorbed ctx m" "r = length m mod 64"
  shows "blocks md5_init_regs (m @ t) = blocks (regs ctx) (take r (buffer ctx) @ t)"
proof -
  have b: "take r (buffer ctx) = drop (length m - r) m" "r \<le> length m"
    using assms by (simp_all add: absorbed_def)
  have full: "64 dvd length (take (length m - r) m)" unfolding assms(2) by (simp add: dvd_minus_mod)
  show ?thesis
    using blocks_append[OF full, of md5_init_regs "drop (length m - r) m @ t"]
      blocks_full_part[of md5_init_regs m, folded assms(2)] assms(1) b
    by (simp add: absorbed_def flip: append_assoc)
qed

lemma word_halves:
  "unat (ucast (of_nat N :: u64) :: u32) = N mod 2 ^ 32"
  "unat (ucast (drop_bit 32 (of_nat N :: u64)) :: u32) = N div 2 ^ 32 mod 2 ^ 32"
proof -
  show "unat (ucast (of_nat N :: u64) :: u32) = N mod 2 ^ 32"
    by (simp add: unsigned_ucast_eq unat_of_nat take_bit_eq_mod mod_mod_cancel)
  have "unat (drop_bit 32 (of_nat N :: u64)) = unat (of_nat N :: u64) div 2 ^ 32"
    by (rule trans[OF unat_drop_bit_eq drop_bit_eq_div])
  also have "unat (of_nat N :: u64) = N mod (2 ^ 32 * 2 ^ 32)"
    by (simp add: unat_of_nat)
  also have "\<dots> div 2 ^ 32 = (N div 2 ^ 32) mod 2 ^ 32"
    by (subst mod_mult2_eq) simp
  finally have "unat (drop_bit 32 (of_nat N :: u64)) = (N div 2 ^ 32) mod 2 ^ 32" .
  then show "unat (ucast (drop_bit 32 (of_nat N :: u64)) :: u32) = N div 2 ^ 32 mod 2 ^ 32"
    by (simp only: unsigned_ucast_eq take_bit_eq_mod) simp
qed

lemma length_field:
  assumes "counted ctx n"
  shows "put_le 4 (push_bit 3 (lo ctx)) @ put_le 4 (hi ctx) = put_le 8 (of_nat (8 * n) :: u64)"
proof -
  define N where "N = 8 * n"
  let ?w = "of_nat N :: u64"
  have "8 * (n mod 2 ^ 29) = N mod 2 ^ 32"
    by (simp add: mult_mod_right N_def)
  then have "unat (push_bit 3 (lo ctx)) = N mod 2 ^ 32"
    using assms by (simp add: counted_def push_bit_eq_mult unat_word_ariths unat_of_nat mod_simps)
  then have l: "push_bit 3 (lo ctx) = ucast ?w"
    by (simp only: word_unat_eq_iff word_halves)
  have "n div 2 ^ 29 = N div 2 ^ 32" by (simp add: N_def)
  then have "unat (hi ctx) = N div 2 ^ 32 mod 2 ^ 32"
    using assms by (simp add: counted_def unat_of_nat)
  then have h: "hi ctx = ucast (drop_bit 32 ?w)"
    by (simp only: word_unat_eq_iff word_halves)
  have "put_le 4 (push_bit 3 (lo ctx)) @ put_le 4 (hi ctx) = put_le 4 ?w @ put_le 4 (drop_bit 32 ?w)"
    unfolding l h by (simp add: put_le_ucast)
  then show ?thesis
    using put_le_add[of 4 4 ?w] by (simp add: N_def)
qed

lemma pad_split:
  assumes "r = length m mod 64"
  shows "pad m = (if r < 56
     then m @ [0x80] @ replicate (55 - r) 0 @ put_le 8 (of_nat (8 * length m) :: u64)
     else m @ ([0x80] @ replicate (63 - r) 0) @ replicate 56 0 @ put_le 8 (of_nat (8 * length m) :: u64))"
proof -
  have "r < 64" by (simp add: assms)
  have "(119 - r) mod 64 = (if r < 56 then 55 - r else (63 - r) + 56)"
    using \<open>r < 64\<close> by (auto simp: mod_if)
  then show ?thesis
    unfolding pad_def assms[symmetric] by (simp add: replicate_add)
qed

lemma body_one:
  assumes "length (buffer ctx) = 64"
  shows "regs (fst (body ctx (buffer ctx) 64)) = rfc_block (regs ctx) (buffer ctx)"
    "buffer (fst (body ctx (buffer ctx) 64)) = buffer ctx"
    "lo (fst (body ctx (buffer ctx) 64)) = lo ctx" "hi (fst (body ctx (buffer ctx) 64)) = hi ctx"
  using body_regs[of 64 "buffer ctx" ctx] assms
  by (simp_all add: blocks_long blocks_short)

lemma Final_represents:
  assumes "represents ctx m"
  shows "fst (MD5_Final ctx) = md5_ref m"
proof -
  define r where "r = length m mod 64"
  have r: "r < 64" by (simp add: r_def)
  have abs: "absorbed ctx m" and cnt: "counted ctx (length m)"
    using assms by (simp_all add: represents_def)
  have used: "unat (lo ctx AND 0x3f) = r" unfolding r_def by (rule used_of_count[OF cnt])
  have buf: "length (buffer ctx) = 64" using abs by (simp add: absorbed_def)
  define t where "t = take r (buffer ctx)"
  have t: "length t = r" using buf r by (simp add: t_def)
  define z where "z = put_le 8 (of_nat (8 * length m) :: u64)"
  have z: "put_le 4 (push_bit 3 (lo ctx)) @ put_le 4 (hi ctx) = z" "length z = 8"
    unfolding z_def by (rule length_field[OF cnt]) simp
  have ref: "blocks md5_init_regs (m @ u) = blocks (regs ctx) (t @ u)" for u
    unfolding t_def r_def by (rule blocks_tail[OF abs refl])
  have pad: "pad m = (if r < 56 then m @ [0x80] @ replicate (55 - r) 0 @ z
      else m @ ([0x80] @ replicate (63 - r) 0) @ replicate 56 0 @ z)"
    unfolding z_def by (rule pad_split[OF r_def])
  define c0 where "c0 = ctx\<lparr>buffer := (buffer ctx)[r := 0x80]\<rparr>"
  define fin where "fin c used free = 
      (let c = c\<lparr>buffer := memcpy_at (buffer c) used (replicate (free - 8) 0) (free - 8)\<rparr>;
          c = c\<lparr>lo := push_bit 3 (lo c)\<rparr>;
          c = c\<lparr>buffer := memcpy_at (buffer c) 56 (put_le 4 (lo c)) 4\<rparr>;
          c = c\<lparr>buffer := memcpy_at (buffer c) 60 (put_le 4 (hi c)) 4\<rparr>
       in regs (fst (body c (buffer c) 64)))" for c :: MD5_CTX and used free
  have fin: "fin c u free = rfc_block (regs c) (take u (buffer c) @ replicate (56 - u) 0 @ z)"
    if "length (buffer c) = 64" "lo c = lo ctx" "hi c = hi ctx" "u \<le> 56" "free = 64 - u" for c u free
  proof -
    define B where "B = take u (buffer c) @ replicate (56 - u) 0 @ z"
    define c' where "c' = c\<lparr>lo := push_bit 3 (lo ctx), buffer := B\<rparr>"
    have c': "buffer c' = B" "length (buffer c') = 64" "regs c' = regs c"
      using that z(2) by (simp_all add: c'_def B_def regs_def)
    have "fin c u free = regs (fst (body c' (buffer c') 64))"
      using that by (simp add: fin_def Let_def memcpy_at_def c'_def B_def flip: z(1))
    also have "\<dots> = rfc_block (regs c) B"
      using body_one(1)[OF c'(2)] c' by simp
    finally show ?thesis by (simp add: B_def)
  qed
  have final: "fst (MD5_Final ctx) = digest (
      if 63 - r < 8
      then fin (fst (body (c0\<lparr>buffer := memcpy_at (buffer c0) (r + 1) (replicate (63 - r) 0) (63 - r)\<rparr>)
             (memcpy_at (buffer c0) (r + 1) (replicate (63 - r) 0) (63 - r)) 64)) 0 64
      else fin c0 (r + 1) (63 - r))"
    by (simp add: MD5_Final_def Let_def used c0_def[symmetric] fin_def digest_def regs_def)
  have c0: "length (buffer c0) = 64" "regs c0 = regs ctx" "lo c0 = lo ctx" "hi c0 = hi ctx"
    "take (r + 1) (buffer c0) = t @ [0x80]"
    using buf r by (simp_all add: c0_def regs_def t_def take_Suc_conv_app_nth)
  show ?thesis
  proof (cases "r < 56")
    case True
    have "blocks md5_init_regs (pad m) = rfc_block (regs ctx) (t @ [0x80] @ replicate (55 - r) 0 @ z)"
      using True t z(2) by (simp add: pad ref blocks_long blocks_short)
    moreover have "fin c0 (r + 1) (63 - r) = rfc_block (regs ctx) (t @ [0x80] @ replicate (55 - r) 0 @ z)"
      using fin[OF c0(1,3,4), of "r + 1" "63 - r"] True c0 by simp
    moreover have "\<not> 63 - r < 8" using True by simp
    ultimately show ?thesis by (simp only: final md5_ref_def if_False)
  next
    case False
    define b1 where "b1 = (t @ [0x80]) @ replicate (63 - r) 0"
    have b1: "memcpy_at (buffer c0) (r + 1) (replicate (63 - r) 0) (63 - r) = b1" "length b1 = 64"
      using c0(1,5) r t by (simp_all add: memcpy_at_def b1_def)
    define c1 where "c1 = c0\<lparr>buffer := b1\<rparr>"
    have c1: "length (buffer c1) = 64" "regs c1 = regs ctx" "lo c1 = lo ctx" "hi c1 = hi ctx" "buffer c1 = b1"
      using b1 c0 by (simp_all add: c1_def regs_def)
    note bo = body_one[OF c1(1)]
    have "blocks md5_init_regs (pad m) = rfc_block (rfc_block (regs ctx) b1) (replicate 56 0 @ z)"
    proof -
      have "pad m = m @ (([0x80] @ replicate (63 - r) 0) @ replicate 56 0 @ z)"
        using False by (simp add: pad)
      then have "blocks md5_init_regs (pad m) = blocks (regs ctx) (b1 @ replicate 56 0 @ z)"
        by (simp add: ref b1_def)
      then show ?thesis
        using b1(2) z(2) blocks_append[of b1 "regs ctx" "replicate 56 0 @ z"]
        by (simp add: blocks_long blocks_short)
    qed
    moreover have "fin (fst (body c1 (buffer c1) 64)) 0 64 = rfc_block (rfc_block (regs ctx) b1) (replicate 56 0 @ z)"
      using fin[of "fst (body c1 (buffer c1) 64)" 0 64] bo c1 by simp
    moreover have "63 - r < 8" using False by simp
    ultimately show ?thesis
      by (simp only: final md5_ref_def if_True b1(1) c1_def[symmetric] c1(5))
  qed
qed

lemma updates_represent:
  "represents ctx m \<Longrightarrow> \<forall>d\<in>set ds. length d < 2 ^ 64 \<Longrightarrow>
     represents (foldl (\<lambda>ctx d. MD5_Update ctx d (length d)) ctx ds) (m @ concat ds)"
proof (induction ds arbitrary: ctx m)
  case (Cons d ds)
  from Cons.IH[OF Update_represents[OF Cons.prems(1), of d]] Cons.prems(2)
  show ?case by simp
qed simp

lemma signature_ref:
  assumes "length (buffer my_md5) = 64" "length key < 2 ^ 64"
  shows "md5_signature my_md5 key = md5_ref key"
  using Final_represents[OF Update_represents[OF Init_represents[OF assms(1)] assms(2)]]
  by (simp add: md5_signature_def Let_def)

lemma length_md5_ref: "length (md5_ref m) = 16"
  by (simp add: md5_ref_def digest_def split: prod.split)

text \<open>Four bytes of the result, combined with shifts and masks, are one word of the digest.\<close>

lemma word_of_results:
  assumes "i + 4 \<le> length rs"
  shows "push_bit 24 (zx32 (rs ! (3 + i)) AND 0xFF) OR push_bit 16 (zx32 (rs ! (2 + i)) AND 0xFF)
      OR push_bit 8 (zx32 (rs ! (1 + i)) AND 0xFF) OR (zx32 (rs ! (0 + i)) AND 0xFF)
    = get_le (take 4 (drop i rs))"
proof -
  have ff: "zx32 b AND 0xFF = ucast b" for b :: u8
    by (rule bit_word_eqI) (auto simp: zx32_def bit_simps bitw dest: byte_bit_less)
  have "take 4 (drop i rs) = [rs ! (0 + i), rs ! (1 + i), rs ! (2 + i), rs ! (3 + i)]"
    using assms by (intro nth_equalityI) (auto simp: nth_Cons' numeral_eq_Suc less_Suc_eq add.commute)
  then show ?thesis
    by (simp add: ff push_bit_or or.commute or.left_commute del: push_bit_of_Suc_0)
qed

subsection \<open>Properties\<close>

text \<open>
  C2. Hashing a message piece by piece gives its MD5: whatever the pieces and however they
  straddle the 64-byte blocks, \<open>MD5_Final\<close> after \<open>MD5_Init\<close> and one \<open>MD5_Update\<close> per
  piece returns the digest of their concatenation.
\<close>

theorem md5_streaming:
  assumes "length (buffer ctx) = 64" "\<forall>d\<in>set ds. length d < 2 ^ 64"
  shows "fst (MD5_Final (foldl (\<lambda>ctx d. MD5_Update ctx d (length d)) (MD5_Init ctx) ds))
    = md5_ref (concat ds)"
  using Final_represents[OF updates_represent[OF Init_represents[OF assms(1)] assms(2)]] by simp

theorem md5_streaming_witness:
  "fst (MD5_Final (foldl (\<lambda>ctx d. MD5_Update ctx d (length d))
      (MD5_Init \<lparr>lo = 1, hi = 2, reg_a = 3, reg_b = 4, reg_c = 5, reg_d = 6,
         buffer = replicate 64 7, block = []\<rparr>) [[97], [], [98, 99]])) = md5_ref [97, 98, 99]"
  using md5_streaming[of "\<lparr>lo = 1, hi = 2, reg_a = 3, reg_b = 4, reg_c = 5, reg_d = 6,
      buffer = replicate 64 7, block = []\<rparr>" "[[97], [], [98, 99]]"] by simp

text \<open>
  \<open>hash_md5\<close> is the first word of the digest in little-endian order, and
  \<open>ketama_hash\<close> with alignment \<open>i\<close> below 4 is its word number \<open>i\<close>; in particular neither
  depends on what the uninitialised context holds.
\<close>

theorem hash_md5_word:
  assumes "length (buffer my_md5) = 64" "length key < 2 ^ 64" "i < 4"
  shows "hash_md5 my_md5 key = get_le (take 4 (md5_ref key)) \<and>
    ketama_hash my_md5 key i = get_le (take 4 (drop (4 * i) (md5_ref key)))"
proof -
  have i: "4 * i + 4 \<le> length (md5_ref key)" using assms(3) by (simp add: length_md5_ref)
  show ?thesis
    unfolding hash_md5_def ketama_hash_def signature_ref[OF assms(1,2)] Let_def
    using word_of_results[of 0 "md5_ref key"] word_of_results[OF i]
    by (simp add: length_md5_ref mult.commute)
qed

theorem hash_md5_word_witness:
  "ketama_hash \<lparr>lo = 1, hi = 2, reg_a = 3, reg_b = 4, reg_c = 5, reg_d = 6,
     buffer = replicate 64 7, block = []\<rparr> [97] 3 = get_le (take 4 (drop 12 (md5_ref [97])))"
  using hash_md5_word[of "\<lparr>lo = 1, hi = 2, reg_a = 3, reg_b = 4, reg_c = 5, reg_d = 6,
      buffer = replicate 64 7, block = []\<rparr>" "[97]" 3] by simp

end
