(* ===== verification/Hashkit.thy ===== *)
theory Hashkit
  imports Crc Hashes Jenkins
begin

text \<open>
  \<open>common/hashkit/hashkit.c\<close>: \<open>genkey\<close>, which picks one of the hash functions by a
  number and writes an 8-byte key, and \<open>key2text\<close>, which formats such a key into a static
  buffer. A hash function takes the address of the input, its bytes as a function of the
  offset (defined also behind the end, where the word-wise body of Jenkins reads) and its
  length.
\<close>

type_synonym hash_function = "u64 \<Rightarrow> (nat \<Rightarrow> u8) \<Rightarrow> nat \<Rightarrow> u32"

definition KEY_LENGTH :: nat where
  "KEY_LENGTH = 8"

subsection \<open>genkey\<close>

definition bytewise_function :: "(bytes \<Rightarrow> u32) \<Rightarrow> hash_function" where
  "bytewise_function h p m len = h (map m [0..<len])"

text \<open>The array \<open>functions\<close>; \<open>None\<close> would be a null pointer.\<close>

definition hash_functions :: "hash_function option list" where
  "hash_functions = [
     Some (bytewise_function hash_one_at_a_time),
     Some (bytewise_function hash_crc16),
     Some (bytewise_function hash_crc32),
     Some (bytewise_function hash_crc32a),
     Some (bytewise_function hash_fnv1_64),
     Some (bytewise_function hash_fnv1a_64),
     Some (bytewise_function hash_fnv1_32),
     Some (bytewise_function hash_fnv1a_32),
     Some (bytewise_function hash_hsieh),
     Some hash_jenkins,
     Some (bytewise_function hash_murmur)]"

definition genkey :: "u64 \<Rightarrow> (nat \<Rightarrow> u8) \<Rightarrow> nat \<Rightarrow> u32 \<Rightarrow> bytes" where
  "genkey p m len ident =
     (if 10 \<le> length hash_functions
      then case hash_functions ! unat (ident mod 10) of
          Some hash \<Rightarrow> (let v1 = hash p m len; v2 = v1 XOR 0xabcdef
            in put_le (KEY_LENGTH div 2) v1 @ put_le (KEY_LENGTH div 2) v2)
        | None \<Rightarrow> map m [0..<KEY_LENGTH]
      else map m [0..<KEY_LENGTH])"

subsection \<open>key2text\<close>

text \<open>\<open>snprintf(&buf[off], n, ...)\<close>: at most \<open>n - 1\<close> characters of the text and a NUL.\<close>

definition snprintf_at :: "bytes \<Rightarrow> nat \<Rightarrow> nat \<Rightarrow> bytes \<Rightarrow> bytes" where
  "snprintf_at buf off n s =
     (if n = 0 then buf
      else (let w = take (n - 1) s @ [0] in take off buf @ w @ drop (off + length w) buf))"

text \<open>\<open>"%2X"\<close>: upper-case hexadecimal, padded with a space to two characters.\<close>

definition hex_digit :: "u8 \<Rightarrow> u8" where
  "hex_digit d = (if d < 10 then 48 + d else 55 + d)"

definition format_2X :: "u8 \<Rightarrow> bytes" where
  "format_2X b = (if b < 16 then [32, hex_digit b] else [hex_digit (b div 16), hex_digit (b mod 16)])"

text \<open>The loop over the key; the static buffer before and after the call is explicit.\<close>

definition key2text :: "bytes \<Rightarrow> bytes \<Rightarrow> bytes" where
  "key2text text key =
     foldl (\<lambda>text i. snprintf_at text (2 * i) 1 (format_2X (key ! i))) text [0..<KEY_LENGTH]"

text \<open>The characters a caller sees behind the returned pointer: up to the first NUL.\<close>

definition c_string :: "bytes \<Rightarrow> bytes" where
  "c_string text = takeWhile (\<lambda>c. c \<noteq> 0) text"

subsection \<open>Lemmas\<close>

lemma hash_functions_chosen:
  "\<exists>hash. hash_functions ! unat (ident mod 10 :: u32) = Some hash"
  "10 \<le> length hash_functions"
proof -
  have "unat (ident mod 10 :: u32) < 10"
    by (simp add: unat_mod_distrib)
  then show "\<exists>hash. hash_functions ! unat (ident mod 10 :: u32) = Some hash"
    by (auto simp: hash_functions_def less_Suc_eq numeral_eq_Suc)
qed (simp add: hash_functions_def)

definition chosen :: "u32 \<Rightarrow> hash_function" where
  "chosen ident = the (hash_functions ! unat (ident mod 10))"

lemma genkey_chosen:
  "genkey p m len ident = put_le 4 (chosen ident p m len) @ put_le 4 (chosen ident p m len XOR 0xabcdef)"
  using hash_functions_chosen(1)[of ident] hash_functions_chosen(2)
  by (auto simp: genkey_def chosen_def KEY_LENGTH_def Let_def)

lemma put_le4_inject [simp]: "put_le 4 (v :: u32) = put_le 4 w \<longleftrightarrow> v = w"
proof
  assume "put_le 4 v = put_le 4 w"
  then have "(get_le (put_le 4 v) :: u32) = get_le (put_le 4 w)" by simp
  then show "v = w" by (simp only: get_put_le) (simp add: take_bit_word_eq_self)
qed simp

lemma put_le_xor:
  "put_le n (v XOR w :: 'a::len word) = map2 (XOR) (put_le n v) (put_le n w)"
proof (induction n arbitrary: v w)
  case (Suc n)
  have "ucast (v XOR w) = (ucast v XOR ucast w :: u8)"
    by (rule bit_word_eqI) (auto simp: bit_simps)
  with Suc show ?case by (simp add: drop_bit_xor)
qed simp

lemma chosen_address:
  assumes "\<forall>i<len. m i = m' i"
  shows "chosen ident p m len = chosen ident q m' len"
proof -
  have "map m [0..<len] = map m' [0..<len]" using assms by simp
  moreover have "unat (ident mod 10 :: u32) < 10" by (simp add: unat_mod_distrib)
  moreover have "hash_jenkins p m len = hash_jenkins q m' len"
    using assms bytewise_cong[of 0 len m m'] by (simp add: hash_jenkins_bytewise Let_def)
  ultimately show ?thesis
    by (auto simp: chosen_def hash_functions_def bytewise_function_def less_Suc_eq numeral_eq_Suc
      simp del: map_eq_conv)
qed

subsection \<open>Properties\<close>

text \<open>
  The key \<open>genkey\<close> writes holds one 32-bit hash and nothing more: its second half is
  the first half with the fixed bytes EF CD AB 00 flipped in, so two inputs get the same
  8-byte key exactly when they get the same first four bytes.
\<close>

lemma genkey_halves:
  "length (genkey p m len ident) = KEY_LENGTH \<and>
   drop 4 (genkey p m len ident) = map2 (XOR) (take 4 (genkey p m len ident)) [0xef, 0xcd, 0xab, 0] \<and>
   (genkey p m len ident = genkey q m' len' ident' \<longleftrightarrow>
      take 4 (genkey p m len ident) = take 4 (genkey q m' len' ident'))"
proof -
  have "put_le 4 (0xabcdef :: u32) = [0xef, 0xcd, 0xab, 0]"
  proof -
    have "(4::nat) = Suc (Suc (Suc (Suc 0)))" by simp
    then show ?thesis by (simp only: put_le.simps) simp
  qed
  then show ?thesis
    by (auto simp: genkey_chosen KEY_LENGTH_def length_put_le put_le_xor)
qed

text \<open>
  \<open>genkey\<close> reads nothing but the \<open>inputlen\<close> bytes of its input: the address of the
  input, the bytes behind it and the multiples of ten in the number do not matter. The
  fallback that copies eight bytes of the input whatever its length is dead code.
\<close>

theorem genkey_input_only:
  assumes "\<forall>i<len. m i = m' i" "ident mod 10 = ident' mod 10"
  shows "genkey p m len ident = genkey q m' len ident'"
  using chosen_address[OF assms(1), of ident' p q] assms(2)
  by (simp add: genkey_chosen chosen_def)

theorem genkey_input_only_witness:
  "genkey 0 (\<lambda>i. if i < 3 then 97 else 0) 3 9 = genkey 5 (\<lambda>i. if i < 3 then 97 else 7) 3 19"
  by (rule genkey_input_only) simp_all

text \<open>
  With the number of the CRC-32 or of the one-at-a-time function, changing one byte of
  the input always changes the key.
\<close>

lemma genkey_one_byte:
  assumes "ident mod 10 = 0 \<or> ident mod 10 = 3" "i < len" "a \<noteq> b"
  shows "genkey p (m(i := a)) len ident \<noteq> genkey p (m(i := b)) len ident"
proof -
  have split: "map (m(i := c)) [0..<len] = map m [0..<i] @ c # map m [Suc i..<len]" for c
    using assms(2) upt_add_eq_append[of 0 i "len - i"] by (simp add: upt_conv_Cons)
  have "chosen ident = bytewise_function hash_one_at_a_time \<or>
      chosen ident = bytewise_function hash_crc32a"
  proof (cases "ident mod 10 = 0")
    case True
    then show ?thesis by (simp add: chosen_def hash_functions_def del: mod_eq_0_iff_dvd)
  next
    case False
    then have "ident mod 10 = 3" using assms(1) by blast
    then show ?thesis by (simp add: chosen_def hash_functions_def)
  qed
  then have "chosen ident p (m(i := a)) len \<noteq> chosen ident p (m(i := b)) len"
    using assms(3) oaat.one_byte crc32a.one_byte
    by (auto simp: bytewise_function_def split hash_one_at_a_time_def hash_crc32a_def simp del: map_eq_conv)
  then show ?thesis by (simp add: genkey_chosen)
qed

text \<open>
  \<open>key2text\<close> never shows a digit: \<open>snprintf\<close> is given room for one character, which
  the terminating NUL takes, so whatever the key the caller gets the empty string, and of
  the static buffer only the eight even positions below 16 are cleared.
\<close>

theorem key2text_empty:
  assumes "length buf = 256"
  shows "c_string (key2text buf key) = [] \<and> length (key2text buf key) = 256 \<and>
    (\<forall>i<256. key2text buf key ! i = (if i < 16 \<and> even i then 0 else buf ! i))"
proof -
  have snp: "snprintf_at t off (Suc 0) s = t[off := 0]" if "off < length t" for t off s
    using that by (simp add: snprintf_at_def Let_def upd_conv_take_nth_drop)
  have k: "key2text buf key = buf[0 := 0, 2 := 0, 4 := 0, 6 := 0, 8 := 0, 10 := 0, 12 := 0, 14 := 0]"
    by (simp add: key2text_def KEY_LENGTH_def upt_conv_Cons snp assms)
  have "c_string (key2text buf key) = []"
    unfolding k c_string_def using assms by (cases buf) simp_all
  moreover have "key2text buf key ! i = (if i < 16 \<and> even i then 0 else buf ! i)" if "i < 256" for i
  proof -
    have "i < 16 \<and> even i \<longleftrightarrow>
        i = 0 \<or> i = 2 \<or> i = 4 \<or> i = 6 \<or> i = 8 \<or> i = 10 \<or> i = 12 \<or> i = 14"
      by presburger
    then show ?thesis using assms that by (auto simp: k nth_list_update)
  qed
  ultimately show ?thesis by (simp add: k assms)
qed

theorem key2text_empty_witness:
  "c_string (key2text (replicate 256 0) [1, 2, 3, 4, 5, 6, 7, 8]) = []"
  using key2text_empty[of "replicate 256 0" "[1, 2, 3, 4, 5, 6, 7, 8]"] by simp

end
