(* ===== verification/Sharding.thy ===== *)
theory Sharding
  imports Hashes
begin

text \<open>
  \<open>common/sharding.h\<close>: the template \<open>Sharding<Shard, Hash>\<close>, a map from shard numbers to
  shards and the routing of 32-bit hash codes to them. A shard pointer is \<open>None\<close> when it
  is null; the method \<open>shard()\<close> of the template parameter \<open>Shard\<close> is the argument
  \<open>shard_of\<close> of the operations that call it, the static method of \<open>Hash\<close> the argument
  \<open>hash\<close>. Shard numbers are the C++ \<open>int\<close>s of the source, as integers.
\<close>

record 's sharding =
  shards :: "int \<Rightarrow> 's option"
  shardnum :: int

definition MurmurHash_hash :: "bytes \<Rightarrow> u32" where
  "MurmurHash_hash key = hash_murmur key"

definition Sharding_init :: "int \<Rightarrow> 's sharding" where
  "Sharding_init n = \<lparr>shards = (\<lambda>_. None), shardnum = n\<rparr>"

definition setShardNum :: "int \<Rightarrow> 's sharding \<Rightarrow> 's sharding" where
  "setShardNum n sh = sh\<lparr>shardnum := n\<rparr>"

definition isReady :: "'s sharding \<Rightarrow> bool" where
  "isReady sh = list_all (\<lambda>i. shards sh (int i) \<noteq> None) [0..<nat (shardnum sh)]"

definition addShard :: "('s \<Rightarrow> int) \<Rightarrow> 's option \<Rightarrow> 's sharding \<Rightarrow> bool \<times> 's sharding" where
  "addShard shard_of shard sh =
     (case shard of
        None \<Rightarrow> (False, sh)
      | Some s \<Rightarrow>
          if shard_of s = -1 then (False, sh)
          else if shards sh (shard_of s) \<noteq> None then (False, sh)
          else (True, sh\<lparr>shards := (shards sh)(shard_of s := Some s)\<rparr>))"

definition getShardByID :: "'s sharding \<Rightarrow> int \<Rightarrow> 's option" where
  "getShardByID sh shard = shards sh shard"

text \<open>
  \<open>hashcode / (4294967296UL/shardnum_)\<close> is computed in \<open>unsigned long\<close> and converted to
  the \<open>int\<close> that \<open>getShardByID\<close> takes.
\<close>

definition shard_index :: "u32 \<Rightarrow> int \<Rightarrow> int" where
  "shard_index hashcode n =
     sint (ucast (ucast hashcode div (4294967296 div word_of_int n) :: u64) :: u32)"

definition getShardByHash :: "'s sharding \<Rightarrow> u32 \<Rightarrow> 's option" where
  "getShardByHash sh hashcode =
     (if 0 < shardnum sh then getShardByID sh (shard_index hashcode (shardnum sh)) else None)"

definition getShardByKey :: "(bytes \<Rightarrow> u32) \<Rightarrow> 's sharding \<Rightarrow> bytes \<Rightarrow> 's option" where
  "getShardByKey hash sh key = getShardByHash sh (hash key)"

subsection \<open>The index as a division of integers\<close>

lemma uint_div_word: "uint (a div b :: 'a::len word) = uint a div uint b"
  by (rule uint_div_distrib)

lemma shard_index_div:
  assumes "0 < n" "n < 2 ^ 31"
  shows "shard_index h n = uint h div (2 ^ 32 div n)"
proof -
  have n: "uint (word_of_int n :: u64) = n"
    using assms by (simp add: uint_word_of_int)
  have w: "2 \<le> (2 ^ 32 :: int) div n"
  proof -
    have "2 = (2 ^ 32 :: int) div 2 ^ 31" by simp
    also have "\<dots> \<le> 2 ^ 32 div n" using assms by (intro zdiv_mono2) simp_all
    finally show ?thesis .
  qed
  have h: "0 \<le> uint h" "uint h < 2 ^ 32"
    using uint_lt2p[of h] by simp_all
  define q where "q = uint h div (2 ^ 32 div n)"
  have "q \<le> uint h div 2" unfolding q_def using w h by (intro zdiv_mono2) simp_all
  then have q: "0 \<le> q" "q < 2 ^ 31" using h w by (simp_all add: q_def pos_imp_zdiv_nonneg_iff)
  have "uint (ucast h :: u64) = uint h" using h by (simp add: unsigned_ucast_eq take_bit_int_eq_self)
  then have u: "uint (ucast h div (4294967296 div word_of_int n) :: u64) = q"
    by (simp add: uint_div_word n q_def)
  have "uint (ucast (ucast h div (4294967296 div word_of_int n) :: u64) :: u32) = q"
    using q by (simp add: unsigned_ucast_eq u take_bit_int_eq_self)
  then have "shard_index h n = q"
    unfolding shard_index_def sint_uint using q by (simp add: signed_take_bit_int_eq_self)
  then show ?thesis by (simp only: q_def)
qed

text \<open>Division by a positive width cuts the hash codes into consecutive ranges.\<close>

lemma div_eq_range:
  fixes w :: int
  assumes "0 < w"
  shows "x div w = k \<longleftrightarrow> k * w \<le> x \<and> x < (k + 1) * w"
  using assms by (auto simp: div_int_pos_iff algebra_simps minus_mod_eq_mult_div [symmetric]
      intro: int_div_pos_eq[of x w k "x - k * w"])

lemma mult_div_le_int: "0 < n \<Longrightarrow> n * (x div n) \<le> (x :: int)"
  by (simp flip: minus_mod_eq_mult_div)

lemma le_div_iff_int:
  fixes w :: int
  assumes "0 < w"
  shows "n \<le> x div w \<longleftrightarrow> n * w \<le> x"
proof
  assume "n \<le> x div w"
  then have "n * w \<le> w * (x div w)" using assms by (simp add: mult.commute)
  then show "n * w \<le> x" using mult_div_le_int[OF assms] by (rule order.trans)
next
  assume "n * w \<le> x"
  then have "n * w div w \<le> x div w" using assms by (rule zdiv_mono1)
  then show "n \<le> x div w" using assms by simp
qed

lemma card_uint_range:
  assumes "0 \<le> a" "a \<le> b" "b \<le> 2 ^ 32"
  shows "card {h :: u32. a \<le> uint h \<and> uint h < b} = nat (b - a)"
proof -
  have "{h :: u32. a \<le> uint h \<and> uint h < b} = word_of_int ` {a..<b}"
  proof (intro equalityI subsetI)
    fix h :: u32
    assume "h \<in> {h. a \<le> uint h \<and> uint h < b}"
    then show "h \<in> word_of_int ` {a..<b}" by (intro image_eqI[of _ _ "uint h"]) simp_all
  next
    fix h :: u32
    assume "h \<in> word_of_int ` {a..<b}"
    then show "h \<in> {h. a \<le> uint h \<and> uint h < b}" using assms by (auto simp: uint_word_of_int)
  qed
  moreover have "inj_on (word_of_int :: int \<Rightarrow> u32) {a..<b}"
    using assms by (intro inj_onI) (auto simp: word_of_int_eq_iff take_bit_int_eq_self)
  ultimately show ?thesis by (simp add: card_image)
qed

text \<open>A complete map of shards: exactly the numbers below \<open>shardnum\<close> are taken.\<close>

definition complete :: "'s sharding \<Rightarrow> bool" where
  "complete sh \<longleftrightarrow> {i. shards sh i \<noteq> None} = {0..<shardnum sh}"

lemma isReady_iff: "isReady sh \<longleftrightarrow> {0..<shardnum sh} \<subseteq> {i. shards sh i \<noteq> None}"
proof -
  have "isReady sh \<longleftrightarrow> (\<forall>i<nat (shardnum sh). shards sh (int i) \<noteq> None)"
    by (auto simp: isReady_def list_all_iff)
  also have "\<dots> \<longleftrightarrow> (\<forall>j. 0 \<le> j \<and> j < shardnum sh \<longrightarrow> shards sh j \<noteq> None)"
  proof (intro iffI allI impI)
    fix j
    assume "\<forall>i<nat (shardnum sh). shards sh (int i) \<noteq> None" "0 \<le> j \<and> j < shardnum sh"
    then show "shards sh j \<noteq> None" by (auto dest!: spec[of _ "nat j"])
  qed auto
  finally show ?thesis by auto
qed

lemma getShardByHash_complete:
  assumes "complete sh" "0 < shardnum sh" "shardnum sh < 2 ^ 31"
  shows "getShardByHash sh h = None \<longleftrightarrow> shardnum sh * (2 ^ 32 div shardnum sh) \<le> uint h"
proof -
  define w where "w = (2 ^ 32 :: int) div shardnum sh"
  have w: "0 < w" using assms by (simp add: w_def pos_imp_zdiv_pos_iff)
  have "getShardByHash sh h = None \<longleftrightarrow> shard_index h (shardnum sh) \<notin> {0..<shardnum sh}"
  proof -
    have "i \<in> {i. shards sh i \<noteq> None} \<longleftrightarrow> i \<in> {0..<shardnum sh}" for i
      using assms(1) by (simp add: complete_def)
    from this[of "shard_index h (shardnum sh)"] show ?thesis
      using assms(2) unfolding getShardByHash_def getShardByID_def by fastforce
  qed
  also have "\<dots> \<longleftrightarrow> shardnum sh \<le> uint h div w"
    using w by (simp add: shard_index_div[OF assms(2,3), folded w_def] not_less pos_imp_zdiv_nonneg_iff)
  also have "\<dots> \<longleftrightarrow> shardnum sh * w \<le> uint h"
    by (rule le_div_iff_int[OF w])
  finally show ?thesis by (simp add: w_def)
qed

lemma addShard_fst: "fst (addShard shard_of s sh) \<longleftrightarrow>
    (\<exists>x. s = Some x \<and> shard_of x \<noteq> -1 \<and> shards sh (shard_of x) = None)"
  by (auto simp: addShard_def split: option.splits)

lemma addShard_lookup: "getShardByID (snd (addShard shard_of s sh)) i =
    (case getShardByID sh i of
       None \<Rightarrow> (case s of None \<Rightarrow> None | Some x \<Rightarrow> if shard_of x = i \<and> i \<noteq> -1 then Some x else None)
     | Some y \<Rightarrow> Some y)"
  by (auto simp: addShard_def getShardByID_def split: option.splits)

subsection \<open>Properties\<close>

text \<open>
  The routing is the division drawn in the header file: with \<open>n\<close> shards the hash codes
  of shard \<open>k\<close> are the \<open>2^32 div n\<close> consecutive codes from \<open>k * (2^32 div n)\<close> on. None
  of the conversions between \<open>unsigned long\<close> and \<open>int\<close> loses a bit.
\<close>

theorem shard_ranges:
  assumes "0 < n" "n < 2 ^ 31"
  shows "shard_index h n = k \<longleftrightarrow>
    k * (2 ^ 32 div n) \<le> uint h \<and> uint h < (k + 1) * (2 ^ 32 div n)"
proof -
  have "0 < (2 ^ 32 :: int) div n" using assms by (simp add: pos_imp_zdiv_pos_iff)
  from div_eq_range[OF this] show ?thesis by (simp only: shard_index_div[OF assms])
qed

theorem shard_ranges_witness: "shard_index 0xc0000000 4 = 3"
  using shard_ranges[of 4 "0xc0000000" 3] by simp

text \<open>
  C8. Routing loses hash codes unless the number of shards divides \<open>2^32\<close>: with shards
  \<open>0\<close> to \<open>n - 1\<close> all added, the hash codes that are routed to no shard are those from
  \<open>2^32 - 2^32 mod n\<close> on, the \<open>2^32 mod n\<close> highest ones, although \<open>isReady\<close> holds.
\<close>

theorem unrouted_hashes:
  assumes "complete sh" "0 < shardnum sh" "shardnum sh < 2 ^ 31"
  shows "isReady sh \<and> {h. getShardByHash sh h = None} = {h. 2 ^ 32 - 2 ^ 32 mod shardnum sh \<le> uint h} \<and>
    card {h. getShardByHash sh h = None} = nat (2 ^ 32 mod shardnum sh)"
proof -
  define n where "n = shardnum sh"
  have "{h. getShardByHash sh h = None} = {h. n * (2 ^ 32 div n) \<le> uint h \<and> uint h < 2 ^ 32}"
    using getShardByHash_complete[OF assms] uint_lt2p[where 'a=32] by (auto simp: n_def)
  moreover have "0 \<le> n * (2 ^ 32 div n)" "n * (2 ^ 32 div n) \<le> 2 ^ 32"
    using assms by (simp_all add: n_def pos_imp_zdiv_nonneg_iff mult_div_le_int)
  ultimately have "card {h. getShardByHash sh h = None} = nat (2 ^ 32 - n * (2 ^ 32 div n))"
    using card_uint_range[of "n * (2 ^ 32 div n)" "2 ^ 32"] by simp
  moreover have "n * (2 ^ 32 div n) = 2 ^ 32 - 2 ^ 32 mod n" by (simp add: minus_mod_eq_mult_div)
  moreover have "{h. getShardByHash sh h = None} = {h. n * (2 ^ 32 div n) \<le> uint h}"
    using getShardByHash_complete[OF assms] by (simp add: n_def)
  ultimately show ?thesis
    using assms(1) by (simp add: isReady_iff complete_def n_def)
qed

theorem unrouted_hashes_witness:
  "{h. getShardByHash \<lparr>shards = \<lambda>i. if i = 0 \<or> i = 1 \<or> i = 2 then Some i else None, shardnum = 3\<rparr> h = None} = {h. 2 ^ 32 - 1 \<le> uint h}"
proof -
  have "complete \<lparr>shards = \<lambda>i. if i = 0 \<or> i = 1 \<or> i = 2 then Some i else None, shardnum = 3\<rparr>"
    by (auto simp: complete_def)
  from unrouted_hashes[OF this] show ?thesis by simp
qed

text \<open>
  Every shard gets the same number of hash codes, \<open>2^32 div n\<close>, whether or not the
  number of shards is a power of two.
\<close>

lemma shard_balance:
  assumes "0 < n" "n < 2 ^ 31" "0 \<le> k" "k < n"
  shows "card {h. shard_index h n = k} = nat (2 ^ 32 div n)"
proof -
  define w where "w = (2 ^ 32 :: int) div n"
  have w: "0 < w" using assms by (simp add: w_def pos_imp_zdiv_pos_iff)
  have "(k + 1) * w \<le> n * w" using assms w by simp
  also have "\<dots> \<le> 2 ^ 32" using assms by (simp add: w_def mult_div_le_int)
  finally have "(k + 1) * w \<le> 2 ^ 32" .
  moreover have "{h. shard_index h n = k} = {h. k * w \<le> uint h \<and> uint h < (k + 1) * w}"
    by (simp only: shard_index_div[OF assms(1,2)] w_def[symmetric] div_eq_range[OF w])
  moreover have "0 \<le> k * w" "k * w \<le> (k + 1) * w" using w assms by simp_all
  ultimately have "card {h. shard_index h n = k} = nat ((k + 1) * w - k * w)"
    by (simp only: card_uint_range)
  moreover have "(k + 1) * w - k * w = w" by (simp add: algebra_simps)
  ultimately show ?thesis by (simp only: w_def)
qed

text \<open>
  Doubling a number of shards that divides \<open>2^31\<close> splits every shard in two: the
  hash codes of shard \<open>k\<close> go to the shards \<open>2 k\<close> and \<open>2 k + 1\<close>, none moves elsewhere.
\<close>

theorem shard_doubling:
  assumes "0 < n" "n dvd 2 ^ 31" "n < 2 ^ 30"
  shows "shard_index h (2 * n) div 2 = shard_index h n"
proof -
  from assms(2) obtain w where w: "2 ^ 31 = n * w" ..
  have "(2 ^ 32 :: int) = n * (2 * w)" "(2 ^ 32 :: int) = 2 * n * w"
    using w by simp_all
  then have "(2 ^ 32 :: int) div n = 2 * w" "(2 ^ 32 :: int) div (2 * n) = w"
    using assms(1) by (metis nonzero_mult_div_cancel_left less_irrefl,
      metis nonzero_mult_div_cancel_left less_irrefl mult_eq_0_iff zero_neq_numeral)
  moreover have "0 < w"
  proof -
    have "0 < n * w" using w by simp
    then show ?thesis using assms(1) by (simp add: zero_less_mult_iff)
  qed
  ultimately show ?thesis
    using assms by (simp add: shard_index_div mult.commute flip: zdiv_zmult2_eq)
qed

theorem shard_doubling_witness: "shard_index 0xabcdef01 8 div 2 = shard_index 0xabcdef01 4"
proof -
  have "(4::int) dvd 2 ^ 31" by simp
  from shard_doubling[OF _ this] show ?thesis by simp
qed

text \<open>
  Whatever sequence of shards is added to an empty map, under a number other than -1
  the map finds the first shard added with that number, and \<open>addShard\<close> tells whether it
  was this one; null pointers and shards that call themselves -1 are never added.
\<close>

theorem first_shard_wins:
  "getShardByID (foldl (\<lambda>sh s. snd (addShard shard_of s sh)) (Sharding_init n) ss) i =
     (if i = -1 then None else find (\<lambda>x. shard_of x = i) (List.map_filter (\<lambda>s. s) ss)) \<and>
   (fst (addShard shard_of (Some x) (foldl (\<lambda>sh s. snd (addShard shard_of s sh)) (Sharding_init n) ss))
     \<longleftrightarrow> shard_of x \<noteq> -1 \<and> shard_of x \<notin> shard_of ` set (List.map_filter (\<lambda>s. s) ss))"
proof -
  have gen: "getShardByID (foldl (\<lambda>sh s. snd (addShard shard_of s sh)) sh ss) i =
     (case getShardByID sh i of Some y \<Rightarrow> Some y
      | None \<Rightarrow> (if i = -1 then None else find (\<lambda>x. shard_of x = i) (List.map_filter (\<lambda>s. s) ss)))" for i sh
  proof (induction ss arbitrary: sh)
    case (Cons s ss)
    show ?case by (cases s) (auto simp: Cons addShard_lookup List.map_filter_def split: option.splits)
  qed (simp add: List.map_filter_def split: option.splits)
  have none: "find (\<lambda>y. shard_of y = shard_of x) (List.map_filter (\<lambda>s. s) ss) = None
      \<longleftrightarrow> shard_of x \<notin> shard_of ` set (List.map_filter (\<lambda>s. s) ss)"
    unfolding find_None_iff image_iff by metis
  show ?thesis
    using gen[of "Sharding_init n"] none
    by (simp add: addShard_fst getShardByID_def Sharding_init_def)
qed

end
