(* ===== verification/Pool.thy ===== *)
theory Pool
  imports Prelude
begin

text \<open>
  \<open>common/pool.h\<close>: the connection pool \<open>ConnectionPool\<close>, the pool with an upper limit
  \<open>ConnectionPoolWithLimit\<close> and the guard \<open>ScopedConnection\<close>, as sequential operations;
  \<open>Pool_Threads\<close> interleaves their atomic parts.

  A pointer to a connection is an option, \<open>None\<close> when null. The methods \<open>create\<close> and
  \<open>destroy\<close> are pure virtual: the connection \<open>create()\<close> returns is the argument
  \<open>fresh\<close>, the connections passed to \<open>destroy\<close> are returned as a list. The clock
  \<open>time(0)\<close> is the argument \<open>now\<close>.

  The locale \<open>strict_weak_order\<close> is the requirement \<open>std::max_element\<close> has on the
  comparison; the locale \<open>conn_pool\<close> is the contract the users of a pool rely on.
\<close>

subsection \<open>ConnectionInfo and its ordering\<close>

record 'c connection_info =
  conn :: "'c option"
  last_used :: int
  in_use :: bool

type_synonym 'c PoolT = "'c connection_info list"

definition ConnectionInfo :: "'c option \<Rightarrow> int \<Rightarrow> 'c connection_info" where
  "ConnectionInfo c now = \<lparr>conn = c, last_used = now, in_use = True\<rparr>"

definition info_less :: "'c connection_info \<Rightarrow> 'c connection_info \<Rightarrow> bool" where
  "info_less lhs rhs =
     (if in_use lhs = in_use rhs then last_used lhs < last_used rhs else in_use lhs)"

text \<open>\<open>std::max_element\<close>, the index of the first largest element or the length.\<close>

definition max_element :: "('a \<Rightarrow> 'a \<Rightarrow> bool) \<Rightarrow> 'a list \<Rightarrow> nat" where
  "max_element lt xs =
     (if xs = [] then length xs
      else foldl (\<lambda>m i. if lt (xs ! m) (xs ! i) then i else m) 0 [1..<length xs])"

subsection \<open>ConnectionPool\<close>

definition find_mru :: "'c PoolT \<Rightarrow> 'c option \<times> 'c PoolT" where
  "find_mru pool =
     (let mru = max_element info_less pool in
      if mru \<noteq> length pool \<and> \<not> in_use (pool ! mru)
      then (conn (pool ! mru), pool[mru := (pool ! mru)\<lparr>in_use := True\<rparr>])
      else (None, pool))"

definition base_grab :: "'c option \<Rightarrow> int \<Rightarrow> 'c PoolT \<Rightarrow> 'c option \<times> 'c PoolT" where
  "base_grab fresh now pool =
     (let (mru, pool) = find_mru pool in
      if mru \<noteq> None then (mru, pool)
      else let pool = pool @ [ConnectionInfo fresh now] in (conn (last pool), pool))"

fun base_release :: "'c option \<Rightarrow> int \<Rightarrow> 'c PoolT \<Rightarrow> 'c PoolT" where
  "base_release pc now [] = []"
| "base_release pc now (it # its) =
     (if conn it = pc then it\<lparr>in_use := False, last_used := now\<rparr> # its
      else it # base_release pc now its)"

fun base_remove :: "'c option \<Rightarrow> 'c PoolT \<Rightarrow> 'c option list \<times> 'c PoolT" where
  "base_remove pc [] = ([], [])"
| "base_remove pc (it # its) =
     (if conn it = pc then ([conn it], its)
      else let (destroyed, its) = base_remove pc its in (destroyed, it # its))"

fun clear :: "bool \<Rightarrow> 'c PoolT \<Rightarrow> 'c option list \<times> 'c PoolT" where
  "clear all [] = ([], [])"
| "clear all (it # its) =
     (let (destroyed, its) = clear all its in
      if all \<or> \<not> in_use it then (conn it # destroyed, its) else (destroyed, it # its))"

definition shrink :: "'c PoolT \<Rightarrow> 'c option list \<times> 'c PoolT" where
  "shrink pool = clear False pool"

definition removeAll :: "'c PoolT \<Rightarrow> 'c option list \<times> 'c PoolT" where
  "removeAll pool = clear True pool"

definition pool_size :: "'c PoolT \<Rightarrow> nat" where
  "pool_size pool = length pool"

definition pool_empty :: "'c PoolT \<Rightarrow> bool" where
  "pool_empty pool \<longleftrightarrow> pool = []"

subsection \<open>ConnectionPoolWithLimit\<close>

record 'c limit_pool =
  pool :: "'c PoolT"
  conns_in_use :: u32
  conns_max :: u32
  grab_waittime :: int

definition ConnectionPoolWithLimit :: "u32 \<Rightarrow> 'c limit_pool" where
  "ConnectionPoolWithLimit maxconn =
     \<lparr>pool = [], conns_in_use = 0, conns_max = maxconn, grab_waittime = -1\<rparr>"

definition setMaxConn :: "u32 \<Rightarrow> 'c limit_pool \<Rightarrow> 'c limit_pool" where
  "setMaxConn maxconn p = p\<lparr>conns_max := maxconn\<rparr>"

definition setGrabWaitTime :: "int \<Rightarrow> 'c limit_pool \<Rightarrow> 'c limit_pool" where
  "setGrabWaitTime ms p = p\<lparr>grab_waittime := ms\<rparr>"

text \<open>
  The waiting loops of \<open>grab\<close> read the volatile counter again and again while other
  threads change it: \<open>reads k\<close> is the value the \<open>k\<close>-th evaluation of the loop condition
  finds. The first loop has no bound, so it may return nothing; the second gives up when
  \<open>++tries\<close> exceeds 1000.
\<close>

partial_function (option) wait_forever :: "u32 \<Rightarrow> (nat \<Rightarrow> u32) \<Rightarrow> nat \<Rightarrow> nat option" where
  "wait_forever maxconn reads k =
     (if maxconn \<le> reads k then wait_forever maxconn reads (Suc k) else Some k)"

function wait_tries :: "u32 \<Rightarrow> (nat \<Rightarrow> u32) \<Rightarrow> nat \<Rightarrow> bool" where
  "wait_tries maxconn reads tries =
     (if maxconn \<le> reads tries
      then (if tries + 1 > 1000 then False else wait_tries maxconn reads (tries + 1))
      else True)"
  by pat_completeness auto
termination
  by (relation "measure (\<lambda>(maxconn, reads, tries). 1001 - tries)") auto

declare wait_tries.simps [simp del]

text \<open>\<open>None\<close> when \<open>grab\<close> does not return, \<open>Some False\<close> when it gives up.\<close>

definition grab_wait :: "int \<Rightarrow> u32 \<Rightarrow> (nat \<Rightarrow> u32) \<Rightarrow> bool option" where
  "grab_wait waittime maxconn reads =
     (if waittime = 0 then Some (\<not> maxconn \<le> reads 0)
      else if waittime < 0
      then (case wait_forever maxconn reads 0 of None \<Rightarrow> None | Some k \<Rightarrow> Some True)
      else Some (wait_tries maxconn reads 0))"

definition grab :: "(nat \<Rightarrow> u32) \<Rightarrow> 'c option \<Rightarrow> int \<Rightarrow> 'c limit_pool
    \<Rightarrow> ('c option \<times> 'c limit_pool) option" where
  "grab reads fresh now p =
     (case grab_wait (grab_waittime p) (conns_max p) reads of
        None \<Rightarrow> None
      | Some False \<Rightarrow> Some (None, p)
      | Some True \<Rightarrow>
          let p = p\<lparr>conns_in_use := conns_in_use p + 1\<rparr>;
              (c, its) = base_grab fresh now (pool p)
          in Some (c, p\<lparr>pool := its\<rparr>))"

definition release :: "'c option \<Rightarrow> int \<Rightarrow> 'c limit_pool \<Rightarrow> 'c limit_pool" where
  "release pc now p =
     (let p = p\<lparr>pool := base_release pc now (pool p)\<rparr>
      in p\<lparr>conns_in_use := conns_in_use p - 1\<rparr>)"

definition remove :: "'c option \<Rightarrow> 'c limit_pool \<Rightarrow> 'c limit_pool" where
  "remove pc p = p\<lparr>pool := snd (base_remove pc (pool p))\<rparr>"

text \<open>
  The operations as a single thread sees them: no other thread runs, so every evaluation
  of the loop condition reads the same counter.
\<close>

definition acquire :: "'c option \<Rightarrow> int \<Rightarrow> 'c limit_pool \<Rightarrow> ('c option \<times> 'c limit_pool) option" where
  "acquire fresh now p = grab (\<lambda>_. conns_in_use p) fresh now p"

definition putback :: "'c option \<Rightarrow> int \<Rightarrow> 'c limit_pool \<Rightarrow> 'c limit_pool" where
  "putback c now p = (if c \<noteq> None then release c now p else p)"

text \<open>
  \<open>createAll\<close>: the first loop acquires \<open>conns_max_\<close> connections, the second puts them
  back. The successive results of \<open>create()\<close> are the values of \<open>fresh\<close>.
\<close>

fun acquire_times :: "nat \<Rightarrow> (nat \<Rightarrow> 'c option) \<Rightarrow> int \<Rightarrow> 'c option list \<Rightarrow> 'c limit_pool
    \<Rightarrow> ('c option list \<times> 'c limit_pool) option" where
  "acquire_times 0 fresh now cs p = Some (cs, p)"
| "acquire_times (Suc n) fresh now cs p =
     (case acquire (fresh (length cs)) now p of
        None \<Rightarrow> None
      | Some (c, p) \<Rightarrow> acquire_times n fresh now (cs @ [c]) p)"

definition createAll :: "(nat \<Rightarrow> 'c option) \<Rightarrow> int \<Rightarrow> 'c limit_pool \<Rightarrow> 'c limit_pool option" where
  "createAll fresh now p =
     (case acquire_times (unat (conns_max p)) fresh now [] p of
        None \<Rightarrow> None
      | Some (cs, p) \<Rightarrow> Some (foldl (\<lambda>p c. putback c now p) p cs))"

text \<open>
  \<open>ScopedConnection\<close>: the constructor acquires, the destructor puts back; the scope in
  between is the argument \<open>body\<close>, the operations of the pool type are arguments too.
\<close>

definition ScopedConnection :: "('p \<Rightarrow> ('c option \<times> 'p) option) \<Rightarrow> ('c option \<Rightarrow> 'p \<Rightarrow> 'p)
    \<Rightarrow> ('c option \<Rightarrow> 'p \<Rightarrow> 'p) \<Rightarrow> 'p \<Rightarrow> 'p option" where
  "ScopedConnection acq put body p =
     (case acq p of None \<Rightarrow> None | Some (c, p) \<Rightarrow> Some (put c (body c p)))"

subsection \<open>The largest element under a strict weak order\<close>

locale strict_weak_order =
  fixes lt :: "'a \<Rightarrow> 'a \<Rightarrow> bool"
  assumes asym: "lt x y \<Longrightarrow> \<not> lt y x"
    and negatively_trans: "lt x z \<Longrightarrow> lt x y \<or> lt y z"
begin

lemma trans: "lt x y \<Longrightarrow> lt y z \<Longrightarrow> lt x z"
  using asym negatively_trans by blast

lemma max_element_prefix:
  fixes xs :: "'a list"
  assumes "0 < n"
  defines "m \<equiv> foldl (\<lambda>m i. if lt (xs ! m) (xs ! i) then i else m) 0 [1..<n]"
  shows "m < n \<and> (\<forall>i<n. \<not> lt (xs ! m) (xs ! i)) \<and> (\<forall>i<m. lt (xs ! i) (xs ! m))"
  unfolding m_def using assms(1)
proof (induction n rule: nat_induct_non_zero)
  case 1
  show ?case using asym by auto
next
  case (Suc n)
  define k where "k = foldl (\<lambda>m i. if lt (xs ! m) (xs ! i) then i else m) 0 [1..<n]"
  have IH: "k < n" "\<And>i. i < n \<Longrightarrow> \<not> lt (xs ! k) (xs ! i)" "\<And>i. i < k \<Longrightarrow> lt (xs ! i) (xs ! k)"
    using Suc.IH by (auto simp: k_def)
  have step: "foldl (\<lambda>m i. if lt (xs ! m) (xs ! i) then i else m) 0 [1..<Suc n]
      = (if lt (xs ! k) (xs ! n) then n else k)"
    using Suc.hyps by (simp add: k_def)
  show ?case
  proof (cases "lt (xs ! k) (xs ! n)")
    case True
    then have below: "lt (xs ! i) (xs ! n)" if "i < n" for i
      using IH(2)[OF that] negatively_trans by blast
    then have "\<not> lt (xs ! n) (xs ! i)" if "i < Suc n" for i
      using that asym by (cases "i = n") (simp_all add: less_Suc_eq, blast)
    then show ?thesis unfolding step using True below by simp
  next
    case False
    then show ?thesis unfolding step using IH by (simp add: less_Suc_eq)
  qed
qed

lemma max_element_split:
  assumes "xs \<noteq> []"
  shows "\<exists>as x bs. xs = as @ x # bs \<and> max_element lt xs = length as \<and>
    (\<forall>y\<in>set as. lt y x) \<and> (\<forall>y\<in>set bs. \<not> lt x y)"
proof -
  define m where "m = max_element lt xs"
  have m: "m < length xs" "\<And>i. i < length xs \<Longrightarrow> \<not> lt (xs ! m) (xs ! i)"
      "\<And>i. i < m \<Longrightarrow> lt (xs ! i) (xs ! m)"
    using max_element_prefix[of "length xs" xs] assms by (auto simp: m_def max_element_def)
  have "xs = take m xs @ xs ! m # drop (Suc m) xs" using m(1) by (rule id_take_nth_drop)
  moreover have "\<forall>y\<in>set (take m xs). lt y (xs ! m)"
    using m by (auto simp: in_set_conv_nth)
  moreover have "\<forall>y\<in>set (drop (Suc m) xs). \<not> lt (xs ! m) y"
    using m by (auto simp: in_set_conv_nth)
  moreover have "length (take m xs) = m" using m(1) by simp
  ultimately show ?thesis unfolding m_def by metis
qed

end

interpretation info: strict_weak_order info_less
  by unfold_locales (auto simp: info_less_def split: if_splits)

subsection \<open>What the operations of the base pool do\<close>

definition known :: "'c PoolT \<Rightarrow> 'c set" where
  "known its = {c. \<exists>x\<in>set its. conn x = Some c}"

definition held :: "'c PoolT \<Rightarrow> 'c set" where
  "held its = {c. \<exists>x\<in>set its. conn x = Some c \<and> in_use x}"

definition base_ok :: "'c PoolT \<Rightarrow> bool" where
  "base_ok its \<longleftrightarrow> distinct (map conn its) \<and> None \<notin> set (map conn its)"

lemma find_mru_cases:
  obtains (all_used) "\<forall>x\<in>set its. in_use x" "find_mru its = (None, its)"
  | (free) as x bs where "its = as @ x # bs" "\<not> in_use x"
      "\<forall>y\<in>set as. \<not> in_use y \<longrightarrow> last_used y < last_used x"
      "\<forall>y\<in>set bs. \<not> in_use y \<longrightarrow> last_used y \<le> last_used x"
      "find_mru its = (conn x, as @ x\<lparr>in_use := True\<rparr> # bs)"
proof (cases "its = []")
  case True
  then show ?thesis using all_used by (simp add: find_mru_def max_element_def)
next
  case False
  from info.max_element_split[OF this] obtain as x bs where its: "its = as @ x # bs"
      and m: "max_element info_less its = length as"
      and "as": "\<forall>y\<in>set as. info_less y x" and bs: "\<forall>y\<in>set bs. \<not> info_less x y"
    by blast
  show ?thesis
  proof (cases "in_use x")
    case True
    then have "\<forall>y\<in>set its. in_use y"
      using "as" bs by (auto simp: its info_less_def split: if_splits)
    moreover have "find_mru its = (None, its)" using m True by (simp add: find_mru_def its)
    ultimately show ?thesis by (rule all_used)
  next
    case False
    show ?thesis
    proof (rule free[OF its False])
      show "\<forall>y\<in>set as. \<not> in_use y \<longrightarrow> last_used y < last_used x"
        using "as" False by (auto simp: info_less_def split: if_splits)
      show "\<forall>y\<in>set bs. \<not> in_use y \<longrightarrow> last_used y \<le> last_used x"
        using bs False by (auto simp: info_less_def not_less split: if_splits)
      show "find_mru its = (conn x, as @ x\<lparr>in_use := True\<rparr> # bs)"
        using m False by (simp add: find_mru_def its)
    qed
  qed
qed

lemma base_release_split:
  assumes "pc \<in> conn ` set its"
  shows "\<exists>as x bs. its = as @ x # bs \<and> conn x = pc \<and> pc \<notin> conn ` set as \<and>
    base_release pc now its = as @ x\<lparr>in_use := False, last_used := now\<rparr> # bs"
  using assms
proof (induction its)
  case (Cons it its)
  show ?case
  proof (cases "conn it = pc")
    case True
    then show ?thesis by (intro exI[of _ "[]"] exI[of _ it] exI[of _ its]) simp
  next
    case False
    with Cons obtain as x bs where "its = as @ x # bs" "conn x = pc" "pc \<notin> conn ` set as"
      "base_release pc now its = as @ x\<lparr>in_use := False, last_used := now\<rparr> # bs" by auto
    then show ?thesis using False
      by (intro exI[of _ "it # as"] exI[of _ x] exI[of _ bs]) simp
  qed
qed simp

lemma base_release_unknown: "pc \<notin> conn ` set its \<Longrightarrow> base_release pc now its = its"
  by (induction its) auto

lemma clear_filter:
  "clear all its = (map conn (filter (\<lambda>x. all \<or> \<not> in_use x) its), filter (\<lambda>x. \<not> all \<and> in_use x) its)"
  by (induction its) auto

lemma held_simps [simp]:
  "held [] = {}"
  "held (as @ bs) = held as \<union> held bs"
  "held (x # bs) = (case conn x of Some c \<Rightarrow> if in_use x then {c} else {} | None \<Rightarrow> {}) \<union> held bs"
  by (auto simp: held_def split: option.splits)

lemma known_simps [simp]:
  "known [] = {}"
  "known (as @ bs) = known as \<union> known bs"
  "known (x # bs) = (case conn x of Some c \<Rightarrow> {c} | None \<Rightarrow> {}) \<union> known bs"
  by (auto simp: known_def split: option.splits)

lemma held_known: "c \<in> held its \<Longrightarrow> c \<in> known its"
  by (auto simp: held_def known_def)

lemma known_conn: "c \<in> known its \<longleftrightarrow> Some c \<in> set (map conn its)"
  by (force simp: known_def)

lemma finite_held [simp]: "finite (held its)"
  by (induction its) (auto split: option.splits)

lemma base_ok_simps [simp]:
  "base_ok []"
  "base_ok (x # bs) \<longleftrightarrow> (\<exists>c. conn x = Some c \<and> c \<notin> known bs) \<and> base_ok bs"
  by (simp add: base_ok_def) (cases "conn x", auto simp: base_ok_def known_conn)

lemma base_ok_append [simp]:
  "base_ok (as @ bs) \<longleftrightarrow> base_ok as \<and> base_ok bs \<and> known as \<inter> known bs = {}"
  by (induction as) auto

lemma card_held: "base_ok its \<Longrightarrow> card (held its) = length (filter in_use its)"
proof (induction its)
  case (Cons x its)
  then obtain c where c: "conn x = Some c" "c \<notin> known its" "base_ok its" by auto
  have "c \<notin> held its" using c(2) by (auto dest: held_known)
  then show ?case using Cons.IH[OF c(3)] c(1) by simp
qed simp

lemma base_grab_ok:
  assumes "base_ok its" "f \<notin> known its" "base_grab (Some f) now its = (pc, its')"
  shows "\<exists>c. pc = Some c \<and> c \<notin> held its \<and> (c = f \<or> c \<in> known its) \<and> base_ok its' \<and>
    held its' = insert c (held its) \<and> known its' = insert c (known its)"
proof (cases its rule: find_mru_cases)
  case all_used
  then show ?thesis using assms held_known[of f its]
    by (auto simp: base_grab_def ConnectionInfo_def)
next
  case (free as x bs)
  then obtain c where c: "conn x = Some c" using assms(1) by auto
  with free assms have "pc = Some c" "its' = as @ x\<lparr>in_use := True\<rparr> # bs"
    by (auto simp: base_grab_def)
  then show ?thesis using free(1,2) c assms(1) held_known[of c as] held_known[of c bs] by auto
qed

lemma base_release_ok:
  assumes "base_ok its" "c \<in> known its"
  shows "base_ok (base_release (Some c) now its)"
    "held (base_release (Some c) now its) = held its - {c}"
    "known (base_release (Some c) now its) = known its"
proof -
  have "Some c \<in> conn ` set its" using assms(2) by (force simp: known_def)
  from base_release_split[OF this, of now] obtain as x bs where r: "its = as @ x # bs" "conn x = Some c"
      "base_release (Some c) now its = as @ x\<lparr>in_use := False, last_used := now\<rparr> # bs" by blast
  then show "base_ok (base_release (Some c) now its)"
    "held (base_release (Some c) now its) = held its - {c}"
    "known (base_release (Some c) now its) = known its"
    using assms(1) held_known[of c as] held_known[of c bs] by auto
qed

subsection \<open>The waiting loops\<close>

lemma wait_forever_some:
  assumes "wait_forever maxconn reads k = Some j"
  shows "reads j < maxconn"
  by (rule wait_forever.raw_induct[OF _ assms]) (auto split: if_splits)

lemma wait_forever_reaches:
  assumes "k \<le> j" "reads j < maxconn"
  shows "\<exists>i. wait_forever maxconn reads k = Some i"
  using assms
proof (induction "j - k" arbitrary: k)
  case 0
  then show ?case by (subst wait_forever.simps) auto
next
  case (Suc n)
  then show ?case by (subst wait_forever.simps) auto
qed

lemma wait_tries_iff:
  "tries \<le> 1000 \<Longrightarrow> wait_tries maxconn reads tries \<longleftrightarrow> (\<exists>k\<in>{tries..1000}. reads k < maxconn)"
proof (induction maxconn reads tries rule: wait_tries.induct)
  case (1 maxconn reads tries)
  note unfold = wait_tries.simps[of maxconn reads tries]
  show ?case
  proof (cases "maxconn \<le> reads tries")
    case True
    have "{tries..1000} = insert tries {tries + 1..1000}" using 1(2) by auto
    then have "(\<exists>k\<in>{tries..1000}. reads k < maxconn) \<longleftrightarrow> (\<exists>k\<in>{tries + 1..1000}. reads k < maxconn)"
      using True by auto
    then show ?thesis using 1(1) True by (cases "tries + 1 \<le> 1000") (simp_all add: unfold)
  next
    case False
    then show ?thesis using 1(2) by (auto simp: unfold not_le)
  qed
qed

text \<open>A single thread reads the same value again and again.\<close>

lemma grab_wait_const:
  "grab_wait w maxconn (\<lambda>_. n) =
     (if maxconn \<le> n then (if w < 0 then None else Some False) else Some True)"
proof -
  have "wait_forever maxconn (\<lambda>_. n) 0 = None" if "maxconn \<le> n"
    using wait_forever_some[of maxconn "\<lambda>_. n" 0] that
    by (cases "wait_forever maxconn (\<lambda>_. n) 0") auto
  moreover have "\<exists>i. wait_forever maxconn (\<lambda>_. n) 0 = Some i" if "\<not> maxconn \<le> n"
    by (rule wait_forever_reaches[of 0 0]) (use that in simp_all)
  ultimately show ?thesis
    by (auto simp: grab_wait_def wait_tries_iff not_le split: option.splits)
qed

subsection \<open>The contract of a pool and its users\<close>

text \<open>
  \<open>acq f now p\<close> acquires with \<open>f\<close> as the connection \<open>create()\<close> would return, \<open>put\<close> puts
  back, \<open>out p\<close> are the connections lent, \<open>all p\<close> the ones the pool knows.
\<close>

locale conn_pool =
  fixes acq :: "'c \<Rightarrow> int \<Rightarrow> 'p \<Rightarrow> ('c option \<times> 'p) option"
    and put :: "'c option \<Rightarrow> int \<Rightarrow> 'p \<Rightarrow> 'p"
    and out :: "'p \<Rightarrow> 'c set"
    and all :: "'p \<Rightarrow> 'c set"
    and inv :: "'p \<Rightarrow> bool"
  assumes lend: "inv p \<Longrightarrow> f \<notin> all p \<Longrightarrow> acq f now p = Some (Some c, p') \<Longrightarrow>
      inv p' \<and> c \<notin> out p \<and> out p' = insert c (out p) \<and> all p' \<subseteq> insert f (all p)"
    and refuse: "inv p \<Longrightarrow> f \<notin> all p \<Longrightarrow> acq f now p = Some (None, p') \<Longrightarrow> p' = p"
    and return: "inv p \<Longrightarrow> c \<in> out p \<Longrightarrow>
      inv (put (Some c) now p) \<and> out (put (Some c) now p) = out p - {c} \<and> all (put (Some c) now p) = all p"
    and return_null: "put None now p = p"
    and out_all: "inv p \<Longrightarrow> out p \<subseteq> all p"

text \<open>
  A client that acquires and puts back in any order and keeps the set \<open>S\<close> of what it was
  lent. \<open>Double_grant\<close> would be a connection lent a second time, \<open>Waiting\<close> an
  \<open>acquire\<close> that does not return.
\<close>

datatype 'c pool_event = Acquire 'c int | Putback 'c int

datatype ('c, 'p) run_result = Done "'c set" 'p | Waiting | Double_grant 'c

fun run :: "('c \<Rightarrow> int \<Rightarrow> 'p \<Rightarrow> ('c option \<times> 'p) option) \<Rightarrow> ('c option \<Rightarrow> int \<Rightarrow> 'p \<Rightarrow> 'p)
    \<Rightarrow> 'c set \<Rightarrow> 'c pool_event list \<Rightarrow> 'p \<Rightarrow> ('c, 'p) run_result" where
  "run acq put S [] p = Done S p"
| "run acq put S (Acquire f now # es) p =
     (case acq f now p of
        None \<Rightarrow> Waiting
      | Some (None, p) \<Rightarrow> run acq put S es p
      | Some (Some c, p) \<Rightarrow> if c \<in> S then Double_grant c else run acq put (insert c S) es p)"
| "run acq put S (Putback c now # es) p =
     (if c \<in> S then run acq put (S - {c}) es (put (Some c) now p) else run acq put S es p)"

fun created :: "'c pool_event list \<Rightarrow> 'c list" where
  "created [] = []"
| "created (Acquire f now # es) = f # created es"
| "created (Putback c now # es) = created es"

context conn_pool
begin

lemma run_safe:
  assumes "inv p" "distinct (created es)" "set (created es) \<inter> all p = {}"
  shows "case run acq put (out p) es p of
      Done S p' \<Rightarrow> inv p' \<and> out p' = S | Waiting \<Rightarrow> True | Double_grant c \<Rightarrow> False"
  using assms
proof (induction es arbitrary: p rule: created.induct)
  case (2 f now es)
  then have f: "f \<notin> all p" by auto
  consider (block) "acq f now p = None" | (none) p' where "acq f now p = Some (None, p')"
    | (lent) c p' where "acq f now p = Some (Some c, p')"
    by (metis not_None_eq old.prod.exhaust)
  then show ?case
  proof cases
    case lent
    from lend[OF 2(2) f lent] have p': "inv p'" "c \<notin> out p" "out p' = insert c (out p)"
      "all p' \<subseteq> insert f (all p)" by auto
    then have "set (created es) \<inter> all p' = {}" using 2(3,4) by auto
    from 2(1)[OF p'(1) _ this] 2(3) show ?thesis using lent p' by simp
  next
    case none
    from refuse[OF 2(2) f none] 2 none show ?thesis by simp
  qed simp
next
  case (3 c now es)
  show ?case
  proof (cases "c \<in> out p")
    case True
    from return[OF 3(2) True, of now] 3(1)[of "put (Some c) now p"] 3(3,4) True
    show ?thesis by simp
  next
    case False
    then show ?thesis using 3 by simp
  qed
qed simp

lemma scoped_restores:
  assumes "inv p" "f \<notin> all p"
    and body: "\<And>c q. inv q \<Longrightarrow> inv (body c q) \<and> out (body c q) = out q"
    and r: "ScopedConnection (acq f now) (\<lambda>c. put c later) body p = Some p'"
  shows "inv p' \<and> out p' = out p"
proof -
  from r obtain pc q where q: "acq f now p = Some (pc, q)" "p' = put pc later (body pc q)"
    by (auto simp: ScopedConnection_def split: option.splits)
  show ?thesis
  proof (cases pc)
    case None
    then show ?thesis using refuse[OF assms(1,2)] q body[OF assms(1)] return_null by auto
  next
    case (Some c)
    from lend[OF assms(1,2)] q Some have l: "inv q" "c \<notin> out p" "out q = insert c (out p)" by auto
    with body[OF l(1), of pc] return[of "body pc q" c later] show ?thesis by (simp add: q Some)
  qed
qed

end

subsection \<open>The limited pool keeps the contract\<close>

definition limit_ok :: "'c limit_pool \<Rightarrow> bool" where
  "limit_ok p \<longleftrightarrow> base_ok (pool p) \<and> unat (conns_in_use p) = length (filter in_use (pool p)) \<and>
     conns_in_use p \<le> conns_max p"

lemma acquire_unfold:
  "acquire fresh now p =
     (if conns_max p \<le> conns_in_use p
      then (if grab_waittime p < 0 then None else Some (None, p))
      else (case base_grab fresh now (pool p) of (c, its) \<Rightarrow>
        Some (c, p\<lparr>conns_in_use := conns_in_use p + 1, pool := its\<rparr>)))"
  by (simp add: acquire_def grab_def grab_wait_const split: prod.splits)

lemma acquire_lends:
  assumes ok: "limit_ok p" and f: "f \<notin> known (pool p)"
    and a: "acquire (Some f) now p = Some (pc, p')"
  shows "pc = None \<and> p' = p \<and> conns_max p \<le> conns_in_use p \<or>
    (\<exists>c. pc = Some c \<and> limit_ok p' \<and> c \<notin> held (pool p) \<and>
      held (pool p') = insert c (held (pool p)) \<and> known (pool p') = insert c (known (pool p)) \<and>
      (c = f \<or> c \<in> known (pool p)))"
proof (cases "conns_max p \<le> conns_in_use p")
  case True
  then show ?thesis using a by (auto simp: acquire_unfold split: if_splits)
next
  case False
  obtain its where g: "base_grab (Some f) now (pool p) = (pc, its)"
      and p': "p' = p\<lparr>conns_in_use := conns_in_use p + 1, pool := its\<rparr>"
    using a False by (auto simp: acquire_unfold split: prod.splits)
  have b: "base_ok (pool p)" using ok by (simp add: limit_ok_def)
  from base_grab_ok[OF b f g] obtain c where c: "pc = Some c" "c \<notin> held (pool p)"
      "c = f \<or> c \<in> known (pool p)" "base_ok its" "held its = insert c (held (pool p))"
      "known its = insert c (known (pool p))" by blast
  have "length (filter in_use its) = Suc (unat (conns_in_use p))"
    using card_held[OF c(4)] card_held[OF b] ok c(2,5) by (simp add: limit_ok_def)
  moreover have "unat (conns_in_use p + 1) = Suc (unat (conns_in_use p))"
    using False by (intro unat_add_one[of _ "conns_max p"]) (simp add: not_le)
  moreover have "conns_in_use p + 1 \<le> conns_max p"
    using False by (simp add: inc_le not_le)
  ultimately have "limit_ok p'" using c(4) by (simp add: limit_ok_def p')
  with c show ?thesis by (simp add: p')
qed

lemma putback_returns:
  assumes ok: "limit_ok p" and c: "c \<in> held (pool p)"
  shows "limit_ok (putback (Some c) now p)"
    "held (pool (putback (Some c) now p)) = held (pool p) - {c}"
    "known (pool (putback (Some c) now p)) = known (pool p)"
proof -
  have b: "base_ok (pool p)" using ok by (simp add: limit_ok_def)
  note r = base_release_ok[OF b held_known[OF c], of now]
  have "length (filter in_use (base_release (Some c) now (pool p))) = unat (conns_in_use p) - 1"
    using card_held[OF r(1)] card_held[OF b] ok c by (simp add: r(2) limit_ok_def)
  moreover have "0 < card (held (pool p))"
    using c by (auto simp: card_gt_0_iff)
  then have pos: "0 < unat (conns_in_use p)"
    using ok card_held[OF b] by (simp add: limit_ok_def)
  then have one: "unat (conns_in_use p - 1) = unat (conns_in_use p) - 1"
    by (rule unat_sub_one)
  moreover have "conns_in_use p - 1 \<le> conns_max p"
  proof -
    have "unat (conns_in_use p) \<le> unat (conns_max p)"
      using ok by (simp add: limit_ok_def word_le_nat_alt)
    then show ?thesis by (simp only: word_le_nat_alt one)
  qed
  ultimately show "limit_ok (putback (Some c) now p)"
    "held (pool (putback (Some c) now p)) = held (pool p) - {c}"
    "known (pool (putback (Some c) now p)) = known (pool p)"
    by (simp_all add: limit_ok_def putback_def release_def Let_def r)
qed

interpretation limit: conn_pool "\<lambda>f. acquire (Some f)" putback "\<lambda>p. held (pool p)" "\<lambda>p. known (pool p)" limit_ok
proof unfold_locales
  fix p :: "'c limit_pool" and f now c p'
  assume a: "limit_ok p" "f \<notin> known (pool p)" "acquire (Some f) now p = Some (Some c, p')"
  from acquire_lends[OF this] show "limit_ok p' \<and> c \<notin> held (pool p) \<and>
      held (pool p') = insert c (held (pool p)) \<and> known (pool p') \<subseteq> insert f (known (pool p))"
    by auto
next
  fix p :: "'c limit_pool" and f now p'
  assume "limit_ok p" "f \<notin> known (pool p)" "acquire (Some f) now p = Some (None, p')"
  from acquire_lends[OF this] show "p' = p" by auto
next
  fix p :: "'c limit_pool" and c now
  assume "limit_ok p" "c \<in> held (pool p)"
  from putback_returns[OF this] show "limit_ok (putback (Some c) now p) \<and>
      held (pool (putback (Some c) now p)) = held (pool p) - {c} \<and>
      known (pool (putback (Some c) now p)) = known (pool p)" by simp
qed (auto simp: putback_def dest: held_known)

subsection \<open>createAll\<close>

lemma find_mru_all_used: "\<forall>x\<in>set its. in_use x \<Longrightarrow> find_mru its = (None, its)"
  by (cases its rule: find_mru_cases) auto

lemma acquire_times_creates:
  assumes "length cs + n \<le> unat (conns_max p)" "\<forall>x\<in>set (pool p). in_use x"
    "conns_in_use p = of_nat (length cs)"
  shows "acquire_times n fresh now cs p = Some (cs @ map fresh [length cs..<length cs + n],
     p\<lparr>conns_in_use := of_nat (length cs + n),
       pool := pool p @ map (\<lambda>i. ConnectionInfo (fresh i) now) [length cs..<length cs + n]\<rparr>)"
  using assms
proof (induction n arbitrary: cs p)
  case (Suc n)
  have "length cs < unat (conns_max p)" using Suc.prems(1) by simp
  then have "length cs < 2 ^ 32"
    using unsigned_less[where 'a=nat and w="conns_max p"] by simp
  with \<open>length cs < unat (conns_max p)\<close> have "\<not> conns_max p \<le> conns_in_use p"
    using Suc.prems(3) by (simp add: word_le_nat_alt unat_of_nat)
  moreover have "base_grab (fresh (length cs)) now (pool p) =
      (fresh (length cs), pool p @ [ConnectionInfo (fresh (length cs)) now])"
    using Suc.prems(2) by (simp add: base_grab_def find_mru_all_used ConnectionInfo_def)
  ultimately have "acquire (fresh (length cs)) now p = Some (fresh (length cs),
      p\<lparr>conns_in_use := of_nat (Suc (length cs)),
        pool := pool p @ [ConnectionInfo (fresh (length cs)) now]\<rparr>)"
    using Suc.prems(3) by (simp add: acquire_unfold add.commute)
  moreover have "[length cs..<length cs + Suc n] = length cs # [Suc (length cs)..<Suc (length cs + n)]"
    by (simp add: upt_conv_Cons)
  ultimately show ?case
    using Suc.prems by (simp add: Suc.IH ConnectionInfo_def del: upt_Suc flip: of_nat_Suc)
qed (cases p, simp)

lemma putback_all:
  assumes "distinct (map fresh [0..<n])" "None \<notin> set (map fresh [0..<n])" "k \<le> n"
    "pool p = map (\<lambda>i. ConnectionInfo (fresh i) now) [0..<n]"
  shows "foldl (\<lambda>p c. putback c now p) p (map fresh [0..<k]) =
     p\<lparr>conns_in_use := conns_in_use p - of_nat k,
       pool := map (\<lambda>i. (ConnectionInfo (fresh i) now)\<lparr>in_use := i \<ge> k\<rparr>) [0..<n]\<rparr>"
  using assms(3)
proof (induction k)
  case 0
  then show ?case using assms(4) by (cases p) (simp add: ConnectionInfo_def)
next
  case (Suc k)
  define its where "its = map (\<lambda>i. (ConnectionInfo (fresh i) now)\<lparr>in_use := i \<ge> k\<rparr>) [0..<n]"
  have "fresh k \<in> set (map fresh [0..<n])" using Suc.prems by simp
  then have k: "k < n" "fresh k \<noteq> None" using Suc.prems assms(2) by (simp, metis)
  have conn: "map conn its = map fresh [0..<n]" by (simp add: its_def ConnectionInfo_def)
  have "fresh k \<in> conn ` set its"
    using \<open>fresh k \<in> set (map fresh [0..<n])\<close> unfolding conn[symmetric] by simp
  from base_release_split[OF this, of now] obtain as x bs where r: "its = as @ x # bs" "conn x = fresh k"
    "base_release (fresh k) now its = as @ x\<lparr>in_use := False, last_used := now\<rparr> # bs" by blast
  have "length as = k"
  proof -
    have "length its = n" by (simp add: its_def)
    then have "length as < n" using r(1) by simp
    have "map conn its ! length as = fresh k" using r(1,2) by (simp add: nth_append)
    then have "map fresh [0..<n] ! length as = fresh k" by (simp only: conn)
    then have "map fresh [0..<n] ! length as = map fresh [0..<n] ! k" using k by simp
    then show ?thesis using assms(1) k \<open>length as < n\<close> by (subst (asm) nth_eq_iff_index_eq) simp_all
  qed
  then have "base_release (fresh k) now its = its[k := x\<lparr>in_use := False, last_used := now\<rparr>]"
    using r(1,3) by (simp add: list_update_append)
  also have "\<dots> = map (\<lambda>i. (ConnectionInfo (fresh i) now)\<lparr>in_use := i \<ge> Suc k\<rparr>) [0..<n]"
  proof (rule nth_equalityI)
    fix i
    assume "i < length (its[k := x\<lparr>in_use := False, last_used := now\<rparr>])"
    then have i: "i < n" by (simp add: its_def)
    have "x = its ! k" using r(1) \<open>length as = k\<close> by (simp add: nth_append)
    then show "its[k := x\<lparr>in_use := False, last_used := now\<rparr>] ! i =
        map (\<lambda>i. (ConnectionInfo (fresh i) now)\<lparr>in_use := i \<ge> Suc k\<rparr>) [0..<n] ! i"
      using i k by (auto simp: its_def nth_list_update ConnectionInfo_def)
  qed (simp add: its_def)
  finally show ?case
    using Suc k by (simp add: putback_def release_def Let_def its_def[symmetric] diff_diff_eq)
qed

subsection \<open>Properties\<close>



text \<open>
  C4. A single-threaded user of a limited pool, acquiring and putting back in any order,
  is never lent a connection it still holds; whenever it is not waiting, the pool marks as
  in use exactly the connections it holds, counts them in \<open>conns_in_use_\<close>, and they are
  at most \<open>conns_max_\<close>.
\<close>

theorem limit_pool_safe:
  assumes "limit_ok p" "distinct (created es)" "set (created es) \<inter> known (pool p) = {}"
  shows "case run (\<lambda>f. acquire (Some f)) putback (held (pool p)) es p of
      Done S p' \<Rightarrow> held (pool p') = S \<and> unat (conns_in_use p') = card S \<and>
        conns_in_use p' \<le> conns_max p'
    | Waiting \<Rightarrow> True
    | Double_grant c \<Rightarrow> False"
proof -
  have "unat (conns_in_use q) = card (held (pool q)) \<and> conns_in_use q \<le> conns_max q"
    if "limit_ok q" for q :: "'a limit_pool"
    using that by (simp add: limit_ok_def card_held)
  with limit.run_safe[OF assms] show ?thesis by (fastforce split: run_result.splits)
qed

theorem limit_pool_safe_witness:
  "case run (\<lambda>f. acquire (Some f)) putback {} [Acquire 1 5, Acquire 2 6, Putback 1 7, Acquire 3 8]
      (setMaxConn 2 (ConnectionPoolWithLimit 1)) of
    Done S p' \<Rightarrow> held (pool p') = S \<and> unat (conns_in_use p') = card S \<and> conns_in_use p' \<le> conns_max p'
  | Waiting \<Rightarrow> True
  | Double_grant (c :: nat) \<Rightarrow> False"
proof -
  define p where "p = (setMaxConn 2 (ConnectionPoolWithLimit 1) :: nat limit_pool)"
  have p: "pool p = []" "limit_ok p"
    by (simp_all add: p_def limit_ok_def setMaxConn_def ConnectionPoolWithLimit_def)
  have "distinct (created [Acquire 1 5, Acquire 2 6, Putback 1 7, Acquire (3 :: nat) 8])" by simp
  from limit_pool_safe[OF p(2) this] p(1) show ?thesis unfolding p_def[symmetric] by simp
qed

text \<open>
  \<open>createAll\<close> on a new pool creates exactly \<open>conns_max_\<close> connections and leaves them
  all free: the counter is back at zero, and nothing is destroyed.
\<close>

theorem createAll_free:
  assumes "pool p = []" "conns_in_use p = 0"
    and "distinct (map fresh [0..<unat (conns_max p)])"
    and "None \<notin> set (map fresh [0..<unat (conns_max p)])"
  shows "createAll fresh now p = Some (p\<lparr>pool :=
     map (\<lambda>i. \<lparr>conn = fresh i, last_used = now, in_use = False\<rparr>) [0..<unat (conns_max p)]\<rparr>)"
proof -
  define n where "n = unat (conns_max p)"
  have "acquire_times n fresh now [] p = Some (map fresh [0..<n], p\<lparr>conns_in_use := of_nat n,
      pool := map (\<lambda>i. ConnectionInfo (fresh i) now) [0..<n]\<rparr>)"
    using acquire_times_creates[of "[]" n p fresh now] assms(1,2) by (simp add: n_def)
  moreover have "foldl (\<lambda>p c. putback c now p) (p\<lparr>conns_in_use := of_nat n,
      pool := map (\<lambda>i. ConnectionInfo (fresh i) now) [0..<n]\<rparr>) (map fresh [0..<n])
    = p\<lparr>conns_in_use := 0, pool := map (\<lambda>i. (ConnectionInfo (fresh i) now)\<lparr>in_use := i \<ge> n\<rparr>) [0..<n]\<rparr>"
    by (subst putback_all[of fresh n n]) (use assms(3,4) in \<open>simp_all flip: n_def\<close>)
  moreover have "map (\<lambda>i. (ConnectionInfo (fresh i) now)\<lparr>in_use := i \<ge> n\<rparr>) [0..<n]
    = map (\<lambda>i. \<lparr>conn = fresh i, last_used = now, in_use = False\<rparr>) [0..<n]"
    by (simp add: ConnectionInfo_def)
  moreover have "p\<lparr>conns_in_use := 0, pool := its\<rparr> = p\<lparr>pool := its\<rparr>" for its
    using assms(2) by (cases p) simp
  ultimately show ?thesis by (simp add: createAll_def flip: n_def)
qed

theorem createAll_free_witness:
  "createAll (\<lambda>i. Some i) 7 (ConnectionPoolWithLimit 3) = Some
     \<lparr>pool = map (\<lambda>i. \<lparr>conn = Some i, last_used = 7, in_use = False\<rparr>) [0..<3],
      conns_in_use = 0, conns_max = 3, grab_waittime = -1\<rparr>"
  using createAll_free[of "ConnectionPoolWithLimit 3" "\<lambda>i. Some i" 7]
  by (simp add: ConnectionPoolWithLimit_def upt_rec)

text \<open>
  The waiting of \<open>grab\<close>: with a negative wait time it returns exactly when some
  evaluation of its condition finds a free slot, and never gives up; with a positive one it
  gives up exactly when 1001 evaluations in a row, each followed by a sleep of the full
  wait time, find none; with zero it looks once.
\<close>

theorem grab_wait_outcome:
  "(grab_wait waittime maxconn reads = None \<longleftrightarrow> waittime < 0 \<and> (\<forall>k. maxconn \<le> reads k)) \<and>
   (grab_wait waittime maxconn reads = Some True \<longleftrightarrow>
     (\<exists>k. reads k < maxconn \<and> (waittime = 0 \<longrightarrow> k = 0) \<and> (0 < waittime \<longrightarrow> k \<le> 1000))) \<and>
   (grab_wait waittime maxconn reads = Some False \<longleftrightarrow>
     (waittime = 0 \<and> maxconn \<le> reads 0) \<or> (0 < waittime \<and> (\<forall>k\<le>1000. maxconn \<le> reads k)))"
proof -
  have "(wait_forever maxconn reads 0 = None) \<longleftrightarrow> (\<forall>k. maxconn \<le> reads k)"
    using wait_forever_some[of maxconn reads 0] wait_forever_reaches[of 0 _ reads maxconn]
    by (cases "wait_forever maxconn reads 0") (auto simp: not_le[symmetric])
  moreover have "wait_tries maxconn reads 0 \<longleftrightarrow> (\<exists>k\<le>1000. \<not> maxconn \<le> reads k)"
    by (auto simp: wait_tries_iff not_le)
  ultimately show ?thesis
    by (cases waittime "0 :: int" rule: linorder_cases)
       (auto simp: grab_wait_def not_le[symmetric] split: option.splits)
qed

theorem grab_wait_outcome_witness:
  "grab_wait 5 1 (\<lambda>_. 1) = Some False \<and> grab_wait (-1) 2 (\<lambda>k. if k < 7 then 2 else 1) = Some True"
  using grab_wait_outcome[of 5 1 "\<lambda>_. 1"] grab_wait_outcome[of "-1" 2 "\<lambda>k. if k < 7 then 2 else 1"]
  by (auto dest: spec[of _ 7])

text \<open>
  Removing a lent connection does not give its slot back: after \<open>remove\<close> of the only
  connection of a pool of size one the pool is empty, yet the next \<open>acquire\<close> without
  waiting fails, and with the default wait time it never returns.
\<close>

theorem remove_leaks_slot:
  assumes "acquire (Some c) now (setGrabWaitTime w (ConnectionPoolWithLimit 1)) = Some (Some c, p)"
  shows "pool (remove (Some c) p) = [] \<and> conns_in_use (remove (Some c) p) = 1 \<and>
    acquire fresh now' (remove (Some c) p) = (if w < 0 then None else Some (None, remove (Some c) p))"
proof -
  have "p = \<lparr>pool = [ConnectionInfo (Some c) now], conns_in_use = 1, conns_max = 1, grab_waittime = w\<rparr>"
    using assms by (simp add: acquire_unfold ConnectionPoolWithLimit_def setGrabWaitTime_def
        base_grab_def find_mru_all_used ConnectionInfo_def split: if_splits)
  then show ?thesis by (simp add: acquire_unfold remove_def ConnectionInfo_def)
qed

theorem remove_leaks_slot_witness:
  "acquire (Some 2) 0 (remove (Some 1) \<lparr>pool = [\<lparr>conn = Some (1 :: nat), last_used = 0, in_use = True\<rparr>],
      conns_in_use = 1, conns_max = 1, grab_waittime = -1\<rparr>) = None"
proof -
  have "acquire (Some 1) 0 (setGrabWaitTime (-1) (ConnectionPoolWithLimit 1)) =
      Some (Some (1 :: nat), \<lparr>pool = [\<lparr>conn = Some 1, last_used = 0, in_use = True\<rparr>],
      conns_in_use = 1, conns_max = 1, grab_waittime = -1\<rparr>)"
    by (simp add: acquire_unfold ConnectionPoolWithLimit_def setGrabWaitTime_def
        base_grab_def find_mru_all_used ConnectionInfo_def)
  from remove_leaks_slot[OF this, of "Some 2" 0] show ?thesis by simp
qed

text \<open>
  Putting back a connection that is not lent corrupts the counter: on a new pool it
  wraps to \<open>2^32 - 1\<close>, and from then on \<open>acquire\<close> never succeeds.
\<close>

lemma putback_underflow:
  "conns_in_use (putback (Some c) now (ConnectionPoolWithLimit n)) = - 1 \<and>
   (case acquire fresh now' (setGrabWaitTime w (putback (Some c) now (ConnectionPoolWithLimit n))) of
      None \<Rightarrow> w < 0 | Some (pc, p') \<Rightarrow> pc = None \<and> pool p' = [])"
  by (simp add: putback_def release_def ConnectionPoolWithLimit_def setGrabWaitTime_def acquire_unfold)

end
