(* ===== verification/Pool_Threads.thy ===== *)
theory Pool_Threads
  imports Pool
begin

text \<open>
  Threads that share one \<open>ConnectionPoolWithLimit\<close>: \<open>grab\<close> and \<open>release\<close> of
  \<open>common/pool.h\<close> cut at their synchronisation points. The sections under the two mutexes
  (the one of the derived class around the counter, the one of the base class around the
  list) and one read of the volatile counter are atomic; between them any other thread may
  run. A thread loops: it grabs, holds what it got, releases it.
\<close>

datatype 'c pc =
    Idle
  | Check nat   \<comment> \<open>at the condition of the waiting loop, with \<open>tries\<close>\<close>
  | Inc         \<comment> \<open>before \<open>++conns_in_use_\<close>\<close>
  | Enter       \<comment> \<open>before \<open>Base::grab()\<close>\<close>
  | Got 'c      \<comment> \<open>returned from \<open>grab\<close>, holds a connection\<close>
  | Dec         \<comment> \<open>after \<open>Base::release()\<close>, before \<open>--conns_in_use_\<close>\<close>

type_synonym 'c threads = "'c limit_pool \<times> (nat \<Rightarrow> 'c pc)"

inductive step :: "'c threads \<Rightarrow> 'c threads \<Rightarrow> bool" where
  start: "pcs t = Idle \<Longrightarrow> step (p, pcs) (p, pcs(t := Check 0))"
| pass: "pcs t = Check n \<Longrightarrow> conns_in_use p < conns_max p \<Longrightarrow> step (p, pcs) (p, pcs(t := Inc))"
| spin: "pcs t = Check n \<Longrightarrow> conns_max p \<le> conns_in_use p \<Longrightarrow> grab_waittime p < 0 \<Longrightarrow>
    step (p, pcs) (p, pcs(t := Check n))"
| retry: "pcs t = Check n \<Longrightarrow> conns_max p \<le> conns_in_use p \<Longrightarrow> 0 < grab_waittime p \<Longrightarrow>
    n + 1 \<le> 1000 \<Longrightarrow> step (p, pcs) (p, pcs(t := Check (n + 1)))"
| give_up: "pcs t = Check n \<Longrightarrow> conns_max p \<le> conns_in_use p \<Longrightarrow>
    grab_waittime p = 0 \<or> 0 < grab_waittime p \<and> 1000 < n + 1 \<Longrightarrow>
    step (p, pcs) (p, pcs(t := Idle))"
| inc: "pcs t = Inc \<Longrightarrow>
    step (p, pcs) (p\<lparr>conns_in_use := conns_in_use p + 1\<rparr>, pcs(t := Enter))"
| enter: "pcs t = Enter \<Longrightarrow> fresh \<notin> known (pool p) \<Longrightarrow>
    base_grab (Some fresh) now (pool p) = (Some c, its) \<Longrightarrow>
    step (p, pcs) (p\<lparr>pool := its\<rparr>, pcs(t := Got c))"
| put: "pcs t = Got c \<Longrightarrow>
    step (p, pcs) (p\<lparr>pool := base_release (Some c) now (pool p)\<rparr>, pcs(t := Dec))"
| dec: "pcs t = Dec \<Longrightarrow>
    step (p, pcs) (p\<lparr>conns_in_use := conns_in_use p - 1\<rparr>, pcs(t := Idle))"

inductive reach :: "'c limit_pool \<Rightarrow> 'c threads \<Rightarrow> bool" for p0 where
  init: "reach p0 (p0, \<lambda>_. Idle)"
| more: "reach p0 s \<Longrightarrow> step s s' \<Longrightarrow> reach p0 s'"

inductive_cases stepE [consumes 1, case_names start pass spin retry give_up inc enter put dec]: "step (p, pcs) s'"

subsection \<open>Counting threads\<close>

definition counted :: "'c pc \<Rightarrow> bool" where
  "counted pc \<longleftrightarrow> (case pc of Enter \<Rightarrow> True | Got c \<Rightarrow> True | Dec \<Rightarrow> True | _ \<Rightarrow> False)"

lemma counted_simps [simp]:
  "\<not> counted Idle" "\<not> counted (Check n)" "\<not> counted Inc" "counted Enter" "counted (Got c)" "counted Dec"
  by (simp_all add: counted_def)

definition counting :: "(nat \<Rightarrow> 'c pc) \<Rightarrow> nat set" where
  "counting pcs = {t. counted (pcs t)}"

lemma counting_upd:
  "counting (pcs(t := x)) = (if counted x then insert t (counting pcs) else counting pcs - {t})"
  by (auto simp: counting_def)

lemma counting_iff: "t \<in> counting pcs \<longleftrightarrow> counted (pcs t)"
  by (simp add: counting_def)

definition holders :: "(nat \<Rightarrow> 'c pc) \<Rightarrow> 'c set" where
  "holders pcs = {c. \<exists>t. pcs t = Got c}"

lemma holders_iff: "c \<in> holders pcs \<longleftrightarrow> (\<exists>t. pcs t = Got c)"
  by (simp add: holders_def)

lemma holders_upd:
  assumes "\<And>c. pcs t \<noteq> Got c"
  shows "(\<And>c. x \<noteq> Got c) \<Longrightarrow> holders (pcs(t := x)) = holders pcs"
    and "holders (pcs(t := Got c)) = insert c (holders pcs)"
  unfolding holders_def using assms by (auto, metis+)

lemma holders_put:
  assumes "pcs t = Got c" "\<And>t'. pcs t' = Got c \<Longrightarrow> t' = t"
  shows "holders (pcs(t := Dec)) = holders pcs - {c}"
proof (rule set_eqI)
  fix c'
  show "c' \<in> holders (pcs(t := Dec)) \<longleftrightarrow> c' \<in> holders pcs - {c}"
  proof
    assume "c' \<in> holders (pcs(t := Dec))"
    then obtain t' where "t' \<noteq> t" "pcs t' = Got c'"
      by (auto simp: holders_iff split: if_splits)
    with assms(2)[of t'] show "c' \<in> holders pcs - {c}" by (auto simp: holders_iff)
  next
    assume "c' \<in> holders pcs - {c}"
    then obtain t' where "pcs t' = Got c'" "c' \<noteq> c" by (auto simp: holders_iff)
    with assms(1) have "(pcs(t := Dec)) t' = Got c'" by auto
    then show "c' \<in> holders (pcs(t := Dec))" unfolding holders_iff by blast
  qed
qed

text \<open>
  The invariant: the list is well formed, the connections marked in use are those the
  threads hold, no two threads hold the same, and the counter counts the threads between
  the increment and the decrement.
\<close>

definition shared_ok :: "'c threads \<Rightarrow> bool" where
  "shared_ok s \<longleftrightarrow> (case s of (p, pcs) \<Rightarrow>
     base_ok (pool p) \<and>
     held (pool p) = holders pcs \<and>
     (\<forall>t t' c. pcs t = Got c \<longrightarrow> pcs t' = Got c \<longrightarrow> t = t') \<and>
     finite (counting pcs) \<and>
     conns_in_use p = of_nat (card (counting pcs)))"

lemma shared_okI:
  assumes "base_ok (pool p)" "held (pool p) = holders pcs"
    "\<And>t t' c. pcs t = Got c \<Longrightarrow> pcs t' = Got c \<Longrightarrow> t = t'"
    "finite (counting pcs)" "conns_in_use p = of_nat (card (counting pcs))"
  shows "shared_ok (p, pcs)"
  using assms by (simp add: shared_ok_def)

lemma shared_okD:
  assumes "shared_ok (p, pcs)"
  shows "base_ok (pool p)" "held (pool p) = holders pcs"
    "\<And>t t' c. pcs t = Got c \<Longrightarrow> pcs t' = Got c \<Longrightarrow> t = t'"
    "finite (counting pcs)" "conns_in_use p = of_nat (card (counting pcs))"
  using assms by (auto simp: shared_ok_def)

text \<open>A step that changes neither the pool nor who holds or counts.\<close>

lemma shared_ok_local:
  assumes "shared_ok (p, pcs)" "\<not> counted (pcs t)" "\<not> counted x"
  shows "shared_ok (p, pcs(t := x))"
proof (rule shared_okI)
  have ne: "pcs t \<noteq> Got c" "x \<noteq> Got c" for c using assms(2,3) by auto
  have c: "counting (pcs(t := x)) = counting pcs"
    using assms(2,3) by (auto simp: counting_upd counting_iff)
  show "held (pool p) = holders (pcs(t := x))"
    using shared_okD(2)[OF assms(1)] ne by (simp add: holders_upd(1))
  show "finite (counting (pcs(t := x)))" "conns_in_use p = of_nat (card (counting (pcs(t := x))))"
    using shared_okD(4,5)[OF assms(1)] by (simp_all add: c)
  show "t1 = t2" if "(pcs(t := x)) t1 = Got c" "(pcs(t := x)) t2 = Got c" for t1 t2 c
    using that ne shared_okD(3)[OF assms(1)] by (auto split: if_splits)
qed (rule shared_okD(1)[OF assms(1)])

lemma step_ok:
  assumes "shared_ok (p, pcs)" "step (p, pcs) s'"
  shows "shared_ok s'"
  using assms(2)
proof (cases rule: stepE)
  case (inc t)
  then have "t \<notin> counting pcs" by (simp add: counting_iff)
  then show ?thesis
    unfolding inc using shared_okD[OF assms(1)] inc(2)
    by (intro shared_okI) (auto simp: counting_upd holders_upd(1) split: if_splits)
next
  case (enter t fresh now c its)
  from base_grab_ok[OF shared_okD(1)[OF assms(1)] enter(3,4)]
  have g: "c \<notin> held (pool p)" "base_ok its" "held its = insert c (held (pool p))" by auto
  have "t \<in> counting pcs" using enter(2) by (simp add: counting_iff)
  then have cnt: "counting (pcs(t := Got c)) = counting pcs" by (auto simp: counting_upd)
  have new: "pcs t' \<noteq> Got c" for t' using g(1) shared_okD(2)[OF assms(1)] by (auto simp: holders_iff)
  show ?thesis
    unfolding enter
  proof (rule shared_okI)
    show "held (pool (p\<lparr>pool := its\<rparr>)) = holders (pcs(t := Got c))"
      using g(3) shared_okD(2)[OF assms(1)] enter(2) by (simp add: holders_upd(2))
    show "t1 = t2" if "(pcs(t := Got c)) t1 = Got c'" "(pcs(t := Got c)) t2 = Got c'" for t1 t2 c'
      using that new shared_okD(3)[OF assms(1)] by (auto split: if_splits)
  qed (use g shared_okD(4,5)[OF assms(1)] in \<open>simp_all add: cnt\<close>)
next
  case (put t c now)
  have "c \<in> held (pool p)" using put(2) shared_okD(2)[OF assms(1)] by (auto simp: holders_iff)
  note r = base_release_ok[OF shared_okD(1)[OF assms(1)] held_known[OF this], of now]
  have "t \<in> counting pcs" using put(2) by (simp add: counting_iff)
  then have cnt: "counting (pcs(t := Dec)) = counting pcs" by (auto simp: counting_upd)
  have own: "t' = t" if "pcs t' = Got c" for t' using that put(2) shared_okD(3)[OF assms(1)] by blast
  show ?thesis
    unfolding put
  proof (rule shared_okI)
    show "held (pool (p\<lparr>pool := base_release (Some c) now (pool p)\<rparr>)) = holders (pcs(t := Dec))"
      using r(2) shared_okD(2)[OF assms(1)] holders_put[of pcs t c, OF put(2) own] by simp
    show "t1 = t2" if "(pcs(t := Dec)) t1 = Got c'" "(pcs(t := Dec)) t2 = Got c'" for t1 t2 c'
      using that shared_okD(3)[OF assms(1)] by (auto split: if_splits)
  qed (use r shared_okD(4,5)[OF assms(1)] in \<open>simp_all add: cnt\<close>)
next
  case (dec t)
  then have t: "t \<in> counting pcs" by (simp add: counting_iff)
  note ok = shared_okD[OF assms(1)]
  have cnt: "counting (pcs(t := Idle)) = counting pcs - {t}" by (simp add: counting_upd)
  have "card (counting pcs) = Suc (card (counting pcs - {t}))"
    using t ok(4) by (metis card_Suc_Diff1)
  then have "conns_in_use p - 1 = of_nat (card (counting pcs - {t}))" by (simp add: ok(5))
  moreover have "holders (pcs(t := Idle)) = holders pcs"
    by (rule holders_upd(1)) (simp_all add: dec(2))
  ultimately show ?thesis
    unfolding dec(1)
  proof (intro shared_okI)
    show "t1 = t2" if "(pcs(t := Idle)) t1 = Got c'" "(pcs(t := Idle)) t2 = Got c'" for t1 t2 c'
      using that ok(3) by (auto split: if_splits)
  qed (use ok(1,2,4) in \<open>simp_all add: cnt\<close>)
qed (simp_all add: shared_ok_local[OF assms(1)])

lemma reach_ok:
  assumes "reach p0 s" "pool p0 = []" "conns_in_use p0 = 0"
  shows "shared_ok s"
  using assms(1)
proof induction
  case init
  show ?case using assms(2,3) by (intro shared_okI) (auto simp: holders_def counting_def)
next
  case (more s s')
  then show ?case by (cases s) (simp add: step_ok)
qed

subsection \<open>All threads pass the check before any of them counts\<close>

lemma all_at_inc:
  assumes "0 < conns_max p" "conns_in_use p = 0"
  shows "reach p (p, \<lambda>t. if t < k then Inc else Idle)"
proof (induction k)
  case 0
  show ?case using reach.init[of p] by simp
next
  case (Suc k)
  define pcs where "pcs = (\<lambda>t. if t < k then Inc else (Idle :: 'a pc))"
  have "step (p, pcs) (p, pcs(k := Check 0))" by (rule step.start) (simp add: pcs_def)
  moreover have "step (p, pcs(k := Check 0)) (p, (pcs(k := Check 0))(k := Inc))"
    by (rule step.pass[of _ _ 0]) (use assms in simp_all)
  moreover have "reach p (p, pcs)" using Suc by (simp add: pcs_def)
  ultimately have "reach p (p, (pcs(k := Check 0))(k := Inc))" by (blast intro: reach.more)
  then have "reach p (p, pcs(k := Inc))" by simp
  moreover have "pcs(k := Inc) = (\<lambda>t. if t < Suc k then Inc else Idle)"
    by (auto simp: pcs_def)
  ultimately show ?case by simp
qed

lemma enter_one_by_one:
  fixes p :: "nat limit_pool"
  assumes "0 < conns_max p" "conns_in_use p = 0" "pool p = []" "j \<le> k"
  shows "reach p (p\<lparr>conns_in_use := of_nat j, pool := map (\<lambda>i. ConnectionInfo (Some i) 0) [0..<j]\<rparr>,
    \<lambda>t. if t < j then Got t else if t < k then Inc else Idle)"
  using assms(4)
proof (induction j)
  case 0
  have "p\<lparr>conns_in_use := 0, pool := []\<rparr> = p" using assms(2,3) by (cases p) simp
  then show ?case using all_at_inc[OF assms(1,2)] by simp
next
  case (Suc j)
  define its where "its = map (\<lambda>i. ConnectionInfo (Some i) 0) [0..<j]"
  define q where "q = p\<lparr>conns_in_use := of_nat j, pool := its\<rparr>"
  define pcs where "pcs = (\<lambda>t. if t < j then Got t else if t < k then Inc else (Idle :: nat pc))"
  have "\<forall>x\<in>set its. in_use x" by (simp add: its_def ConnectionInfo_def)
  then have grab: "base_grab (Some j) 0 its = (Some j, its @ [ConnectionInfo (Some j) 0])"
    by (simp add: base_grab_def find_mru_all_used ConnectionInfo_def)
  have "step (q, pcs) (q\<lparr>conns_in_use := conns_in_use q + 1\<rparr>, pcs(j := Enter))"
    by (rule step.inc) (use Suc.prems in \<open>simp add: pcs_def\<close>)
  moreover have "step (q\<lparr>conns_in_use := conns_in_use q + 1\<rparr>, pcs(j := Enter))
      (q\<lparr>conns_in_use := conns_in_use q + 1, pool := its @ [ConnectionInfo (Some j) 0]\<rparr>, (pcs(j := Enter))(j := Got j))"
    using step.enter[of "pcs(j := Enter)" j j "q\<lparr>conns_in_use := conns_in_use q + 1\<rparr>" 0 j] grab
    by (simp add: q_def its_def known_def ConnectionInfo_def)
  moreover have "reach p (q, pcs)"
    using Suc by (simp add: q_def its_def pcs_def)
  ultimately have "reach p (q\<lparr>conns_in_use := conns_in_use q + 1, pool := its @ [ConnectionInfo (Some j) 0]\<rparr>,
      (pcs(j := Enter))(j := Got j))"
    by (blast intro: reach.more)
  then have "reach p (q\<lparr>conns_in_use := conns_in_use q + 1, pool := its @ [ConnectionInfo (Some j) 0]\<rparr>,
      pcs(j := Got j))" by simp
  moreover have "pcs(j := Got j) = (\<lambda>t. if t < Suc j then Got t else if t < k then Inc else Idle)"
    by (auto simp: pcs_def)
  ultimately show ?case
    by (simp add: q_def its_def add.commute)
qed

subsection \<open>Properties\<close>

text \<open>
  C1. However the threads interleave, the pool never lends a connection to two of them;
  the connections marked in use are exactly those the threads hold, and the counter is the
  number of threads between the increment in \<open>grab\<close> and the decrement in \<open>release\<close>.
\<close>

theorem threads_safe:
  assumes "reach p0 (p, pcs)" "pool p0 = []" "conns_in_use p0 = 0"
  shows "(\<forall>t t' c. pcs t = Got c \<longrightarrow> pcs t' = Got c \<longrightarrow> t = t') \<and>
    held (pool p) = {c. \<exists>t. pcs t = Got c} \<and>
    conns_in_use p = of_nat (card {t. counted (pcs t)})"
  using reach_ok[OF assms] by (auto simp: shared_ok_def holders_def counting_def)

theorem threads_safe_witness:
  "held (pool ((ConnectionPoolWithLimit 1)\<lparr>conns_in_use := 1, pool := [ConnectionInfo (Some (0::nat)) 0]\<rparr>)) = {0}"
proof -
  have "reach (ConnectionPoolWithLimit 1) ((ConnectionPoolWithLimit 1)\<lparr>conns_in_use := of_nat 1,
      pool := map (\<lambda>i. ConnectionInfo (Some i) 0) [0..<1]\<rparr>,
      \<lambda>t. if t < 1 then Got t else if t < 1 then Inc else Idle)"
    by (rule enter_one_by_one) (simp_all add: ConnectionPoolWithLimit_def)
  from threads_safe[OF this, THEN conjunct2, THEN conjunct1]
  have "held (pool ((ConnectionPoolWithLimit 1)\<lparr>conns_in_use := of_nat 1,
      pool := map (\<lambda>i. ConnectionInfo (Some i) 0) [0..<1]\<rparr>)) = {c :: nat. \<exists>t. (if t < 1 then Got t
        else if t < 1 then Inc else Idle) = Got c}"
    by (simp only: ConnectionPoolWithLimit_def limit_pool.simps)
  also have "\<dots> = {0}" by auto
  finally show ?thesis by simp
qed

text \<open>
  C38. The limit is not enforced between threads: the check of the counter and its increment
  are separate, so for every number of threads there is an interleaving in which all of
  them hold a connection although \<open>conns_max_\<close> is one.
\<close>

theorem limit_race:
  "\<exists>p. reach (ConnectionPoolWithLimit 1) (p, \<lambda>t. if t < N then Got t else Idle) \<and> conns_max p = 1 \<and>
     card (held (pool p)) = (N :: nat) \<and> conns_in_use p = of_nat N"
proof -
  define p0 :: "nat limit_pool" where "p0 = ConnectionPoolWithLimit 1"
  define p where "p = p0\<lparr>conns_in_use := of_nat N, pool := map (\<lambda>i. ConnectionInfo (Some i) 0) [0..<N]\<rparr>"
  have "reach p0 (p, \<lambda>t. if t < N then Got t else if t < N then Inc else Idle)"
    unfolding p_def by (rule enter_one_by_one) (simp_all add: p0_def ConnectionPoolWithLimit_def)
  moreover have "(\<lambda>t. if t < N then Got t else if t < N then Inc else Idle) = (\<lambda>t. if t < N then Got t else Idle)"
    by auto
  ultimately have "reach p0 (p, \<lambda>t. if t < N then Got t else Idle)" by simp
  moreover have "held (pool p) = {0..<N}"
    by (auto simp: p_def held_def ConnectionInfo_def)
  moreover have "conns_max p = 1" "conns_in_use p = of_nat N"
    by (simp_all add: p_def p0_def ConnectionPoolWithLimit_def)
  ultimately show ?thesis unfolding p0_def by auto
qed

end
