(* ===== verification/Pool_Sharding.thy ===== *)
theory Pool_Sharding
  imports Sharding Pool
begin

text \<open>
  \<open>common/pool_sharding.h\<close>: \<open>ShardingConnectionPool\<close>, a \<open>Sharding\<close> whose shards are
  connection pools, and its three scoped guards. The pools sit in the map of the sharding
  (each is added under its own number, so a pool occurs once); the methods \<open>acquire\<close> and
  \<open>putback\<close> of the template parameter are the arguments \<open>acq\<close> and \<open>put\<close>, the method
  \<open>shard()\<close> of a connection is \<open>conn_shard\<close>.

  The result that carries the proofs: a sharding of pools that keep the contract
  \<open>conn_pool\<close> keeps it itself, when every connection knows the shard of its pool.
\<close>

definition acquireByShard :: "('p \<Rightarrow> ('c option \<times> 'p) option) \<Rightarrow> int \<Rightarrow> 'p sharding
    \<Rightarrow> ('c option \<times> 'p sharding) option" where
  "acquireByShard acq shard sh =
     (case getShardByID sh shard of
        Some pl \<Rightarrow> (case acq pl of
            None \<Rightarrow> None
          | Some (c, pl) \<Rightarrow> Some (c, sh\<lparr>shards := (shards sh)(shard := Some pl)\<rparr>))
      | None \<Rightarrow> Some (None, sh))"

definition acquireByHash :: "('p \<Rightarrow> ('c option \<times> 'p) option) \<Rightarrow> u32 \<Rightarrow> 'p sharding
    \<Rightarrow> ('c option \<times> 'p sharding) option" where
  "acquireByHash acq h sh =
     (case getShardByHash sh h of
        Some pl \<Rightarrow> (case acq pl of
            None \<Rightarrow> None
          | Some (c, pl) \<Rightarrow>
              Some (c, sh\<lparr>shards := (shards sh)(shard_index h (shardnum sh) := Some pl)\<rparr>))
      | None \<Rightarrow> Some (None, sh))"

definition acquireByKey :: "(bytes \<Rightarrow> u32) \<Rightarrow> ('p \<Rightarrow> ('c option \<times> 'p) option) \<Rightarrow> bytes \<Rightarrow> 'p sharding
    \<Rightarrow> ('c option \<times> 'p sharding) option" where
  "acquireByKey hash acq key sh =
     (case getShardByKey hash sh key of
        Some pl \<Rightarrow> (case acq pl of
            None \<Rightarrow> None
          | Some (c, pl) \<Rightarrow>
              Some (c, sh\<lparr>shards := (shards sh)(shard_index (hash key) (shardnum sh) := Some pl)\<rparr>))
      | None \<Rightarrow> Some (None, sh))"

definition sharded_putback :: "('c \<Rightarrow> int) \<Rightarrow> ('c option \<Rightarrow> 'p \<Rightarrow> 'p) \<Rightarrow> 'c option \<Rightarrow> 'p sharding
    \<Rightarrow> 'p sharding" where
  "sharded_putback conn_shard put pc sh =
     (case pc of
        None \<Rightarrow> sh
      | Some c \<Rightarrow> (case getShardByID sh (conn_shard c) of
            Some pl \<Rightarrow> sh\<lparr>shards := (shards sh)(conn_shard c := Some (put pc pl))\<rparr>
          | None \<Rightarrow> sh))"

text \<open>The guards: constructor, scope, destructor.\<close>

definition ScopedConnectionByShard where
  "ScopedConnectionByShard conn_shard acq put shard body sh =
     ScopedConnection (acquireByShard acq shard) (sharded_putback conn_shard put) body sh"

definition ScopedConnectionByHash where
  "ScopedConnectionByHash conn_shard acq put h body sh =
     ScopedConnection (acquireByHash acq h) (sharded_putback conn_shard put) body sh"

definition ScopedConnectionByKey where
  "ScopedConnectionByKey conn_shard hash acq put key body sh =
     ScopedConnection (acquireByKey hash acq key) (sharded_putback conn_shard put) body sh"

subsection \<open>Hashes and keys are routed to shards\<close>

lemma acquireByHash_shard:
  "0 < shardnum sh \<Longrightarrow> acquireByHash acq h sh = acquireByShard acq (shard_index h (shardnum sh)) sh"
  by (simp add: acquireByHash_def acquireByShard_def getShardByHash_def)

lemma acquireByKey_hash: "acquireByKey hash acq key sh = acquireByHash acq (hash key) sh"
  by (simp add: acquireByKey_def acquireByHash_def getShardByKey_def)

subsection \<open>A sharding of pools is a pool\<close>

definition sharded_set :: "('p \<Rightarrow> 'c set) \<Rightarrow> 'p sharding \<Rightarrow> 'c set" where
  "sharded_set f sh = {c. \<exists>i p. shards sh i = Some p \<and> c \<in> f p}"

definition others :: "('p \<Rightarrow> 'c set) \<Rightarrow> int \<Rightarrow> 'p sharding \<Rightarrow> 'c set" where
  "others f i sh = {c. \<exists>j p. j \<noteq> i \<and> shards sh j = Some p \<and> c \<in> f p}"

lemma sharded_set_split:
  assumes "shards sh i = Some p"
  shows "sharded_set f sh = f p \<union> others f i sh"
proof (rule set_eqI)
  show "c \<in> sharded_set f sh \<longleftrightarrow> c \<in> f p \<union> others f i sh" for c
    using assms unfolding sharded_set_def others_def by (cases "c \<in> f p") (auto, metis option.inject)
qed

lemma sharded_set_upd:
  "sharded_set f (sh\<lparr>shards := (shards sh)(i := Some p)\<rparr>) = f p \<union> others f i sh"
proof -
  have "others f i (sh\<lparr>shards := (shards sh)(i := Some p)\<rparr>) = others f i sh"
    by (auto simp: others_def)
  then show ?thesis by (subst sharded_set_split[of _ i p]) simp_all
qed

definition sharded_inv :: "('c \<Rightarrow> int) \<Rightarrow> ('p \<Rightarrow> 'c set) \<Rightarrow> ('p \<Rightarrow> bool) \<Rightarrow> 'p sharding \<Rightarrow> bool" where
  "sharded_inv conn_shard all ok sh \<longleftrightarrow>
     (\<forall>i p. shards sh i = Some p \<longrightarrow> ok p \<and> (\<forall>c\<in>all p. conn_shard c = i))"

locale sharded_conn_pool = conn_pool acq put out all inv
  for acq :: "'c \<Rightarrow> int \<Rightarrow> 'p \<Rightarrow> ('c option \<times> 'p) option"
    and put :: "'c option \<Rightarrow> int \<Rightarrow> 'p \<Rightarrow> 'p"
    and out :: "'p \<Rightarrow> 'c set"
    and all :: "'p \<Rightarrow> 'c set"
    and inv :: "'p \<Rightarrow> bool" +
  fixes conn_shard :: "'c \<Rightarrow> int"
begin

lemma sharded_lend:
  assumes inv: "sharded_inv conn_shard all inv sh" and f: "f \<notin> sharded_set all sh"
    and a: "acquireByShard (acq f now) (conn_shard f) sh = Some (Some c, sh')"
  shows "sharded_inv conn_shard all inv sh' \<and> c \<notin> sharded_set out sh \<and>
    sharded_set out sh' = insert c (sharded_set out sh) \<and>
    sharded_set all sh' \<subseteq> insert f (sharded_set all sh)"
proof -
  define i where "i = conn_shard f"
  obtain p p' where p: "shards sh i = Some p" "acq f now p = Some (Some c, p')"
      and sh': "sh' = sh\<lparr>shards := (shards sh)(i := Some p')\<rparr>"
    using a by (auto simp: acquireByShard_def getShardByID_def i_def split: option.splits)
  have fp: "inv p" "f \<notin> all p" using inv f p(1) by (auto simp: sharded_inv_def sharded_set_def)
  from lend[OF fp p(2)] have l: "inv p'" "c \<notin> out p" "out p' = insert c (out p)"
      "all p' \<subseteq> insert f (all p)" by auto
  have "c \<in> all p'" using out_all[OF l(1)] l(3) by auto
  have home: "\<forall>d\<in>all p'. conn_shard d = i"
    using inv l(4) p(1) by (auto simp: sharded_inv_def i_def)
  have away: "c \<notin> others out i sh"
  proof
    assume "c \<in> others out i sh"
    then obtain j q where q: "j \<noteq> i" "shards sh j = Some q" "c \<in> out q" by (auto simp: others_def)
    then have "conn_shard c = j" using inv out_all[of q] by (auto simp: sharded_inv_def)
    then show False using home \<open>c \<in> all p'\<close> q(1) by simp
  qed
  have "sharded_set out sh' = insert c (sharded_set out sh)"
    using l(3) by (simp add: sh' sharded_set_upd sharded_set_split[where f = out, OF p(1)])
  moreover have "sharded_set all sh' \<subseteq> insert f (sharded_set all sh)"
    using l(4) by (auto simp: sh' sharded_set_upd sharded_set_split[where f = all, OF p(1)])
  moreover have "sharded_inv conn_shard all inv sh'"
    using inv l(1) home by (simp add: sharded_inv_def sh')
  moreover have "c \<notin> sharded_set out sh"
    using away l(2) by (simp add: sharded_set_split[where f = out, OF p(1)])
  ultimately show ?thesis by simp
qed

lemma sharded_return:
  fixes now :: int
  assumes inv: "sharded_inv conn_shard all inv sh" and c: "c \<in> sharded_set out sh"
  defines "sh' \<equiv> sharded_putback conn_shard (\<lambda>c. put c now) (Some c) sh"
  shows "sharded_inv conn_shard all inv sh' \<and> sharded_set out sh' = sharded_set out sh - {c} \<and>
    sharded_set all sh' = sharded_set all sh"
proof -
  from c obtain i p where p: "shards sh i = Some p" "c \<in> out p" by (auto simp: sharded_set_def)
  have ip: "inv p" using inv p(1) by (simp add: sharded_inv_def)
  have home: "conn_shard d = j" if "shards sh j = Some q" "d \<in> out q" for j q d
    using inv that out_all[of q] by (auto simp: sharded_inv_def)
  have i: "conn_shard c = i" using home p by simp
  note r = return[OF ip p(2), of now]
  have sh': "sh' = sh\<lparr>shards := (shards sh)(i := Some (put (Some c) now p))\<rparr>"
    using p(1) by (simp add: sh'_def sharded_putback_def getShardByID_def i)
  have "c \<notin> others out i sh" using home i by (auto simp: others_def)
  then have "sharded_set out sh' = sharded_set out sh - {c}"
    using r by (auto simp: sh' sharded_set_upd sharded_set_split[where f = out, OF p(1)])
  moreover have "sharded_set all sh' = sharded_set all sh"
    using r by (simp add: sh' sharded_set_upd sharded_set_split[where f = all, OF p(1)])
  moreover have "sharded_inv conn_shard all inv sh'"
    using inv r p(1) by (simp add: sharded_inv_def sh')
  ultimately show ?thesis by simp
qed

end

sublocale sharded_conn_pool \<subseteq> sharded: conn_pool
  "\<lambda>f now. acquireByShard (acq f now) (conn_shard f)"
  "\<lambda>c now. sharded_putback conn_shard (\<lambda>c. put c now) c"
  "sharded_set out" "sharded_set all" "sharded_inv conn_shard all inv"
proof unfold_locales
  fix sh f now sh'
  assume i: "sharded_inv conn_shard all inv sh" and f: "f \<notin> sharded_set all sh"
    and a: "acquireByShard (acq f now) (conn_shard f) sh = Some (None, sh')"
  show "sh' = sh"
  proof (cases "shards sh (conn_shard f)")
    case None
    then show ?thesis using a by (simp add: acquireByShard_def getShardByID_def)
  next
    case (Some p)
    then have p: "inv p" "f \<notin> all p"
      using i f by (auto simp: sharded_inv_def sharded_set_def)
    from Some a obtain p' where p': "acq f now p = Some (None, p')"
        "sh' = sh\<lparr>shards := (shards sh)(conn_shard f := Some p')\<rparr>"
      by (auto simp: acquireByShard_def getShardByID_def split: option.splits)
    with refuse[OF p p'(1)] Some show ?thesis by (simp add: fun_upd_idem)
  qed
next
  fix sh
  assume "sharded_inv conn_shard all inv sh"
  then show "sharded_set out sh \<subseteq> sharded_set all sh"
    using out_all by (fastforce simp: sharded_set_def sharded_inv_def)
next
  fix sh c now
  assume "sharded_inv conn_shard all inv sh" "c \<in> sharded_set out sh"
  then show "sharded_inv conn_shard all inv (sharded_putback conn_shard (\<lambda>c. put c now) (Some c) sh) \<and>
      sharded_set out (sharded_putback conn_shard (\<lambda>c. put c now) (Some c) sh) = sharded_set out sh - {c} \<and>
      sharded_set all (sharded_putback conn_shard (\<lambda>c. put c now) (Some c) sh) = sharded_set all sh"
    by (rule sharded_return)
qed (simp_all add: sharded_lend, simp add: sharded_putback_def)

interpretation sharded_limit: sharded_conn_pool "\<lambda>f. acquire (Some f)" putback
    "\<lambda>p. held (pool p)" "\<lambda>p. known (pool p)" limit_ok conn_shard
  for conn_shard :: "'c \<Rightarrow> int"
  by unfold_locales

subsection \<open>Properties\<close>



text \<open>
  \<open>acquireByKey\<close> lends a connection of the shard the key is routed to, and both the
  loan and its return leave the pools of all other shards alone.
\<close>

theorem acquireByKey_shard:
  fixes sh :: "'c limit_pool sharding"
  assumes "sharded_inv conn_shard (\<lambda>p. known (pool p)) limit_ok sh" "0 < shardnum sh"
    and "conn_shard f = shard_index (hash key) (shardnum sh)"
    and "f \<notin> sharded_set (\<lambda>p. known (pool p)) sh"
    and "acquireByKey hash (acquire (Some f) now) key sh = Some (Some c, sh')"
  shows "conn_shard c = shard_index (hash key) (shardnum sh) \<and>
    (\<forall>j. j \<noteq> shard_index (hash key) (shardnum sh) \<longrightarrow> shards sh' j = shards sh j \<and>
      shards (sharded_putback conn_shard (\<lambda>c. putback c later) (Some c) sh') j = shards sh j)"
proof -
  define i where "i = shard_index (hash key) (shardnum sh)"
  have a: "acquireByShard (acquire (Some f) now) i sh = Some (Some c, sh')"
    using assms(2,5) by (simp add: acquireByKey_hash acquireByHash_shard i_def)
  then have keep: "shards sh' j = shards sh j" if "j \<noteq> i" for j
    using that by (auto simp: acquireByShard_def split: option.splits)
  have l: "sharded_inv conn_shard (\<lambda>p. known (pool p)) limit_ok sh'"
      "c \<in> sharded_set (\<lambda>p. held (pool p)) sh'" "c \<notin> sharded_set (\<lambda>p. held (pool p)) sh"
    using sharded_limit.sharded_lend[OF assms(1,4)] a assms(3) by (auto simp: i_def)
  from l(2,3) keep obtain p where p: "shards sh' i = Some p" "c \<in> held (pool p)"
    by (auto simp: sharded_set_def) metis
  then have "conn_shard c = i"
    using l(1) held_known[of c "pool p"] by (simp add: sharded_inv_def)
  then show ?thesis
    using keep p(1) by (simp add: sharded_putback_def getShardByID_def flip: i_def)
qed

theorem acquireByKey_shard_witness:
  "\<exists>sh'. acquireByKey MurmurHash_hash (acquire (Some (5 :: nat)) 1) [97]
      \<lparr>shards = [0 \<mapsto> ConnectionPoolWithLimit 3], shardnum = 1\<rparr> = Some (Some 5, sh') \<and>
    shards sh' 1 = None"
proof -
  define sh :: "nat limit_pool sharding"
    where "sh = \<lparr>shards = [0 \<mapsto> ConnectionPoolWithLimit 3], shardnum = 1\<rparr>"
  have idx: "shard_index h 1 = 0" for h
    using uint_lt2p[of h] by (simp add: shard_index_div)
  have inv: "sharded_inv (\<lambda>_. 0) (\<lambda>p. known (pool p)) limit_ok sh"
    "5 \<notin> sharded_set (\<lambda>p. known (pool p)) sh"
    by (auto simp: sh_def sharded_inv_def sharded_set_def limit_ok_def ConnectionPoolWithLimit_def
        split: if_splits)
  obtain sh' where a: "acquireByKey MurmurHash_hash (acquire (Some 5) 1) [97] sh = Some (Some 5, sh')"
    by (simp add: sh_def acquireByKey_def getShardByKey_def getShardByHash_def getShardByID_def idx
        acquire_unfold ConnectionPoolWithLimit_def base_grab_def find_mru_def max_element_def ConnectionInfo_def)
  have "shards sh' 1 = shards sh 1"
    using acquireByKey_shard[OF inv(1) _ _ inv(2) a] by (simp add: sh_def idx)
  then show ?thesis using a by (auto simp: sh_def)
qed

end
