(* ===== verification/Url.thy ===== *)
theory Url
  imports Prelude "HOL-Library.Char_ord" "HOL-Library.List_Lexorder"
begin

text \<open>
  \<open>common/url.cpp\<close>: the URL parser \<open>url_parse\<close> with \<open>parse_query\<close>, the class
  \<open>TinyURL\<close> and its printer \<open>make\<close>.

  A C string is the list of its characters up to the terminating NUL, a pointer into it is
  the suffix it points to, and the distance of two pointers the offset \<open>strchr\<close> finds. A
  field of \<open>url_field_t\<close> that was never set is \<open>None\<close>. The query of a \<open>TinyURL\<close> is a
  \<open>std::map\<close>: a list of pairs sorted by key.
\<close>

subsection \<open>C strings\<close>

abbreviation NUL :: char where
  "NUL \<equiv> CHR 0x00"

definition c_str :: "string \<Rightarrow> string" where
  "c_str s = takeWhile (\<lambda>c. c \<noteq> NUL) s"

text \<open>\<open>str[i]\<close>, where the position behind the last character holds the NUL.\<close>

definition at :: "string \<Rightarrow> nat \<Rightarrow> char" where
  "at str i = (if i < length str then str ! i else NUL)"

definition strchr :: "string \<Rightarrow> char \<Rightarrow> nat option" where
  "strchr str c = (let n = length (takeWhile (\<lambda>d. d \<noteq> c) str) in
     if n < length str then Some n else None)"

text \<open>The \<open>strndup\<close> of the file: at most \<open>n\<close> characters; a length of -1 never binds.\<close>

definition strndup :: "string \<Rightarrow> nat \<Rightarrow> string" where
  "strndup s n = take n s"

definition is_space :: "char \<Rightarrow> bool" where
  "is_space c \<longleftrightarrow> c = CHR '' '' \<or> (of_char c :: nat) \<in> {9..13}"

definition is_digit :: "char \<Rightarrow> bool" where
  "is_digit c \<longleftrightarrow> CHR ''0'' \<le> c \<and> c \<le> CHR ''9''"

definition digit_val :: "char \<Rightarrow> int" where
  "digit_val c = of_char c - 48"

text \<open>
  \<open>atol\<close>: white space, an optional sign, decimal digits; a value outside of \<open>long\<close> is
  clamped, as \<open>strtol\<close> does.
\<close>

definition digits_val :: "string \<Rightarrow> int" where
  "digits_val s = foldl (\<lambda>n c. 10 * n + digit_val c) 0 (takeWhile is_digit s)"

definition atol :: "string \<Rightarrow> int" where
  "atol s = (let s = dropWhile is_space s;
       n = (case s of
              [] \<Rightarrow> 0
            | c # cs \<Rightarrow> if c = CHR ''-'' then - digits_val cs
                else if c = CHR ''+'' then digits_val cs else digits_val (c # cs))
     in max (- (2 ^ 63)) (min (2 ^ 63 - 1) n))"

text \<open>The conversion of a \<open>long\<close> to an \<open>int\<close>.\<close>

definition int_of_long :: "int \<Rightarrow> int" where
  "int_of_long n = signed_take_bit 31 n"

subsection \<open>url_parse\<close>

datatype host_type = HOST_IPV4 | HOST_IPV6 | HOST_DOMAIN

record url_field =
  uf_host_type :: host_type
  uf_href :: "string option"
  uf_schema :: "string option"
  uf_username :: "string option"
  uf_password :: "string option"
  uf_host :: "string option"
  uf_port :: "string option"
  uf_path :: "string option"
  uf_query :: "(string \<times> string) list"
  uf_fragment :: "string option"

definition host_is_ipv4 :: "string \<Rightarrow> bool" where
  "host_is_ipv4 str = list_all (\<lambda>c. is_digit c \<or> c = CHR ''.'') str"

function parse_query :: "string \<Rightarrow> (string \<times> string) list" where
  "parse_query query =
     (case strchr query (CHR ''='') of
        None \<Rightarrow> []
      | Some chr \<Rightarrow>
          let name = strndup query chr; query = drop (chr + 1) query in
          case strchr query (CHR ''&'') of
            Some chr \<Rightarrow> (name, strndup query chr) # parse_query (drop (chr + 1) query)
          | None \<Rightarrow> [(name, query)])"
  by pat_completeness auto
termination
  by (relation "measure length") (auto simp: strchr_def Let_def split: if_splits)

declare parse_query.simps [simp del]

text \<open>The stages of \<open>url_parse\<close>; \<open>None\<close> is the jump to \<open>__fail\<close>.\<close>

definition parse_schema :: "string \<Rightarrow> (string \<times> string) option" where
  "parse_schema str =
     (case strchr str (CHR '':'') of
        Some pch \<Rightarrow>
          if at str (pch + 1) = CHR ''/'' \<and> at str (pch + 2) = CHR ''/''
          then Some (strndup str pch, drop (pch + 3) str) else None
      | None \<Rightarrow> None)"

definition parse_userinfo :: "string \<Rightarrow> (string option \<times> string option \<times> string) option" where
  "parse_userinfo str =
     (case strchr str (CHR ''@'') of
        None \<Rightarrow> Some (None, None, str)
      | Some _ \<Rightarrow>
          (case strchr str (CHR '':'') of
             None \<Rightarrow> None
           | Some pch \<Rightarrow>
               let username = strndup str pch; str = drop (pch + 1) str in
               case strchr str (CHR ''@'') of
                 Some pch \<Rightarrow> Some (Some username, Some (strndup str pch), drop (pch + 1) str)
               | None \<Rightarrow> None))"

text \<open>What follows the colon of a port: the port up to a slash, or all that is left.\<close>

definition parse_port :: "string \<Rightarrow> string \<times> string" where
  "parse_port str =
     (case strchr str (CHR ''/'') of
        Some pch \<Rightarrow> (strndup str pch, drop (pch + 1) str)
      | None \<Rightarrow> (str, []))"

definition parse_host :: "string \<Rightarrow> (host_type \<times> string \<times> string option \<times> string) option" where
  "parse_host str =
     (if at str 0 = CHR ''[''
      then let str = drop 1 str in
        (case strchr str (CHR '']'') of
           Some pch \<Rightarrow>
             let host = strndup str pch; str = drop (pch + 1) str in
             if at str 0 = CHR '':''
             then (let (port, str) = parse_port (drop 1 str) in Some (HOST_IPV6, host, Some port, str))
             else Some (HOST_IPV6, host, None, str)
         | None \<Rightarrow> None)
      else
        let (host, port, str) =
          (case (strchr str (CHR '':''), strchr str (CHR ''/'')) of
             (Some pch, pch_slash) \<Rightarrow>
               if pch_slash = None \<or> pch < the pch_slash
               then (let (port, rest) = parse_port (drop (pch + 1) str) in (strndup str pch, Some port, rest))
               else (case pch_slash of
                   Some pch \<Rightarrow> (strndup str pch, None, drop (pch + 1) str)
                 | None \<Rightarrow> (str, None, []))
           | (None, Some pch) \<Rightarrow> (strndup str pch, None, drop (pch + 1) str)
           | (None, None) \<Rightarrow> (str, None, []))
        in Some (if host_is_ipv4 host then HOST_IPV4 else HOST_DOMAIN, host, port, str))"

definition parse_rest :: "string \<Rightarrow> string option \<times> (string \<times> string) list \<times> string option" where
  "parse_rest str =
     (if at str 0 = NUL then (None, [], None)
      else case strchr str (CHR ''?'') of
        Some pch \<Rightarrow>
          let path = strndup str pch; str = drop (pch + 1) str in
          (case strchr str (CHR ''#'') of
             Some pch \<Rightarrow> (Some path, parse_query (strndup str pch), Some (drop (pch + 1) str))
           | None \<Rightarrow> (Some path, parse_query str, None))
      | None \<Rightarrow>
          (case strchr str (CHR ''#'') of
             Some pch \<Rightarrow> (Some (strndup str pch), [], Some (drop (pch + 1) str))
           | None \<Rightarrow> (Some str, [], None)))"

definition url_parse :: "string \<Rightarrow> url_field option" where
  "url_parse str =
     (if at str 0 = NUL then None
      else case parse_schema str of None \<Rightarrow> None | Some (schema, rest) \<Rightarrow>
        (case parse_userinfo rest of None \<Rightarrow> None | Some (username, password, rest) \<Rightarrow>
          (case parse_host rest of None \<Rightarrow> None | Some (host_type, host, port, rest) \<Rightarrow>
            (case parse_rest rest of (path, query, fragment) \<Rightarrow>
              Some \<lparr>uf_host_type = host_type, uf_href = Some str, uf_schema = Some schema,
                uf_username = username, uf_password = password, uf_host = Some host,
                uf_port = port, uf_path = path, uf_query = query, uf_fragment = fragment\<rparr>))))"

subsection \<open>TinyURL\<close>

record TinyURL =
  schema :: string
  username :: string
  password :: string
  host :: string
  port :: int
  path :: string
  query :: "(string \<times> string) list"
  fragment :: string

definition TinyURL_reset :: TinyURL where
  "TinyURL_reset = \<lparr>schema = [], username = [], password = [], host = [], port = 0,
     path = [], query = [], fragment = []\<rparr>"

definition field :: "string option \<Rightarrow> string" where
  "field f = (case f of Some s \<Rightarrow> s | None \<Rightarrow> [])"

definition TinyURL_parse :: "string \<Rightarrow> bool \<times> TinyURL" where
  "TinyURL_parse urltext =
     (case url_parse (c_str urltext) of
        Some url \<Rightarrow> (True,
          \<lparr>schema = field (uf_schema url), username = field (uf_username url),
           password = field (uf_password url), host = field (uf_host url),
           port = (case uf_port url of Some p \<Rightarrow> int_of_long (atol p) | None \<Rightarrow> 0),
           path = field (uf_path url),
           query = foldl (\<lambda>q (k, v). map_set k v q) [] (uf_query url),
           fragment = field (uf_fragment url)\<rparr>)
      | None \<Rightarrow> (False, TinyURL_reset))"

text \<open>\<open>oss << port\<close> for a positive number.\<close>

fun decimal :: "nat \<Rightarrow> string" where
  "decimal n = (if n < 10 then [char_of (48 + n)] else decimal (n div 10) @ [char_of (48 + n mod 10)])"

declare decimal.simps [simp del]

text \<open>\<open>std::to_string\<close> and \<open>operator<<\<close> of a signed number.\<close>

definition int_decimal :: "int \<Rightarrow> string" where
  "int_decimal k = (if k < 0 then CHR ''-'' # decimal (nat (- k)) else decimal (nat k))"

definition make :: "TinyURL \<Rightarrow> string" where
  "make u =
     schema u @ ''://'' @
     (if length (username u) > 0 \<and> length (password u) > 0
      then username u @ '':'' @ password u @ ''@'' else []) @
     host u @
     (if port u > 0 then '':'' @ decimal (nat (port u)) else []) @
     ''/'' @ path u @
     (if query u \<noteq> [] then ''?'' else []) @
     concat (map (\<lambda>(k, v). k @ ''='' @ v @ ''&'') (query u)) @
     (if fragment u \<noteq> [] then ''#'' @ fragment u else [])"

subsection \<open>Searching and cutting\<close>

lemma strchr_None: "strchr str c = None \<longleftrightarrow> c \<notin> set str"
  by (induction str) (auto simp: strchr_def Let_def split: if_splits)

lemma strchr_Some: "c \<notin> set pre \<Longrightarrow> strchr (pre @ c # suf) c = Some (length pre)"
proof -
  assume "c \<notin> set pre"
  then have "takeWhile (\<lambda>d. d \<noteq> c) (pre @ c # suf) = pre"
    by (subst takeWhile_append2) auto
  then show ?thesis by (simp add: strchr_def)
qed

lemma strchr_Cons: "strchr (c # s) d = (if c = d then Some 0 else map_option Suc (strchr s d))"
  by (auto simp: strchr_def Let_def)

lemma parse_query_join:
  assumes "\<forall>(k, v)\<in>set kvs. CHR ''='' \<notin> set k \<and> CHR ''&'' \<notin> set v"
  shows "parse_query (concat (map (\<lambda>(k, v). k @ ''='' @ v @ ''&'') kvs)) = kvs"
  using assms
proof (induction kvs)
  case Nil
  show ?case by (subst parse_query.simps) (simp add: strchr_def)
next
  case (Cons kv kvs)
  obtain k v where kv: "kv = (k, v)" by (cases kv)
  let ?rest = "concat (map (\<lambda>(k, v). k @ ''='' @ v @ ''&'') kvs)"
  have "CHR ''='' \<notin> set k" "CHR ''&'' \<notin> set v" using Cons.prems by (auto simp: kv)
  then have "parse_query (k @ CHR ''='' # v @ CHR ''&'' # ?rest) = (k, v) # parse_query ?rest"
    by (subst parse_query.simps) (simp add: strchr_Some strndup_def)
  then show ?case using Cons by (simp add: kv)
qed

subsection \<open>Decimal numbers\<close>

lemma digit_char:
  assumes "d < 10"
  shows "is_digit (char_of (48 + d))" "digit_val (char_of (48 + d)) = int d"
    "\<not> is_space (char_of (48 + d))"
proof -
  have n: "of_char (char_of (48 + d) :: char) = (48 + d :: nat)" using assms by simp
  then have i: "of_char (char_of (48 + d) :: char) = (48 + int d)"
    by (metis of_nat_of_char of_nat_add of_nat_numeral)
  show "is_digit (char_of (48 + d))" using assms n by (simp add: is_digit_def less_eq_char_def)
  show "digit_val (char_of (48 + d)) = int d" by (simp add: digit_val_def i)
  have "char_of (48 + d) \<noteq> CHR '' ''"
  proof
    assume "char_of (48 + d) = CHR '' ''"
    then have "(48 + d :: nat) = of_char (CHR '' '')" using n by simp
    then show False by simp
  qed
  then show "\<not> is_space (char_of (48 + d))" using n assms by (simp add: is_space_def)
qed

lemma decimal_digits: "c \<in> set (decimal n) \<Longrightarrow> is_digit c \<and> \<not> is_space c"
proof (induction n rule: decimal.induct)
  case (1 n)
  show ?case
  proof (cases "n < 10")
    case True
    then show ?thesis using 1(2) digit_char[of n] by (subst (asm) decimal.simps) simp
  next
    case False
    then show ?thesis using 1 digit_char[of "n mod 10"]
      by (subst (asm) (2) decimal.simps) auto
  qed
qed

lemma decimal_val: "foldl (\<lambda>n c. 10 * n + digit_val c) 0 (decimal n) = int n"
proof (induction n rule: decimal.induct)
  case (1 n)
  show ?case
  proof (cases "n < 10")
    case True
    then show ?thesis using digit_char[of n] by (subst decimal.simps) simp
  next
    case False
    then have "foldl (\<lambda>n c. 10 * n + digit_val c) 0 (decimal n) = 10 * int (n div 10) + int (n mod 10)"
      using 1 digit_char[of "n mod 10"] by (subst decimal.simps) simp
    moreover have "int (10 * (n div 10) + n mod 10) = int n" by (simp only: mult_div_mod_eq)
    ultimately show ?thesis by (simp only: of_nat_add of_nat_mult of_nat_numeral)
  qed
qed

lemma atol_decimal:
  assumes "n < 2 ^ 63"
  shows "atol (decimal n) = int n"
proof -
  have tw: "takeWhile is_digit (decimal n) = decimal n"
    using decimal_digits by (simp add: takeWhile_eq_all_conv)
  obtain c cs where d: "decimal n = c # cs"
    by (cases "decimal n") (simp_all add: decimal.simps[of n] split: if_splits)
  then have c: "is_digit c" "\<not> is_space c" using decimal_digits[of c n] by simp_all
  have sign: "c \<noteq> CHR ''-''" "c \<noteq> CHR ''+''" using c(1) by (auto simp: is_digit_def less_eq_char_def)
  have "digits_val (decimal n) = int n" by (simp only: digits_val_def tw decimal_val)
  then show ?thesis using assms c sign by (simp add: atol_def Let_def d)
qed

subsection \<open>Printed URLs\<close>

text \<open>
  The URLs \<open>make\<close> prints so that \<open>parse\<close> reads them back: every component avoids the
  delimiters that end it, and without user information no component contains an \<open>@\<close>.
\<close>

definition printable :: "TinyURL \<Rightarrow> bool" where
  "printable u \<longleftrightarrow>
     NUL \<notin> set (make u) \<and>
     CHR '':'' \<notin> set (schema u) \<and>
     (username u = [] \<longleftrightarrow> password u = []) \<and>
     CHR '':'' \<notin> set (username u) \<and> CHR ''@'' \<notin> set (username u) \<and> CHR ''@'' \<notin> set (password u) \<and>
     (username u = [] \<longrightarrow> CHR ''@'' \<notin> set (make u)) \<and>
     at (host u) 0 \<noteq> CHR ''['' \<and> CHR '':'' \<notin> set (host u) \<and> CHR ''/'' \<notin> set (host u) \<and>
     0 \<le> port u \<and> port u < 2 ^ 31 \<and>
     CHR ''?'' \<notin> set (path u) \<and> CHR ''#'' \<notin> set (path u) \<and>
     sorted_wrt (<) (map fst (query u)) \<and>
     list_all (\<lambda>(k, v). CHR ''='' \<notin> set k \<and> CHR ''#'' \<notin> set k \<and> CHR ''&'' \<notin> set v \<and> CHR ''#'' \<notin> set v) (query u) \<and>
     (query u = [] \<longrightarrow> CHR ''?'' \<notin> set (fragment u))"

definition print_userinfo :: "TinyURL \<Rightarrow> string" where
  "print_userinfo u = (if length (username u) > 0 \<and> length (password u) > 0
     then username u @ '':'' @ password u @ ''@'' else [])"

definition print_rest :: "TinyURL \<Rightarrow> string" where
  "print_rest u = path u @ (if query u \<noteq> [] then ''?'' else []) @
     concat (map (\<lambda>(k, v). k @ ''='' @ v @ ''&'') (query u)) @
     (if fragment u \<noteq> [] then ''#'' @ fragment u else [])"

definition print_host :: "TinyURL \<Rightarrow> string" where
  "print_host u = host u @ (if port u > 0 then '':'' @ decimal (nat (port u)) else []) @ ''/'' @ print_rest u"

lemma make_parts: "make u = schema u @ ''://'' @ print_userinfo u @ print_host u"
  by (simp add: make_def print_userinfo_def print_host_def print_rest_def)

lemma parse_schema_print:
  "CHR '':'' \<notin> set sch \<Longrightarrow> parse_schema (sch @ ''://'' @ rest) = Some (sch, rest)"
  by (simp add: parse_schema_def strchr_Some at_def strndup_def nth_append)

lemma parse_userinfo_print:
  assumes "printable u"
  shows "parse_userinfo (print_userinfo u @ print_host u) =
    Some (if username u = [] then None else Some (username u),
      if username u = [] then None else Some (password u), print_host u)"
proof (cases "username u = []")
  case True
  then have "CHR ''@'' \<notin> set (print_host u)"
    using assms by (auto simp: printable_def make_parts)
  then show ?thesis using True
    by (simp add: parse_userinfo_def print_userinfo_def strchr_None[THEN iffD2])
next
  case False
  then have p: "print_userinfo u @ print_host u = username u @ CHR '':'' # password u @ CHR ''@'' # print_host u"
    using assms by (simp add: print_userinfo_def printable_def)
  have "strchr (print_userinfo u @ print_host u) (CHR ''@'') \<noteq> None"
    by (simp only: p strchr_None) simp
  moreover have "strchr (print_userinfo u @ print_host u) (CHR '':'') = Some (length (username u))"
    using assms unfolding p by (intro strchr_Some) (simp add: printable_def)
  moreover have "strchr (password u @ CHR ''@'' # print_host u) (CHR ''@'') = Some (length (password u))"
    using assms by (intro strchr_Some) (simp add: printable_def)
  ultimately show ?thesis using False
    by (auto simp: parse_userinfo_def strndup_def Let_def p)
qed

lemma parse_host_print:
  assumes "printable u"
  shows "parse_host (print_host u) =
    Some (if host_is_ipv4 (host u) then HOST_IPV4 else HOST_DOMAIN, host u,
      if port u > 0 then Some (decimal (nat (port u))) else None, print_rest u)"
proof -
  have c: "CHR '':'' \<notin> set (host u)" "CHR ''/'' \<notin> set (host u)" "at (host u) 0 \<noteq> CHR ''[''"
    using assms by (simp_all add: printable_def)
  have nb: "at (print_host u) 0 \<noteq> CHR ''[''"
    using c(3) by (cases "host u") (auto simp: at_def print_host_def)
  show ?thesis
  proof (cases "0 < port u")
    case True
    define d where "d = decimal (nat (port u))"
    have d: "CHR ''/'' \<notin> set d" "CHR '':'' \<notin> set d"
      using decimal_digits[of "CHR ''/''" "nat (port u)"] decimal_digits[of "CHR '':''" "nat (port u)"]
      by (auto simp: d_def is_digit_def less_eq_char_def)
    have p: "print_host u = host u @ CHR '':'' # d @ CHR ''/'' # print_rest u"
      using True by (simp add: print_host_def d_def)
    have "strchr (print_host u) (CHR '':'') = Some (length (host u))"
      unfolding p using c(1) by (rule strchr_Some)
    moreover have "strchr (print_host u) (CHR ''/'') = Some (length (host u @ CHR '':'' # d))"
      using strchr_Some[of "CHR ''/''" "host u @ CHR '':'' # d" "print_rest u"] c(2) d(1) by (simp add: p)
    moreover have "parse_port (d @ CHR ''/'' # print_rest u) = (d, print_rest u)"
      using d(1) by (simp add: parse_port_def strchr_Some strndup_def)
    ultimately show ?thesis using nb True
      by (simp add: parse_host_def p strndup_def d_def)
  next
    case False
    have p: "print_host u = host u @ CHR ''/'' # print_rest u"
      using False by (simp add: print_host_def)
    have sl: "strchr (print_host u) (CHR ''/'') = Some (length (host u))"
      unfolding p using c(2) by (rule strchr_Some)
    have "pch > length (host u)" if "strchr (print_host u) (CHR '':'') = Some pch" for pch
    proof -
      have "takeWhile (\<lambda>x. x \<noteq> CHR '':'') (print_host u) =
          host u @ CHR ''/'' # takeWhile (\<lambda>x. x \<noteq> CHR '':'') (print_rest u)"
        using c(1) by (subst p, subst takeWhile_append2) auto
      then show ?thesis using that by (auto simp: strchr_def Let_def split: if_splits)
    qed
    then show ?thesis using nb sl False
      by (auto simp: parse_host_def strndup_def p not_less split: option.splits)
  qed
qed

lemma parse_rest_print:
  assumes "printable u"
  shows "parse_rest (print_rest u) = (if print_rest u = [] then (None, [], None)
    else (Some (path u), query u, if fragment u = [] then None else Some (fragment u)))"
proof (cases "print_rest u = []")
  case False
  let ?q = "concat (map (\<lambda>(k, v). k @ ''='' @ v @ ''&'') (query u))"
  let ?f = "if fragment u \<noteq> [] then ''#'' @ fragment u else []"
  have "set (print_rest u) \<subseteq> set (make u)" by (auto simp: make_parts print_host_def)
  then have "NUL \<notin> set (print_rest u)" using assms by (auto simp: printable_def)
  then have nn: "at (print_rest u) 0 \<noteq> NUL" using False by (cases "print_rest u") (auto simp: at_def)
  have pa: "CHR ''?'' \<notin> set (path u)" "CHR ''#'' \<notin> set (path u)" using assms by (simp_all add: printable_def)
  show ?thesis
  proof (cases "query u = []")
    case True
    have p: "print_rest u = path u @ ?f" using True by (simp add: print_rest_def)
    have "strchr (print_rest u) (CHR ''?'') = None"
      using True pa assms by (auto simp: strchr_None p printable_def)
    moreover have "strchr (path u @ CHR ''#'' # fragment u) (CHR ''#'') = Some (length (path u))"
      using pa by (simp add: strchr_Some)
    moreover have "strchr (path u) (CHR ''#'') = None" using pa by (simp add: strchr_None)
    ultimately show ?thesis using True nn False
      by (auto simp: parse_rest_def p strndup_def)
  next
    case nonempty: False
    have p: "print_rest u = path u @ CHR ''?'' # ?q @ ?f" using nonempty by (simp add: print_rest_def)
    have "strchr (print_rest u) (CHR ''?'') = Some (length (path u))"
      unfolding p using pa(1) by (rule strchr_Some)
    moreover have q: "CHR ''#'' \<notin> set ?q" "\<forall>(k, v)\<in>set (query u). CHR ''='' \<notin> set k \<and> CHR ''&'' \<notin> set v"
      using assms by (fastforce simp: printable_def list_all_iff)+
    moreover have "strchr (?q @ CHR ''#'' # fragment u) (CHR ''#'') = Some (length ?q)"
      using q(1) by (simp add: strchr_Some)
    moreover have "strchr ?q (CHR ''#'') = None" using q(1) by (simp add: strchr_None)
    ultimately show ?thesis using nn False parse_query_join[OF q(2)]
      by (auto simp: parse_rest_def p strndup_def Let_def)
  qed
qed (simp add: parse_rest_def at_def)

subsection \<open>Properties\<close>

text \<open>
  C14. Round trip: parsing what \<open>make\<close> prints gives the same \<open>TinyURL\<close> back, with its
  port as a number and its query in order, when the components avoid the delimiters that
  end them and a URL without user information has no \<open>@\<close> anywhere.
\<close>

theorem url_roundtrip:
  assumes "printable u"
  shows "TinyURL_parse (make u) = (True, u)"
proof -
  have nul: "c_str (make u) = make u"
    using assms by (auto simp: c_str_def takeWhile_eq_all_conv printable_def)
  have "make u \<noteq> []" "NUL \<notin> set (make u)" using assms by (simp_all add: make_parts printable_def)
  then have ne: "at (make u) 0 \<noteq> NUL" by (cases "make u") (auto simp: at_def)
  have sch: "parse_schema (make u) = Some (schema u, print_userinfo u @ print_host u)"
    using assms parse_schema_print[of "schema u" "print_userinfo u @ print_host u"]
    by (simp add: make_parts printable_def)
  have port: "int_of_long (atol (decimal (nat (port u)))) = port u" if "0 < port u"
  proof -
    have "port u < 2 ^ 31" using assms by (simp add: printable_def)
    then have "nat (port u) < 2 ^ 63" using that by (simp add: nat_less_iff)
    then show ?thesis using assms that
      by (simp add: atol_decimal int_of_long_def printable_def signed_take_bit_int_eq_self)
  qed
  have query: "foldl (\<lambda>q (k, v). map_set k v q) [] (query u) = query u"
    using map_set_fold[of "[]" "query u"] assms by (simp add: printable_def)
  have empty: "path u = [] \<and> query u = [] \<and> fragment u = []" if "print_rest u = []"
    using that by (auto simp: print_rest_def split: if_splits)
  have user: "username u = [] \<longleftrightarrow> password u = []" "0 \<le> port u"
    using assms by (simp_all add: printable_def)
  have "url_parse (make u) = Some \<lparr>uf_host_type = (if host_is_ipv4 (host u) then HOST_IPV4 else HOST_DOMAIN),
      uf_href = Some (make u), uf_schema = Some (schema u),
      uf_username = (if username u = [] then None else Some (username u)),
      uf_password = (if username u = [] then None else Some (password u)),
      uf_host = Some (host u), uf_port = (if port u > 0 then Some (decimal (nat (port u))) else None),
      uf_path = (if print_rest u = [] then None else Some (path u)),
      uf_query = (if print_rest u = [] then [] else query u),
      uf_fragment = (if print_rest u = [] \<or> fragment u = [] then None else Some (fragment u))\<rparr>"
    using ne by (simp add: url_parse_def sch parse_userinfo_print[OF assms]
        parse_host_print[OF assms] parse_rest_print[OF assms])
  then have "TinyURL_parse (make u) = (True, \<lparr>schema = schema u, username = username u,
      password = password u, host = host u, port = port u, path = path u, query = query u,
      fragment = fragment u\<rparr>)"
    using port query empty user by (auto simp: TinyURL_parse_def nul field_def)
  then show ?thesis by simp
qed

theorem url_roundtrip_witness:
  "TinyURL_parse (make \<lparr>schema = ''http'', username = ''joe'', password = ''pw'', host = ''h.org'',
      port = 8080, path = ''a/b'', query = [(''id'', ''1''), (''k'', ''x=y'')], fragment = ''top''\<rparr>)
   = (True, \<lparr>schema = ''http'', username = ''joe'', password = ''pw'', host = ''h.org'',
      port = 8080, path = ''a/b'', query = [(''id'', ''1''), (''k'', ''x=y'')], fragment = ''top''\<rparr>)"
  by (rule url_roundtrip) (simp add: printable_def make_def at_def decimal.simps less_char_def char_of_def)

text \<open>
  An \<open>@\<close> behind the host is taken for the end of user information: a URL without user
  information and port whose path contains one is rejected.
\<close>

theorem url_at_in_path:
  assumes "CHR '':'' \<notin> set (sch @ h @ pth)" "CHR ''@'' \<in> set pth" "NUL \<notin> set (sch @ h @ pth)"
  shows "TinyURL_parse (sch @ ''://'' @ h @ ''/'' @ pth) = (False, TinyURL_reset)"
proof -
  define url where "url = sch @ ''://'' @ h @ ''/'' @ pth"
  have "NUL \<notin> set url" using assms(3) by (auto simp: url_def)
  then have "c_str url = url" by (auto simp: c_str_def takeWhile_eq_all_conv)
  moreover have "parse_schema url = Some (sch, h @ ''/'' @ pth)"
    unfolding url_def using assms(1) by (intro parse_schema_print) simp
  moreover have "parse_userinfo (h @ ''/'' @ pth) = None"
  proof -
    have "strchr (h @ ''/'' @ pth) (CHR ''@'') \<noteq> None" using assms(2) by (simp only: strchr_None) simp
    moreover have "strchr (h @ ''/'' @ pth) (CHR '':'') = None" using assms(1) by (simp only: strchr_None) simp
    ultimately show ?thesis by (auto simp: parse_userinfo_def)
  qed
  ultimately have "TinyURL_parse url = (False, TinyURL_reset)"
    by (simp add: TinyURL_parse_def url_parse_def)
  then show ?thesis by (simp only: url_def)
qed

theorem url_at_in_path_witness:
  "TinyURL_parse (''http'' @ ''://'' @ ''h.org'' @ ''/'' @ ''a@b'') = (False, TinyURL_reset)"
  by (rule url_at_in_path) simp_all

text \<open>
  With a port in the URL the same \<open>@\<close> is not noticed: the host becomes the user name,
  the port and the beginning of the path the password, and the rest of the path the host.
  An IPv6 address loses its brackets when printed, so it does not survive the round trip,
  and the path behind it keeps its slash.
\<close>

theorem url_misparsed:
  "TinyURL_parse ''http://h.org:80/a@b'' = (True, TinyURL_reset\<lparr>schema := ''http'',
     username := ''h.org'', password := ''80/a'', host := ''b''\<rparr>) \<and>
   TinyURL_parse ''http://[::1]/x'' = (True, TinyURL_reset\<lparr>schema := ''http'', host := ''::1'', path := ''/x''\<rparr>) \<and>
   host (snd (TinyURL_parse (make (TinyURL_reset\<lparr>schema := ''http'', host := ''::1'', path := ''/x''\<rparr>)))) = ''''"
  by (simp add: TinyURL_parse_def url_parse_def c_str_def parse_schema_def parse_userinfo_def
      parse_host_def parse_port_def parse_rest_def strchr_Cons strchr_def[of "[]"] at_def strndup_def
      field_def TinyURL_reset_def make_def)

end
