(* ===== verification/Timer.thy ===== *)
theory Timer
  imports Prelude
begin

text \<open>
  \<open>common/tinytimer.h\<close>: \<open>TimerEvent\<close> and \<open>TimerEvents\<close>. A callback is a function on the
  state \<open>'s\<close> of the program around the timer; callbacks that change the timers themselves
  are not modelled.
\<close>

record 's timer_event =
  timepoint :: u32
  interval :: u32
  runtime :: u32
  callback :: "'s \<Rightarrow> 's"

definition TimerEvent :: "u32 \<Rightarrow> ('s \<Rightarrow> 's) \<Rightarrow> u32 \<Rightarrow> 's timer_event" where
  "TimerEvent tp cb iv = \<lparr>timepoint = tp, interval = iv, runtime = 0, callback = cb\<rparr>"

definition event_run :: "u32 \<Rightarrow> 's timer_event \<Rightarrow> 's \<Rightarrow> bool \<times> 's timer_event \<times> 's" where
  "event_run now e s =
     (if runtime e = 0
      then (if timepoint e \<le> now \<and> now \<le> timepoint e + interval e
            then (True, e\<lparr>runtime := now\<rparr>, callback e s)
            else (False, e, s))
      else (False, e, s))"

text \<open>\<open>TimerEvents\<close>: the vector of events, run from front to back.\<close>

definition at_time :: "u32 \<Rightarrow> ('s \<Rightarrow> 's) \<Rightarrow> u32 \<Rightarrow> 's timer_event list \<Rightarrow> 's timer_event list" where
  "at_time tp cb iv events = events @ [TimerEvent tp cb iv]"

fun events_run :: "u32 \<Rightarrow> 's timer_event list \<Rightarrow> 's \<Rightarrow> 's timer_event list \<times> 's" where
  "events_run now [] s = ([], s)"
| "events_run now (e # es) s =
     (let (_, e, s) = event_run now e s; (es, s) = events_run now es s in (e # es, s))"

text \<open>A sequence of ticks, each a call of \<open>run\<close> with the clock of that moment.\<close>

fun ticks :: "u32 list \<Rightarrow> 's timer_event list \<Rightarrow> 's \<Rightarrow> 's timer_event list \<times> 's" where
  "ticks [] es s = (es, s)"
| "ticks (now # nows) es s = (let (es, s) = events_run now es s in ticks nows es s)"

subsection \<open>The specification\<close>

text \<open>
  The window of an event, and the events due at one tick of a sequence: those whose window
  contains this tick and none of the earlier ones, in the order they were added.
\<close>

definition in_window :: "'s timer_event \<Rightarrow> u32 \<Rightarrow> bool" where
  "in_window e now \<longleftrightarrow> timepoint e \<le> now \<and> now \<le> timepoint e + interval e"

definition due :: "u32 list \<Rightarrow> u32 \<Rightarrow> 's timer_event list \<Rightarrow> 's timer_event list" where
  "due earlier now es = filter (\<lambda>e. in_window e now \<and> (\<forall>t\<in>set earlier. \<not> in_window e t)) es"

fun due_all :: "u32 list \<Rightarrow> u32 list \<Rightarrow> 's timer_event list \<Rightarrow> 's timer_event list" where
  "due_all earlier [] es = []"
| "due_all earlier (now # nows) es = due earlier now es @ due_all (earlier @ [now]) nows es"

definition call_all :: "'s timer_event list \<Rightarrow> 's \<Rightarrow> 's" where
  "call_all es s = foldl (\<lambda>s e. callback e s) s es"

definition fired_by :: "u32 list \<Rightarrow> 's timer_event \<Rightarrow> 's timer_event" where
  "fired_by earlier e = (case find (in_window e) earlier of None \<Rightarrow> e | Some t \<Rightarrow> e\<lparr>runtime := t\<rparr>)"

lemma in_window_upd [simp]: "in_window (e\<lparr>runtime := r\<rparr>) = in_window e"
  by (simp add: in_window_def fun_eq_iff)

lemma fired_by_snoc:
  assumes "runtime e = 0" "0 \<notin> set earlier"
  shows "event_run now (fired_by earlier e) s =
    (let f = in_window e now \<and> (\<forall>t\<in>set earlier. \<not> in_window e t)
     in (f, fired_by (earlier @ [now]) e, if f then callback e s else s))"
proof (cases "find (in_window e) earlier")
  case None
  then have no: "\<forall>t\<in>set earlier. \<not> in_window e t" by (simp add: find_None_iff)
  have "fired_by earlier e = e" "fired_by (earlier @ [now]) e = (if in_window e now then e\<lparr>runtime := now\<rparr> else e)"
    using None by (simp_all add: fired_by_def find_append)
  then show ?thesis using no assms(1)
    by (simp add: event_run_def Let_def) (simp add: in_window_def)
next
  case (Some t)
  then have t: "t \<in> set earlier" "in_window e t" by (auto simp: find_Some_iff in_set_conv_nth)
  then have "t \<noteq> 0" using assms(2) by auto
  then show ?thesis using Some t by (auto simp: fired_by_def event_run_def find_append Let_def)
qed

lemma events_run_due:
  assumes "\<forall>e\<in>set es. runtime e = 0" "0 \<notin> set earlier"
  shows "events_run now (map (fired_by earlier) es) s =
    (map (fired_by (earlier @ [now])) es, call_all (due earlier now es) s)"
  using assms(1)
proof (induction es arbitrary: s)
  case (Cons e es)
  then show ?case
    by (simp add: fired_by_snoc[OF _ assms(2)] Let_def due_def call_all_def)
qed (simp add: due_def call_all_def)

lemma call_all_append: "call_all (as @ bs) s = call_all bs (call_all as s)"
  by (simp add: call_all_def)

lemma ticks_due:
  assumes "\<forall>e\<in>set es. runtime e = 0" "0 \<notin> set (earlier @ nows)"
  shows "ticks nows (map (fired_by earlier) es) s =
    (map (fired_by (earlier @ nows)) es, call_all (due_all earlier nows es) s)"
  using assms(2)
proof (induction nows arbitrary: earlier s)
  case (Cons now nows)
  then show ?case using Cons.IH[of "earlier @ [now]"]
    by (simp add: events_run_due[OF assms(1)] call_all_append)
qed (simp add: call_all_def)

subsection \<open>Properties\<close>

text \<open>
  C37. Over any sequence of ticks with a nonzero clock, the callbacks that run are, tick by
  tick and in the order the events were added, those of the events whose window contains
  this tick and no earlier one: every event fires at the first tick of its window, and once.
\<close>

theorem timers_fire_once:
  assumes "\<forall>e\<in>set es. runtime e = 0" "0 \<notin> set nows"
  shows "snd (ticks nows es s) = call_all (due_all [] nows es) s"
proof -
  have "map (fired_by []) es = es" by (simp add: fired_by_def map_idI)
  then show ?thesis using ticks_due[of es "[]" nows s] assms by simp
qed

theorem timers_fire_once_witness:
  "snd (ticks [3, 7, 8, 9] (at_time 5 (\<lambda>s. s @ [''a'']) 2 (at_time 7 (\<lambda>s. s @ [''b'']) 300 [])) [])
   = [''b'', ''a'']"
  using timers_fire_once[of "at_time 5 (\<lambda>s. s @ [''a'']) 2 (at_time 7 (\<lambda>s. s @ [''b'']) 300 [])" "[3, 7, 8, 9]" "[]"]
  by (simp add: at_time_def TimerEvent_def due_def in_window_def call_all_def)

text \<open>
  The sum \<open>timepoint_ + interval_\<close> wraps: an event whose window would pass the end of
  the 32-bit clock has an empty window and never fires.
\<close>

lemma timer_wrap_never_fires:
  assumes "tp + iv < tp"
  shows "event_run now (TimerEvent tp cb iv) s = (False, TimerEvent tp cb iv, s)"
  using assms by (auto simp: event_run_def TimerEvent_def)

text \<open>
  At clock zero the flag that an event has run stays zero, so an event whose window
  starts at zero fires at every tick with clock zero.
\<close>

theorem timer_refires_at_zero:
  "event_run 0 (TimerEvent 0 cb iv) s = (True, TimerEvent 0 cb iv, cb s)"
  by (simp add: event_run_def TimerEvent_def)

end
