(* ===== verification/Fsm.thy ===== *)
theory Fsm
  imports Timer
begin

text \<open>
  \<open>common/tinyfsm.h\<close>: the state machine \<open>FSM\<close> with its hooks, and \<open>TimerFSM\<close>, whose
  timers trigger events. The hooks are functions on the state \<open>'s\<close> of the program around
  the machine; hooks that call back into the machine are not modelled. A nested
  \<open>std::map\<close> read with \<open>[]\<close> gains an empty entry when the key is missing: the model reads
  it as a total function that is empty there, which the code cannot tell apart.

  The specification is a deterministic automaton together with the schedule of its hooks.
\<close>

record 's fsm =
  current :: u32
  transitions :: "u32 \<Rightarrow> u32 \<Rightarrow> u32 option"
  state_actions :: "u32 \<Rightarrow> ('s \<Rightarrow> 's) option \<times> ('s \<Rightarrow> 's) option"
  event_actions :: "u32 \<Rightarrow> ('s \<Rightarrow> 's) option \<times> ('s \<Rightarrow> 's) option"
  action_transition :: "(u32 \<Rightarrow> u32 \<Rightarrow> u32 \<Rightarrow> 's \<Rightarrow> 's) option"

definition FSM :: "u32 \<Rightarrow> 's fsm" where
  "FSM initstate = \<lparr>current = initstate, transitions = (\<lambda>_ _. None), state_actions = (\<lambda>_. (None, None)),
     event_actions = (\<lambda>_. (None, None)), action_transition = None\<rparr>"

definition is_state :: "u32 \<Rightarrow> 's fsm \<Rightarrow> bool" where
  "is_state state m \<longleftrightarrow> current m = state"

definition can :: "u32 \<Rightarrow> 's fsm \<Rightarrow> bool" where
  "can event m \<longleftrightarrow> transitions m (current m) event \<noteq> None"

definition call :: "('s \<Rightarrow> 's) option \<Rightarrow> 's \<Rightarrow> 's" where
  "call action s = (case action of Some f \<Rightarrow> f s | None \<Rightarrow> s)"

definition transit :: "u32 \<Rightarrow> 's fsm \<Rightarrow> 's \<Rightarrow> bool \<times> 's fsm \<times> 's" where
  "transit event m s =
     (if \<not> can event m then (False, m, s)
      else
        let s = call (fst (event_actions m event)) s;
            s = call (snd (state_actions m (current m))) s;
            from_state = current m;
            m = m\<lparr>current := the (transitions m (current m) event)\<rparr>;
            s = call (fst (state_actions m (current m))) s;
            s = call (snd (event_actions m event)) s;
            s = (case action_transition m of
                   Some f \<Rightarrow> f from_state (current m) event s | None \<Rightarrow> s)
        in (True, m, s))"

definition addTransition :: "u32 \<Rightarrow> u32 \<Rightarrow> u32 \<Rightarrow> 's fsm \<Rightarrow> bool \<times> 's fsm" where
  "addTransition from_state to_state event m =
     (True, m\<lparr>transitions := (transitions m)(from_state := (transitions m from_state)(event := Some to_state))\<rparr>)"

definition onTransition :: "(u32 \<Rightarrow> u32 \<Rightarrow> u32 \<Rightarrow> 's \<Rightarrow> 's) \<Rightarrow> 's fsm \<Rightarrow> 's fsm" where
  "onTransition cb m = m\<lparr>action_transition := Some cb\<rparr>"

definition onBefore :: "u32 \<Rightarrow> ('s \<Rightarrow> 's) \<Rightarrow> 's fsm \<Rightarrow> 's fsm" where
  "onBefore event action m =
     m\<lparr>event_actions := (event_actions m)(event := (Some action, snd (event_actions m event)))\<rparr>"

definition onAfter :: "u32 \<Rightarrow> ('s \<Rightarrow> 's) \<Rightarrow> 's fsm \<Rightarrow> 's fsm" where
  "onAfter event action m =
     m\<lparr>event_actions := (event_actions m)(event := (fst (event_actions m event), Some action))\<rparr>"

definition onEnter :: "u32 \<Rightarrow> ('s \<Rightarrow> 's) \<Rightarrow> 's fsm \<Rightarrow> 's fsm" where
  "onEnter state action m =
     m\<lparr>state_actions := (state_actions m)(state := (Some action, snd (state_actions m state)))\<rparr>"

definition onLeave :: "u32 \<Rightarrow> ('s \<Rightarrow> 's) \<Rightarrow> 's fsm \<Rightarrow> 's fsm" where
  "onLeave state action m =
     m\<lparr>state_actions := (state_actions m)(state := (fst (state_actions m state), Some action))\<rparr>"

fun transits :: "u32 list \<Rightarrow> 's fsm \<Rightarrow> 's \<Rightarrow> bool list \<times> 's fsm \<times> 's" where
  "transits [] m s = ([], m, s)"
| "transits (e # es) m s =
     (let (ok, m, s) = transit e m s; (oks, m, s) = transits es m s in (ok # oks, m, s))"

subsection \<open>TimerFSM\<close>

text \<open>
  The timers are a \<open>std::map\<close> from events. The callback of a timer calls \<open>transit\<close> on the
  machine it belongs to, so the state it acts on is the machine and the state around it.
\<close>

record 's timer_fsm =
  machine :: "'s fsm"
  timers :: "(u32 \<times> ('s fsm \<times> 's) timer_event) list"

definition timer_callback :: "u32 \<Rightarrow> 's fsm \<times> 's \<Rightarrow> 's fsm \<times> 's" where
  "timer_callback event = (\<lambda>(m, s). snd (transit event m s))"

fun timers_run :: "u32 \<Rightarrow> (u32 \<times> 's timer_event) list \<Rightarrow> 's \<Rightarrow> (u32 \<times> 's timer_event) list \<times> 's" where
  "timers_run now [] s = ([], s)"
| "timers_run now ((event, t) # ts) s =
     (let (_, t, s) = event_run now t s; (ts, s) = timers_run now ts s in ((event, t) # ts, s))"

definition TimerFSM_run :: "u32 \<Rightarrow> 's timer_fsm \<Rightarrow> 's \<Rightarrow> 's timer_fsm \<times> 's" where
  "TimerFSM_run now f s =
     (let (ts, m, s) = timers_run now (timers f) (machine f, s)
      in (f\<lparr>machine := m, timers := ts\<rparr>, s))"

definition addTimerTransition :: "u32 \<Rightarrow> u32 \<Rightarrow> u32 \<Rightarrow> u32 \<Rightarrow> u32 \<Rightarrow> 's timer_fsm \<Rightarrow> bool \<times> 's timer_fsm" where
  "addTimerTransition from_state to_state event tp iv f =
     (let timer = TimerEvent tp (timer_callback event) iv;
          f = f\<lparr>timers := map_set event timer (timers f)\<rparr>;
          (r, m) = addTransition from_state to_state event (machine f)
      in (r, f\<lparr>machine := m\<rparr>))"

text \<open>A use of the machine: events from outside and ticks of its clock.\<close>

datatype fsm_op = Event u32 | Tick u32

fun exec :: "fsm_op list \<Rightarrow> 's timer_fsm \<Rightarrow> 's \<Rightarrow> 's timer_fsm \<times> 's" where
  "exec [] f s = (f, s)"
| "exec (Event e # ops) f s = (let (_, m, s) = transit e (machine f) s in exec ops (f\<lparr>machine := m\<rparr>) s)"
| "exec (Tick now # ops) f s = (let (f, s) = TimerFSM_run now f s in exec ops f s)"

subsection \<open>The automaton and the schedule of the hooks\<close>

datatype hook = Before u32 | Leave u32 | Enter u32 | After u32 | Transition u32 u32 u32

definition call_hook :: "'s fsm \<Rightarrow> 's \<Rightarrow> hook \<Rightarrow> 's" where
  "call_hook m s h = (case h of
       Before e \<Rightarrow> call (fst (event_actions m e)) s
     | Leave q \<Rightarrow> call (snd (state_actions m q)) s
     | Enter q \<Rightarrow> call (fst (state_actions m q)) s
     | After e \<Rightarrow> call (snd (event_actions m e)) s
     | Transition q q' e \<Rightarrow> call (map_option (\<lambda>f. f q q' e) (action_transition m)) s)"

fun automaton :: "(u32 \<Rightarrow> u32 \<Rightarrow> u32 option) \<Rightarrow> u32 list \<Rightarrow> u32 \<Rightarrow> bool list \<times> u32 \<times> hook list" where
  "automaton delta [] q = ([], q, [])"
| "automaton delta (e # es) q =
     (case delta q e of
        None \<Rightarrow> (let (oks, r, hs) = automaton delta es q in (False # oks, r, hs))
      | Some q' \<Rightarrow> (let (oks, r, hs) = automaton delta es q'
          in (True # oks, r, [Before e, Leave q, Enter q', After e, Transition q q' e] @ hs)))"

lemma transit_cases:
  "transit e m s = (case transitions m (current m) e of
      None \<Rightarrow> (False, m, s)
    | Some q' \<Rightarrow> (True, m\<lparr>current := q'\<rparr>,
        foldl (call_hook m) s [Before e, Leave (current m), Enter q', After e, Transition (current m) q' e]))"
  by (auto simp: transit_def can_def Let_def call_hook_def call_def split: option.splits)

lemma call_hook_current [simp]: "call_hook (m\<lparr>current := q\<rparr>) = call_hook m"
  by (auto simp: call_hook_def fun_eq_iff split: hook.splits)

lemma transits_automaton:
  "transits es m s = (case automaton (transitions m) es (current m) of (oks, q, hs) \<Rightarrow>
     (oks, m\<lparr>current := q\<rparr>, foldl (call_hook m) s hs))"
proof (induction es arbitrary: m s)
  case (Cons e es)
  show ?case
    by (auto simp: transit_cases Cons Let_def split: option.splits prod.splits)
qed simp

subsection \<open>Timers of the machine\<close>

lemma timers_run_transits:
  assumes "\<forall>(e, t)\<in>set ts. callback t = timer_callback e"
  shows "timers_run now ts (m, s) =
    (map (\<lambda>(e, t). (e, if runtime t = 0 \<and> in_window t now then t\<lparr>runtime := now\<rparr> else t)) ts,
     snd (transits (map fst (filter (\<lambda>(e, t). runtime t = 0 \<and> in_window t now) ts)) m s))"
  using assms
proof (induction ts arbitrary: m s)
  case (Cons et ts)
  obtain e t where et: "et = (e, t)" by (cases et)
  obtain ok m' s' where tr: "transit e m s = (ok, m', s')" by (cases "transit e m s")
  show ?case
    using Cons.prems
    by (auto simp: et event_run_def in_window_def Cons.IH timer_callback_def tr Let_def split: prod.splits)
qed simp

subsection \<open>Properties\<close>

text \<open>
  C17. The machine is the automaton of its transition table: over any sequence of events the
  results of \<open>transit\<close> and the final state are the automaton's, a refused event changes
  nothing, and an accepted one calls the hooks before the event, on leaving the old state,
  on entering the new one, after the event and on the transition, in this order.
\<close>

theorem fsm_automaton:
  "transits es m s = (case automaton (transitions m) es (current m) of (oks, q, hs) \<Rightarrow>
     (oks, m\<lparr>current := q\<rparr>, foldl (call_hook m) s hs))"
  by (rule transits_automaton)

text \<open>
  One tick of a \<open>TimerFSM\<close> triggers the events of the timers that have not run and
  whose window contains the clock, in ascending order of the events, and marks exactly
  these timers as run, also those whose event the machine refuses.
\<close>

theorem timer_fsm_tick:
  assumes "\<forall>(e, t)\<in>set (timers f). callback t = timer_callback e"
  shows "TimerFSM_run now f s =
    (let (_, m, s) = transits (map fst (filter (\<lambda>(e, t). runtime t = 0 \<and> in_window t now) (timers f))) (machine f) s
     in (f\<lparr>machine := m,
          timers := map (\<lambda>(e, t). (e, if runtime t = 0 \<and> in_window t now then t\<lparr>runtime := now\<rparr> else t)) (timers f)\<rparr>, s))"
  by (auto simp: TimerFSM_run_def timers_run_transits[OF assms] Let_def split: prod.splits)

theorem timer_fsm_tick_witness:
  "current (machine (fst (TimerFSM_run 12 (snd (addTimerTransition 1 2 7 10 5
      \<lparr>machine = FSM 1, timers = []\<rparr>)) ()))) = 2"
proof -
  define f where "f = snd (addTimerTransition 1 2 7 10 5 \<lparr>machine = FSM 1 :: unit fsm, timers = []\<rparr>)"
  have "\<forall>(e, t)\<in>set (timers f). callback t = timer_callback e"
    by (simp add: f_def addTimerTransition_def addTransition_def TimerEvent_def)
  from timer_fsm_tick[OF this, of 12 "()"] show ?thesis
    unfolding f_def[symmetric]
    by (simp add: f_def addTimerTransition_def addTransition_def TimerEvent_def FSM_def in_window_def
        transits_automaton)
qed

text \<open>
  A timer that comes due while the machine cannot take its event is lost: if a machine
  with one timer is ticked inside the window in a state that refuses the event, then every
  later tick does nothing, whatever events bring the machine into the right state.
\<close>

theorem timer_transition_lost:
  assumes "timers f = [(e, t)]" "callback t = timer_callback e" "runtime t = 0" "in_window t now" "now \<noteq> 0"
    and "\<not> can e (machine f)"
  shows "exec (Tick now # ops) f s =
    exec (filter (\<lambda>x. case x of Event _ \<Rightarrow> True | Tick _ \<Rightarrow> False) ops) (f\<lparr>timers := [(e, t\<lparr>runtime := now\<rparr>)]\<rparr>) s"
proof -
  have idle: "TimerFSM_run now' g s = (g, s)" if "timers g = [(e, t\<lparr>runtime := now\<rparr>)]" for g now' s
    using that assms(5) by (cases g) (simp add: TimerFSM_run_def event_run_def)
  have "exec ops g s = exec (filter (\<lambda>x. case x of Event _ \<Rightarrow> True | Tick _ \<Rightarrow> False) ops) g s"
    if "timers g = [(e, t\<lparr>runtime := now\<rparr>)]" for g s
    using that
  proof (induction ops arbitrary: g s)
    case (Cons x ops)
    then show ?case by (cases x) (simp_all add: idle split: prod.splits)
  qed simp
  moreover have "TimerFSM_run now f s = (f\<lparr>timers := [(e, t\<lparr>runtime := now\<rparr>)]\<rparr>, s)"
  proof -
    have "transit e (machine f) s = (False, machine f, s)" using assms(6) by (simp add: transit_def)
    then show ?thesis using assms(1-5)
      by (cases f) (simp add: TimerFSM_run_def event_run_def in_window_def timer_callback_def)
  qed
  ultimately show ?thesis by simp
qed

theorem timer_transition_lost_witness:
  "current (machine (fst (exec [Tick 10, Event 9, Tick 11] (snd (addTimerTransition 2 3 7 10 300
      \<lparr>machine = snd (addTransition 1 2 9 (FSM 1)), timers = []\<rparr>)) ()))) = 2"
proof -
  define f where "f = snd (addTimerTransition 2 3 7 10 300
      \<lparr>machine = snd (addTransition 1 2 9 (FSM 1 :: unit fsm)), timers = []\<rparr>)"
  define t where "t = TimerEvent 10 (timer_callback 7 :: unit fsm \<times> unit \<Rightarrow> unit fsm \<times> unit) 300"
  have f: "timers f = [(7, t)]" "\<not> can 7 (machine f)"
    by (simp_all add: f_def t_def addTimerTransition_def addTransition_def can_def FSM_def)
  have t: "callback t = timer_callback 7" "runtime t = 0" "in_window t 10"
    by (simp_all add: t_def TimerEvent_def in_window_def)
  have "exec [Tick 10, Event 9, Tick 11] f () = exec [Event 9] (f\<lparr>timers := [(7, t\<lparr>runtime := 10\<rparr>)]\<rparr>) ()"
    using timer_transition_lost[OF f(1) t _ f(2), of "[Event 9, Tick 11]" "()"] by simp
  then show ?thesis unfolding f_def[symmetric]
    by (simp add: f_def addTimerTransition_def addTransition_def FSM_def transit_cases)
qed

end
