(* ===== verification/Message.thy ===== *)
theory Message
  imports Prelude
begin

text \<open>
  \<open>common/message.h\<close> and \<open>common/message_dispatcher.h\<close>: the header laid over the first
  bytes of a message, the packing of messages by name and by type (\<open>MessageBuffer\<close>), the
  handlers and the two dispatchers.

  A serializer is a pair of arguments: \<open>ser\<close>, where the empty string means failure, and
  \<open>deser\<close>. Handlers act on a state \<open>'s\<close>, the arguments of the dispatch that are references.
  An exception is a value of \<open>error\<close>; a read outside of the string the message is in (its
  bytes and the terminating NUL) is the value \<open>Out_of_bounds\<close>.

  The locale \<open>framing\<close> is what the two dispatchers share: what is packed under a key is
  parsed into this key and body.
\<close>

subsection \<open>The header\<close>

text \<open>
  With \<open>#pragma pack(1)\<close> the header is one 32-bit word, \<open>size\<close> in its low 24 bits and
  \<open>type_is_name\<close> at bit 27, and the 16-bit union of \<open>type\<close> and \<open>type_len\<close>.
\<close>

definition sizeof_header :: nat where
  "sizeof_header = 6"

definition hdr_word :: "bytes \<Rightarrow> u32" where
  "hdr_word buf = get_le (take 4 buf)"

definition hdr_size :: "bytes \<Rightarrow> u32" where
  "hdr_size buf = hdr_word buf AND 0xffffff"

definition hdr_type_is_name :: "bytes \<Rightarrow> bool" where
  "hdr_type_is_name buf \<longleftrightarrow> bit (hdr_word buf) 27"

definition hdr_type :: "bytes \<Rightarrow> u16" where
  "hdr_type buf = get_le (take 2 (drop 4 buf))"

definition hdr_msgsize :: "bytes \<Rightarrow> u32" where
  "hdr_msgsize buf = of_nat sizeof_header + hdr_size buf"

definition store_size :: "u32 \<Rightarrow> bytes \<Rightarrow> bytes" where
  "store_size n buf = put_le 4 ((hdr_word buf AND NOT 0xffffff) OR (n AND 0xffffff)) @ drop 4 buf"

definition store_type_is_name :: "bool \<Rightarrow> bytes \<Rightarrow> bytes" where
  "store_type_is_name b buf =
     put_le 4 (if b then set_bit 27 (hdr_word buf) else unset_bit 27 (hdr_word buf)) @ drop 4 buf"

definition store_type :: "u16 \<Rightarrow> bytes \<Rightarrow> bytes" where
  "store_type t buf = take 4 buf @ put_le 2 t @ drop 6 buf"

definition MSG_TYPE_1 :: "u16 \<Rightarrow> u16" where
  "MSG_TYPE_1 t = t AND 0xff"

definition MSG_TYPE_2 :: "u16 \<Rightarrow> u16" where
  "MSG_TYPE_2 t = drop_bit 8 t"

definition MAKE_MSG_TYPE :: "u16 \<Rightarrow> u16 \<Rightarrow> u16" where
  "MAKE_MSG_TYPE type1 type2 = push_bit 8 type2 + type1"

subsection \<open>Packing\<close>

text \<open>\<open>std::string::resize\<close> and \<open>memcpy\<close> into the string.\<close>

definition resize :: "nat \<Rightarrow> bytes \<Rightarrow> bytes" where
  "resize n buf = take n buf @ replicate (n - length buf) 0"

definition copy_to :: "nat \<Rightarrow> bytes \<Rightarrow> bytes \<Rightarrow> bytes" where
  "copy_to off data buf = take off buf @ data @ drop (off + length data) buf"

definition packMsgByName :: "('m \<Rightarrow> bytes) \<Rightarrow> bytes \<Rightarrow> bytes \<Rightarrow> 'm \<Rightarrow> bool \<times> bytes" where
  "packMsgByName ser buf name msg =
     (if name = [] then (False, buf)
      else let data = ser msg in
        if data = [] then (False, buf)
        else
          let buf = resize (sizeof_header + length name + length data) buf;
              buf = store_size (of_nat (length name + length data)) buf;
              buf = store_type_is_name True buf;
              buf = store_type (of_nat (length name)) buf;
              buf = copy_to sizeof_header name buf;
              buf = copy_to (sizeof_header + length name) data buf
          in (True, buf))"

definition packMsgByType :: "('m \<Rightarrow> bytes) \<Rightarrow> bytes \<Rightarrow> u16 \<Rightarrow> 'm \<Rightarrow> bool \<times> bytes" where
  "packMsgByType ser buf t msg =
     (let data = ser msg in
      if data = [] then (False, buf)
      else
        let buf = resize (sizeof_header + length data) buf;
            buf = store_size (of_nat (length data)) buf;
            buf = store_type_is_name False buf;
            buf = store_type t buf;
            buf = copy_to sizeof_header data buf
        in (True, buf))"

subsection \<open>Handlers\<close>

datatype error =
    Header_error | Size_invalid | Handler_missing | Deserialize_failed | Write_failed
  | Length_error | Out_of_bounds

text \<open>The result of \<open>process\<close>: an exception, or the reply buffer, \<open>None\<close> for a null pointer.\<close>

type_synonym 's processor = "bytes \<Rightarrow> 's \<Rightarrow> (error + bytes option) \<times> 's"

definition process_reply :: "(bytes \<Rightarrow> 'req option) \<Rightarrow> ('req \<Rightarrow> 's \<Rightarrow> 'rep \<times> 's) \<Rightarrow> ('rep \<Rightarrow> bool \<times> bytes)
    \<Rightarrow> 's processor" where
  "process_reply deser handler write2Buffer msgbody s =
     (case deser msgbody of
        Some request \<Rightarrow>
          let (reply, s) = handler request s; (ok, buff) = write2Buffer reply
          in if ok then (Inr (Some buff), s) else (Inl Write_failed, s)
      | None \<Rightarrow> (Inl Deserialize_failed, s))"

definition process_no_reply :: "(bytes \<Rightarrow> 'req option) \<Rightarrow> ('req \<Rightarrow> 's \<Rightarrow> 's) \<Rightarrow> 's processor" where
  "process_no_reply deser handler msgbody s =
     (case deser msgbody of
        Some request \<Rightarrow> (Inr None, handler request s)
      | None \<Rightarrow> (Inl Deserialize_failed, s))"

subsection \<open>The dispatchers\<close>

text \<open>The registered handlers, by type or by name; \<open>bind\<close> is \<open>bindHandlerPtr\<close>.\<close>

type_synonym ('k, 's) handlers = "'k \<Rightarrow> 's processor option"

definition bind_handler :: "'k \<Rightarrow> 's processor option \<Rightarrow> ('k, 's) handlers \<Rightarrow> bool \<times> ('k, 's) handlers" where
  "bind_handler k handler hs =
     (case handler of
        None \<Rightarrow> (False, hs)
      | Some h \<Rightarrow> if hs k \<noteq> None then (False, hs) else (True, hs(k := Some h)))"

definition on_message :: "'k \<Rightarrow> 's processor \<Rightarrow> ('k, 's) handlers \<Rightarrow> ('k, 's) handlers" where
  "on_message k handler hs = snd (bind_handler k (Some handler) hs)"

text \<open>\<open>n\<close> bytes at an offset of a \<open>std::string\<close>, whose NUL may be read too.\<close>

definition read_at :: "bytes \<Rightarrow> nat \<Rightarrow> nat \<Rightarrow> bytes option" where
  "read_at msgdata off n =
     (if off + n \<le> length msgdata + 1 then Some (take n (drop off (msgdata @ [0]))) else None)"

text \<open>
  \<open>MessageDispatcher::dispatch\<close> up to the lookup: it checks no length. The word with the bit-fields
  is read first, the body next, and the type last.
\<close>

definition parse_by_type :: "bytes \<Rightarrow> error + u16 \<times> bytes" where
  "parse_by_type msgdata =
     (case read_at msgdata 0 4 of
        None \<Rightarrow> Inl Out_of_bounds
      | Some msgheader \<Rightarrow>
          if hdr_type_is_name msgheader then Inl Header_error
          else (case read_at msgdata sizeof_header (unat (hdr_size msgheader)) of
              None \<Rightarrow> Inl Out_of_bounds
            | Some msgbody \<Rightarrow>
                (case read_at msgdata 4 2 of
                   None \<Rightarrow> Inl Out_of_bounds
                 | Some t \<Rightarrow> Inr (get_le t, msgbody))))"

text \<open>
  \<open>MessageNameDispatcher::dispatch\<close> up to the lookup. The length of the body is a
  difference of \<open>int\<close>s that becomes a \<open>size_t\<close>: a negative one makes the constructor of
  \<open>std::string\<close> throw.
\<close>

definition parse_by_name :: "bytes \<Rightarrow> error + bytes \<times> bytes" where
  "parse_by_name msgdata =
     (if length msgdata < sizeof_header then Inl Size_invalid
      else if unat (hdr_msgsize msgdata) \<noteq> length msgdata then Inl Size_invalid
      else if \<not> hdr_type_is_name msgdata \<or> hdr_type msgdata = 0 then Inl Header_error
      else let type_len = unat (hdr_type msgdata); sz = unat (hdr_size msgdata) in
        (case read_at msgdata sizeof_header type_len of
           None \<Rightarrow> Inl Out_of_bounds
         | Some msgname \<Rightarrow>
             if sz < type_len then Inl Length_error
             else (case read_at msgdata (sizeof_header + type_len) (sz - type_len) of
                 None \<Rightarrow> Inl Out_of_bounds
               | Some msgbody \<Rightarrow> Inr (msgname, msgbody))))"

definition dispatch :: "(bytes \<Rightarrow> error + 'k \<times> bytes) \<Rightarrow> ('k, 's) handlers \<Rightarrow> 's processor" where
  "dispatch parse hs msgdata s =
     (case parse msgdata of
        Inl e \<Rightarrow> (Inl e, s)
      | Inr (k, msgbody) \<Rightarrow>
          (case hs k of
             Some process \<Rightarrow> process msgbody s
           | None \<Rightarrow> (Inl Handler_missing, s)))"

definition dispatch_type :: "(u16, 's) handlers \<Rightarrow> 's processor" where
  "dispatch_type = dispatch parse_by_type"

definition dispatch_name :: "(bytes, 's) handlers \<Rightarrow> 's processor" where
  "dispatch_name = dispatch parse_by_name"

subsection \<open>Stores and loads of the header\<close>

lemma length_stores [simp]:
  "4 \<le> length buf \<Longrightarrow> length (store_size n buf) = length buf"
  "4 \<le> length buf \<Longrightarrow> length (store_type_is_name b buf) = length buf"
  "6 \<le> length buf \<Longrightarrow> length (store_type t buf) = length buf"
  by (simp_all add: store_size_def store_type_is_name_def store_type_def length_put_le)

lemma length_resize [simp]: "length (resize n buf) = n"
  by (simp add: resize_def)

lemma hdr_word_put [simp]: "hdr_word (put_le 4 w @ rest) = w"
  by (simp add: hdr_word_def length_put_le get_put_le take_bit_word_eq_self)

lemma hdr_type_put [simp]: "length b4 = 4 \<Longrightarrow> hdr_type (b4 @ put_le 2 t @ rest) = t"
  by (simp add: hdr_type_def length_put_le get_put_le take_bit_word_eq_self)

lemma hdr_word_take: "4 \<le> n \<Longrightarrow> hdr_word (take n buf) = hdr_word buf"
  by (simp add: hdr_word_def min_def)

lemma size_field: "((x AND NOT 0xffffff) OR (n AND 0xffffff)) AND 0xffffff = (n AND 0xffffff :: u32)"
  by (rule bit_word_eqI) (auto simp: bit_simps bitw)

text \<open>The header after the three stores, and the bytes behind it.\<close>

definition header_of :: "u32 \<Rightarrow> bool \<Rightarrow> u16 \<Rightarrow> bytes \<Rightarrow> bytes" where
  "header_of n b t buf = store_type t (store_type_is_name b (store_size n buf))"

lemma header_of_fields:
  assumes "6 \<le> length buf"
  shows "hdr_size (header_of n b t buf) = n AND 0xffffff"
    "hdr_type_is_name (header_of n b t buf) = b" "hdr_type (header_of n b t buf) = t"
    "length (header_of n b t buf) = length buf" "drop 6 (header_of n b t buf) = drop 6 buf"
proof -
  define x where "x = (hdr_word buf AND NOT 0xffffff) OR (n AND 0xffffff)"
  define w where "w = (if b then set_bit 27 x else unset_bit 27 x)"
  have h: "header_of n b t buf = put_le 4 w @ put_le 2 t @ drop 6 buf"
  proof -
    have "store_size n buf = put_le 4 x @ drop 4 buf" by (simp only: store_size_def x_def)
    moreover have "store_type_is_name b (put_le 4 x @ drop 4 buf) = put_le 4 w @ drop 4 buf"
      by (simp add: store_type_is_name_def w_def length_put_le)
    ultimately show ?thesis by (simp add: header_of_def store_type_def length_put_le)
  qed
  have "hdr_size (header_of n b t buf) = w AND 0xffffff"
    by (simp only: h hdr_size_def hdr_word_put)
  also have "\<dots> = x AND 0xffffff"
    by (rule bit_word_eqI) (auto simp: w_def bit_simps bitw)
  also have "\<dots> = n AND 0xffffff" unfolding x_def by (rule size_field)
  finally show "hdr_size (header_of n b t buf) = n AND 0xffffff" .
  show "hdr_type_is_name (header_of n b t buf) = b"
    by (simp add: h hdr_type_is_name_def w_def bit_simps)
  show "hdr_type (header_of n b t buf) = t" by (simp add: h length_put_le)
  show "length (header_of n b t buf) = length buf" "drop 6 (header_of n b t buf) = drop 6 buf"
    using assms by (simp_all add: h length_put_le)
qed

lemma fields_take6:
  assumes "6 \<le> length h"
  shows "hdr_size (take 6 h @ r) = hdr_size h" "hdr_type_is_name (take 6 h @ r) = hdr_type_is_name h"
    "hdr_type (take 6 h @ r) = hdr_type h" "hdr_msgsize (take 6 h @ r) = hdr_msgsize h"
  using assms
  by (simp_all add: hdr_size_def hdr_word_def hdr_type_is_name_def hdr_type_def hdr_msgsize_def
      take_drop min_def)

lemma unat_size_mod:
  assumes "n < 2 ^ 32"
  shows "unat (of_nat n AND 0xffffff :: u32) = n mod 2 ^ 24"
proof -
  have "unat (of_nat n AND mask 24 :: u32) = unat (of_nat n :: u32) mod 2 ^ 24"
    by (rule unat_and_mask)
  then show ?thesis using assms by (simp add: bitw unat_of_nat)
qed

subsection \<open>What packing writes\<close>

lemma packMsgByName_ser: "packMsgByName ser buf name msg = packMsgByName (\<lambda>d. d) buf name (ser msg)"
  by (simp add: packMsgByName_def)

lemma packMsgByType_ser: "packMsgByType ser buf t msg = packMsgByType (\<lambda>d. d) buf t (ser msg)"
  by (simp add: packMsgByType_def)

lemma copy_to_whole: "length buf = off + length data \<Longrightarrow> copy_to off data buf = take off buf @ data"
  by (simp add: copy_to_def)

lemma packMsgByName_bytes:
  fixes buf :: bytes
  assumes "name \<noteq> []" "data \<noteq> []"
  defines "h \<equiv> header_of (of_nat (length name + length data)) True (of_nat (length name))
      (resize (6 + length name + length data) buf)"
  shows "packMsgByName (\<lambda>d. d) buf name data = (True, take 6 h @ name @ data)"
    "length h = 6 + length name + length data"
proof -
  show len: "length h = 6 + length name + length data"
    unfolding h_def by (subst header_of_fields(4)) simp_all
  have "copy_to (6 + length name) data (copy_to 6 name h) = take 6 h @ name @ data"
    by (subst copy_to_whole) (simp_all add: copy_to_def len)
  then show "packMsgByName (\<lambda>d. d) buf name data = (True, take 6 h @ name @ data)"
    using assms by (simp add: packMsgByName_def Let_def sizeof_header_def header_of_def)
qed

lemma packMsgByType_bytes:
  fixes buf :: bytes and t :: u16
  assumes "data \<noteq> []"
  defines "h \<equiv> header_of (of_nat (length data)) False t (resize (6 + length data) buf)"
  shows "packMsgByType (\<lambda>d. d) buf t data = (True, take 6 h @ data)"
    "length h = 6 + length data"
proof -
  show len: "length h = 6 + length data"
    unfolding h_def by (subst header_of_fields(4)) simp_all
  have "copy_to 6 data h = take 6 h @ data" by (rule copy_to_whole) (simp add: len)
  then show "packMsgByType (\<lambda>d. d) buf t data = (True, take 6 h @ data)"
    using assms by (simp add: packMsgByType_def Let_def sizeof_header_def header_of_def)
qed

lemma read_at_middle:
  "off = length a \<Longrightarrow> n = length b \<Longrightarrow> read_at (a @ b @ c) off n = Some b"
  by (simp add: read_at_def)

lemma header_reads:
  assumes "6 \<le> length h"
  shows "read_at (take 6 h @ data) 0 4 = Some (take 4 h)" "read_at (take 6 h @ data) 4 2 = Some (take 2 (drop 4 h))"
  using assms by (simp_all add: read_at_def min_def take_drop)

lemma header_first:
  assumes "6 \<le> length h"
  shows "hdr_size (take 4 h) = hdr_size h" "hdr_type_is_name (take 4 h) = hdr_type_is_name h" "get_le (take 2 (drop 4 h)) = hdr_type h"
  using assms by (simp_all add: min_def hdr_size_def hdr_type_is_name_def hdr_word_def hdr_type_def)

subsection \<open>The contract of a framing\<close>

locale framing =
  fixes frame :: "bytes \<Rightarrow> 'k \<Rightarrow> bytes \<Rightarrow> bytes"
    and parse :: "bytes \<Rightarrow> error + 'k \<times> bytes"
    and ok :: "'k \<Rightarrow> bytes \<Rightarrow> bool"
  assumes parse_frame: "ok k d \<Longrightarrow> parse (frame old k d) = Inr (k, d)"
begin

lemma dispatch_frame:
  assumes "ok k d" "hs k = Some process"
  shows "dispatch parse hs (frame old k d) s = process d s"
  using assms by (simp add: dispatch_def parse_frame)

lemma dispatch_unregistered:
  assumes "ok k d" "hs k = None"
  shows "dispatch parse hs (frame old k d) s = (Inl Handler_missing, s)"
  using assms by (simp add: dispatch_def parse_frame)

lemma frame_inject:
  assumes "ok k d" "ok k' d'" "frame old k d = frame old' k' d'"
  shows "k = k' \<and> d = d'"
  using parse_frame[OF assms(1), of old] parse_frame[OF assms(2), of old'] assms(3) by simp

end

definition name_ok :: "bytes \<Rightarrow> bytes \<Rightarrow> bool" where
  "name_ok name data \<longleftrightarrow> name \<noteq> [] \<and> data \<noteq> [] \<and> length name < 2 ^ 16 \<and> length name + length data < 2 ^ 24"

definition type_ok :: "u16 \<Rightarrow> bytes \<Rightarrow> bool" where
  "type_ok t data \<longleftrightarrow> data \<noteq> [] \<and> length data < 2 ^ 24"

interpretation by_name: framing "\<lambda>old name data. snd (packMsgByName (\<lambda>d. d) old name data)" parse_by_name name_ok
proof unfold_locales
  fix name data old
  assume "name_ok name data"
  then have ok: "name \<noteq> []" "data \<noteq> []" "length name < 2 ^ 16" "length name + length data < 2 ^ 24"
    by (simp_all add: name_ok_def)
  define h where "h = header_of (of_nat (length name + length data)) True (of_nat (length name))
      (resize (6 + length name + length data) old)"
  note p = packMsgByName_bytes[OF ok(1,2), of old, folded h_def]
  have l6: "6 \<le> length (resize (6 + length name + length data) old)" by simp
  note f = header_of_fields[OF l6, of "of_nat (length name + length data)" True "of_nat (length name)", folded h_def]
  have sz: "unat (hdr_size h) = length name + length data"
    unfolding f(1) by (subst unat_size_mod) (use ok in simp_all)
  have tl: "unat (hdr_type h) = length name"
    unfolding f(3) using ok(3) by (simp add: unat_of_nat)
  have tn: "hdr_type h \<noteq> 0" using tl ok(1) by auto
  have ms: "unat (hdr_msgsize h) = 6 + length name + length data"
  proof -
    have "unat (hdr_msgsize h) = (6 + unat (hdr_size h)) mod 2 ^ 32"
      by (simp add: hdr_msgsize_def sizeof_header_def unat_word_ariths)
    then show ?thesis using ok(4) by (simp add: sz)
  qed
  have l: "length (take 6 h) = 6" by (simp add: p(2))
  show "parse_by_name (snd (packMsgByName (\<lambda>d. d) old name data)) = Inr (name, data)"
    using read_at_middle[of 6 "take 6 h" "length name" name data]
      read_at_middle[of "6 + length name" "take 6 h @ name" "length data" data "[]"]
    by (simp add: p parse_by_name_def fields_take6 sz tl tn ms f(2) sizeof_header_def Let_def)
qed

interpretation by_type: framing "\<lambda>old t data. snd (packMsgByType (\<lambda>d. d) old t data)" parse_by_type type_ok
proof unfold_locales
  fix t data old
  assume "type_ok t data"
  then have ok: "data \<noteq> []" "length data < 2 ^ 24" by (simp_all add: type_ok_def)
  define h where "h = header_of (of_nat (length data)) False t (resize (6 + length data) old)"
  note p = packMsgByType_bytes[OF ok(1), where t = t and buf = old, folded h_def]
  have l6: "6 \<le> length (resize (6 + length data) old)" by simp
  note f = header_of_fields[OF l6, of "of_nat (length data)" False t, folded h_def]
  have sz: "unat (hdr_size h) = length data"
    unfolding f(1) by (subst unat_size_mod) (use ok in simp_all)
  show "parse_by_type (snd (packMsgByType (\<lambda>d. d) old t data)) = Inr (t, data)"
    using header_reads[of h data] header_first[of h] read_at_middle[of 6 "take 6 h" "length data" data "[]"]
    by (simp add: p parse_by_type_def sz f(2,3) sizeof_header_def)
qed

lemma on_message_same: "hs k = None \<Longrightarrow> on_message k h hs k = Some h"
  by (simp add: on_message_def bind_handler_def)

lemma packMsgByName_snd: "snd (packMsgByName ser old name msg) = snd (packMsgByName (\<lambda>d. d) old name (ser msg))"
  by (simp only: packMsgByName_ser[of ser])

lemma name_ok_packs: "name_ok name (ser msg) \<Longrightarrow> fst (packMsgByName ser old name msg)"
  by (simp add: name_ok_def packMsgByName_ser[of ser] packMsgByName_bytes)

lemma hdr_take: "4 \<le> n \<Longrightarrow> hdr_size (take n m) = hdr_size m" "4 \<le> n \<Longrightarrow> hdr_type_is_name (take n m) = hdr_type_is_name m"
  by (simp_all add: hdr_size_def hdr_type_is_name_def hdr_word_take)

subsection \<open>Properties\<close>

text \<open>
  C19. A remote call by name: a request written by name into any buffer, new or reused, is
  handed by the dispatcher to the handler first registered under this name, the reply it
  returns is written by name again, and the dispatcher of the caller hands it to the handler
  of the reply, provided the serializers round-trip and names and messages fit the 16-bit
  and 24-bit lengths of the header.
\<close>

theorem call_by_name:
  assumes "hs request_name = None" "hs' reply_name = None"
    and "handler request s = (reply, s')"
    and "name_ok request_name (ser request)" "deser (ser request) = Some request"
    and "name_ok reply_name (ser' reply)" "deser' (ser' reply) = Some reply"
  shows "\<exists>buff. dispatch_name
        (on_message request_name (process_reply deser handler (\<lambda>rep. packMsgByName ser' [] reply_name rep)) hs)
        (snd (packMsgByName ser old request_name request)) s = (Inr (Some buff), s') \<and>
      dispatch_name (on_message reply_name (process_no_reply deser' receive) hs') buff c
        = (Inr None, receive reply c)"
proof -
  define server where "server = on_message request_name
      (process_reply deser handler (\<lambda>rep. packMsgByName ser' [] reply_name rep)) hs"
  define client where "client = on_message reply_name (process_no_reply deser' receive) hs'"
  define buff where "buff = snd (packMsgByName ser' [] reply_name reply)"
  have "dispatch_name server (snd (packMsgByName ser old request_name request)) s =
      process_reply deser handler (\<lambda>rep. packMsgByName ser' [] reply_name rep) (ser request) s"
    unfolding dispatch_name_def packMsgByName_snd[of ser]
    using assms(1,4) by (intro by_name.dispatch_frame) (simp_all add: server_def on_message_same)
  also have "\<dots> = (Inr (Some buff), s')"
    using assms(3,5) name_ok_packs[of reply_name ser' reply "[]", OF assms(6)]
    by (cases "packMsgByName ser' [] reply_name reply") (simp add: process_reply_def buff_def)
  finally have "dispatch_name server (snd (packMsgByName ser old request_name request)) s = (Inr (Some buff), s')" .
  moreover have "dispatch_name client buff c = process_no_reply deser' receive (ser' reply) c"
    unfolding dispatch_name_def buff_def packMsgByName_snd[of ser']
    using assms(2,6) by (intro by_name.dispatch_frame) (simp_all add: client_def on_message_same)
  ultimately show ?thesis using assms(7)
    by (auto simp: process_no_reply_def simp flip: server_def client_def)
qed

theorem call_by_name_witness:
  "\<exists>buff. dispatch_name (on_message [65] (process_reply Some (\<lambda>req n. (rev req, n + 1 :: nat))
        (\<lambda>rep. packMsgByName (\<lambda>d. d) [] [66] rep)) (\<lambda>_. None))
      (snd (packMsgByName (\<lambda>d. d) [9, 9, 9, 0xff] [65] [1, 2])) 0 = (Inr (Some buff), 1) \<and>
    dispatch_name (on_message [66] (process_no_reply Some (\<lambda>rep got. got @ rep)) (\<lambda>_. None)) buff [] = (Inr None, [2, 1])"
  using call_by_name[where hs = "\<lambda>_. None" and hs' = "\<lambda>_. None" and request_name = "[65]" and reply_name = "[66]"
      and handler = "\<lambda>req n. (rev req, n + 1 :: nat)" and request = "[1, 2]" and s = 0 and reply = "[2, 1]" and s' = 1
      and ser = "\<lambda>d. d" and deser = Some and ser' = "\<lambda>d. d" and deser' = Some
      and old = "[9, 9, 9, 0xff]" and receive = "\<lambda>rep got. got @ rep" and c = "[]"]
  by (simp add: name_ok_def)

text \<open>
  The 24 bits of the length are not checked on packing. A message packed by type is
  parsed to its type and the first \<open>n mod 2^24\<close> bytes of its \<open>n\<close> bytes, so a body of
  16 MB or more silently loses its end; one packed by name is then rejected.
\<close>

theorem oversize_messages:
  assumes "ser msg \<noteq> []" "length (ser msg) < 2 ^ 31" "name \<noteq> []" "length name < 2 ^ 16"
  shows "parse_by_type (snd (packMsgByType ser old t msg)) =
      Inr (t, take (length (ser msg) mod 2 ^ 24) (ser msg)) \<and>
    (2 ^ 24 \<le> length name + length (ser msg) \<longrightarrow>
      parse_by_name (snd (packMsgByName ser old name msg)) = Inl Size_invalid)"
proof
  define d where "d = ser msg"
  define h where "h = header_of (of_nat (length d)) False t (resize (6 + length d) old)"
  have d: "d \<noteq> []" "length d < 2 ^ 32" using assms(1,2) by (simp_all add: d_def)
  note p = packMsgByType_bytes[OF d(1), where t = t and buf = old, folded h_def]
  have l6: "6 \<le> length (resize (6 + length d) old)" by simp
  note f = header_of_fields[OF l6, of "of_nat (length d)" False t, folded h_def]
  have sz: "unat (hdr_size h) = length d mod 2 ^ 24"
    unfolding f(1) by (rule unat_size_mod) (rule d(2))
  have "d = take (length d mod 2 ^ 24) d @ drop (length d mod 2 ^ 24) d" by simp
  then have "read_at (take 6 h @ d) 6 (length d mod 2 ^ 24) = Some (take (length d mod 2 ^ 24) d)"
    using read_at_middle[of 6 "take 6 h" "length d mod 2 ^ 24" "take (length d mod 2 ^ 24) d"
        "drop (length d mod 2 ^ 24) d"] p(2) by simp
  then show "parse_by_type (snd (packMsgByType ser old t msg)) =
      Inr (t, take (length (ser msg) mod 2 ^ 24) (ser msg))"
    using header_reads[of h d] header_first[of h]
    by (simp add: packMsgByType_ser[of ser] p parse_by_type_def sz f(2,3) sizeof_header_def flip: d_def)
next
  define n where "n = length name + length (ser msg)"
  define h where "h = header_of (of_nat n) True (of_nat (length name)) (resize (6 + n) old)"
  have n: "n < 2 ^ 32" using assms(2,4) by (simp add: n_def)
  note p = packMsgByName_bytes[OF assms(3,1), of old, folded n_def, unfolded add.assoc, folded n_def, folded h_def]
  have l6: "6 \<le> length (resize (6 + n) old)" by simp
  note f = header_of_fields[OF l6, of "of_nat n" True "of_nat (length name)", folded h_def]
  have "unat (hdr_size h) = n mod 2 ^ 24" unfolding f(1) by (rule unat_size_mod[OF n])
  then have "unat (hdr_msgsize h) = 6 + n mod 2 ^ 24"
    by (simp add: hdr_msgsize_def sizeof_header_def unat_word_ariths)
  moreover have "n mod 2 ^ 24 < 2 ^ 24" by (rule mod_less_divisor) simp
  ultimately have "unat (hdr_msgsize h) < 6 + n" if "2 ^ 24 \<le> n" using that by simp
  then show "2 ^ 24 \<le> length name + length (ser msg) \<longrightarrow>
      parse_by_name (snd (packMsgByName ser old name msg)) = Inl Size_invalid"
    using p by (auto simp: packMsgByName_snd[of ser] parse_by_name_def fields_take6 n_def sizeof_header_def)
qed

theorem oversize_messages_witness:
  "parse_by_type (snd (packMsgByType (\<lambda>n. replicate n 7) [] 5 (2 ^ 24 + 2))) = Inr (5, [7, 7])"
proof -
  have "parse_by_type (snd (packMsgByType (\<lambda>n. replicate n 7) [] 5 (2 ^ 24 + 2))) =
      Inr (5, take (length (replicate (2 ^ 24 + 2) (7 :: u8)) mod 2 ^ 24) (replicate (2 ^ 24 + 2) 7))"
    by (rule oversize_messages[where ser = "\<lambda>n. replicate n 7" and msg = "2 ^ 24 + 2" and name = "[1]",
          THEN conjunct1]) simp_all
  also have "length (replicate (2 ^ 24 + 2) (7 :: u8)) mod 2 ^ 24 = 2" by simp
  finally show ?thesis by (simp add: take_replicate numeral_2_eq_2)
qed

text \<open>
  C22. Which received bytes make a dispatcher read outside of the message. By name: exactly
  those with a consistent size whose name length passes the end of the message. By type,
  where no length is checked: those too short for the first word of a header, and, unless this word says that
  the message has a name, those too short for the header and those whose size passes
  their end. A header that says that the message has a name is refused by the dispatcher by type
  as soon as its first word is there.
\<close>

theorem dispatch_out_of_bounds:
  "(parse_by_name m = Inl Out_of_bounds \<longleftrightarrow>
      6 \<le> length m \<and> unat (hdr_msgsize m) = length m \<and> hdr_type_is_name m \<and>
      length m - 6 + 1 < unat (hdr_type m)) \<and>
   (parse_by_type m = Inl Out_of_bounds \<longleftrightarrow>
      length m < 3 \<or> \<not> hdr_type_is_name m \<and> length m + 1 < 6 + unat (hdr_size m))"
proof
  have sz: "unat (hdr_msgsize m) = 6 + unat (hdr_size m)"
  proof -
    have "unat (hdr_size m) = unat (hdr_word m) mod 2 ^ 24"
      unfolding hdr_size_def using unat_and_mask[of "hdr_word m" 24] by (simp add: bitw)
    then have "unat (hdr_size m) < 2 ^ 24" by simp
    then show ?thesis by (simp add: hdr_msgsize_def sizeof_header_def unat_word_ariths)
  qed
  have "unat (hdr_type m) = 0 \<longleftrightarrow> hdr_type m = 0" by (rule unat_eq_zero)
  then show "parse_by_name m = Inl Out_of_bounds \<longleftrightarrow>
      6 \<le> length m \<and> unat (hdr_msgsize m) = length m \<and> hdr_type_is_name m \<and>
      length m - 6 + 1 < unat (hdr_type m)"
    by (auto simp: parse_by_name_def sizeof_header_def read_at_def Let_def sz)
  have "get_le (bs @ [0]) = (get_le bs :: u32)" for bs :: bytes by (induction bs) simp_all
  then have "hdr_word (m @ [0]) = hdr_word m" if "3 \<le> length m"
    using that by (cases "length m = 3") (simp_all add: hdr_word_def)
  then have "hdr_type_is_name (take 4 (m @ [0])) = hdr_type_is_name m" "hdr_size (take 4 (m @ [0])) = hdr_size m"
    if "3 \<le> length m"
    using that by (simp_all add: hdr_type_is_name_def hdr_size_def hdr_word_take del: take_append)
  then show "parse_by_type m = Inl Out_of_bounds \<longleftrightarrow>
      length m < 3 \<or> \<not> hdr_type_is_name m \<and> length m + 1 < 6 + unat (hdr_size m)"
    by (auto simp: parse_by_type_def sizeof_header_def read_at_def)
qed

end
