(* ===== verification/Async.thy ===== *)
theory Async
  imports Prelude "HOL-Library.Multiset"
begin

text \<open>
  \<open>common/async.h\<close> and \<open>async.cpp\<close>: the tasks \<open>AsyncTask\<close>, \<open>SerialsTask\<close> and
  \<open>ParallelTask\<close> and the \<open>AsyncScheduler\<close>.

  Tasks live in a store: an address stands for the shared pointer, the field \<open>parent\<close> is
  the raw pointer to the parent. A user-defined task is one that completes later, by a call
  of \<open>triggerDone\<close> from outside, or one whose \<open>call()\<close> calls \<open>emit_done()\<close> itself
  (\<open>User True\<close>). The callbacks are observed through a log. Time is in milliseconds; one
  call of \<open>run\<close> sees one value of the clock. The statistics counters are not modelled.

  \<open>triggerCall\<close>, \<open>triggerDone\<close> and \<open>child_done\<close> call each other; they carry fuel, and
  \<open>None\<close> means that it ran out. The theorems give the fuel that is enough.
\<close>

subsection \<open>Tasks and scheduler\<close>

type_synonym addr = nat

datatype kind = User bool | Serials | Parallel

record task =
  kind :: kind
  tid :: nat
  createtime :: nat
  timeout_ms :: u32
  parent :: "addr option"
  children :: "(nat \<times> addr) list"
  children_by_order :: "addr list"
  attached :: bool

datatype ev = Called addr | Completed addr | TimedOut addr | Cancelled addr

record sched =
  tasks :: "addr \<Rightarrow> task"
  next_id :: nat
  queue_ready :: "addr list"
  queue_wait :: "nat \<Rightarrow> addr option"
  wait_by_time :: "(nat \<times> addr) list"
  events :: "ev list"

definition new_task :: "kind \<Rightarrow> nat \<Rightarrow> task" where
  "new_task k now = \<lparr>kind = k, tid = 0, createtime = now, timeout_ms = -1, parent = None,
     children = [], children_by_order = [], attached = False\<rparr>"

definition upd_task :: "addr \<Rightarrow> (task \<Rightarrow> task) \<Rightarrow> sched \<Rightarrow> sched" where
  "upd_task t f s = s\<lparr>tasks := (tasks s)(t := f (tasks s t))\<rparr>"

definition observe :: "ev \<Rightarrow> sched \<Rightarrow> sched" where
  "observe e s = s\<lparr>events := events s @ [e]\<rparr>"

definition elapsed_ms :: "nat \<Rightarrow> task \<Rightarrow> u32" where
  "elapsed_ms now t = word_of_int (int now - int (createtime t))"

definition isTimeout :: "nat \<Rightarrow> task \<Rightarrow> bool" where
  "isTimeout now t \<longleftrightarrow> timeout_ms t \<le> elapsed_ms now t"

definition isNeverTimeout :: "task \<Rightarrow> bool" where
  "isNeverTimeout t \<longleftrightarrow> timeout_ms t = -1"

definition addChildByOrder :: "addr \<Rightarrow> addr \<Rightarrow> sched \<Rightarrow> sched" where
  "addChildByOrder p c s =
     upd_task c (\<lambda>t. t\<lparr>parent := Some p\<rparr>)
       (upd_task p (\<lambda>t. t\<lparr>children_by_order := children_by_order t @ [c]\<rparr>) s)"

text \<open>\<open>AsyncTask::S\<close> and \<open>AsyncTask::P\<close>, for the new object at address \<open>p\<close>.\<close>

definition make_group :: "kind \<Rightarrow> nat \<Rightarrow> addr \<Rightarrow> addr list \<Rightarrow> sched \<Rightarrow> sched" where
  "make_group k now p cs s =
     foldl (\<lambda>s c. addChildByOrder p c s) (upd_task p (\<lambda>_. new_task k now) s) cs"

text \<open>\<open>std::map::insert\<close> keeps an entry that is there; \<open>std::multimap::insert\<close> goes behind.\<close>

definition map_insert :: "'k::linorder \<Rightarrow> 'v \<Rightarrow> ('k \<times> 'v) list \<Rightarrow> ('k \<times> 'v) list" where
  "map_insert k v m = (if k \<in> fst ` set m then m else map_set k v m)"

fun multimap_insert :: "'k::linorder \<Rightarrow> 'v \<Rightarrow> ('k \<times> 'v) list \<Rightarrow> ('k \<times> 'v) list" where
  "multimap_insert k v [] = [(k, v)]"
| "multimap_insert k v (kv # m) =
     (if k < fst kv then (k, v) # kv # m else kv # multimap_insert k v m)"

fun on_emit :: "nat \<Rightarrow> addr \<Rightarrow> sched \<Rightarrow> sched option"
  and on_emit_children :: "nat \<Rightarrow> addr \<Rightarrow> addr list \<Rightarrow> sched \<Rightarrow> sched option" where
  "on_emit 0 t s = None"
| "on_emit (Suc n) t s =
     (let s = upd_task t (\<lambda>x. x\<lparr>tid := next_id s, attached := True\<rparr>) s;
          s = s\<lparr>next_id := next_id s + 1\<rparr>
      in on_emit_children n t (children_by_order (tasks s t)) s)"
| "on_emit_children n p [] s = Some s"
| "on_emit_children n p (c # cs) s =
     (case on_emit n c s of
        None \<Rightarrow> None
      | Some s \<Rightarrow> on_emit_children n p cs
          (upd_task p (\<lambda>x. x\<lparr>children := map_insert (tid (tasks s c)) c (children x)\<rparr>) s))"

definition emit :: "nat \<Rightarrow> addr \<Rightarrow> sched \<Rightarrow> sched option" where
  "emit n t s = map_option (\<lambda>s. s\<lparr>queue_ready := queue_ready s @ [t]\<rparr>) (on_emit n t s)"

subsection \<open>Calls and completions\<close>

definition enqueue_wait :: "addr \<Rightarrow> sched \<Rightarrow> sched" where
  "enqueue_wait t s =
     (let x = tasks s t;
          s = (if queue_wait s (tid x) = None then s\<lparr>queue_wait := (queue_wait s)(tid x := Some t)\<rparr> else s)
      in if \<not> isNeverTimeout x
         then s\<lparr>wait_by_time := multimap_insert (createtime x) t (wait_by_time s)\<rparr> else s)"

definition erase_wait :: "addr \<Rightarrow> sched \<Rightarrow> sched" where
  "erase_wait t s = s\<lparr>queue_wait := (queue_wait s)(tid (tasks s t) := None)\<rparr>"

definition erase_child :: "addr \<Rightarrow> nat \<Rightarrow> sched \<Rightarrow> sched" where
  "erase_child p i s = upd_task p (\<lambda>x. x\<lparr>children := filter (\<lambda>(j, _). j \<noteq> i) (children x)\<rparr>) s"

fun triggerCall :: "nat \<Rightarrow> addr \<Rightarrow> sched \<Rightarrow> sched option"
  and triggerFirstCall :: "nat \<Rightarrow> addr \<Rightarrow> sched \<Rightarrow> sched option"
  and callAll :: "nat \<Rightarrow> addr list \<Rightarrow> sched \<Rightarrow> sched option"
  and triggerDone :: "nat \<Rightarrow> addr \<Rightarrow> sched \<Rightarrow> sched option"
  and child_done :: "nat \<Rightarrow> addr \<Rightarrow> addr \<Rightarrow> sched \<Rightarrow> sched option" where
  "triggerCall 0 t s = None"
| "triggerCall (Suc n) t s =
     (let s = observe (Called t) (enqueue_wait t s) in
      case kind (tasks s t) of
        User sync \<Rightarrow> if sync \<and> attached (tasks s t) then triggerDone n t s else Some s
      | Serials \<Rightarrow> triggerFirstCall n t s
      | Parallel \<Rightarrow> callAll n (children_by_order (tasks s t)) s)"
| "triggerFirstCall n t s =
     (case children (tasks s t) of
        [] \<Rightarrow> Some s
      | (_, c) # _ \<Rightarrow> (case n of 0 \<Rightarrow> None | Suc n \<Rightarrow> triggerCall n c s))"
| "callAll n [] s = Some s"
| "callAll n (c # cs) s =
     (case n of 0 \<Rightarrow> None | Suc n \<Rightarrow>
      (case triggerCall n c s of None \<Rightarrow> None | Some s \<Rightarrow> callAll n cs s))"
| "triggerDone 0 t s = None"
| "triggerDone (Suc n) t s =
     (let s = observe (Completed t) s in
      case parent (tasks s t) of
        Some p \<Rightarrow> map_option (erase_wait t) (child_done n p t s)
      | None \<Rightarrow> Some (erase_wait t s))"
| "child_done 0 p c s = None"
| "child_done (Suc n) p c s =
     (let i = tid (tasks s c); finish = (\<lambda>s. if children (tasks s p) = [] then triggerDone n p s else Some s) in
      case kind (tasks s p) of
        User _ \<Rightarrow> Some s
      | Serials \<Rightarrow>
          (case children (tasks s p) of
             (_, a) # _ \<Rightarrow>
               if tid (tasks s a) = i
               then (case triggerFirstCall n p (erase_child p i s) of None \<Rightarrow> None | Some s \<Rightarrow> finish s)
               else finish s
           | [] \<Rightarrow> finish s)
      | Parallel \<Rightarrow> finish (erase_child p i s))"

text \<open>\<open>triggerDone(id)\<close>, the reply from outside.\<close>

definition triggerDone_id :: "nat \<Rightarrow> nat \<Rightarrow> sched \<Rightarrow> (bool \<times> sched) option" where
  "triggerDone_id n i s =
     (case queue_wait s i of
        Some t \<Rightarrow> map_option (Pair True) (triggerDone n t s)
      | None \<Rightarrow> Some (False, s))"

definition child_timeout :: "addr \<Rightarrow> sched \<Rightarrow> sched" where
  "child_timeout p s =
     (case kind (tasks s p) of User _ \<Rightarrow> s | _ \<Rightarrow> upd_task p (\<lambda>x. x\<lparr>timeout_ms := 0\<rparr>) s)"

definition triggerTimeout :: "addr \<Rightarrow> sched \<Rightarrow> sched" where
  "triggerTimeout t s =
     (let s = observe (TimedOut t) s;
          s = (case parent (tasks s t) of Some p \<Rightarrow> child_timeout p s | None \<Rightarrow> s)
      in erase_wait t s)"

fun triggerCancel :: "nat \<Rightarrow> addr \<Rightarrow> sched \<Rightarrow> sched option"
  and cancelAll :: "nat \<Rightarrow> addr list \<Rightarrow> sched \<Rightarrow> sched option" where
  "triggerCancel 0 t s = None"
| "triggerCancel (Suc n) t s =
     map_option (\<lambda>s. erase_wait t (upd_task t (\<lambda>x. x\<lparr>children := []\<rparr>) s))
       (cancelAll n (map snd (children (tasks s t))) (observe (Cancelled t) s))"
| "cancelAll n [] s = Some s"
| "cancelAll n (c # cs) s =
     (case triggerCancel n c s of None \<Rightarrow> None | Some s \<Rightarrow> cancelAll n cs s)"

text \<open>One round of \<open>run\<close>: the timeouts, then the calls of all tasks that were ready.\<close>

fun check_timeouts :: "nat \<Rightarrow> (nat \<times> addr) list \<Rightarrow> sched \<Rightarrow> (nat \<times> addr) list \<times> sched" where
  "check_timeouts now [] s = ([], s)"
| "check_timeouts now ((k, t) # ws) s =
     (if isTimeout now (tasks s t)
      then check_timeouts now ws (triggerTimeout t s)
      else (let (ws, s) = check_timeouts now ws s in ((k, t) # ws, s)))"

definition run_round :: "nat \<Rightarrow> nat \<Rightarrow> sched \<Rightarrow> sched option" where
  "run_round n now s =
     (let (ws, s) = check_timeouts now (wait_by_time s) s;
          s = s\<lparr>wait_by_time := ws\<rparr>;
          ready = queue_ready s
      in callAll n ready (s\<lparr>queue_ready := []\<rparr>))"

subsection \<open>Groups of user-defined tasks\<close>

text \<open>Only the children of one task change while a group runs.\<close>

lemma children_only [simp]:
  "kind ((T(p := (T p)\<lparr>children := X\<rparr>)) c) = kind (T c)"
  "tid ((T(p := (T p)\<lparr>children := X\<rparr>)) c) = tid (T c)"
  "parent ((T(p := (T p)\<lparr>children := X\<rparr>)) c) = parent (T c)"
  "attached ((T(p := (T p)\<lparr>children := X\<rparr>)) c) = attached (T c)"
  "timeout_ms ((T(p := (T p)\<lparr>children := X\<rparr>)) c) = timeout_ms (T c)"
  "children_by_order ((T(p := (T p)\<lparr>children := X\<rparr>)) c) = children_by_order (T c)"
  by simp_all

definition sync :: "sched \<Rightarrow> addr \<Rightarrow> bool" where
  "sync s c \<longleftrightarrow> kind (tasks s c) = User True"

definition pairs :: "sched \<Rightarrow> addr list \<Rightarrow> (nat \<times> addr) list" where
  "pairs s cs = map (\<lambda>c. (tid (tasks s c), c)) cs"

definition user_child :: "addr \<Rightarrow> sched \<Rightarrow> addr \<Rightarrow> bool" where
  "user_child p s c \<longleftrightarrow> (\<exists>b. kind (tasks s c) = User b) \<and> parent (tasks s c) = Some p \<and>
     attached (tasks s c) \<and> timeout_ms (tasks s c) = -1"

text \<open>
  A group \<open>p\<close> of kind \<open>k\<close> whose children in its map are \<open>cs\<close>: user-defined tasks that
  never time out, with different numbers.
\<close>

definition group :: "kind \<Rightarrow> addr \<Rightarrow> addr list \<Rightarrow> sched \<Rightarrow> bool" where
  "group k p cs s \<longleftrightarrow> kind (tasks s p) = k \<and> parent (tasks s p) = None \<and>
     children (tasks s p) = pairs s cs \<and> (\<forall>c\<in>set cs. user_child p s c) \<and>
     p \<notin> set cs \<and> distinct (map (\<lambda>c. tid (tasks s c)) (p # cs))"

text \<open>The state of the scheduler when the group has got on: children left, queue, new events.\<close>

definition advance :: "addr \<Rightarrow> addr list \<Rightarrow> (nat \<Rightarrow> addr option) \<Rightarrow> ev list \<Rightarrow> sched \<Rightarrow> sched" where
  "advance p cs w es s =
     s\<lparr>tasks := (tasks s)(p := (tasks s p)\<lparr>children := pairs s cs\<rparr>), queue_wait := w, events := events s @ es\<rparr>"

lemma advance_simps [simp]:
  "tid (tasks (advance p cs w es s) c) = tid (tasks s c)"
  "kind (tasks (advance p cs w es s) c) = kind (tasks s c)"
  "parent (tasks (advance p cs w es s) c) = parent (tasks s c)"
  "attached (tasks (advance p cs w es s) c) = attached (tasks s c)"
  "timeout_ms (tasks (advance p cs w es s) c) = timeout_ms (tasks s c)"
  "children_by_order (tasks (advance p cs w es s) c) = children_by_order (tasks s c)"
  "children (tasks (advance p cs w es s) p) = pairs s cs"
  "queue_wait (advance p cs w es s) = w"
  "events (advance p cs w es s) = events s @ es"
  "pairs (advance p cs w es s) = pairs s"
  "sync (advance p cs w es s) = sync s"
  "user_child q (advance p cs w es s) = user_child q s"
  by (auto simp: advance_def pairs_def sync_def user_child_def fun_eq_iff)

lemma advance_advance [simp]:
  "advance p cs w es (advance p cs' w' es' s) = advance p cs w (es' @ es) s"
  unfolding advance_def[of p cs w es "advance p cs' w' es' s"]
  by (simp, simp add: advance_def)

lemma group_advance:
  assumes "group k p (as @ cs) s"
  shows "group k p cs (advance p cs w es s)"
  using assms by (auto simp: group_def)

lemma observe_advance: "group k p cs s \<Longrightarrow> observe e s = advance p cs (queue_wait s) [e] s"
  by (simp add: observe_def advance_def group_def fun_upd_idem)

lemma erase_wait_advance:
  "group k p cs s \<Longrightarrow> erase_wait t s = advance p cs ((queue_wait s)(tid (tasks s t) := None)) [] s"
  by (simp add: erase_wait_def advance_def group_def fun_upd_idem)

lemma enqueue_wait_advance:
  assumes "group k p cs s" "timeout_ms (tasks s t) = -1" "queue_wait s (tid (tasks s t)) = None"
  shows "enqueue_wait t s = advance p cs ((queue_wait s)(tid (tasks s t) := Some t)) [] s"
  using assms by (simp add: enqueue_wait_def advance_def group_def isNeverTimeout_def Let_def fun_upd_idem)

lemma erase_child_advance:
  assumes "group k p (as @ c # cs) s"
  shows "erase_child p (tid (tasks s c)) s = advance p (as @ cs) (queue_wait s) [] s"
proof -
  have "tid (tasks s x) \<noteq> tid (tasks s c)" if "x \<in> set as \<union> set cs" for x
    using assms that by (auto simp: group_def image_iff)
  then have "filter (\<lambda>x. tid (tasks s x) \<noteq> tid (tasks s c)) as = as"
    "filter (\<lambda>x. tid (tasks s x) \<noteq> tid (tasks s c)) cs = cs"
    by (simp_all add: filter_id_conv)
  then have "filter (\<lambda>(j, _). j \<noteq> tid (tasks s c)) (pairs s (as @ c # cs)) = pairs s (as @ cs)"
    by (simp add: pairs_def filter_map o_def)
  then show ?thesis
    using assms by (simp add: erase_child_def upd_task_def advance_def group_def)
qed

lemma pairs_simps [simp]: "pairs s [] = []" "pairs s (c # cs) = (tid (tasks s c), c) # pairs s cs"
  by (simp_all add: pairs_def)

lemma pairs_empty [simp]: "pairs s cs = [] \<longleftrightarrow> cs = []"
  by (simp add: pairs_def)

lemma group_done:
  assumes "group k p [] s"
  shows "triggerDone (Suc n) p s = Some (advance p [] ((queue_wait s)(tid (tasks s p) := None)) [Completed p] s)"
proof -
  note o = observe_advance[OF assms, of "Completed p"]
  have g: "group k p [] (advance p [] (queue_wait s) [Completed p] s)"
    using group_advance[of k p "[]" "[]"] assms by simp
  show ?thesis
    using assms by (simp add: o erase_wait_advance[OF g] group_def)
qed

subsection \<open>Tasks in series\<close>

text \<open>
  The events when the first of \<open>cs\<close> is called, and when it completes, up to the next task
  that does not complete by itself; \<open>sy\<close> tells which do. A task that completes by itself
  does so inside of the call of its predecessor's completion, and every one of these nested
  calls finds the series empty at its end.
\<close>

fun call_events :: "addr \<Rightarrow> (addr \<Rightarrow> bool) \<Rightarrow> addr list \<Rightarrow> ev list" where
  "call_events p sy [] = []"
| "call_events p sy (c # cs) =
     Called c # (if sy c then Completed c # call_events p sy cs @ (if list_all sy cs then [Completed p] else []) else [])"

definition done_events :: "addr \<Rightarrow> (addr \<Rightarrow> bool) \<Rightarrow> addr \<Rightarrow> addr list \<Rightarrow> ev list" where
  "done_events p sy c cs = Completed c # call_events p sy cs @ (if list_all sy cs then [Completed p] else [])"

definition waiting_after :: "sched \<Rightarrow> addr \<Rightarrow> addr list \<Rightarrow> (nat \<Rightarrow> addr option) \<Rightarrow> nat \<Rightarrow> addr option" where
  "waiting_after s p rest w = (case rest of [] \<Rightarrow> w(tid (tasks s p) := None) | r # _ \<Rightarrow> w(tid (tasks s r) := Some r))"

lemma waiting_after_advance [simp]: "waiting_after (advance p cs w es s) = waiting_after s"
  by (simp add: waiting_after_def fun_eq_iff split: list.splits)

lemma group_user:
  assumes "group k p cs s" "c \<in> set cs"
  shows "kind (tasks s c) = User (sync s c)" "parent (tasks s c) = Some p" "attached (tasks s c)"
    "timeout_ms (tasks s c) = -1" "tid (tasks s c) \<noteq> tid (tasks s p)"
  using assms by (auto simp: group_def user_child_def sync_def image_iff)

lemma dropWhile_empty: "dropWhile sy cs = [] \<longleftrightarrow> list_all sy cs"
  by (auto simp: dropWhile_eq_Nil_conv list_all_iff)

lemma group_suffix: "group k p cs s \<Longrightarrow> group k p (dropWhile sy cs) (advance p (dropWhile sy cs) w es s)"
  using group_advance[of k p "takeWhile sy cs" "dropWhile sy cs"] by simp

lemma serial_done_from_call:
  assumes g: "group Serials p (c # cs) s" and fuel: "4 * length cs + 3 \<le> n"
    and call: "\<And>d ds s' m. cs = d # ds \<Longrightarrow> group Serials p cs s' \<Longrightarrow>
      (\<And>e. e \<in> set cs \<Longrightarrow> queue_wait s' (tid (tasks s' e)) = None) \<Longrightarrow> 4 * length cs \<le> m \<Longrightarrow>
      triggerCall m d s' = Some (advance p (dropWhile (sync s') cs)
        (waiting_after s' p (dropWhile (sync s') cs) (queue_wait s')) (call_events p (sync s') cs) s')"
    and idle: "\<And>e. e \<in> set cs \<Longrightarrow> queue_wait s (tid (tasks s e)) = None"
  shows "triggerDone n c s = Some (advance p (dropWhile (sync s) cs)
    (waiting_after s p (dropWhile (sync s) cs) ((queue_wait s)(tid (tasks s c) := None)))
    (done_events p (sync s) c cs) s)"
proof -
  obtain n2 where n: "n = Suc (Suc (Suc n2))" "4 * length cs \<le> n2"
    using fuel by (metis Suc_le_D add_Suc_right numeral_3_eq_3 add.right_neutral Suc_le_mono)
  define s2 where "s2 = advance p cs (queue_wait s) [Completed c] s"
  have "group Serials p ([c] @ cs) s" using g by simp
  from group_advance[OF this] have g2: "group Serials p cs s2" by (simp add: s2_def)
  have ob: "observe (Completed c) s = advance p (c # cs) (queue_wait s) [Completed c] s"
    by (rule observe_advance[OF g])
  have g1: "group Serials p ([] @ c # cs) (advance p (c # cs) (queue_wait s) [Completed c] s)"
    using group_advance[of Serials p "[]"] g by simp
  have er: "erase_child p (tid (tasks s c)) (advance p (c # cs) (queue_wait s) [Completed c] s) = s2"
    using erase_child_advance[OF g1] by (simp add: s2_def)
  define r where "r = dropWhile (sync s) cs"
  define w where "w = waiting_after s p r (queue_wait s)"
  define es where "es = done_events p (sync s) c cs"
  have cd: "child_done (Suc (Suc n2)) p c (advance p (c # cs) (queue_wait s) [Completed c] s)
      = Some (advance p r w es s)"
  proof (cases cs)
    case Nil
    have "triggerDone (Suc n2) p s2 = Some (advance p [] ((queue_wait s)(tid (tasks s p) := None)) [Completed c, Completed p] s)"
      using group_done[of Serials p s2 n2] g2 Nil by (simp add: s2_def)
    then show ?thesis
      using g2 er g Nil
      by (simp add: group_def s2_def r_def w_def es_def waiting_after_def done_events_def)
  next
    case (Cons d ds)
    have "triggerCall n2 d s2 = Some (advance p r w (Completed c # call_events p (sync s) cs) s)"
      using call[OF Cons g2 _ n(2)] idle by (simp add: s2_def r_def w_def)
    then have first: "triggerFirstCall (Suc n2) p s2 = Some (advance p r w (Completed c # call_events p (sync s) cs) s)"
      using g2 Cons by (simp add: group_def s2_def)
    show ?thesis
    proof (cases "list_all (sync s) cs")
      case True
      then have "r = []" by (simp add: r_def list_all_iff)
      have g3: "group Serials p [] (advance p [] w (Completed c # call_events p (sync s) cs) s)"
        using group_advance[of Serials p "c # cs" "[]"] g by simp
      have "w(tid (tasks s p) := None) = w" using \<open>r = []\<close> by (simp add: w_def waiting_after_def)
      then have "triggerDone (Suc n2) p (advance p [] w (Completed c # call_events p (sync s) cs) s)
          = Some (advance p [] w es s)"
        using group_done[OF g3, of n2] True by (simp add: es_def done_events_def)
      then show ?thesis using first er g \<open>r = []\<close> by (simp add: group_def)
    next
      case False
      then have "r \<noteq> []" by (simp add: r_def list_all_iff)
      then show ?thesis using first er g False by (simp add: group_def es_def done_events_def)
    qed
  qed
  have gr: "group Serials p r (advance p r w es s)"
    using group_suffix[OF g2, of "sync s"] by (simp add: s2_def r_def) (simp add: group_def)
  have "w(tid (tasks s c) := None) = waiting_after s p r ((queue_wait s)(tid (tasks s c) := None))"
  proof (cases r)
    case Nil
    then show ?thesis using group_user(5)[OF g, of c] by (auto simp: w_def waiting_after_def fun_eq_iff)
  next
    case (Cons x xs)
    have "x \<in> set cs" using Cons set_dropWhileD[of x "sync s" cs] by (simp add: r_def)
    then have "tid (tasks s c) \<noteq> tid (tasks s x)" using g by (auto simp: group_def)
    then show ?thesis by (simp add: Cons w_def waiting_after_def fun_upd_twist)
  qed
  then show ?thesis
    using erase_wait_advance[OF gr, of c] cd
    by (simp add: n(1) ob group_user(2)[OF g] es_def flip: r_def)
qed

lemma serial_call_from_done:
  assumes g: "group Serials p (c # cs) s"
    and idle: "\<And>e. e \<in> set (c # cs) \<Longrightarrow> queue_wait s (tid (tasks s e)) = None"
    and cmp: "\<And>s'. group Serials p (c # cs) s' \<Longrightarrow>
      (\<And>e. e \<in> set cs \<Longrightarrow> queue_wait s' (tid (tasks s' e)) = None) \<Longrightarrow>
      triggerDone n c s' = Some (advance p (dropWhile (sync s') cs)
        (waiting_after s' p (dropWhile (sync s') cs) ((queue_wait s')(tid (tasks s' c) := None)))
        (done_events p (sync s') c cs) s')"
  shows "triggerCall (Suc n) c s = Some (advance p (dropWhile (sync s) (c # cs))
    (waiting_after s p (dropWhile (sync s) (c # cs)) (queue_wait s))
    (call_events p (sync s) (c # cs)) s)"
proof -
  define w1 where "w1 = (queue_wait s)(tid (tasks s c) := Some c)"
  define s1 where "s1 = advance p (c # cs) w1 [Called c] s"
  have u: "kind (tasks s c) = User (sync s c)" "attached (tasks s c)" "timeout_ms (tasks s c) = -1"
    using group_user[OF g, of c] by simp_all
  have ge: "group Serials p (c # cs) (advance p (c # cs) w1 [] s)"
    using group_advance[of Serials p "[]" "c # cs"] g by simp
  have enter: "observe (Called c) (enqueue_wait c s) = s1"
    using enqueue_wait_advance[OF g u(3)] idle[of c] observe_advance[OF ge, of "Called c"]
    by (simp add: s1_def w1_def)
  have g1: "group Serials p (c # cs) s1"
    using group_advance[of Serials p "[]" "c # cs"] g by (simp add: s1_def)
  show ?thesis
  proof (cases "sync s c")
    case False
    then show ?thesis
      by (simp add: enter Let_def) (simp add: s1_def u waiting_after_def w1_def)
  next
    case True
    have "queue_wait s1 (tid (tasks s1 e)) = None" if "e \<in> set cs" for e
      using that idle[of e] g by (auto simp: s1_def w1_def group_def image_iff)
    from cmp[OF g1 this] have "triggerDone n c s1 = Some (advance p (dropWhile (sync s) cs)
        (waiting_after s p (dropWhile (sync s) cs) ((queue_wait s)(tid (tasks s c) := None)))
        (Called c # done_events p (sync s) c cs) s)"
      by (simp add: s1_def w1_def)
    moreover have "(queue_wait s)(tid (tasks s c) := None) = queue_wait s"
      using idle[of c] by (simp add: fun_upd_idem)
    ultimately show ?thesis using True
      by (simp add: enter Let_def done_events_def) (simp add: s1_def u)
  qed
qed

lemma serial_done:
  assumes "group Serials p (c # cs) s" "4 * length cs + 3 \<le> n"
    and "\<And>e. e \<in> set cs \<Longrightarrow> queue_wait s (tid (tasks s e)) = None"
  shows "triggerDone n c s = Some (advance p (dropWhile (sync s) cs)
    (waiting_after s p (dropWhile (sync s) cs) ((queue_wait s)(tid (tasks s c) := None)))
    (done_events p (sync s) c cs) s)"
  using assms
proof (induction cs arbitrary: c s n)
  case Nil
  show ?case by (rule serial_done_from_call[OF Nil(1,2)]) simp_all
next
  case (Cons d ds)
  show ?case
  proof (rule serial_done_from_call[OF Cons.prems(1,2)])
    fix d' ds' s' m
    assume "d # ds = d' # ds'" and g: "group Serials p (d # ds) s'" and m: "4 * length (d # ds) \<le> m"
      and idle: "\<And>e. e \<in> set (d # ds) \<Longrightarrow> queue_wait s' (tid (tasks s' e)) = None"
    obtain m' where "m = Suc m'" "4 * length ds + 3 \<le> m'" using m by (cases m) simp_all
    moreover have "d' = d" using \<open>d # ds = d' # ds'\<close> by simp
    moreover have "triggerCall (Suc m') d s' = Some (advance p (dropWhile (sync s') (d # ds))
        (waiting_after s' p (dropWhile (sync s') (d # ds)) (queue_wait s'))
        (call_events p (sync s') (d # ds)) s')" if "4 * length ds + 3 \<le> m'" for m'
    proof (rule serial_call_from_done[OF g idle])
      fix t
      assume "group Serials p (d # ds) t" "\<And>e. e \<in> set ds \<Longrightarrow> queue_wait t (tid (tasks t e)) = None"
      then show "triggerDone m' d t = Some (advance p (dropWhile (sync t) ds)
        (waiting_after t p (dropWhile (sync t) ds) ((queue_wait t)(tid (tasks t d) := None)))
        (done_events p (sync t) d ds) t)"
        using Cons.IH that by blast
    qed
    ultimately show "triggerCall m d' s' = Some (advance p (dropWhile (sync s') (d # ds))
        (waiting_after s' p (dropWhile (sync s') (d # ds)) (queue_wait s'))
        (call_events p (sync s') (d # ds)) s')"
      by blast
  qed (rule Cons.prems(3))
qed

lemma serial_call:
  assumes "group Serials p (c # cs) s" "4 * length (c # cs) \<le> n"
    and "\<And>e. e \<in> set (c # cs) \<Longrightarrow> queue_wait s (tid (tasks s e)) = None"
  shows "triggerCall n c s = Some (advance p (dropWhile (sync s) (c # cs))
    (waiting_after s p (dropWhile (sync s) (c # cs)) (queue_wait s))
    (call_events p (sync s) (c # cs)) s)"
proof -
  obtain m where m: "n = Suc m" "4 * length cs + 3 \<le> m" using assms(2) by (cases n) simp_all
  show ?thesis unfolding m(1)
    by (rule serial_call_from_done[OF assms(1,3)]) (simp_all add: serial_done m(2))
qed

subsection \<open>Replies\<close>

text \<open>The world outside completes tasks by their numbers.\<close>

fun replies :: "nat \<Rightarrow> nat list \<Rightarrow> sched \<Rightarrow> sched option" where
  "replies n [] s = Some s"
| "replies n (i # is) s =
     (case triggerDone_id n i s of None \<Rightarrow> None | Some (_, s) \<Rightarrow> replies n is s)"

fun reply_events :: "addr \<Rightarrow> (addr \<Rightarrow> bool) \<Rightarrow> addr list \<Rightarrow> ev list" where
  "reply_events p sy [] = []"
| "reply_events p sy (c # cs) = (if sy c then [] else done_events p sy c cs) @ reply_events p sy cs"

definition only_first_waits :: "addr list \<Rightarrow> addr list \<Rightarrow> sched \<Rightarrow> bool" where
  "only_first_waits r cs s \<longleftrightarrow>
     (\<forall>d\<in>set cs. queue_wait s (tid (tasks s d)) = (if r \<noteq> [] \<and> d = hd r then Some d else None))"

lemma waits_after:
  assumes "distinct (map (\<lambda>c. tid (tasks s c)) (p # cs))" "set r \<subseteq> set cs"
    and "\<And>d. d \<in> set cs \<Longrightarrow> w (tid (tasks s d)) = None"
  shows "only_first_waits r cs (advance p r (waiting_after s p r w) es s)"
  unfolding only_first_waits_def
proof
  fix d
  assume d: "d \<in> set cs"
  show "queue_wait (advance p r (waiting_after s p r w) es s) (tid (tasks (advance p r (waiting_after s p r w) es s) d))
    = (if r \<noteq> [] \<and> d = hd r then Some d else None)"
  proof (cases r)
    case Nil
    then show ?thesis using assms(3)[OF d] by (simp add: waiting_after_def)
  next
    case (Cons x xs)
    then have "tid (tasks s d) = tid (tasks s x) \<longleftrightarrow> d = x"
      using d assms(1,2) by (auto simp: distinct_map inj_on_def)
    then show ?thesis using assms(3)[OF d] Cons by (auto simp: waiting_after_def)
  qed
qed

lemma serial_replies:
  assumes "group Serials p (dropWhile (sync s) cs) s" "only_first_waits (dropWhile (sync s) cs) cs s"
    and "distinct (map (\<lambda>c. tid (tasks s c)) (p # cs))" "4 * length cs + 3 \<le> n"
  shows "\<exists>s'. replies n (map (\<lambda>c. tid (tasks s c)) cs) s = Some s' \<and>
    events s' = events s @ reply_events p (sync s) cs"
  using assms
proof (induction cs arbitrary: s)
  case (Cons c cs)
  show ?case
  proof (cases "sync s c")
    case True
    have "c \<noteq> hd (dropWhile (sync s) cs)" if "dropWhile (sync s) cs \<noteq> []"
      using hd_dropWhile[OF that] True by metis
    then have "queue_wait s (tid (tasks s c)) = None"
      using Cons.prems(2) True by (auto simp: only_first_waits_def)
    then have step: "triggerDone_id n (tid (tasks s c)) s = Some (False, s)"
      by (simp add: triggerDone_id_def)
    have "only_first_waits (dropWhile (sync s) cs) cs s"
      using Cons.prems(2) True by (simp add: only_first_waits_def)
    then have "\<exists>s'. replies n (map (\<lambda>c. tid (tasks s c)) cs) s = Some s' \<and>
        events s' = events s @ reply_events p (sync s) cs"
      using Cons.prems(1,3,4) True by (intro Cons.IH) simp_all
    then show ?thesis using step True by simp
  next
    case False
    define r where "r = dropWhile (sync s) cs"
    have g: "group Serials p (c # cs) s" using Cons.prems(1) False by simp
    have idle: "queue_wait s (tid (tasks s d)) = None" if "d \<in> set cs" for d
      using Cons.prems(2,3) False that by (auto simp: only_first_waits_def)
    have "queue_wait s (tid (tasks s c)) = Some c"
      using Cons.prems(2) False by (simp add: only_first_waits_def)
    define w where "w = waiting_after s p r ((queue_wait s)(tid (tasks s c) := None))"
    define t where "t = advance p r w (done_events p (sync s) c cs) s"
    have "triggerDone n c s = Some t"
      using serial_done[OF g _ idle, of n] Cons.prems(4) by (simp add: t_def w_def r_def)
    then have step: "triggerDone_id n (tid (tasks s c)) s = Some (True, t)"
      using \<open>queue_wait s (tid (tasks s c)) = Some c\<close> by (simp add: triggerDone_id_def)
    have "group Serials p r t"
      using group_advance[of Serials p "c # takeWhile (sync s) cs" r] g by (simp add: t_def r_def)
    moreover have "only_first_waits r cs t"
      unfolding t_def w_def using Cons.prems(3) idle set_dropWhileD
      by (intro waits_after) (auto simp: r_def)
    ultimately have "\<exists>s'. replies n (map (\<lambda>c. tid (tasks t c)) cs) t = Some s' \<and>
        events s' = events t @ reply_events p (sync t) cs"
      using Cons.prems(3,4) by (intro Cons.IH) (simp_all add: t_def r_def)
    then show ?thesis using step False by (simp add: t_def)
  qed
qed simp

text \<open>All events of a series from the call of its first task to its last reply.\<close>

fun series_events :: "addr \<Rightarrow> (addr \<Rightarrow> bool) \<Rightarrow> addr list \<Rightarrow> ev list" where
  "series_events p sy [] = []"
| "series_events p sy (c # cs) =
     Called c # Completed c # series_events p sy cs @ (if list_all sy cs then [Completed p] else [])"

lemma reply_events_sync: "list_all sy cs \<Longrightarrow> reply_events p sy cs = []"
  by (induction cs) auto

lemma series_split: "series_events p sy cs = call_events p sy cs @ reply_events p sy cs"
  by (induction cs) (auto simp: done_events_def reply_events_sync)

lemma series_order:
  "p \<notin> set cs \<Longrightarrow> filter (\<lambda>e. e \<noteq> Completed p) (series_events p sy cs) = concat (map (\<lambda>c. [Called c, Completed c]) cs)"
  by (induction cs) auto

lemma takeWhile_all_sync: "list_all sy cs \<Longrightarrow> takeWhile sy (rev cs @ xs) = rev cs @ takeWhile sy xs"
  by (subst takeWhile_append2) (auto simp: list_all_iff)

lemma series_done_count:
  "p \<notin> set cs \<Longrightarrow> count_list (series_events p sy cs) (Completed p)
     = min (length cs) (Suc (length (takeWhile sy (rev cs))))"
proof (induction cs)
  case (Cons c cs)
  show ?case
  proof (cases "list_all sy cs")
    case True
    have all: "length (takeWhile sy (rev cs)) = length cs"
      "length (takeWhile sy (rev cs @ [c])) = length cs + length (takeWhile sy [c])"
      by (simp_all only: takeWhile_all_sync[OF True, of "[]", simplified append_Nil2 takeWhile.simps]
          takeWhile_all_sync[OF True, of "[c]"] length_append length_rev)
    have "count_list (series_events p sy cs) (Completed p) = length cs"
      using Cons.IH Cons.prems all(1) by simp
    then show ?thesis using True all(2) Cons.prems by (simp add: count_list_append)
  next
    case False
    then obtain x where x: "x \<in> set (rev cs)" "\<not> sy x" by (auto simp: list_all_iff)
    then have "takeWhile sy (rev cs @ [c]) = takeWhile sy (rev cs)" by (rule takeWhile_append1)
    moreover have "length (takeWhile sy (rev cs)) < length cs"
      using x by (metis length_rev length_takeWhile_le le_neq_implies_less set_takeWhileD takeWhile_eq_all_conv
          takeWhile_eq_take take_all_iff le_refl)
    ultimately show ?thesis using Cons False by simp
  qed
qed simp

subsection \<open>A group from its construction to its last reply\<close>

text \<open>Tasks that the user has just made; \<open>sy\<close> tells which complete by themselves.\<close>

definition fresh :: "(addr \<Rightarrow> bool) \<Rightarrow> nat \<Rightarrow> nat \<Rightarrow> sched" where
  "fresh sy now i = \<lparr>tasks = (\<lambda>c. new_task (User (sy c)) now), next_id = i, queue_ready = [],
     queue_wait = Map.empty, wait_by_time = [], events = []\<rparr>"

text \<open>A group is made and emitted, one round runs, replies arrive; all events.\<close>

definition play :: "nat \<Rightarrow> nat \<Rightarrow> kind \<Rightarrow> addr \<Rightarrow> addr list \<Rightarrow> nat list \<Rightarrow> sched \<Rightarrow> ev list option" where
  "play n now k p cs rs s =
     Option.bind (emit 2 p (make_group k now p cs s)) (\<lambda>s.
     Option.bind (run_round n now s) (\<lambda>s. map_option events (replies n rs s)))"

lemma add_children:
  "p \<notin> set cs \<Longrightarrow> foldl (\<lambda>s c. addChildByOrder p c s) s cs = s\<lparr>tasks := (\<lambda>x.
     if x = p then (tasks s p)\<lparr>children_by_order := children_by_order (tasks s p) @ cs\<rparr>
     else if x \<in> set cs then (tasks s x)\<lparr>parent := Some p\<rparr> else tasks s x)\<rparr>"
proof (induction cs arbitrary: s)
  case Nil
  have same: "(\<lambda>x. if x = p then (tasks s p)\<lparr>children_by_order := children_by_order (tasks s p) @ []\<rparr>
     else if x \<in> set [] then (tasks s x)\<lparr>parent := Some p\<rparr> else tasks s x) = tasks s"
    by (simp add: fun_eq_iff)
  show ?case unfolding same by simp
next
  case (Cons c cs)
  then show ?case by (auto simp: addChildByOrder_def upd_task_def fun_eq_iff)
qed

lemma map_insert_last: "\<forall>kv\<in>set m. fst kv < k \<Longrightarrow> map_insert k v m = m @ [(k, v)]"
proof -
  assume less: "\<forall>kv\<in>set m. fst kv < k"
  then have "map_set k v m = m @ [(k, v)]" by (induction m) auto
  then show ?thesis using less by (auto simp: map_insert_def)
qed

lemma emit_children:
  assumes "distinct (p # cs)" "\<And>c. c \<in> set cs \<Longrightarrow> children_by_order (tasks s c) = []"
    and "\<forall>kv\<in>set (children (tasks s p)). fst kv < next_id s"
  shows "\<exists>s'. on_emit_children (Suc n) p cs s = Some s' \<and>
    map (\<lambda>c. tid (tasks s' c)) cs = [next_id s ..< next_id s + length cs] \<and>
    tasks s' p = (tasks s p)\<lparr>children := children (tasks s p) @ pairs s' cs\<rparr> \<and>
    (\<forall>c\<in>set cs. tasks s' c = (tasks s c)\<lparr>tid := tid (tasks s' c), attached := True\<rparr>) \<and>
    (\<forall>x. x \<noteq> p \<and> x \<notin> set cs \<longrightarrow> tasks s' x = tasks s x) \<and>
    queue_ready s' = queue_ready s \<and> queue_wait s' = queue_wait s \<and>
    wait_by_time s' = wait_by_time s \<and> events s' = events s"
  using assms
proof (induction cs arbitrary: s)
  case (Cons c cs)
  define i where "i = next_id s"
  define t where "t = (tasks s)(c := (tasks s c)\<lparr>tid := i, attached := True\<rparr>,
    p := (tasks s p)\<lparr>children := children (tasks s p) @ [(i, c)]\<rparr>)"
  define u where "u = s\<lparr>next_id := i + 1, tasks := t\<rparr>"
  have cp: "c \<noteq> p" "p \<noteq> c" "c \<notin> set cs" using Cons.prems(1) by auto
  have step: "on_emit_children (Suc n) p (c # cs) s = on_emit_children (Suc n) p cs u"
    using Cons.prems(2)[of c] cp map_insert_last[OF Cons.prems(3)]
    by (simp add: Let_def upd_task_def u_def t_def i_def)
  have "\<exists>s'. on_emit_children (Suc n) p cs u = Some s' \<and>
    map (\<lambda>c. tid (tasks s' c)) cs = [next_id u ..< next_id u + length cs] \<and>
    tasks s' p = (tasks u p)\<lparr>children := children (tasks u p) @ pairs s' cs\<rparr> \<and>
    (\<forall>c\<in>set cs. tasks s' c = (tasks u c)\<lparr>tid := tid (tasks s' c), attached := True\<rparr>) \<and>
    (\<forall>x. x \<noteq> p \<and> x \<notin> set cs \<longrightarrow> tasks s' x = tasks u x) \<and>
    queue_ready s' = queue_ready u \<and> queue_wait s' = queue_wait u \<and>
    wait_by_time s' = wait_by_time u \<and> events s' = events u"
    using Cons.prems cp by (intro Cons.IH) (auto simp: u_def t_def i_def)
  then obtain s' where s': "on_emit_children (Suc n) p cs u = Some s'"
    "map (\<lambda>c. tid (tasks s' c)) cs = [next_id u ..< next_id u + length cs]"
    "tasks s' p = (tasks u p)\<lparr>children := children (tasks u p) @ pairs s' cs\<rparr>"
    "\<And>d. d \<in> set cs \<Longrightarrow> tasks s' d = (tasks u d)\<lparr>tid := tid (tasks s' d), attached := True\<rparr>"
    "\<And>x. x \<noteq> p \<Longrightarrow> x \<notin> set cs \<Longrightarrow> tasks s' x = tasks u x"
    "queue_ready s' = queue_ready u" "queue_wait s' = queue_wait u"
    "wait_by_time s' = wait_by_time u" "events s' = events u"
    by blast
  have c: "tasks s' c = (tasks s c)\<lparr>tid := i, attached := True\<rparr>"
    using s'(5)[of c] cp by (simp add: u_def t_def)
  have "map (\<lambda>c. tid (tasks s' c)) (c # cs) = [next_id s ..< next_id s + length (c # cs)]"
    using s'(2) c by (simp add: u_def i_def upt_conv_Cons del: upt_Suc)
  moreover have "tasks s' p = (tasks s p)\<lparr>children := children (tasks s p) @ pairs s' (c # cs)\<rparr>"
    using s'(3) c cp by (simp add: u_def t_def)
  moreover have "tasks s' d = (tasks s d)\<lparr>tid := tid (tasks s' d), attached := True\<rparr>" if "d \<in> set (c # cs)" for d
  proof (cases "d = c")
    case True
    then show ?thesis using c by simp
  next
    case False
    then have "d \<in> set cs" "tasks u d = tasks s d" using that Cons.prems(1) by (auto simp: u_def t_def)
    then show ?thesis using s'(4)[of d] by simp
  qed
  moreover have "tasks s' x = tasks s x" if "x \<noteq> p" "x \<notin> set (c # cs)" for x
    using s'(5)[of x] that by (simp add: u_def t_def)
  ultimately show ?case using step s'(1,6-9) by (auto simp: u_def)
qed simp

lemma emit_group:
  assumes "distinct (p # cs)" "k = Serials \<or> k = Parallel"
  shows "\<exists>s. emit 2 p (make_group k now p cs (fresh sy now i)) = Some s \<and> group k p cs s \<and>
    map (\<lambda>c. tid (tasks s c)) cs = [Suc i ..< Suc i + length cs] \<and> tid (tasks s p) = i \<and>
    children_by_order (tasks s p) = cs \<and> timeout_ms (tasks s p) = -1 \<and> (\<forall>c\<in>set cs. sync s c = sy c) \<and>
    queue_ready s = [p] \<and> queue_wait s = Map.empty \<and> wait_by_time s = [] \<and> events s = []"
proof -
  define m where "m = make_group k now p cs (fresh sy now i)"
  have m: "m = (fresh sy now i)\<lparr>tasks := (\<lambda>x.
     if x = p then (new_task k now)\<lparr>children_by_order := cs\<rparr>
     else if x \<in> set cs then (new_task (User (sy x)) now)\<lparr>parent := Some p\<rparr> else new_task (User (sy x)) now)\<rparr>"
    using assms(1) by (simp add: m_def make_group_def add_children upd_task_def fun_eq_iff)
      (auto simp: fresh_def new_task_def)
  define u where "u = (upd_task p (\<lambda>x. x\<lparr>tid := i, attached := True\<rparr>) m)\<lparr>next_id := i + 1\<rparr>"
  have e: "emit 2 p m = map_option (\<lambda>s. s\<lparr>queue_ready := queue_ready s @ [p]\<rparr>) (on_emit_children 1 p cs u)"
    by (simp add: emit_def numeral_2_eq_2 Let_def u_def upd_task_def) (simp add: m fresh_def)
  have "\<exists>s'. on_emit_children (Suc 0) p cs u = Some s' \<and>
    map (\<lambda>c. tid (tasks s' c)) cs = [next_id u ..< next_id u + length cs] \<and>
    tasks s' p = (tasks u p)\<lparr>children := children (tasks u p) @ pairs s' cs\<rparr> \<and>
    (\<forall>c\<in>set cs. tasks s' c = (tasks u c)\<lparr>tid := tid (tasks s' c), attached := True\<rparr>) \<and>
    (\<forall>x. x \<noteq> p \<and> x \<notin> set cs \<longrightarrow> tasks s' x = tasks u x) \<and>
    queue_ready s' = queue_ready u \<and> queue_wait s' = queue_wait u \<and>
    wait_by_time s' = wait_by_time u \<and> events s' = events u"
    using assms(1) by (intro emit_children) (auto simp: u_def upd_task_def m new_task_def)
  then obtain s' where s': "on_emit_children (Suc 0) p cs u = Some s'"
    "map (\<lambda>c. tid (tasks s' c)) cs = [next_id u ..< next_id u + length cs]"
    "tasks s' p = (tasks u p)\<lparr>children := children (tasks u p) @ pairs s' cs\<rparr>"
    "\<And>d. d \<in> set cs \<Longrightarrow> tasks s' d = (tasks u d)\<lparr>tid := tid (tasks s' d), attached := True\<rparr>"
    "queue_ready s' = []" "queue_wait s' = Map.empty" "wait_by_time s' = []" "events s' = []"
    by (auto simp: u_def upd_task_def m fresh_def)
  have p: "tasks s' p = (new_task k now)\<lparr>children_by_order := cs, tid := i, attached := True, children := pairs s' cs\<rparr>"
    using s'(3) by (simp add: u_def upd_task_def m new_task_def)
  have c: "tasks s' d = (new_task (User (sy d)) now)\<lparr>parent := Some p, tid := tid (tasks s' d), attached := True\<rparr>"
    if "d \<in> set cs" for d
  proof -
    have "tasks u d = (new_task (User (sy d)) now)\<lparr>parent := Some p\<rparr>"
      using that assms(1) by (auto simp: u_def upd_task_def m)
    then show ?thesis by (subst s'(4)[OF that]) (simp add: new_task_def)
  qed
  have ids: "map (\<lambda>c. tid (tasks s' c)) cs = [Suc i ..< Suc i + length cs]"
    using s'(2) by (simp add: u_def)
  have u: "user_child p s' d" "sync s' d = sy d" if "d \<in> set cs" for d
    unfolding user_child_def sync_def
    using arg_cong[OF c[OF that], of kind] arg_cong[OF c[OF that], of parent]
      arg_cong[OF c[OF that], of attached] arg_cong[OF c[OF that], of timeout_ms]
    by (simp_all add: new_task_def)
  have "distinct (map (\<lambda>c. tid (tasks s' c)) (p # cs))"
    using ids p by (simp add: new_task_def del: set_map) (auto simp: ids)
  then have "group k p cs s'"
    using u assms(1) p by (simp add: group_def new_task_def)
  moreover have "group k p cs (s'\<lparr>queue_ready := [p]\<rparr>) = group k p cs s'"
    by (simp add: group_def user_child_def pairs_def)
  moreover have "sync (s'\<lparr>queue_ready := [p]\<rparr>) = sync s'" by (simp add: sync_def fun_eq_iff)
  ultimately show ?thesis using e s'(1,5-8) ids p u unfolding m_def[symmetric]
    by (intro exI[of _ "s'\<lparr>queue_ready := [p]\<rparr>"]) (simp add: new_task_def del: upt_Suc)
qed

lemma enter_advance:
  assumes "group k p cs s" "timeout_ms (tasks s t) = -1" "queue_wait s (tid (tasks s t)) = None"
  shows "observe (Called t) (enqueue_wait t s) = advance p cs ((queue_wait s)(tid (tasks s t) := Some t)) [Called t] s"
proof -
  have "group k p cs (advance p cs ((queue_wait s)(tid (tasks s t) := Some t)) [] s)"
    using group_advance[of k p "[]" cs] assms(1) by simp
  then show ?thesis using enqueue_wait_advance[OF assms] by (simp add: observe_advance)
qed

lemma group_round:
  assumes "group k p cs s" "k = Serials \<or> k = Parallel" "timeout_ms (tasks s p) = -1"
    "queue_wait s = Map.empty" "queue_ready s = [p]" "wait_by_time s = []" "children_by_order (tasks s p) = cs"
  shows "run_round (Suc (Suc n)) now s =
    (let s = advance p cs [tid (tasks s p) \<mapsto> p] [Called p] (s\<lparr>queue_ready := []\<rparr>)
     in if k = Serials then triggerFirstCall n p s else callAll n cs s)"
proof -
  define s0 where "s0 = s\<lparr>queue_ready := []\<rparr>"
  define s1 where "s1 = advance p cs [tid (tasks s p) \<mapsto> p] [Called p] s0"
  have s0: "s\<lparr>wait_by_time := [], queue_ready := []\<rparr> = s0"
    using assms(6) by (cases s) (simp add: s0_def)
  have "group k p cs s0"
    using assms(1) by (simp add: s0_def group_def user_child_def pairs_def)
  then have "observe (Called p) (enqueue_wait p s0) = s1"
    using enter_advance[of k p cs s0 p] assms(3,4) by (simp add: s1_def) (simp add: s0_def)
  moreover have "kind (tasks s1 p) = k" "children_by_order (tasks s1 p) = cs"
    using assms(1,7) by (simp_all add: s1_def s0_def group_def)
  ultimately have "triggerCall (Suc n) p s0 = (if k = Serials then triggerFirstCall n p s1 else callAll n cs s1)"
    using assms(2) by (auto simp: Let_def)
  moreover have "run_round (Suc (Suc n)) now s = triggerCall (Suc n) p s0"
    by (simp add: run_round_def assms(5,6) s0 del: triggerCall.simps split: option.splits)
  ultimately show ?thesis by (simp add: Let_def s1_def s0_def)
qed

lemma series_cong: "\<forall>c\<in>set cs. sy c = sy' c \<Longrightarrow> series_events p sy cs = series_events p sy' cs"
proof (induction cs)
  case (Cons c cs)
  then have "list_all sy cs = list_all sy' cs" by (intro list.pred_cong) auto
  then show ?case using Cons by simp
qed simp

text \<open>
  C26. A group of tasks in series, from its construction to the replies to all of its tasks in
  their order: the scheduler calls the group first, then calls and completes the tasks one
  after the other, each task only when its predecessor has completed. This holds whichever of
  the tasks complete by themselves inside of their call. But the group completes once, and once more
  for each of the last tasks that do so, as often as it has tasks at most: once when the last task
  waits for its reply, once for each task when all complete by themselves, and never when the group is empty.
\<close>

theorem series_in_order:
  assumes "distinct (p # cs)" "4 * length cs + 5 \<le> n"
  shows "\<exists>es. play n now Serials p cs [Suc i ..< Suc i + length cs] (fresh sy now i) = Some (Called p # es) \<and>
    filter (\<lambda>e. e \<noteq> Completed p) es = concat (map (\<lambda>c. [Called c, Completed c]) cs) \<and>
    count_list es (Completed p) = min (length cs) (Suc (length (takeWhile sy (rev cs))))"
proof -
  obtain s where s: "emit 2 p (make_group Serials now p cs (fresh sy now i)) = Some s" "group Serials p cs s"
    "map (\<lambda>c. tid (tasks s c)) cs = [Suc i ..< Suc i + length cs]" "tid (tasks s p) = i"
    "children_by_order (tasks s p) = cs" "timeout_ms (tasks s p) = -1" "\<forall>c\<in>set cs. sync s c = sy c"
    "queue_ready s = [p]" "queue_wait s = Map.empty" "wait_by_time s = []" "events s = []"
    using emit_group[OF assms(1), of Serials now sy i] by blast
  obtain m where m: "n = Suc (Suc (Suc m))" "4 * length cs \<le> m"
    using that[of "n - 3"] assms(2) by simp
  define s1 where "s1 = advance p cs [i \<mapsto> p] [Called p] (s\<lparr>queue_ready := []\<rparr>)"
  have g: "group Serials p cs s1"
    using s(2) group_advance[of Serials p "[]" cs "s\<lparr>queue_ready := []\<rparr>"]
    by (simp add: s1_def) (simp add: group_def user_child_def pairs_def)
  have sy: "sync s1 = sync s" "tid (tasks s1 c) = tid (tasks s c)" for c by (simp_all add: s1_def sync_def fun_eq_iff)
  have idle: "queue_wait s1 (tid (tasks s1 c)) = None" if "c \<in> set cs" for c
    using that s(2,4) sy by (auto simp: s1_def group_def image_iff)
  have ids: "map (\<lambda>c. tid (tasks s1 c)) cs = [Suc i ..< Suc i + length cs]" "distinct (map (\<lambda>c. tid (tasks s1 c)) (p # cs))"
    using s(3) g by (simp_all add: sy group_def)
  define r where "r = dropWhile (sync s) cs"
  have "\<exists>s2. run_round n now s = Some s2 \<and> only_first_waits r cs s2 \<and> group Serials p r s2 \<and>
    events s2 = Called p # call_events p (sync s) cs \<and> sync s2 = sync s \<and> (\<forall>c. tid (tasks s2 c) = tid (tasks s1 c))"
  proof (cases cs)
    case Nil
    then have "triggerFirstCall (Suc m) p s1 = Some s1" using g by (simp add: group_def)
    then have "run_round n now s = Some s1"
      using group_round[OF s(2) _ s(6,9,8,10,5), of "Suc m" now] s(4) by (simp add: m(1) s1_def)
    then show ?thesis using g sy s(11) by (auto simp: Nil r_def only_first_waits_def s1_def)
  next
    case (Cons c cs')
    define s2 where "s2 = advance p r (waiting_after s1 p r (queue_wait s1)) (call_events p (sync s) cs) s1"
    have "triggerCall m c s1 = Some s2"
      using serial_call[of p c cs' s1 m] g idle m(2) by (simp add: Cons s2_def r_def sy)
    then have "triggerFirstCall (Suc m) p s1 = Some s2"
      using g by (simp add: Cons group_def)
    then have "run_round n now s = Some s2"
      using group_round[OF s(2) _ s(6,9,8,10,5), of "Suc m" now] s(4) by (simp add: m(1) s1_def)
    moreover have "only_first_waits r cs s2"
      unfolding s2_def r_def using g idle set_dropWhileD by (intro waits_after) (auto simp: group_def)
    moreover have "group Serials p r s2"
      using group_suffix[OF g, of "sync s"] by (simp add: s2_def r_def)
    ultimately show ?thesis using s(11) sy by (auto simp: s2_def s1_def)
  qed
  then obtain s2 where s2: "run_round n now s = Some s2" "only_first_waits r cs s2" "group Serials p r s2"
    "events s2 = Called p # call_events p (sync s) cs" "sync s2 = sync s" "\<And>c. tid (tasks s2 c) = tid (tasks s1 c)"
    by blast
  obtain s' where "replies n [Suc i ..< Suc i + length cs] s2 = Some s'"
    "events s' = Called p # series_events p (sync s) cs"
    using serial_replies[of p s2 cs n] assms(2) ids s2 by (auto simp: r_def series_split)
  moreover have "series_events p (sync s) cs = series_events p sy cs"
    using s(7) by (intro series_cong) blast
  ultimately have "play n now Serials p cs [Suc i ..< Suc i + length cs] (fresh sy now i)
      = Some (Called p # series_events p sy cs)"
    by (simp add: play_def s(1) s2(1))
  then show ?thesis
    using series_order[of p cs sy] series_done_count[of p cs sy] assms(1) by auto
qed

lemma series_in_order_witness:
  "\<exists>es. play 17 0 Serials 1 [2, 3, 4] [5, 6, 7] (fresh (\<lambda>c. c = 4) 0 4) = Some (Called 1 # es) \<and>
    filter (\<lambda>e. e \<noteq> Completed 1) es = [Called 2, Completed 2, Called 3, Completed 3, Called 4, Completed 4] \<and>
    count_list es (Completed 1) = 2"
  using series_in_order[of 1 "[2, 3, 4]" 17 0 4 "\<lambda>c. c = 4"] by (simp add: upt_rec eval_nat_numeral)

subsection \<open>Tasks in parallel\<close>

lemma parallel_done:
  assumes "group Parallel p (as @ c # bs) s"
  shows "triggerDone (Suc (Suc (Suc n))) c s = Some (advance p (as @ bs)
    (if as @ bs = [] then (queue_wait s)(tid (tasks s p) := None, tid (tasks s c) := None)
     else (queue_wait s)(tid (tasks s c) := None))
    (Completed c # (if as @ bs = [] then [Completed p] else [])) s)"
proof -
  define s1 where "s1 = advance p (as @ c # bs) (queue_wait s) [Completed c] s"
  define s2 where "s2 = advance p (as @ bs) (queue_wait s) [Completed c] s"
  have g: "group Parallel p (as @ c # bs) s1"
    using group_advance[of Parallel p "[]"] assms by (simp add: s1_def)
  have c: "parent (tasks s1 c) = Some p" using group_user(2)[OF g, of c] by simp
  have s2: "erase_child p (tid (tasks s c)) s1 = s2"
    using erase_child_advance[OF g] by (simp add: s1_def s2_def)
  have g2: "group Parallel p (as @ bs) s2"
    using assms by (auto simp: s2_def group_def)
  have "child_done (Suc (Suc n)) p c s1 = (if as @ bs = [] then triggerDone (Suc n) p s2 else Some s2)"
  proof -
    have "kind (tasks s1 p) = Parallel" "tid (tasks s1 c) = tid (tasks s c)" "children (tasks s2 p) = [] \<longleftrightarrow> as @ bs = []"
      using g by (simp_all add: group_def s1_def s2_def)
    then show ?thesis by (simp add: s2 Let_def del: triggerDone.simps)
  qed
  moreover have "triggerDone (Suc n) p s2 = Some (advance p [] ((queue_wait s)(tid (tasks s p) := None)) [Completed c, Completed p] s)"
    if "as @ bs = []"
    using group_done[of Parallel p s2 n] g2 that by (simp add: s2_def)
  moreover have "erase_wait c (advance p xs w es s) = advance p xs (w(tid (tasks s c) := None)) es s" for xs w es
    by (simp add: erase_wait_def advance_def)
  ultimately show ?thesis
    using c observe_advance[OF assms, of "Completed c"] by (simp add: s2_def flip: s1_def)
qed

fun parallel_events :: "(addr \<Rightarrow> bool) \<Rightarrow> addr list \<Rightarrow> ev list" where
  "parallel_events sy [] = []"
| "parallel_events sy (c # cs) = Called c # (if sy c then [Completed c] else []) @ parallel_events sy cs"

lemma parallel_calls:
  assumes "group Parallel p (as @ cs) s" "length cs + 4 \<le> n"
    "\<And>c. c \<in> set cs \<Longrightarrow> queue_wait s (tid (tasks s c)) = None"
  shows "\<exists>w. callAll n cs s = Some (advance p (as @ filter (\<lambda>c. \<not> sync s c) cs) w
      (parallel_events (sync s) cs @ (if as = [] \<and> cs \<noteq> [] \<and> list_all (sync s) cs then [Completed p] else [])) s) \<and>
    (\<forall>c\<in>set cs. w (tid (tasks s c)) = (if sync s c then None else Some c)) \<and>
    (\<forall>i. i \<notin> (\<lambda>c. tid (tasks s c)) ` set (p # cs) \<longrightarrow> w i = queue_wait s i)"
  using assms
proof (induction cs arbitrary: as s n)
  case Nil
  then have "s = advance p as (queue_wait s) [] s"
    by (simp add: advance_def group_def fun_upd_idem)
  then show ?case by auto
next
  case (Cons c cs)
  obtain m where n: "n = Suc (Suc (Suc (Suc (Suc m))))" "length cs + 4 \<le> Suc (Suc (Suc (Suc m)))"
    using Cons.prems(2) that[of "n - 5"] by simp
  note u = group_user[OF Cons.prems(1), of c]
  have enter: "observe (Called c) (enqueue_wait c s) = advance p (as @ c # cs) ((queue_wait s)(tid (tasks s c) := Some c)) [Called c] s"
    (is "_ = ?s1")
    using enter_advance[OF Cons.prems(1)] u Cons.prems(3) by simp
  have g1: "group Parallel p (as @ c # cs) ?s1"
    using group_advance[of Parallel p "[]"] Cons.prems(1) by simp
  have call: "triggerCall (Suc (Suc (Suc (Suc m)))) c s =
      (if sync s c then triggerDone (Suc (Suc (Suc m))) c ?s1 else Some ?s1)"
    using u by (simp add: enter Let_def)
  have dist: "tid (tasks s d) \<noteq> tid (tasks s c)" if "d \<in> set as \<union> set cs" for d
    using that Cons.prems(1) by (auto simp: group_def image_iff)
  have distp: "tid (tasks s d) \<noteq> tid (tasks s p)" if "d \<in> set (as @ c # cs)" for d
    using that Cons.prems(1) by (auto simp: group_def image_iff)
  have new: "tid (tasks s c) \<notin> (\<lambda>c. tid (tasks s c)) ` set (p # cs)"
    using dist distp[of c] by force
  have cns: "c \<notin> set as" "c \<notin> set cs" using Cons.prems(1) by (auto simp: group_def)
  show ?case
  proof (cases "sync s c")
    case True
    define w where "w = (if as @ cs = [] then (queue_wait s)(tid (tasks s p) := None) else queue_wait s)"
    define t where "t = advance p (as @ cs) w (Called c # Completed c # (if as @ cs = [] then [Completed p] else [])) s"
    have "(queue_wait s)(tid (tasks s c) := None) = queue_wait s"
      "(queue_wait s)(tid (tasks s p) := None, tid (tasks s c) := None) = (queue_wait s)(tid (tasks s p) := None)"
      using Cons.prems(3)[of c] by (auto simp: fun_eq_iff)
    then have "triggerCall (Suc (Suc (Suc (Suc m)))) c s = Some t"
      using True distp[of c]
      by (simp add: call parallel_done[OF g1] t_def w_def fun_upd_twist del: triggerCall.simps triggerDone.simps)
    then have step: "callAll n (c # cs) s = callAll (Suc (Suc (Suc (Suc m)))) cs t"
      by (simp add: n(1) del: triggerCall.simps)
    have g: "group Parallel p (as @ cs) t" using Cons.prems(1) by (auto simp: t_def group_def)
    have "queue_wait t (tid (tasks t d)) = None" if "d \<in> set cs" for d
      using Cons.prems(3)[of d] that by (simp add: t_def w_def)
    from Cons.IH[OF g n(2) this] obtain w' where
      w': "callAll (Suc (Suc (Suc (Suc m)))) cs t = Some (advance p (as @ filter (\<lambda>c. \<not> sync t c) cs) w'
        (parallel_events (sync t) cs @ (if as = [] \<and> cs \<noteq> [] \<and> list_all (sync t) cs then [Completed p] else [])) t)"
      "\<forall>c\<in>set cs. w' (tid (tasks t c)) = (if sync t c then None else Some c)"
      "\<forall>i. i \<notin> (\<lambda>c. tid (tasks t c)) ` set (p # cs) \<longrightarrow> w' i = queue_wait t i"
      by blast
    have "w' (tid (tasks s c)) = queue_wait t (tid (tasks s c))"
      using w'(3) new by (simp add: t_def)
    then have "w' (tid (tasks s c)) = None" using Cons.prems(3)[of c] distp[of c] by (simp add: t_def w_def)
    then show ?thesis using True step w'
      by (intro exI[of _ w']) (auto simp: t_def w_def simp del: callAll.simps)
  next
    case False
    have g: "group Parallel p ((as @ [c]) @ cs) ?s1" using g1 by simp
    have "queue_wait ?s1 (tid (tasks ?s1 d)) = None" if "d \<in> set cs" for d
      using Cons.prems(3)[of d] that dist[of d] by simp
    from Cons.IH[OF g n(2) this] obtain w' where
      w': "callAll (Suc (Suc (Suc (Suc m)))) cs ?s1 = Some (advance p ((as @ [c]) @ filter (\<lambda>c. \<not> sync ?s1 c) cs) w'
        (parallel_events (sync ?s1) cs) ?s1)"
      "\<forall>c\<in>set cs. w' (tid (tasks ?s1 c)) = (if sync ?s1 c then None else Some c)"
      "\<forall>i. i \<notin> (\<lambda>c. tid (tasks ?s1 c)) ` set (p # cs) \<longrightarrow> w' i = queue_wait ?s1 i"
      by auto
    have "w' (tid (tasks s c)) = Some c"
      using w'(3) new by simp
    moreover have "callAll n (c # cs) s = callAll (Suc (Suc (Suc (Suc m)))) cs ?s1"
      using False by (simp add: n(1) call del: triggerCall.simps)
    ultimately show ?thesis using False w'
      by (intro exI[of _ w']) (auto simp del: callAll.simps)
  qed
qed

lemma parallel_replies:
  assumes "group Parallel p rem s" "set rem \<subseteq> set ds" "distinct (map (\<lambda>d. tid (tasks s d)) (p # ds))"
    and "\<And>d. d \<in> set ds \<Longrightarrow> queue_wait s (tid (tasks s d)) = (if d \<in> set rem then Some d else None)"
    and "3 \<le> n"
  shows "\<exists>s'. replies n (map (\<lambda>d. tid (tasks s d)) ds) s = Some s' \<and>
    events s' = events s @ map Completed (filter (\<lambda>d. d \<in> set rem) ds) @ (if rem = [] then [] else [Completed p])"
  using assms
proof (induction ds arbitrary: rem s)
  case (Cons d ds)
  show ?case
  proof (cases "d \<in> set rem")
    case False
    then have "triggerDone_id n (tid (tasks s d)) s = Some (False, s)"
      using Cons.prems(4)[of d] by (simp add: triggerDone_id_def)
    moreover have "\<exists>s'. replies n (map (\<lambda>d. tid (tasks s d)) ds) s = Some s' \<and>
      events s' = events s @ map Completed (filter (\<lambda>d. d \<in> set rem) ds) @ (if rem = [] then [] else [Completed p])"
      using Cons.prems False by (intro Cons.IH) auto
    ultimately show ?thesis using False by simp
  next
    case True
    then obtain as bs where rem: "rem = as @ d # bs" by (metis split_list)
    obtain m where m: "n = Suc (Suc (Suc m))" using \<open>3 \<le> n\<close> that[of "n - 3"] by simp
    define w where "w = (if as @ bs = [] then (queue_wait s)(tid (tasks s p) := None, tid (tasks s d) := None)
     else (queue_wait s)(tid (tasks s d) := None))"
    define t where "t = advance p (as @ bs) w (Completed d # (if as @ bs = [] then [Completed p] else [])) s"
    have "triggerDone n d s = Some t"
      using parallel_done[of p as d bs s m] Cons.prems(1) by (simp add: rem m t_def w_def)
    then have step: "triggerDone_id n (tid (tasks s d)) s = Some (True, t)"
      using True Cons.prems(4)[of d] by (simp add: triggerDone_id_def)
    have ds: "d \<notin> set ds" "d \<notin> set as" "d \<notin> set bs"
      using Cons.prems(1,3) by (auto simp: rem group_def)
    have "\<exists>s'. replies n (map (\<lambda>d. tid (tasks t d)) ds) t = Some s' \<and>
      events s' = events t @ map Completed (filter (\<lambda>e. e \<in> set (as @ bs)) ds) @ (if as @ bs = [] then [] else [Completed p])"
    proof (rule Cons.IH)
      show "group Parallel p (as @ bs) t" using Cons.prems(1) by (auto simp: t_def rem group_def)
      show "set (as @ bs) \<subseteq> set ds" using Cons.prems(2) ds by (auto simp: rem)
      show "distinct (map (\<lambda>d. tid (tasks t d)) (p # ds))" using Cons.prems(3) by (simp add: t_def)
      show "queue_wait t (tid (tasks t e)) = (if e \<in> set (as @ bs) then Some e else None)" if "e \<in> set ds" for e
      proof -
        have "tid (tasks s e) \<noteq> tid (tasks s d)" "tid (tasks s e) \<noteq> tid (tasks s p)" "e \<noteq> d"
          using Cons.prems(3) that by (auto simp: image_iff)
        then show ?thesis using Cons.prems(4)[of e] that by (auto simp: t_def w_def rem)
      qed
    qed (rule Cons.prems)
    moreover have "filter (\<lambda>e. e \<in> set (as @ bs)) ds = filter (\<lambda>e. e \<in> set rem) ds"
      using ds by (intro filter_cong) (auto simp: rem)
    ultimately show ?thesis using step True by (auto simp: t_def rem)
  qed
qed simp

text \<open>
  C27. A group of tasks in parallel, from its construction to the last reply, whatever the
  order of the replies and whichever of the tasks complete by themselves: all tasks are called
  in their order, each completes exactly once, the waiting ones in the order of the replies, and
  the group completes exactly once, when the last of its tasks has completed. An empty group
  never completes.
\<close>

theorem parallel_completes:
  assumes "distinct (p # cs)" "mset rs = mset [Suc i ..< Suc i + length cs]" "length cs + 6 \<le> n"
  shows "play n now Parallel p cs rs (fresh sy now i) = Some (Called p # parallel_events sy cs @
    map Completed (filter (\<lambda>c. \<not> sy c) (map (\<lambda>j. cs ! (j - Suc i)) rs)) @ (if cs = [] then [] else [Completed p]))"
proof -
  obtain s where s: "emit 2 p (make_group Parallel now p cs (fresh sy now i)) = Some s" "group Parallel p cs s"
    "map (\<lambda>c. tid (tasks s c)) cs = [Suc i ..< Suc i + length cs]" "tid (tasks s p) = i"
    "children_by_order (tasks s p) = cs" "timeout_ms (tasks s p) = -1" "\<forall>c\<in>set cs. sync s c = sy c"
    "queue_ready s = [p]" "queue_wait s = Map.empty" "wait_by_time s = []" "events s = []"
    using emit_group[OF assms(1), of Parallel now sy i] by blast
  obtain m where m: "n = Suc (Suc m)" "length cs + 4 \<le> m"
    using assms(3) that[of "n - 2"] by simp
  define s1 where "s1 = advance p cs [i \<mapsto> p] [Called p] (s\<lparr>queue_ready := []\<rparr>)"
  have g: "group Parallel p ([] @ cs) s1"
    using s(2) group_advance[of Parallel p "[]" cs "s\<lparr>queue_ready := []\<rparr>"]
    by (simp add: s1_def) (simp add: group_def user_child_def pairs_def)
  have sy: "sync s1 = sync s" "tid (tasks s1 c) = tid (tasks s c)" for c by (simp_all add: s1_def sync_def fun_eq_iff)
  have idle: "queue_wait s1 (tid (tasks s1 c)) = None" if "c \<in> set cs" for c
    using that s(2,4) sy by (auto simp: s1_def group_def image_iff)
  define rem where "rem = filter (\<lambda>c. \<not> sy c) cs"
  have rem: "filter (\<lambda>c. \<not> sync s c) cs = rem" "list_all (sync s) cs \<longleftrightarrow> rem = []"
    using s(7) by (auto simp: rem_def list_all_iff filter_empty_conv cong: filter_cong)
  have pe: "parallel_events (sync s) cs = parallel_events sy cs"
    using s(7) by (induction cs) auto
  define es where "es = parallel_events sy cs @ (if cs \<noteq> [] \<and> rem = [] then [Completed p] else [])"
  obtain w where w: "callAll m cs s1 = Some (advance p rem w es s1)"
    "\<And>c. c \<in> set cs \<Longrightarrow> w (tid (tasks s1 c)) = (if sync s1 c then None else Some c)"
    using parallel_calls[OF g m(2) idle] by (auto simp: sy rem pe es_def)
  define s2 where "s2 = advance p rem w es s1"
  have round: "run_round n now s = Some s2"
    using group_round[OF s(2) _ s(6,9,8,10,5), of m now] s(4) w(1) by (simp add: m(1) s1_def s2_def)
  define ds where "ds = map (\<lambda>j. cs ! (j - Suc i)) rs"
  have rs: "set rs = {Suc i ..< Suc i + length cs}" "distinct rs"
    using mset_eq_setD[OF assms(2)] mset_eq_imp_distinct_iff[OF assms(2)] by (simp_all del: upt_Suc)
  have tids: "tid (tasks s2 (cs ! (j - Suc i))) = j" if "j \<in> set rs" for j
  proof -
    have j: "Suc i \<le> j" "j - Suc i < length cs" using that rs(1) by auto
    then have "tid (tasks s (cs ! (j - Suc i))) = [Suc i ..< Suc i + length cs] ! (j - Suc i)"
      by (metis s(3) nth_map)
    then show ?thesis using j by (simp add: s2_def sy del: upt_Suc)
  qed
  have ids: "map (\<lambda>d. tid (tasks s2 d)) ds = rs"
    by (simp add: ds_def tids map_idI)
  have "map (\<lambda>j. cs ! (j - Suc i)) [Suc i ..< Suc i + length cs] = cs"
    by (rule nth_equalityI) (simp_all del: upt_Suc)
  then have "set ds = set cs"
    using mset_eq_setD[OF assms(2)] by (metis ds_def list.set_map)
  moreover have "map (\<lambda>d. tid (tasks s2 d)) (p # ds) = i # rs"
    using ids s(4) by (simp add: s2_def sy)
  then have "distinct (map (\<lambda>d. tid (tasks s2 d)) (p # ds))"
    using rs by simp
  moreover have "group Parallel p rem s2"
    using g by (auto simp: s2_def group_def rem_def distinct_map_filter)
  moreover have "set rem \<subseteq> set cs" by (auto simp: rem_def)
  moreover have "queue_wait s2 (tid (tasks s2 d)) = (if d \<in> set rem then Some d else None)" if "d \<in> set cs" for d
    using w(2)[OF that] that s(7) by (simp add: s2_def rem_def sy)
  ultimately have "\<exists>s'. replies n rs s2 = Some s' \<and>
    events s' = events s2 @ map Completed (filter (\<lambda>d. d \<in> set rem) ds) @ (if rem = [] then [] else [Completed p])"
    using parallel_replies[of p rem s2 ds n] assms(3) by (simp add: ids)
  moreover have "filter (\<lambda>d. d \<in> set rem) ds = filter (\<lambda>c. \<not> sy c) ds"
    using \<open>set ds = set cs\<close> by (intro filter_cong) (auto simp: rem_def)
  moreover have "filter (\<lambda>c. \<not> sy c) ds = []" if "rem = []"
    using that \<open>set ds = set cs\<close> by (auto simp: rem_def filter_empty_conv)
  ultimately show ?thesis
    using s(1,11) round by (auto simp: play_def s2_def es_def s1_def ds_def rem_def)
qed

lemma parallel_completes_witness:
  "play 9 0 Parallel 1 [2, 3, 4] [7, 5, 6] (fresh (\<lambda>c. c = 3) 0 4) =
    Some [Called 1, Called 2, Called 3, Completed 3, Called 4, Completed 4, Completed 2, Completed 1]"
  by (subst parallel_completes) (simp_all add: upt_rec)

subsection \<open>Timeouts\<close>

fun rounds :: "nat \<Rightarrow> nat list \<Rightarrow> sched \<Rightarrow> sched option" where
  "rounds n [] s = Some s"
| "rounds n (now # ts) s = Option.bind (run_round n now s) (rounds n ts)"

lemma idle_rounds: "wait_by_time s = [] \<Longrightarrow> queue_ready s = [] \<Longrightarrow> rounds n ts s = Some s"
proof (induction ts)
  case (Cons now ts)
  have same: "s\<lparr>wait_by_time := [], queue_ready := []\<rparr> = s" using Cons.prems by (cases s) simp
  show ?case using Cons by (simp add: run_round_def same)
qed simp

text \<open>
  The entry of a task in \<open>wait_by_time_\<close> stays when the task completes: a task that was
  answered in time still gets \<open>timeout()\<close> in the first round after its time has passed.
\<close>

theorem timeout_after_done:
  assumes "T \<noteq> -1" "T \<le> word_of_int (int now' - int now)"
  shows "Option.bind (emit 1 c (upd_task c (\<lambda>x. x\<lparr>timeout_ms := T\<rparr>) (fresh (\<lambda>_. False) now i))) (\<lambda>s.
    Option.bind (run_round 3 now s) (\<lambda>s. Option.bind (triggerDone_id 1 i s) (\<lambda>(found, s).
    map_option (\<lambda>s. (found, events s, queue_wait s i)) (run_round 0 now' s))))
    = Some (True, [Called c, Completed c, TimedOut c], None)"
  using assms
  by (simp add: emit_def upd_task_def fresh_def new_task_def run_round_def Let_def observe_def enqueue_wait_def
      isNeverTimeout_def triggerDone_id_def erase_wait_def isTimeout_def elapsed_ms_def triggerTimeout_def
      numeral_3_eq_3)

lemma timeout_after_done_witness:
  "Option.bind (emit 1 5 (upd_task 5 (\<lambda>x. x\<lparr>timeout_ms := 200\<rparr>) (fresh (\<lambda>_. False) 1000 8))) (\<lambda>s.
    Option.bind (run_round 3 1000 s) (\<lambda>s. Option.bind (triggerDone_id 1 8 s) (\<lambda>(found, s).
    map_option (\<lambda>s. (found, events s, queue_wait s 8)) (run_round 0 1200 s))))
    = Some (True, [Called 5, Completed 5, TimedOut 5], None)"
  by (rule timeout_after_done) simp_all

text \<open>
  When a task of a group times out, the group sets its own timeout to zero, but a group
  that had none is not in \<open>wait_by_time_\<close>: whatever rounds follow, the group neither
  completes nor times out and waits for ever.
\<close>

theorem child_timeout_lost:
  assumes "c \<noteq> p" "T \<noteq> -1" "T \<le> word_of_int (int now' - int now)" "k = Serials \<or> k = Parallel"
  shows "\<exists>s. Option.bind (emit 2 p (make_group k now p [c] (upd_task c (\<lambda>x. x\<lparr>timeout_ms := T\<rparr>)
      (fresh (\<lambda>_. False) now i)))) (rounds 6 (now # now' # ts)) = Some s \<and>
    events s = [Called p, Called c, TimedOut c] \<and> queue_wait s i = Some p \<and> timeout_ms (tasks s p) = 0"
proof -
  have "\<exists>s. Option.bind (emit 2 p (make_group k now p [c] (upd_task c (\<lambda>x. x\<lparr>timeout_ms := T\<rparr>)
      (fresh (\<lambda>_. False) now i)))) (rounds 6 [now, now']) = Some s \<and>
    events s = [Called p, Called c, TimedOut c] \<and> queue_wait s i = Some p \<and> timeout_ms (tasks s p) = 0 \<and>
    wait_by_time s = [] \<and> queue_ready s = []"
    using assms
    by (auto simp: emit_def make_group_def addChildByOrder_def upd_task_def fresh_def new_task_def run_round_def Let_def
      observe_def enqueue_wait_def isNeverTimeout_def erase_wait_def isTimeout_def elapsed_ms_def triggerTimeout_def
      child_timeout_def map_insert_def eval_nat_numeral)
  then obtain s where s: "Option.bind (emit 2 p (make_group k now p [c] (upd_task c (\<lambda>x. x\<lparr>timeout_ms := T\<rparr>)
      (fresh (\<lambda>_. False) now i)))) (rounds 6 [now, now']) = Some s"
    "events s = [Called p, Called c, TimedOut c]" "queue_wait s i = Some p" "timeout_ms (tasks s p) = 0"
    "rounds 6 ts s = Some s"
    using idle_rounds by blast
  have "rounds 6 (now # now' # ts) s0 = Option.bind (rounds 6 [now, now'] s0) (rounds 6 ts)" for s0
    by (auto split: bind_splits)
  then show ?thesis using s by (auto split: bind_splits)
qed

lemma child_timeout_lost_witness:
  "\<exists>s. Option.bind (emit 2 1 (make_group Serials 0 1 [2] (upd_task 2 (\<lambda>x. x\<lparr>timeout_ms := 50\<rparr>)
      (fresh (\<lambda>_. False) 0 1)))) (rounds 6 [0, 60, 100]) = Some s \<and>
    events s = [Called 1, Called 2, TimedOut 2] \<and> queue_wait s 1 = Some 1 \<and> timeout_ms (tasks s 1) = 0"
  by (rule child_timeout_lost) simp_all

end
