(* ===== verification/Async_Clone.thy ===== *)
theory Async_Clone
  imports Async
begin

text \<open>
  The rest of \<open>common/async.h\<close> and \<open>async.cpp\<close>: \<open>clone\<close>, with which a task can be scheduled a second
  time, and what a task does through its scheduler. A new object gets the next free address.
  The \<open>clone\<close> of a user-defined class is the parameter \<open>user_clone\<close>; the one of \<open>AsyncTask\<close> makes
  nothing.
\<close>

definition default_clone :: "task \<Rightarrow> task option" where
  "default_clone x = None"

fun clone :: "(task \<Rightarrow> task option) \<Rightarrow> nat \<Rightarrow> nat \<Rightarrow> addr \<Rightarrow> addr \<times> sched \<Rightarrow> (addr option \<times> addr \<times> sched) option"
  and clone_children :: "(task \<Rightarrow> task option) \<Rightarrow> nat \<Rightarrow> nat \<Rightarrow> addr list \<Rightarrow> addr \<times> sched \<Rightarrow> (addr list \<times> addr \<times> sched) option" where
  "clone user_clone 0 now t h = None"
| "clone user_clone (Suc n) now t (a, s) =
     (case kind (tasks s t) of
        User _ \<Rightarrow> (case user_clone (tasks s t) of
            None \<Rightarrow> Some (None, a, s)
          | Some x \<Rightarrow> Some (Some a, Suc a, upd_task a (\<lambda>_. x) s))
      | k \<Rightarrow> map_option (\<lambda>(cs, a, s). (Some a, Suc a, make_group k now a cs s))
          (clone_children user_clone n now (children_by_order (tasks s t)) (a, s)))"
| "clone_children user_clone n now [] (a, s) = Some ([], a, s)"
| "clone_children user_clone n now (c # cs) (a, s) =
     (case clone user_clone n now c (a, s) of
        None \<Rightarrow> None
      | Some (c', a, s) \<Rightarrow>
          map_option (\<lambda>(cs', a, s). (case c' of Some d \<Rightarrow> d # cs' | None \<Rightarrow> cs', a, s))
            (clone_children user_clone n now cs (a, s)))"

text \<open>\<open>AsyncTask::emit\<close> and \<open>emit_done\<close>: nothing before the task itself is emitted.\<close>

definition task_emit :: "nat \<Rightarrow> addr \<Rightarrow> addr \<Rightarrow> sched \<Rightarrow> sched option" where
  "task_emit n t u s = (if attached (tasks s t) then emit n u s else Some s)"

definition emit_done :: "nat \<Rightarrow> addr \<Rightarrow> sched \<Rightarrow> sched option" where
  "emit_done n t s = (if attached (tasks s t) then triggerDone n t s else Some s)"

text \<open>The new objects: one behind the other from the address \<open>a\<close> on.\<close>

definition copied :: "(task \<Rightarrow> task option) \<Rightarrow> addr \<Rightarrow> addr list \<Rightarrow> (addr \<Rightarrow> task) \<Rightarrow> addr \<Rightarrow> task" where
  "copied user_clone a ds T x = (if a \<le> x \<and> x < a + length ds then the (user_clone (T (ds ! (x - a)))) else T x)"

definition copies :: "(task \<Rightarrow> task option) \<Rightarrow> addr \<Rightarrow> addr list \<Rightarrow> sched \<Rightarrow> sched" where
  "copies user_clone a ds s = s\<lparr>tasks := copied user_clone a ds (tasks s)\<rparr>"

lemma copies_Nil [simp]: "copies user_clone a [] s = s"
proof -
  have "copied user_clone a [] (tasks s) = tasks s" by (auto simp: copied_def fun_eq_iff)
  then show ?thesis by (simp add: copies_def)
qed

lemma copied_Cons:
  assumes "\<forall>d\<in>set ds. d < a" "user_clone (T d) = Some x"
  shows "copied user_clone (Suc a) ds (T(a := x)) = copied user_clone a (d # ds) T"
proof
  fix y
  show "copied user_clone (Suc a) ds (T(a := x)) y = copied user_clone a (d # ds) T y"
  proof (cases "Suc a \<le> y \<and> y < Suc a + length ds")
    case True
    then have "ds ! (y - Suc a) \<in> set ds" "(d # ds) ! (y - a) = ds ! (y - Suc a)"
      by (auto simp: nth_Cons' intro: arg_cong[where f = "(!) ds"])
    then show ?thesis using True assms(1) by (auto simp: copied_def)
  next
    case False
    then show ?thesis using assms(2) by (cases "y = a") (auto simp: copied_def)
  qed
qed

lemma copies_Cons:
  "\<forall>d\<in>set ds. d < a \<Longrightarrow> user_clone (tasks s d) = Some x \<Longrightarrow>
   copies user_clone (Suc a) ds (upd_task a (\<lambda>_. x) s) = copies user_clone a (d # ds) s"
  by (simp add: copies_def upd_task_def copied_Cons)

lemma clone_children_users:
  assumes "\<forall>c\<in>set cs. c < a \<and> (\<exists>b. kind (tasks s c) = User b)"
  shows "let ds = filter (\<lambda>c. user_clone (tasks s c) \<noteq> None) cs in
    clone_children user_clone (Suc n) now cs (a, s) = Some ([a ..< a + length ds], a + length ds, copies user_clone a ds s)"
  using assms
proof (induction cs arbitrary: a s)
  case (Cons c cs)
  then obtain b where b: "kind (tasks s c) = User b" by auto
  show ?case
  proof (cases "user_clone (tasks s c)")
    case None
    then show ?thesis using Cons.IH[of a s] Cons.prems b by (simp add: Let_def)
  next
    case (Some x)
    define ds where "ds = filter (\<lambda>c. user_clone (tasks s c) \<noteq> None) cs"
    have below: "\<forall>c\<in>set cs. tasks (upd_task a (\<lambda>_. x) s) c = tasks s c"
      using Cons.prems by (auto simp: upd_task_def)
    then have "filter (\<lambda>c. user_clone (tasks (upd_task a (\<lambda>_. x) s) c) \<noteq> None) cs = ds"
      by (auto simp: ds_def intro: filter_cong)
    moreover have "\<forall>c\<in>set cs. c < Suc a \<and> (\<exists>b. kind (tasks (upd_task a (\<lambda>_. x) s) c) = User b)"
      using Cons.prems below by (auto simp: less_Suc_eq)
    moreover have "copies user_clone (Suc a) ds (upd_task a (\<lambda>_. x) s) = copies user_clone a (c # ds) s"
      using Cons.prems Some by (intro copies_Cons) (auto simp: ds_def)
    moreover have "[a ..< a + Suc (length ds)] = a # [Suc a ..< Suc a + length ds]" by (simp add: upt_conv_Cons del: upt_Suc)
    moreover have "filter (\<lambda>c. \<exists>y. user_clone (tasks s c) = Some y) cs = ds" by (simp add: ds_def)
    ultimately show ?thesis
      using Cons.IH[of "Suc a" "upd_task a (\<lambda>_. x) s"] b Some by (simp add: Let_def del: upt_Suc)
  qed
qed simp

subsection \<open>Properties\<close>

text \<open>
  The clone of a group of user-defined tasks is a new group of the same kind, with the clones of
  its tasks in their order; a task whose class does not override \<open>clone\<close> is left out. The group
  itself is as before.
\<close>

theorem group_cloned:
  assumes "kind (tasks s p) = k" "k = Serials \<or> k = Parallel"
    and "\<forall>c\<in>set (children_by_order (tasks s p)). c < a \<and> (\<exists>b. kind (tasks s c) = User b)"
  shows "let ds = filter (\<lambda>c. user_clone (tasks s c) \<noteq> None) (children_by_order (tasks s p)); q = a + length ds in
    clone user_clone (Suc (Suc n)) now p (a, s) =
      Some (Some q, Suc q, make_group k now q [a ..< q] (copies user_clone a ds s))"
  using clone_children_users[OF assms(3), of user_clone n now] assms(1,2)
  by (auto simp: Let_def)

theorem group_cloned_witness:
  "clone (\<lambda>x. if createtime x = 5 then Some x else None) 2 6 1
      (10, upd_task 3 (\<lambda>x. x\<lparr>createtime := 5\<rparr>) (make_group Parallel 4 1 [2, 3] (fresh (\<lambda>_. True) 4 1))) =
    Some (Some 11, 12, make_group Parallel 6 11 [10]
      (upd_task 10 (\<lambda>_. (new_task (User True) 4)\<lparr>createtime := 5, parent := Some 1\<rparr>)
        (upd_task 3 (\<lambda>x. x\<lparr>createtime := 5\<rparr>) (make_group Parallel 4 1 [2, 3] (fresh (\<lambda>_. True) 4 1)))))"
proof -
  define s where "s = upd_task 3 (\<lambda>x. x\<lparr>createtime := 5\<rparr>) (make_group Parallel 4 1 [2, 3] (fresh (\<lambda>_. True) 4 1))"
  have s: "kind (tasks s 1) = Parallel" "children_by_order (tasks s 1) = [2, 3]" "kind (tasks s 2) = User True"
    "kind (tasks s 3) = User True" "createtime (tasks s 2) = 4" "createtime (tasks s 3) = 5"
    "tasks s 3 = (new_task (User True) 4)\<lparr>createtime := 5, parent := Some 1\<rparr>"
    by (simp_all add: s_def make_group_def addChildByOrder_def upd_task_def fresh_def new_task_def)
  have "copies (\<lambda>x. if createtime x = 5 then Some x else None) 10 [3] s = upd_task 10 (\<lambda>_. tasks s 3) s"
    by (auto simp: copies_def copied_def upd_task_def fun_eq_iff s(6) intro!: arg_cong[where f = "\<lambda>T. s\<lparr>tasks := T\<rparr>"])
  then show ?thesis
    unfolding s_def[symmetric]
    using group_cloned[of s 1 Parallel 10 "\<lambda>x. if createtime x = 5 then Some x else None" 0 6] s
    by (simp add: numeral_2_eq_2)
qed

text \<open>
  C34. The clone of a group of tasks that do not override \<open>clone\<close> is called once and never completes:
  it has no tasks, and a group without tasks waits for ever, whatever rounds follow.
\<close>

theorem clone_never_completes:
  assumes "k = Serials \<or> k = Parallel" "distinct (p # cs)" "\<forall>x\<in>set (p # cs). x < a"
  shows "\<exists>s. Option.bind (clone default_clone 2 now p (a, make_group k now p cs (fresh sy now i)))
      (\<lambda>(q, _, s). Option.bind (emit 1 (the q) s) (rounds 3 (now' # ts))) = Some s \<and>
    events s = [Called a] \<and> queue_wait s i = Some a"
proof -
  define s0 where "s0 = make_group k now p cs (fresh sy now i)"
  have s0: "kind (tasks s0 p) = k" "children_by_order (tasks s0 p) = cs" "next_id s0 = i"
      "queue_ready s0 = []" "queue_wait s0 = Map.empty" "wait_by_time s0 = []" "events s0 = []"
      "\<forall>c\<in>set cs. kind (tasks s0 c) = User (sy c)"
    using assms(2) by (auto simp: s0_def make_group_def add_children upd_task_def fresh_def new_task_def)
  have "clone default_clone 2 now p (a, s0) = Some (Some a, Suc a, make_group k now a [] s0)"
    using clone_children_users[of cs a s0 default_clone 0 now] assms(1,3) s0
    by (auto simp: numeral_2_eq_2 default_clone_def Let_def)
  moreover obtain s where "Option.bind (emit 1 a (make_group k now a [] s0)) (rounds 3 [now']) = Some s"
      "events s = [Called a]" "queue_wait s i = Some a" "wait_by_time s = []" "queue_ready s = []"
    using assms(1) s0(3-7)
    by (auto simp: emit_def make_group_def upd_task_def new_task_def run_round_def Let_def observe_def
      enqueue_wait_def isNeverTimeout_def numeral_3_eq_3)
  moreover from this have "rounds 3 ts s = Some s" by (intro idle_rounds)
  moreover have "rounds 3 (now' # ts) s = Option.bind (rounds 3 [now'] s) (rounds 3 ts)" for s
    by (auto split: bind_splits)
  ultimately show ?thesis by (auto simp: s0_def[symmetric] split: bind_splits)
qed

theorem clone_never_completes_witness:
  "\<exists>s. Option.bind (clone default_clone 2 0 1 (10, make_group Parallel 0 1 [2, 3] (fresh (\<lambda>_. True) 0 7)))
      (\<lambda>(q, _, s). Option.bind (emit 1 (the q) s) (rounds 3 [5, 6, 7])) = Some s \<and>
    events s = [Called 10] \<and> queue_wait s 7 = Some 10"
  by (rule clone_never_completes) simp_all

end
