(* ===== verification/Net_Message.thy ===== *)
theory Net_Message
  imports Prelude
begin

text \<open>
  \<open>common/net_asio/message.h\<close> and \<open>net_asio/message_dispatcher.h\<close>: the header of a message
  on a TCP connection and the dispatcher for protobuf messages.

  A protobuf message type is an argument, \<open>parse :: bytes \<Rightarrow> 'm option\<close>. A null pointer to a
  message is \<open>None\<close>. Handlers act on a state \<open>'s\<close>; a bad cast of the additional arguments has
  no defined result and is the value \<open>None\<close>.
\<close>

subsection \<open>The header\<close>

text \<open>
  With \<open>#pragma pack(1)\<close>: one 32-bit word, \<open>size\<close> in its low 24 bits, then the flags, and the
  two bytes of the type. \<open>type\<close> is the union of the two.
\<close>

record net_header =
  bodysize :: u32
  zipped :: bool
  encrypt :: bool
  checksum :: bool
  reserved :: u8
  type_first :: u8
  type_second :: u8

definition net_header_size :: nat where
  "net_header_size = 6"

definition MessageHeader :: "u8 \<Rightarrow> u8 \<Rightarrow> net_header" where
  "MessageHeader t1 t2 = \<lparr>bodysize = 0, zipped = False, encrypt = False, checksum = False, reserved = 0,
     type_first = t1, type_second = t2\<rparr>"

definition load_header :: "bytes \<Rightarrow> net_header" where
  "load_header bs =
     (let w = get_le (take 4 bs) :: u32 in
      \<lparr>bodysize = w AND 0xffffff, zipped = bit w 24, encrypt = bit w 25, checksum = bit w 26,
       reserved = ucast (drop_bit 27 w), type_first = get_le (take 1 (drop 4 bs)),
       type_second = get_le (take 1 (drop 5 bs))\<rparr>)"

definition flag :: "nat \<Rightarrow> bool \<Rightarrow> u32" where
  "flag i b = push_bit i (of_bool b)"

definition header_word :: "net_header \<Rightarrow> u32" where
  "header_word h = (bodysize h AND 0xffffff) OR flag 24 (zipped h) OR flag 25 (encrypt h) OR
     flag 26 (checksum h) OR push_bit 27 (ucast (reserved h))"

definition store_header :: "net_header \<Rightarrow> bytes" where
  "store_header h = put_le 4 (header_word h) @ [type_first h, type_second h]"

definition type_of :: "net_header \<Rightarrow> u16" where
  "type_of h = get_le [type_first h, type_second h]"

text \<open>\<open>sizeof(MessageHeader) + size\<close>, computed in \<open>size_t\<close>.\<close>

definition msgsize :: "net_header \<Rightarrow> nat" where
  "msgsize h = net_header_size + unat (bodysize h)"

definition net_type_1 :: "u16 \<Rightarrow> u8" where
  "net_type_1 t = hd (put_le 2 t)"

definition net_type_2 :: "u16 \<Rightarrow> u8" where
  "net_type_2 t = hd (tl (put_le 2 t))"

definition make_type :: "u8 \<Rightarrow> u8 \<Rightarrow> u16" where
  "make_type t1 t2 = get_le [t1, t2]"

lemma length_store_header [simp]: "length (store_header h) = 6"
  by (simp add: store_header_def)

lemma bit_flag [bitw]: "i < 32 \<Longrightarrow> bit (flag i b) j \<longleftrightarrow> j = i \<and> b"
  by (auto simp: flag_def bit_simps)

lemma load_store_header:
  "load_header (store_header h @ rest) = h\<lparr>bodysize := bodysize h AND 0xffffff, reserved := reserved h AND mask 5\<rparr>"
proof -
  have "(get_le (put_le 4 (header_word h)) :: u32) = header_word h"
    by (simp add: get_put_le take_bit_word_eq_self)
  moreover have "header_word h AND 0xffffff = bodysize h AND 0xffffff"
    by (rule bit_word_eqI) (auto simp: header_word_def bitw bit_simps)
  moreover have "bit (header_word h) 24 = zipped h" "bit (header_word h) 25 = encrypt h" "bit (header_word h) 26 = checksum h"
    by (simp_all add: header_word_def bitw bit_simps)
  moreover have "ucast (drop_bit 27 (header_word h)) = reserved h AND mask 5"
    by (rule bit_word_eqI) (auto simp: header_word_def bitw bit_simps)
  ultimately show ?thesis
    by (cases h) (simp add: load_header_def store_header_def Let_def)
qed

lemma make_type_parts [simp]: "net_type_1 (make_type a b) = a" "net_type_2 (make_type a b) = b"
  by (simp_all add: net_type_1_def net_type_2_def make_type_def numeral_2_eq_2)
    (rule bit_word_eqI, auto simp: bit_simps)+

lemma make_type_inject [simp]: "make_type a b = make_type a' b' \<longleftrightarrow> a = a' \<and> b = b'"
  by (metis make_type_parts)

subsection \<open>Handlers\<close>

text \<open>The additional arguments of a dispatch, \<open>NoArgs\<close> for a null pointer.\<close>

datatype 'a args = NoArgs | Args_1 'a | Args_2 'a 'a

text \<open>\<open>ProtobufMsgHandlerT\<close> and its variants with a message and up to two arguments.\<close>

datatype ('m, 'a, 's) handler =
    HandlerT "'s \<Rightarrow> 's"
  | HandlerT_0 "'m option \<Rightarrow> 's \<Rightarrow> 's"
  | HandlerT_1 "'m option \<Rightarrow> 'a \<Rightarrow> 's \<Rightarrow> 's"
  | HandlerT_2 "'m option \<Rightarrow> 'a \<Rightarrow> 'a \<Rightarrow> 's \<Rightarrow> 's"

text \<open>
  \<open>process\<close>; \<open>dflt\<close> is the value-initialised argument \<open>T1()\<close>. The cast to the class of the
  arguments is not checked.
\<close>

fun process :: "'a \<Rightarrow> ('m, 'a, 's) handler \<Rightarrow> 'm option \<Rightarrow> 'a args \<Rightarrow> 's \<Rightarrow> 's option" where
  "process dflt (HandlerT f) msg args s = Some (f s)"
| "process dflt (HandlerT_0 f) msg args s = Some (f msg s)"
| "process dflt (HandlerT_1 f) msg args s =
     (case args of Args_1 a \<Rightarrow> Some (f msg a s) | NoArgs \<Rightarrow> Some (f msg dflt s) | Args_2 _ _ \<Rightarrow> None)"
| "process dflt (HandlerT_2 f) msg args s =
     (case args of Args_2 a b \<Rightarrow> Some (f msg a b s) | NoArgs \<Rightarrow> Some (f msg dflt dflt s) | Args_1 _ \<Rightarrow> None)"

record ('m, 'a, 's) msg_handler =
  msgtype :: u16
  newMessage :: "bytes \<Rightarrow> 'm option"
  run_handler :: "('m, 'a, 's) handler"

subsection \<open>The dispatcher\<close>

type_synonym ('m, 'a, 's) dispatcher = "u16 \<Rightarrow> ('m, 'a, 's) msg_handler option"

definition net_bind_handler :: "('m, 'a, 's) msg_handler option \<Rightarrow> ('m, 'a, 's) dispatcher \<Rightarrow> bool \<times> ('m, 'a, 's) dispatcher" where
  "net_bind_handler handler d =
     (case handler of
        None \<Rightarrow> (False, d)
      | Some h \<Rightarrow> if d (msgtype h) \<noteq> None then (False, d) else (True, d(msgtype h \<mapsto> h)))"

text \<open>\<open>bind0\<close> and the three variants of \<open>bind\<close>, for a message type with numbers and parser.\<close>

definition bind_msg :: "u8 \<Rightarrow> u8 \<Rightarrow> (bytes \<Rightarrow> 'm option) \<Rightarrow> ('m, 'a, 's) handler \<Rightarrow> ('m, 'a, 's) dispatcher
    \<Rightarrow> bool \<times> ('m, 'a, 's) dispatcher" where
  "bind_msg type1 type2 parse f d =
     net_bind_handler (Some \<lparr>msgtype = make_type type1 type2, newMessage = parse, run_handler = f\<rparr>) d"

definition makeMessage :: "u16 \<Rightarrow> bytes \<Rightarrow> ('m, 'a, 's) dispatcher \<Rightarrow> 'm option" where
  "makeMessage t body d = (case d t of None \<Rightarrow> None | Some h \<Rightarrow> newMessage h body)"

text \<open>\<open>dispatch_\<close> with the bytes of a message, and with a message.\<close>

definition net_dispatch :: "'a \<Rightarrow> u16 \<Rightarrow> bytes \<Rightarrow> 'a args \<Rightarrow> ('m, 'a, 's) dispatcher \<Rightarrow> 's \<Rightarrow> (bool \<times> 's) option" where
  "net_dispatch dflt t body args d s =
     (case d t of
        None \<Rightarrow> Some (False, s)
      | Some h \<Rightarrow> (case newMessage h body of
          None \<Rightarrow> Some (False, s)
        | Some m \<Rightarrow> map_option (Pair True) (process dflt (run_handler h) (Some m) args s)))"

definition dispatchMsg :: "'a \<Rightarrow> u16 \<Rightarrow> 'm option \<Rightarrow> 'a args \<Rightarrow> ('m, 'a, 's) dispatcher \<Rightarrow> 's \<Rightarrow> (bool \<times> 's) option" where
  "dispatchMsg dflt t msg args d s =
     (case d t of
        None \<Rightarrow> Some (False, s)
      | Some h \<Rightarrow> map_option (Pair False) (process dflt (run_handler h) msg args s))"

text \<open>The first binding of a type wins, and other types are untouched.\<close>

lemma bind_lookup:
  "snd (bind_msg a b parse f d) t = (if t = make_type a b \<and> d t = None
     then Some \<lparr>msgtype = make_type a b, newMessage = parse, run_handler = f\<rparr> else d t)"
  by (auto simp: bind_msg_def net_bind_handler_def)

lemma bind_result: "fst (bind_msg a b parse f d) \<longleftrightarrow> d (make_type a b) = None"
  by (simp add: bind_msg_def net_bind_handler_def)

text \<open>
  A received message goes to the handler of its type through \<open>makeMessage\<close> and \<open>dispatchMsg\<close>
  as it does through \<open>dispatch\<close>, apart from the result, which is always \<open>false\<close>.
\<close>

lemma dispatchMsg_makeMessage:
  "makeMessage t body d = Some m \<Longrightarrow>
     dispatchMsg dflt t (Some m) args d s = map_option (\<lambda>(_, s). (False, s)) (net_dispatch dflt t body args d s)"
  by (auto simp: makeMessage_def dispatchMsg_def net_dispatch_def option.map_comp o_def split: option.splits)

end
