(* ===== verification/Connection.thy ===== *)
theory Connection
  imports Net_Message
begin

text \<open>
  \<open>common/net_asio/connection.h\<close> and \<open>connection.cpp\<close>: one TCP connection, its states, the
  buffer of received bytes and its messages.

  The socket is what Boost.Asio documents: a pending \<open>async_read\<close> appends at least one byte
  to the buffer and then calls \<open>handle_read\<close>. The calls of the message handler, of the two
  error callbacks and of the state callback are observed through logs.
\<close>

subsection \<open>State of a connection\<close>

record conn =
  cid :: u32
  ctype :: u32
  state :: u16
  cname :: bytes
  socket_open :: bool
  reads_pending :: nat
  readbuf :: bytes
  inbox :: "bytes list"
  outbox :: "bytes list"
  state_log :: "(u16 \<times> u16) list"

abbreviation kState_Closed :: u16 where "kState_Closed \<equiv> 0"
abbreviation kState_Resolving :: u16 where "kState_Resolving \<equiv> 1"
abbreviation kState_Resolved :: u16 where "kState_Resolved \<equiv> 2"
abbreviation kState_Connecting :: u16 where "kState_Connecting \<equiv> 3"
abbreviation kState_Connected :: u16 where "kState_Connected \<equiv> 4"
abbreviation kState_Verifying :: u16 where "kState_Verifying \<equiv> 5"
abbreviation kState_Verified :: u16 where "kState_Verified \<equiv> 6"
abbreviation kState_Runing :: u16 where "kState_Runing \<equiv> 7"

definition new_conn :: conn where
  "new_conn = \<lparr>cid = 0, ctype = 0, state = kState_Closed, cname = [], socket_open = False, reads_pending = 0,
     readbuf = [], inbox = [], outbox = [], state_log = []\<rparr>"

definition stateDescription :: "u16 \<Rightarrow> string" where
  "stateDescription st =
     (if st = kState_Closed then ''closed''
      else if st = kState_Resolving then ''resolving''
      else if st = kState_Resolved then ''resolved''
      else if st = kState_Connecting then ''connecting''
      else if st = kState_Connected then ''connected''
      else if st = kState_Verifying then ''verifying''
      else if st = kState_Verified then ''verified''
      else if st = kState_Runing then ''running''
      else ''invalid'')"

definition set_state :: "u16 \<Rightarrow> ('a) conn_scheme \<Rightarrow> 'a conn_scheme" where
  "set_state st c = c\<lparr>state := st, state_log := state_log c @ [(state c, st)]\<rparr>"

definition isClosed :: "'a conn_scheme \<Rightarrow> bool" where
  "isClosed c \<longleftrightarrow> state c = kState_Closed"

text \<open>\<open>set_id\<close> with the allocator of temporary numbers, whose counter starts at 10000.\<close>

definition acquire_id :: "u32 \<Rightarrow> u32 \<times> u32" where
  "acquire_id i = (i + 1, i + 1)"

definition set_id :: "u32 \<Rightarrow> u32 \<Rightarrow> 'a conn_scheme \<Rightarrow> 'a conn_scheme \<times> u32" where
  "set_id i alloc c =
     (if i \<noteq> 0 then (c\<lparr>cid := i\<rparr>, alloc)
      else let (i, alloc) = acquire_id alloc in (c\<lparr>cid := i\<rparr>, alloc))"

definition asyncRead :: "'a conn_scheme \<Rightarrow> 'a conn_scheme" where
  "asyncRead c = c\<lparr>reads_pending := reads_pending c + 1\<rparr>"

definition conn_start :: "'a conn_scheme \<Rightarrow> 'a conn_scheme" where
  "conn_start c = asyncRead c"

definition conn_stop :: "'a conn_scheme \<Rightarrow> 'a conn_scheme" where
  "conn_stop c = c\<lparr>socket_open := False\<rparr>"

subsection \<open>Sending\<close>

text \<open>
  \<open>send\<close> of a protobuf message with bytes \<open>body\<close>. The size is cut to 24 bits, and
  \<open>SerializeToArray\<close> writes nothing when the array it is told of is too small; \<open>junk\<close> is what
  the new buffer then holds.
\<close>

definition message_bytes :: "(nat \<Rightarrow> u8) \<Rightarrow> u8 \<Rightarrow> u8 \<Rightarrow> bytes \<Rightarrow> bytes" where
  "message_bytes junk t1 t2 body =
     (let mh = (MessageHeader t1 t2)\<lparr>bodysize := of_nat (length body) AND 0xffffff\<rparr>
      in store_header mh @
         (if length body \<le> unat (bodysize mh) then body else map junk [0..<length body]))"

text \<open>
  The message is handed to \<open>async_write\<close>; \<open>outbox\<close> is what was handed over, in this order. What becomes of it
  on the socket is the relation \<open>writes\<close>.
\<close>

definition send :: "(nat \<Rightarrow> u8) \<Rightarrow> u8 \<Rightarrow> u8 \<Rightarrow> bytes \<Rightarrow> 'a conn_scheme \<Rightarrow> bool \<times> 'a conn_scheme" where
  "send junk t1 t2 body c =
     (if isClosed c then (False, c)
      else (True, c\<lparr>outbox := outbox c @ [message_bytes junk t1 t2 body]\<rparr>))"

text \<open>
  \<open>async_write\<close> passes its buffer to the socket in portions of any size; Boost.Asio keeps no order among
  writes that are under way at the same time, and asks the program not to start one before the last has
  completed. \<open>writes serial ms w ps\<close>: of the buffers \<open>ms\<close>, which are written one at a time if \<open>serial\<close>,
  the bytes \<open>w\<close> have been sent, and \<open>ps\<close> are left.
\<close>

inductive writes :: "bool \<Rightarrow> bytes list \<Rightarrow> bytes \<Rightarrow> bytes list \<Rightarrow> bool" for serial where
  writes_none: "writes serial [] [] []"
| writes_start: "writes serial ms w ps \<Longrightarrow> (serial \<longrightarrow> concat ps = []) \<Longrightarrow> writes serial (ms @ [m]) w (ps @ [m])"
| writes_some: "writes serial ms w ps \<Longrightarrow> i < length ps \<Longrightarrow> 0 < n \<Longrightarrow> n \<le> length (ps ! i) \<Longrightarrow>
    writes serial ms (w @ take n (ps ! i)) (ps[i := drop n (ps ! i)])"

text \<open>One at a time, the buffers are sent in their order.\<close>

lemma writes_serial_last: "writes True ms w ps \<Longrightarrow> concat (butlast ps) = [] \<and> w @ concat ps = concat ms"
proof (induction rule: writes.induct)
  case (writes_some ms w ps i n)
  then have "\<forall>p\<in>set (butlast ps). p = []" by simp
  moreover have "ps ! i \<in> set (butlast ps)" if "Suc i < length ps"
    using nth_mem[of i "butlast ps"] that by (simp add: nth_butlast)
  ultimately have "\<not> Suc i < length ps" using writes_some.hyps(3,4) by fastforce
  then have i: "i = length ps - 1" using writes_some.hyps(2) by simp
  obtain qs p where ps: "ps = qs @ [p]" using writes_some.hyps(2) by (cases ps rule: rev_cases) auto
  have "w @ concat qs @ p = concat ms" "concat qs = []" using writes_some.IH by (simp_all add: ps)
  then show ?case by (simp add: i ps del: concat_eq_Nil_conv)
qed simp_all

lemma writes_serial: "writes True ms w ps \<Longrightarrow> w @ concat ps = concat ms"
  using writes_serial_last by blast

subsection \<open>Receiving\<close>

text \<open>
  The loop of \<open>readMessages\<close> on the buffer and the messages handed over; it may run for
  ever, and then its value is \<open>None\<close>.
\<close>

partial_function (option) readMessages :: "bytes \<Rightarrow> bytes list \<Rightarrow> (bool \<times> bytes \<times> bytes list) option" where
  "readMessages buf out =
     (if net_header_size \<le> length buf
      then let mh = load_header buf in
        if bodysize mh > 8192 then Some (False, buf, out)
        else if msgsize mh \<le> length buf
        then readMessages (drop (msgsize mh) buf) (out @ [take (msgsize mh) buf])
        else readMessages buf out
      else Some (True, buf, out))"

text \<open>
  \<open>handle_read\<close>, with \<open>data\<close> the bytes that came in. In all of its paths the call of the virtual
  \<open>onReadError\<close> is the last step: \<open>receive\<close> is what comes before, with \<open>False\<close> when it is
  to be called.
\<close>

definition receive :: "bool \<Rightarrow> bytes \<Rightarrow> 'a conn_scheme \<Rightarrow> (bool \<times> 'a conn_scheme) option" where
  "receive err data c =
     (let c = c\<lparr>readbuf := readbuf c @ data\<rparr> in
      if \<not> err
      then (case readMessages (readbuf c) (inbox c) of
          None \<Rightarrow> None
        | Some (ok, buf, msgs) \<Rightarrow>
            let c = c\<lparr>readbuf := buf, inbox := msgs\<rparr>
            in Some (if ok then (True, asyncRead c) else (False, c)))
      else Some (False, c))"

definition handle_read :: "('a conn_scheme \<Rightarrow> 'a conn_scheme) \<Rightarrow> bool \<Rightarrow> bytes \<Rightarrow> 'a conn_scheme \<Rightarrow> 'a conn_scheme option" where
  "handle_read onReadError err data c =
     map_option (\<lambda>(ok, c). if ok then c else onReadError c) (receive err data c)"

definition handle_write :: "('a conn_scheme \<Rightarrow> 'a conn_scheme) \<Rightarrow> bool \<Rightarrow> 'a conn_scheme \<Rightarrow> 'a conn_scheme" where
  "handle_write onWriteError err c = (if \<not> err then c else onWriteError c)"

text \<open>The callbacks of the base class.\<close>

definition base_onError :: "('a conn_scheme \<Rightarrow> 'a conn_scheme) option \<Rightarrow> 'a conn_scheme \<Rightarrow> 'a conn_scheme" where
  "base_onError cb c = (case cb of None \<Rightarrow> c | Some f \<Rightarrow> f c)"

subsection \<open>Messages in a stream of bytes\<close>

text \<open>
  The specification: a stream is cut into the complete messages at its front and the rest,
  which starts with less than a header, an oversized header or an incomplete message.
\<close>

lemma msgsize_pos [simp]: "0 < msgsize h" "msgsize h \<noteq> 0"
  by (simp_all add: msgsize_def net_header_size_def)

function frames :: "bytes \<Rightarrow> bytes list \<times> bytes" where
  "frames buf =
     (if net_header_size \<le> length buf \<and> bodysize (load_header buf) \<le> 8192 \<and> msgsize (load_header buf) \<le> length buf
      then let (ms, rest) = frames (drop (msgsize (load_header buf)) buf)
        in (take (msgsize (load_header buf)) buf # ms, rest)
      else ([], buf))"
  by pat_completeness auto
termination
proof (relation "measure length")
  fix buf :: bytes
  assume "net_header_size \<le> length buf \<and> bodysize (load_header buf) \<le> 8192 \<and> msgsize (load_header buf) \<le> length buf"
  then show "(drop (msgsize (load_header buf)) buf, buf) \<in> measure length"
    using msgsize_pos(1)[of "load_header buf"] by (auto intro!: diff_less simp del: msgsize_pos)
qed simp

declare frames.simps [simp del]

definition complete :: "bytes \<Rightarrow> bool" where
  "complete buf \<longleftrightarrow> length buf < net_header_size"

definition oversized :: "bytes \<Rightarrow> bool" where
  "oversized buf \<longleftrightarrow> net_header_size \<le> length buf \<and> bodysize (load_header buf) > 8192"

lemma readMessages_frames:
  assumes "complete (snd (frames buf)) \<or> oversized (snd (frames buf))"
  shows "readMessages buf out = Some (complete (snd (frames buf)), snd (frames buf), out @ fst (frames buf))"
  using assms
proof (induction buf arbitrary: out rule: frames.induct)
  case (1 buf)
  show ?case
  proof (cases "net_header_size \<le> length buf \<and> bodysize (load_header buf) \<le> 8192 \<and> msgsize (load_header buf) \<le> length buf")
    case True
    let ?n = "msgsize (load_header buf)"
    obtain ms rest where fr: "frames (drop ?n buf) = (ms, rest)" by fastforce
    then have "frames buf = (take ?n buf # ms, rest)" using True by (subst frames.simps) simp
    then show ?thesis using 1 True fr by (subst readMessages.simps) (simp add: Let_def not_less)
  next
    case False
    then have "frames buf = ([], buf)" by (subst frames.simps) auto
    then show ?thesis using 1 False
      by (subst readMessages.simps) (auto simp: complete_def oversized_def Let_def not_less)
  qed
qed

lemma readMessages_returns:
  assumes "readMessages buf out = Some r"
  shows "complete (snd (frames buf)) \<or> oversized (snd (frames buf))"
proof (rule readMessages.raw_induct[of "\<lambda>buf out r. complete (snd (frames buf)) \<or> oversized (snd (frames buf))", OF _ assms])
  fix rM :: "bytes \<Rightarrow> bytes list \<Rightarrow> (bool \<times> bytes \<times> bytes list) option" and buf out r
  assume IH: "\<And>buf out r. rM buf out = Some r \<Longrightarrow> complete (snd (frames buf)) \<or> oversized (snd (frames buf))"
    and body: "(if net_header_size \<le> length buf
      then let mh = load_header buf in
        if bodysize mh > 8192 then Some (False, buf, out)
        else if msgsize mh \<le> length buf then rM (drop (msgsize mh) buf) (out @ [take (msgsize mh) buf])
        else rM buf out
      else Some (True, buf, out)) = Some r"
  show "complete (snd (frames buf)) \<or> oversized (snd (frames buf))"
  proof (cases "net_header_size \<le> length buf \<and> bodysize (load_header buf) \<le> 8192 \<and> msgsize (load_header buf) \<le> length buf")
    case True
    have "snd (frames buf) = snd (frames (drop (msgsize (load_header buf)) buf))"
      using True by (subst frames.simps) (simp add: split_beta)
    then show ?thesis using True body IH[of "drop (msgsize (load_header buf)) buf"]
      by (simp add: Let_def flip: not_le)
  next
    case False
    then have "frames buf = ([], buf)" by (subst frames.simps) auto
    then show ?thesis using False body IH[of buf out r]
      by (auto simp: complete_def oversized_def Let_def split: if_splits)
  qed
qed

lemma readMessages_exact:
  "readMessages buf out = (if complete (snd (frames buf)) \<or> oversized (snd (frames buf))
     then Some (complete (snd (frames buf)), snd (frames buf), out @ fst (frames buf)) else None)"
proof (cases "complete (snd (frames buf)) \<or> oversized (snd (frames buf))")
  case False
  then have "readMessages buf out = None" by (meson not_None_eq readMessages_returns)
  then show ?thesis using False by simp
qed (simp add: readMessages_frames)

subsection \<open>Cutting a stream\<close>

lemma frames_short [simp]: "complete buf \<Longrightarrow> frames buf = ([], buf)"
  by (subst frames.simps) (auto simp: complete_def)

lemma load_header_append: "net_header_size \<le> length buf \<Longrightarrow> load_header (buf @ bs) = load_header buf"
  by (simp add: load_header_def net_header_size_def)

lemma frames_more:
  "frames (buf @ bs) = (fst (frames buf) @ fst (frames (snd (frames buf) @ bs)), snd (frames (snd (frames buf) @ bs)))"
proof (induction buf rule: frames.induct)
  case (1 buf)
  show ?case
  proof (cases "net_header_size \<le> length buf \<and> bodysize (load_header buf) \<le> 8192 \<and> msgsize (load_header buf) \<le> length buf")
    case True
    let ?n = "msgsize (load_header buf)"
    obtain ms rest where fr: "frames (drop ?n buf) = (ms, rest)" by fastforce
    have "frames buf = (take ?n buf # ms, rest)" using True fr by (subst frames.simps) simp
    moreover have "frames (buf @ bs) = (take ?n buf # fst (frames (drop ?n buf @ bs)), snd (frames (drop ?n buf @ bs)))"
      using True by (subst frames.simps) (simp add: load_header_append split_beta)
    ultimately show ?thesis using 1[OF True] fr by simp
  next
    case False
    then have "frames buf = ([], buf)" by (subst frames.simps) auto
    then show ?thesis by simp
  qed
qed

definition valid_message :: "bytes \<Rightarrow> bool" where
  "valid_message m \<longleftrightarrow> length m = msgsize (load_header m) \<and> bodysize (load_header m) \<le> 8192"

lemma frames_valid: "list_all valid_message ms \<Longrightarrow> frames (concat ms @ rest) = (ms @ fst (frames rest), snd (frames rest))"
proof (induction ms)
  case (Cons m ms)
  have len: "net_header_size \<le> length m" using Cons.prems by (simp add: valid_message_def msgsize_def)
  then have "frames ((m @ concat ms) @ rest) = (let (ms, rest) = frames (concat ms @ rest) in (m # ms, rest))"
    using Cons.prems by (subst frames.simps) (simp add: load_header_append valid_message_def)
  then show ?case using Cons by simp
qed simp

lemma frames_sound: "concat (fst (frames buf)) @ snd (frames buf) = buf \<and> list_all valid_message (fst (frames buf))"
proof (induction buf rule: frames.induct)
  case (1 buf)
  show ?case
  proof (cases "net_header_size \<le> length buf \<and> bodysize (load_header buf) \<le> 8192 \<and> msgsize (load_header buf) \<le> length buf")
    case True
    let ?m = "take (msgsize (load_header buf)) buf"
    have "net_header_size \<le> length ?m" using True by (simp add: msgsize_def)
    then have "load_header ?m = load_header buf"
      using load_header_append[of ?m "drop (msgsize (load_header buf)) buf"] by simp
    then have "valid_message ?m" using True by (simp add: valid_message_def)
    then show ?thesis using 1[OF True] True by (subst (1 2 3) frames.simps) (simp add: split_beta)
  next
    case False
    then show ?thesis by (subst (1 2 3) frames.simps) auto
  qed
qed

lemma message_bytes_valid:
  assumes "length body \<le> 8192"
  shows "valid_message (message_bytes junk t1 t2 body)" "drop net_header_size (message_bytes junk t1 t2 body) = body"
    "type_of (load_header (message_bytes junk t1 t2 body)) = make_type t1 t2"
proof -
  let ?n = "of_nat (length body) AND 0xffffff :: u32"
  have n: "unat ?n = length body"
    using assms by (simp add: mask_numerals unat_and_mask unat_of_nat)
  then have m: "message_bytes junk t1 t2 body = store_header ((MessageHeader t1 t2)\<lparr>bodysize := ?n\<rparr>) @ body"
    by (simp add: message_bytes_def)
  have h: "load_header (message_bytes junk t1 t2 body) = (MessageHeader t1 t2)\<lparr>bodysize := ?n\<rparr>"
    unfolding m load_store_header by (simp add: MessageHeader_def and.assoc)
  have "?n \<le> 8192" using n assms by (simp add: word_le_nat_alt)
  then show "valid_message (message_bytes junk t1 t2 body)"
    using n by (simp add: valid_message_def h msgsize_def) (simp add: m net_header_size_def)
  show "drop net_header_size (message_bytes junk t1 t2 body) = body"
    by (simp add: m net_header_size_def)
  show "type_of (load_header (message_bytes junk t1 t2 body)) = make_type t1 t2"
    by (simp add: h MessageHeader_def type_of_def make_type_def)
qed

subsection \<open>A stream in pieces\<close>

fun handle_reads :: "('a conn_scheme \<Rightarrow> 'a conn_scheme) \<Rightarrow> bytes list \<Rightarrow> 'a conn_scheme \<Rightarrow> 'a conn_scheme option" where
  "handle_reads onReadError [] c = Some c"
| "handle_reads onReadError (d # ds) c =
     (case handle_read onReadError False d c of None \<Rightarrow> None | Some c \<Rightarrow> handle_reads onReadError ds c)"

lemma all_le_Suc: "(\<forall>k\<le>Suc n. P k) \<longleftrightarrow> P 0 \<and> (\<forall>k\<le>n. P (Suc k))"
  by (metis Suc_le_mono le0 not0_implies_Suc)

lemma reads_exact:
  assumes "complete (readbuf c)" "\<forall>k\<le>length ds. \<not> oversized (snd (frames (readbuf c @ concat (take k ds))))"
  shows "handle_reads onReadError ds c =
    (if \<forall>k\<le>length ds. complete (snd (frames (readbuf c @ concat (take k ds))))
     then Some (c\<lparr>readbuf := snd (frames (readbuf c @ concat ds)),
       inbox := inbox c @ fst (frames (readbuf c @ concat ds)), reads_pending := reads_pending c + length ds\<rparr>)
     else None)"
  using assms
proof (induction ds arbitrary: c)
  case (Cons d ds)
  obtain ms r where fr: "frames (readbuf c @ d) = (ms, r)" by fastforce
  have more: "frames (readbuf c @ d @ x) = (ms @ fst (frames (r @ x)), snd (frames (r @ x)))" for x
    using frames_more[of "readbuf c @ d" x] fr by simp
  have over: "\<not> oversized r" "\<forall>k\<le>length ds. \<not> oversized (snd (frames (r @ concat (take k ds))))"
    using Cons.prems(2) by (auto simp: all_le_Suc more dest: spec[of _ 0])
      (metis Cons.prems(2) Suc_le_mono append_Nil2 concat.simps fr le0 length_Cons snd_conv take0 take_Suc_Cons)
  show ?case
  proof (cases "complete r")
    case True
    define c' where "c' = c\<lparr>readbuf := r, inbox := inbox c @ ms, reads_pending := reads_pending c + 1\<rparr>"
    have "handle_read onReadError False d c = Some c'"
      using True fr by (simp add: handle_read_def receive_def readMessages_exact asyncRead_def c'_def)
    then show ?thesis
      using Cons.IH[of c'] Cons.prems(1) over True
      by (simp add: c'_def all_le_Suc more)
  next
    case False
    then have "handle_read onReadError False d c = None"
      using fr over by (simp add: handle_read_def receive_def readMessages_exact)
    moreover have "\<not> (\<forall>k\<le>length (d # ds). complete (snd (frames (readbuf c @ concat (take k (d # ds))))))"
      using False fr by (auto intro!: exI[of _ 1])
    ultimately show ?thesis by simp
  qed
qed (simp add: handle_reads.simps)

text \<open>
  C6. A stream of bytes arrives in pieces, without an oversized header. The connection gets
  through it exactly if every piece ends at the end of a message or inside of a header; then
  the handler has got exactly the messages of the stream, in their order, and the start of
  the next header is kept. A piece that ends behind the header of an incomplete message
  makes \<open>readMessages\<close> loop for ever.
\<close>

theorem reads_deliver:
  assumes "complete (readbuf c)" "\<forall>k\<le>length ds. \<not> oversized (snd (frames (readbuf c @ concat (take k ds))))"
  shows "handle_reads onReadError ds c =
    (if \<forall>k\<le>length ds. complete (snd (frames (readbuf c @ concat (take k ds))))
     then Some (c\<lparr>readbuf := snd (frames (readbuf c @ concat ds)),
       inbox := inbox c @ fst (frames (readbuf c @ concat ds)), reads_pending := reads_pending c + length ds\<rparr>)
     else None)"
  by (rule reads_exact[OF assms])

lemma reads_deliver_witness:
  "handle_reads id [[0, 0, 0, 0, 1, 2, 1, 0, 0], [0, 3, 4, 7]] new_conn =
    Some (new_conn\<lparr>inbox := [[0, 0, 0, 0, 1, 2], [1, 0, 0, 0, 3, 4, 7]], reads_pending := 2\<rparr>)"
proof -
  have fr: "frames [] = ([], [])" "frames [0, 0, 0, 0, 1, 2, 1, 0, 0] = ([[0, 0, 0, 0, 1, 2]], [1, 0, 0])"
    "frames [0, 0, 0, 0, 1, 2, 1, 0, 0, 0, 3, 4, 7] = ([[0, 0, 0, 0, 1, 2], [1, 0, 0, 0, 3, 4, 7]], [])"
    by (simp_all add: frames.simps net_header_size_def load_header_def msgsize_def Let_def complete_def)
  have "handle_reads id [[0, 0, 0, 0, 1, 2, 1, 0, 0], [0, 3, 4, 7]] new_conn =
    (if \<forall>k\<le>Suc (Suc 0). complete (snd (frames (readbuf new_conn @ concat (take k [[0, 0, 0, 0, 1, 2, 1, 0, 0], [0, 3, 4, 7]]))))
     then Some (new_conn\<lparr>readbuf := [], inbox := [[0, 0, 0, 0, 1, 2], [1, 0, 0, 0, 3, 4, 7]], reads_pending := 2\<rparr>)
     else None)"
    by (subst reads_deliver) (simp_all add: all_le_Suc fr complete_def oversized_def net_header_size_def new_conn_def)
  then show ?thesis by (simp add: all_le_Suc fr complete_def net_header_size_def new_conn_def)
qed

end
