(* ===== verification/Net_Client.thy ===== *)
theory Net_Client
  imports Connection
begin

text \<open>
  \<open>common/net_asio/client.h\<close> and \<open>client.cpp\<close>: the client side of a connection, which
  resolves the address of its server, connects, and tries again by a timer.

  The asynchronous operations that are under way are counted in the state; \<open>client_do\<close> gives
  the handler that runs when one of them completes.
\<close>

record client = conn +
  retry_interval :: u32
  timer_armed :: bool
  resolves_pending :: nat
  connects_pending :: nat

definition new_client :: "u32 \<Rightarrow> client" where
  "new_client retry = conn.extend (new_conn\<lparr>cname := [99, 108, 105, 101, 110, 116]\<rparr>)
     \<lparr>retry_interval = retry, timer_armed = (retry > 0), resolves_pending = 0, connects_pending = 0\<rparr>"

definition client_start :: "client \<Rightarrow> client" where
  "client_start c = set_state kState_Resolving (c\<lparr>resolves_pending := resolves_pending c + 1\<rparr>)"

definition client_stop :: "client \<Rightarrow> client" where
  "client_stop c = set_state kState_Closed c"

definition start_connect :: "client \<Rightarrow> client" where
  "start_connect c = set_state kState_Connecting (c\<lparr>connects_pending := connects_pending c + 1\<rparr>)"

definition handle_resolve :: "bool \<Rightarrow> client \<Rightarrow> client" where
  "handle_resolve err c =
     (if err then set_state kState_Closed c
      else start_connect (set_state kState_Resolved c))"

definition handle_connect :: "bool \<Rightarrow> client \<Rightarrow> client" where
  "handle_connect err c =
     (if err then set_state kState_Closed c
      else set_state kState_Connected (conn_start c))"

definition handle_retry :: "client \<Rightarrow> client" where
  "handle_retry c = (if isClosed c then client_start c else c)\<lparr>timer_armed := True\<rparr>"

definition client_onError :: "client \<Rightarrow> client" where
  "client_onError c = set_state kState_Closed c"

text \<open>\<open>handle_message\<close>: the type and the message that are posted to the worker.\<close>

definition client_handle_message :: "('m, 'a, 's) dispatcher \<Rightarrow> bytes \<Rightarrow> (u16 \<times> 'm option) option" where
  "client_handle_message d msg =
     (let mh = load_header msg in
      if msgsize mh = length msg
      then (case makeMessage (type_of mh) (drop net_header_size msg) d of
          Some m \<Rightarrow> Some (type_of mh, Some m)
        | None \<Rightarrow> None)
      else None)"

subsection \<open>Completions\<close>

text \<open>A socket is opened by \<open>async_connect\<close>; the timer and each operation completes once.\<close>

datatype label = Stop | Retry | Resolve_done bool | Connect_done bool | Read_done bool bytes | Write_done bool

fun client_do :: "label \<Rightarrow> client \<Rightarrow> client option" where
  "client_do Stop c = Some (client_stop c)"
| "client_do Retry c = (if timer_armed c then Some (handle_retry (c\<lparr>timer_armed := False\<rparr>)) else None)"
| "client_do (Resolve_done err) c =
     (if resolves_pending c = 0 then None
      else Some (handle_resolve err (c\<lparr>resolves_pending := resolves_pending c - 1\<rparr>)))"
| "client_do (Connect_done err) c =
     (if connects_pending c = 0 then None
      else Some (handle_connect err (c\<lparr>connects_pending := connects_pending c - 1, socket_open := \<not> err\<rparr>)))"
| "client_do (Read_done err data) c =
     (if reads_pending c = 0 then None
      else handle_read client_onError err data (c\<lparr>reads_pending := reads_pending c - 1\<rparr>))"
| "client_do (Write_done err) c = Some (handle_write client_onError err c)"

fun client_run :: "label list \<Rightarrow> client \<Rightarrow> client option" where
  "client_run [] c = Some c"
| "client_run (l # ls) c = Option.bind (client_do l c) (client_run ls)"

text \<open>The states that are reached when nobody calls \<open>stop\<close> and no write fails.\<close>

definition ordinary :: "label \<Rightarrow> bool" where
  "ordinary l \<longleftrightarrow> l \<noteq> Stop \<and> l \<noteq> Write_done True"

inductive client_reach :: "u32 \<Rightarrow> client \<Rightarrow> bool" for retry where
  reach_start: "client_reach retry (client_start (new_client retry))"
| reach_step: "client_reach retry c \<Longrightarrow> ordinary l \<Longrightarrow> client_do l c = Some c' \<Longrightarrow> client_reach retry c'"

lemma reach_run: "client_reach retry c \<Longrightarrow> list_all ordinary ls \<Longrightarrow> client_run ls c = Some c' \<Longrightarrow> client_reach retry c'"
  by (induction ls arbitrary: c) (auto simp: bind_eq_Some_conv intro: reach_step)

definition pending :: "client \<Rightarrow> nat \<times> nat \<times> nat" where
  "pending c = (resolves_pending c, connects_pending c, reads_pending c)"

definition pending_of :: "u16 \<Rightarrow> nat \<times> nat \<times> nat" where
  "pending_of st =
     (if st = kState_Resolving then (1, 0, 0) else if st = kState_Connecting then (0, 1, 0)
      else if st = kState_Connected then (0, 0, 1) else (0, 0, 0))"

definition legal :: "u16 \<times> u16 \<Rightarrow> bool" where
  "legal t \<longleftrightarrow> t \<in> {(kState_Closed, kState_Resolving), (kState_Resolving, kState_Resolved),
     (kState_Resolved, kState_Connecting), (kState_Connecting, kState_Connected),
     (kState_Resolving, kState_Closed), (kState_Connecting, kState_Closed), (kState_Connected, kState_Closed)}"

definition client_inv :: "u32 \<Rightarrow> client \<Rightarrow> bool" where
  "client_inv retry c \<longleftrightarrow> state c \<in> {kState_Closed, kState_Resolving, kState_Connecting, kState_Connected} \<and>
     pending c = pending_of (state c) \<and> list_all legal (state_log c) \<and> (timer_armed c \<longleftrightarrow> retry > 0) \<and>
     (state c = kState_Connected \<longrightarrow> socket_open c)"

lemmas client_defs = client_inv_def pending_def pending_of_def legal_def set_state_def client_start_def start_connect_def
  handle_resolve_def handle_connect_def handle_retry_def client_onError_def conn_start_def asyncRead_def isClosed_def

lemma receive_client:
  assumes "receive err data c = Some (ok, c')"
  shows "resolves_pending c' = resolves_pending c" "connects_pending c' = connects_pending c"
    "state c' = state c" "state_log c' = state_log c" "timer_armed c' = timer_armed c" "socket_open c' = socket_open c"
    "reads_pending c' = (if ok then reads_pending c + 1 else reads_pending c)"
  using assms by (auto simp: receive_def asyncRead_def Let_def split: if_splits option.splits)

lemma client_do_inv:
  assumes "client_inv retry c" "ordinary l" "client_do l c = Some c'"
  shows "client_inv retry c'"
proof (cases l)
  case (Read_done err data)
  then obtain r where r: "reads_pending c \<noteq> 0"
    "receive err data (c\<lparr>reads_pending := reads_pending c - 1\<rparr>) = Some r"
    "c' = (case r of (ok, c) \<Rightarrow> if ok then c else client_onError c)"
    using assms(3) by (auto simp: handle_read_def simp del: split_paired_Ex split: if_splits)
  obtain ok c1 where c1: "r = (ok, c1)" by fastforce
  note r = r[unfolded c1]
  moreover note receive_client[OF r(2)]
  ultimately show ?thesis using assms(1) by (auto simp: client_defs split: if_splits)
qed (use assms in \<open>auto simp: client_defs ordinary_def handle_write_def split: if_splits\<close>)

text \<open>
  C23. Without \<open>stop\<close> and failed writes, whatever the order of completions: exactly one
  operation is under way, the one of the state, except in the state closed, where there is
  none; the connection changes its state only as documented (closed, resolving, resolved,
  connecting, connected, and back to closed on an error); connected means an open socket; and
  the retry timer is armed exactly when an interval was given.
\<close>

theorem client_lifecycle:
  assumes "client_reach retry c"
  shows "state c \<in> {kState_Closed, kState_Resolving, kState_Connecting, kState_Connected} \<and>
    pending c = pending_of (state c) \<and> list_all legal (state_log c) \<and> (timer_armed c \<longleftrightarrow> retry > 0) \<and>
    (state c = kState_Connected \<longrightarrow> socket_open c)"
proof -
  have "client_inv retry c" using assms
  proof induction
    case reach_start
    then show ?case by (simp add: client_defs new_client_def conn.defs new_conn_def)
  qed (rule client_do_inv)
  then show ?thesis by (simp add: client_inv_def)
qed

lemma client_lifecycle_witness:
  "\<exists>c. client_run [Resolve_done False, Connect_done True, Retry, Resolve_done False, Connect_done False]
      (client_start (new_client 500)) = Some c \<and> state c = kState_Connected \<and> pending c = (0, 0, 1) \<and> socket_open c"
proof -
  obtain c where c: "client_run [Resolve_done False, Connect_done True, Retry, Resolve_done False, Connect_done False]
      (client_start (new_client 500)) = Some c" "state c = kState_Connected"
    by (simp add: client_defs new_client_def conn.defs new_conn_def)
  have "client_reach 500 c"
    by (rule reach_run[OF reach_start _ c(1)]) (simp add: ordinary_def)
  from client_lifecycle[OF this] c show ?thesis by (simp add: pending_of_def)
qed

text \<open>
  \<open>stop\<close> only sets the state. Called while the client resolves, it is undone by the
  completion of the resolution, and the client connects all the same; called when the client
  is connected, the socket stays open and received messages still reach the handler.
\<close>

theorem client_stop_lost:
  assumes "valid_message msg"
  shows "map_option state (client_run [Stop, Resolve_done False, Connect_done False] (client_start (new_client retry)))
      = Some kState_Connected \<and>
    map_option (\<lambda>c. (state c, socket_open c, inbox c)) (client_run
      [Resolve_done False, Connect_done False, Stop, Read_done False msg] (client_start (new_client retry)))
      = Some (kState_Closed, True, [msg])"
  using frames_valid[of "[msg]" "[]"] assms
  by (simp add: client_defs new_client_def conn.defs new_conn_def client_stop_def handle_read_def receive_def
      readMessages_exact complete_def net_header_size_def)

lemma client_stop_lost_witness:
  "map_option (\<lambda>c. (state c, socket_open c, inbox c)) (client_run
    [Resolve_done False, Connect_done False, Stop, Read_done False [1, 0, 0, 0, 7, 8, 9]] (client_start (new_client 0)))
    = Some (kState_Closed, True, [[1, 0, 0, 0, 7, 8, 9]])"
  using client_stop_lost[of "[1, 0, 0, 0, 7, 8, 9]" 0]
  by (simp add: valid_message_def load_header_def msgsize_def net_header_size_def Let_def)

end
