(* ===== verification/Acceptor.thy ===== *)
theory Acceptor
  imports Net_Client
begin

text \<open>
  \<open>common/net_asio/connection_manager.*\<close>, \<open>acceptor.*\<close>, \<open>connector.cpp\<close> and
  \<open>io_service_pool.cpp\<close>: the connections of a server, by their numbers, and the round-robin
  choice of the service that runs a connection.

  The connections live in a store; an address stands for the shared pointer. The manager's
  map is the list of its entries in the order of the numbers.
\<close>

subsection \<open>Connection manager\<close>

type_synonym caddr = nat

record manager =
  store :: "caddr \<Rightarrow> conn"
  connections :: "(u32 \<times> caddr) list"

definition upd_conn :: "caddr \<Rightarrow> (conn \<Rightarrow> conn) \<Rightarrow> 'a manager_scheme \<Rightarrow> 'a manager_scheme" where
  "upd_conn a f s = s\<lparr>store := (store s)(a := f (store s a))\<rparr>"

text \<open>\<open>std::map::insert\<close> keeps an entry that is there.\<close>

definition conn_insert :: "u32 \<Rightarrow> caddr \<Rightarrow> (u32 \<times> caddr) list \<Rightarrow> (u32 \<times> caddr) list" where
  "conn_insert i a m = (if i \<in> fst ` set m then m else map_set i a m)"

definition manager_start :: "(conn \<Rightarrow> conn) \<Rightarrow> caddr \<Rightarrow> 'a manager_scheme \<Rightarrow> 'a manager_scheme" where
  "manager_start start a s =
     upd_conn a start (s\<lparr>connections := conn_insert (cid (store s a)) a (connections s)\<rparr>)"

definition manager_stop_id :: "u32 \<Rightarrow> 'a manager_scheme \<Rightarrow> 'a manager_scheme" where
  "manager_stop_id i s =
     (case map_of (connections s) i of
        Some a \<Rightarrow> (upd_conn a conn_stop s)\<lparr>connections := filter (\<lambda>(j, _). j \<noteq> i) (connections s)\<rparr>
      | None \<Rightarrow> s)"

definition manager_stop :: "caddr \<Rightarrow> 'a manager_scheme \<Rightarrow> 'a manager_scheme" where
  "manager_stop a s = manager_stop_id (cid (store s a)) s"

definition stop_all :: "'a manager_scheme \<Rightarrow> 'a manager_scheme" where
  "stop_all s = (foldl (\<lambda>s (i, a). upd_conn a conn_stop s) s (connections s))\<lparr>connections := []\<rparr>"

definition sendTo :: "(nat \<Rightarrow> u8) \<Rightarrow> u32 \<Rightarrow> u8 \<Rightarrow> u8 \<Rightarrow> bytes \<Rightarrow> 'a manager_scheme \<Rightarrow> 'a manager_scheme" where
  "sendTo junk i t1 t2 body s =
     (case map_of (connections s) i of
        Some a \<Rightarrow> upd_conn a (\<lambda>c. snd (send junk t1 t2 body c)) s
      | None \<Rightarrow> s)"

definition broadcastTo :: "(nat \<Rightarrow> u8) \<Rightarrow> u32 \<Rightarrow> u8 \<Rightarrow> u8 \<Rightarrow> bytes \<Rightarrow> 'a manager_scheme \<Rightarrow> 'a manager_scheme" where
  "broadcastTo junk ty t1 t2 body s =
     foldl (\<lambda>s (i, a). if ctype (store s a) = ty then upd_conn a (\<lambda>c. snd (send junk t1 t2 body c)) s else s)
       s (connections s)"

definition broadcastToAll :: "(nat \<Rightarrow> u8) \<Rightarrow> u8 \<Rightarrow> u8 \<Rightarrow> bytes \<Rightarrow> 'a manager_scheme \<Rightarrow> 'a manager_scheme" where
  "broadcastToAll junk t1 t2 body s =
     foldl (\<lambda>s (i, a). upd_conn a (\<lambda>c. snd (send junk t1 t2 body c)) s) s (connections s)"

definition manager_size :: "'a manager_scheme \<Rightarrow> nat" where
  "manager_size s = length (connections s)"

subsection \<open>Acceptor\<close>

record acceptor = manager +
  new_connection :: caddr
  next_addr :: caddr
  id_allocator :: u32
  listening :: bool

definition start_accept :: "acceptor \<Rightarrow> acceptor" where
  "start_accept s =
     (let (c, alloc) = set_id 0 (id_allocator s) (new_conn\<lparr>cname := [115, 101, 115, 115, 105, 111, 110]\<rparr>);
          a = next_addr s
      in s\<lparr>store := (store s)(a := set_state kState_Connecting c), new_connection := a, next_addr := a + 1,
           id_allocator := alloc\<rparr>)"

definition new_acceptor :: acceptor where
  "new_acceptor = \<lparr>store = (\<lambda>_. new_conn), connections = [], new_connection = 0, next_addr = 0,
     id_allocator = 10000, listening = False\<rparr>"

text \<open>\<open>listen\<close>, when the address resolves and can be bound.\<close>

definition listen :: "acceptor \<Rightarrow> acceptor" where
  "listen s = start_accept (s\<lparr>listening := True\<rparr>)"

text \<open>The socket of an accepted connection is open; \<open>Session\<close> adds nothing to \<open>Connection\<close>.\<close>

definition handle_accept :: "bool \<Rightarrow> acceptor \<Rightarrow> acceptor" where
  "handle_accept err s =
     start_accept
       (if \<not> err
        then upd_conn (new_connection s) (set_state kState_Connected)
          (manager_start conn_start (new_connection s)
            (upd_conn (new_connection s) (\<lambda>c. c\<lparr>socket_open := True\<rparr>) s))
        else s)"

definition handle_error :: "caddr \<Rightarrow> acceptor \<Rightarrow> acceptor" where
  "handle_error a s =
     (if \<not> isClosed (store s a)
      then manager_stop a (upd_conn a (set_state kState_Closed) s)
      else s)"

definition acceptor_close :: "acceptor \<Rightarrow> acceptor" where
  "acceptor_close s = stop_all (s\<lparr>listening := False\<rparr>)"

definition acceptor_handle_message :: "('m, 'a, 's) dispatcher \<Rightarrow> bytes \<Rightarrow> (u16 \<times> 'm option) option" where
  "acceptor_handle_message d msg =
     (let mh = load_header msg in
      if msgsize mh = length msg
      then Some (type_of mh, makeMessage (type_of mh) (drop net_header_size msg) d)
      else None)"

text \<open>A pending read of a connection completes; the error callback is \<open>handle_error\<close>.\<close>

definition acceptor_read :: "caddr \<Rightarrow> bool \<Rightarrow> bytes \<Rightarrow> acceptor \<Rightarrow> acceptor option" where
  "acceptor_read a err data s =
     (case receive err data ((store s a)\<lparr>reads_pending := reads_pending (store s a) - 1\<rparr>) of
        None \<Rightarrow> None
      | Some (ok, c) \<Rightarrow>
          let s = upd_conn a (\<lambda>_. c) s in Some (if ok then s else handle_error a s))"

subsection \<open>Connector\<close>

text \<open>
  \<open>connect\<close> makes a client with the given number and starts it through the manager; the
  clients are the connections of the store with the fields of \<open>client\<close> left out.
\<close>

definition connector_connect :: "caddr \<Rightarrow> u32 \<Rightarrow> u32 \<Rightarrow> u32 \<Rightarrow> 'a manager_scheme \<Rightarrow> bool \<times> 'a manager_scheme \<times> u32" where
  "connector_connect a i ty alloc s =
     (let (c, alloc) = set_id i alloc (conn.truncate (new_client 0));
          s = upd_conn a (\<lambda>_. c\<lparr>ctype := ty\<rparr>) s
      in (True, manager_start (set_state kState_Resolving) a s, alloc))"

subsection \<open>Services\<close>

record io_services =
  pool_size_of :: nat
  services :: "nat list"
  next_io_service :: nat

definition io_init :: "io_services \<Rightarrow> bool \<times> io_services" where
  "io_init p = (if pool_size_of p = 0 then (False, p)
     else (True, p\<lparr>services := services p @ [0..<pool_size_of p]\<rparr>))"

definition io_fini :: "io_services \<Rightarrow> io_services" where
  "io_fini p = p\<lparr>services := []\<rparr>"

text \<open>An index behind the end of the vector is undefined: \<open>None\<close>.\<close>

definition get_io_service :: "io_services \<Rightarrow> (nat \<times> io_services) option" where
  "get_io_service p =
     (if next_io_service p < length (services p)
      then Some (services p ! next_io_service p,
        p\<lparr>next_io_service := (if next_io_service p + 1 = length (services p) then 0 else next_io_service p + 1)\<rparr>)
      else None)"

fun get_services :: "nat \<Rightarrow> io_services \<Rightarrow> nat list option" where
  "get_services 0 p = Some []"
| "get_services (Suc n) p =
     (case get_io_service p of None \<Rightarrow> None | Some (i, p) \<Rightarrow> map_option ((#) i) (get_services n p))"

lemma get_services_mod:
  assumes "services p = [0..<m]" "next_io_service p = k mod m" "0 < m"
  shows "get_services n p = Some (map (\<lambda>i. i mod m) [k..<k + n])"
  using assms
proof (induction n arbitrary: p k)
  case (Suc n)
  define p' where "p' = p\<lparr>next_io_service := Suc k mod m\<rparr>"
  have "get_io_service p = Some (k mod m, p')"
    using Suc.prems by (auto simp: get_io_service_def p'_def mod_Suc)
  moreover have "get_services n p' = Some (map (\<lambda>i. i mod m) [Suc k..<Suc k + n])"
    using Suc.prems by (intro Suc.IH) (simp_all add: p'_def)
  ultimately show ?case by (simp add: upt_conv_Cons del: upt_Suc)
qed simp

text \<open>
  The services are taken in turn: the \<open>i\<close>-th connection gets the service \<open>i mod n\<close>, and no
  index is ever out of range.
\<close>

lemma round_robin:
  assumes "0 < m"
  shows "get_services n (snd (io_init \<lparr>pool_size_of = m, services = [], next_io_service = 0\<rparr>))
    = Some (map (\<lambda>i. i mod m) [0..<n])"
  using get_services_mod[of _ m 0 n] assms by (simp add: io_init_def)

subsection \<open>The sessions of a server\<close>

text \<open>
  What can happen to a server that has called \<open>listen\<close> once: it accepts (or fails to), a pending read
  completes, a write of an accepted connection fails, messages are sent, and the program stops connections,
  by the manager (one or all), by \<open>close\<close>, or by the method of the connection. The set holds the
  connections the program has stopped. The numbers of the connections do not wrap.
\<close>

inductive acc_reach :: "caddr set \<Rightarrow> acceptor \<Rightarrow> bool" where
  acc_listen: "acc_reach {} (listen new_acceptor)"
| acc_accept: "acc_reach S s \<Longrightarrow> next_addr s + 10001 < 2 ^ 32 \<Longrightarrow> acc_reach S (handle_accept err s)"
| acc_read: "acc_reach S s \<Longrightarrow> 0 < reads_pending (store s a) \<Longrightarrow> acceptor_read a err data s = Some s' \<Longrightarrow> acc_reach S s'"
| acc_write_failed: "acc_reach S s \<Longrightarrow> a < new_connection s \<Longrightarrow> acc_reach S (handle_error a s)"
| acc_send: "acc_reach S s \<Longrightarrow> acc_reach S (sendTo junk i t1 t2 body s)"
| acc_broadcast: "acc_reach S s \<Longrightarrow> acc_reach S (broadcastTo junk ty t1 t2 body s)"
| acc_broadcast_all: "acc_reach S s \<Longrightarrow> acc_reach S (broadcastToAll junk t1 t2 body s)"
| acc_conn_send: "acc_reach S s \<Longrightarrow> acc_reach S (upd_conn a (\<lambda>c. snd (send junk t1 t2 body c)) s)"
| acc_stop_id: "acc_reach S s \<Longrightarrow> acc_reach (S \<union> {a. map_of (connections s) i = Some a}) (manager_stop_id i s)"
| acc_stop: "acc_reach S s \<Longrightarrow> acc_reach (S \<union> {b. map_of (connections s) (cid (store s a)) = Some b}) (manager_stop a s)"
| acc_stop_all: "acc_reach S s \<Longrightarrow> acc_reach (S \<union> snd ` set (connections s)) (stop_all s)"
| acc_close: "acc_reach S s \<Longrightarrow> acc_reach (S \<union> snd ` set (connections s)) (acceptor_close s)"
| acc_conn_stop: "acc_reach S s \<Longrightarrow> a < new_connection s \<Longrightarrow> acc_reach (insert a S) (upd_conn a conn_stop s)"

lemma map_set_new:
  "k \<notin> fst ` set m \<Longrightarrow> set (map_set k v m) = insert (k, v) (set m)"
  "k \<notin> fst ` set m \<Longrightarrow> distinct (map fst m) \<Longrightarrow> distinct (map fst (map_set k v m))"
proof -
  show set: "set (map_set k v m) = insert (k, v) (set m)" if "k \<notin> fst ` set m" for m
    using that by (induction m) (auto split: if_splits)
  show "distinct (map fst (map_set k v m))" if "k \<notin> fst ` set m" "distinct (map fst m)"
    using that by (induction m) (auto simp: set)
qed

definition session_ok :: "conn \<Rightarrow> bool" where
  "session_ok c \<longleftrightarrow> (state c = kState_Connected \<and> reads_pending c = 1) \<or> state c = kState_Closed \<or>
     (state c = kState_Connecting \<and> reads_pending c = 0)"

definition conn_no :: "nat \<Rightarrow> u32" where
  "conn_no a = of_nat (a + 10001)"

definition acc_base :: "caddr set \<Rightarrow> acceptor \<Rightarrow> bool" where
  "acc_base S s \<longleftrightarrow> id_allocator s + 1 = conn_no (next_addr s) \<and> next_addr s + 10000 < 2 ^ 32 \<and>
     (\<forall>a<next_addr s. cid (store s a) = conn_no a) \<and> distinct (map fst (connections s)) \<and>
     (\<forall>i a. (i, a) \<in> set (connections s) \<longrightarrow> i = conn_no a \<and> a < next_addr s \<and> state (store s a) = kState_Connected) \<and>
     (\<forall>a<next_addr s. session_ok (store s a) \<and>
        (socket_open (store s a) \<longleftrightarrow> state (store s a) = kState_Connected \<and> a \<notin> S) \<and>
        (socket_open (store s a) \<longrightarrow> (conn_no a, a) \<in> set (connections s))) \<and>
     (\<forall>a\<ge>next_addr s. reads_pending (store s a) = 0)"

definition acc_inv :: "caddr set \<Rightarrow> acceptor \<Rightarrow> bool" where
  "acc_inv S s \<longleftrightarrow> acc_base S s \<and> next_addr s = new_connection s + 1 \<and> state (store s (new_connection s)) = kState_Connecting \<and>
     S \<subseteq> {..<new_connection s}"

lemma acc_baseI:
  assumes "id_allocator s + 1 = conn_no (next_addr s)" "next_addr s + 10000 < 2 ^ 32" "distinct (map fst (connections s))"
    and "\<And>a. a < next_addr s \<Longrightarrow> cid (store s a) = conn_no a" "\<And>a. a < next_addr s \<Longrightarrow> session_ok (store s a)"
    and "\<And>i a. (i, a) \<in> set (connections s) \<Longrightarrow> i = conn_no a \<and> a < next_addr s \<and> state (store s a) = kState_Connected"
    and "\<And>a. a < next_addr s \<Longrightarrow> socket_open (store s a) \<longleftrightarrow> state (store s a) = kState_Connected \<and> a \<notin> S"
    and "\<And>a. a < next_addr s \<Longrightarrow> socket_open (store s a) \<Longrightarrow> (conn_no a, a) \<in> set (connections s)"
    and "\<And>a. next_addr s \<le> a \<Longrightarrow> reads_pending (store s a) = 0"
  shows "acc_base S s"
  using assms unfolding acc_base_def by simp

lemma acc_baseD:
  assumes "acc_base S s"
  shows "id_allocator s + 1 = conn_no (next_addr s)" "next_addr s + 10000 < 2 ^ 32" "distinct (map fst (connections s))"
    "a < next_addr s \<Longrightarrow> cid (store s a) = conn_no a" "a < next_addr s \<Longrightarrow> session_ok (store s a)"
    "(i, a) \<in> set (connections s) \<Longrightarrow> i = conn_no a" "(i, a) \<in> set (connections s) \<Longrightarrow> a < next_addr s"
    "(i, a) \<in> set (connections s) \<Longrightarrow> state (store s a) = kState_Connected"
    "a < next_addr s \<Longrightarrow> socket_open (store s a) \<longleftrightarrow> state (store s a) = kState_Connected \<and> a \<notin> S"
    "a < next_addr s \<Longrightarrow> state (store s a) = kState_Connected \<Longrightarrow> a \<notin> S \<Longrightarrow> (conn_no a, a) \<in> set (connections s)"
    "next_addr s \<le> a \<Longrightarrow> reads_pending (store s a) = 0"
  using assms unfolding acc_base_def by blast+

lemma acc_invD:
  assumes "acc_inv S s"
  shows "acc_base S s" "next_addr s = Suc (new_connection s)" "state (store s (new_connection s)) = kState_Connecting"
    "S \<subseteq> {..<new_connection s}" "(i, a) \<in> set (connections s) \<Longrightarrow> a < new_connection s"
    "a < next_addr s \<Longrightarrow> state (store s a) = kState_Connected \<Longrightarrow> a < new_connection s"
proof -
  show inv: "acc_base S s" "next_addr s = Suc (new_connection s)" "state (store s (new_connection s)) = kState_Connecting"
    "S \<subseteq> {..<new_connection s}" using assms by (simp_all add: acc_inv_def)
  show last: "a < next_addr s \<Longrightarrow> state (store s a) = kState_Connected \<Longrightarrow> a < new_connection s" for a
    using inv(2,3) by (cases "a = new_connection s") simp_all
  show "(i, a) \<in> set (connections s) \<Longrightarrow> a < new_connection s"
    using last acc_baseD(7,8)[OF inv(1)] by blast
qed

lemma conn_no_inject: "a + 10001 < 2 ^ 32 \<Longrightarrow> b + 10001 < 2 ^ 32 \<Longrightarrow> conn_no a = conn_no b \<longleftrightarrow> a = b"
  by (auto simp: conn_no_def word_of_nat_eq_iff take_bit_nat_eq_self simp del: of_nat_add)

lemma conn_no_Suc: "conn_no a + 1 = conn_no (Suc a)"
  by (simp add: conn_no_def)

text \<open>Sending changes what is written only.\<close>

definition same_but_outbox :: "conn \<Rightarrow> conn \<Rightarrow> bool" where
  "same_but_outbox c c' \<longleftrightarrow> c' = c\<lparr>outbox := outbox c'\<rparr>"

lemma send_same [simp]: "same_but_outbox c (snd (send junk t1 t2 body c))"
  by (simp add: send_def same_but_outbox_def)

lemma same_trans: "same_but_outbox a b \<Longrightarrow> same_but_outbox b c \<Longrightarrow> same_but_outbox a c"
  unfolding same_but_outbox_def by (cases a; cases b; cases c) simp

definition sent :: "acceptor \<Rightarrow> acceptor \<Rightarrow> bool" where
  "sent s s' \<longleftrightarrow> (\<exists>f. (\<forall>a. same_but_outbox (store s a) (f a)) \<and> s' = s\<lparr>store := f\<rparr>)"

lemma sent_refl [simp]: "sent s s"
  by (auto simp: sent_def same_but_outbox_def intro!: exI[of _ "store s"])

lemma sent_trans: "sent s t \<Longrightarrow> sent t u \<Longrightarrow> sent s u"
  unfolding sent_def by (clarsimp, rename_tac f g, rule_tac x = g in exI) (auto intro: same_trans)

lemma sent_upd: "sent s (upd_conn a (\<lambda>c. snd (send junk t1 t2 body c)) s)"
proof -
  have "same_but_outbox c c" for c by (simp add: same_but_outbox_def)
  then show ?thesis
    by (auto simp: sent_def upd_conn_def intro!: exI[of _ "(store s)(a := snd (send junk t1 t2 body (store s a)))"])
qed

lemma sent_foldl: "(\<And>s x. sent s (f s x)) \<Longrightarrow> sent s (foldl f s xs)"
  by (induction xs arbitrary: s) (auto intro: sent_trans)

lemma sent_ops:
  "sent s (sendTo junk i t1 t2 body s)" "sent s (broadcastTo junk ty t1 t2 body s)"
  "sent s (broadcastToAll junk t1 t2 body s)"
  by (auto simp: sendTo_def broadcastTo_def broadcastToAll_def sent_upd split: option.splits intro!: sent_foldl)

lemma acc_inv_sent:
  assumes "acc_inv S s" "sent s s'"
  shows "acc_inv S s'"
proof -
  obtain f where f: "\<And>a. same_but_outbox (store s a) (f a)" "s' = s\<lparr>store := f\<rparr>"
    using assms(2) by (auto simp: sent_def)
  have c: "cid (f a) = cid (store s a)" "state (f a) = state (store s a)" "socket_open (f a) = socket_open (store s a)"
    "reads_pending (f a) = reads_pending (store s a)" "session_ok (f a) = session_ok (store s a)" for a
    using f(1)[of a] unfolding same_but_outbox_def session_ok_def
    by (cases "store s a"; cases "f a"; simp)+
  have "acc_base S s' = acc_base S s" by (simp add: acc_base_def f(2) c)
  then show ?thesis using assms(1) by (simp add: acc_inv_def f(2) c)
qed

lemma acc_inv_listen: "acc_inv {} (listen new_acceptor)"
  by (auto simp: acc_inv_def acc_base_def conn_no_def session_ok_def listen_def new_acceptor_def start_accept_def set_id_def acquire_id_def set_state_def
      new_conn_def Let_def)

lemma acc_base_start_accept:
  assumes "acc_base S s" "next_addr s + 10001 < 2 ^ 32" "S \<subseteq> {..<next_addr s}"
  shows "acc_inv S (start_accept s)"
proof -
  note d = acc_baseD[OF assms(1)]
  have t: "store (start_accept s) a = (if a = next_addr s then store (start_accept s) (next_addr s) else store s a)"
    "connections (start_accept s) = connections s" "next_addr (start_accept s) = Suc (next_addr s)"
    "new_connection (start_accept s) = next_addr s" "id_allocator (start_accept s) = conn_no (next_addr s)" for a
    using d(1) by (simp_all add: start_accept_def set_id_def acquire_id_def Let_def)
  have n: "cid (store (start_accept s) (next_addr s)) = conn_no (next_addr s)" "state (store (start_accept s) (next_addr s)) = kState_Connecting"
    "reads_pending (store (start_accept s) (next_addr s)) = 0" "\<not> socket_open (store (start_accept s) (next_addr s))"
    using d(1) by (simp_all add: start_accept_def set_id_def acquire_id_def set_state_def new_conn_def Let_def)
  have "acc_base S (start_accept s)"
  proof (rule acc_baseI)
    fix a
    assume a: "a < next_addr (start_accept s)"
    show "cid (store (start_accept s) a) = conn_no a" "session_ok (store (start_accept s) a)"
      "socket_open (store (start_accept s) a) \<longleftrightarrow> state (store (start_accept s) a) = kState_Connected \<and> a \<notin> S"
      using a n d(4,5,9)[of a] by (auto simp: t(1)[of a] t(3) less_Suc_eq session_ok_def)
    show "(conn_no a, a) \<in> set (connections (start_accept s))" if "socket_open (store (start_accept s) a)"
      using that a n(4) d(9,10)[of a] by (auto simp: t(1)[of a] t(2,3) less_Suc_eq split: if_splits)
  next
    fix i a
    assume "(i, a) \<in> set (connections (start_accept s))"
    then show "i = conn_no a \<and> a < next_addr (start_accept s) \<and> state (store (start_accept s) a) = kState_Connected"
      using d(6-8)[of i a] by (auto simp: t(1)[of a] t(2,3))
  qed (use assms(2) d(3,11) in \<open>simp_all add: t conn_no_Suc\<close>)
  then show ?thesis using n(2) assms(3) by (simp add: acc_inv_def t(3,4))
qed

lemma acc_base_connect:
  assumes "acc_base S s" "a < next_addr s" "state (store s a) = kState_Connecting" "a \<notin> S"
  shows "acc_base S (upd_conn a (set_state kState_Connected) (manager_start conn_start a
    (upd_conn a (\<lambda>c. c\<lparr>socket_open := True\<rparr>) s)))" (is "acc_base S ?t")
proof -
  note d = acc_baseD[OF assms(1)]
  have a: "cid (store s a) = conn_no a" "reads_pending (store s a) = 0"
    using d(4,5)[OF assms(2)] assms(3) by (auto simp: session_ok_def)
  have "i \<noteq> conn_no a" if "(i, b) \<in> set (connections s)" for i b
    using d(2) d(6-8)[OF that] assms(2,3) by (auto simp: conn_no_inject)
  then have "conn_no a \<notin> fst ` set (connections s)" by force
  then have m: "connections ?t = map_set (conn_no a) a (connections s)"
    "set (connections ?t) = insert (conn_no a, a) (set (connections s))" "distinct (map fst (connections ?t))"
    using d(3) map_set_new a(1) by (simp_all add: conn_insert_def manager_start_def upd_conn_def)
  have st: "store ?t b = (if b = a then store ?t a else store s b)" for b by (simp add: manager_start_def upd_conn_def)
  have new: "state (store ?t a) = kState_Connected" "socket_open (store ?t a)" "reads_pending (store ?t a) = 1" "cid (store ?t a) = conn_no a"
    using a by (simp_all add: manager_start_def upd_conn_def set_state_def conn_start_def asyncRead_def)
  have rest: "id_allocator ?t = id_allocator s" "next_addr ?t = next_addr s" by (simp_all add: manager_start_def upd_conn_def)
  show ?thesis
  proof (rule acc_baseI)
    fix b
    assume b: "b < next_addr ?t"
    show "cid (store ?t b) = conn_no b" "session_ok (store ?t b)" "socket_open (store ?t b) \<longleftrightarrow> state (store ?t b) = kState_Connected \<and> b \<notin> S"
      using b new assms(4) d(4,5,9)[of b] by (auto simp: st[of b] rest session_ok_def)
    show "(conn_no b, b) \<in> set (connections ?t)" if "socket_open (store ?t b)"
      using that b d(9,10)[of b] by (cases "b = a") (auto simp: st[of b] m(2) rest)
  next
    fix i b
    assume "(i, b) \<in> set (connections ?t)"
    then show "i = conn_no b \<and> b < next_addr ?t \<and> state (store ?t b) = kState_Connected"
      using d(6-8)[of i b] assms(2) new(1) by (auto simp: m(2) st[of b] rest)
  next
    show "reads_pending (store ?t b) = 0" if "next_addr ?t \<le> b" for b using that assms(2) d(11)[of b] by (simp add: st[of b] rest)
  qed (use m(3) d(1,2) in \<open>simp_all only: rest\<close>)
qed

lemma acc_inv_accept:
  assumes "acc_inv S s" "next_addr s + 10001 < 2 ^ 32"
  shows "acc_inv S (handle_accept err s)"
proof -
  note i = acc_invD[OF assms(1)]
  have S: "S \<subseteq> {..<next_addr s}" "new_connection s \<notin> S" using i(2,4) by auto
  define t where "t = upd_conn (new_connection s) (set_state kState_Connected) (manager_start conn_start (new_connection s)
    (upd_conn (new_connection s) (\<lambda>c. c\<lparr>socket_open := True\<rparr>) s))"
  have "acc_base S t" unfolding t_def
    using i(1-3) S(2) by (intro acc_base_connect) simp_all
  moreover have "next_addr t = next_addr s" by (simp add: t_def upd_conn_def manager_start_def)
  ultimately have "acc_inv S (start_accept t)" "acc_inv S (start_accept s)"
    using acc_base_start_accept[of S t] acc_base_start_accept[OF i(1)] assms(2) S(1) by simp_all
  then show ?thesis by (simp add: handle_accept_def flip: t_def)
qed

text \<open>A connection that is taken out of the map and stopped.\<close>

lemma acc_inv_remove:
  assumes "acc_inv S s" "(conn_no a, a) \<in> set (connections s)" "\<not> socket_open c" "cid c = conn_no a"
    and "state c = kState_Closed \<or> state c = kState_Connected \<and> reads_pending c = 1 \<and> a \<in> S'" "S' = S \<or> S' = insert a S"
  shows "acc_inv S' (upd_conn a (\<lambda>_. c) s\<lparr>connections := filter (\<lambda>(j, _). j \<noteq> conn_no a) (connections s)\<rparr>)" (is "acc_inv S' ?t")
proof -
  note i = acc_invD[OF assms(1)] and d = acc_baseD[OF acc_invD(1)[OF assms(1)]]
  have a: "a < new_connection s" "a < next_addr s" using i(2) i(5)[OF assms(2)] by simp_all
  define t where "t = ?t"
  have t: "connections t = filter (\<lambda>(j, _). j \<noteq> conn_no a) (connections s)" "id_allocator t = id_allocator s"
    "next_addr t = next_addr s" "new_connection t = new_connection s" "store t b = (if b = a then c else store s b)" for b
    by (simp_all add: t_def upd_conn_def)
  have f: "(j, b) \<in> set (connections t) \<longleftrightarrow> (j, b) \<in> set (connections s) \<and> b \<noteq> a" for j b
    using d(6)[of j b] d(7)[of j b] d(2) a(2) by (auto simp: t(1) conn_no_inject)
  have S: "b \<in> S' \<longleftrightarrow> b \<in> S" if "b \<noteq> a" for b using assms(6) that by auto
  have c: "session_ok c" "socket_open c \<longleftrightarrow> state c = kState_Connected \<and> a \<notin> S'" using assms(3,5) by (auto simp: session_ok_def)
  have "acc_base S' t"
  proof (rule acc_baseI)
    fix b
    assume b: "b < next_addr t"
    show "cid (store t b) = conn_no b" "session_ok (store t b)" "socket_open (store t b) \<longleftrightarrow> state (store t b) = kState_Connected \<and> b \<notin> S'"
      using b assms(4) c d(4,5,9)[of b] S[of b] by (cases "b = a"; simp add: t)+
    show "(conn_no b, b) \<in> set (connections t)" if "socket_open (store t b)"
      unfolding f using that assms(3) b d(9,10)[of b] by (cases "b = a") (simp_all add: t)
  next
    fix j b
    assume "(j, b) \<in> set (connections t)"
    then show "j = conn_no b \<and> b < next_addr t \<and> state (store t b) = kState_Connected"
      unfolding f using d(6-8)[of j b] by (simp add: t)
  qed (use d(1-3,11) a(2) in \<open>simp_all add: t distinct_map_filter\<close>)
  then show ?thesis using i(2-4) assms(6) a(1) by (auto simp: acc_inv_def t simp flip: t_def)
qed

text \<open>Stopping, by the manager or by the method of the connection.\<close>

lemma acc_inv_stop_id:
  assumes "acc_inv S s"
  shows "acc_inv (S \<union> {a. map_of (connections s) i = Some a}) (manager_stop_id i s)"
proof (cases "map_of (connections s) i")
  case None
  then show ?thesis using assms by (simp add: manager_stop_id_def)
next
  case (Some a)
  note d = acc_baseD[OF acc_invD(1)[OF assms]]
  from Some have m: "(i, a) \<in> set (connections s)" by (rule map_of_SomeD)
  note a = d(6-8)[OF m]
  have "manager_stop_id i s = upd_conn a (\<lambda>_. conn_stop (store s a)) s\<lparr>connections := filter (\<lambda>(j, _). j \<noteq> conn_no a) (connections s)\<rparr>"
    using Some a(1) by (simp add: manager_stop_id_def upd_conn_def)
  moreover have "acc_inv (insert a S) \<dots>"
    using assms m a d(4,5)[OF a(2)] by (intro acc_inv_remove[of S]) (auto simp: conn_stop_def session_ok_def)
  ultimately show ?thesis using Some by simp
qed

lemma stop_each:
  "foldl (\<lambda>s (i, a). upd_conn a conn_stop s) s xs = s\<lparr>store := \<lambda>b. if b \<in> snd ` set xs then conn_stop (store s b) else store s b\<rparr>"
proof (induction xs arbitrary: s)
  case (Cons x xs)
  have u: "upd_conn a conn_stop s\<lparr>store := f\<rparr> = s\<lparr>store := f\<rparr>" for f a by (simp add: upd_conn_def)
  have e: "(\<lambda>b. if b \<in> snd ` set xs then conn_stop (store (upd_conn (snd x) conn_stop s) b) else store (upd_conn (snd x) conn_stop s) b) =
      (\<lambda>b. if b \<in> snd ` set (x # xs) then conn_stop (store s b) else store s b)"
    by (auto simp: upd_conn_def conn_stop_def fun_eq_iff)
  show ?case by (simp only: foldl_Cons case_prod_unfold Cons[unfolded case_prod_unfold] u e)
qed simp

lemma acc_inv_stop_all:
  assumes "acc_inv S s"
  shows "acc_inv (S \<union> snd ` set (connections s)) (stop_all s)"
proof -
  note i = acc_invD[OF assms] and d = acc_baseD[OF acc_invD(1)[OF assms]]
  let ?f = "\<lambda>b. if b \<in> snd ` set (connections s) then conn_stop (store s b) else store s b"
  have t: "stop_all s = s\<lparr>store := ?f, connections := []\<rparr>" by (simp add: stop_all_def stop_each)
  define f where "f = ?f"
  have c: "cid (f b) = cid (store s b)" "state (f b) = state (store s b)" "reads_pending (f b) = reads_pending (store s b)"
    "session_ok (f b) = session_ok (store s b)" "socket_open (f b) \<longleftrightarrow> socket_open (store s b) \<and> b \<notin> snd ` set (connections s)" for b
    by (simp_all add: f_def conn_stop_def session_ok_def)
  have open_in: "b \<in> snd ` set (connections s)" if "socket_open (store s b)" "b < next_addr s" for b
    using d(9,10)[OF that(2)] that(1) by force
  have "acc_base (S \<union> snd ` set (connections s)) (s\<lparr>store := f, connections := []\<rparr>)"
  proof (rule acc_baseI)
    fix b
    assume "b < next_addr (s\<lparr>store := f, connections := []\<rparr>)"
    then show "socket_open (store (s\<lparr>store := f, connections := []\<rparr>) b) \<longleftrightarrow>
        state (store (s\<lparr>store := f, connections := []\<rparr>) b) = kState_Connected \<and> b \<notin> S \<union> snd ` set (connections s)"
      using d(9)[of b] by (auto simp: c)
    then show "(conn_no b, b) \<in> set (connections (s\<lparr>store := f, connections := []\<rparr>))"
      if "socket_open (store (s\<lparr>store := f, connections := []\<rparr>) b)"
      using that open_in[of b] \<open>b < _\<close> by (simp add: c)
  qed (use d(1,2,4,5,11) in \<open>simp_all add: c\<close>)
  moreover have "snd ` set (connections s) \<subseteq> {..<new_connection s}" using i(5) by auto
  ultimately show ?thesis unfolding t f_def[symmetric] acc_inv_def using i(2-4) by (simp add: c)
qed

lemma acc_inv_conn_stop:
  assumes "acc_inv S s" "a < new_connection s"
  shows "acc_inv (insert a S) (upd_conn a conn_stop s)"
proof -
  note i = acc_invD[OF assms(1)] and d = acc_baseD[OF acc_invD(1)[OF assms(1)]]
  define t where "t = upd_conn a conn_stop s"
  have st: "cid (store t b) = cid (store s b)" "state (store t b) = state (store s b)" "reads_pending (store t b) = reads_pending (store s b)"
    "session_ok (store t b) = session_ok (store s b)" "socket_open (store t b) \<longleftrightarrow> socket_open (store s b) \<and> b \<noteq> a"
    "connections t = connections s" "next_addr t = next_addr s" "new_connection t = new_connection s" "id_allocator t = id_allocator s" for b
    by (simp_all add: t_def upd_conn_def conn_stop_def session_ok_def)
  have "acc_base (insert a S) t"
  proof (rule acc_baseI)
    show "(i, b) \<in> set (connections t) \<Longrightarrow> i = conn_no b \<and> b < next_addr t \<and> state (store t b) = kState_Connected" for i b
      using d(6-8)[of i b] by (simp add: st)
    show "b < next_addr t \<Longrightarrow> socket_open (store t b) \<longleftrightarrow> state (store t b) = kState_Connected \<and> b \<notin> insert a S" for b
      using d(9)[of b] by (auto simp: st)
    show "b < next_addr t \<Longrightarrow> socket_open (store t b) \<Longrightarrow> (conn_no b, b) \<in> set (connections t)" for b
      using d(9,10)[of b] by (simp add: st)
  qed (use d(1-5,11) in \<open>simp_all add: st\<close>)
  then show ?thesis using i(2-4) assms(2) by (simp add: acc_inv_def st flip: t_def)
qed

text \<open>An error callback for a connection \<open>c\<close>, which may have been read from before.\<close>

lemma acc_inv_error:
  assumes "acc_inv S s" "a < new_connection s" "cid c = conn_no a" "state c = state (store s a)"
    "socket_open c = socket_open (store s a)" "state c = kState_Connecting \<longrightarrow> reads_pending c = 0"
  shows "acc_inv S (handle_error a (upd_conn a (\<lambda>_. c) s))"
proof -
  note i = acc_invD[OF assms(1)] and d = acc_baseD[OF acc_invD(1)[OF assms(1)]]
  have a: "a < next_addr s" using assms(2) i(2) by simp
  show ?thesis
  proof (cases "(conn_no a, a) \<in> set (connections s)")
    case True
    then have "map_of (connections s) (conn_no a) = Some a" "state c = kState_Connected"
      using d(3) d(8)[OF True] assms(4) by (auto simp: map_of_eq_Some_iff)
    then have "handle_error a (upd_conn a (\<lambda>_. c) s) = upd_conn a (\<lambda>_. conn_stop (set_state kState_Closed c)) s
      \<lparr>connections := filter (\<lambda>(j, _). j \<noteq> conn_no a) (connections s)\<rparr>"
      using assms(3)
      by (simp add: handle_error_def isClosed_def manager_stop_def manager_stop_id_def upd_conn_def set_state_def)
    moreover have "acc_inv S \<dots>"
      using assms True by (intro acc_inv_remove[of S]) (simp_all add: conn_stop_def set_state_def)
    ultimately show ?thesis by simp
  next
    case False
    have other: "b \<noteq> a" if "(j, b) \<in> set (connections s)" for j b using that d(6)[OF that] False by auto
    have "j \<noteq> conn_no a" if "(j, b) \<in> set (connections s)" for j b
      using other[OF that] d(6,7)[OF that] d(2) a by (simp add: conn_no_inject)
    then have "map_of (connections s) (conn_no a) = None" by (force simp: map_of_eq_None_iff)
    then have t: "handle_error a (upd_conn a (\<lambda>_. c) s) =
        upd_conn a (\<lambda>_. if isClosed c then c else set_state kState_Closed c) s" (is "_ = ?t")
      using assms(3) by (simp add: handle_error_def manager_stop_def manager_stop_id_def upd_conn_def set_state_def)
    have closed: "\<not> socket_open c" "\<not> socket_open (store s a)" using d(9,10)[OF a] False assms(5) by auto
    have st: "store ?t b = (if b = a then store ?t a else store s b)" "connections ?t = connections s" "next_addr ?t = next_addr s"
      "new_connection ?t = new_connection s" "id_allocator ?t = id_allocator s" for b
      by (simp_all add: upd_conn_def)
    have new: "cid (store ?t a) = conn_no a" "state (store ?t a) = kState_Closed" "\<not> socket_open (store ?t a)"
      using closed(1) assms(3) by (simp_all add: upd_conn_def set_state_def isClosed_def)
    have "acc_base S ?t"
    proof (rule acc_baseI)
      fix b
      assume b: "b < next_addr ?t"
      show "cid (store ?t b) = conn_no b" "session_ok (store ?t b)" "socket_open (store ?t b) \<longleftrightarrow> state (store ?t b) = kState_Connected \<and> b \<notin> S"
        using b new d(4,5,9)[of b] by (auto simp: st(1)[of b] st(3) session_ok_def)
      show "(conn_no b, b) \<in> set (connections ?t)" if "socket_open (store ?t b)"
        using that b new(3) d(9,10)[of b] by (cases "b = a") (simp_all add: st(1)[of b] st(2,3))
    next
      fix j b
      assume m: "(j, b) \<in> set (connections ?t)"
      then show "j = conn_no b \<and> b < next_addr ?t \<and> state (store ?t b) = kState_Connected"
        using d(6-8)[of j b] other[of j b] by (simp add: st(1)[of b] st(2,3))
    next
      show "reads_pending (store ?t b) = 0" if "next_addr ?t \<le> b" for b
        using that a d(11)[of b] by (simp add: st(1)[of b] st(3))
    qed (use d(1-3) in \<open>simp_all only: st\<close>)
    moreover have "state (store ?t (new_connection s)) = kState_Connecting" using i(3) assms(2) by (subst st(1)) simp
    ultimately show ?thesis unfolding t acc_inv_def using i(2,4) by (simp add: st(3,4))
  qed
qed

lemma receive_same:
  assumes "receive err data c = Some (ok, c')"
  shows "state c' = state c" "cid c' = cid c" "socket_open c' = socket_open c"
    "reads_pending c' = (if ok then reads_pending c + 1 else reads_pending c)"
  using assms by (auto simp: receive_def asyncRead_def Let_def split: if_splits option.splits)

lemma acc_inv_read:
  assumes "acc_inv S s" "0 < reads_pending (store s a)" "acceptor_read a err data s = Some s'"
  shows "acc_inv S s'"
proof -
  note i = acc_invD[OF assms(1)] and d = acc_baseD[OF acc_invD(1)[OF assms(1)]]
  obtain r where r: "receive err data ((store s a)\<lparr>reads_pending := reads_pending (store s a) - 1\<rparr>) = Some r"
    using assms(3) by (auto simp: acceptor_read_def split: option.splits)
  obtain ok c where okc: "r = (ok, c)" by fastforce
  note c = receive_same[OF r[unfolded okc]]
  have n: "a < next_addr s" using d(11)[of a] assms(2) by (cases "a < next_addr s") simp_all
  have ok: "session_ok (store s a)" "cid (store s a) = conn_no a" using d(4,5)[OF n] by simp_all
  then have "state (store s a) \<noteq> kState_Connecting" using assms(2) by (auto simp: session_ok_def)
  then have a: "a < new_connection s" using n i(2,3) by (cases "a = new_connection s") simp_all
  have s': "s' = (if ok then upd_conn a (\<lambda>_. c) s else handle_error a (upd_conn a (\<lambda>_. c) s))"
    using assms(3) r okc by (simp add: acceptor_read_def Let_def split: if_splits)
  show ?thesis
  proof (cases ok)
    case True
    let ?t = "upd_conn a (\<lambda>_. c) s"
    have "reads_pending c = reads_pending (store s a)" using c(4) assms(2) True by simp
    then have same: "cid (store ?t b) = cid (store s b)" "state (store ?t b) = state (store s b)" "socket_open (store ?t b) = socket_open (store s b)"
      "reads_pending (store ?t b) = reads_pending (store s b)" "session_ok (store ?t b) = session_ok (store s b)" for b
      using c by (simp_all add: upd_conn_def session_ok_def)
    have t: "connections ?t = connections s" "next_addr ?t = next_addr s" "new_connection ?t = new_connection s" "id_allocator ?t = id_allocator s"
      by (simp_all add: upd_conn_def)
    have "acc_base S ?t = acc_base S s" by (simp add: acc_base_def same t)
    then show ?thesis using s' True assms(1) by (simp add: acc_inv_def same t)
  next
    case False
    then show ?thesis
      using s' acc_inv_error[OF assms(1) a, of c] c ok \<open>state (store s a) \<noteq> _\<close> by simp
  qed
qed

lemma acc_reach_inv: "acc_reach S s \<Longrightarrow> acc_inv S s"
proof (induction rule: acc_reach.induct)
  case acc_listen
  show ?case by (rule acc_inv_listen)
next
  case (acc_write_failed S s a)
  have "upd_conn a (\<lambda>_. store s a) s = s" by (simp add: upd_conn_def fun_upd_idem)
  moreover have "cid (store s a) = conn_no a" "session_ok (store s a)"
    using acc_write_failed by (simp_all add: acc_inv_def acc_base_def)
  then have "acc_inv S (handle_error a (upd_conn a (\<lambda>_. store s a) s))"
    using acc_write_failed by (intro acc_inv_error) (auto simp: session_ok_def)
  ultimately show ?case by simp
next
  case (acc_close S s)
  have "acc_base S (s\<lparr>listening := False\<rparr>) = acc_base S s" by (simp add: acc_base_def)
  then have "acc_inv S (s\<lparr>listening := False\<rparr>)" using acc_close.IH by (simp add: acc_inv_def)
  from acc_inv_stop_all[OF this] show ?case by (simp add: acceptor_close_def)
qed (auto simp: manager_stop_def intro: acc_inv_accept acc_inv_read acc_inv_sent sent_ops sent_upd acc_inv_stop_id acc_inv_stop_all acc_inv_conn_stop)



text \<open>\<open>close\<close> leaves no socket of a session open and the map empty.\<close>

lemma acceptor_close_all:
  assumes "acc_reach S s" "a < new_connection s"
  shows "\<not> socket_open (store (acceptor_close s) a)" "connections (acceptor_close s) = []"
proof -
  note i = acc_invD[OF acc_reach_inv[OF acc_close[OF assms(1)]]] and d = acc_baseD[OF acc_invD(1)[OF acc_reach_inv[OF acc_close[OF assms(1)]]]]
  show "connections (acceptor_close s) = []" by (simp add: acceptor_close_def stop_all_def)
  moreover have "new_connection (acceptor_close s) = new_connection s"
    by (simp add: acceptor_close_def stop_all_def stop_each)
  ultimately show "\<not> socket_open (store (acceptor_close s) a)" using d(9,10)[of a] i(2) assms(2) by auto
qed

text \<open>
  But the accept that \<open>close\<close> has cancelled comes back with an error, and \<open>handle_accept\<close> starts the
  next one on the closed acceptor, which fails again: the server makes sessions and takes numbers for ever.
\<close>

lemma closed_acceptor_accepts:
  "new_connection (handle_accept True (acceptor_close s)) = next_addr (acceptor_close s)"
  "id_allocator (handle_accept True (acceptor_close s)) = id_allocator (acceptor_close s) + 1"
  "\<not> listening (handle_accept True (acceptor_close s))"
proof -
  have "\<not> listening (acceptor_close s)" by (simp add: acceptor_close_def stop_all_def stop_each)
  then show "new_connection (handle_accept True (acceptor_close s)) = next_addr (acceptor_close s)"
    "id_allocator (handle_accept True (acceptor_close s)) = id_allocator (acceptor_close s) + 1"
    "\<not> listening (handle_accept True (acceptor_close s))"
    by (simp_all add: handle_accept_def start_accept_def set_id_def acquire_id_def Let_def)
qed

subsection \<open>From a message to its handler\<close>

definition send_each :: "('m \<Rightarrow> bytes) \<Rightarrow> (nat \<Rightarrow> u8) \<Rightarrow> (u8 \<times> u8 \<times> 'm) list \<Rightarrow> conn \<Rightarrow> conn" where
  "send_each ser junk msgs c = foldl (\<lambda>c (t1, t2, m). snd (send junk t1 t2 (ser m) c)) c msgs"

lemma send_each_outbox:
  "\<not> isClosed c \<Longrightarrow> outbox (send_each ser junk msgs c) = outbox c @ map (\<lambda>(t1, t2, m). message_bytes junk t1 t2 (ser m)) msgs"
proof (induction msgs arbitrary: c)
  case (Cons x msgs)
  obtain t1 t2 m where x: "x = (t1, t2, m)" by (metis prod_cases3)
  have "send_each ser junk (x # msgs) c = send_each ser junk msgs (c\<lparr>outbox := outbox c @ [message_bytes junk t1 t2 (ser m)]\<rparr>)"
    using Cons.prems by (simp add: send_each_def x send_def)
  then show ?case using Cons by (simp add: x isClosed_def)
qed (simp add: send_each_def)

text \<open>
  C16. Messages sent on one end of a connection, whose serialized forms have at most 8192
  bytes and which the dispatcher of the other end knows: when each is sent only after the write of the one before
  has completed, and their bytes arrive in pieces none of which ends behind the header of an incomplete
  message, the other end has taken them apart, and client and server post exactly these
  messages, in their order, each with its type.
\<close>

theorem wire_roundtrip:
  assumes "\<not> isClosed c" "outbox c = []" "readbuf r = []" "inbox r = []"
    and "\<And>t1 t2 m. (t1, t2, m) \<in> set msgs \<Longrightarrow> length (ser m) \<le> 8192"
    and "\<And>t1 t2 m. (t1, t2, m) \<in> set msgs \<Longrightarrow> makeMessage (make_type t1 t2) (ser m) d = Some m"
    and "writes True (outbox (send_each ser junk msgs c)) (concat pieces) unsent" "concat unsent = []"
    and "\<forall>k\<le>length pieces. complete (snd (frames (concat (take k pieces))))"
  shows "\<exists>r'. handle_reads onReadError pieces r = Some r' \<and> readbuf r' = [] \<and>
    map (acceptor_handle_message d) (inbox r') = map (\<lambda>(t1, t2, m). Some (make_type t1 t2, Some m)) msgs \<and>
    map (client_handle_message d) (inbox r') = map (\<lambda>(t1, t2, m). Some (make_type t1 t2, Some m)) msgs"
proof -
  let ?pk = "\<lambda>(t1, t2, m). message_bytes junk t1 t2 (ser m)"
  have "list_all valid_message (map ?pk msgs)"
    using assms(5) message_bytes_valid(1) by (fastforce simp: list_all_iff)
  then have "frames (concat (map ?pk msgs)) = (map ?pk msgs, [])"
    using frames_valid[of "map ?pk msgs" "[]"] by (simp add: Connection.complete_def net_header_size_def)
  moreover have "concat pieces = concat (map ?pk msgs)"
    using writes_serial[OF assms(7)] assms(1,2,8) by (simp add: send_each_outbox)
  moreover have "\<not> oversized buf" if "complete buf" for buf using that by (simp add: complete_def oversized_def)
  ultimately have "handle_reads onReadError pieces r
      = Some (r\<lparr>readbuf := [], inbox := map ?pk msgs, reads_pending := reads_pending r + length pieces\<rparr>)"
    using reads_exact[of r pieces onReadError] assms(3,4,9) by (simp add: complete_def net_header_size_def)
  moreover have "acceptor_handle_message d (message_bytes junk t1 t2 (ser m)) = Some (make_type t1 t2, Some m)"
    "client_handle_message d (message_bytes junk t1 t2 (ser m)) = Some (make_type t1 t2, Some m)"
    if "(t1, t2, m) \<in> set msgs" for t1 t2 m
    using message_bytes_valid[OF assms(5)[OF that], of junk t1 t2] assms(6)[OF that]
    by (simp_all add: acceptor_handle_message_def client_handle_message_def valid_message_def Let_def)
  ultimately show ?thesis by auto
qed

definition echo :: "(bytes, unit, unit) dispatcher" where
  "echo = (\<lambda>t. Some \<lparr>msgtype = t, newMessage = Some, run_handler = HandlerT (\<lambda>s. s)\<rparr>)"

definition two_messages :: "bytes list" where
  "two_messages = outbox (send_each id (\<lambda>_. 0) [(1, 2, [7, 8]), (1, 3, [])] (new_conn\<lparr>state := kState_Connected\<rparr>))"

lemma two_messages_simp: "two_messages = [[2, 0, 0, 0, 1, 2, 7, 8], [0, 0, 0, 0, 1, 3]]"
  by code_simp

lemma wire_roundtrip_witness:
  "\<exists>r'. handle_reads id [[2, 0, 0, 0, 1, 2, 7, 8, 0, 0], [0, 0, 1, 3]] new_conn = Some r' \<and> readbuf r' = [] \<and>
    map (acceptor_handle_message echo) (inbox r') = [Some (make_type 1 2, Some [7, 8]), Some (make_type 1 3, Some [])]"
proof -
  have "writes True ([] @ [[2, 0, 0, 0, 1, 2, 7, 8]]) ([] @ take 8 ([[2, 0, 0, 0, 1, 2, 7, 8]] ! 0)) ([[2, 0, 0, 0, 1, 2, 7, 8]][0 := drop 8 ([[2, 0, 0, 0, 1, 2, 7, 8]] ! 0)])"
    using writes_start[OF writes_none] by (intro writes_some) simp_all
  then have "writes True [[2, 0, 0, 0, 1, 2, 7, 8]] [2, 0, 0, 0, 1, 2, 7, 8] [[]]" by simp
  from writes_start[OF this, of "[0, 0, 0, 0, 1, 3]"]
  have "writes True two_messages [2, 0, 0, 0, 1, 2, 7, 8] [[], [0, 0, 0, 0, 1, 3]]" by (simp add: two_messages_simp)
  from writes_some[OF this, of 1 6]
  have w: "writes True two_messages (concat [[2, 0, 0, 0, 1, 2, 7, 8, 0, 0], [0, 0, 1, 3]]) [[], []]" by simp
  have fr: "complete (snd (frames (concat (take k [[2, 0, 0, 0, 1, 2, 7, 8, 0, 0], [0, 0, 1, 3]]))))" if "k \<le> 2" for k
    using that by (cases k; cases "k = 1")
      (auto simp: frames.simps net_header_size_def load_header_def msgsize_def Let_def complete_def)
  have "\<exists>r'. handle_reads id [[2, 0, 0, 0, 1, 2, 7, 8, 0, 0], [0, 0, 1, 3]] new_conn = Some r' \<and> readbuf r' = [] \<and>
    map (acceptor_handle_message echo) (inbox r') = map (\<lambda>(t1, t2, m). Some (make_type t1 t2, Some m)) [(1, 2, [7, 8]), (1, 3, [])] \<and>
    map (client_handle_message echo) (inbox r') = map (\<lambda>(t1, t2, m). Some (make_type t1 t2, Some m)) [(1, 2, [7, 8]), (1, 3, [])]"
    by (rule wire_roundtrip[where ser = id and junk = "\<lambda>_. 0", OF _ _ _ _ _ _ w[unfolded two_messages_def]])
      (use fr in \<open>auto simp: new_conn_def isClosed_def makeMessage_def echo_def\<close>)
  then show ?thesis by (elim exE conjE) (intro exI conjI, assumption, assumption, simp)
qed

text \<open>
  \<open>send\<close> starts a write at once, also when an earlier one is under way. Then the bytes of the second message
  may come between those of the first: the other end reads a message that was not sent, and gives up on
  what follows.
\<close>

theorem overlapping_writes_mix:
  "\<exists>w. writes False two_messages w [[], []] \<and>
     receive False w new_conn = Some (False, new_conn\<lparr>readbuf := [0, 0, 1, 3, 7, 8], inbox := [[2, 0, 0, 0, 1, 2, 0, 0]]\<rparr>)"
proof -
  have "writes False ([] @ [[2, 0, 0, 0, 1, 2, 7, 8]] @ [[0, 0, 0, 0, 1, 3]]) [] ([] @ [[2, 0, 0, 0, 1, 2, 7, 8]] @ [[0, 0, 0, 0, 1, 3]])"
    using writes_start[OF writes_start[OF writes_none[of False], of "[2, 0, 0, 0, 1, 2, 7, 8]"], of "[0, 0, 0, 0, 1, 3]"] by simp
  then have "writes False two_messages [] two_messages" by (simp add: two_messages_simp)
  from writes_some[OF this, of 0 6]
  have "writes False two_messages [2, 0, 0, 0, 1, 2] [[7, 8], [0, 0, 0, 0, 1, 3]]" by (simp add: two_messages_simp)
  from writes_some[OF this, of 1 6]
  have "writes False two_messages [2, 0, 0, 0, 1, 2, 0, 0, 0, 0, 1, 3] [[7, 8], []]" by simp
  from writes_some[OF this, of 0 2]
  have "writes False two_messages [2, 0, 0, 0, 1, 2, 0, 0, 0, 0, 1, 3, 7, 8] [[], []]" by simp
  moreover have "receive False [2, 0, 0, 0, 1, 2, 0, 0, 0, 0, 1, 3, 7, 8] new_conn =
      Some (False, new_conn\<lparr>readbuf := [0, 0, 1, 3, 7, 8], inbox := [[2, 0, 0, 0, 1, 2, 0, 0]]\<rparr>)"
    by (simp add: receive_def readMessages.simps new_conn_def net_header_size_def load_header_def msgsize_def Let_def)
  ultimately show ?thesis by blast
qed

text \<open>
  A body that does not parse is dropped by a client, but a server posts a null message for
  it, and its handler runs on the null pointer.
\<close>

theorem acceptor_null_message:
  assumes "length body \<le> 8192" "d (make_type t1 t2) = Some h" "newMessage h body = None" "run_handler h = HandlerT_1 f"
  shows "client_handle_message d (message_bytes junk t1 t2 body) = None \<and>
    acceptor_handle_message d (message_bytes junk t1 t2 body) = Some (make_type t1 t2, None) \<and>
    dispatchMsg dflt (make_type t1 t2) None (Args_1 a) d s = Some (False, f None a s)"
  using assms message_bytes_valid[OF assms(1), of junk t1 t2]
  by (simp add: client_handle_message_def acceptor_handle_message_def makeMessage_def dispatchMsg_def valid_message_def Let_def)

lemma acceptor_null_message_witness:
  "dispatchMsg 0 (make_type 1 2) None (Args_1 (5 :: nat))
     [make_type 1 2 \<mapsto> \<lparr>msgtype = make_type 1 2, newMessage = (\<lambda>_. None :: unit option), run_handler = HandlerT_1 (\<lambda>m a s. (m, a) # s)\<rparr>] []
   = Some (False, [(None, 5)])"
  using acceptor_null_message[of "[]" "[make_type 1 2 \<mapsto> \<lparr>msgtype = make_type 1 2, newMessage = (\<lambda>_. None :: unit option),
    run_handler = HandlerT_1 (\<lambda>m a s. (m, a) # s)\<rparr>]" 1 2 _ "\<lambda>m a s. (m, a) # s" "\<lambda>_. 0" 0 "5 :: nat" "[]"]
  by simp

end
