(* ===== verification/Redis_Cmd.thy ===== *)
theory Redis_Cmd
  imports Url
begin

text \<open>
  \<open>common/redis_cmd.h\<close>, \<open>redis_cmd.cpp\<close> and \<open>redis.cpp\<close>: the Redis commands as tasks, the
  conversion of the replies of hiredis to the reply type of a command, the constructors of
  the commands with their callbacks, and the client's helpers.

  The class template \<open>RedisCommand\<close> is instantiated for twelve reply types; \<open>reply_type\<close>
  names them and \<open>reply_val\<close> is a value of one of them. The callbacks are observed through a
  log of the calls. A \<open>redisReply\<close> is what hiredis documents: its type, and by the type an
  integer, a string or elements; a pointer that is not set is \<open>None\<close>.
\<close>

subsection \<open>Replies\<close>

datatype reply = Reply (rtype: nat) (integer: u64) (str: "string option") (elements: "reply list")

abbreviation REDIS_REPLY_STRING :: nat where "REDIS_REPLY_STRING \<equiv> 1"
abbreviation REDIS_REPLY_ARRAY :: nat where "REDIS_REPLY_ARRAY \<equiv> 2"
abbreviation REDIS_REPLY_INTEGER :: nat where "REDIS_REPLY_INTEGER \<equiv> 3"
abbreviation REDIS_REPLY_NIL :: nat where "REDIS_REPLY_NIL \<equiv> 4"
abbreviation REDIS_REPLY_STATUS :: nat where "REDIS_REPLY_STATUS \<equiv> 5"
abbreviation REDIS_REPLY_ERROR :: nat where "REDIS_REPLY_ERROR \<equiv> 6"

definition redisReplyTypeString :: "nat \<Rightarrow> string" where
  "redisReplyTypeString ty =
     (if ty = REDIS_REPLY_STRING then ''STRING''
      else if ty = REDIS_REPLY_ARRAY then ''ARRAY''
      else if ty = REDIS_REPLY_INTEGER then ''INTEGER''
      else if ty = REDIS_REPLY_NIL then ''NILL''
      else if ty = REDIS_REPLY_STATUS then ''STATUS''
      else if ty = REDIS_REPLY_ERROR then ''ERROR''
      else ''UNKOWN'')"

text \<open>\<open>std::string(r->str, r->len)\<close>; the null pointer comes with length zero.\<close>

definition str_len :: "reply \<Rightarrow> string" where
  "str_len r = (case str r of None \<Rightarrow> [] | Some s \<Rightarrow> s)"

subsection \<open>Commands\<close>

datatype status = Status_no | Status_okay | Status_nil | Status_error | Status_send_error | Status_wrone_type | Status_timeout

datatype reply_type =
    T_reply | T_string | T_cstr | T_int | T_uint16 | T_uint32 | T_uint64 | T_longlong | T_nullptr
  | T_vector | T_hashset | T_set

datatype reply_val =
    V_reply reply | V_string string | V_cstr "string option" | V_int u32 | V_uint16 u16 | V_uint32 u32
  | V_uint64 u64 | V_longlong u64 | V_nullptr | V_vector "string list" | V_hashset "string set" | V_set "string set"

record command =
  ctype :: reply_type
  words :: "string list"
  connected :: bool
  reply_val :: reply_val
  reply_status :: status
  last_error :: string
  on_timeout_set :: bool
  invoked :: "(status \<times> reply_val) list"

text \<open>
  A new command; \<open>v\<close> is its value before a reply. For the numbers and pointers it is
  indeterminate, since the member is not initialised; containers are empty.
\<close>

definition new_command :: "reply_type \<Rightarrow> string list \<Rightarrow> reply_val \<Rightarrow> command" where
  "new_command ty cmd v = \<lparr>ctype = ty, words = cmd, connected = False, reply_val = v, reply_status = Status_no,
     last_error = [], on_timeout_set = False, invoked = []\<rparr>"

definition RedisCmd :: "reply_type \<Rightarrow> string list \<Rightarrow> reply_val \<Rightarrow> command option" where
  "RedisCmd ty cmd v = (if cmd = [] then None else Some (new_command ty cmd v))"

definition clone :: "command \<Rightarrow> reply_val \<Rightarrow> command option" where
  "clone c v = RedisCmd (ctype c) (words c) v"

definition on_emit_command :: "command \<Rightarrow> command" where
  "on_emit_command c = c\<lparr>connected := True\<rparr>"

text \<open>\<open>submit\<close> is \<open>AsyncRedisClient::submitToServer\<close>.\<close>

definition call :: "(string list \<Rightarrow> bool) \<Rightarrow> command \<Rightarrow> command" where
  "call submit c =
     (if connected c \<and> submit (words c) then c
      else c\<lparr>reply_status := Status_send_error, last_error := ''send error.''\<rparr>)"

definition timeout_command :: "command \<Rightarrow> command" where
  "timeout_command c =
     (if on_timeout_set c then c
      else c\<lparr>reply_status := Status_timeout, last_error := ''timeout.''\<rparr>)"

definition ok :: "command \<Rightarrow> bool" where
  "ok c \<longleftrightarrow> reply_status c = Status_okay"

definition invoke :: "command \<Rightarrow> command" where
  "invoke c = c\<lparr>invoked := invoked c @ [(reply_status c, reply_val c)]\<rparr>"

subsection \<open>Checking a reply\<close>

definition checkErrorReply :: "reply \<Rightarrow> command \<Rightarrow> bool \<times> command" where
  "checkErrorReply r c =
     (if rtype r = REDIS_REPLY_ERROR
      then let c = (case str r of Some s \<Rightarrow> c\<lparr>last_error := c_str s\<rparr> | None \<Rightarrow> c)
        in (True, c\<lparr>reply_status := Status_error\<rparr>)
      else (False, c))"

definition checkNilReply :: "reply \<Rightarrow> command \<Rightarrow> bool \<times> command" where
  "checkNilReply r c =
     (if rtype r = REDIS_REPLY_NIL then (True, c\<lparr>reply_status := Status_nil\<rparr>) else (False, c))"

definition check_unexpected :: "string \<Rightarrow> reply \<Rightarrow> command \<Rightarrow> bool \<times> command" where
  "check_unexpected expected r c =
     (case checkErrorReply r c of
        (True, c) \<Rightarrow> (False, c)
      | (False, c) \<Rightarrow> (case checkNilReply r c of
          (True, c) \<Rightarrow> (False, c)
        | (False, c) \<Rightarrow> (False, c\<lparr>last_error := ''Received reply of type '' @ redisReplyTypeString (rtype r) @
              '', expected type '' @ expected @ ''.'', reply_status := Status_wrone_type\<rparr>)))"

definition isExpectedReply :: "nat \<Rightarrow> reply \<Rightarrow> command \<Rightarrow> bool \<times> command" where
  "isExpectedReply ty r c =
     (if rtype r = ty then (True, c\<lparr>reply_status := Status_okay\<rparr>)
      else check_unexpected (redisReplyTypeString ty) r c)"

definition isExpectedReply2 :: "nat \<Rightarrow> nat \<Rightarrow> reply \<Rightarrow> command \<Rightarrow> bool \<times> command" where
  "isExpectedReply2 tyA tyB r c =
     (if rtype r = tyA \<or> rtype r = tyB then (True, c\<lparr>reply_status := Status_okay\<rparr>)
      else check_unexpected (redisReplyTypeString tyA @ '' or '' @ redisReplyTypeString tyB) r c)"

subsection \<open>Converting a reply\<close>

text \<open>\<open>set_val\<close> stores a value when the reply is of the expected type. The containers grow.\<close>

definition set_val :: "(command \<Rightarrow> reply_val) \<Rightarrow> bool \<times> command \<Rightarrow> command" where
  "set_val v = (\<lambda>(expected, c). if expected then c\<lparr>reply_val := v c\<rparr> else c)"

fun vector_of :: "reply_val \<Rightarrow> string list" where
  "vector_of (V_vector xs) = xs" | "vector_of _ = []"

fun set_of :: "reply_val \<Rightarrow> string set" where
  "set_of (V_hashset xs) = xs" | "set_of (V_set xs) = xs" | "set_of _ = {}"

fun parseReplyObject :: "reply_type \<Rightarrow> reply \<Rightarrow> command \<Rightarrow> command" where
  "parseReplyObject T_reply r c =
     (case checkErrorReply r c of
        (True, c) \<Rightarrow> c\<lparr>reply_val := V_reply r\<rparr>
      | (False, c) \<Rightarrow> c\<lparr>reply_status := Status_okay, reply_val := V_reply r\<rparr>)"
| "parseReplyObject T_string r c =
     set_val (\<lambda>_. V_string (str_len r)) (isExpectedReply2 REDIS_REPLY_STRING REDIS_REPLY_STATUS r c)"
| "parseReplyObject T_cstr r c =
     set_val (\<lambda>_. V_cstr (str r)) (isExpectedReply2 REDIS_REPLY_STRING REDIS_REPLY_STATUS r c)"
| "parseReplyObject T_int r c =
     set_val (\<lambda>_. V_int (ucast (integer r))) (isExpectedReply REDIS_REPLY_INTEGER r c)"
| "parseReplyObject T_uint16 r c =
     set_val (\<lambda>_. V_uint16 (ucast (integer r))) (isExpectedReply REDIS_REPLY_INTEGER r c)"
| "parseReplyObject T_uint32 r c =
     set_val (\<lambda>_. V_uint32 (ucast (integer r))) (isExpectedReply REDIS_REPLY_INTEGER r c)"
| "parseReplyObject T_uint64 r c =
     set_val (\<lambda>_. V_uint64 (integer r)) (isExpectedReply REDIS_REPLY_INTEGER r c)"
| "parseReplyObject T_longlong r c =
     set_val (\<lambda>_. V_longlong (integer r)) (isExpectedReply REDIS_REPLY_INTEGER r c)"
| "parseReplyObject T_nullptr r c =
     set_val (\<lambda>_. V_nullptr) (isExpectedReply REDIS_REPLY_NIL r c)"
| "parseReplyObject T_vector r c =
     set_val (\<lambda>c. V_vector (vector_of (reply_val c) @ map str_len (elements r))) (isExpectedReply REDIS_REPLY_ARRAY r c)"
| "parseReplyObject T_hashset r c =
     set_val (\<lambda>c. V_hashset (set_of (reply_val c) \<union> set (map str_len (elements r)))) (isExpectedReply REDIS_REPLY_ARRAY r c)"
| "parseReplyObject T_set r c =
     set_val (\<lambda>c. V_set (set_of (reply_val c) \<union> set (map str_len (elements r)))) (isExpectedReply REDIS_REPLY_ARRAY r c)"

definition processReply :: "reply option \<Rightarrow> command \<Rightarrow> command" where
  "processReply r c =
     (let c = c\<lparr>last_error := []\<rparr> in
      invoke (case r of
          None \<Rightarrow> c\<lparr>reply_status := Status_error, last_error := ''Received null redisReply* from hiredis.''\<rparr>
        | Some r \<Rightarrow> parseReplyObject (ctype c) r c))"

subsection \<open>The constructors of the commands\<close>

definition SET :: "string \<Rightarrow> string \<Rightarrow> string list" where
  "SET key val = [''SET'', key, val]"

definition GET :: "string \<Rightarrow> string list" where
  "GET key = [''GET'', key]"

definition INCR :: "string \<Rightarrow> string list" where
  "INCR key = [''INCR'', key]"

definition DEL :: "string list \<Rightarrow> string list" where
  "DEL keys = ''DEL'' # keys"

definition EXPIRE :: "string \<Rightarrow> u32 \<Rightarrow> string list" where
  "EXPIRE key seconds = [''EXPIRE'', key, decimal (unat seconds)]"

definition EXPIREAT :: "string \<Rightarrow> u32 \<Rightarrow> string list" where
  "EXPIREAT key timepoint = [''EXPIREAT'', key, decimal (unat timepoint)]"

fun interleave :: "string list \<Rightarrow> string list \<Rightarrow> string list" where
  "interleave (f # fs) (v # vs) = f # v # interleave fs vs"
| "interleave _ _ = []"

definition HMSET :: "string \<Rightarrow> string list \<Rightarrow> string list \<Rightarrow> string list option" where
  "HMSET key fs vals =
     (if key = [] \<or> fs = [] \<or> vals = [] then None
      else if length fs \<noteq> length vals then None
      else Some ([''HMSET'', key] @ interleave fs vals))"

text \<open>\<open>HMSET\<close> of an \<open>unordered_map\<close>, whose pairs come in some order.\<close>

definition HMSET_map :: "string \<Rightarrow> (string \<times> string) list \<Rightarrow> string list option" where
  "HMSET_map key kvs = HMSET key (map fst kvs) (map snd kvs)"

definition HMGET :: "string \<Rightarrow> string list \<Rightarrow> string list" where
  "HMGET key fs = [''HMGET'', key] @ fs"

definition LPUSH :: "string \<Rightarrow> string list \<Rightarrow> string list" where
  "LPUSH key vals = [''LPUSH'', key] @ vals"

definition LRANGE :: "string \<Rightarrow> u32 \<Rightarrow> u32 \<Rightarrow> string list" where
  "LRANGE key start stop = [''LRANGE'', key, int_decimal (sint start), int_decimal (sint stop)]"

definition ZADD :: "string \<Rightarrow> u64 \<Rightarrow> string \<Rightarrow> string list" where
  "ZADD key score val = [''ZADD'', key, decimal (unat score), val]"

definition ZADD_map :: "string \<Rightarrow> (u64 \<times> string) list \<Rightarrow> string list" where
  "ZADD_map key score_value = [''ZADD'', key] @ concat (map (\<lambda>(s, v). [decimal (unat s), v]) score_value)"

definition ZRANGE :: "string \<Rightarrow> u64 \<Rightarrow> u64 \<Rightarrow> string list" where
  "ZRANGE key start stop = [''ZRANGE'', key, int_decimal (sint start), int_decimal (sint stop)]"

definition ZRANGE_WITHSCORES :: "string \<Rightarrow> u64 \<Rightarrow> u64 \<Rightarrow> string list" where
  "ZRANGE_WITHSCORES key start stop = ZRANGE key start stop @ [''WITHSCORES'']"

subsection \<open>Their callbacks\<close>

text \<open>What the user's callback is called with when the command's callback runs, if it is.\<close>

definition GET_callback :: "command \<Rightarrow> reply_val option" where
  "GET_callback c = Some (reply_val c)"

definition INCR_callback :: "command \<Rightarrow> reply_val option" where
  "INCR_callback c = Some (reply_val c)"

definition HMGET_callback :: "string list \<Rightarrow> command \<Rightarrow> (string \<rightharpoonup> string) option" where
  "HMGET_callback fs c =
     (if ok c \<and> length (vector_of (reply_val c)) = length fs
      then Some (foldl (\<lambda>kvs (f, v). if kvs f = None then kvs(f \<mapsto> v) else kvs) Map.empty
        (zip fs (vector_of (reply_val c))))
      else None)"

definition range_callback :: "command \<Rightarrow> string list option" where
  "range_callback c = (if ok c then Some (vector_of (reply_val c)) else None)"

definition ZADD_callback :: "command \<Rightarrow> reply_val option" where
  "ZADD_callback c = (if ok c then Some (reply_val c) else None)"

text \<open>The multimap of scores and members: in the order of the scores, equal ones as they come.\<close>

fun score_insert :: "int \<Rightarrow> string \<Rightarrow> (int \<times> string) list \<Rightarrow> (int \<times> string) list" where
  "score_insert k v [] = [(k, v)]"
| "score_insert k v (kv # m) = (if k < fst kv then (k, v) # kv # m else kv # score_insert k v m)"

fun score_pairs :: "string list \<Rightarrow> (int \<times> string) list \<Rightarrow> (int \<times> string) list" where
  "score_pairs (v # s # xs) m = score_pairs xs (score_insert (atol (c_str s)) v m)"
| "score_pairs _ m = m"

definition scores_callback :: "command \<Rightarrow> (int \<times> string) list option" where
  "scores_callback c = (if ok c then Some (score_pairs (vector_of (reply_val c)) []) else None)"

subsection \<open>The client's helpers\<close>

text \<open>\<open>vec.size() - 1\<close> wraps for the empty vector, which is then read out of bounds: \<open>None\<close>.\<close>

definition vecToStr :: "char \<Rightarrow> string list \<Rightarrow> string option" where
  "vecToStr d vec = (if vec = [] then None else Some (concat (map (\<lambda>s. s @ [d]) (butlast vec)) @ last vec))"

function strToVec :: "char \<Rightarrow> string \<Rightarrow> string list" where
  "strToVec d s = (case strchr s d of
     None \<Rightarrow> [s]
   | Some n \<Rightarrow> take n s # strToVec d (drop (Suc n) s))"
  by pat_completeness auto
termination
  by (relation "measure (length \<circ> snd)") (auto simp: strchr_def Let_def split: if_splits)

declare strToVec.simps [simp del]

record redis_client =
  rctx :: "bool option"
  evloop :: bool
  ip :: string
  redis_port :: int
  db :: int

text \<open>The constructor from a URL; a number that does not fit an \<open>int\<close> is cut.\<close>

definition AsyncRedisClient :: "string \<Rightarrow> bool \<Rightarrow> redis_client" where
  "AsyncRedisClient urltext loop =
     (case TinyURL_parse urltext of
        (True, u) \<Rightarrow> \<lparr>rctx = None, evloop = loop, ip = host u, redis_port = port u,
          db = (if path u \<noteq> [] then int_of_long (atol (c_str (path u))) else 0)\<rparr>
      | (False, _) \<Rightarrow> \<lparr>rctx = None, evloop = loop, ip = [], redis_port = 0, db = 0\<rparr>)"

text \<open>
  The context is a null pointer or has an error flag. \<open>alloc\<close> is what
  \<open>redisAsyncConnect\<close> gives.
\<close>

definition isConnected :: "redis_client \<Rightarrow> bool" where
  "isConnected c \<longleftrightarrow> rctx c = Some False"

definition close :: "redis_client \<Rightarrow> redis_client" where
  "close c = c\<lparr>rctx := None\<rparr>"

definition connect :: "bool option \<Rightarrow> redis_client \<Rightarrow> bool \<times> redis_client" where
  "connect alloc c =
     (if \<not> evloop c then (False, c)
      else let c = c\<lparr>rctx := alloc\<rparr> in
        (case alloc of
           None \<Rightarrow> (False, c)
         | Some err \<Rightarrow> if err then (False, close c) else (True, c)))"

definition checkConnection :: "bool option \<Rightarrow> redis_client \<Rightarrow> bool \<times> redis_client" where
  "checkConnection alloc c = (if \<not> isConnected c then connect alloc c else (True, c))"

definition onConnected :: "bool \<Rightarrow> redis_client \<Rightarrow> redis_client" where
  "onConnected success c = (if success then c else c\<lparr>rctx := None\<rparr>)"

definition onDisconnected :: "redis_client \<Rightarrow> redis_client" where
  "onDisconnected c = c\<lparr>rctx := None\<rparr>"

text \<open>\<open>send\<close> is \<open>redisAsyncCommandArgv\<close> with the pointers and lengths of the words.\<close>

definition submitToServer :: "bool option \<Rightarrow> (string list \<Rightarrow> bool) \<Rightarrow> string list \<Rightarrow> redis_client \<Rightarrow> bool \<times> redis_client" where
  "submitToServer alloc send cmd c =
     (case checkConnection alloc c of
        (False, c) \<Rightarrow> (False, c)
      | (True, c) \<Rightarrow> (send cmd, c))"

subsection \<open>Outcomes and types\<close>

fun has_type :: "reply_type \<Rightarrow> reply_val \<Rightarrow> bool" where
  "has_type T_reply v \<longleftrightarrow> (\<exists>x. v = V_reply x)"
| "has_type T_string v \<longleftrightarrow> (\<exists>x. v = V_string x)"
| "has_type T_cstr v \<longleftrightarrow> (\<exists>x. v = V_cstr x)"
| "has_type T_int v \<longleftrightarrow> (\<exists>x. v = V_int x)"
| "has_type T_uint16 v \<longleftrightarrow> (\<exists>x. v = V_uint16 x)"
| "has_type T_uint32 v \<longleftrightarrow> (\<exists>x. v = V_uint32 x)"
| "has_type T_uint64 v \<longleftrightarrow> (\<exists>x. v = V_uint64 x)"
| "has_type T_longlong v \<longleftrightarrow> (\<exists>x. v = V_longlong x)"
| "has_type T_nullptr v \<longleftrightarrow> v = V_nullptr"
| "has_type T_vector v \<longleftrightarrow> (\<exists>x. v = V_vector x)"
| "has_type T_hashset v \<longleftrightarrow> (\<exists>x. v = V_hashset x)"
| "has_type T_set v \<longleftrightarrow> (\<exists>x. v = V_set x)"

text \<open>The types of reply a command takes for a success.\<close>

fun expected :: "reply_type \<Rightarrow> nat \<Rightarrow> bool" where
  "expected T_reply t \<longleftrightarrow> t \<noteq> REDIS_REPLY_ERROR"
| "expected T_string t \<longleftrightarrow> t = REDIS_REPLY_STRING \<or> t = REDIS_REPLY_STATUS"
| "expected T_cstr t \<longleftrightarrow> t = REDIS_REPLY_STRING \<or> t = REDIS_REPLY_STATUS"
| "expected T_nullptr t \<longleftrightarrow> t = REDIS_REPLY_NIL"
| "expected T_vector t \<longleftrightarrow> t = REDIS_REPLY_ARRAY"
| "expected T_hashset t \<longleftrightarrow> t = REDIS_REPLY_ARRAY"
| "expected T_set t \<longleftrightarrow> t = REDIS_REPLY_ARRAY"
| "expected _ t \<longleftrightarrow> t = REDIS_REPLY_INTEGER"

definition outcome :: "reply_type \<Rightarrow> reply option \<Rightarrow> status" where
  "outcome ty r =
     (case r of
        None \<Rightarrow> Status_error
      | Some r \<Rightarrow> if expected ty (rtype r) then Status_okay
          else if rtype r = REDIS_REPLY_ERROR then Status_error
          else if rtype r = REDIS_REPLY_NIL then Status_nil else Status_wrone_type)"

lemmas check_defs = checkErrorReply_def checkNilReply_def check_unexpected_def isExpectedReply_def isExpectedReply2_def
  set_val_def Let_def

lemma parse_outcome:
  "reply_status (parseReplyObject ty r c) = outcome ty (Some r)"
  "ctype (parseReplyObject ty r c) = ctype c"
  "invoked (parseReplyObject ty r c) = invoked c"
  "words (parseReplyObject ty r c) = words c"
  by (cases ty; simp add: outcome_def check_defs split: option.splits)+

lemma parse_typed: "has_type ty (reply_val c) \<Longrightarrow> has_type ty (reply_val (parseReplyObject ty r c))"
  by (cases ty) (auto simp: check_defs split: option.splits)

text \<open>A reply of an unexpected type leaves the value; only a \<open>redisReply\<close> is always stored.\<close>

lemma parse_keeps: "outcome ty (Some r) \<noteq> Status_okay \<Longrightarrow> ty \<noteq> T_reply \<Longrightarrow> reply_val (parseReplyObject ty r c) = reply_val c"
  by (cases ty) (auto simp: outcome_def check_defs split: option.splits if_splits)

lemma process_outcome:
  "reply_status (processReply r c) = outcome (ctype c) r"
  "ctype (processReply r c) = ctype c"
  "invoked (processReply r c) = invoked c @ [(outcome (ctype c) r, reply_val (processReply r c))]"
  "has_type (ctype c) (reply_val c) \<Longrightarrow> has_type (ctype c) (reply_val (processReply r c))"
  by (auto simp: processReply_def invoke_def parse_outcome outcome_def parse_typed Let_def split: option.splits)

text \<open>
  C18. A command calls its callback once for each reply, with the status that the type of the
  reply determines: okay exactly for the types of reply its value type expects, else error, nil
  or wrong type; and the value it hands over always has its type, whatever the server sends.
\<close>

theorem command_outcomes:
  assumes "has_type ty v"
  shows "map fst (invoked (foldl (\<lambda>c r. processReply r c) (new_command ty cmd v) rs)) = map (outcome ty) rs \<and>
    list_all (\<lambda>(_, w). has_type ty w) (invoked (foldl (\<lambda>c r. processReply r c) (new_command ty cmd v) rs))"
proof -
  have "map fst (invoked (foldl (\<lambda>c r. processReply r c) c rs)) = map fst (invoked c) @ map (outcome (ctype c)) rs \<and>
    list_all (\<lambda>(_, w). has_type (ctype c) w) (invoked (foldl (\<lambda>c r. processReply r c) c rs))"
    if "has_type (ctype c) (reply_val c)" "list_all (\<lambda>(_, w). has_type (ctype c) w) (invoked c)" for c
    using that
  proof (induction rs arbitrary: c)
    case (Cons r rs)
    then show ?case using Cons.IH[of "processReply r c"] by (simp add: process_outcome)
  qed simp
  from this[of "new_command ty cmd v"] assms show ?thesis by (simp add: new_command_def)
qed

lemma command_outcomes_witness:
  "map fst (invoked (foldl (\<lambda>c r. processReply r c) (new_command T_uint16 [''INCR'', ''k''] (V_uint16 0))
     [Some (Reply 3 70000 None []), Some (Reply 4 0 None []), None, Some (Reply 1 0 (Some ''7'') [])]))
   = [Status_okay, Status_nil, Status_error, Status_wrone_type]"
  using command_outcomes[of T_uint16 "V_uint16 0" "[''INCR'', ''k'']"
    "[Some (Reply 3 70000 None []), Some (Reply 4 0 None []), None, Some (Reply 1 0 (Some ''7'') [])]"]
  by (simp add: outcome_def)

text \<open>
  The callback of \<open>GET\<close> cannot tell a missing key, a key of another type or an error
  from an empty value: in all of these cases it is called, with the empty string.
\<close>

theorem get_failure_hidden:
  assumes "outcome T_string r \<noteq> Status_okay"
  shows "GET_callback (processReply r (new_command T_string (GET key) (V_string []))) =
    GET_callback (processReply (Some (Reply REDIS_REPLY_STRING 0 (Some []) [])) (new_command T_string (GET key) (V_string [])))"
proof -
  have "reply_val (processReply r (new_command T_string (GET key) (V_string []))) = V_string []"
    using assms parse_keeps[of T_string]
    by (auto simp: processReply_def invoke_def new_command_def Let_def split: option.splits)
  moreover have "reply_val (processReply (Some (Reply REDIS_REPLY_STRING 0 (Some []) [])) (new_command T_string (GET key) (V_string [])))
      = V_string []"
    by (simp add: processReply_def invoke_def new_command_def check_defs str_len_def)
  ultimately show ?thesis by (simp add: GET_callback_def)
qed

lemma get_failure_hidden_witness:
  "GET_callback (processReply (Some (Reply REDIS_REPLY_ERROR 0 (Some ''WRONGTYPE'') [])) (new_command T_string (GET ''k'') (V_string [])))
    = Some (V_string [])"
  using get_failure_hidden[of "Some (Reply REDIS_REPLY_ERROR 0 (Some ''WRONGTYPE'') [])" "''k''"]
  by (simp add: outcome_def GET_callback_def processReply_def invoke_def new_command_def check_defs str_len_def)

subsection \<open>Hashes\<close>

fun pairs_of :: "string list \<Rightarrow> (string \<times> string) list" where
  "pairs_of (f # v # xs) = (f, v) # pairs_of xs"
| "pairs_of _ = []"

lemma pairs_of_interleave: "length fs = length vs \<Longrightarrow> pairs_of (interleave fs vs) = zip fs vs"
  by (induction fs vs rule: list_induct2) simp_all

lemma first_insert:
  "foldl (\<lambda>kvs (f, v). if kvs f = None then kvs(f \<mapsto> v) else kvs) m xs = map_of xs ++ m"
proof (induction xs arbitrary: m)
  case (Cons x xs)
  obtain f v where x: "x = (f, v)" by fastforce
  show ?case
    by (cases "m f") (auto simp: x Cons.IH map_add_def fun_eq_iff split: option.splits)
qed simp

lemma map_of_zip_fun: "map_of (zip fs (map g fs)) f = (if f \<in> set fs then Some (g f) else None)"
  by (induction fs) auto

text \<open>
  Hashes: the words of \<open>HMSET\<close> pair up to the map that was given, in whatever order its
  pairs come. A server that answers \<open>HMGET\<close> from these pairs, as Redis documents it (the value
  of each field in turn, nil for a missing one), makes the callback get each field it asked for
  with its value; a missing field arrives as the empty string.
\<close>

theorem hash_roundtrip:
  assumes "distinct (map fst kvs)" "kvs \<noteq> []" "key \<noteq> []"
    and "elements r = map (\<lambda>f. case map_of (pairs_of (drop 2 (the (HMSET_map key kvs)))) f of
      Some v \<Rightarrow> Reply REDIS_REPLY_STRING 0 (Some v) [] | None \<Rightarrow> Reply REDIS_REPLY_NIL 0 None []) (drop 2 (HMGET key fs))"
    and "rtype r = REDIS_REPLY_ARRAY"
  shows "take 2 (the (HMSET_map key kvs)) = [''HMSET'', key] \<and>
    HMGET_callback fs (processReply (Some r) (new_command T_vector (HMGET key fs) (V_vector []))) =
    Some (\<lambda>f. if f \<in> set fs then Some (case map_of kvs f of Some v \<Rightarrow> v | None \<Rightarrow> []) else None)"
proof -
  have w: "HMSET_map key kvs = Some ([''HMSET'', key] @ interleave (map fst kvs) (map snd kvs))"
    using assms(2,3) by (simp add: HMSET_map_def HMSET_def)
  have p: "pairs_of (drop 2 (the (HMSET_map key kvs))) = kvs"
    by (simp add: w pairs_of_interleave zip_map_fst_snd)
  define g where "g f = (case map_of kvs f of Some v \<Rightarrow> v | None \<Rightarrow> [])" for f
  have "map str_len (elements r) = map g fs"
    using assms(4) by (auto simp: p HMGET_def g_def str_len_def split: option.splits)
  then have "reply_val (processReply (Some r) (new_command T_vector (HMGET key fs) (V_vector []))) = V_vector (map g fs)"
    "reply_status (processReply (Some r) (new_command T_vector (HMGET key fs) (V_vector []))) = Status_okay"
    using assms(5) by (simp_all add: processReply_def invoke_def new_command_def check_defs)
  then show ?thesis
    by (auto simp: w HMGET_callback_def ok_def first_insert map_of_zip_fun fun_eq_iff g_def)
qed

lemma hash_roundtrip_witness:
  "HMGET_callback [''b'', ''x''] (processReply (Some (Reply REDIS_REPLY_ARRAY 0 None
      [Reply REDIS_REPLY_STRING 0 (Some ''2'') [], Reply REDIS_REPLY_NIL 0 None []]))
    (new_command T_vector (HMGET ''h'' [''b'', ''x'']) (V_vector []))) = Some [''b'' \<mapsto> ''2'', ''x'' \<mapsto> []]"
  using hash_roundtrip[of "[(''a'', ''1''), (''b'', ''2'')]" "''h''" "Reply REDIS_REPLY_ARRAY 0 None
      [Reply REDIS_REPLY_STRING 0 (Some ''2'') [], Reply REDIS_REPLY_NIL 0 None []]" "[''b'', ''x'']"]
  by (auto simp: HMSET_map_def HMSET_def HMGET_def fun_eq_iff)

subsection \<open>Sorted sets\<close>

lemma atol_c_str_decimal: "n < 2 ^ 63 \<Longrightarrow> atol (c_str (decimal n)) = int n"
proof -
  assume n: "n < 2 ^ 63"
  have "NUL \<notin> set (decimal n)" using decimal_digits[of NUL n] by (auto simp: is_digit_def less_eq_char_def)
  then have "c_str (decimal n) = decimal n" by (auto simp: c_str_def takeWhile_eq_all_conv)
  then show ?thesis using n by (simp add: atol_decimal)
qed

lemma score_insert_last: "\<forall>kv\<in>set m. fst kv \<le> k \<Longrightarrow> score_insert k v m = m @ [(k, v)]"
  by (induction m) auto

lemma score_pairs_sorted:
  "sorted (map fst m @ map (\<lambda>(s, v). int s) sv) \<Longrightarrow> \<forall>(s, v)\<in>set sv. s < 2 ^ 63 \<Longrightarrow>
   score_pairs (concat (map (\<lambda>(s, v). [v, decimal s]) sv)) m = m @ map (\<lambda>(s, v). (int s, v)) sv"
proof (induction sv arbitrary: m)
  case (Cons x sv)
  obtain s v where x: "x = (s, v)" by fastforce
  have "score_insert (int s) v m = m @ [(int s, v)]"
    using Cons.prems(1) by (intro score_insert_last) (auto simp: x sorted_append)
  then show ?case using Cons by (simp add: x atol_c_str_decimal)
qed simp

text \<open>
  Sorted sets: what \<open>ZRANGE ... WITHSCORES\<close> returns as Redis documents it, the members in
  ascending order of their scores and each before its score, arrives at the callback as the
  same pairs in the same order, for whole scores up to \<open>2^63\<close>.
\<close>

theorem scores_roundtrip:
  assumes "sorted (map fst sv)" "\<forall>(s, v)\<in>set sv. s < 2 ^ 63"
    and "map str_len (elements r) = concat (map (\<lambda>(s, v). [v, decimal s]) sv)" "rtype r = REDIS_REPLY_ARRAY"
  shows "scores_callback (processReply (Some r) (new_command T_vector (ZRANGE_WITHSCORES key i j) (V_vector []))) =
    Some (map (\<lambda>(s, v). (int s, v)) sv)"
proof -
  have "sorted (map fst [] @ map (\<lambda>(s, v). int s) sv)" using assms(1) by (induction sv) auto
  then show ?thesis
    using score_pairs_sorted[of "[]" sv] assms(2-4)
    by (simp add: scores_callback_def ok_def processReply_def invoke_def new_command_def check_defs)
qed

lemma scores_roundtrip_witness:
  "scores_callback (processReply (Some (Reply REDIS_REPLY_ARRAY 0 None (map (\<lambda>s. Reply REDIS_REPLY_STRING 0 (Some s) [])
     [''a'', ''7'', ''b'', ''12'']))) (new_command T_vector (ZRANGE_WITHSCORES ''z'' 0 1) (V_vector []))) = Some [(7, ''a''), (12, ''b'')]"
proof -
  have "decimal 7 = ''7''" "decimal 12 = ''12''" by code_simp+
  then show ?thesis
    using scores_roundtrip[of "[(7, ''a''), (12, ''b'')]" "Reply REDIS_REPLY_ARRAY 0 None (map (\<lambda>s. Reply REDIS_REPLY_STRING 0 (Some s) [])
     [''a'', ''7'', ''b'', ''12''])" "''z''" 0 1] by (simp add: str_len_def)
qed

subsection \<open>Words and lines\<close>

text \<open>
  \<open>strToVec\<close> and \<open>vecToStr\<close> undo each other: joining the words of a text gives the text
  back, and splitting joined words gives the words back when none contains the delimiter.
\<close>

theorem words_roundtrip:
  assumes "ws \<noteq> []" "\<forall>w\<in>set ws. d \<notin> set w"
  shows "vecToStr d (strToVec d s) = Some s \<and> strToVec d (the (vecToStr d ws)) = ws"
proof
  show "vecToStr d (strToVec d s) = Some s"
  proof (induction d s rule: strToVec.induct)
    case (1 d s)
    show ?case
    proof (cases "strchr s d")
      case None
      then show ?thesis by (subst strToVec.simps) (simp add: vecToStr_def)
    next
      case (Some n)
      have "n < length s \<and> s ! n = d"
        using Some nth_length_takeWhile[of "\<lambda>c. c \<noteq> d" s] by (auto simp: strchr_def Let_def split: if_splits)
      then have "take n s @ d # drop (Suc n) s = s" by (metis id_take_nth_drop)
      moreover have "strToVec d (drop (Suc n) s) \<noteq> []" by (subst strToVec.simps) (simp split: option.splits)
      ultimately show ?thesis using 1[OF Some] Some
        by (subst strToVec.simps) (auto simp: vecToStr_def split: if_splits)
    qed
  qed
  show "strToVec d (the (vecToStr d ws)) = ws"
    using assms
  proof (induction ws rule: induct_list012)
    case (2 w)
    then have "strchr w d = None" by (simp add: strchr_None)
    then show ?case by (subst strToVec.simps) (simp add: vecToStr_def)
  next
    case (3 w x ws)
    then have "strToVec d (w @ d # the (vecToStr d (x # ws))) = w # x # ws"
      by (subst strToVec.simps) (simp add: strchr_Some)
    then show ?case by (simp add: vecToStr_def)
  qed simp
qed

lemma words_roundtrip_witness:
  "strToVec CHR '' '' ''SET k v'' = [''SET'', ''k'', ''v'']"
  using words_roundtrip[of "[''SET'', ''k'', ''v'']" "CHR '' ''" "[]"] by (simp add: vecToStr_def)

end
