(* ===== verification/Proto_Wire.thy ===== *)
theory Proto_Wire
  imports Prelude
begin

text \<open>
  The wire format of protobuf, as its documentation gives it: a message is a sequence of
  fields, a field a key (number and wire type) with a varint, eight bytes or a block of
  bytes behind its length. The sources only call protobuf, so their models take its
  functions as parameters with a contract. This theory is the instance of the parameters
  that shows that the contracts can hold and that the witnesses compute with.
\<close>

datatype wire = Varint nat | Fixed64 u64 | Len bytes

type_synonym fields = "(nat \<times> wire) list"

fun varint :: "nat \<Rightarrow> bytes" where
  "varint n = (if n < 128 then [of_nat n] else of_nat (n mod 128 + 128) # varint (n div 128))"

declare varint.simps [simp del]

fun get_varint :: "bytes \<Rightarrow> (nat \<times> bytes) option" where
  "get_varint [] = None"
| "get_varint (b # bs) =
     (if unat b < 128 then Some (unat b, bs)
      else (case get_varint bs of None \<Rightarrow> None | Some (n, bs) \<Rightarrow> Some (unat b - 128 + 128 * n, bs)))"

fun put_field :: "nat \<times> wire \<Rightarrow> bytes" where
  "put_field (k, Varint n) = varint (8 * k) @ varint n"
| "put_field (k, Fixed64 w) = varint (8 * k + 1) @ put_le 8 w"
| "put_field (k, Len d) = varint (8 * k + 2) @ varint (length d) @ d"

definition put_fields :: "fields \<Rightarrow> bytes" where
  "put_fields fs = concat (map put_field fs)"

definition get_field :: "bytes \<Rightarrow> ((nat \<times> wire) \<times> bytes) option" where
  "get_field bs =
     (case get_varint bs of
        None \<Rightarrow> None
      | Some (t, bs) \<Rightarrow>
          if t mod 8 = 0 then map_option (\<lambda>(n, bs). ((t div 8, Varint n), bs)) (get_varint bs)
          else if t mod 8 = 1 then
            if length bs < 8 then None else Some ((t div 8, Fixed64 (get_le (take 8 bs))), drop 8 bs)
          else if t mod 8 = 2 then
            (case get_varint bs of
               None \<Rightarrow> None
             | Some (n, bs) \<Rightarrow> if length bs < n then None else Some ((t div 8, Len (take n bs)), drop n bs))
          else None)"

function get_fields :: "bytes \<Rightarrow> fields option" where
  "get_fields bs =
     (if bs = [] then Some []
      else (case get_field bs of
          None \<Rightarrow> None
        | Some (f, rest) \<Rightarrow>
            if length rest < length bs then map_option (Cons f) (get_fields rest) else None))"
  by auto
termination by (relation "measure length") auto

declare get_fields.simps [simp del]

subsection \<open>Reading what was written\<close>

lemma varint_not_Nil [simp]: "varint n \<noteq> []"
  by (subst varint.simps) simp

lemma get_varint_varint [simp]: "get_varint (varint n @ rest) = Some (n, rest)"
proof (induction n rule: varint.induct)
  case (1 n)
  show ?case
  proof (cases "n < 128")
    case True
    then show ?thesis by (subst varint.simps) (simp add: unat_of_nat)
  next
    case False
    have "unat (of_nat (n mod 128 + 128) :: u8) = n mod 128 + 128"
      by (simp only: unat_of_nat) simp
    then show ?thesis using 1 False by (subst varint.simps) (simp del: of_nat_add)
  qed
qed

lemma put_field_not_Nil [simp]: "put_field f \<noteq> []"
  by (cases f rule: put_field.cases) simp_all

lemma get_put_field [simp]: "get_field (put_field f @ rest) = Some (f, rest)"
proof (cases f rule: put_field.cases)
  case (1 k n)
  then show ?thesis by (simp add: get_field_def)
next
  case (2 k w)
  then show ?thesis by (simp add: get_field_def get_put_le take_bit_word_eq_self)
next
  case (3 k d)
  moreover have "(8 * k + 2) mod 8 = 2" "(8 * k + 2) div 8 = k" by presburger+
  ultimately show ?thesis by (simp add: get_field_def del: add_2_eq_Suc')
qed

lemma put_fields_simps [simp]:
  "put_fields [] = []" "put_fields (f # fs) = put_field f @ put_fields fs"
  by (simp_all add: put_fields_def)

lemma get_put_fields [simp]: "get_fields (put_fields fs) = Some fs"
  by (induction fs) (simp_all add: get_fields.simps[of "put_field _ @ _"] get_fields.simps[of "[]"])

lemma put_fields_Nil [simp]: "put_fields fs = [] \<longleftrightarrow> fs = []"
  by (cases fs) simp_all

lemma length_put_field_Len: "length d \<le> length (put_field (k, Len d))"
  by simp

lemma length_put_fields: "f \<in> set fs \<Longrightarrow> length (put_field f) \<le> length (put_fields fs)"
  by (induction fs) auto

lemma length_put_fields_Len: "(k, Len d) \<in> set fs \<Longrightarrow> length d \<le> length (put_fields fs)"
  using length_put_fields[of "(k, Len d)" fs] length_put_field_Len[of d k] by simp

subsection \<open>Fields of a message\<close>

text \<open>Of an optional field the last occurrence counts, of a repeated one all of them do.\<close>

definition last_field :: "(wire \<Rightarrow> 'v option) \<Rightarrow> nat \<Rightarrow> fields \<Rightarrow> 'v option" where
  "last_field get k fs = (case List.map_filter (\<lambda>(n, w). if n = k then get w else None) fs of [] \<Rightarrow> None | vs \<Rightarrow> Some (last vs))"

definition all_fields :: "(wire \<Rightarrow> 'v option) \<Rightarrow> nat \<Rightarrow> fields \<Rightarrow> 'v list" where
  "all_fields get k fs = List.map_filter (\<lambda>(n, w). if n = k then get w else None) fs"

definition opt_field :: "('v \<Rightarrow> wire) \<Rightarrow> nat \<Rightarrow> 'v option \<Rightarrow> fields" where
  "opt_field put k v = (case v of None \<Rightarrow> [] | Some v \<Rightarrow> [(k, put v)])"

fun as_varint :: "wire \<Rightarrow> nat option" where
  "as_varint (Varint n) = Some n" | "as_varint _ = None"
fun as_fixed64 :: "wire \<Rightarrow> u64 option" where
  "as_fixed64 (Fixed64 w) = Some w" | "as_fixed64 _ = None"
fun as_len :: "wire \<Rightarrow> bytes option" where
  "as_len (Len d) = Some d" | "as_len _ = None"

lemma map_filter_opt [simp]:
  "List.map_filter f [] = []"
  "List.map_filter f (x # xs) = (case f x of None \<Rightarrow> List.map_filter f xs | Some y \<Rightarrow> y # List.map_filter f xs)"
  by (simp_all add: List.map_filter_def split: option.splits)

lemma map_filter_append [simp]: "List.map_filter f (xs @ ys) = List.map_filter f xs @ List.map_filter f ys"
  by (simp add: List.map_filter_def)

end
