(* ===== verification/Serializer.thy ===== *)
theory Serializer
  imports Proto_Wire "HOL-Library.Multiset"
begin

text \<open>
  \<open>common/tinyserializer.h\<close> and \<open>common/tinyserializer_proto.h\<close>: the serializers of
  integers, floats, strings, protobuf messages, containers and classes, and the archiver.
  A \<open>ProtoSerializer<T>\<close> is a record of its two functions and of the object that
  \<open>T obj;\<close> declares (for a scalar some unspecified value); the serializer of a container
  is a function of the serializers of its members, as the templates are.

  The messages of \<open>archive.proto\<close> are given by the values of their fields. How protobuf
  encodes them is the parameter \<open>pb\<close>; the contract \<open>protobuf_ok\<close> is what its documentation
  promises for messages below its limit of 2 GB.

  The locale \<open>serializer\<close> is the contract of a serializer: what it has serialized it
  deserializes to the same value. The locale \<open>container\<close> is what the serializers of
  containers need from the container of the standard library.
\<close>

subsection \<open>The messages and protobuf\<close>

type_synonym IntegerProto = "u64 option"
type_synonym FloatProto = "u64 option"
type_synonym StringProto = "bytes option"
type_synonym ArchiveMemberProto = "bytes option"
type_synonym SequenceProto = "ArchiveMemberProto list"
type_synonym AssociateProto = "(ArchiveMemberProto option \<times> ArchiveMemberProto option) list"

record protobuf =
  integer_ser :: "IntegerProto \<Rightarrow> bytes"
  integer_parse :: "bytes \<Rightarrow> IntegerProto option"
  float_ser :: "FloatProto \<Rightarrow> bytes"
  float_parse :: "bytes \<Rightarrow> FloatProto option"
  string_ser :: "StringProto \<Rightarrow> bytes"
  string_parse :: "bytes \<Rightarrow> StringProto option"
  sequence_ser :: "SequenceProto \<Rightarrow> bytes"
  sequence_parse :: "bytes \<Rightarrow> SequenceProto option"
  associate_ser :: "AssociateProto \<Rightarrow> bytes"
  associate_parse :: "bytes \<Rightarrow> AssociateProto option"

definition proto_limit :: nat where
  "proto_limit = 2 ^ 31"

definition codec :: "('m \<Rightarrow> bytes) \<Rightarrow> (bytes \<Rightarrow> 'm option) \<Rightarrow> bool" where
  "codec ser parse \<longleftrightarrow> (\<forall>m. length (ser m) < proto_limit \<longrightarrow> parse (ser m) = Some m)"

definition protobuf_ok :: "protobuf \<Rightarrow> bool" where
  "protobuf_ok pb \<longleftrightarrow>
     codec (integer_ser pb) (integer_parse pb) \<and> codec (float_ser pb) (float_parse pb) \<and>
     codec (string_ser pb) (string_parse pb) \<and> codec (sequence_ser pb) (sequence_parse pb) \<and>
     codec (associate_ser pb) (associate_parse pb) \<and>
     (\<forall>ms d. Some d \<in> set ms \<longrightarrow> length d \<le> length (sequence_ser pb ms)) \<and>
     (\<forall>ms k v. (Some (Some k), Some (Some v)) \<in> set ms \<longrightarrow>
        length k \<le> length (associate_ser pb ms) \<and> length v \<le> length (associate_ser pb ms)) \<and>
     (\<forall>ms. sequence_ser pb ms = [] \<longleftrightarrow> ms = [])"

text \<open>Reading an unset field gives its default.\<close>

definition get_number :: "u64 option \<Rightarrow> u64" where
  "get_number m = (case m of Some v \<Rightarrow> v | None \<Rightarrow> 0)"

definition get_bytes :: "bytes option \<Rightarrow> bytes" where
  "get_bytes m = (case m of Some v \<Rightarrow> v | None \<Rightarrow> [])"

definition get_member :: "ArchiveMemberProto option \<Rightarrow> bytes" where
  "get_member m = (case m of Some v \<Rightarrow> get_bytes v | None \<Rightarrow> [])"

subsection \<open>Serializers\<close>

record 'a proto_serializer =
  construct :: 'a
  serialize :: "'a \<Rightarrow> bytes"
  deserialize :: "'a \<Rightarrow> bytes \<Rightarrow> bool \<times> 'a"

text \<open>
  Integers of any width up to 64 bits: \<open>set_value(value)\<close> converts to \<open>uint64\<close>, extending
  the sign of a signed type, and \<open>value = proto.value()\<close> converts back by truncation.
\<close>

definition Impl_Integer_signed :: "protobuf \<Rightarrow> 'n::len word \<Rightarrow> 'n word proto_serializer" where
  "Impl_Integer_signed pb obj = \<lparr>
     construct = obj,
     serialize = (\<lambda>value. integer_ser pb (Some (scast value))),
     deserialize = (\<lambda>value bin. case integer_parse pb bin of
         Some proto \<Rightarrow> (True, ucast (get_number proto)) | None \<Rightarrow> (False, value))\<rparr>"

definition Impl_Integer_unsigned :: "protobuf \<Rightarrow> 'n::len word \<Rightarrow> 'n word proto_serializer" where
  "Impl_Integer_unsigned pb obj = \<lparr>
     construct = obj,
     serialize = (\<lambda>value. integer_ser pb (Some (ucast value))),
     deserialize = (\<lambda>value bin. case integer_parse pb bin of
         Some proto \<Rightarrow> (True, ucast (get_number proto)) | None \<Rightarrow> (False, value))\<rparr>"

definition Impl_Integer_bool :: "protobuf \<Rightarrow> bool \<Rightarrow> bool proto_serializer" where
  "Impl_Integer_bool pb obj = \<lparr>
     construct = obj,
     serialize = (\<lambda>value. integer_ser pb (Some (if value then 1 else 0))),
     deserialize = (\<lambda>value bin. case integer_parse pb bin of
         Some proto \<Rightarrow> (True, get_number proto \<noteq> 0) | None \<Rightarrow> (False, value))\<rparr>"

text \<open>
  \<open>float\<close> and \<open>double\<close>: a \<open>double\<close> is its 64 bits, \<open>to_double\<close> and \<open>of_double\<close> are the
  conversions of the type to and from it (the identity for \<open>double\<close>).
\<close>

definition Impl_Float :: "protobuf \<Rightarrow> ('f \<Rightarrow> u64) \<Rightarrow> (u64 \<Rightarrow> 'f) \<Rightarrow> 'f \<Rightarrow> 'f proto_serializer" where
  "Impl_Float pb to_double of_double obj = \<lparr>
     construct = obj,
     serialize = (\<lambda>value. float_ser pb (Some (to_double value))),
     deserialize = (\<lambda>value bin. case float_parse pb bin of
         Some proto \<Rightarrow> (True, of_double (get_number proto)) | None \<Rightarrow> (False, value))\<rparr>"

definition Impl_String :: "protobuf \<Rightarrow> bytes proto_serializer" where
  "Impl_String pb = \<lparr>
     construct = [],
     serialize = (\<lambda>value. string_ser pb (Some value)),
     deserialize = (\<lambda>value bin. case string_parse pb bin of
         Some proto \<Rightarrow> (True, get_bytes proto) | None \<Rightarrow> (False, value))\<rparr>"

text \<open>
  A message generated by protobuf and a class of the user bring their functions with them;
  \<open>parse\<close> may change the object and fail.
\<close>

definition Impl_Proto :: "'m \<Rightarrow> ('m \<Rightarrow> bytes) \<Rightarrow> ('m \<Rightarrow> bytes \<Rightarrow> bool \<times> 'm) \<Rightarrow> 'm proto_serializer" where
  "Impl_Proto obj SerializeAsString ParseFromString =
     \<lparr>construct = obj, serialize = SerializeAsString, deserialize = ParseFromString\<rparr>"

definition Impl_UserDefined :: "'m \<Rightarrow> ('m \<Rightarrow> bytes) \<Rightarrow> ('m \<Rightarrow> bytes \<Rightarrow> bool \<times> 'm) \<Rightarrow> 'm proto_serializer" where
  "Impl_UserDefined obj ser deser = \<lparr>construct = obj, serialize = ser, deserialize = deser\<rparr>"

text \<open>
  Containers are lists in the order of their iteration. A member whose bytes do not
  deserialize is left out. \<open>ins\<close> is the container's \<open>insert\<close>.
\<close>

definition Impl_Seq :: "protobuf \<Rightarrow> 'a proto_serializer \<Rightarrow> 'a list proto_serializer" where
  "Impl_Seq pb member = \<lparr>
     construct = [],
     serialize = (\<lambda>objects. sequence_ser pb (map (\<lambda>v. Some (serialize member v)) objects)),
     deserialize = (\<lambda>objects bin. case sequence_parse pb bin of
         Some proto \<Rightarrow> (True, foldl (\<lambda>objects m.
             case deserialize member (construct member) (get_bytes m) of
               (True, obj) \<Rightarrow> objects @ [obj] | (False, _) \<Rightarrow> objects) objects proto)
       | None \<Rightarrow> (False, objects))\<rparr>"

definition Impl_Set :: "protobuf \<Rightarrow> ('a \<Rightarrow> 'a list \<Rightarrow> 'a list) \<Rightarrow> 'a proto_serializer \<Rightarrow> 'a list proto_serializer" where
  "Impl_Set pb ins member = \<lparr>
     construct = [],
     serialize = (\<lambda>objects. sequence_ser pb (map (\<lambda>v. Some (serialize member v)) objects)),
     deserialize = (\<lambda>objects bin. case sequence_parse pb bin of
         Some proto \<Rightarrow> (True, foldl (\<lambda>objects m.
             case deserialize member (construct member) (get_bytes m) of
               (True, obj) \<Rightarrow> ins obj objects | (False, _) \<Rightarrow> objects) objects proto)
       | None \<Rightarrow> (False, objects))\<rparr>"

definition Impl_Map :: "protobuf \<Rightarrow> ('k \<times> 'v \<Rightarrow> ('k \<times> 'v) list \<Rightarrow> ('k \<times> 'v) list)
    \<Rightarrow> 'k proto_serializer \<Rightarrow> 'v proto_serializer \<Rightarrow> ('k \<times> 'v) list proto_serializer" where
  "Impl_Map pb ins ks vs = \<lparr>
     construct = [],
     serialize = (\<lambda>objects. associate_ser pb
         (map (\<lambda>(k, v). (Some (Some (serialize ks k)), Some (Some (serialize vs v)))) objects)),
     deserialize = (\<lambda>objects bin. case associate_parse pb bin of
         Some proto \<Rightarrow> (True, foldl (\<lambda>objects (mk, mv).
             case deserialize ks (construct ks) (get_member mk) of
               (True, k) \<Rightarrow> (case deserialize vs (construct vs) (get_member mv) of
                   (True, v) \<Rightarrow> ins (k, v) objects | (False, _) \<Rightarrow> objects)
             | (False, _) \<Rightarrow> objects) objects proto)
       | None \<Rightarrow> (False, objects))\<rparr>"

text \<open>The copies for the unordered containers.\<close>

definition Impl_HashSet :: "protobuf \<Rightarrow> ('a \<Rightarrow> 'a list \<Rightarrow> 'a list) \<Rightarrow> 'a proto_serializer \<Rightarrow> 'a list proto_serializer" where
  "Impl_HashSet pb ins member = Impl_Set pb ins member"

definition Impl_HashMap :: "protobuf \<Rightarrow> ('k \<times> 'v \<Rightarrow> ('k \<times> 'v) list \<Rightarrow> ('k \<times> 'v) list)
    \<Rightarrow> 'k proto_serializer \<Rightarrow> 'v proto_serializer \<Rightarrow> ('k \<times> 'v) list proto_serializer" where
  "Impl_HashMap pb ins ks vs = Impl_Map pb ins ks vs"

subsection \<open>Which serializer a type has\<close>

datatype cpp_type =
    Int8 | Int16 | Int32 | Int64 | UInt8 | UInt16 | UInt32 | UInt64 | Bool | Single | Double | StdString
  | Vector cpp_type | StdList cpp_type | Deque cpp_type
  | StdSet cpp_type | Multiset cpp_type | UnorderedSet cpp_type | UnorderedMultiset cpp_type
  | StdMap cpp_type cpp_type | Multimap cpp_type cpp_type
  | UnorderedMap cpp_type cpp_type | UnorderedMultimap cpp_type cpp_type
  | ProtobufMessage | OtherClass

datatype ProtoTypeEnum =
    kProtoType_UserDefined | kProtoType_Proto | kProtoType_Integer | kProtoType_Float | kProtoType_String
  | kProtoType_Seq | kProtoType_Set | kProtoType_Map | kProtoType_HashSet | kProtoType_HashMap

fun ProtoCase :: "cpp_type \<Rightarrow> ProtoTypeEnum" where
  "ProtoCase Int8 = kProtoType_Integer" | "ProtoCase Int16 = kProtoType_Integer"
| "ProtoCase Int32 = kProtoType_Integer" | "ProtoCase Int64 = kProtoType_Integer"
| "ProtoCase UInt8 = kProtoType_Integer" | "ProtoCase UInt16 = kProtoType_Integer"
| "ProtoCase UInt32 = kProtoType_Integer" | "ProtoCase UInt64 = kProtoType_Integer"
| "ProtoCase Bool = kProtoType_Integer"
| "ProtoCase Single = kProtoType_Float" | "ProtoCase Double = kProtoType_Float"
| "ProtoCase StdString = kProtoType_String"
| "ProtoCase (Vector t) = kProtoType_Seq" | "ProtoCase (StdList t) = kProtoType_Seq"
| "ProtoCase (Deque t) = kProtoType_Seq"
| "ProtoCase (StdSet t) = kProtoType_Set" | "ProtoCase (Multiset t) = kProtoType_Set"
| "ProtoCase (UnorderedSet t) = kProtoType_HashSet" | "ProtoCase (UnorderedMultiset t) = kProtoType_HashSet"
| "ProtoCase (StdMap k v) = kProtoType_Map" | "ProtoCase (Multimap k v) = kProtoType_Map"
| "ProtoCase (UnorderedMap k v) = kProtoType_HashMap" | "ProtoCase (UnorderedMultimap k v) = kProtoType_HashMap"
| "ProtoCase ProtobufMessage = kProtoType_Proto" | "ProtoCase OtherClass = kProtoType_UserDefined"

subsection \<open>The archiver\<close>

record archiver =
  members :: "ArchiveMemberProto list"
  read_pos :: nat

definition archive_put :: "'a proto_serializer \<Rightarrow> 'a \<Rightarrow> archiver \<Rightarrow> archiver" where
  "archive_put S obj ar = ar\<lparr>members := members ar @ [Some (serialize S obj)]\<rparr>"

definition archive_get :: "'a proto_serializer \<Rightarrow> 'a \<Rightarrow> archiver \<Rightarrow> 'a \<times> archiver" where
  "archive_get S obj ar =
     (if read_pos ar < length (members ar)
      then let obj = snd (deserialize S obj (get_bytes (members ar ! read_pos ar)))
        in (obj, ar\<lparr>read_pos := read_pos ar + 1\<rparr>)
      else (obj, ar))"


subsection \<open>The containers of the standard library\<close>

text \<open>
  \<open>push_back\<close>; \<open>insert\<close> of \<open>set\<close>, \<open>multiset\<close>, \<open>map\<close> and \<open>multimap\<close>, sorted by key, where an
  equal key keeps the old element or comes behind its equals; \<open>insert\<close> of the unordered
  containers, which put the new element at some place \<open>place\<close> of their order.
\<close>

definition push_back :: "'a \<Rightarrow> 'a list \<Rightarrow> 'a list" where
  "push_back x xs = xs @ [x]"

definition tree_insert :: "('a \<Rightarrow> 'k::linorder) \<Rightarrow> 'a \<Rightarrow> 'a list \<Rightarrow> 'a list" where
  "tree_insert key x xs =
     (if key x \<in> key ` set xs then xs
      else takeWhile (\<lambda>y. key y \<le> key x) xs @ x # dropWhile (\<lambda>y. key y \<le> key x) xs)"

definition multi_tree_insert :: "('a \<Rightarrow> 'k::linorder) \<Rightarrow> 'a \<Rightarrow> 'a list \<Rightarrow> 'a list" where
  "multi_tree_insert key x xs =
     takeWhile (\<lambda>y. key y \<le> key x) xs @ x # dropWhile (\<lambda>y. key y \<le> key x) xs"

definition hash_insert :: "('a \<Rightarrow> 'a list \<Rightarrow> nat) \<Rightarrow> ('a \<Rightarrow> 'k) \<Rightarrow> 'a \<Rightarrow> 'a list \<Rightarrow> 'a list" where
  "hash_insert place key x xs =
     (if key x \<in> key ` set xs then xs else take (place x xs) xs @ x # drop (place x xs) xs)"

definition multi_hash_insert :: "('a \<Rightarrow> 'a list \<Rightarrow> nat) \<Rightarrow> 'a \<Rightarrow> 'a list \<Rightarrow> 'a list" where
  "multi_hash_insert place x xs = take (place x xs) xs @ x # drop (place x xs) xs"

text \<open>
  What they have in common: inserting the members in the order of iteration rebuilds the
  container, in the same order or, for the unordered ones, in some order. Which lists are
  containers depends on the keys only.
\<close>

locale container =
  fixes key :: "'a \<Rightarrow> 'k" and ins :: "'a \<Rightarrow> 'a list \<Rightarrow> 'a list"
    and keys_ok :: "'k list \<Rightarrow> bool" and eqc :: "'a list \<Rightarrow> 'a list \<Rightarrow> bool"
  assumes rebuild: "keys_ok (map key xs) \<Longrightarrow> eqc xs (foldl (\<lambda>c x. ins x c) [] xs)"

lemma foldl_build:
  assumes "\<And>ys x zs. xs = ys @ x # zs \<Longrightarrow> f ys x = ys @ [x]"
  shows "foldl f [] xs = xs"
  using assms
proof (induction xs rule: rev_induct)
  case (snoc x xs)
  have "foldl f [] xs = xs" by (rule snoc.IH) (simp add: snoc.prems)
  then show ?case using snoc.prems[of xs x "[]"] by simp
qed simp

lemma foldl_build_mset:
  assumes "\<And>ys x zs c. xs = ys @ x # zs \<Longrightarrow> mset ys = mset c \<Longrightarrow> mset (f c x) = add_mset x (mset c)"
  shows "mset xs = mset (foldl f [] xs)"
  using assms
proof (induction xs rule: rev_induct)
  case (snoc x xs)
  have "mset xs = mset (foldl f [] xs)" by (rule snoc.IH) (simp add: snoc.prems)
  then show ?case using snoc.prems[of xs x "[]"] by simp
qed simp

lemma take_drop_mset [simp]: "mset (take n xs) + mset (drop n xs) = mset xs"
  by (simp flip: mset_append)

lemma sorted_append_keys:
  fixes key :: "'a \<Rightarrow> 'k::linorder"
  shows "sorted (map key (ys @ x # zs)) \<Longrightarrow> \<forall>y\<in>set ys. key y \<le> key x"
  by (auto simp: sorted_append)

lemma takeWhile_whole: "\<forall>y\<in>set ys. P y \<Longrightarrow> takeWhile P ys @ x # dropWhile P ys = ys @ [x]"
  by (simp add: takeWhile_eq_all_conv[THEN iffD2] dropWhile_eq_Nil_conv[THEN iffD2])

interpretation vector: container "\<lambda>_. ()" push_back "\<lambda>_. True" "(=)"
  by unfold_locales (rule sym, rule foldl_build, simp add: push_back_def)

interpretation tree: container key "tree_insert key" "sorted_wrt (<)" "(=)" for key :: "'a \<Rightarrow> 'k::linorder"
proof unfold_locales
  fix xs :: "'a list" assume s: "sorted_wrt (<) (map key xs)"
  have "tree_insert key x ys = ys @ [x]" if "xs = ys @ x # zs" for ys x zs
  proof -
    have "\<forall>y\<in>set ys. key y < key x" using s that by (simp add: sorted_wrt_append)
    then show ?thesis by (auto simp: tree_insert_def takeWhile_whole less_imp_le)
  qed
  then show "xs = foldl (\<lambda>c x. tree_insert key x c) [] xs" by (rule foldl_build[symmetric])
qed

interpretation multi_tree: container key "multi_tree_insert key" sorted "(=)" for key :: "'a \<Rightarrow> 'k::linorder"
proof unfold_locales
  fix xs :: "'a list" assume "sorted (map key xs)"
  then have "multi_tree_insert key x ys = ys @ [x]" if "xs = ys @ x # zs" for ys x zs
    using sorted_append_keys[of key ys x zs] that by (simp add: multi_tree_insert_def takeWhile_whole)
  then show "xs = foldl (\<lambda>c x. multi_tree_insert key x c) [] xs" by (rule foldl_build[symmetric])
qed

interpretation hash: container key "hash_insert place key" distinct "\<lambda>xs ys. mset xs = mset ys"
  for key :: "'a \<Rightarrow> 'k" and place
proof unfold_locales
  fix xs :: "'a list" assume d: "distinct (map key xs)"
  show "mset xs = mset (foldl (\<lambda>c x. hash_insert place key x c) [] xs)"
  proof (rule foldl_build_mset)
    fix ys x zs c assume "xs = ys @ x # zs" "mset ys = mset c"
    then have "key x \<notin> key ` set c" using d by (auto dest: mset_eq_setD)
    then show "mset (hash_insert place key x c) = add_mset x (mset c)" by (simp add: hash_insert_def)
  qed
qed

interpretation multi_hash: container "\<lambda>_. ()" "multi_hash_insert place" "\<lambda>_. True" "\<lambda>xs ys. mset xs = mset ys" for place
  by unfold_locales (rule foldl_build_mset, simp add: multi_hash_insert_def)


subsection \<open>The contract of a serializer\<close>

locale serializer =
  fixes S :: "'a proto_serializer" and ok :: "'a \<Rightarrow> bool" and same :: "'a \<Rightarrow> 'a \<Rightarrow> bool"
  assumes round_trip: "ok x \<Longrightarrow> length (serialize S x) < proto_limit \<Longrightarrow>
    \<exists>y. deserialize S (construct S) (serialize S x) = (True, y) \<and> same x y"
begin

lemma members_round_trip:
  assumes "\<forall>x\<in>set xs. ok x \<and> length (serialize S x) < proto_limit"
  shows "\<exists>ys. list_all2 same xs ys \<and>
    (\<forall>c. foldl (\<lambda>objects m. case deserialize S (construct S) (get_bytes m) of
          (True, obj) \<Rightarrow> ins obj objects | (False, _) \<Rightarrow> objects) c (map (\<lambda>v. Some (serialize S v)) xs)
      = foldl (\<lambda>c y. ins y c) c ys)"
  using assms
proof (induction xs)
  case (Cons x xs)
  then obtain ys where ys: "list_all2 same xs ys"
      "\<forall>c. foldl (\<lambda>objects m. case deserialize S (construct S) (get_bytes m) of
          (True, obj) \<Rightarrow> ins obj objects | (False, _) \<Rightarrow> objects) c (map (\<lambda>v. Some (serialize S v)) xs)
        = foldl (\<lambda>c y. ins y c) c ys" by auto
  obtain y where "deserialize S (construct S) (serialize S x) = (True, y)" "same x y"
    using round_trip[of x] Cons.prems by auto
  then show ?case using ys by (intro exI[of _ "y # ys"]) (simp add: get_bytes_def)
qed simp

end

lemma scalar_serializer:
  assumes "codec ser parse" and "\<And>x. same x (of_proto (to_proto x))"
    and "\<And>bin x. deserialize S x bin = (case parse bin of Some m \<Rightarrow> (True, of_proto m) | None \<Rightarrow> (False, x))"
    and "\<And>x. serialize S x = ser (to_proto x)"
  shows "serializer S (\<lambda>_. True) same"
  using assms by unfold_locales (auto simp: codec_def)

lemma protobuf_codecs:
  assumes "protobuf_ok pb"
  shows "codec (integer_ser pb) (integer_parse pb)" "codec (float_ser pb) (float_parse pb)"
    "codec (string_ser pb) (string_parse pb)" "codec (sequence_ser pb) (sequence_parse pb)"
    "codec (associate_ser pb) (associate_parse pb)"
  using assms by (simp_all add: protobuf_ok_def)

lemma set_serializer:
  assumes pb: "protobuf_ok pb" and S: "serializer S ok same" and C: "container key ins keys_ok eqc"
    and keys: "\<And>x y. same x y \<Longrightarrow> key x = key y"
  shows "serializer (Impl_Set pb ins S) (\<lambda>xs. keys_ok (map key xs) \<and> (\<forall>x\<in>set xs. ok x))
    (\<lambda>xs zs. \<exists>ys. list_all2 same xs ys \<and> eqc ys zs)"
proof
  fix xs assume ok: "keys_ok (map key xs) \<and> (\<forall>x\<in>set xs. ok x)"
    and small: "length (serialize (Impl_Set pb ins S) xs) < proto_limit"
  define ms where "ms = map (\<lambda>v. Some (serialize S v)) xs"
  have ser: "serialize (Impl_Set pb ins S) xs = sequence_ser pb ms" by (simp add: Impl_Set_def ms_def)
  have "length (serialize S x) < proto_limit" if "x \<in> set xs" for x
    using pb small that unfolding protobuf_ok_def ser ms_def
    by (metis (no_types, lifting) image_eqI list.set_map order.strict_trans1)
  then obtain ys where ys: "list_all2 same xs ys"
      "\<forall>c. foldl (\<lambda>objects m. case deserialize S (construct S) (get_bytes m) of
          (True, obj) \<Rightarrow> ins obj objects | (False, _) \<Rightarrow> objects) c ms = foldl (\<lambda>c y. ins y c) c ys"
    unfolding ms_def using serializer.members_round_trip[OF S, of xs ins] ok by auto
  have "map key xs = map key ys"
    using ys(1) keys by (induction rule: list_all2_induct) auto
  then have "eqc ys (foldl (\<lambda>c y. ins y c) [] ys)" using container.rebuild[OF C, of ys] ok by simp
  moreover have "sequence_parse pb (sequence_ser pb ms) = Some ms"
    using protobuf_codecs(4)[OF pb] small unfolding ser codec_def by blast
  ultimately show "\<exists>y. deserialize (Impl_Set pb ins S) (construct (Impl_Set pb ins S))
      (serialize (Impl_Set pb ins S) xs) = (True, y) \<and> (\<exists>ys. list_all2 same xs ys \<and> eqc ys y)"
    unfolding ser using ys by (auto simp: Impl_Set_def)
qed


lemma Impl_Seq_push_back: "Impl_Seq pb S = Impl_Set pb push_back S"
  unfolding Impl_Seq_def Impl_Set_def push_back_def ..

text \<open>For a map the loop over the messages is that of a sequence of pairs.\<close>

lemma pairs_round_trip:
  assumes K: "serializer ks okk (=)" and V: "serializer vs okv same"
    and "\<forall>(k, v)\<in>set xs. okk k \<and> okv v \<and> length (serialize ks k) < proto_limit \<and> length (serialize vs v) < proto_limit"
  shows "\<exists>ys. list_all2 (rel_prod (=) same) xs ys \<and>
    (\<forall>c. foldl (\<lambda>objects (mk, mv).
          case deserialize ks (construct ks) (get_member mk) of
            (True, k) \<Rightarrow> (case deserialize vs (construct vs) (get_member mv) of
                (True, v) \<Rightarrow> ins (k, v) objects | (False, _) \<Rightarrow> objects)
          | (False, _) \<Rightarrow> objects) c
        (map (\<lambda>(k, v). (Some (Some (serialize ks k)), Some (Some (serialize vs v)))) xs)
      = foldl (\<lambda>c y. ins y c) c ys)"
  using assms(3)
proof (induction xs)
  case (Cons x xs)
  obtain k v where x: "x = (k, v)" by (cases x)
  from Cons obtain ys where ys: "list_all2 (rel_prod (=) same) xs ys"
      "\<forall>c. foldl (\<lambda>objects (mk, mv).
          case deserialize ks (construct ks) (get_member mk) of
            (True, k) \<Rightarrow> (case deserialize vs (construct vs) (get_member mv) of
                (True, v) \<Rightarrow> ins (k, v) objects | (False, _) \<Rightarrow> objects)
          | (False, _) \<Rightarrow> objects) c
        (map (\<lambda>(k, v). (Some (Some (serialize ks k)), Some (Some (serialize vs v)))) xs)
      = foldl (\<lambda>c y. ins y c) c ys" by auto
  have "deserialize ks (construct ks) (serialize ks k) = (True, k)"
    using serializer.round_trip[OF K, of k] Cons.prems by (simp add: x)
  moreover obtain w where "deserialize vs (construct vs) (serialize vs v) = (True, w)" "same v w"
    using serializer.round_trip[OF V, of v] Cons.prems by (auto simp: x)
  ultimately show ?case
    using ys by (intro exI[of _ "(k, w) # ys"]) (simp add: x get_member_def get_bytes_def)
qed simp

lemma map_serializer:
  assumes pb: "protobuf_ok pb" and K: "serializer ks okk (=)" and V: "serializer vs okv same"
    and C: "container fst ins keys_ok eqc"
  shows "serializer (Impl_Map pb ins ks vs) (\<lambda>xs. keys_ok (map fst xs) \<and> (\<forall>(k, v)\<in>set xs. okk k \<and> okv v))
    (\<lambda>xs zs. \<exists>ys. list_all2 (rel_prod (=) same) xs ys \<and> eqc ys zs)"
proof
  fix xs assume ok: "keys_ok (map fst xs) \<and> (\<forall>(k, v)\<in>set xs. okk k \<and> okv v)"
    and small: "length (serialize (Impl_Map pb ins ks vs) xs) < proto_limit"
  define ms where "ms = map (\<lambda>(k, v). (Some (Some (serialize ks k)), Some (Some (serialize vs v)))) xs"
  have ser: "serialize (Impl_Map pb ins ks vs) xs = associate_ser pb ms" by (simp add: Impl_Map_def ms_def)
  have "length (serialize ks k) < proto_limit \<and> length (serialize vs v) < proto_limit" if "(k, v) \<in> set xs" for k v
  proof -
    have "(Some (Some (serialize ks k)), Some (Some (serialize vs v))) \<in> set ms"
      using that by (force simp: ms_def)
    then show ?thesis using pb small unfolding protobuf_ok_def ser by (meson order.strict_trans1)
  qed
  then obtain ys where ys: "list_all2 (rel_prod (=) same) xs ys"
      "\<forall>c. foldl (\<lambda>objects (mk, mv).
          case deserialize ks (construct ks) (get_member mk) of
            (True, k) \<Rightarrow> (case deserialize vs (construct vs) (get_member mv) of
                (True, v) \<Rightarrow> ins (k, v) objects | (False, _) \<Rightarrow> objects)
          | (False, _) \<Rightarrow> objects) c ms = foldl (\<lambda>c y. ins y c) c ys"
    unfolding ms_def using pairs_round_trip[OF K V, of xs ins] ok by fastforce
  have "map fst xs = map fst ys"
    using ys(1) by (induction rule: list_all2_induct) auto
  then have "eqc ys (foldl (\<lambda>c y. ins y c) [] ys)" using container.rebuild[OF C, of ys] ok by simp
  moreover have "associate_parse pb (associate_ser pb ms) = Some ms"
    using protobuf_codecs(5)[OF pb] small unfolding ser codec_def by blast
  ultimately show "\<exists>y. deserialize (Impl_Map pb ins ks vs) (construct (Impl_Map pb ins ks vs))
      (serialize (Impl_Map pb ins ks vs) xs) = (True, y) \<and>
      (\<exists>ys. list_all2 (rel_prod (=) same) xs ys \<and> eqc ys y)"
    unfolding ser using ys by (auto simp: Impl_Map_def)
qed

subsection \<open>An instance of protobuf\<close>

definition member_ser :: "ArchiveMemberProto \<Rightarrow> bytes" where
  "member_ser m = put_fields (opt_field Len 1 m)"

definition member_parse :: "bytes \<Rightarrow> ArchiveMemberProto option" where
  "member_parse b = map_option (last_field as_len 1) (get_fields b)"

definition pair_ser :: "ArchiveMemberProto option \<times> ArchiveMemberProto option \<Rightarrow> bytes" where
  "pair_ser = (\<lambda>(k, v). put_fields (opt_field (\<lambda>m. Len (member_ser m)) 1 k @ opt_field (\<lambda>m. Len (member_ser m)) 2 v))"

definition parse_opt :: "bytes option \<Rightarrow> ArchiveMemberProto option option" where
  "parse_opt b = (case b of None \<Rightarrow> Some None | Some d \<Rightarrow> map_option Some (member_parse d))"

definition pair_parse :: "bytes \<Rightarrow> (ArchiveMemberProto option \<times> ArchiveMemberProto option) option" where
  "pair_parse b = (case get_fields b of
       None \<Rightarrow> None
     | Some fs \<Rightarrow> (case (parse_opt (last_field as_len 1 fs), parse_opt (last_field as_len 2 fs)) of
         (Some k, Some v) \<Rightarrow> Some (k, v) | _ \<Rightarrow> None))"

definition wire_pb :: protobuf where
  "wire_pb = \<lparr>
     integer_ser = (\<lambda>m. put_fields (opt_field (\<lambda>v. Varint (unat v)) 1 m)),
     integer_parse = (\<lambda>b. map_option (last_field (\<lambda>w. map_option of_nat (as_varint w)) 1) (get_fields b)),
     float_ser = (\<lambda>m. put_fields (opt_field Fixed64 1 m)),
     float_parse = (\<lambda>b. map_option (last_field as_fixed64 1) (get_fields b)),
     string_ser = (\<lambda>m. put_fields (opt_field Len 1 m)),
     string_parse = (\<lambda>b. map_option (last_field as_len 1) (get_fields b)),
     sequence_ser = (\<lambda>ms. put_fields (map (\<lambda>m. (1, Len (member_ser m))) ms)),
     sequence_parse = (\<lambda>b. case get_fields b of None \<Rightarrow> None | Some fs \<Rightarrow> those (map member_parse (all_fields as_len 1 fs))),
     associate_ser = (\<lambda>ms. put_fields (map (\<lambda>m. (1, Len (pair_ser m))) ms)),
     associate_parse = (\<lambda>b. case get_fields b of None \<Rightarrow> None | Some fs \<Rightarrow> those (map pair_parse (all_fields as_len 1 fs)))\<rparr>"

lemma member_parse_ser [simp]: "member_parse (member_ser m) = Some m"
  by (cases m) (simp_all add: member_parse_def member_ser_def opt_field_def last_field_def del: put_fields_simps)

lemma parse_opt_ser [simp]: "parse_opt (map_option member_ser m) = Some m"
  by (cases m) (simp_all add: parse_opt_def)

lemma pair_parse_ser [simp]: "pair_parse (pair_ser m) = Some m"
proof (cases m)
  case (Pair k v)
  have "last_field as_len 1 (opt_field (\<lambda>m. Len (member_ser m)) 1 k @ opt_field (\<lambda>m. Len (member_ser m)) 2 v) = map_option member_ser k"
    "last_field as_len 2 (opt_field (\<lambda>m. Len (member_ser m)) 1 k @ opt_field (\<lambda>m. Len (member_ser m)) 2 v) = map_option member_ser v"
    by (simp_all add: last_field_def opt_field_def split: option.splits)
  then show ?thesis by (simp add: Pair pair_parse_def pair_ser_def del: put_fields_simps)
qed

lemma all_fields_Len [simp]: "all_fields as_len k (map (\<lambda>m. (k, Len (f m))) ms) = map f ms"
  by (induction ms) (simp_all add: all_fields_def)

lemma those_map_Some [simp]: "(\<And>m. g (f m) = Some m) \<Longrightarrow> those (map g (map f ms)) = Some ms"
  by (induction ms) simp_all

lemma length_member_ser: "length d \<le> length (member_ser (Some d))"
  using length_put_fields_Len[of 1 d "opt_field Len 1 (Some d)"] by (simp add: member_ser_def opt_field_def)

lemma length_pair_ser:
  "length d \<le> length (pair_ser (Some (Some d), v))" "length d \<le> length (pair_ser (k, Some (Some d)))"
proof -
  have "length (member_ser (Some d)) \<le> length (pair_ser (Some (Some d), v))"
    using length_put_fields_Len[of 1 "member_ser (Some d)"] by (simp add: pair_ser_def opt_field_def)
  moreover have "length (member_ser (Some d)) \<le> length (pair_ser (k, Some (Some d)))"
    using length_put_fields_Len[of 2 "member_ser (Some d)" "opt_field (\<lambda>m. Len (member_ser m)) 1 k @ opt_field (\<lambda>m. Len (member_ser m)) 2 (Some (Some d))"]
    by (simp add: pair_ser_def opt_field_def del: put_fields_simps)
  ultimately show "length d \<le> length (pair_ser (Some (Some d), v))" "length d \<le> length (pair_ser (k, Some (Some d)))"
    using length_member_ser[of d] by linarith+
qed

lemma wire_pb_ok: "protobuf_ok wire_pb"
  unfolding protobuf_ok_def
proof (intro conjI allI impI)
  show "codec (integer_ser wire_pb) (integer_parse wire_pb)" "codec (float_ser wire_pb) (float_parse wire_pb)"
    "codec (string_ser wire_pb) (string_parse wire_pb)"
    by (auto simp: codec_def wire_pb_def last_field_def opt_field_def simp del: put_fields_simps split: option.splits)
  show "codec (sequence_ser wire_pb) (sequence_parse wire_pb)" "codec (associate_ser wire_pb) (associate_parse wire_pb)"
    by (simp_all add: codec_def wire_pb_def del: map_map)
  show "length d \<le> length (sequence_ser wire_pb ms)" if "Some d \<in> set ms" for d ms
    using length_put_fields_Len[of 1 "member_ser (Some d)" "map (\<lambda>m. (1, Len (member_ser m))) ms"] that length_member_ser[of d]
    by (force simp: wire_pb_def)
  show "length k \<le> length (associate_ser wire_pb ms)" "length v \<le> length (associate_ser wire_pb ms)"
    if "(Some (Some k), Some (Some v)) \<in> set ms" for k v ms
    using length_put_fields_Len[of 1 "pair_ser (Some (Some k), Some (Some v))" "map (\<lambda>m. (1, Len (pair_ser m))) ms"] that
      length_pair_ser(1)[of k "Some (Some v)"] length_pair_ser(2)[of v "Some (Some k)"]
    by (force simp: wire_pb_def)+
  show "sequence_ser wire_pb ms = [] \<longleftrightarrow> ms = []" for ms by (simp add: wire_pb_def)
qed


lemma Integer_unsigned_serializer:
  fixes obj :: "'n::len word"
  assumes pb: "protobuf_ok pb" and n: "LENGTH('n) \<le> 64"
  shows "serializer (Impl_Integer_unsigned pb obj) (\<lambda>_. True) (=)"
proof -
  have "ucast (ucast y :: u64) = y" for y :: "'n word"
    using n by (intro bit_word_eqI) (auto simp: bit_simps)
  then show ?thesis
    by (intro scalar_serializer[OF protobuf_codecs(1)[OF pb], where of_proto = "\<lambda>m. ucast (get_number m)" and to_proto = "\<lambda>y. Some (ucast y)"])
      (simp_all add: Impl_Integer_unsigned_def get_number_def)
qed

lemma String_serializer: "protobuf_ok pb \<Longrightarrow> serializer (Impl_String pb) (\<lambda>_. True) (=)"
  by (rule scalar_serializer[OF protobuf_codecs(3), where of_proto = get_bytes and to_proto = Some])
    (simp_all add: Impl_String_def get_bytes_def)

lemma strings_serializer: "serializer (Impl_Seq wire_pb (Impl_String wire_pb)) (\<lambda>_. True) (=)"
  using set_serializer[OF wire_pb_ok String_serializer[OF wire_pb_ok] vector.container_axioms]
  by (simp add: Impl_Seq_push_back list.rel_eq)

subsection \<open>Properties\<close>

text \<open>
  Every integer type, \<open>bool\<close>, \<open>float\<close>, \<open>double\<close> and strings come back from their
  serialization unchanged, whatever the object they are read into held: the sign extension
  to \<open>uint64\<close> and the truncation back lose nothing.
\<close>

theorem scalars_round_trip:
  fixes obj :: "'n::len word"
  assumes pb: "protobuf_ok pb" and n: "LENGTH('n) \<le> 64" and f: "\<And>x. of_double (to_double x) = x"
  shows "serializer (Impl_Integer_signed pb obj) (\<lambda>_. True) (=) \<and>
    serializer (Impl_Integer_unsigned pb obj) (\<lambda>_. True) (=) \<and>
    serializer (Impl_Integer_bool pb b) (\<lambda>_. True) (=) \<and>
    serializer (Impl_Float pb to_double of_double x) (\<lambda>_. True) (=) \<and>
    serializer (Impl_String pb) (\<lambda>_. True) (=)"
proof (intro conjI Integer_unsigned_serializer String_serializer pb n)
  have "ucast (scast y :: u64) = y" for y :: "'n word"
    using n by (intro bit_word_eqI) (auto simp: bit_simps)
  then show "serializer (Impl_Integer_signed pb obj) (\<lambda>_. True) (=)"
    by (intro scalar_serializer[OF protobuf_codecs(1)[OF pb], where of_proto = "\<lambda>m. ucast (get_number m)" and to_proto = "\<lambda>y. Some (scast y)"])
      (simp_all add: Impl_Integer_signed_def get_number_def)
  show "serializer (Impl_Integer_bool pb b) (\<lambda>_. True) (=)"
    by (rule scalar_serializer[OF protobuf_codecs(1)[OF pb], where of_proto = "\<lambda>m. get_number m \<noteq> 0" and to_proto = "\<lambda>y. Some (if y then 1 else 0)"])
      (simp_all add: Impl_Integer_bool_def get_number_def)
  show "serializer (Impl_Float pb to_double of_double x) (\<lambda>_. True) (=)"
    by (rule scalar_serializer[OF protobuf_codecs(2)[OF pb], where of_proto = "\<lambda>m. of_double (get_number m)" and to_proto = "\<lambda>y. Some (to_double y)"])
      (simp_all add: Impl_Float_def get_number_def f)
qed

theorem scalars_round_trip_witness:
  "deserialize (Impl_Integer_signed wire_pb (0 :: u16)) 7 (serialize (Impl_Integer_signed wire_pb (0 :: u16)) (- 300)) = (True, - 300)"
proof -
  have "serializer (Impl_Integer_signed wire_pb (7 :: u16)) (\<lambda>_. True) (=)"
    using scalars_round_trip[where pb = wire_pb and obj = "7 :: u16" and of_double = "\<lambda>x. x" and to_double = "\<lambda>x. x"]
    by (simp add: wire_pb_ok)
  moreover have "length (serialize (Impl_Integer_signed wire_pb (7 :: u16)) (- 300)) < proto_limit"
    by (simp add: Impl_Integer_signed_def wire_pb_def opt_field_def varint.simps proto_limit_def)
  ultimately show ?thesis
    using serializer.round_trip[of "Impl_Integer_signed wire_pb (7 :: u16)" "\<lambda>_. True" "(=)" "- 300"]
    by (simp add: Impl_Integer_signed_def)
qed


text \<open>
  C9. The containers come back too, from serializers of their members that do. Sequences,
  sets and maps have the same members in the same order, the unordered ones the same
  members in some order; members of sequences and values of maps are equal as far as their
  own serializer makes them.
\<close>

theorem containers_round_trip:
  fixes K :: "'k::linorder proto_serializer"
  assumes pb: "protobuf_ok pb" and S: "serializer S ok same" and K: "serializer K okk (=)"
  shows "serializer (Impl_Seq pb S) (\<lambda>xs. \<forall>x\<in>set xs. ok x) (list_all2 same) \<and>
    serializer (Impl_Set pb (tree_insert (\<lambda>x. x)) K) (\<lambda>xs. sorted_wrt (<) xs \<and> (\<forall>x\<in>set xs. okk x)) (=) \<and>
    serializer (Impl_Set pb (multi_tree_insert (\<lambda>x. x)) K) (\<lambda>xs. sorted xs \<and> (\<forall>x\<in>set xs. okk x)) (=) \<and>
    serializer (Impl_HashSet pb (hash_insert place (\<lambda>x. x)) K) (\<lambda>xs. distinct xs \<and> (\<forall>x\<in>set xs. okk x)) (\<lambda>xs ys. mset xs = mset ys) \<and>
    serializer (Impl_HashSet pb (multi_hash_insert place) K) (\<lambda>xs. \<forall>x\<in>set xs. okk x) (\<lambda>xs ys. mset xs = mset ys) \<and>
    serializer (Impl_Map pb (tree_insert fst) K S)
      (\<lambda>xs. sorted_wrt (<) (map fst xs) \<and> (\<forall>(k, v)\<in>set xs. okk k \<and> ok v)) (list_all2 (rel_prod (=) same)) \<and>
    serializer (Impl_Map pb (multi_tree_insert fst) K S)
      (\<lambda>xs. sorted (map fst xs) \<and> (\<forall>(k, v)\<in>set xs. okk k \<and> ok v)) (list_all2 (rel_prod (=) same)) \<and>
    serializer (Impl_HashMap pb (hash_insert place' fst) K S)
      (\<lambda>xs. distinct (map fst xs) \<and> (\<forall>(k, v)\<in>set xs. okk k \<and> ok v))
      (\<lambda>xs zs. \<exists>ys. list_all2 (rel_prod (=) same) xs ys \<and> mset ys = mset zs)"
proof -
  note set = set_serializer[OF pb K] and map = map_serializer[OF pb K S]
  have eq: "list_all2 (=) = (=)" by (rule list.rel_eq)
  show ?thesis unfolding Impl_HashSet_def Impl_HashMap_def
  proof (intro conjI)
    show "serializer (Impl_Seq pb S) (\<lambda>xs. \<forall>x\<in>set xs. ok x) (list_all2 same)"
      using set_serializer[OF pb S vector.container_axioms] by (simp add: Impl_Seq_push_back)
    show "serializer (Impl_Set pb (tree_insert (\<lambda>x. x)) K) (\<lambda>xs. sorted_wrt (<) xs \<and> (\<forall>x\<in>set xs. okk x)) (=)"
      using set[OF tree.container_axioms[where key = "\<lambda>x. x"]] by (simp add: eq)
    show "serializer (Impl_Set pb (multi_tree_insert (\<lambda>x. x)) K) (\<lambda>xs. sorted xs \<and> (\<forall>x\<in>set xs. okk x)) (=)"
      using set[OF multi_tree.container_axioms[where key = "\<lambda>x. x"]] by (simp add: eq)
    show "serializer (Impl_Set pb (hash_insert place (\<lambda>x. x)) K) (\<lambda>xs. distinct xs \<and> (\<forall>x\<in>set xs. okk x)) (\<lambda>xs ys. mset xs = mset ys)"
      using set[OF hash.container_axioms[where key = "\<lambda>x. x"]] by (simp add: eq)
    show "serializer (Impl_Set pb (multi_hash_insert place) K) (\<lambda>xs. \<forall>x\<in>set xs. okk x) (\<lambda>xs ys. mset xs = mset ys)"
      using set[OF multi_hash.container_axioms] by (simp add: eq)
    show "serializer (Impl_Map pb (tree_insert fst) K S)
        (\<lambda>xs. sorted_wrt (<) (map fst xs) \<and> (\<forall>(k, v)\<in>set xs. okk k \<and> ok v)) (list_all2 (rel_prod (=) same))"
      using map[OF tree.container_axioms] by simp
    show "serializer (Impl_Map pb (multi_tree_insert fst) K S)
        (\<lambda>xs. sorted (map fst xs) \<and> (\<forall>(k, v)\<in>set xs. okk k \<and> ok v)) (list_all2 (rel_prod (=) same))"
      using map[OF multi_tree.container_axioms] by simp
    show "serializer (Impl_Map pb (hash_insert place' fst) K S)
        (\<lambda>xs. distinct (map fst xs) \<and> (\<forall>(k, v)\<in>set xs. okk k \<and> ok v))
        (\<lambda>xs zs. \<exists>ys. list_all2 (rel_prod (=) same) xs ys \<and> mset ys = mset zs)"
      using map[OF hash.container_axioms] by simp
  qed
qed

text \<open>The serializer of \<open>map<uint8_t, vector<string>>\<close>.\<close>

abbreviation names_by_byte :: "(u8 \<times> bytes list) list proto_serializer" where
  "names_by_byte \<equiv> Impl_Map wire_pb (tree_insert fst) (Impl_Integer_unsigned wire_pb 0) (Impl_Seq wire_pb (Impl_String wire_pb))"

theorem containers_round_trip_witness:
  "deserialize names_by_byte [] (serialize names_by_byte [(1, [[65], []]), (200, [])]) = (True, [(1, [[65], []]), (200, [])])"
proof -
  have K: "serializer (Impl_Integer_unsigned wire_pb (0 :: u8)) (\<lambda>_. True) (=)"
    and V: "serializer (Impl_String wire_pb) (\<lambda>_. True) (=)"
    by (simp_all add: Integer_unsigned_serializer String_serializer wire_pb_ok)
  have "serializer (Impl_Seq wire_pb (Impl_String wire_pb)) (\<lambda>_. True) (=)"
    using containers_round_trip[OF wire_pb_ok V K] by (simp add: list.rel_eq)
  then have "serializer names_by_byte (\<lambda>xs. sorted_wrt (<) (map fst xs)) (=)"
    using containers_round_trip[OF wire_pb_ok _ K, of "Impl_Seq wire_pb (Impl_String wire_pb)" "\<lambda>_. True" "(=)"]
    by (simp add: list.rel_eq prod.rel_eq)
  moreover have "length (serialize names_by_byte [(1, [[65], []]), (200, [])]) < proto_limit"
    by (simp add: Impl_Map_def Impl_Seq_def Impl_String_def Impl_Integer_unsigned_def wire_pb_def pair_ser_def
        member_ser_def opt_field_def varint.simps proto_limit_def)
  ultimately show ?thesis
    using serializer.round_trip[of names_by_byte _ "(=)" "[(1, [[65], []]), (200, [])]"] by (simp add: Impl_Map_def)
qed


text \<open>
  Reading bytes into a container fails only if they are no message of the container.
  The members are added to those that the container holds, and a member whose bytes do not
  deserialize is dropped without a trace in the result.
\<close>

theorem undecodable_members_dropped:
  "deserialize (Impl_Seq pb S) objects bin =
     (case sequence_parse pb bin of
        None \<Rightarrow> (False, objects)
      | Some ms \<Rightarrow> (True, objects @ map snd (filter fst (map (\<lambda>m. deserialize S (construct S) (get_bytes m)) ms))))"
proof -
  have "foldl (\<lambda>objects m. case deserialize S (construct S) (get_bytes m) of
            (True, obj) \<Rightarrow> objects @ [obj] | (False, _) \<Rightarrow> objects) objects ms
      = objects @ map snd (filter fst (map (\<lambda>m. deserialize S (construct S) (get_bytes m)) ms))" for ms
    by (induction ms arbitrary: objects) (auto split: prod.splits bool.splits)
  then show ?thesis by (simp add: Impl_Seq_def split: option.splits)
qed

text \<open>
  The archiver: writing \<open>xs\<close> one after the other, and reading into a list of objects.
\<close>

definition archive_puts :: "'a proto_serializer \<Rightarrow> 'a list \<Rightarrow> archiver \<Rightarrow> archiver" where
  "archive_puts S xs ar = foldl (\<lambda>ar x. archive_put S x ar) ar xs"

fun archive_gets :: "'a proto_serializer \<Rightarrow> 'a list \<Rightarrow> archiver \<Rightarrow> 'a list \<times> archiver" where
  "archive_gets S [] ar = ([], ar)"
| "archive_gets S (obj # objs) ar =
     (let (obj, ar) = archive_get S obj ar; (objs, ar) = archive_gets S objs ar in (obj # objs, ar))"

lemma archive_puts_members:
  "archive_puts S xs ar = ar\<lparr>members := members ar @ map (\<lambda>x. Some (serialize S x)) xs\<rparr>"
  by (induction xs arbitrary: ar) (simp_all add: archive_puts_def archive_put_def)

lemma archive_gets_written:
  assumes "serializer S ok same" "\<forall>x\<in>set xs. ok x \<and> length (serialize S x) < proto_limit"
  shows "\<exists>ys. list_all2 same xs ys \<and>
    archive_gets S (replicate (length xs) (construct S) @ objs)
      \<lparr>members = ms @ map (\<lambda>x. Some (serialize S x)) xs, read_pos = length ms\<rparr> =
    (ys @ objs, \<lparr>members = ms @ map (\<lambda>x. Some (serialize S x)) xs, read_pos = length ms + length xs\<rparr>)"
  using assms(2)
proof (induction xs arbitrary: ms)
  case Nil
  show ?case by (induction objs) (simp_all add: archive_get_def)
next
  case (Cons x xs)
  obtain y where y: "deserialize S (construct S) (serialize S x) = (True, y)" "same x y"
    using serializer.round_trip[OF assms(1), of x] Cons.prems by auto
  obtain ys where "list_all2 same xs ys"
    "archive_gets S (replicate (length xs) (construct S) @ objs)
      \<lparr>members = (ms @ [Some (serialize S x)]) @ map (\<lambda>x. Some (serialize S x)) xs, read_pos = length (ms @ [Some (serialize S x)])\<rparr> =
    (ys @ objs, \<lparr>members = (ms @ [Some (serialize S x)]) @ map (\<lambda>x. Some (serialize S x)) xs,
      read_pos = length (ms @ [Some (serialize S x)]) + length xs\<rparr>)"
    using Cons.IH[of "ms @ [Some (serialize S x)]"] Cons.prems by auto
  then show ?case using y
    by (intro exI[of _ "y # ys"]) (simp add: archive_get_def get_bytes_def Let_def)
qed

text \<open>
  What is written to an archiver is read from it in the same order, behind whatever has
  been written and read before; reading more leaves the further objects as they are.
\<close>

theorem archive_round_trip:
  assumes "serializer S ok same" "\<forall>x\<in>set xs. ok x \<and> length (serialize S x) < proto_limit"
    and "read_pos ar = length (members ar)"
  shows "\<exists>ys. list_all2 same xs ys \<and>
    archive_gets S (replicate (length xs) (construct S) @ objs) (archive_puts S xs ar) =
      (ys @ objs, (archive_puts S xs ar)\<lparr>read_pos := length (members ar) + length xs\<rparr>)"
  using archive_gets_written[OF assms(1,2), of objs "members ar"] assms(3)
  by (cases ar) (simp add: archive_puts_members)

theorem archive_round_trip_witness:
  "fst (archive_gets (Impl_String wire_pb) [[], [], [9]]
     (archive_puts (Impl_String wire_pb) [[65, 66], []] \<lparr>members = [None], read_pos = 1\<rparr>)) = [[65, 66], [], [9]]"
proof -
  have "\<forall>x\<in>set [[65, 66], []]. True \<and> length (serialize (Impl_String wire_pb) x) < proto_limit"
    by (simp add: Impl_String_def wire_pb_def opt_field_def varint.simps proto_limit_def)
  from archive_round_trip[OF String_serializer[OF wire_pb_ok] this, of "\<lparr>members = [None], read_pos = 1\<rparr>" "[[9]]"]
  show ?thesis by (auto simp: list.rel_eq numeral_2_eq_2 Impl_String_def)
qed

end
