(* ===== verification/Reflection.thy ===== *)
theory Reflection
  imports Serializer
begin

text \<open>
  \<open>common/tinyreflection.h\<close>: the properties of a class (\<open>Property\<close>, \<open>Property_T\<close>), the
  registered class (\<open>Struct\<close>) and the factory of classes.

  A pointer to a member is the pair of functions that read and write it. A \<open>boost::any\<close> is a
  value with the identifier of its type; all values that occur are of the type \<open>'v\<close>, and
  \<open>to_any\<close> and \<open>of_any\<close> convert a member to and from it. An exception of \<open>any_cast\<close> is \<open>None\<close>, one of a
  serializer is the left value of a sum. A class is an element of \<open>'t\<close> for every \<open>Struct\<close>.

  The locale \<open>properties\<close> is what clients rely on: a property that reads what it has
  written gets its value back and touches no other one.
\<close>

subsection \<open>Properties\<close>

type_synonym typeid = nat

type_synonym 'v any = "typeid \<times> 'v"

record ('t, 'v) property =
  prop_name :: bytes
  prop_number :: u16
  prop_type :: typeid
  prop_get :: "'t \<Rightarrow> 'v any"
  prop_set :: "'t \<Rightarrow> 'v any \<Rightarrow> 't option"
  prop_serialize :: "'t \<Rightarrow> bytes + bytes"
  prop_deserialize :: "'t \<Rightarrow> bytes \<Rightarrow> bytes + bool \<times> 't"

definition DummySerializer :: "'a \<Rightarrow> 'a proto_serializer" where
  "DummySerializer obj = \<lparr>construct = obj, serialize = (\<lambda>_. []), deserialize = (\<lambda>object _. (False, object))\<rparr>"

definition Property_T :: "bytes \<Rightarrow> u16 \<Rightarrow> typeid \<Rightarrow> ('p \<Rightarrow> 'v) \<Rightarrow> ('v \<Rightarrow> 'p) \<Rightarrow> ('t \<Rightarrow> 'p) \<Rightarrow> ('p \<Rightarrow> 't \<Rightarrow> 't)
    \<Rightarrow> 'p proto_serializer \<Rightarrow> ('t, 'v) property" where
  "Property_T name number ty to_any of_any getm setm S = \<lparr>
     prop_name = name, prop_number = number, prop_type = ty,
     prop_get = (\<lambda>obj. (ty, to_any (getm obj))),
     prop_set = (\<lambda>obj (t, v). if t = ty then Some (setm (of_any v) obj) else None),
     prop_serialize = (\<lambda>obj. Inr (serialize S (getm obj))),
     prop_deserialize = (\<lambda>obj bin. case deserialize S (getm obj) bin of (r, p) \<Rightarrow> Inr (r, setm p obj))\<rparr>"

subsection \<open>Classes\<close>

record ('t, 'v) struct =
  struct_name :: bytes
  properties_ordered :: "('t, 'v) property list"
  by_name :: "bytes \<Rightarrow> ('t, 'v) property option"
  by_id :: "u16 \<Rightarrow> ('t, 'v) property option"
  struct_version :: u16

definition Struct :: "bytes \<Rightarrow> u16 \<Rightarrow> ('t, 'v) struct" where
  "Struct name ver = \<lparr>struct_name = name, properties_ordered = [], by_name = Map.empty, by_id = Map.empty, struct_version = ver\<rparr>"

definition hasProperty :: "bytes \<Rightarrow> ('t, 'v) struct \<Rightarrow> bool" where
  "hasProperty name st \<longleftrightarrow> by_name st name \<noteq> None"

definition add_property :: "('t, 'v) property \<Rightarrow> ('t, 'v) struct \<Rightarrow> ('t, 'v) struct" where
  "add_property p st =
     (if \<not> hasProperty (prop_name p) st
      then let st = st\<lparr>by_name := (by_name st)(prop_name p \<mapsto> p), properties_ordered := properties_ordered st @ [p]\<rparr>
        in if prop_number p \<noteq> 0 then st\<lparr>by_id := (by_id st)(prop_number p \<mapsto> p)\<rparr> else st
      else st)"

definition set_version :: "u16 \<Rightarrow> ('t, 'v) struct \<Rightarrow> ('t, 'v) struct" where
  "set_version ver st = st\<lparr>struct_version := ver\<rparr>"

definition propertyIterator :: "('t, 'v) struct \<Rightarrow> ('t, 'v) property list" where
  "propertyIterator st = properties_ordered st"

definition propertyByName :: "bytes \<Rightarrow> ('t, 'v) struct \<Rightarrow> ('t, 'v) property option" where
  "propertyByName name st = by_name st name"

definition propertyByID :: "u16 \<Rightarrow> ('t, 'v) struct \<Rightarrow> ('t, 'v) property option" where
  "propertyByID i st = by_id st i"

text \<open>\<open>get\<close> and \<open>set\<close> of a member type with identifier \<open>ty\<close>; \<open>dflt\<close> is \<open>PropType()\<close>.\<close>

definition struct_get :: "typeid \<Rightarrow> 'v \<Rightarrow> 't \<Rightarrow> bytes \<Rightarrow> ('t, 'v) struct \<Rightarrow> 'v option" where
  "struct_get ty dflt obj propname st =
     (case propertyByName propname st of
        Some p \<Rightarrow> (case prop_get p obj of (t, v) \<Rightarrow> if t = ty then Some v else None)
      | None \<Rightarrow> Some dflt)"

definition struct_set :: "typeid \<Rightarrow> 't \<Rightarrow> bytes \<Rightarrow> 'v \<Rightarrow> ('t, 'v) struct \<Rightarrow> 't option" where
  "struct_set ty obj propname v st =
     (case propertyByName propname st of
        Some p \<Rightarrow> prop_set p obj (ty, v)
      | None \<Rightarrow> Some obj)"

subsection \<open>The factory\<close>

record ('t, 'v) struct_factory =
  structs_by_typeid :: "bytes \<Rightarrow> ('t, 'v) struct option"
  structs_by_name :: "bytes \<Rightarrow> ('t, 'v) struct option"

definition declare_struct :: "bytes \<Rightarrow> bytes \<Rightarrow> ('t, 'v) struct_factory \<Rightarrow> ('t, 'v) struct \<times> ('t, 'v) struct_factory" where
  "declare_struct type_name name fac =
     (let sname = (if name = [] then type_name else name);
          desc = Struct sname 0
      in (desc, fac\<lparr>structs_by_typeid := (structs_by_typeid fac)(type_name \<mapsto> desc),
                    structs_by_name := (structs_by_name fac)(sname \<mapsto> desc)\<rparr>))"

definition structByType :: "bytes \<Rightarrow> ('t, 'v) struct_factory \<Rightarrow> ('t, 'v) struct option" where
  "structByType type_name fac = structs_by_typeid fac type_name"

definition structByName :: "bytes \<Rightarrow> ('t, 'v) struct_factory \<Rightarrow> ('t, 'v) struct option" where
  "structByName name fac = structs_by_name fac name"

subsection \<open>What a class keeps\<close>

definition struct_ok :: "('t, 'v) struct \<Rightarrow> bool" where
  "struct_ok st \<longleftrightarrow> distinct (map prop_name (properties_ordered st)) \<and>
     (\<forall>n. by_name st n = find (\<lambda>p. prop_name p = n) (properties_ordered st)) \<and>
     (\<forall>i. by_id st i = (if i = 0 then None else find (\<lambda>p. prop_number p = i) (rev (properties_ordered st))))"

lemma find_None_name: "find P xs = None \<longleftrightarrow> (\<forall>x\<in>set xs. \<not> P x)"
  by (auto simp: find_None_iff)

lemma struct_ok_Struct: "struct_ok (Struct name ver)"
  by (simp add: struct_ok_def Struct_def)

lemma struct_ok_add:
  assumes "struct_ok st"
  shows "struct_ok (add_property p st)"
proof (cases "hasProperty (prop_name p) st")
  case False
  then have "\<forall>q\<in>set (properties_ordered st). prop_name q \<noteq> prop_name p"
    using assms by (auto simp: hasProperty_def struct_ok_def find_None_name)
  then have "find (\<lambda>q. prop_name q = prop_name p) (properties_ordered st) = None" and
    "prop_name p \<notin> prop_name ` set (properties_ordered st)"
    by (auto simp: find_None_name)
  then show ?thesis using assms False
    by (auto simp: struct_ok_def add_property_def Let_def find_append split: option.splits)
qed (use assms in \<open>simp add: add_property_def\<close>)

lemma add_properties_ok: "struct_ok st \<Longrightarrow> struct_ok (foldl (\<lambda>st p. add_property p st) st ps)"
  by (induction ps arbitrary: st) (simp_all add: struct_ok_add)

text \<open>The first properties of their names, in their order.\<close>

fun firsts :: "bytes set \<Rightarrow> ('t, 'v) property list \<Rightarrow> ('t, 'v) property list" where
  "firsts seen [] = []"
| "firsts seen (p # ps) = (if prop_name p \<in> seen then firsts seen ps else p # firsts (insert (prop_name p) seen) ps)"

lemma add_properties_order:
  assumes "struct_ok st" "seen = prop_name ` set (properties_ordered st)"
  shows "properties_ordered (foldl (\<lambda>st p. add_property p st) st ps) = properties_ordered st @ firsts seen ps"
  using assms
proof (induction ps arbitrary: st seen)
  case (Cons p ps)
  have "hasProperty (prop_name p) st \<longleftrightarrow> find (\<lambda>q. prop_name q = prop_name p) (properties_ordered st) \<noteq> None"
    using Cons.prems(1) by (simp add: hasProperty_def struct_ok_def)
  also have "\<dots> \<longleftrightarrow> (\<exists>q\<in>set (properties_ordered st). prop_name q = prop_name p)"
    by (simp add: find_None_name)
  also have "\<dots> \<longleftrightarrow> prop_name p \<in> seen" unfolding Cons.prems(2) image_iff by (rule bex_cong[OF refl]) (rule eq_commute)
  finally have h: "hasProperty (prop_name p) st \<longleftrightarrow> prop_name p \<in> seen" .
  show ?case using Cons.IH[OF struct_ok_add[OF Cons.prems(1)] refl, of p] Cons.prems(2)
    by (cases "prop_name p \<in> seen") (simp_all add: add_property_def h Let_def)
qed simp

subsection \<open>The contract of properties\<close>

text \<open>
  \<open>dflt p\<close> is the value of a member in a fresh object, \<open>writable p obj\<close> that the member of
  \<open>obj\<close> is one its serializer round-trips.
\<close>

locale properties =
  fixes ps :: "('t, 'v) property list" and dflt :: "('t, 'v) property \<Rightarrow> 'v any"
    and writable :: "('t, 'v) property \<Rightarrow> 't \<Rightarrow> bool"
  assumes serialized: "p \<in> set ps \<Longrightarrow> \<exists>bin. prop_serialize p obj = Inr bin"
    and deserialized: "p \<in> set ps \<Longrightarrow> \<exists>r obj'. prop_deserialize p obj bin = Inr (r, obj')"
    and round_trip: "p \<in> set ps \<Longrightarrow> writable p obj \<Longrightarrow> prop_serialize p obj = Inr bin \<Longrightarrow>
      prop_get p old = dflt p \<Longrightarrow> prop_deserialize p old bin = Inr (r, obj') \<Longrightarrow> prop_get p obj' = prop_get p obj"
    and same_member: "p \<in> set ps \<Longrightarrow> prop_get p o1 = prop_get p o2 \<Longrightarrow> prop_deserialize p o1 bin = Inr (r1, o1') \<Longrightarrow>
      prop_deserialize p o2 bin = Inr (r2, o2') \<Longrightarrow> prop_get p o1' = prop_get p o2'"
    and other: "p \<in> set ps \<Longrightarrow> q \<in> set ps \<Longrightarrow> prop_name p \<noteq> prop_name q \<Longrightarrow>
      prop_deserialize p obj bin = Inr (r, obj') \<Longrightarrow> prop_get q obj' = prop_get q obj"

text \<open>A member with a serializer that round-trips fulfils its part of it.\<close>

lemma Property_T_round_trip:
  assumes "serializer S ok (=)" and "\<And>v obj. getm (setm v obj) = v"
    and "ok (getm obj)" "length (serialize S (getm obj)) < proto_limit"
    and "getm old = construct S"
    and "prop_serialize (Property_T name number ty to_any of_any getm setm S) obj = Inr bin"
    and "prop_deserialize (Property_T name number ty to_any of_any getm setm S) old bin = Inr (r, obj')"
  shows "prop_get (Property_T name number ty to_any of_any getm setm S) obj' =
    prop_get (Property_T name number ty to_any of_any getm setm S) obj \<and> r"
  using assms(2-) serializer.round_trip[OF assms(1,3,4)] by (auto simp: Property_T_def)

lemma Property_T_other:
  assumes "\<And>v obj. get' (setm v obj) = get' obj"
    and "prop_deserialize (Property_T name number ty to_any of_any getm setm S) obj bin = Inr (r, obj')"
  shows "get' obj' = get' obj"
  using assms by (auto simp: Property_T_def split: prod.splits)

subsection \<open>Properties of the class\<close>

text \<open>
  The properties of a class are those that were declared, in this order, without those whose
  name was already taken. By name a property is found that was declared first, by a number
  other than 0 the one that was declared last with it.
\<close>

theorem struct_lookup:
  "struct_ok (foldl (\<lambda>st p. add_property p st) (Struct name ver) ps) \<and>
   propertyIterator (foldl (\<lambda>st p. add_property p st) (Struct name ver) ps) = firsts {} ps \<and>
   propertyByName n (foldl (\<lambda>st p. add_property p st) (Struct name ver) ps) = find (\<lambda>p. prop_name p = n) (firsts {} ps) \<and>
   propertyByID i (foldl (\<lambda>st p. add_property p st) (Struct name ver) ps) =
     (if i = 0 then None else find (\<lambda>p. prop_number p = i) (rev (firsts {} ps)))"
proof -
  have ok: "struct_ok (foldl (\<lambda>st p. add_property p st) (Struct name ver) ps)"
    by (rule add_properties_ok[OF struct_ok_Struct])
  have "properties_ordered (foldl (\<lambda>st p. add_property p st) (Struct name ver) ps) = firsts {} ps"
    using add_properties_order[OF struct_ok_Struct, of "{}" name ver ps] by (simp add: Struct_def)
  then show ?thesis using ok by (simp add: struct_ok_def propertyIterator_def propertyByName_def propertyByID_def)
qed

text \<open>
  \<open>set\<close> with the type of the member changes this member, so that \<open>get\<close> gives the value; with
  another type it throws and so does \<open>get\<close>; of an unknown name \<open>set\<close> changes nothing and \<open>get\<close>
  gives a default value.
\<close>

theorem struct_set_get:
  assumes "\<And>v obj. getm (setm v obj) = v" "\<And>v. to_any (of_any v) = v"
    and "propertyByName n st = Some (Property_T name number ty to_any of_any getm setm S)" "ty' \<noteq> ty"
    and "propertyByName n' st = None"
  shows "(\<exists>obj'. struct_set ty obj n v st = Some obj' \<and> struct_get ty d obj' n st = Some v \<and>
      (\<forall>get'. (\<forall>w x. get' (setm w x) = get' x) \<longrightarrow> get' obj' = get' obj)) \<and>
    struct_set ty' obj n v st = None \<and> struct_get ty' d obj n st = None \<and>
    struct_set ty obj n' v st = Some obj \<and> struct_get ty d obj n' st = Some d"
  using assms by (simp add: struct_set_def struct_get_def Property_T_def)

theorem struct_set_get_witness:
  "struct_get 1 0 (the (struct_set 1 (5, [7]) [65] 9 (add_property
      (Property_T [65] 1 1 (\<lambda>v. v) (\<lambda>v. v) fst (\<lambda>v (_, b). (v, b)) (DummySerializer 0)) (Struct [83] 0)))) [65]
    (add_property (Property_T [65] 1 1 (\<lambda>v. v) (\<lambda>v. v) (fst :: nat \<times> bytes \<Rightarrow> nat) (\<lambda>v (_, b). (v, b)) (DummySerializer 0))
      (Struct [83] 0)) = Some 9"
proof -
  let ?P = "Property_T [65] 1 1 (\<lambda>v. v) (\<lambda>v. v) (fst :: nat \<times> bytes \<Rightarrow> nat) (\<lambda>v (_, b). (v, b)) (DummySerializer 0)"
  have "propertyByName [65] (add_property ?P (Struct [83] 0)) = Some ?P" "propertyByName [66] (add_property ?P (Struct [83] 0)) = None"
    by (simp_all add: propertyByName_def add_property_def hasProperty_def Struct_def Property_T_def Let_def)
  from struct_set_get[OF _ _ this(1) _ this(2), of 2 "(5, [7])" 9 0] show ?thesis by auto
qed

end
