(* ===== verification/Proto_Dyn.thy ===== *)
theory Proto_Dyn
  imports Reflection
begin

text \<open>
  \<open>common/tinyserializer_proto_mapping.h\<close> and \<open>common/tinyserializer_proto_dyn.h\<close>: the
  mapping of a registered class to a message that protobuf creates at run time, one field of
  type \<open>bytes\<close> for each property, and the serializer of classes that have a mapping. The
  serializers of all other types are those of \<open>tinyserializer_proto.h\<close>.

  What the code calls in protobuf are parameters: \<open>build\<close> (\<open>DescriptorPool::BuildFile\<close>),
  \<open>find_message\<close> (\<open>FindMessageTypeByName\<close>), and \<open>dyn_ser\<close> and \<open>dyn_parse\<close> for a dynamic message,
  which is the list of its set fields sorted by number. The contract \<open>dyn_ok\<close> is what the
  documentation promises: a file with a zero, reserved or doubled number is refused, and
  fields that the reader does not know are skipped.

  The mappings are objects that the factory shares: they are in a list, and the maps of the
  factory give positions in it.
\<close>

subsection \<open>The types without a mapping\<close>

text \<open>Their code is that of \<open>ProtoSerializerImpl\<close>, on members with a \<open>ProtoDynSerializer\<close>.\<close>

definition Dyn_Integer_signed :: "protobuf \<Rightarrow> 'n::len word \<Rightarrow> 'n word proto_serializer" where
  "Dyn_Integer_signed = Impl_Integer_signed"

definition Dyn_Integer_unsigned :: "protobuf \<Rightarrow> 'n::len word \<Rightarrow> 'n word proto_serializer" where
  "Dyn_Integer_unsigned = Impl_Integer_unsigned"

definition Dyn_Float :: "protobuf \<Rightarrow> ('f \<Rightarrow> u64) \<Rightarrow> (u64 \<Rightarrow> 'f) \<Rightarrow> 'f \<Rightarrow> 'f proto_serializer" where
  "Dyn_Float = Impl_Float"

definition Dyn_String :: "protobuf \<Rightarrow> bytes proto_serializer" where
  "Dyn_String = Impl_String"

definition Dyn_Proto :: "'m \<Rightarrow> ('m \<Rightarrow> bytes) \<Rightarrow> ('m \<Rightarrow> bytes \<Rightarrow> bool \<times> 'm) \<Rightarrow> 'm proto_serializer" where
  "Dyn_Proto = Impl_Proto"

definition Dyn_Seq :: "protobuf \<Rightarrow> 'a proto_serializer \<Rightarrow> 'a list proto_serializer" where
  "Dyn_Seq pb member = Impl_Seq pb member"

definition Dyn_Set :: "protobuf \<Rightarrow> ('a \<Rightarrow> 'a list \<Rightarrow> 'a list) \<Rightarrow> 'a proto_serializer \<Rightarrow> 'a list proto_serializer" where
  "Dyn_Set pb ins member = Impl_Set pb ins member"

definition Dyn_Map :: "protobuf \<Rightarrow> ('k \<times> 'v \<Rightarrow> ('k \<times> 'v) list \<Rightarrow> ('k \<times> 'v) list)
    \<Rightarrow> 'k proto_serializer \<Rightarrow> 'v proto_serializer \<Rightarrow> ('k \<times> 'v) list proto_serializer" where
  "Dyn_Map pb ins ks vs = Impl_Map pb ins ks vs"

definition Dyn_HashSet :: "protobuf \<Rightarrow> ('a \<Rightarrow> 'a list \<Rightarrow> 'a list) \<Rightarrow> 'a proto_serializer \<Rightarrow> 'a list proto_serializer" where
  "Dyn_HashSet pb ins member = Impl_HashSet pb ins member"

definition Dyn_HashMap :: "protobuf \<Rightarrow> ('k \<times> 'v \<Rightarrow> ('k \<times> 'v) list \<Rightarrow> ('k \<times> 'v) list)
    \<Rightarrow> 'k proto_serializer \<Rightarrow> 'v proto_serializer \<Rightarrow> ('k \<times> 'v) list proto_serializer" where
  "Dyn_HashMap pb ins ks vs = Impl_HashMap pb ins ks vs"

subsection \<open>Mappings\<close>

record ('t, 'v) mapping =
  cpp_name :: bytes
  proto_name :: bytes
  map_struct :: "('t, 'v) struct"
  from_struct_factory :: bool

definition ProtoMapping :: "('t, 'v) struct option \<Rightarrow> bytes \<Rightarrow> bytes \<Rightarrow> ('t, 'v) mapping" where
  "ProtoMapping reflection cname pname =
     \<lparr>cpp_name = cname,
      proto_name = (if pname = [] then cname @ map of_char ''DynProto'' else pname),
      map_struct = (case reflection of Some st \<Rightarrow> st | None \<Rightarrow> Struct cname 0),
      from_struct_factory = (reflection \<noteq> None)\<rparr>"

text \<open>A message type is the list of its fields, all optional and of type \<open>bytes\<close>.\<close>

type_synonym descriptor = "(bytes \<times> u16) list"

definition descriptor_of :: "('t, 'v) property list \<Rightarrow> descriptor" where
  "descriptor_of ps = map (\<lambda>p. (prop_name p, prop_number p)) ps"

text \<open>\<open>createProtoDescriptor\<close> does not look at the result of \<open>BuildFile\<close>.\<close>

definition createProtoDescriptor :: "(bytes \<Rightarrow> bytes \<Rightarrow> descriptor \<Rightarrow> 'pool \<Rightarrow> 'pool) \<Rightarrow> ('t, 'v) mapping \<Rightarrow> 'pool \<Rightarrow> bool \<times> 'pool" where
  "createProtoDescriptor build m pool =
     (True, build (cpp_name m @ map of_char ''.proto'') (proto_name m)
        (descriptor_of (propertyIterator (map_struct m))) pool)"

record ('t, 'v, 'pool) mapping_factory =
  mappings_by_order :: "('t, 'v) mapping list"
  mappings_by_typeid :: "bytes \<Rightarrow> nat option"
  mappings_by_name :: "bytes \<Rightarrow> nat option"
  descriptor_pool :: 'pool

definition ProtoMappingFactory :: "'pool \<Rightarrow> ('t, 'v, 'pool) mapping_factory" where
  "ProtoMappingFactory pool = \<lparr>mappings_by_order = [], mappings_by_typeid = Map.empty, mappings_by_name = Map.empty,
     descriptor_pool = pool\<rparr>"

definition mappingByType :: "bytes \<Rightarrow> ('t, 'v, 'pool) mapping_factory \<Rightarrow> ('t, 'v) mapping option" where
  "mappingByType ty fac = map_option (\<lambda>i. mappings_by_order fac ! i) (mappings_by_typeid fac ty)"

definition mappingByName :: "bytes \<Rightarrow> ('t, 'v, 'pool) mapping_factory \<Rightarrow> ('t, 'v) mapping option" where
  "mappingByName name fac = map_option (\<lambda>i. mappings_by_order fac ! i) (mappings_by_name fac name)"

text \<open>The mapping is entered under its type and, in the same map, under the name of the class.\<close>

definition createProtoDescriptorMapping :: "bytes \<Rightarrow> ('t, 'v) struct option \<Rightarrow> bytes \<Rightarrow> bytes
    \<Rightarrow> ('t, 'v, 'pool) mapping_factory \<Rightarrow> ('t, 'v, 'pool) mapping_factory" where
  "createProtoDescriptorMapping ty reflection cname pname fac =
     (let i = length (mappings_by_order fac) in
      fac\<lparr>mappings_by_typeid := (mappings_by_typeid fac)(ty \<mapsto> i, cname \<mapsto> i),
          mappings_by_order := mappings_by_order fac @ [ProtoMapping reflection cname pname]\<rparr>)"

definition declare_mapping :: "bytes \<Rightarrow> bytes \<Rightarrow> bytes \<Rightarrow> ('t, 'v, 'pool) mapping_factory \<Rightarrow> ('t, 'v, 'pool) mapping_factory" where
  "declare_mapping ty cname pname fac = createProtoDescriptorMapping ty None cname pname fac"

definition mapping_of_struct :: "('t, 'v) struct_factory \<Rightarrow> bytes \<Rightarrow> bytes \<Rightarrow> ('t, 'v, 'pool) mapping_factory
    \<Rightarrow> ('t, 'v, 'pool) mapping_factory" where
  "mapping_of_struct structs ty pname fac =
     (case structByType ty structs of
        Some reflection \<Rightarrow> createProtoDescriptorMapping ty (Some reflection) (struct_name reflection) pname fac
      | None \<Rightarrow> fac)"

definition mapping_property :: "bytes \<Rightarrow> ('t, 'v) property \<Rightarrow> ('t, 'v, 'pool) mapping_factory \<Rightarrow> ('t, 'v, 'pool) mapping_factory" where
  "mapping_property ty p fac =
     (case mappings_by_typeid fac ty of
        Some i \<Rightarrow> fac\<lparr>mappings_by_order := (mappings_by_order fac)
          [i := (mappings_by_order fac ! i)\<lparr>map_struct := add_property p (map_struct (mappings_by_order fac ! i))\<rparr>]\<rparr>
      | None \<Rightarrow> fac)"

definition createProtoDescriptorByType :: "(bytes \<Rightarrow> bytes \<Rightarrow> descriptor \<Rightarrow> 'pool \<Rightarrow> 'pool) \<Rightarrow> bytes
    \<Rightarrow> ('t, 'v, 'pool) mapping_factory \<Rightarrow> bool \<times> ('t, 'v, 'pool) mapping_factory" where
  "createProtoDescriptorByType build ty fac =
     (case mappingByType ty fac of
        Some m \<Rightarrow> (let (r, pool) = createProtoDescriptor build m (descriptor_pool fac) in (r, fac\<lparr>descriptor_pool := pool\<rparr>))
      | None \<Rightarrow> (False, fac))"

definition createAllProtoDescriptor :: "(bytes \<Rightarrow> bytes \<Rightarrow> descriptor \<Rightarrow> 'pool \<Rightarrow> 'pool)
    \<Rightarrow> ('t, 'v, 'pool) mapping_factory \<Rightarrow> ('t, 'v, 'pool) mapping_factory" where
  "createAllProtoDescriptor build fac =
     fac\<lparr>descriptor_pool := foldl (\<lambda>pool m. snd (createProtoDescriptor build m pool)) (descriptor_pool fac) (mappings_by_order fac)\<rparr>"

subsection \<open>The serializer of classes\<close>

datatype dyn_error = Mapping_null | Descriptor_null | Parse_failed | Serialize_error bytes | Deserialize_error bytes

type_synonym message = "(u16 \<times> bytes) list"

definition get_field_string :: "message \<Rightarrow> u16 \<Rightarrow> bytes" where
  "get_field_string msg n = (case map_of msg n of Some b \<Rightarrow> b | None \<Rightarrow> [])"

fun write_fields :: "descriptor \<Rightarrow> 't \<Rightarrow> ('t, 'v) property list \<Rightarrow> message \<Rightarrow> dyn_error + message" where
  "write_fields d obj [] msg = Inr msg"
| "write_fields d obj (p # ps) msg =
     (case map_of d (prop_name p) of
        Some n \<Rightarrow> (case prop_serialize p obj of
            Inl e \<Rightarrow> Inl (Serialize_error e)
          | Inr bin \<Rightarrow> write_fields d obj ps (map_set n bin msg))
      | None \<Rightarrow> write_fields d obj ps msg)"

definition dyn_serialize :: "(bytes \<Rightarrow> 'pool \<Rightarrow> descriptor option) \<Rightarrow> (message \<Rightarrow> bytes) \<Rightarrow> bytes
    \<Rightarrow> ('t, 'v, 'pool) mapping_factory \<Rightarrow> 't \<Rightarrow> dyn_error + bytes" where
  "dyn_serialize find_message dyn_ser ty fac object =
     (case mappingByType ty fac of
        None \<Rightarrow> Inl Mapping_null
      | Some m \<Rightarrow> (case find_message (proto_name m) (descriptor_pool fac) of
          None \<Rightarrow> Inl Descriptor_null
        | Some d \<Rightarrow> (case write_fields d object (propertyIterator (map_struct m)) [] of
            Inl e \<Rightarrow> Inl e
          | Inr msg \<Rightarrow> Inr (dyn_ser msg))))"

fun read_fields :: "descriptor \<Rightarrow> message \<Rightarrow> ('t, 'v) property list \<Rightarrow> 't \<Rightarrow> dyn_error + 't" where
  "read_fields d msg [] obj = Inr obj"
| "read_fields d msg (p # ps) obj =
     (case map_of d (prop_name p) of
        Some n \<Rightarrow> (case prop_deserialize p obj (get_field_string msg n) of
            Inl e \<Rightarrow> Inl (Deserialize_error e)
          | Inr (_, obj) \<Rightarrow> read_fields d msg ps obj)
      | None \<Rightarrow> read_fields d msg ps obj)"

definition dyn_deserialize :: "(bytes \<Rightarrow> 'pool \<Rightarrow> descriptor option) \<Rightarrow> (descriptor \<Rightarrow> bytes \<Rightarrow> message option) \<Rightarrow> bytes
    \<Rightarrow> ('t, 'v, 'pool) mapping_factory \<Rightarrow> 't \<Rightarrow> bytes \<Rightarrow> dyn_error + bool \<times> 't" where
  "dyn_deserialize find_message dyn_parse ty fac object bin =
     (case mappingByType ty fac of
        None \<Rightarrow> Inl Mapping_null
      | Some m \<Rightarrow> (case find_message (proto_name m) (descriptor_pool fac) of
          None \<Rightarrow> Inl Descriptor_null
        | Some d \<Rightarrow> (case dyn_parse d bin of
            None \<Rightarrow> Inl Parse_failed
          | Some msg \<Rightarrow> map_sum id (\<lambda>obj. (True, obj)) (read_fields d msg (propertyIterator (map_struct m)) object))))"

subsection \<open>What protobuf promises\<close>

definition acceptable :: "descriptor \<Rightarrow> bool" where
  "acceptable d \<longleftrightarrow> distinct (map fst d) \<and> distinct (map snd d) \<and> (\<forall>n\<in>snd ` set d. n \<noteq> 0 \<and> \<not> (19000 \<le> n \<and> n \<le> 19999))"

definition pool_ok :: "(bytes \<Rightarrow> bytes \<Rightarrow> descriptor \<Rightarrow> 'pool \<Rightarrow> 'pool) \<Rightarrow> (bytes \<Rightarrow> 'pool \<Rightarrow> descriptor option) \<Rightarrow> bool" where
  "pool_ok build find_message \<longleftrightarrow>
     (\<forall>file name d pool. \<not> acceptable d \<longrightarrow> build file name d pool = pool) \<and>
     (\<forall>file name d pool. acceptable d \<longrightarrow> find_message name pool = None \<longrightarrow> find_message name (build file name d pool) = Some d)"

definition dyn_ok :: "(message \<Rightarrow> bytes) \<Rightarrow> (descriptor \<Rightarrow> bytes \<Rightarrow> message option) \<Rightarrow> bool" where
  "dyn_ok dyn_ser dyn_parse \<longleftrightarrow>
     (\<forall>msg d. sorted_wrt (<) (map fst msg) \<longrightarrow> length (dyn_ser msg) < proto_limit \<longrightarrow>
        dyn_parse d (dyn_ser msg) = Some (filter (\<lambda>(n, _). n \<in> snd ` set d) msg))"


subsection \<open>Writing and reading the fields\<close>

lemma map_of_map_set [simp]: "map_of (map_set k v m) = (map_of m)(k \<mapsto> v)"
  by (induction k v m rule: map_set.induct) auto

lemma keys_map_set [simp]: "fst ` set (map_set k v m) = insert k (fst ` set m)"
  by (induction k v m rule: map_set.induct) auto

lemma sorted_map_set: "sorted_wrt (<) (map fst m) \<Longrightarrow> sorted_wrt (<) (map fst (map_set k v m))"
proof (induction k v m rule: map_set.induct)
  case (2 k v k' v' kvs)
  have "\<forall>x\<in>fst ` set (map_set k v kvs). k' < x" if "k' < k" using 2(2) that by auto
  then show ?case using 2 by (auto simp: less_trans)
qed simp

lemma map_of_filter_keys: "map_of (filter (\<lambda>(n, _). P n) m) n = (if P n then map_of m n else None)"
  by (induction m) auto

lemma descriptor_of_names: "map fst (descriptor_of ps) = map prop_name ps" "map snd (descriptor_of ps) = map prop_number ps"
  by (simp_all add: descriptor_of_def)

lemma map_of_descriptor:
  assumes "distinct (map prop_name ps)" "p \<in> set ps"
  shows "map_of (descriptor_of ps) (prop_name p) = Some (prop_number p)"
  using assms by (subst map_of_eq_Some_iff) (force simp: descriptor_of_def comp_def)+

lemma write_fields_message:
  assumes "\<And>p. p \<in> set ps \<Longrightarrow> map_of d (prop_name p) = Some (prop_number p)"
    and "\<And>p. p \<in> set ps \<Longrightarrow> prop_serialize p obj = Inr (bin p)"
    and "distinct (map prop_number ps)" "sorted_wrt (<) (map fst msg)"
  shows "\<exists>msg'. write_fields d obj ps msg = Inr msg' \<and> sorted_wrt (<) (map fst msg') \<and>
    (\<forall>p\<in>set ps. map_of msg' (prop_number p) = Some (bin p)) \<and>
    (\<forall>n. n \<notin> prop_number ` set ps \<longrightarrow> map_of msg' n = map_of msg n)"
  using assms
proof (induction ps arbitrary: msg)
  case (Cons p ps)
  have "\<exists>msg'. write_fields d obj ps (map_set (prop_number p) (bin p) msg) = Inr msg' \<and> sorted_wrt (<) (map fst msg') \<and>
    (\<forall>q\<in>set ps. map_of msg' (prop_number q) = Some (bin q)) \<and>
    (\<forall>n. n \<notin> prop_number ` set ps \<longrightarrow> map_of msg' n = map_of (map_set (prop_number p) (bin p) msg) n)"
    by (rule Cons.IH) (use Cons.prems in \<open>auto intro: sorted_map_set\<close>)
  then show ?case using Cons.prems(1,2,3) by fastforce
qed simp

context properties
begin

lemma read_fields_object:
  assumes "set qs \<subseteq> set ps" "distinct (map prop_name qs)"
    and "\<And>q. q \<in> set qs \<Longrightarrow> map_of d (prop_name q) = Some (prop_number q)"
  shows "\<exists>obj'. read_fields d msg qs obj = Inr obj' \<and>
    (\<forall>q\<in>set qs. \<exists>r o'. prop_deserialize q obj (get_field_string msg (prop_number q)) = Inr (r, o') \<and> prop_get q obj' = prop_get q o') \<and>
    (\<forall>q\<in>set ps. prop_name q \<notin> prop_name ` set qs \<longrightarrow> prop_get q obj' = prop_get q obj)"
  using assms
proof (induction qs arbitrary: obj)
  case (Cons p qs)
  let ?src = "\<lambda>q. get_field_string msg (prop_number q)"
  obtain r o1 where d: "prop_deserialize p obj (?src p) = Inr (r, o1)"
    using deserialized[of p obj "?src p"] Cons.prems(1) by auto
  obtain obj' where o: "read_fields d msg qs o1 = Inr obj'"
      "\<forall>q\<in>set qs. \<exists>r o'. prop_deserialize q o1 (?src q) = Inr (r, o') \<and> prop_get q obj' = prop_get q o'"
      "\<forall>q\<in>set ps. prop_name q \<notin> prop_name ` set qs \<longrightarrow> prop_get q obj' = prop_get q o1"
    using Cons.IH[of o1] Cons.prems by auto
  have p: "p \<in> set ps" using Cons.prems(1) by simp
  have "\<exists>r o'. prop_deserialize q obj (?src q) = Inr (r, o') \<and> prop_get q obj' = prop_get q o'" if q: "q \<in> set qs" for q
  proof -
    have qp: "q \<in> set ps" "prop_name p \<noteq> prop_name q" using q Cons.prems(1,2) by auto
    obtain r2 o2 where r2: "prop_deserialize q o1 (?src q) = Inr (r2, o2)" "prop_get q obj' = prop_get q o2" using o(2) q by blast
    obtain r3 o3 where r3: "prop_deserialize q obj (?src q) = Inr (r3, o3)" using deserialized[OF qp(1), of obj "?src q"] by auto
    have "prop_get q o3 = prop_get q o2"
      using same_member[OF qp(1) _ r3 r2(1)] other[OF p qp d] by simp
    then show ?thesis using r2 r3 by auto
  qed
  moreover have "prop_get p obj' = prop_get p o1" using o(3) p Cons.prems(2) by simp
  moreover have "prop_get q obj' = prop_get q obj" if "q \<in> set ps" "prop_name q \<notin> prop_name ` set (p # qs)" for q
    using o(3) other[OF p that(1) _ d] that by auto
  ultimately show ?case using d o(1) Cons.prems(3) by auto
qed simp

end

lemma created_descriptor:
  assumes "pool_ok build find_message" "mappingByType ty fac = Some m"
    and "createProtoDescriptorByType build ty fac = (r, fac')"
  shows "r" "mappingByType t fac' = mappingByType t fac"
    "\<not> acceptable (descriptor_of (propertyIterator (map_struct m))) \<Longrightarrow> descriptor_pool fac' = descriptor_pool fac"
    "acceptable (descriptor_of (propertyIterator (map_struct m))) \<Longrightarrow> find_message (proto_name m) (descriptor_pool fac) = None \<Longrightarrow>
      find_message (proto_name m) (descriptor_pool fac') = Some (descriptor_of (propertyIterator (map_struct m)))"
  using assms by (auto simp: createProtoDescriptorByType_def createProtoDescriptor_def pool_ok_def mappingByType_def)


subsection \<open>An instance of protobuf and a class in two versions\<close>

definition wire_build :: "bytes \<Rightarrow> bytes \<Rightarrow> descriptor \<Rightarrow> (bytes \<Rightarrow> descriptor option) \<Rightarrow> bytes \<Rightarrow> descriptor option" where
  "wire_build file name d pool = (if acceptable d \<and> pool name = None then pool(name \<mapsto> d) else pool)"

definition wire_find :: "bytes \<Rightarrow> (bytes \<Rightarrow> descriptor option) \<Rightarrow> descriptor option" where
  "wire_find name pool = pool name"

definition wire_dyn_ser :: "message \<Rightarrow> bytes" where
  "wire_dyn_ser msg = put_fields (map (\<lambda>(n, b). (unat n, Len b)) msg)"

definition wire_dyn_parse :: "descriptor \<Rightarrow> bytes \<Rightarrow> message option" where
  "wire_dyn_parse d b = map_option (\<lambda>fs. filter (\<lambda>(n, _). n \<in> snd ` set d)
     (List.map_filter (\<lambda>(k, w). map_option (\<lambda>b. (of_nat k, b)) (as_len w)) fs)) (get_fields b)"

lemma wire_pool_ok: "pool_ok wire_build wire_find"
  by (simp add: pool_ok_def wire_build_def wire_find_def)

lemma wire_dyn_ok: "dyn_ok wire_dyn_ser wire_dyn_parse"
proof -
  have "List.map_filter (\<lambda>(k, w). map_option (\<lambda>b. (of_nat k, b)) (as_len w)) (map (\<lambda>(n, b). (unat n, Len b)) msg) = msg"
    for msg :: message by (induction msg) auto
  then show ?thesis by (simp add: dyn_ok_def wire_dyn_ser_def wire_dyn_parse_def)
qed

text \<open>
  A player: level, name and friends. Version 1 of the program knows level and name, version
  2 knows name and friends.
\<close>

datatype player_any = Byte u8 | Text bytes | Texts "bytes list"

type_synonym player = "u8 \<times> bytes \<times> bytes list"

fun the_byte :: "player_any \<Rightarrow> u8" where "the_byte (Byte b) = b" | "the_byte _ = 0"
fun the_text :: "player_any \<Rightarrow> bytes" where "the_text (Text b) = b" | "the_text _ = []"
fun the_texts :: "player_any \<Rightarrow> bytes list" where "the_texts (Texts b) = b" | "the_texts _ = []"

definition level_prop :: "(player, player_any) property" where
  "level_prop = Property_T [108] 1 1 Byte the_byte fst (\<lambda>v (_, n, f). (v, n, f)) (Impl_Integer_unsigned wire_pb 0)"

definition name_prop :: "(player, player_any) property" where
  "name_prop = Property_T [110] 2 2 Text the_text (\<lambda>(_, n, _). n) (\<lambda>v (l, _, f). (l, v, f)) (Impl_String wire_pb)"

definition friends_prop :: "(player, player_any) property" where
  "friends_prop = Property_T [102] 3 3 Texts the_texts (\<lambda>(_, _, f). f) (\<lambda>v (l, n, _). (l, n, v)) (Impl_Seq wire_pb (Impl_String wire_pb))"

lemmas player_props = level_prop_def name_prop_def friends_prop_def

definition player_default :: "(player, player_any) property \<Rightarrow> player_any any" where
  "player_default p = prop_get p (0, [], [])"

text \<open>Every serialization of a member shorter than the limit is writable.\<close>

definition player_writable :: "(player, player_any) property \<Rightarrow> player \<Rightarrow> bool" where
  "player_writable p obj = (case prop_serialize p obj of Inr bin \<Rightarrow> length bin < proto_limit | Inl _ \<Rightarrow> False)"

lemma player_properties:
  assumes "set ps \<subseteq> {level_prop, name_prop, friends_prop}"
  shows "properties ps player_default player_writable"
proof
  have cases: "p = level_prop \<or> p = name_prop \<or> p = friends_prop" if "p \<in> set ps" for p using that assms by auto
  fix p q obj bin assume p: "p \<in> set ps"
  show "\<exists>bin. prop_serialize p obj = Inr bin" "\<exists>r obj'. prop_deserialize p obj bin = Inr (r, obj')"
    using cases[OF p] by (elim disjE; auto simp: player_props Property_T_def split: prod.splits)+
next
  fix p obj bin old r obj'
  assume p: "p \<in> set ps" and w: "player_writable p obj" "prop_serialize p obj = Inr bin"
    "prop_get p old = player_default p" "prop_deserialize p old bin = Inr (r, obj')"
  consider "p = level_prop" | "p = name_prop" | "p = friends_prop" using p assms by auto
  then show "prop_get p obj' = prop_get p obj"
  proof cases
    case 1
    show ?thesis using w Integer_unsigned_serializer[OF wire_pb_ok, of "0 :: u8", simplified] unfolding 1 level_prop_def
      by (intro Property_T_round_trip[where S = "Impl_Integer_unsigned wire_pb 0" and ok = "\<lambda>_. True" and bin = bin and old = old, THEN conjunct1])
        (auto simp: player_writable_def player_default_def Property_T_def Impl_Integer_unsigned_def split: prod.splits)
  next
    case 2
    show ?thesis using w String_serializer[OF wire_pb_ok] unfolding 2 name_prop_def
      by (intro Property_T_round_trip[where S = "Impl_String wire_pb" and ok = "\<lambda>_. True" and bin = bin and old = old, THEN conjunct1])
        (auto simp: player_writable_def player_default_def Property_T_def Impl_String_def split: prod.splits)
  next
    case 3
    show ?thesis using w strings_serializer unfolding 3 friends_prop_def
      by (intro Property_T_round_trip[where S = "Impl_Seq wire_pb (Impl_String wire_pb)" and ok = "\<lambda>_. True" and bin = bin and old = old, THEN conjunct1])
        (auto simp: player_writable_def player_default_def Property_T_def Impl_Seq_def split: prod.splits)
  qed
next
  fix p o1 o2 o1' o2' bin r1 r2
  assume "p \<in> set ps" and a: "prop_get p o1 = prop_get p o2" "prop_deserialize p o1 bin = Inr (r1, o1')"
    "prop_deserialize p o2 bin = Inr (r2, o2')"
  then have "p = level_prop \<or> p = name_prop \<or> p = friends_prop" using assms by auto
  then show "prop_get p o1' = prop_get p o2'"
    using a by (elim disjE; auto simp: player_props Property_T_def split: prod.splits)
next
  fix p q obj bin r obj'
  assume "p \<in> set ps" "q \<in> set ps" and a: "prop_name p \<noteq> prop_name q" "prop_deserialize p obj bin = Inr (r, obj')"
  then have "p = level_prop \<or> p = name_prop \<or> p = friends_prop" "q = level_prop \<or> q = name_prop \<or> q = friends_prop"
    using assms by auto
  then show "prop_get q obj' = prop_get q obj"
    using a by (elim disjE; auto simp: player_props Property_T_def split: prod.splits)
qed

interpretation v1: properties "[level_prop, name_prop]" player_default player_writable
  by (rule player_properties) simp

interpretation v2: properties "[name_prop, friends_prop]" player_default player_writable
  by (rule player_properties) simp


subsection \<open>Properties\<close>

text \<open>
  C28. Two versions of a program understand each other: what one with the properties \<open>ps\<close> of a
  class has written, one with the properties \<open>qs\<close> reads into a fresh object without an error.
  The properties both have keep their values; those that only the writer had are skipped;
  those that only the reader has are read from the empty string. It is enough that no number
  has been given to another property.
\<close>

theorem dyn_versions:
  assumes P: "properties ps dflt writable" and Q: "properties qs dflt writable" and pb: "dyn_ok dyn_ser dyn_parse"
    and writer: "mappingByType ty fw = Some mw" "propertyIterator (map_struct mw) = ps" "acceptable (descriptor_of ps)"
      "find_message (proto_name mw) (descriptor_pool fw) = Some (descriptor_of ps)"
    and reader: "mappingByType ty fr = Some mr" "propertyIterator (map_struct mr) = qs" "acceptable (descriptor_of qs)"
      "find_message (proto_name mr) (descriptor_pool fr) = Some (descriptor_of qs)"
    and numbers: "\<And>p q. p \<in> set ps \<Longrightarrow> q \<in> set qs \<Longrightarrow> prop_number p = prop_number q \<Longrightarrow> p = q"
    and fresh: "\<And>q. q \<in> set qs \<Longrightarrow> prop_get q old = dflt q" and ok: "\<And>p. p \<in> set ps \<Longrightarrow> writable p obj"
    and small: "\<And>bin. dyn_serialize find_message dyn_ser ty fw obj = Inr bin \<Longrightarrow> length bin < proto_limit"
  shows "\<exists>bin obj'. dyn_serialize find_message dyn_ser ty fw obj = Inr bin \<and>
    dyn_deserialize find_message dyn_parse ty fr old bin = Inr (True, obj') \<and>
    (\<forall>q\<in>set qs. if q \<in> set ps then prop_get q obj' = prop_get q obj
       else \<exists>r o'. prop_deserialize q old [] = Inr (r, o') \<and> prop_get q obj' = prop_get q o')"
proof -
  have pn: "distinct (map prop_name ps)" "distinct (map prop_number ps)" "distinct (map prop_name qs)"
    using writer(3) reader(3) by (simp_all add: acceptable_def descriptor_of_names)
  obtain bin where bin: "\<And>p. p \<in> set ps \<Longrightarrow> prop_serialize p obj = Inr (bin p)"
    using properties.serialized[OF P, where obj = obj] by metis
  obtain msg where msg: "write_fields (descriptor_of ps) obj ps [] = Inr msg" "sorted_wrt (<) (map fst msg)"
      "\<forall>p\<in>set ps. map_of msg (prop_number p) = Some (bin p)" "\<forall>n. n \<notin> prop_number ` set ps \<longrightarrow> map_of msg n = None"
    using write_fields_message[of ps "descriptor_of ps" obj bin "[]"] map_of_descriptor[OF pn(1)] bin pn(2) by auto
  have s: "dyn_serialize find_message dyn_ser ty fw obj = Inr (dyn_ser msg)"
    by (simp add: dyn_serialize_def writer msg(1))
  let ?msg = "filter (\<lambda>(n, _). n \<in> snd ` set (descriptor_of qs)) msg"
  have parse: "dyn_parse (descriptor_of qs) (dyn_ser msg) = Some ?msg"
    using pb small[OF s] msg(2) by (simp add: dyn_ok_def)
  have numq: "prop_number q \<in> snd ` set (descriptor_of qs)" if "q \<in> set qs" for q
    using that by (force simp: descriptor_of_def)
  have src: "get_field_string ?msg (prop_number q) = (if q \<in> set ps then bin q else [])" if q: "q \<in> set qs" for q
  proof (cases "q \<in> set ps")
    case True
    then show ?thesis using msg(3) numq[OF q] by (simp add: get_field_string_def map_of_filter_keys)
  next
    case False
    then have "prop_number q \<notin> prop_number ` set ps" using numbers[OF _ q] by auto
    then show ?thesis using False msg(4) by (simp add: get_field_string_def map_of_filter_keys)
  qed
  obtain obj' where o: "read_fields (descriptor_of qs) ?msg qs old = Inr obj'"
      "\<forall>q\<in>set qs. \<exists>r o'. prop_deserialize q old (get_field_string ?msg (prop_number q)) = Inr (r, o') \<and> prop_get q obj' = prop_get q o'"
    using properties.read_fields_object[OF Q subset_refl pn(3) map_of_descriptor[OF pn(3)], of ?msg old] by auto
  have "dyn_deserialize find_message dyn_parse ty fr old (dyn_ser msg) = Inr (True, obj')"
    by (simp add: dyn_deserialize_def reader parse o(1))
  moreover have "if q \<in> set ps then prop_get q obj' = prop_get q obj
       else \<exists>r o'. prop_deserialize q old [] = Inr (r, o') \<and> prop_get q obj' = prop_get q o'" if q: "q \<in> set qs" for q
    using o(2) src[OF q] q properties.round_trip[OF Q q ok bin fresh[OF q]] by auto
  ultimately show ?thesis using s by blast
qed

text \<open>A class of version 1 or 2 as the factory has it after \<open>declare\<close>, \<open>property\<close> and \<open>done\<close>.\<close>

definition player_factory :: "(player, player_any) property list \<Rightarrow> (player, player_any, bytes \<Rightarrow> descriptor option) mapping_factory" where
  "player_factory ps = snd (createProtoDescriptorByType wire_build [80]
     (foldl (\<lambda>fac p. mapping_property [80] p fac) (declare_mapping [80] [80] [] (ProtoMappingFactory Map.empty)) ps))"

lemma mapping_properties:
  assumes "mappings_by_typeid fac ty = Some 0" "mappings_by_order fac = [m]"
  shows "foldl (\<lambda>fac p. mapping_property ty p fac) fac ps =
    fac\<lparr>mappings_by_order := [m\<lparr>map_struct := foldl (\<lambda>st p. add_property p st) (map_struct m) ps\<rparr>]\<rparr>"
  using assms
proof (induction ps arbitrary: fac m)
  case Nil
  then show ?case by (cases fac; cases m) simp
qed (simp add: mapping_property_def)

lemma firsts_distinct: "distinct (map prop_name ps) \<Longrightarrow> seen \<inter> prop_name ` set ps = {} \<Longrightarrow> firsts seen ps = ps"
  by (induction ps arbitrary: seen) auto

lemma player_factory_mapping:
  assumes "distinct (map prop_name ps)" "acceptable (descriptor_of ps)"
  defines "m \<equiv> (ProtoMapping None [80] [])\<lparr>map_struct := foldl (\<lambda>st p. add_property p st) (Struct [80] 0) ps\<rparr>"
  shows "mappingByType [80] (player_factory ps) = Some m" "propertyIterator (map_struct m) = ps"
    "wire_find (proto_name m) (descriptor_pool (player_factory ps)) = Some (descriptor_of ps)"
proof -
  let ?fac = "declare_mapping [80] [80] [] (ProtoMappingFactory Map.empty) :: (player, player_any, bytes \<Rightarrow> descriptor option) mapping_factory"
  have "foldl (\<lambda>fac p. mapping_property [80] p fac) ?fac ps = ?fac\<lparr>mappings_by_order := [m]\<rparr>"
    by (subst mapping_properties[where m = "ProtoMapping None [80] []"])
      (simp_all add: declare_mapping_def createProtoDescriptorMapping_def ProtoMappingFactory_def m_def ProtoMapping_def)
  then have f: "player_factory ps = snd (createProtoDescriptorByType wire_build [80] (?fac\<lparr>mappings_by_order := [m]\<rparr>))"
    by (simp add: player_factory_def)
  have t: "mappingByType [80] (?fac\<lparr>mappings_by_order := [m]\<rparr>) = Some m"
    by (simp add: mappingByType_def declare_mapping_def createProtoDescriptorMapping_def ProtoMappingFactory_def)
  have "properties_ordered (map_struct m) = firsts {} ps"
    using add_properties_order[OF struct_ok_Struct, of "{}" "[80]" 0 ps] by (simp add: m_def Struct_def)
  then show p: "propertyIterator (map_struct m) = ps"
    using firsts_distinct[OF assms(1), of "{}"] by (simp add: propertyIterator_def)
  obtain r fac' where c: "createProtoDescriptorByType wire_build [80] (?fac\<lparr>mappings_by_order := [m]\<rparr>) = (r, fac')" by fastforce
  note d = created_descriptor[OF wire_pool_ok t c]
  show "mappingByType [80] (player_factory ps) = Some m" using d(2)[of "[80]"] t by (simp add: f c)
  have "wire_find (proto_name m) (descriptor_pool (?fac\<lparr>mappings_by_order := [m]\<rparr>)) = None"
    by (simp add: wire_find_def declare_mapping_def createProtoDescriptorMapping_def ProtoMappingFactory_def)
  then show "wire_find (proto_name m) (descriptor_pool (player_factory ps)) = Some (descriptor_of ps)"
    using d(4) assms(2) by (simp add: f c p)
qed

theorem dyn_versions_witness:
  "\<exists>bin obj'. dyn_serialize wire_find wire_dyn_ser [80] (player_factory [level_prop, name_prop]) (7, [65], [[66]]) = Inr bin \<and>
    dyn_deserialize wire_find wire_dyn_parse [80] (player_factory [name_prop, friends_prop]) (0, [], []) bin = Inr (True, obj') \<and>
    prop_get name_prop obj' = (2, Text [65])"
proof -
  have names: "distinct (map prop_name [level_prop, name_prop])" "distinct (map prop_name [name_prop, friends_prop])"
    "acceptable (descriptor_of [level_prop, name_prop])" "acceptable (descriptor_of [name_prop, friends_prop])"
    by (simp_all add: player_props Property_T_def acceptable_def descriptor_of_def word_le_nat_alt)
  have ser: "dyn_serialize wire_find wire_dyn_ser [80] (player_factory [level_prop, name_prop]) (7, [65], [[66]]) =
      Inr (wire_dyn_ser [(1, [8, 7]), (2, [10, 1, 65])])"
    unfolding dyn_serialize_def using player_factory_mapping[OF names(1,3)]
    by (simp add: map_of_descriptor[OF names(1)])
      (simp add: player_props Property_T_def descriptor_of_def Impl_Integer_unsigned_def Impl_String_def wire_pb_def opt_field_def
        varint.simps)
  have "length (wire_dyn_ser [(1, [8, 7]), (2, [10, 1, 65])]) < proto_limit"
    by (simp add: wire_dyn_ser_def varint.simps proto_limit_def)
  with ser have small: "length bin < proto_limit"
    if "dyn_serialize wire_find wire_dyn_ser [80] (player_factory [level_prop, name_prop]) (7, [65], [[66]]) = Inr bin" for bin
    using that by simp
  have num: "p = q" if "p \<in> set [level_prop, name_prop]" "q \<in> set [name_prop, friends_prop]" "prop_number p = prop_number q" for p q
    using that by (auto simp: player_props Property_T_def)
  have fresh: "prop_get q (0, [], []) = player_default q" for q by (simp add: player_default_def)
  have ok: "player_writable p (7, [65], [[66]])" if "p \<in> set [level_prop, name_prop]" for p
  proof -
    have "prop_serialize level_prop (7, [65], [[66]]) = Inr [8, 7]" "prop_serialize name_prop (7, [65], [[66]]) = Inr [10, 1, 65]"
      by (simp_all add: player_props Property_T_def Impl_Integer_unsigned_def Impl_String_def wire_pb_def opt_field_def varint.simps)
    then show ?thesis using that by (auto simp: player_writable_def proto_limit_def)
  qed
  from dyn_versions[where find_message = wire_find and ty = "[80]" and fw = "player_factory [level_prop, name_prop]"
      and fr = "player_factory [name_prop, friends_prop]", OF v1.properties_axioms v2.properties_axioms wire_dyn_ok
      player_factory_mapping(1,2)[OF names(1,3)] names(3) player_factory_mapping(3)[OF names(1,3)]
      player_factory_mapping(1,2)[OF names(2,4)] names(4) player_factory_mapping(3)[OF names(2,4)] num fresh ok small]
  obtain bin obj' where "dyn_serialize wire_find wire_dyn_ser [80] (player_factory [level_prop, name_prop]) (7, [65], [[66]]) = Inr bin"
      "dyn_deserialize wire_find wire_dyn_parse [80] (player_factory [name_prop, friends_prop]) (0, [], []) bin = Inr (True, obj')"
      "\<forall>q\<in>set [name_prop, friends_prop]. if q \<in> set [level_prop, name_prop] then prop_get q obj' = prop_get q (7, [65], [[66]])
        else \<exists>r o'. prop_deserialize q (0, [], []) [] = Inr (r, o') \<and> prop_get q obj' = prop_get q o'"
    by blast
  moreover from this(3) have "prop_get name_prop obj' = (2, Text [65])" by (simp add: name_prop_def Property_T_def)
  ultimately show ?thesis by blast
qed


text \<open>
  A class with an unnumbered property, the default in a \<open>StructFactory\<close>, cannot be
  serialized: protobuf refuses its message type, \<open>createProtoDescriptor\<close> still reports
  success, and every later use throws.
\<close>

theorem unnumbered_class_throws:
  assumes "pool_ok build find_message" "mappingByType ty fac = Some m"
    and "p \<in> set (propertyIterator (map_struct m))" "prop_number p = 0"
    and "find_message (proto_name m) (descriptor_pool fac) = None"
    and "createProtoDescriptorByType build ty fac = (r, fac')"
  shows "r \<and> dyn_serialize find_message dyn_ser ty fac' obj = Inl Descriptor_null \<and>
    dyn_deserialize find_message dyn_parse ty fac' obj bin = Inl Descriptor_null"
proof -
  have "\<not> acceptable (descriptor_of (propertyIterator (map_struct m)))"
    using assms(3,4) by (force simp: acceptable_def descriptor_of_def)
  with created_descriptor[OF assms(1,2,6)] assms(2,5) show ?thesis
    by (simp add: dyn_serialize_def dyn_deserialize_def)
qed

theorem unnumbered_class_throws_witness:
  "\<exists>fac. createProtoDescriptorByType wire_build [80] (mapping_property [80] (level_prop\<lparr>prop_number := 0\<rparr>)
      (declare_mapping [80] [80] [] (ProtoMappingFactory Map.empty))) = (True, fac) \<and>
    dyn_serialize wire_find wire_dyn_ser [80] fac (7, [], []) = Inl Descriptor_null"
proof -
  let ?fac = "mapping_property [80] (level_prop\<lparr>prop_number := 0\<rparr>) (declare_mapping [80] [80] [] (ProtoMappingFactory Map.empty))
    :: (player, player_any, bytes \<Rightarrow> descriptor option) mapping_factory"
  obtain r fac' where c: "createProtoDescriptorByType wire_build [80] ?fac = (r, fac')" by fastforce
  obtain m where m: "mappingByType [80] ?fac = Some m" "level_prop\<lparr>prop_number := 0\<rparr> \<in> set (propertyIterator (map_struct m))"
    by (simp add: mappingByType_def mapping_property_def declare_mapping_def createProtoDescriptorMapping_def ProtoMappingFactory_def
        ProtoMapping_def propertyIterator_def add_property_def hasProperty_def Struct_def Let_def)
  have "wire_find (proto_name m) (descriptor_pool ?fac) = None"
    by (simp add: wire_find_def mapping_property_def declare_mapping_def createProtoDescriptorMapping_def ProtoMappingFactory_def)
  from unnumbered_class_throws[OF wire_pool_ok m _ this c, of wire_dyn_ser "(7, [], [])"] show ?thesis using c by simp
qed

text \<open>No operation of the factory enters anything under a name.\<close>

lemma mappings_by_name_unused:
  "mappings_by_name (ProtoMappingFactory pool) = Map.empty"
  "mappings_by_name (declare_mapping ty cname pname fac) = mappings_by_name fac"
  "mappings_by_name (mapping_of_struct structs ty pname fac) = mappings_by_name fac"
  "mappings_by_name (mapping_property ty p fac) = mappings_by_name fac"
  "mappings_by_name (snd (createProtoDescriptorByType build ty fac)) = mappings_by_name fac"
  "mappings_by_name (createAllProtoDescriptor build fac) = mappings_by_name fac"
  by (simp_all add: ProtoMappingFactory_def declare_mapping_def createProtoDescriptorMapping_def mapping_of_struct_def
      mapping_property_def createProtoDescriptorByType_def createAllProtoDescriptor_def Let_def split: option.splits prod.splits)

end
