(* ===== verification/Rpc.thy ===== *)
theory Rpc
  imports Serializer "HOL-Library.Signed_Division"
begin

text \<open>
  \<open>common/tinyrpc_client.h\<close>, \<open>common/tinyrpc_server.h\<close> and \<open>common/tinyrpc.cpp\<close>: the calls
  that a client has sent and waits for (\<open>RPCHolder\<close>, \<open>RPCEmitter\<close>), and the callbacks of a
  server (\<open>RPCCallback\<close>, \<open>RPCDispatcher\<close>).

  A holder is the object behind its \<open>RPCHolderBase\<close> pointer: the template arguments
  \<open>Request\<close> and \<open>Reply\<close> are its fields for the two message names and serializers. Callbacks
  act on a state \<open>'s\<close> of the user; they do not call the emitter. Times are nanoseconds. An
  \<open>unordered_map\<close> that is iterated is the list of its keys in the order of iteration.
\<close>

subsection \<open>The messages\<close>

datatype ErrorCode =
    NOERROR | REQUEST_INVALID | REQUEST_NOT_MATCHED | REQUEST_PARSE_ERROR | REPLY_PACK_ERROR
  | REPLY_NOT_MATCHED | REPLY_PARSE_ERROR

text \<open>\<open>rpc::Request\<close> and \<open>rpc::Reply\<close>, whose fields are all optional.\<close>

record rpc_Request =
  req_id :: "u64 option"
  req_request :: "bytes option"
  req_reply :: "bytes option"
  req_body :: "bytes option"

record rpc_Reply =
  rep_id :: "u64 option"
  rep_request :: "bytes option"
  rep_reply :: "bytes option"
  rep_body :: "bytes option"
  rep_errcode :: "ErrorCode option"

definition empty_Request :: rpc_Request where
  "empty_Request = \<lparr>req_id = None, req_request = None, req_reply = None, req_body = None\<rparr>"

definition empty_Reply :: rpc_Reply where
  "empty_Reply = \<lparr>rep_id = None, rep_request = None, rep_reply = None, rep_body = None, rep_errcode = None\<rparr>"

definition errcode :: "rpc_Reply \<Rightarrow> ErrorCode" where
  "errcode r = (case rep_errcode r of Some e \<Rightarrow> e | None \<Rightarrow> NOERROR)"

subsection \<open>Holders\<close>

record ('q, 'p, 's) holder =
  call_id :: u64
  createtime :: int
  timeout_ms :: int
  has_emitter :: bool
  request_name :: bytes
  reply_name :: bytes
  request_serializer :: "'q proto_serializer"
  reply_serializer :: "'p proto_serializer"
  call_request :: 'q
  cb_done :: "('p \<Rightarrow> 's \<Rightarrow> 's) option"
  cb_timeout :: "('q \<Rightarrow> 's \<Rightarrow> 's) option"
  cb_error :: "('q \<Rightarrow> ErrorCode \<Rightarrow> 's \<Rightarrow> 's) option"

definition elapsed_ms :: "int \<Rightarrow> ('q, 'p, 's) holder \<Rightarrow> int" where
  "elapsed_ms now h = (now - createtime h) sdiv 1000000"

definition isTimeout :: "int \<Rightarrow> ('q, 'p, 's) holder \<Rightarrow> bool" where
  "isTimeout now h = (if timeout_ms h < 0 then False else elapsed_ms now h > timeout_ms h)"

text \<open>
  \<open>pack\<close> changes the message only when it succeeds; \<open>request_name\<close> and \<open>reply_name\<close> are
  \<open>MessageName<Request>::value()\<close> and \<open>MessageName<Reply>::value()\<close>.
\<close>

definition pack :: "('q, 'p, 's) holder \<Rightarrow> rpc_Request \<Rightarrow> bool \<times> rpc_Request" where
  "pack h req =
     (let body = serialize (request_serializer h) (call_request h) in
      if length body \<noteq> 0
      then (True, req\<lparr>req_id := Some (call_id h), req_request := Some (request_name h),
          req_reply := Some (reply_name h), req_body := Some body\<rparr>)
      else (False, req))"

definition call_error :: "('q, 'p, 's) holder \<Rightarrow> ErrorCode \<Rightarrow> 's \<Rightarrow> 's" where
  "call_error h e s = (case cb_error h of Some cb \<Rightarrow> cb (call_request h) e s | None \<Rightarrow> s)"

definition holder_replied :: "('q, 'p, 's) holder \<Rightarrow> rpc_Reply \<Rightarrow> 's \<Rightarrow> 's" where
  "holder_replied h rpc_reply s =
     (if errcode rpc_reply \<noteq> NOERROR then call_error h (errcode rpc_reply) s
      else if get_bytes (rep_request rpc_reply) \<noteq> request_name h
        \<or> get_bytes (rep_reply rpc_reply) \<noteq> reply_name h then call_error h REPLY_NOT_MATCHED s
      else (case deserialize (reply_serializer h) (construct (reply_serializer h)) (get_bytes (rep_body rpc_reply)) of
          (False, _) \<Rightarrow> call_error h REPLY_PARSE_ERROR s
        | (True, reply) \<Rightarrow> (case cb_done h of Some cb \<Rightarrow> cb reply s | None \<Rightarrow> s)))"

definition holder_timeouted :: "('q, 'p, 's) holder \<Rightarrow> 's \<Rightarrow> 's" where
  "holder_timeouted h s = (case cb_timeout h of Some cb \<Rightarrow> cb (call_request h) s | None \<Rightarrow> s)"

subsection \<open>The emitter\<close>

text \<open>
  The counter \<open>total_id_\<close> is static, all emitters share it. \<open>rpc_timeout_holders_\<close> shares its
  objects with \<open>rpc_holders_\<close>, so here it holds their numbers.
\<close>

record ('q, 'p, 's) emitter =
  total_id :: u64
  rpc_holders :: "u64 \<Rightarrow> ('q, 'p, 's) holder option"
  rpc_timeout_holders :: "u64 list"

definition RPCEmitter :: "u64 \<Rightarrow> ('q, 'p, 's) emitter" where
  "RPCEmitter n = \<lparr>total_id = n, rpc_holders = Map.empty, rpc_timeout_holders = []\<rparr>"

text \<open>The constructor leaves \<open>timeout_ms_\<close> at some value \<open>junk\<close>.\<close>

definition RPCHolder :: "int \<Rightarrow> u64 \<Rightarrow> int \<Rightarrow> bytes \<Rightarrow> bytes \<Rightarrow> 'q proto_serializer \<Rightarrow> 'p proto_serializer \<Rightarrow> 'q
    \<Rightarrow> ('q, 'p, 's) holder" where
  "RPCHolder junk n now qname pname QS PS req =
     \<lparr>call_id = n + 1, createtime = now, timeout_ms = junk, has_emitter = True,
      request_name = qname, reply_name = pname, request_serializer = QS, reply_serializer = PS,
      call_request = req, cb_done = None, cb_timeout = None, cb_error = None\<rparr>"

definition emitter_emit :: "int \<Rightarrow> int \<Rightarrow> bytes \<Rightarrow> bytes \<Rightarrow> 'q proto_serializer \<Rightarrow> 'p proto_serializer \<Rightarrow> 'q
    \<Rightarrow> ('q, 'p, 's) emitter \<Rightarrow> ('q, 'p, 's) holder \<times> ('q, 'p, 's) emitter" where
  "emitter_emit junk now qname pname QS PS req em =
     (let h = RPCHolder junk (total_id em) now qname pname QS PS req
      in (h, em\<lparr>total_id := total_id em + 1, rpc_holders := (rpc_holders em)(call_id h \<mapsto> h)\<rparr>))"

text \<open>
  The reference that \<open>emit\<close> returns is valid while the emitter holds the object; through a
  reference to a deleted holder the behaviour is undefined (\<open>None\<close>). \<open>place\<close> is where the
  hash table puts a new key.
\<close>

definition through :: "u64 \<Rightarrow> (('q, 'p, 's) holder \<Rightarrow> ('q, 'p, 's) holder) \<Rightarrow> ('q, 'p, 's) emitter
    \<Rightarrow> ('q, 'p, 's) emitter option" where
  "through i f em = (case rpc_holders em i of
       Some h \<Rightarrow> Some (em\<lparr>rpc_holders := (rpc_holders em)(i \<mapsto> f h)\<rparr>) | None \<Rightarrow> None)"

definition setTimeout :: "(u64 \<Rightarrow> u64 list \<Rightarrow> nat) \<Rightarrow> u64 \<Rightarrow> int \<Rightarrow> ('q, 'p, 's) emitter \<Rightarrow> ('q, 'p, 's) emitter option" where
  "setTimeout place i ms em =
     (case through i (\<lambda>h. h\<lparr>timeout_ms := ms\<rparr>) em of
        None \<Rightarrow> None
      | Some em \<Rightarrow> Some (if ms \<noteq> - 1
          then em\<lparr>rpc_timeout_holders := hash_insert place (\<lambda>x. x) i (rpc_timeout_holders em)\<rparr> else em))"

definition on_done :: "u64 \<Rightarrow> ('p \<Rightarrow> 's \<Rightarrow> 's) \<Rightarrow> ('q, 'p, 's) emitter \<Rightarrow> ('q, 'p, 's) emitter option" where
  "on_done i cb = through i (\<lambda>h. h\<lparr>cb_done := Some cb\<rparr>)"

definition on_timeout :: "(u64 \<Rightarrow> u64 list \<Rightarrow> nat) \<Rightarrow> u64 \<Rightarrow> ('q \<Rightarrow> 's \<Rightarrow> 's) \<Rightarrow> int \<Rightarrow> ('q, 'p, 's) emitter
    \<Rightarrow> ('q, 'p, 's) emitter option" where
  "on_timeout place i cb ms em =
     (case setTimeout place i ms em of
        Some em \<Rightarrow> through i (\<lambda>h. h\<lparr>cb_timeout := Some cb\<rparr>) em | None \<Rightarrow> None)"

definition on_error :: "u64 \<Rightarrow> ('q \<Rightarrow> ErrorCode \<Rightarrow> 's \<Rightarrow> 's) \<Rightarrow> ('q, 'p, 's) emitter \<Rightarrow> ('q, 'p, 's) emitter option" where
  "on_error i cb = through i (\<lambda>h. h\<lparr>cb_error := Some cb\<rparr>)"

definition erase_call :: "u64 \<Rightarrow> ('q, 'p, 's) emitter \<Rightarrow> ('q, 'p, 's) emitter" where
  "erase_call i em = em\<lparr>rpc_holders := (rpc_holders em)(i := None),
     rpc_timeout_holders := filter (\<lambda>j. j \<noteq> i) (rpc_timeout_holders em)\<rparr>"

definition emitter_replied :: "rpc_Reply \<Rightarrow> ('q, 'p, 's) emitter \<times> 's \<Rightarrow> ('q, 'p, 's) emitter \<times> 's" where
  "emitter_replied reply = (\<lambda>(em, s).
     case rpc_holders em (get_number (rep_id reply)) of
       Some h \<Rightarrow> (let s = holder_replied h reply s in (erase_call (get_number (rep_id reply)) em, s))
     | None \<Rightarrow> (em, s))"

text \<open>The loop of \<open>checkTimeout\<close> over the holders that were in the map at its start.\<close>

fun check_loop :: "int \<Rightarrow> u64 list \<Rightarrow> nat \<Rightarrow> ('q, 'p, 's) emitter \<times> 's \<Rightarrow> nat \<times> ('q, 'p, 's) emitter \<times> 's" where
  "check_loop now [] n (em, s) = (n, em, s)"
| "check_loop now (i # is) n (em, s) =
     (case rpc_holders em i of
        Some h \<Rightarrow>
          if isTimeout now h
          then check_loop now is (n + 1) (erase_call i em, holder_timeouted h s)
          else check_loop now is n (em, s)
      | None \<Rightarrow> check_loop now is n (em, s))"

definition checkTimeout :: "int \<Rightarrow> ('q, 'p, 's) emitter \<times> 's \<Rightarrow> nat \<times> ('q, 'p, 's) emitter \<times> 's" where
  "checkTimeout now = (\<lambda>(em, s). check_loop now (rpc_timeout_holders em) 0 (em, s))"

subsection \<open>The server\<close>

definition makeReply :: "rpc_Request \<Rightarrow> rpc_Reply" where
  "makeReply request = empty_Reply\<lparr>rep_id := Some (get_number (req_id request)),
     rep_request := Some (get_bytes (req_request request)), rep_reply := Some (get_bytes (req_reply request))\<rparr>"

record ('q, 'p, 's) rpc_callback =
  cb_request_name :: bytes
  cb_reply_name :: bytes
  cb_request_serializer :: "'q proto_serializer"
  cb_reply_serializer :: "'p proto_serializer"
  cb_call :: "'q \<Rightarrow> 's \<Rightarrow> 'p \<times> 's"

definition callback_requested :: "('q, 'p, 's) rpc_callback \<Rightarrow> rpc_Request \<Rightarrow> 's \<Rightarrow> rpc_Reply \<times> 's" where
  "callback_requested cb rpc_request s =
     (let rpc_reply = makeReply rpc_request in
      if get_bytes (req_request rpc_request) = cb_request_name cb \<and>
         get_bytes (req_reply rpc_request) = cb_reply_name cb
      then (case deserialize (cb_request_serializer cb) (construct (cb_request_serializer cb))
                  (get_bytes (req_body rpc_request)) of
          (True, request) \<Rightarrow>
            let (reply, s) = cb_call cb request s;
                body = serialize (cb_reply_serializer cb) reply
            in if length body \<noteq> 0
               then (rpc_reply\<lparr>rep_body := Some body, rep_errcode := Some NOERROR\<rparr>, s)
               else (rpc_reply\<lparr>rep_errcode := Some REPLY_PACK_ERROR\<rparr>, s)
        | (False, _) \<Rightarrow> (rpc_reply\<lparr>rep_errcode := Some REQUEST_PARSE_ERROR\<rparr>, s))
      else (rpc_reply\<lparr>rep_errcode := Some REQUEST_NOT_MATCHED\<rparr>, s))"

type_synonym ('q, 'p, 's) rpc_dispatcher = "bytes \<Rightarrow> ('q, 'p, 's) rpc_callback option"

definition dispatcher_on :: "('q, 'p, 's) rpc_callback \<Rightarrow> ('q, 'p, 's) rpc_dispatcher \<Rightarrow> ('q, 'p, 's) rpc_dispatcher" where
  "dispatcher_on cb callbacks =
     (if callbacks (cb_request_name cb) = None then callbacks(cb_request_name cb \<mapsto> cb) else callbacks)"

definition dispatcher_requested :: "('q, 'p, 's) rpc_dispatcher \<Rightarrow> rpc_Request \<Rightarrow> 's \<Rightarrow> rpc_Reply \<times> 's" where
  "dispatcher_requested callbacks request s =
     (case callbacks (get_bytes (req_request request)) of
        None \<Rightarrow> ((makeReply request)\<lparr>rep_errcode := Some REQUEST_INVALID\<rparr>, s)
      | Some cb \<Rightarrow> callback_requested cb request s)"


subsection \<open>What an emitter keeps\<close>

text \<open>Every call waits under its own number, and those with a timeout are waiting calls.\<close>

definition emitter_ok :: "('q, 'p, 's) emitter \<Rightarrow> bool" where
  "emitter_ok em \<longleftrightarrow> distinct (rpc_timeout_holders em) \<and> set (rpc_timeout_holders em) \<subseteq> dom (rpc_holders em)"

lemma through_dom: "through i f em = Some em' \<Longrightarrow>
    dom (rpc_holders em') = dom (rpc_holders em) \<and> rpc_timeout_holders em' = rpc_timeout_holders em \<and>
    total_id em' = total_id em \<and> i \<in> dom (rpc_holders em)"
  by (auto simp: through_def split: option.splits if_splits)

lemma erase_call_simps [simp]:
  "dom (rpc_holders (erase_call i em)) = dom (rpc_holders em) - {i}"
  "rpc_timeout_holders (erase_call i em) = filter (\<lambda>j. j \<noteq> i) (rpc_timeout_holders em)"
  "total_id (erase_call i em) = total_id em"
  "rpc_holders (erase_call i em) = (rpc_holders em)(i := None)"
  by (simp_all add: erase_call_def)

lemma emitter_ok_erase: "emitter_ok em \<Longrightarrow> emitter_ok (erase_call i em)"
  by (auto simp: emitter_ok_def)

text \<open>Which of the calls in a list are late.\<close>

definition late :: "int \<Rightarrow> ('q, 'p, 's) emitter \<Rightarrow> u64 \<Rightarrow> bool" where
  "late now em i \<longleftrightarrow> (case rpc_holders em i of Some h \<Rightarrow> isTimeout now h | None \<Rightarrow> False)"

lemma late_erase: "j \<noteq> i \<Longrightarrow> late now (erase_call i em) j = late now em j"
  by (simp add: late_def)

lemma check_loop_late:
  assumes "distinct is"
  shows "check_loop now is n (em, s) =
    (n + length (filter (late now em) is), foldl (\<lambda>em i. erase_call i em) em (filter (late now em) is),
     foldl (\<lambda>s i. holder_timeouted (the (rpc_holders em i)) s) s (filter (late now em) is))"
  using assms
proof (induction "is" arbitrary: n em s)
  case (Cons i "is")
  have f: "filter (late now (erase_call i em)) is = filter (late now em) is"
    using Cons.prems by (intro filter_cong refl late_erase) auto
  have g: "foldl (\<lambda>s j. holder_timeouted (the (rpc_holders (erase_call i em) j)) s) s' (filter (late now em) is) =
      foldl (\<lambda>s j. holder_timeouted (the (rpc_holders em j)) s) s' (filter (late now em) is)" for s'
    using Cons.prems by (intro foldl_cong) auto
  show ?case
    using Cons.IH[of n em s] Cons.IH[of "n + 1" "erase_call i em"] Cons.prems
    by (cases "rpc_holders em i") (simp_all add: f g[simplified] late_def[of now em i])
qed simp

lemma erase_calls:
  "rpc_holders (foldl (\<lambda>em i. erase_call i em) em is) = rpc_holders em |` (- set is)"
  "rpc_timeout_holders (foldl (\<lambda>em i. erase_call i em) em is) = filter (\<lambda>i. i \<notin> set is) (rpc_timeout_holders em)"
  "total_id (foldl (\<lambda>em i. erase_call i em) em is) = total_id em"
  by (induction "is" arbitrary: em) (auto simp: restrict_map_def fun_eq_iff intro!: filter_cong)

text \<open>A call and a callback for the examples: a byte is sent, so many letters come back.\<close>

definition ping :: "(u8, bytes, nat) holder" where
  "ping = (RPCHolder 0 41 0 [1] [2] (Impl_Integer_unsigned wire_pb 0) (Impl_String wire_pb) 3)
     \<lparr>timeout_ms := 200, cb_done := Some (\<lambda>y n. n + length y), cb_error := Some (\<lambda>_ e n. if e = REQUEST_INVALID then n + 100 else n)\<rparr>"

definition pong :: "(u8, bytes, nat) rpc_callback" where
  "pong = \<lparr>cb_request_name = [1], cb_reply_name = [2], cb_request_serializer = Impl_Integer_unsigned wire_pb 0,
     cb_reply_serializer = Impl_String wire_pb, cb_call = (\<lambda>q n. (replicate (unat q) 65, n + 1))\<rparr>"

lemma replicate_3: "replicate 3 x = [x, x, x]"
  by (simp add: numeral_3_eq_3)

lemma ping_bytes:
  "serialize (Impl_Integer_unsigned wire_pb (0 :: u8)) 3 = [8, 3]"
  "serialize (Impl_String wire_pb) [65, 65, 65] = [10, 3, 65, 65, 65]"
  by (simp_all add: Impl_Integer_unsigned_def Impl_String_def wire_pb_def opt_field_def varint.simps)

subsection \<open>Properties\<close>

text \<open>
  The life of a call without errors: what \<open>pack\<close> makes of a request, handed to a server
  that has a callback of this name with the same reply, gives a reply whose number is that of
  the call; handed to the holder it runs \<open>done\<close>, once, with the value the callback
  returned. The callback has seen the request as it was.
\<close>

lemma rpc_call:
  assumes h: "serializer (request_serializer h) okq (=)" "serializer (reply_serializer h) okp same"
    and cb: "callbacks (request_name h) = Some cb" "cb_request_name cb = request_name h" "cb_reply_name cb = reply_name h"
      "cb_request_serializer cb = request_serializer h" "cb_reply_serializer cb = reply_serializer h"
    and call: "cb_call cb (call_request h) s = (reply, s')"
    and q: "okq (call_request h)" "serialize (request_serializer h) (call_request h) \<noteq> []"
      "length (serialize (request_serializer h) (call_request h)) < proto_limit"
    and p: "okp reply" "serialize (reply_serializer h) reply \<noteq> []"
      "length (serialize (reply_serializer h) reply) < proto_limit"
  shows "\<exists>req rep y. pack h empty_Request = (True, req) \<and> dispatcher_requested callbacks req s = (rep, s') \<and>
    get_number (rep_id rep) = call_id h \<and> same reply y \<and>
    (\<forall>c. holder_replied h rep c = (case cb_done h of Some f \<Rightarrow> f y c | None \<Rightarrow> c))"
proof -
  obtain y where y: "deserialize (reply_serializer h) (construct (reply_serializer h))
      (serialize (reply_serializer h) reply) = (True, y)" "same reply y"
    using serializer.round_trip[OF h(2) p(1,3)] by auto
  have x: "deserialize (request_serializer h) (construct (request_serializer h))
      (serialize (request_serializer h) (call_request h)) = (True, call_request h)"
    using serializer.round_trip[OF h(1) q(1,3)] by simp
  show ?thesis using q(2) p(2) x y call
    by (auto simp: pack_def Let_def dispatcher_requested_def callback_requested_def cb makeReply_def empty_Reply_def
        get_number_def get_bytes_def holder_replied_def errcode_def)
qed

lemma rpc_call_example:
  "\<exists>req rep. pack ping empty_Request = (True, req) \<and>
     dispatcher_requested (dispatcher_on pong Map.empty) req 7 = (rep, 8) \<and> holder_replied ping rep 0 = 3"
proof -
  have q: "serializer (request_serializer ping) (\<lambda>_. True) (=)" and p: "serializer (reply_serializer ping) (\<lambda>_. True) (=)"
    by (simp_all add: ping_def RPCHolder_def Integer_unsigned_serializer String_serializer wire_pb_ok)
  have "\<exists>req rep y. pack ping empty_Request = (True, req) \<and> dispatcher_requested (dispatcher_on pong Map.empty) req 7 = (rep, 8) \<and>
    get_number (rep_id rep) = call_id ping \<and> [65, 65, 65] = y \<and>
    (\<forall>c. holder_replied ping rep c = (case cb_done ping of Some f \<Rightarrow> f y c | None \<Rightarrow> c))"
    by (rule rpc_call[OF q p, where cb = pong and reply = "[65, 65, 65]"])
      (simp_all add: ping_def replicate_3 pong_def RPCHolder_def dispatcher_on_def ping_bytes proto_limit_def)
  then show ?thesis by (auto simp: ping_def)
qed

text \<open>
  C35. Which error a call ends with: one for a request that the server does not know, for one
  it knows with another reply, for one it cannot parse and for a reply that serializes to
  nothing (an empty container); each comes back to the holder of the call, and its own state
  is changed by the error callback only.
\<close>

theorem rpc_errors:
  assumes "pack h empty_Request = (True, req)" and e: "dispatcher_requested callbacks req s = (rep, s')" "errcode rep \<noteq> NOERROR"
  shows "get_number (rep_id rep) = call_id h \<and> holder_replied h rep c = call_error h (errcode rep) c \<and>
    errcode rep = (case callbacks (request_name h) of
        None \<Rightarrow> REQUEST_INVALID
      | Some cb \<Rightarrow>
          if request_name h \<noteq> cb_request_name cb \<or> reply_name h \<noteq> cb_reply_name cb then REQUEST_NOT_MATCHED
          else if \<not> fst (deserialize (cb_request_serializer cb) (construct (cb_request_serializer cb))
            (serialize (request_serializer h) (call_request h))) then REQUEST_PARSE_ERROR
          else REPLY_PACK_ERROR)"
proof -
  have r: "req = empty_Request\<lparr>req_id := Some (call_id h), req_request := Some (request_name h),
      req_reply := Some (reply_name h), req_body := Some (serialize (request_serializer h) (call_request h))\<rparr>"
    using assms(1) by (simp add: pack_def Let_def split: if_splits)
  have f: "get_bytes (req_request req) = request_name h" "get_bytes (req_reply req) = reply_name h"
    "get_bytes (req_body req) = serialize (request_serializer h) (call_request h)"
    by (simp_all add: r get_bytes_def)
  have d: "dispatcher_requested callbacks req s = (case callbacks (request_name h) of
      None \<Rightarrow> ((makeReply req)\<lparr>rep_errcode := Some REQUEST_INVALID\<rparr>, s) | Some cb \<Rightarrow> callback_requested cb req s)"
    by (simp add: dispatcher_requested_def f)
  have m: "get_number (rep_id (makeReply req)) = call_id h"
    by (simp add: makeReply_def r get_number_def)
  have "get_number (rep_id rep) = call_id h"
    using e(1) m by (auto simp: d callback_requested_def Let_def split: option.splits if_splits prod.splits bool.splits)
  moreover have "holder_replied h rep c = call_error h (errcode rep) c"
    using e(2) by (simp add: holder_replied_def)
  moreover have "errcode rep = (case callbacks (request_name h) of
        None \<Rightarrow> REQUEST_INVALID
      | Some cb \<Rightarrow>
          if request_name h \<noteq> cb_request_name cb \<or> reply_name h \<noteq> cb_reply_name cb then REQUEST_NOT_MATCHED
          else if \<not> fst (deserialize (cb_request_serializer cb) (construct (cb_request_serializer cb))
            (serialize (request_serializer h) (call_request h))) then REQUEST_PARSE_ERROR
          else REPLY_PACK_ERROR)"
  proof (cases "callbacks (request_name h)")
    case None
    then show ?thesis using e(1) by (auto simp: d errcode_def)
  next
    case (Some cb)
    show ?thesis using e
      by (auto simp: Some d callback_requested_def f Let_def errcode_def split: if_splits prod.splits bool.splits)
  qed
  ultimately show ?thesis by blast
qed

theorem rpc_errors_witness:
  "\<exists>req rep. pack ping empty_Request = (True, req) \<and>
     dispatcher_requested (Map.empty :: (u8, bytes, nat) rpc_dispatcher) req 7 = (rep, 7) \<and> holder_replied ping rep 0 = 100"
proof -
  obtain req where r: "pack ping empty_Request = (True, req)"
    by (simp add: pack_def ping_def RPCHolder_def ping_bytes)
  obtain rep where d: "dispatcher_requested (Map.empty :: (u8, bytes, nat) rpc_dispatcher) req 7 = (rep, 7)" "errcode rep = REQUEST_INVALID"
    by (simp add: dispatcher_requested_def errcode_def)
  have "holder_replied ping rep 0 = call_error ping (errcode rep) 0"
    using rpc_errors[OF r d(1), of 0] d(2) by simp
  then show ?thesis using r d by (auto simp: call_error_def ping_def)
qed

text \<open>
  A check of the timeouts runs the timeout callbacks of exactly the calls that are late,
  counts them and forgets them; all others keep waiting.
\<close>

theorem late_calls_time_out:
  assumes "emitter_ok em" "checkTimeout now (em, s) = (n, em', s')"
  defines "out \<equiv> filter (late now em) (rpc_timeout_holders em)"
  shows "n = length out \<and> s' = foldl (\<lambda>s i. holder_timeouted (the (rpc_holders em i)) s) s out \<and>
    rpc_holders em' = rpc_holders em |` (- set out) \<and> emitter_ok em' \<and>
    (\<forall>i\<in>set (rpc_timeout_holders em'). \<not> isTimeout now (the (rpc_holders em' i)))"
proof -
  have d: "distinct (rpc_timeout_holders em)" "set (rpc_timeout_holders em) \<subseteq> dom (rpc_holders em)"
    using assms(1) by (simp_all add: emitter_ok_def)
  have e: "n = length out" "em' = foldl (\<lambda>em i. erase_call i em) em out"
    "s' = foldl (\<lambda>s i. holder_timeouted (the (rpc_holders em i)) s) s out"
    using assms(2) by (simp_all add: checkTimeout_def check_loop_late[OF d(1)] out_def)
  have "\<not> isTimeout now (the (rpc_holders em' i))" if "i \<in> set (rpc_timeout_holders em')" for i
  proof -
    have "i \<in> dom (rpc_holders em)" "\<not> late now em i" "i \<notin> set out" using that d(2) by (auto simp: e(2) erase_calls out_def)
    then show ?thesis by (auto simp: e(2) erase_calls late_def)
  qed
  moreover have "emitter_ok em'" using d by (auto simp: e(2) emitter_ok_def erase_calls)
  ultimately show ?thesis by (simp add: e erase_calls)
qed

theorem late_calls_time_out_witness:
  "\<exists>em. checkTimeout 201000000 (\<lparr>total_id = 42, rpc_holders = [42 \<mapsto> ping], rpc_timeout_holders = [42]\<rparr>, 5) = (1, em, 5) \<and>
     rpc_holders em = Map.empty"
proof -
  let ?em = "\<lparr>total_id = 42, rpc_holders = [42 \<mapsto> ping], rpc_timeout_holders = [42]\<rparr>"
  have ok: "emitter_ok ?em" by (simp add: emitter_ok_def)
  have l: "filter (late 201000000 ?em) (rpc_timeout_holders ?em) = [42]"
    by (simp add: late_def isTimeout_def elapsed_ms_def ping_def RPCHolder_def signed_divide_int_def)
  obtain n em s where c: "checkTimeout 201000000 (?em, 5) = (n, em, s)" by (metis prod_cases3)
  show ?thesis using late_calls_time_out[OF ok c] unfolding c l
    by (auto simp: holder_timeouted_def ping_def RPCHolder_def restrict_map_def fun_eq_iff)
qed


text \<open>
  A client that logs in its state the number of every call that ends, from all three of its
  callbacks. An event is a call with its request and timeout, a reply that arrives, or a
  check of the timeouts.
\<close>

datatype 'q rpc_event = Call int 'q int | Answer rpc_Reply | Check int

definition logged_call :: "bytes \<Rightarrow> bytes \<Rightarrow> 'q proto_serializer \<Rightarrow> 'p proto_serializer \<Rightarrow> (u64 \<Rightarrow> u64 list \<Rightarrow> nat) \<Rightarrow> int
    \<Rightarrow> int \<Rightarrow> 'q \<Rightarrow> int \<Rightarrow> ('q, 'p, u64 list) emitter \<Rightarrow> ('q, 'p, u64 list) emitter option" where
  "logged_call qn pn QS PS place junk now q ms em =
     (let (h, em) = emitter_emit junk now qn pn QS PS q em; i = call_id h in
      Option.bind (on_done i (\<lambda>_ l. l @ [i]) em) (\<lambda>em.
      Option.bind (on_timeout place i (\<lambda>_ l. l @ [i]) ms em) (\<lambda>em.
      on_error i (\<lambda>_ _ l. l @ [i]) em)))"

fun rpc_run :: "bytes \<Rightarrow> bytes \<Rightarrow> 'q proto_serializer \<Rightarrow> 'p proto_serializer \<Rightarrow> (u64 \<Rightarrow> u64 list \<Rightarrow> nat) \<Rightarrow> int
    \<Rightarrow> 'q rpc_event list \<Rightarrow> ('q, 'p, u64 list) emitter \<times> u64 list \<Rightarrow> (('q, 'p, u64 list) emitter \<times> u64 list) option" where
  "rpc_run qn pn QS PS place junk [] st = Some st"
| "rpc_run qn pn QS PS place junk (Call now q ms # evs) (em, l) =
     (case logged_call qn pn QS PS place junk now q ms em of
        Some em \<Rightarrow> rpc_run qn pn QS PS place junk evs (em, l) | None \<Rightarrow> None)"
| "rpc_run qn pn QS PS place junk (Answer r # evs) st =
     rpc_run qn pn QS PS place junk evs (emitter_replied r st)"
| "rpc_run qn pn QS PS place junk (Check now # evs) st =
     rpc_run qn pn QS PS place junk evs (snd (checkTimeout now st))"

fun calls :: "'q rpc_event list \<Rightarrow> nat" where
  "calls [] = 0" | "calls (Call _ _ _ # evs) = Suc (calls evs)" | "calls (_ # evs) = calls evs"

definition logs :: "u64 \<Rightarrow> ('q, 'p, u64 list) holder \<Rightarrow> bool" where
  "logs i h \<longleftrightarrow> call_id h = i \<and> (\<forall>r l. holder_replied h r l = l @ [i]) \<and> (\<forall>l. holder_timeouted h l = l @ [i])"

lemma logged_call_Some:
  "\<exists>h. logs (total_id em + 1) h \<and> logged_call qn pn QS PS place junk now q ms em =
     Some (em\<lparr>total_id := total_id em + 1, rpc_holders := (rpc_holders em)(total_id em + 1 \<mapsto> h),
       rpc_timeout_holders := (if ms \<noteq> - 1 then hash_insert place (\<lambda>x. x) (total_id em + 1) (rpc_timeout_holders em)
         else rpc_timeout_holders em)\<rparr>)"
proof -
  define i where "i = total_id em + 1"
  define h where "h = \<lparr>call_id = i, createtime = now, timeout_ms = ms, has_emitter = True, request_name = qn,
      reply_name = pn, request_serializer = QS, reply_serializer = PS, call_request = q,
      cb_done = Some (\<lambda>_ l. l @ [i]), cb_timeout = Some (\<lambda>_ l. l @ [i]), cb_error = Some (\<lambda>_ _ l. l @ [i])\<rparr>"
  have "logs i h"
    by (auto simp: logs_def h_def holder_replied_def holder_timeouted_def call_error_def split: prod.splits bool.splits)
  then show ?thesis
    by (intro exI[of _ h]) (simp add: logged_call_def emitter_emit_def RPCHolder_def Let_def on_done_def on_timeout_def
        on_error_def setTimeout_def through_def h_def i_def)
qed

text \<open>
  What holds after \<open>n\<close> calls: their numbers are those of the waiting calls and of the logged
  ones, and no number is twice.
\<close>

definition ids_from :: "u64 \<Rightarrow> nat \<Rightarrow> u64 set" where
  "ids_from n0 n = (\<lambda>k. n0 + of_nat k) ` {1..n}"

definition run_ok :: "u64 \<Rightarrow> nat \<Rightarrow> ('q, 'p, u64 list) emitter \<times> u64 list \<Rightarrow> bool" where
  "run_ok n0 n = (\<lambda>(em, l). total_id em = n0 + of_nat n \<and> emitter_ok em \<and> distinct l \<and>
     set l \<inter> dom (rpc_holders em) = {} \<and> set l \<union> dom (rpc_holders em) = ids_from n0 n \<and>
     (\<forall>i h. rpc_holders em i = Some h \<longrightarrow> logs i h))"

lemma ids_from_Suc: "ids_from n0 (Suc n) = insert (n0 + of_nat (Suc n)) (ids_from n0 n)"
  by (simp add: ids_from_def atLeastAtMostSuc_conv del: of_nat_Suc)

lemma fresh_id: "Suc n \<le> 2 ^ 64 \<Longrightarrow> n0 + of_nat (Suc n) \<notin> ids_from n0 n"
proof
  assume n: "Suc n \<le> 2 ^ 64" and "n0 + of_nat (Suc n) \<in> ids_from n0 n"
  then obtain k where k: "1 \<le> k" "k \<le> n" "(of_nat (Suc n) :: u64) = of_nat k" by (auto simp: ids_from_def)
  then have "Suc n mod 2 ^ 64 = k mod 2 ^ 64"
    using unat_of_nat[of "Suc n", where 'a = 64] unat_of_nat[of k, where 'a = 64] by (simp del: of_nat_Suc)
  then show False using k n by (cases "Suc n = 2 ^ 64") auto
qed

lemma hash_insert_new:
  assumes "x \<notin> set xs"
  shows "distinct (hash_insert place (\<lambda>x. x) x xs) = distinct xs" "set (hash_insert place (\<lambda>x. x) x xs) = insert x (set xs)"
proof -
  have m: "mset (hash_insert place (\<lambda>x. x) x xs) = mset (x # xs)" using assms by (simp add: hash_insert_def)
  show "distinct (hash_insert place (\<lambda>x. x) x xs) = distinct xs" "set (hash_insert place (\<lambda>x. x) x xs) = insert x (set xs)"
    using mset_eq_imp_distinct_iff[OF m] mset_eq_setD[OF m] assms by simp_all
qed

lemma run_ok_call:
  assumes "run_ok n0 n (em, l)" "Suc n \<le> 2 ^ 64"
    and "logged_call qn pn QS PS place junk now q ms em = Some em'"
  shows "run_ok n0 (Suc n) (em', l)"
proof -
  define i where "i = total_id em + 1"
  have i: "i = n0 + of_nat (Suc n)" using assms(1) by (simp add: run_ok_def i_def add.commute add.left_commute)
  obtain h where h: "logs i h" "em' = em\<lparr>total_id := i, rpc_holders := (rpc_holders em)(i \<mapsto> h),
       rpc_timeout_holders := (if ms \<noteq> - 1 then hash_insert place (\<lambda>x. x) i (rpc_timeout_holders em)
         else rpc_timeout_holders em)\<rparr>"
    using logged_call_Some[of em qn pn QS PS place junk now q ms] assms(3) by (auto simp: i_def)
  have new: "i \<notin> ids_from n0 n" using fresh_id[OF assms(2), of n0] by (simp add: i)
  have "i \<notin> set (rpc_timeout_holders em)" using assms(1) new by (auto simp: run_ok_def emitter_ok_def)
  then have "emitter_ok em'"
    using assms(1) unfolding run_ok_def emitter_ok_def h(2) by (auto simp: hash_insert_new)
  then show ?thesis
    using assms(1) new h(1) unfolding run_ok_def h(2) by (auto simp: i ids_from_Suc simp del: of_nat_Suc)
qed

text \<open>A reply and a check move numbers from the waiting calls to the log.\<close>

lemma run_ok_ends:
  assumes ok: "run_ok n0 n (em, l)" and out: "distinct out" "set out \<subseteq> dom (rpc_holders em)"
  shows "run_ok n0 n (foldl (\<lambda>em i. erase_call i em) em out, l @ out)"
proof -
  have "dom (rpc_holders em |` (- set out)) = dom (rpc_holders em) - set out" by (auto simp: restrict_map_def split: if_splits)
  then show ?thesis using assms unfolding run_ok_def emitter_ok_def
    by (auto simp: erase_calls restrict_map_def split: if_splits)
qed

lemma run_ok_answer:
  assumes "run_ok n0 n (em, l)"
  shows "run_ok n0 n (emitter_replied r (em, l))"
proof (cases "rpc_holders em (get_number (rep_id r))")
  case (Some h)
  then have "emitter_replied r (em, l) = (erase_call (get_number (rep_id r)) em, l @ [get_number (rep_id r)])"
    using assms by (auto simp: emitter_replied_def run_ok_def logs_def)
  then show ?thesis using run_ok_ends[OF assms, of "[get_number (rep_id r)]"] Some by auto
qed (use assms in \<open>simp add: emitter_replied_def\<close>)

lemma run_ok_check:
  assumes "run_ok n0 n (em, l)"
  shows "run_ok n0 n (snd (checkTimeout now (em, l)))"
proof -
  have ok: "distinct (rpc_timeout_holders em)" "set (rpc_timeout_holders em) \<subseteq> dom (rpc_holders em)"
    "\<And>i h. rpc_holders em i = Some h \<Longrightarrow> logs i h"
    using assms by (auto simp: run_ok_def emitter_ok_def)
  define out where "out = filter (late now em) (rpc_timeout_holders em)"
  have sub: "set out \<subseteq> dom (rpc_holders em)" using ok(2) by (auto simp: out_def)
  have one: "holder_timeouted (the (rpc_holders em i)) l = l @ [i]" if i: "i \<in> dom (rpc_holders em)" for i l
  proof -
    obtain h where "rpc_holders em i = Some h" using i by auto
    with ok(3)[OF this] show ?thesis by (simp add: logs_def)
  qed
  have "foldl (\<lambda>s i. holder_timeouted (the (rpc_holders em i)) s) l is = l @ is" if "set is \<subseteq> dom (rpc_holders em)" for "is" l
    using that by (induction "is" arbitrary: l) (simp_all add: one del: domIff)
  then have "snd (checkTimeout now (em, l)) = (foldl (\<lambda>em i. erase_call i em) em out, l @ out)"
    using sub by (simp add: checkTimeout_def check_loop_late[OF ok(1)] out_def)
  then show ?thesis using run_ok_ends[OF assms _ sub] ok(1) by (simp add: out_def)
qed

lemma rpc_run_ok:
  assumes "run_ok n0 n st" "n + calls evs \<le> 2 ^ 64"
  shows "\<exists>st'. rpc_run qn pn QS PS place junk evs st = Some st' \<and> run_ok n0 (n + calls evs) st'"
  using assms
proof (induction evs arbitrary: n st)
  case (Cons ev evs)
  obtain em l where st: "st = (em, l)" by (cases st)
  show ?case
  proof (cases ev)
    case (Call now q ms)
    obtain em' where em': "logged_call qn pn QS PS place junk now q ms em = Some em'"
      using logged_call_Some[of em qn pn QS PS place junk now q ms] by auto
    have "run_ok n0 (Suc n) (em', l)"
      by (rule run_ok_call[OF _ _ em']) (use Cons.prems in \<open>simp_all add: st Call\<close>)
    with em' show ?thesis using Cons.IH[of "Suc n" "(em', l)"] Cons.prems(2) by (simp add: Call st)
  next
    case (Answer r)
    have "run_ok n0 n (em, l)" using Cons.prems by (simp add: st)
    from Cons.IH[OF run_ok_answer[OF this], of r] Cons.prems show ?thesis by (simp add: st Answer)
  next
    case (Check now)
    have "run_ok n0 n (em, l)" using Cons.prems by (simp add: st)
    from Cons.IH[OF run_ok_check[OF this], of now] Cons.prems show ?thesis by (simp add: st Check)
  qed
qed simp

text \<open>
  C5. Every call ends at most once: in any run of calls, replies (late ones, repeated ones and
  forged ones among them) and checks of the timeouts, with fewer than \<open>2^64\<close> calls, no callbacks
  run for a number twice, those that have ended are not waiting any more, and every call
  made has ended or is still waiting.
\<close>

theorem calls_end_once:
  assumes "calls evs \<le> 2 ^ 64"
  shows "\<exists>em l. rpc_run qn pn QS PS place junk evs (RPCEmitter n0, []) = Some (em, l) \<and> distinct l \<and>
    set l \<inter> dom (rpc_holders em) = {} \<and> set l \<union> dom (rpc_holders em) = (\<lambda>k. n0 + of_nat k) ` {1..calls evs}"
proof -
  have "run_ok n0 0 (RPCEmitter n0, [])" by (simp add: run_ok_def RPCEmitter_def emitter_ok_def ids_from_def)
  from rpc_run_ok[OF this, of evs qn pn QS PS place junk] assms
  obtain em l where "rpc_run qn pn QS PS place junk evs (RPCEmitter n0, []) = Some (em, l)" "run_ok n0 (calls evs) (em, l)"
    by auto
  then show ?thesis by (intro exI[of _ em] exI[of _ l]) (simp add: run_ok_def ids_from_def)
qed

theorem calls_end_once_witness:
  "\<exists>em l. rpc_run [1] [2] (Impl_Integer_unsigned wire_pb (0 :: u8)) (Impl_String wire_pb) (\<lambda>_ _. 0) 0
      [Call 0 1 200, Call 0 2 500, Check 300000000, Answer (empty_Reply\<lparr>rep_id := Some 1\<rparr>), Call 0 3 (- 1)] (RPCEmitter 0, []) = Some (em, l) \<and>
    distinct l \<and> set l \<union> dom (rpc_holders em) = {1, 2, 3}"
proof -
  let ?evs = "[Call 0 1 200, Call 0 2 500, Check 300000000, Answer (empty_Reply\<lparr>rep_id := Some 1\<rparr>), Call 0 (3 :: u8) (- 1)]"
  have "{1..calls ?evs} = {1, 2, 3}" by (simp add: atLeastAtMostSuc_conv) auto
  then have "(\<lambda>k. 0 + of_nat k :: u64) ` {1..calls ?evs} = {1, 2, 3}" by simp
  moreover have "calls ?evs \<le> 2 ^ 64" by simp
  ultimately show ?thesis
    using calls_end_once[of ?evs "[1]" "[2]" "Impl_Integer_unsigned wire_pb (0 :: u8)" "Impl_String wire_pb" "\<lambda>_ _. 0" 0 0]
    by fastforce
qed

end
