(* ===== verification/Zmq.thy ===== *)
theory Zmq
  imports Message Rpc
begin

text \<open>
  \<open>common/zmq_client.h\<close> and \<open>common/zmq_server.h\<close>, and the RPC client and servers of
  \<open>common/tinyrpc_client.h\<close> and \<open>common/tinyrpc_server.h\<close> that are built on them.

  A ZeroMQ message is a list of frames. The sockets are what ZeroMQ documents: \<open>send\<close> with
  \<open>ZMQ_SNDMORE\<close> collects frames until the last one, then the message leaves as a whole;
  \<open>recv\<close> gives the next frame, whichever message it belongs to, and blocks when there is
  none; a \<open>ROUTER\<close> puts the identity of the peer in front of what comes in and takes it off
  what goes out; a \<open>REP\<close> socket must send one answer between two requests. What has arrived is
  a list of frames, what has been sent a list of messages. A poll that finds nothing leaves
  everything as it is.
\<close>

type_synonym frames = "bytes list"

text \<open>Why a call does not return: it blocks, the behaviour is undefined, or \<open>send\<close> throws.\<close>

datatype stop = Blocks | Undefined | EFSM

definition recv :: "frames \<Rightarrow> stop + bytes \<times> frames" where
  "recv inbox = (case inbox of [] \<Rightarrow> Inl Blocks | f # fs \<Rightarrow> Inr (f, fs))"

definition recvs :: "nat \<Rightarrow> frames \<Rightarrow> stop + frames \<times> frames" where
  "recvs n inbox = (if n \<le> length inbox then Inr (take n inbox, drop n inbox) else Inl Blocks)"

subsection \<open>The client\<close>

text \<open>\<open>send\<close> ignores whether the message could be written to the buffer.\<close>

definition client_send :: "('m \<Rightarrow> bytes) \<Rightarrow> bytes \<Rightarrow> 'm \<Rightarrow> frames list \<Rightarrow> frames list" where
  "client_send ser name msg outbox =
     (let buffer = snd (packMsgByName ser [] name msg) in outbox @ [[[], buffer]])"

text \<open>The exceptions of the dispatcher are caught and logged, and a reply is not used.\<close>

definition client_on_recv :: "'s processor \<Rightarrow> bytes \<Rightarrow> 's \<Rightarrow> stop + 's" where
  "client_on_recv disp request s =
     (case disp request s of
        (Inl Out_of_bounds, _) \<Rightarrow> Inl Undefined
      | (_, s) \<Rightarrow> Inr s)"

definition client_poll :: "'s processor \<Rightarrow> frames \<times> 's \<Rightarrow> stop + frames \<times> 's" where
  "client_poll disp = (\<lambda>(inbox, s).
     if inbox = [] then Inr (inbox, s)
     else (case recvs 2 inbox of
         Inl e \<Rightarrow> Inl e
       | Inr (fs, inbox) \<Rightarrow> (case client_on_recv disp (fs ! 1) s of
           Inl e \<Rightarrow> Inl e | Inr s \<Rightarrow> Inr (inbox, s))))"

subsection \<open>The asynchronous server\<close>

text \<open>The handlers get the identity of the client; they act on it, the outbox and their state.\<close>

definition server_send :: "('m \<Rightarrow> bytes) \<Rightarrow> bytes \<Rightarrow> bytes \<Rightarrow> 'm \<Rightarrow> frames list \<Rightarrow> frames list" where
  "server_send ser name client msg outbox =
     (let buffer = snd (packMsgByName ser [] name msg) in outbox @ [[client, [], buffer]])"

definition server_on_recv :: "(bytes \<times> frames list \<times> 's) processor \<Rightarrow> bytes \<Rightarrow> bytes \<Rightarrow> frames list \<times> 's
    \<Rightarrow> stop + frames list \<times> 's" where
  "server_on_recv disp client request = (\<lambda>(outbox, s).
     case disp request (client, outbox, s) of
       (Inl Out_of_bounds, _) \<Rightarrow> Inl Undefined
     | (Inl _, _, outbox, s) \<Rightarrow> Inr (outbox, s)
     | (Inr None, _, outbox, s) \<Rightarrow> Inr (outbox, s)
     | (Inr (Some replybin), _, outbox, s) \<Rightarrow> Inr (outbox @ [[client, [], replybin]], s))"

definition server_poll :: "(bytes \<times> frames list \<times> 's) processor \<Rightarrow> frames \<times> frames list \<times> 's
    \<Rightarrow> stop + frames \<times> frames list \<times> 's" where
  "server_poll disp = (\<lambda>(inbox, w).
     if inbox = [] then Inr (inbox, w)
     else (case recvs 3 inbox of
         Inl e \<Rightarrow> Inl e
       | Inr (fs, inbox) \<Rightarrow> (case server_on_recv disp (fs ! 0) (fs ! 2) w of
           Inl e \<Rightarrow> Inl e | Inr w \<Rightarrow> Inr (inbox, w))))"

subsection \<open>The broker\<close>

text \<open>
  The broker looks at \<open>ZMQ_RCVMORE\<close>: what it reads is a list of frames with this flag. One
  poll moves a message from each side that has one.
\<close>

fun move :: "(bytes \<times> bool) list \<Rightarrow> frames \<Rightarrow> stop + (bytes \<times> bool) list \<times> frames" where
  "move [] sent = Inl Blocks"
| "move ((message, rcvmore) # inbox) sent =
     (if rcvmore then move inbox (sent @ [message]) else Inr (inbox, sent @ [message]))"

record broker =
  frontend_in :: "(bytes \<times> bool) list"
  frontend_out :: "frames list"
  backend_in :: "(bytes \<times> bool) list"
  backend_out :: "frames list"

definition broker_poll :: "broker \<Rightarrow> stop + broker" where
  "broker_poll b =
     (case (if frontend_in b = [] then Inr b
            else map_sum id (\<lambda>(inbox, m). b\<lparr>frontend_in := inbox, backend_out := backend_out b @ [m]\<rparr>)
              (move (frontend_in b) [])) of
        Inl e \<Rightarrow> Inl e
      | Inr b \<Rightarrow>
          if backend_in b = [] then Inr b
          else map_sum id (\<lambda>(inbox, m). b\<lparr>backend_in := inbox, frontend_out := frontend_out b @ [m]\<rparr>)
            (move (backend_in b) []))"

subsection \<open>The worker\<close>

text \<open>A \<open>REP\<close> socket: whether an answer is due. Its envelope is handled by ZeroMQ.\<close>

record 's worker =
  answer_due :: bool
  worker_out :: "bytes list"
  worker_state :: 's

definition worker_socket_send :: "bytes \<Rightarrow> 's worker \<Rightarrow> stop + 's worker" where
  "worker_socket_send buf w =
     (if answer_due w then Inr (w\<lparr>answer_due := False, worker_out := worker_out w @ [buf]\<rparr>) else Inl EFSM)"

text \<open>
  \<open>send\<close> from a handler; an exception of the socket reaches \<open>on_recv\<close>, which catches it, so
  that the worker is as before.
\<close>

definition worker_send :: "('m \<Rightarrow> bytes) \<Rightarrow> bytes \<Rightarrow> 'm \<Rightarrow> 's worker \<Rightarrow> 's worker" where
  "worker_send ser name msg w =
     (case worker_socket_send (snd (packMsgByName ser [] name msg)) w of Inl _ \<Rightarrow> w | Inr w \<Rightarrow> w)"

definition worker_on_recv :: "'s worker processor \<Rightarrow> bytes \<Rightarrow> 's worker \<Rightarrow> stop + 's worker" where
  "worker_on_recv disp request w =
     (case disp request w of
        (Inl Out_of_bounds, _) \<Rightarrow> Inl Undefined
      | (Inr (Some replybin), w) \<Rightarrow>
          (case worker_socket_send replybin w of Inr w \<Rightarrow> Inr w | Inl _ \<Rightarrow> worker_socket_send [] w)
      | (_, w) \<Rightarrow> worker_socket_send [] w)"

definition worker_poll :: "'s worker processor \<Rightarrow> frames \<times> 's worker \<Rightarrow> stop + frames \<times> 's worker" where
  "worker_poll disp = (\<lambda>(inbox, w).
     if inbox = [] then Inr (inbox, w)
     else if answer_due w then Inl EFSM
     else (case recv inbox of
         Inl e \<Rightarrow> Inl e
       | Inr (request, inbox) \<Rightarrow> (case worker_on_recv disp request (w\<lparr>answer_due := True\<rparr>) of
           Inl e \<Rightarrow> Inl e | Inr w \<Rightarrow> Inr (inbox, w))))"

subsection \<open>RPC over ZeroMQ\<close>

text \<open>
  The names that protobuf gives the two messages, and the handlers that the constructors of
  \<open>AsyncRPCClient\<close>, \<open>AsyncRPCServer\<close> and \<open>RPCServer\<close> register. \<open>reqs\<close> and \<open>reps\<close> are protobuf's
  functions for \<open>rpc::Request\<close> and \<open>rpc::Reply\<close>.
\<close>

definition Request_name :: bytes where
  "Request_name = map of_char ''rpc.Request''"

definition Reply_name :: bytes where
  "Reply_name = map of_char ''rpc.Reply''"

definition AsyncRPCClient :: "(bytes \<Rightarrow> rpc_Reply option) \<Rightarrow> (('q, 'p, 's) emitter \<times> 's) processor" where
  "AsyncRPCClient rep_parse = dispatch_name (on_message Reply_name (process_no_reply rep_parse emitter_replied) Map.empty)"

text \<open>\<open>AsyncRPCClient::emit\<close> sends whatever \<open>pack\<close> has left in the message.\<close>

definition client_emit :: "(rpc_Request \<Rightarrow> bytes) \<Rightarrow> int \<Rightarrow> int \<Rightarrow> bytes \<Rightarrow> bytes \<Rightarrow> 'q proto_serializer \<Rightarrow> 'p proto_serializer
    \<Rightarrow> 'q \<Rightarrow> ('q, 'p, 's) emitter \<times> frames list \<Rightarrow> ('q, 'p, 's) holder \<times> ('q, 'p, 's) emitter \<times> frames list" where
  "client_emit req_ser junk now qn pn QS PS request = (\<lambda>(em, outbox).
     let (holder, em) = emitter_emit junk now qn pn QS PS request em;
         rpc_req = snd (pack holder empty_Request)
     in (holder, em, client_send req_ser Request_name rpc_req outbox))"

definition async_doMsgRequest :: "(rpc_Reply \<Rightarrow> bytes) \<Rightarrow> ('q, 'p, 's) rpc_dispatcher \<Rightarrow> rpc_Request
    \<Rightarrow> bytes \<times> frames list \<times> 's \<Rightarrow> bytes \<times> frames list \<times> 's" where
  "async_doMsgRequest rep_ser callbacks msg = (\<lambda>(client, outbox, s).
     let (rpc_rep, s) = dispatcher_requested callbacks msg s
     in (client, server_send rep_ser Reply_name client rpc_rep outbox, s))"

definition AsyncRPCServer :: "(bytes \<Rightarrow> rpc_Request option) \<Rightarrow> (rpc_Reply \<Rightarrow> bytes) \<Rightarrow> ('q, 'p, 's) rpc_dispatcher
    \<Rightarrow> (bytes \<times> frames list \<times> 's) processor" where
  "AsyncRPCServer req_parse rep_ser callbacks =
     dispatch_name (on_message Request_name (process_no_reply req_parse (async_doMsgRequest rep_ser callbacks)) Map.empty)"

definition doMsgRequest :: "(rpc_Reply \<Rightarrow> bytes) \<Rightarrow> ('q, 'p, 's) rpc_dispatcher \<Rightarrow> rpc_Request \<Rightarrow> 's worker \<Rightarrow> 's worker" where
  "doMsgRequest rep_ser callbacks msg w =
     (let (rpc_rep, s) = dispatcher_requested callbacks msg (worker_state w)
      in worker_send rep_ser Reply_name rpc_rep (w\<lparr>worker_state := s\<rparr>))"

definition RPCServer :: "(bytes \<Rightarrow> rpc_Request option) \<Rightarrow> (rpc_Reply \<Rightarrow> bytes) \<Rightarrow> ('q, 'p, 's) rpc_dispatcher
    \<Rightarrow> 's worker processor" where
  "RPCServer req_parse rep_ser callbacks =
     dispatch_name (on_message Request_name (process_no_reply req_parse (doMsgRequest rep_ser callbacks)) Map.empty)"


subsection \<open>Messages that arrive as they were sent\<close>

lemma dispatch_sent:
  assumes "name_ok n (ser m)"
  shows "dispatch_name (on_message n h Map.empty) (snd (packMsgByName ser old n m)) w = h (ser m) w"
  unfolding dispatch_name_def packMsgByName_snd[of ser]
  using assms by (intro by_name.dispatch_frame) (simp_all add: on_message_same)

lemma name_ok_codec: "codec ser parse \<Longrightarrow> name_ok n (ser m) \<Longrightarrow> parse (ser m) = Some m"
  by (auto simp: codec_def name_ok_def proto_limit_def)

lemma recvs_exact: "length fs = n \<Longrightarrow> recvs n (fs @ rest) = Inr (fs, rest)"
  by (simp add: recvs_def)

lemma server_gets_request:
  assumes "codec req_ser req_parse" "name_ok Request_name (req_ser req)"
    and "dispatcher_requested callbacks req s = (rep, s')"
  shows "server_poll (AsyncRPCServer req_parse rep_ser callbacks)
      ([client, [], snd (packMsgByName req_ser [] Request_name req)] @ rest, sent, s) =
    Inr (rest, sent @ [[client, [], snd (packMsgByName rep_ser [] Reply_name rep)]], s')"
  using assms(3) by (simp add: server_poll_def recvs_exact[of "[_, _, _]" 3, simplified] server_on_recv_def AsyncRPCServer_def
      dispatch_sent[where ser = req_ser, OF assms(2)] process_no_reply_def name_ok_codec[OF assms(1,2)] async_doMsgRequest_def
      server_send_def)

lemma client_gets_reply:
  assumes "codec rep_ser rep_parse" "name_ok Reply_name (rep_ser rep)"
  shows "client_poll (AsyncRPCClient rep_parse) ([[], snd (packMsgByName rep_ser [] Reply_name rep)] @ rest, em, c) =
    Inr (rest, emitter_replied rep (em, c))"
  by (simp add: client_poll_def recvs_exact[of "[_, _]" 2, simplified] client_on_recv_def AsyncRPCClient_def
      dispatch_sent[where ser = rep_ser, OF assms(2)] process_no_reply_def name_ok_codec[OF assms])

subsection \<open>Protobuf for the two messages\<close>

text \<open>An instance of the parameters, for the examples.\<close>

definition error_code :: "ErrorCode \<Rightarrow> nat" where
  "error_code e = (case e of NOERROR \<Rightarrow> 0 | REQUEST_INVALID \<Rightarrow> 1 | REQUEST_NOT_MATCHED \<Rightarrow> 2 | REQUEST_PARSE_ERROR \<Rightarrow> 3
     | REPLY_PACK_ERROR \<Rightarrow> 10 | REPLY_NOT_MATCHED \<Rightarrow> 11 | REPLY_PARSE_ERROR \<Rightarrow> 12)"

definition code_error :: "nat \<Rightarrow> ErrorCode option" where
  "code_error n = map_of [(0, NOERROR), (1, REQUEST_INVALID), (2, REQUEST_NOT_MATCHED), (3, REQUEST_PARSE_ERROR),
     (10, REPLY_PACK_ERROR), (11, REPLY_NOT_MATCHED), (12, REPLY_PARSE_ERROR)] n"

definition wire_req_ser :: "rpc_Request \<Rightarrow> bytes" where
  "wire_req_ser r = put_fields (opt_field (\<lambda>v. Varint (unat v)) 1 (req_id r) @ opt_field Len 2 (req_request r) @
     opt_field Len 3 (req_reply r) @ opt_field Len 4 (req_body r))"

definition wire_req_parse :: "bytes \<Rightarrow> rpc_Request option" where
  "wire_req_parse b = map_option (\<lambda>fs. \<lparr>req_id = last_field (\<lambda>w. map_option of_nat (as_varint w)) 1 fs,
     req_request = last_field as_len 2 fs, req_reply = last_field as_len 3 fs, req_body = last_field as_len 4 fs\<rparr>) (get_fields b)"

definition wire_rep_ser :: "rpc_Reply \<Rightarrow> bytes" where
  "wire_rep_ser r = put_fields (opt_field (\<lambda>v. Varint (unat v)) 1 (rep_id r) @ opt_field Len 2 (rep_request r) @
     opt_field Len 3 (rep_reply r) @ opt_field Len 4 (rep_body r) @ opt_field (\<lambda>e. Varint (error_code e)) 5 (rep_errcode r))"

definition wire_rep_parse :: "bytes \<Rightarrow> rpc_Reply option" where
  "wire_rep_parse b = map_option (\<lambda>fs. \<lparr>rep_id = last_field (\<lambda>w. map_option of_nat (as_varint w)) 1 fs,
     rep_request = last_field as_len 2 fs, rep_reply = last_field as_len 3 fs, rep_body = last_field as_len 4 fs,
     rep_errcode = last_field (\<lambda>w. case as_varint w of None \<Rightarrow> None | Some n \<Rightarrow> code_error n) 5 fs\<rparr>) (get_fields b)"

lemma code_error_code [simp]: "code_error (error_code e) = Some e"
  by (cases e) (simp_all add: code_error_def error_code_def)

lemma wire_rpc_codecs: "codec wire_req_ser wire_req_parse" "codec wire_rep_ser wire_rep_parse"
proof -
  note simps = wire_req_ser_def wire_req_parse_def wire_rep_ser_def wire_rep_parse_def codec_def last_field_def opt_field_def
  show "codec wire_req_ser wire_req_parse"
    unfolding simps by (auto simp del: put_fields_simps put_fields_def split: option.splits)
  show "codec wire_rep_ser wire_rep_parse"
    unfolding simps by (auto simp del: put_fields_simps put_fields_def split: option.splits)
qed

lemma construct_unsigned: "construct (Impl_Integer_unsigned pb obj) = obj"
  by (simp add: Impl_Integer_unsigned_def)

subsection \<open>Properties\<close>

text \<open>
  C3. A remote call over ZeroMQ: the message that \<open>emit\<close> sends, delivered to the server with
  the identity of the client in front, runs the callback registered for the request on the
  request and sends one message to this client; delivered there, it ends the call with the
  value the callback returned and runs \<open>done\<close> on it. Assumed are the round trips of the
  serializers and of protobuf for the two messages, and that these are not empty and fit
  the 24 bits of the header.
\<close>

theorem rpc_over_zmq:
  assumes S: "serializer (request_serializer h) okq (=)" "serializer (reply_serializer h) okp same"
    and cb: "callbacks (request_name h) = Some cb" "cb_request_name cb = request_name h" "cb_reply_name cb = reply_name h"
      "cb_request_serializer cb = request_serializer h" "cb_reply_serializer cb = reply_serializer h"
    and call: "cb_call cb (call_request h) s = (reply, s')" "rpc_holders em (call_id h) = Some h"
    and q: "okq (call_request h)" "serialize (request_serializer h) (call_request h) \<noteq> []"
      "length (serialize (request_serializer h) (call_request h)) < proto_limit"
    and p: "okp reply" "serialize (reply_serializer h) reply \<noteq> []"
      "length (serialize (reply_serializer h) reply) < proto_limit"
    and pb: "codec req_ser req_parse" "codec rep_ser rep_parse"
    and fits: "name_ok Request_name (req_ser (snd (pack h empty_Request)))"
      "name_ok Reply_name (rep_ser (fst (dispatcher_requested callbacks (snd (pack h empty_Request)) s)))"
  shows "\<exists>request answer y. client_send req_ser Request_name (snd (pack h empty_Request)) outbox = outbox @ [request] \<and>
    server_poll (AsyncRPCServer req_parse rep_ser callbacks) (client # request, sent, s) = Inr ([], sent @ [client # answer], s') \<and>
    client_poll (AsyncRPCClient rep_parse) (answer, em, c) =
      Inr ([], erase_call (call_id h) em, case cb_done h of Some f \<Rightarrow> f y c | None \<Rightarrow> c) \<and> same reply y"
proof -
  obtain req rep y where r: "pack h empty_Request = (True, req)" "dispatcher_requested callbacks req s = (rep, s')"
      "get_number (rep_id rep) = call_id h" "same reply y"
      "\<And>c. holder_replied h rep c = (case cb_done h of Some f \<Rightarrow> f y c | None \<Rightarrow> c)"
    using rpc_call[where h = h and okq = okq and okp = okp and same = same and callbacks = callbacks and cb = cb
        and s = s and s' = s' and reply = reply, OF S cb call(1) q p] by auto
  have ok: "name_ok Request_name (req_ser req)" "name_ok Reply_name (rep_ser rep)" using fits by (simp_all add: r)
  have "emitter_replied rep (em, c) = (erase_call (call_id h) em, case cb_done h of Some f \<Rightarrow> f y c | None \<Rightarrow> c)"
    using call(2) by (simp add: emitter_replied_def r)
  then show ?thesis
    using server_gets_request[OF pb(1) ok(1) r(2), of rep_ser client "[]" sent]
      client_gets_reply[OF pb(2) ok(2), of "[]" em c] r(4)
    by (auto simp: client_send_def r(1))
qed

theorem rpc_over_zmq_witness:
  "\<exists>request answer. client_send wire_req_ser Request_name (snd (pack ping empty_Request)) [] = [request] \<and>
    server_poll (AsyncRPCServer wire_req_parse wire_rep_ser (dispatcher_on pong Map.empty)) ([7, 7] # request, [], 0)
      = Inr ([], [[7, 7] # answer], 1) \<and>
    client_poll (AsyncRPCClient wire_rep_parse) (answer, \<lparr>total_id = 42, rpc_holders = [42 \<mapsto> ping], rpc_timeout_holders = [42]\<rparr>, 0)
      = Inr ([], \<lparr>total_id = 42, rpc_holders = Map.empty, rpc_timeout_holders = []\<rparr>, 3)"
proof -
  let ?em = "\<lparr>total_id = 42, rpc_holders = [42 \<mapsto> ping], rpc_timeout_holders = [42]\<rparr>"
  have q: "serializer (request_serializer ping) (\<lambda>_. True) (=)" and p: "serializer (reply_serializer ping) (\<lambda>_. True) (=)"
    by (simp_all add: ping_def RPCHolder_def Integer_unsigned_serializer String_serializer wire_pb_ok)
  have "length [8, 3 :: u8] < proto_limit" by (simp add: proto_limit_def)
  then have d: "deserialize (Impl_Integer_unsigned wire_pb (0 :: u8)) 0 [8, 3] = (True, 3)"
    using serializer.round_trip[OF q, of 3] by (simp add: ping_def RPCHolder_def ping_bytes construct_unsigned)
  have req: "snd (pack ping empty_Request) = \<lparr>req_id = Some 42, req_request = Some [1], req_reply = Some [2], req_body = Some [8, 3]\<rparr>"
    by (simp add: pack_def ping_def RPCHolder_def ping_bytes empty_Request_def)
  have rep: "fst (dispatcher_requested (dispatcher_on pong Map.empty) (snd (pack ping empty_Request)) 0) =
      \<lparr>rep_id = Some 42, rep_request = Some [1], rep_reply = Some [2], rep_body = Some [10, 3, 65, 65, 65], rep_errcode = Some NOERROR\<rparr>"
    unfolding req using d
    by (simp add: dispatcher_requested_def dispatcher_on_def callback_requested_def makeReply_def get_bytes_def get_number_def
        pong_def empty_Reply_def construct_unsigned replicate_3 ping_bytes(2))
  have f1: "name_ok Request_name (wire_req_ser (snd (pack ping empty_Request)))"
    unfolding req by (simp add: name_ok_def Request_name_def wire_req_ser_def opt_field_def varint.simps)
  have f2: "name_ok Reply_name (wire_rep_ser (fst (dispatcher_requested (dispatcher_on pong Map.empty) (snd (pack ping empty_Request)) 0)))"
    unfolding rep by (simp add: name_ok_def Reply_name_def wire_rep_ser_def opt_field_def varint.simps error_code_def)
  have "\<exists>request answer y. client_send wire_req_ser Request_name (snd (pack ping empty_Request)) [] = [] @ [request] \<and>
    server_poll (AsyncRPCServer wire_req_parse wire_rep_ser (dispatcher_on pong Map.empty)) ([7, 7] # request, [], 0)
      = Inr ([], [] @ [[7, 7] # answer], 1) \<and>
    client_poll (AsyncRPCClient wire_rep_parse) (answer, ?em, 0) =
      Inr ([], erase_call (call_id ping) ?em, case cb_done ping of Some f \<Rightarrow> f y 0 | None \<Rightarrow> 0) \<and> [65, 65, 65] = y"
    by (rule rpc_over_zmq[OF q p, where cb = pong and s = 0 and s' = 1 and reply = "[65, 65, 65]"])
      (use f1 f2 in \<open>simp_all add: ping_def pong_def RPCHolder_def dispatcher_on_def ping_bytes proto_limit_def replicate_3
        wire_rpc_codecs\<close>)
  then show ?thesis by (auto simp: ping_def RPCHolder_def erase_call_def)
qed

text \<open>
  A client whose request serializes to nothing (an empty container) still sends: the
  message is an unset \<open>rpc::Request\<close>, whose bytes are none, so the buffer stays empty, the
  server drops what it gets as invalid, and the call waits for ever unless it has a timeout.
\<close>

theorem empty_request_lost:
  assumes "serialize QS request = []" "req_ser empty_Request = []"
    and "client_emit req_ser junk now qn pn QS PS request (em, outbox) = (h, em', outbox')"
  shows "outbox' = outbox @ [[[], []]] \<and> rpc_holders em' (call_id h) = Some h \<and>
    server_poll (AsyncRPCServer req_parse rep_ser callbacks) (client # last outbox', sent, s) = Inr ([], sent, s)"
proof -
  have "outbox' = outbox @ [[[], []]]" "rpc_holders em' (call_id h) = Some h"
    using assms by (auto simp: client_emit_def emitter_emit_def Let_def pack_def RPCHolder_def client_send_def packMsgByName_def)
  then show ?thesis
    by (simp add: server_poll_def recvs_def server_on_recv_def AsyncRPCServer_def dispatch_name_def dispatch_def
        parse_by_name_def sizeof_header_def)
qed

theorem empty_request_lost_witness:
  "case client_emit wire_req_ser 0 5 [1] [2] (Impl_Seq wire_pb (Impl_String wire_pb)) (Impl_String wire_pb) [] (RPCEmitter 0 :: (bytes list, bytes, nat) emitter, []) of
     (h, em, outbox) \<Rightarrow> outbox = [[[], []]]"
proof -
  obtain h em outbox where e: "client_emit wire_req_ser 0 5 [1] [2] (Impl_Seq wire_pb (Impl_String wire_pb)) (Impl_String wire_pb) []
      (RPCEmitter 0 :: (bytes list, bytes, nat) emitter, []) = (h, em, outbox)" by (metis prod_cases3)
  have "serialize (Impl_Seq wire_pb (Impl_String wire_pb)) [] = []" "wire_req_ser empty_Request = []"
    by (simp_all add: Impl_Seq_def wire_pb_def wire_req_ser_def empty_Request_def opt_field_def)
  then have "outbox = [[[], []]]"
    using empty_request_lost[OF _ _ e, where req_parse = wire_req_parse and rep_ser = wire_rep_ser and client = "[]"
        and sent = "[]" and callbacks = Map.empty and s = "()"] by blast
  then show ?thesis by (simp add: e)
qed

text \<open>
  C20. \<open>RPCServer\<close> on a \<open>ZMQWorker\<close>: its handler sends the reply itself, so the dispatcher has
  none to return, and the worker sends the empty error message as a second answer. ZeroMQ
  refuses it, outside of the \<open>try\<close> block: every request that is answered makes \<open>poll\<close> throw.
\<close>

theorem rpc_worker_throws:
  assumes "codec req_ser req_parse" "name_ok Request_name (req_ser req)" "\<not> answer_due w"
  shows "worker_poll (RPCServer req_parse rep_ser callbacks)
    (snd (packMsgByName req_ser [] Request_name req) # inbox, w) = Inl EFSM"
  using assms(3)
  by (simp add: worker_poll_def recv_def worker_on_recv_def RPCServer_def dispatch_sent[where ser = req_ser, OF assms(2)]
      process_no_reply_def name_ok_codec[OF assms(1,2)] doMsgRequest_def worker_send_def worker_socket_send_def
      split: prod.splits)

theorem rpc_worker_throws_witness:
  "worker_poll (RPCServer wire_req_parse wire_rep_ser (dispatcher_on pong Map.empty))
     ([snd (packMsgByName wire_req_ser [] Request_name (empty_Request\<lparr>req_id := Some 1\<rparr>))],
      \<lparr>answer_due = False, worker_out = [], worker_state = 0\<rparr>) = Inl EFSM"
  by (rule rpc_worker_throws[OF wire_rpc_codecs(1)])
    (simp_all add: name_ok_def Request_name_def wire_req_ser_def empty_Request_def opt_field_def varint.simps)

text \<open>
  A worker whose handlers return their replies answers every request exactly once: with the
  reply, or with the empty message if there was none or the message could not be handled.
\<close>

theorem worker_answers_once:
  assumes handlers: "\<And>request v. case disp request v of (_, v') \<Rightarrow> answer_due v' = answer_due v \<and> worker_out v' = worker_out v"
    and defined: "\<And>request v. fst (disp request v) \<noteq> Inl Out_of_bounds"
    and w: "\<not> answer_due w" and poll: "worker_poll disp (request # inbox, w) = r"
  shows "\<exists>w' answer. r = Inr (inbox, w') \<and> \<not> answer_due w' \<and> worker_out w' = worker_out w @ [answer] \<and>
    answer = (case fst (disp request (w\<lparr>answer_due := True\<rparr>)) of Inr (Some buff) \<Rightarrow> buff | _ \<Rightarrow> [])"
proof -
  obtain res v where d: "disp request (w\<lparr>answer_due := True\<rparr>) = (res, v)" by (cases "disp request (w\<lparr>answer_due := True\<rparr>)")
  have v: "answer_due v" "worker_out v = worker_out w" "res \<noteq> Inl Out_of_bounds"
    using handlers[where request = request and v = "w\<lparr>answer_due := True\<rparr>"]
      defined[where request = request and v = "w\<lparr>answer_due := True\<rparr>"] by (simp_all add: d)
  have "worker_on_recv disp request (w\<lparr>answer_due := True\<rparr>) =
      worker_socket_send (case res of Inr (Some buff) \<Rightarrow> buff | _ \<Rightarrow> []) v"
    using v by (auto simp: worker_on_recv_def d worker_socket_send_def split: sum.splits option.splits error.splits)
  then show ?thesis using poll w v d by (auto simp: worker_poll_def recv_def worker_socket_send_def)
qed

theorem worker_answers_once_witness:
  "\<exists>w. worker_poll (\<lambda>request v. (Inr (Some (rev request)), v)) ([[1, 2]], \<lparr>answer_due = False, worker_out = [], worker_state = ()\<rparr>)
     = Inr ([], w) \<and> worker_out w = [[2, 1]]"
  using worker_answers_once[where disp = "\<lambda>request v. (Inr (Some (rev request)), v)" and request = "[1, 2]" and inbox = "[]"
      and w = "\<lparr>answer_due = False, worker_out = [], worker_state = ()\<rparr>", OF _ _ _ refl]
  by auto

text \<open>
  C33. The server trusts its peers to send an empty frame and one more: it reads three frames
  without a look at \<open>ZMQ_RCVMORE\<close>. A peer that sends one frame only makes it take the
  identity of the next client for the message of the peer, and from then on it reads across the
  messages: the request of that client is not seen and the next poll blocks in \<open>recv\<close>. The identity
  is taken to be shorter than a header, as the five bytes are that ZeroMQ makes by itself; the
  dispatcher refuses it.
\<close>

theorem server_out_of_step:
  assumes "length client < sizeof_header"
  shows "\<exists>rest. server_poll (AsyncRPCServer req_parse rep_ser callbacks) ([peer, frame] @ [client, [], request], w) = Inr (rest, w) \<and>
    rest = [[], request] \<and> server_poll (AsyncRPCServer req_parse rep_ser callbacks) (rest, w) = Inl Blocks"
  using assms
  by (cases w) (simp add: server_poll_def recvs_def server_on_recv_def AsyncRPCServer_def dispatch_name_def dispatch_def
      parse_by_name_def)

theorem server_out_of_step_witness:
  "\<exists>rest. server_poll (AsyncRPCServer wire_req_parse wire_rep_ser (dispatcher_on pong Map.empty))
     ([[0, 1], [9]] @ [[0, 2], [], [6, 0, 0, 8]], [], 0) = Inr (rest, [], 0) \<and> rest = [[], [6, 0, 0, 8]]"
  using server_out_of_step[of "[0, 2]" wire_req_parse wire_rep_ser "dispatcher_on pong Map.empty" "[0, 1]" "[9]" "[6, 0, 0, 8]" "([], 0)"]
  by (simp add: sizeof_header_def)

text \<open>A message as the broker reads it, with the flag on all frames but the last.\<close>

definition flagged :: "frames \<Rightarrow> (bytes \<times> bool) list" where
  "flagged m = map (\<lambda>f. (f, True)) (butlast m) @ [(last m, False)]"

lemma move_message: "m \<noteq> [] \<Longrightarrow> move (flagged m @ inbox) sent = Inr (inbox, sent @ m)"
proof (induction m arbitrary: sent)
  case (Cons f m)
  then show ?case by (cases "m = []") (simp_all add: flagged_def)
qed simp

fun broker_polls :: "nat \<Rightarrow> broker \<Rightarrow> stop + broker" where
  "broker_polls 0 b = Inr b"
| "broker_polls (Suc n) b = (case broker_poll b of Inl e \<Rightarrow> Inl e | Inr b \<Rightarrow> broker_polls n b)"

lemma broker_poll_step:
  assumes "frontend_in b = concat (map flagged ms)" "backend_in b = concat (map flagged ms')"
    and "[] \<notin> set ms" "[] \<notin> set ms'"
  shows "broker_poll b = Inr (b\<lparr>frontend_in := concat (map flagged (tl ms)), backend_out := backend_out b @ take 1 ms,
    backend_in := concat (map flagged (tl ms')), frontend_out := frontend_out b @ take 1 ms'\<rparr>)"
proof -
  have ne: "flagged m \<noteq> []" for m by (simp add: flagged_def)
  show ?thesis using assms
    by (cases ms; cases ms'; cases b) (auto simp: broker_poll_def ne move_message)
qed

text \<open>
  The broker is transparent: polling it while there are messages moves all requests to
  the back end and all answers to the front end, unchanged and in order.
\<close>

theorem broker_transparent:
  assumes "frontend_in b = concat (map flagged ms)" "backend_in b = concat (map flagged ms')"
    and "[] \<notin> set ms" "[] \<notin> set ms'" "length ms \<le> n" "length ms' \<le> n"
  shows "broker_polls n b = Inr (b\<lparr>frontend_in := [], backend_out := backend_out b @ ms,
    backend_in := [], frontend_out := frontend_out b @ ms'\<rparr>)"
  using assms
proof (induction n arbitrary: b ms ms')
  case 0
  then show ?case by (cases b) simp
next
  case (Suc n)
  have t: "take (Suc 0) xs @ tl xs = xs" for xs :: "frames list" by (cases xs) simp_all
  have "[] \<notin> set (tl ms)" "[] \<notin> set (tl ms')" using Suc.prems(3,4) by (cases ms, simp, simp, cases ms', simp_all)
  moreover note broker_poll_step[OF Suc.prems(1-4)]
  ultimately show ?case using Suc.prems(5,6)
    by (simp add: Suc.IH[of _ "tl ms" "tl ms'"] t)
qed

theorem broker_transparent_witness:
  "broker_polls 2 \<lparr>frontend_in = concat (map flagged [[[1], [], [2]], [[3]]]), frontend_out = [], backend_in = concat (map flagged [[[4], [5]]]),
       backend_out = []\<rparr> =
    Inr \<lparr>frontend_in = [], frontend_out = [[[4], [5]]], backend_in = [], backend_out = [[[1], [], [2]], [[3]]]\<rparr>"
  by (subst broker_transparent[OF broker.select_convs(1) broker.select_convs(3)]) simp_all

end
