(* ===== verification/Sql.thy ===== *)
theory Sql
  imports Url "HOL-Library.Multiset"
begin

text \<open>
  The part of SQL that \<open>common/tinyorm*\<close> speaks, as the manual of MySQL gives it: the lexical
  structure of a statement, the statements, and what a server does with them. The sources
  only send texts to a server, so their models take it as a parameter; this theory states
  what they rely on (\<open>server_ok\<close>) and has a server that keeps it (\<open>sql_server\<close>), the instance of
  the witnesses.
\<close>

subsection \<open>Tokens\<close>

datatype token = Word string | Ident string | Str string | Sym char

definition quote_char :: char where "quote_char = CHR 0x27"
definition backslash :: char where "backslash = CHR 0x5C"
definition backquote :: char where "backquote = CHR 0x60"

lemmas special_chars = quote_char_def backslash_def backquote_def

text \<open>A number with its sign and point is one word.\<close>

definition is_word :: "char \<Rightarrow> bool" where
  "is_word c \<longleftrightarrow> c \<in> set ''ABCDEFGHIJKLMNOPQRSTUVWXYZabcdefghijklmnopqrstuvwxyz0123456789_.+-''"

definition unescape :: "char \<Rightarrow> char" where
  "unescape c = (if c = CHR ''0'' then CHR 0x00 else if c = CHR ''n'' then CHR 0x0A
     else if c = CHR ''r'' then CHR 0x0D else if c = CHR ''t'' then CHR 0x09
     else if c = CHR ''b'' then CHR 0x08 else if c = CHR ''Z'' then CHR 0x1A else c)"

text \<open>The rest of a quoted text: its value and what follows it.\<close>

fun lex_quoted :: "bool \<Rightarrow> char \<Rightarrow> string \<Rightarrow> (string \<times> string) option" where
  "lex_quoted esc q [] = None"
| "lex_quoted esc q (c # cs) =
     (if c = q then
        (case cs of
           d # ds \<Rightarrow> if d = q then map_option (apfst (Cons q)) (lex_quoted esc q ds) else Some ([], cs)
         | [] \<Rightarrow> Some ([], cs))
      else if esc \<and> c = backslash then
        (case cs of [] \<Rightarrow> None | d # ds \<Rightarrow> map_option (apfst (Cons (unescape d))) (lex_quoted esc q ds))
      else map_option (apfst (Cons c)) (lex_quoted esc q cs))"

lemma lex_quoted_shorter: "lex_quoted esc q s = Some (v, r) \<Longrightarrow> length r < length s"
  by (induction esc q s arbitrary: v r rule: lex_quoted.induct)
    (fastforce split: if_splits list.splits)+

function scan :: "string \<Rightarrow> token list option" where
  "scan [] = Some []"
| "scan (c # cs) =
     (if c = CHR '' '' then scan cs
      else if c = backquote then
        (case lex_quoted False c cs of None \<Rightarrow> None | Some (n, r) \<Rightarrow> map_option (Cons (Ident n)) (scan r))
      else if c = quote_char then
        (case lex_quoted True c cs of None \<Rightarrow> None | Some (s, r) \<Rightarrow> map_option (Cons (Str s)) (scan r))
      else if is_word c then
        map_option (Cons (Word (c # takeWhile is_word cs))) (scan (dropWhile is_word cs))
      else map_option (Cons (Sym c)) (scan cs))"
  by pat_completeness auto
termination
  by (relation "measure length") (auto dest: lex_quoted_shorter simp: le_imp_less_Suc length_dropWhile_le)

text \<open>
  A text has the tokens \<open>ts\<close> in front of any text that starts with a separator; or in front of
  any text at all.
\<close>

definition separates :: "string \<Rightarrow> bool" where
  "separates s \<longleftrightarrow> (case s of [] \<Rightarrow> True | c # _ \<Rightarrow> \<not> is_word c \<and> c \<noteq> quote_char \<and> c \<noteq> backquote)"

definition lexes :: "string \<Rightarrow> token list \<Rightarrow> bool" where
  "lexes s ts \<longleftrightarrow> (\<forall>rest. separates rest \<longrightarrow> scan (s @ rest) = map_option ((@) ts) (scan rest))"

definition closed :: "string \<Rightarrow> token list \<Rightarrow> bool" where
  "closed s ts \<longleftrightarrow> (\<forall>rest. scan (s @ rest) = map_option ((@) ts) (scan rest))"

named_theorems lex_rules \<open>the tokens of texts\<close>

lemma closed_lexes [lex_rules]: "closed s ts \<Longrightarrow> lexes s ts"
  by (simp add: closed_def lexes_def)

lemma lexes_lex: "lexes s ts \<Longrightarrow> scan s = Some ts"
  unfolding lexes_def by (drule spec[of _ "[]"]) (simp add: separates_def)

lemma separates_append: "separates s \<Longrightarrow> s \<noteq> [] \<or> separates rest \<Longrightarrow> separates (s @ rest)"
  by (auto simp: separates_def split: list.splits)

lemma map_option_prefix [simp]:
  "map_option ((@) []) x = x" "map_option ((@) [t]) x = map_option (Cons t) x"
  by (cases x; simp)+

lemma map_option_Cons: "map_option ((@) (t # ts)) x = map_option (Cons t) (map_option ((@) ts) x)"
  by (cases x) simp_all

lemma map_option_append: "map_option ((@) a) (map_option ((@) b) x) = map_option ((@) (a @ b)) x"
  by (cases x) simp_all

lemma lexes_append: "lexes a ts \<Longrightarrow> separates b \<Longrightarrow> lexes b us \<Longrightarrow> lexes (a @ b) (ts @ us)"
  unfolding lexes_def by (auto simp: map_option_append intro: separates_append)

lemma lexes_append_closed: "lexes a ts \<Longrightarrow> separates b \<Longrightarrow> b \<noteq> [] \<Longrightarrow> closed b us \<Longrightarrow> closed (a @ b) (ts @ us)"
  unfolding lexes_def closed_def by (auto simp: map_option_append intro: separates_append)

lemma closed_append: "closed a ts \<Longrightarrow> closed b us \<Longrightarrow> closed (a @ b) (ts @ us)"
  by (simp add: closed_def map_option_append)

lemma closed_lexes_append: "closed a ts \<Longrightarrow> lexes b us \<Longrightarrow> lexes (a @ b) (ts @ us)"
  by (simp add: lexes_def closed_def map_option_append)

lemma closed_Nil: "closed [] []"
  by (simp add: closed_def)

lemma closed_space: "closed '' '' []"
  by (simp add: closed_def)

lemma closed_sym: "\<not> is_word c \<Longrightarrow> c \<notin> {CHR '' '', quote_char, backquote} \<Longrightarrow> closed [c] [Sym c]"
  by (simp add: closed_def)

lemma lexes_word:
  assumes "s \<noteq> []" "list_all is_word s"
  shows "lexes s [Word s]"
proof -
  obtain c cs where s: "s = c # cs" "is_word c" "list_all is_word cs" using assms by (cases s) auto
  have c: "c \<noteq> CHR '' ''" "c \<noteq> backquote" "c \<noteq> quote_char" using s(2) by (auto simp: is_word_def special_chars)
  have "takeWhile is_word (cs @ rest) = cs \<and> dropWhile is_word (cs @ rest) = rest" if "separates rest" for rest
    using s(3) that by (cases rest) (auto simp: separates_def list_all_iff)
  then show ?thesis using s(2) c by (simp add: lexes_def s(1))
qed


text \<open>Identifiers in backquotes and texts in quotes.\<close>

definition in_backquotes :: "string \<Rightarrow> string" where
  "in_backquotes n = ''`'' @ n @ ''`''"

definition in_quotes :: "string \<Rightarrow> string" where
  "in_quotes s = [quote_char] @ s @ [quote_char]"

text \<open>\<open>mysql_real_escape_string\<close>.\<close>

definition escape :: "char \<Rightarrow> string" where
  "escape c = (if c = CHR 0x00 then [backslash, CHR ''0''] else if c = CHR 0x0A then [backslash, CHR ''n'']
     else if c = CHR 0x0D then [backslash, CHR ''r''] else if c = CHR 0x1A then [backslash, CHR ''Z'']
     else if c \<in> {backslash, quote_char, CHR 0x22} then [backslash, c] else [c])"

definition sql_quote :: "string \<Rightarrow> string" where
  "sql_quote s = in_quotes (concat (map escape s))"

lemma separates_Cons: "separates (d # ds) \<Longrightarrow> d \<noteq> quote_char \<and> d \<noteq> backquote"
  by (simp add: separates_def)

lemma lex_quoted_plain:
  assumes "q \<notin> set s" "esc \<longrightarrow> backslash \<notin> set s" "separates rest" "q = quote_char \<or> q = backquote"
  shows "lex_quoted esc q (s @ q # rest) = Some (s, rest)"
  using assms by (induction s) (auto split: list.splits dest: separates_Cons)

lemma unescape_escape: "lex_quoted True quote_char (escape c @ s) = map_option (apfst (Cons c)) (lex_quoted True quote_char s)"
  by (auto simp: escape_def unescape_def special_chars split: list.splits)

lemma lex_quoted_escape:
  assumes "separates rest"
  shows "lex_quoted True quote_char (concat (map escape s) @ quote_char # rest) = Some (s, rest)"
  using assms by (induction s) (auto simp: unescape_escape split: list.splits dest: separates_Cons)

lemma char_differs [simp]:
  "quote_char \<noteq> CHR '' ''" "backquote \<noteq> CHR '' ''" "quote_char \<noteq> backquote" "backquote \<noteq> quote_char"
  "quote_char \<noteq> backslash"
  by (simp_all add: special_chars)

lemma lexes_ident: "backquote \<notin> set n \<Longrightarrow> lexes (in_backquotes n) [Ident n]"
  unfolding lexes_def in_backquotes_def
  by (simp add: lex_quoted_plain flip: backquote_def)

lemma lexes_str: "quote_char \<notin> set s \<Longrightarrow> backslash \<notin> set s \<Longrightarrow> lexes (in_quotes s) [Str s]"
  unfolding lexes_def in_quotes_def by (simp add: lex_quoted_plain)

lemma lexes_quote: "lexes (sql_quote s) [Str s]"
  unfolding lexes_def sql_quote_def in_quotes_def by (simp add: lex_quoted_escape)

declare scan.simps [simp del]

subsection \<open>Statements\<close>

text \<open>The type of a column; \<open>True\<close> is \<open>UNSIGNED\<close>.\<close>

datatype sql_type = Tinyint bool | Smallint bool | Integer bool | Bigint bool | Bool | Float | Double
  | Text | Varchar nat | Blob | Tinyblob | Mediumblob | Longblob

type_synonym column = "string \<times> sql_type \<times> string option"

datatype literal = Num string | Txt string

datatype stmt =
    Create string "column list" "string list"
  | Drop string
  | Add_Column string column
  | Show_Tables
  | Show_Like string
  | Desc string
  | Insert bool string "string list" "literal list"   \<comment> \<open>\<open>True\<close> is \<open>REPLACE\<close>\<close>
  | Select "string list" string "(string \<times> literal) list option" bool   \<comment> \<open>\<open>True\<close> is \<open>LIMIT 1\<close>\<close>
  | Update string "(string \<times> literal) list" "(string \<times> literal) list"
  | Delete string "(string \<times> literal) list option"

fun separated :: "token \<Rightarrow> token list list \<Rightarrow> token list" where
  "separated t [] = []"
| "separated t [ts] = ts"
| "separated t (ts # us # tss) = ts @ t # separated t (us # tss)"

definition comma :: token where "comma = Sym (CHR '','')"

fun sized :: "string \<Rightarrow> nat \<Rightarrow> token list" where
  "sized w n = [Word w, Sym (CHR ''(''), Word (decimal n), Sym (CHR '')'')]"

definition unsigned :: "bool \<Rightarrow> token list" where
  "unsigned u = (if u then [Word ''UNSIGNED''] else [])"

fun type_tokens :: "sql_type \<Rightarrow> token list" where
  "type_tokens (Tinyint u) = sized ''TINYINT'' 3 @ unsigned u"
| "type_tokens (Smallint u) = sized ''SMALLINT'' 5 @ unsigned u"
| "type_tokens (Integer u) = sized ''INT'' 10 @ unsigned u"
| "type_tokens (Bigint u) = sized ''BIGINT'' 20 @ unsigned u"
| "type_tokens Bool = [Word ''BOOL'']"
| "type_tokens Float = [Word ''FLOAT'']"
| "type_tokens Double = [Word ''DOUBLE'']"
| "type_tokens Text = [Word ''TEXT'']"
| "type_tokens (Varchar n) = sized ''VARCHAR'' n"
| "type_tokens Blob = [Word ''BLOB'']"
| "type_tokens Tinyblob = [Word ''TINYBLOB'']"
| "type_tokens Mediumblob = [Word ''MEDIUMBLOB'']"
| "type_tokens Longblob = [Word ''LONGBLOB'']"

text \<open>The sizes of the numeric types.\<close>

lemma decimal_sizes: "decimal 3 = ''3''" "decimal 5 = ''5''" "decimal 10 = ''10''" "decimal 20 = ''20''"
  by (simp_all add: decimal.simps char_of_def bit_Suc_0_iff)

fun column_tokens :: "column \<Rightarrow> token list" where
  "column_tokens (n, t, d) = Ident n # type_tokens t @
     (case d of None \<Rightarrow> [] | Some d \<Rightarrow> [Word ''NOT'', Word ''NULL'', Word ''DEFAULT'', Str d])"

fun literal_token :: "literal \<Rightarrow> token" where
  "literal_token (Num s) = Word s"
| "literal_token (Txt s) = Str s"

fun equation_tokens :: "string \<times> literal \<Rightarrow> token list" where
  "equation_tokens (n, l) = [Ident n, Sym (CHR ''=''), literal_token l]"

definition idents_tokens :: "string list \<Rightarrow> token list" where
  "idents_tokens ns = separated comma (map (\<lambda>n. [Ident n]) ns)"

fun where_tokens :: "(string \<times> literal) list option \<Rightarrow> token list" where
  "where_tokens None = []"
| "where_tokens (Some conds) = Word ''WHERE'' # separated (Word ''AND'') (map equation_tokens conds)"

fun stmt_tokens :: "stmt \<Rightarrow> token list" where
  "stmt_tokens (Create tab cols keys) = [Word ''CREATE'', Word ''TABLE'', Ident tab, Sym (CHR ''('')] @
     separated comma (map column_tokens cols @
       (if keys = [] then [] else [[Word ''PRIMARY'', Word ''KEY'', Sym (CHR ''('')] @ idents_tokens keys @ [Sym (CHR '')'')]])) @
     [Sym (CHR '')'')]"
| "stmt_tokens (Drop tab) = [Word ''DROP'', Word ''TABLE'', Ident tab]"
| "stmt_tokens (Add_Column tab col) = [Word ''ALTER'', Word ''TABLE'', Ident tab, Word ''ADD''] @ column_tokens col"
| "stmt_tokens Show_Tables = [Word ''SHOW'', Word ''TABLES'']"
| "stmt_tokens (Show_Like pat) = [Word ''SHOW'', Word ''TABLES'', Word ''LIKE'', Str pat]"
| "stmt_tokens (Desc tab) = [Word ''DESC'', Ident tab]"
| "stmt_tokens (Insert r tab cols vals) = [Word (if r then ''REPLACE'' else ''INSERT''), Word ''INTO'', Ident tab, Sym (CHR ''('')] @
     idents_tokens cols @ [Sym (CHR '')''), Word ''VALUES'', Sym (CHR ''('')] @
     separated comma (map (\<lambda>l. [literal_token l]) vals) @ [Sym (CHR '')'')]"
| "stmt_tokens (Select cols tab conds one) = [Word ''SELECT''] @ idents_tokens cols @ [Word ''FROM'', Ident tab] @
     where_tokens conds @ (if one then [Word ''LIMIT'', Word ''1''] else [])"
| "stmt_tokens (Update tab sets conds) = [Word ''UPDATE'', Ident tab, Word ''SET''] @
     separated comma (map equation_tokens sets) @ where_tokens (Some conds)"
| "stmt_tokens (Delete tab conds) = [Word ''DELETE'', Word ''FROM'', Ident tab] @ where_tokens conds"


subsection \<open>What a server does\<close>

text \<open>
  A cell is \<open>None\<close> when it is \<open>NULL\<close>, and otherwise the text a client gets for it. What depends
  on the settings of the server is in its rules: when two values are equal under the
  collation, the text of a stored floating-point number, which texts the character set has, and the
  columns of a description behind the name.
\<close>

type_synonym cell = "string option"

record sql_table =
  columns :: "column list"
  primary :: "string list"
  rows :: "(string \<Rightarrow> cell) list"

type_synonym sql_db = "(string \<times> sql_table) list"

record rules =
  same :: "sql_type \<Rightarrow> string \<Rightarrow> string \<Rightarrow> bool"
  canon :: "sql_type \<Rightarrow> string \<Rightarrow> string"
  valid_text :: "string \<Rightarrow> bool"
  described :: "column \<Rightarrow> cell list"

definition column_type :: "sql_table \<Rightarrow> string \<Rightarrow> sql_type" where
  "column_type tab n = (case map_of (columns tab) n of Some (t, _) \<Rightarrow> t | None \<Rightarrow> Text)"

definition is_real :: "sql_type \<Rightarrow> bool" where
  "is_real t \<longleftrightarrow> t \<in> {Float, Double}"

definition is_blob :: "sql_type \<Rightarrow> bool" where
  "is_blob t \<longleftrightarrow> t \<in> {Text, Blob, Tinyblob, Mediumblob, Longblob}"

fun literal_text :: "literal \<Rightarrow> string" where
  "literal_text (Num s) = s"
| "literal_text (Txt s) = s"

definition stored :: "rules \<Rightarrow> sql_type \<Rightarrow> string \<Rightarrow> cell" where
  "stored ru t s = Some (if is_real t then canon ru t s else s)"

definition default_row :: "rules \<Rightarrow> sql_table \<Rightarrow> string \<Rightarrow> cell" where
  "default_row ru tab n =
     (case map_of (columns tab) n of Some (t, Some d) \<Rightarrow> stored ru t d | _ \<Rightarrow> None)"

definition assign :: "rules \<Rightarrow> sql_table \<Rightarrow> (string \<times> literal) list \<Rightarrow> (string \<Rightarrow> cell) \<Rightarrow> string \<Rightarrow> cell" where
  "assign ru tab sets r n =
     (case map_of sets n of Some l \<Rightarrow> stored ru (column_type tab n) (literal_text l) | None \<Rightarrow> r n)"

definition same_cell :: "rules \<Rightarrow> sql_type \<Rightarrow> cell \<Rightarrow> cell \<Rightarrow> bool" where
  "same_cell ru t a b = (case (a, b) of (Some x, Some y) \<Rightarrow> same ru t x y | _ \<Rightarrow> False)"

definition matches :: "rules \<Rightarrow> sql_table \<Rightarrow> (string \<times> literal) list option \<Rightarrow> (string \<Rightarrow> cell) \<Rightarrow> bool" where
  "matches ru tab conds r =
     (case conds of None \<Rightarrow> True
      | Some eqs \<Rightarrow> list_all (\<lambda>(n, l). same_cell ru (column_type tab n) (r n) (Some (literal_text l))) eqs)"

definition same_key :: "rules \<Rightarrow> sql_table \<Rightarrow> (string \<Rightarrow> cell) \<Rightarrow> (string \<Rightarrow> cell) \<Rightarrow> bool" where
  "same_key ru tab r r' \<longleftrightarrow>
     primary tab \<noteq> [] \<and> list_all (\<lambda>n. same_cell ru (column_type tab n) (r n) (r' n)) (primary tab)"

definition unique_keys :: "rules \<Rightarrow> sql_table \<Rightarrow> bool" where
  "unique_keys ru tab \<longleftrightarrow> sorted_wrt (\<lambda>r r'. \<not> same_key ru tab r r') (rows tab)"

definition put_table :: "string \<Rightarrow> sql_table \<Rightarrow> sql_db \<Rightarrow> sql_db" where
  "put_table n tab db = map (\<lambda>(m, t). (m, if m = n then tab else t)) db"

definition upper :: "string \<Rightarrow> string" where
  "upper s = map (\<lambda>c. if CHR ''a'' \<le> c \<and> c \<le> CHR ''z'' then char_of (of_char c - 32 :: nat) else c) s"

fun like :: "string \<Rightarrow> string \<Rightarrow> bool" where
  "like [] s = (s = [])"
| "like (p # ps) [] = (p = CHR ''%'' \<and> like ps [])"
| "like (p # ps) (c # cs) =
     (if p = CHR ''%'' then like ps (c # cs) \<or> like (p # ps) cs
      else (p = CHR ''_'' \<or> p = c) \<and> like ps cs)"

type_synonym result = "string + cell list list"

fun sql_run :: "rules \<Rightarrow> stmt \<Rightarrow> sql_db \<Rightarrow> result \<times> sql_db" where
  "sql_run ru (Create tab cols keys) db =
     (if map_of db tab \<noteq> None then (Inl ''1050'', db)
      else if \<exists>k\<in>set keys. \<exists>(n, t, d)\<in>set cols. n = k \<and> is_blob t then (Inl ''1170'', db)
      else (Inr [], (tab, \<lparr>columns = cols, primary = keys, rows = []\<rparr>) # db))"
| "sql_run ru (Drop tab) db =
     (if map_of db tab = None then (Inl ''1051'', db) else (Inr [], filter (\<lambda>(n, _). n \<noteq> tab) db))"
| "sql_run ru (Add_Column tab (n, t, d)) db =
     (case map_of db tab of
        None \<Rightarrow> (Inl ''1146'', db)
      | Some T \<Rightarrow>
          if upper n \<in> upper ` fst ` set (columns T) then (Inl ''1060'', db)
          else let T' = T\<lparr>columns := columns T @ [(n, t, d)]\<rparr>
            in (Inr [], put_table tab (T'\<lparr>rows := map (\<lambda>r. r(n := default_row ru T' n)) (rows T)\<rparr>) db))"
| "sql_run ru Show_Tables db = (Inr (map (\<lambda>(n, _). [Some n]) db), db)"
| "sql_run ru (Show_Like pat) db = (Inr (map (\<lambda>(n, _). [Some n]) (filter (\<lambda>(n, _). like pat n) db)), db)"
| "sql_run ru (Desc tab) db =
     (case map_of db tab of
        None \<Rightarrow> (Inl ''1146'', db)
      | Some T \<Rightarrow> (Inr (map (\<lambda>c. Some (fst c) # described ru c) (columns T)), db))"
| "sql_run ru (Insert repl tab cols vals) db =
     (case map_of db tab of
        None \<Rightarrow> (Inl ''1146'', db)
      | Some T \<Rightarrow>
          let r = assign ru T (zip cols vals) (default_row ru T)
          in if repl then (Inr [], put_table tab (T\<lparr>rows := filter (\<lambda>r'. \<not> same_key ru T r' r) (rows T) @ [r]\<rparr>) db)
             else if list_ex (\<lambda>r'. same_key ru T r' r) (rows T) then (Inl ''1062'', db)
             else (Inr [], put_table tab (T\<lparr>rows := rows T @ [r]\<rparr>) db))"
| "sql_run ru (Select cols tab conds one) db =
     (case map_of db tab of
        None \<Rightarrow> (Inl ''1146'', db)
      | Some T \<Rightarrow>
          let rs = filter (matches ru T conds) (rows T)
          in (Inr (map (\<lambda>r. map r cols) (if one then take 1 rs else rs)), db))"
| "sql_run ru (Update tab sets conds) db =
     (case map_of db tab of
        None \<Rightarrow> (Inl ''1146'', db)
      | Some T \<Rightarrow>
          let T' = T\<lparr>rows := map (\<lambda>r. if matches ru T (Some conds) r then assign ru T sets r else r) (rows T)\<rparr>
          in if unique_keys ru T' then (Inr [], put_table tab T' db) else (Inl ''1062'', db))"
| "sql_run ru (Delete tab conds) db =
     (case map_of db tab of
        None \<Rightarrow> (Inl ''1146'', db)
      | Some T \<Rightarrow> (Inr [], put_table tab (T\<lparr>rows := filter (\<lambda>r. \<not> matches ru T conds r) (rows T)\<rparr>) db))"


subsection \<open>What clients rely on\<close>

text \<open>The numbers a column holds, and the values it stores without a loss.\<close>

fun int_range :: "sql_type \<Rightarrow> (int \<times> int) option" where
  "int_range (Tinyint u) = Some (if u then (0, 2 ^ 8) else (- (2 ^ 7), 2 ^ 7))"
| "int_range (Smallint u) = Some (if u then (0, 2 ^ 16) else (- (2 ^ 15), 2 ^ 15))"
| "int_range (Integer u) = Some (if u then (0, 2 ^ 32) else (- (2 ^ 31), 2 ^ 31))"
| "int_range (Bigint u) = Some (if u then (0, 2 ^ 64) else (- (2 ^ 63), 2 ^ 63))"
| "int_range Bool = Some (0, 2)"
| "int_range _ = None"

fun text_size :: "sql_type \<Rightarrow> nat option" where
  "text_size Text = Some (2 ^ 16)"
| "text_size (Varchar n) = Some (n + 1)"
| "text_size Blob = Some (2 ^ 16)"
| "text_size Tinyblob = Some (2 ^ 8)"
| "text_size Mediumblob = Some (2 ^ 24)"
| "text_size Longblob = Some (2 ^ 32)"
| "text_size _ = None"

definition int_val :: "string \<Rightarrow> int" where
  "int_val s = (case s of c # cs \<Rightarrow> if c = CHR ''-'' then - digits_val cs else digits_val s | [] \<Rightarrow> 0)"

text \<open>A number as \<open>printf\<close> with \<open>%g\<close> writes it.\<close>

definition real_text :: "string \<Rightarrow> bool" where
  "real_text s =
     (let s = (case s of c # cs \<Rightarrow> if c = CHR ''-'' then cs else s | [] \<Rightarrow> s);
          digits = takeWhile is_digit s; s = dropWhile is_digit s;
          s = (case s of c # cs \<Rightarrow> if c = CHR ''.'' then dropWhile is_digit cs else s | [] \<Rightarrow> s)
      in digits \<noteq> [] \<and>
         (case s of [] \<Rightarrow> True
          | c # cs \<Rightarrow> c = CHR ''e'' \<and> (case cs of d # ds \<Rightarrow> d \<in> set ''+-'' \<and> ds \<noteq> [] \<and> list_all is_digit ds | [] \<Rightarrow> False)))"

definition fits_text :: "rules \<Rightarrow> sql_type \<Rightarrow> string \<Rightarrow> bool" where
  "fits_text ru t s \<longleftrightarrow>
     (case int_range t of
        Some (lo, hi) \<Rightarrow> s = int_decimal (int_val s) \<and> lo \<le> int_val s \<and> int_val s < hi
      | None \<Rightarrow>
          (case text_size t of
             Some n \<Rightarrow> length s < n \<and> (t = Text \<or> \<not> is_blob t \<longrightarrow> valid_text ru s)
           | None \<Rightarrow> real_text s))"

fun fits :: "rules \<Rightarrow> sql_type \<Rightarrow> literal \<Rightarrow> bool" where
  "fits ru t (Num s) \<longleftrightarrow> text_size t = None \<and> fits_text ru t s"
| "fits ru t (Txt s) \<longleftrightarrow> text_size t \<noteq> None \<and> fits_text ru t s"

definition good_columns :: "rules \<Rightarrow> column list \<Rightarrow> bool" where
  "good_columns ru cols \<longleftrightarrow> distinct (map (upper \<circ> fst) cols) \<and>
     (\<forall>(n, t, d)\<in>set cols. case d of Some d \<Rightarrow> \<not> is_blob t \<and> fits_text ru t d | None \<Rightarrow> True)"

definition good_equations :: "rules \<Rightarrow> sql_table \<Rightarrow> (string \<times> literal) list \<Rightarrow> bool" where
  "good_equations ru T eqs \<longleftrightarrow> eqs \<noteq> [] \<and> distinct (map fst eqs) \<and>
     (\<forall>(n, l)\<in>set eqs. n \<in> fst ` set (columns T) \<and> fits ru (column_type T n) l)"

definition good_where :: "rules \<Rightarrow> sql_table \<Rightarrow> (string \<times> literal) list option \<Rightarrow> bool" where
  "good_where ru T conds \<longleftrightarrow>
     (case conds of None \<Rightarrow> True
      | Some eqs \<Rightarrow> good_equations ru T eqs \<and> (\<forall>(n, l)\<in>set eqs. \<not> is_real (column_type T n)))"

text \<open>A statement whose effect the manual determines, up to the rules.\<close>

fun good_stmt :: "rules \<Rightarrow> stmt \<Rightarrow> sql_db \<Rightarrow> bool" where
  "good_stmt ru (Create tab cols keys) db \<longleftrightarrow>
     good_columns ru cols \<and> distinct keys \<and> set keys \<subseteq> fst ` set cols"
| "good_stmt ru (Show_Like pat) db \<longleftrightarrow> backslash \<notin> set pat"
| "good_stmt ru (Add_Column tab col) db \<longleftrightarrow> good_columns ru [col]"
| "good_stmt ru (Insert repl tab cols vals) db \<longleftrightarrow> length cols = length vals \<and>
     (case map_of db tab of None \<Rightarrow> True | Some T \<Rightarrow> good_equations ru T (zip cols vals))"
| "good_stmt ru (Select cols tab conds one) db \<longleftrightarrow>
     (case map_of db tab of None \<Rightarrow> True | Some T \<Rightarrow> set cols \<subseteq> fst ` set (columns T) \<and> good_where ru T conds)"
| "good_stmt ru (Update tab sets conds) db \<longleftrightarrow>
     (case map_of db tab of None \<Rightarrow> True | Some T \<Rightarrow> good_equations ru T sets \<and> good_where ru T (Some conds))"
| "good_stmt ru (Delete tab conds) db \<longleftrightarrow>
     (case map_of db tab of None \<Rightarrow> True | Some T \<Rightarrow> good_where ru T conds)"
| "good_stmt ru _ db \<longleftrightarrow> True"

text \<open>The lists of a statement are not empty; a condition without an equation.\<close>

fun complete :: "stmt \<Rightarrow> bool" where
  "complete (Create tab cols keys) \<longleftrightarrow> cols \<noteq> []"
| "complete (Insert repl tab cols vals) \<longleftrightarrow> cols \<noteq> [] \<and> vals \<noteq> []"
| "complete (Select cols tab conds one) \<longleftrightarrow> cols \<noteq> [] \<and> conds \<noteq> Some []"
| "complete (Update tab sets conds) \<longleftrightarrow> sets \<noteq> [] \<and> conds \<noteq> []"
| "complete (Delete tab conds) \<longleftrightarrow> conds \<noteq> Some []"
| "complete _ \<longleftrightarrow> True"

fun empty_where :: "stmt \<Rightarrow> bool" where
  "empty_where (Select cols tab conds one) \<longleftrightarrow> cols \<noteq> [] \<and> conds = Some []"
| "empty_where (Update tab sets conds) \<longleftrightarrow> sets \<noteq> [] \<and> conds = []"
| "empty_where (Delete tab conds) \<longleftrightarrow> conds = Some []"
| "empty_where _ \<longleftrightarrow> False"

text \<open>
  The tables of a database and the rows of a table have no order: the manual leaves the order of what a
  query without \<open>ORDER BY\<close> lists to the server, which may change from one query to the next. A query
  is answered as over some reordering of the database, and changes nothing.
\<close>

fun is_query :: "stmt \<Rightarrow> bool" where
  "is_query Show_Tables \<longleftrightarrow> True"
| "is_query (Show_Like pat) \<longleftrightarrow> True"
| "is_query (Desc tab) \<longleftrightarrow> True"
| "is_query (Select cols tab conds one) \<longleftrightarrow> True"
| "is_query _ \<longleftrightarrow> False"

definition same_rows :: "sql_table \<Rightarrow> sql_table \<Rightarrow> bool" where
  "same_rows T T' \<longleftrightarrow> columns T' = columns T \<and> primary T' = primary T \<and> mset (rows T') = mset (rows T)"

definition reordered :: "sql_db \<Rightarrow> sql_db \<Rightarrow> bool" where
  "reordered db db' \<longleftrightarrow> mset (map fst db') = mset (map fst db) \<and> (\<forall>n. rel_option same_rows (map_of db n) (map_of db' n))"

definition sql_answers :: "rules \<Rightarrow> stmt \<Rightarrow> sql_db \<Rightarrow> result \<times> sql_db \<Rightarrow> bool" where
  "sql_answers ru stmt db out \<longleftrightarrow>
     (if is_query stmt then \<exists>db'. reordered db db' \<and> out = (fst (sql_run ru stmt db'), db)
      else out = sql_run ru stmt db)"

lemma reordered_refl: "reordered db db"
  by (simp add: reordered_def same_rows_def option.rel_refl)

lemma reordered_table:
  assumes "reordered db db'"
  shows "map_of db n = None \<Longrightarrow> map_of db' n = None"
    "map_of db n = Some T \<Longrightarrow> \<exists>rs. map_of db' n = Some (T\<lparr>rows := rs\<rparr>) \<and> mset rs = mset (rows T)"
proof -
  have r: "rel_option same_rows (map_of db n) (map_of db' n)" using assms by (simp add: reordered_def)
  then show "map_of db n = None \<Longrightarrow> map_of db' n = None" by simp
  assume "map_of db n = Some T"
  then obtain T' where T': "map_of db' n = Some T'" "same_rows T T'" using r by (auto simp: option_rel_Some1)
  then have "T' = T\<lparr>rows := rows T'\<rparr>" by (cases T; cases T') (simp add: same_rows_def)
  then show "\<exists>rs. map_of db' n = Some (T\<lparr>rows := rs\<rparr>) \<and> mset rs = mset (rows T)"
    using T' by (intro exI[of _ "rows T'"]) (simp add: same_rows_def)
qed

lemma reordered_names: "reordered db db' \<Longrightarrow> fst ` set db' = fst ` set db"
  unfolding reordered_def by (metis list.set_map mset_eq_setD)

lemma query_keeps: "is_query stmt \<Longrightarrow> snd (sql_run ru stmt db) = db"
  by (cases stmt) (auto simp: Let_def split: option.splits)

text \<open>Whether a query fails, and how, does not depend on the order.\<close>

lemma query_fails:
  assumes "is_query stmt" "reordered db db'"
  shows "fst (sql_run ru stmt db) = Inl e \<longleftrightarrow> fst (sql_run ru stmt db') = Inl e"
proof -
  have n: "map_of db n = None \<longleftrightarrow> map_of db' n = None" for n using reordered_table[OF assms(2), of n] by (cases "map_of db n") auto
  show ?thesis using assms(1)
  proof (cases stmt)
    case (Desc tab)
    then show ?thesis using n[of tab] by (cases "map_of db tab"; cases "map_of db' tab") simp_all
  next
    case (Select cols tab conds one)
    then show ?thesis using n[of tab] by (cases "map_of db tab"; cases "map_of db' tab") (simp_all add: Let_def)
  qed simp_all
qed

lemma answers_exact: "sql_answers ru stmt db (sql_run ru stmt db)"
proof (cases "is_query stmt")
  case True
  have "sql_run ru stmt db = (fst (sql_run ru stmt db), db)" by (rule prod_eqI) (simp_all add: query_keeps[OF True])
  then show ?thesis using True reordered_refl[of db] unfolding sql_answers_def by auto
qed (simp add: sql_answers_def)

text \<open>
  A server runs every such statement that is shorter than its packets, and refuses one
  whose condition is missing.
\<close>

definition server_ok :: "rules \<Rightarrow> nat \<Rightarrow> (string \<Rightarrow> sql_db \<Rightarrow> result \<times> sql_db) \<Rightarrow> bool" where
  "server_ok ru packet run \<longleftrightarrow>
     (\<forall>t. equivp (same ru t)) \<and>
     (\<forall>text stmt db. length text < packet \<and> scan text = Some (stmt_tokens stmt) \<and> complete stmt \<and> good_stmt ru stmt db \<longrightarrow>
        sql_answers ru stmt db (run text db)) \<and>
     (\<forall>text stmt db. scan text = Some (stmt_tokens stmt) \<and> empty_where stmt \<longrightarrow> (\<exists>e. run text db = (Inl e, db)))"

end
