(* ===== verification/Sql_Server.thy ===== *)
theory Sql_Server
  imports Sql
begin

text \<open>
  A server that keeps \<open>server_ok\<close>: it scans and parses a text and runs the statement. The
  witnesses of the mapping to a database compute with it. It is no code of the library.
\<close>

subsection \<open>A parser\<close>

type_synonym 'a parser = "token list \<Rightarrow> ('a \<times> token list) option"

fun p_list :: "nat \<Rightarrow> 'a parser \<Rightarrow> token \<Rightarrow> 'a list parser" where
  "p_list 0 p t ts = None"
| "p_list (Suc n) p t ts =
     (case p ts of
        None \<Rightarrow> None
      | Some (x, ts) \<Rightarrow>
          (case ts of
             u # us \<Rightarrow> if u = t then map_option (apfst (Cons x)) (p_list n p t us) else Some ([x], u # us)
           | [] \<Rightarrow> Some ([x], [])))"

definition p_many :: "'a parser \<Rightarrow> token \<Rightarrow> 'a list parser" where
  "p_many p t ts = p_list (length ts) p t ts"

text \<open>\<open>p\<close> reads what \<open>tok\<close> writes, in front of a rest that \<open>R\<close> allows.\<close>

definition reads :: "(token list \<Rightarrow> bool) \<Rightarrow> 'a parser \<Rightarrow> ('a \<Rightarrow> token list) \<Rightarrow> 'a set \<Rightarrow> bool" where
  "reads R p tok A \<longleftrightarrow> (\<forall>x\<in>A. \<forall>rest. R rest \<longrightarrow> p (tok x @ rest) = Some (x, rest))"

lemma p_list_separated:
  assumes "reads R p tok A" "\<And>ts. R (t # ts)" "R rest" "rest = [] \<or> hd rest \<noteq> t"
    and "xs \<noteq> []" "set xs \<subseteq> A" "length xs \<le> n"
  shows "p_list n p t (separated t (map tok xs) @ rest) = Some (xs, rest)"
  using assms(5-)
proof (induction xs arbitrary: n)
  case (Cons x xs)
  obtain m where n: "n = Suc m" using Cons.prems(3) by (cases n) auto
  have p: "p (tok x @ r) = Some (x, r)" if "R r" for r using assms(1) Cons.prems(2) that by (simp add: reads_def)
  show ?case
  proof (cases xs)
    case Nil
    then show ?thesis using p[OF assms(3)] assms(4) by (cases rest) (simp_all add: n)
  next
    case (Cons y ys)
    have "p (tok x @ t # separated t (map tok xs) @ rest) = Some (x, t # separated t (map tok xs) @ rest)"
      using p assms(2) by blast
    then show ?thesis using Cons.IH[of m] Cons.prems Cons by (simp add: n)
  qed
qed simp

lemma length_separated1: "(\<And>x. x \<in> set xs \<Longrightarrow> f x \<noteq> []) \<Longrightarrow> length xs \<le> length (separated t (map f xs))"
proof (induction xs)
  case (Cons x xs)
  then have "f x \<noteq> []" "length xs \<le> length (separated t (map f xs))" by simp_all
  then show ?case by (cases xs; cases "f x") auto
qed simp

lemma p_many_separated:
  assumes "reads R p tok A" "\<And>ts. R (t # ts)" "R rest" "rest = [] \<or> hd rest \<noteq> t"
    and "xs \<noteq> []" "set xs \<subseteq> A" "\<And>x. x \<in> A \<Longrightarrow> tok x \<noteq> []"
  shows "p_many p t (separated t (map tok xs) @ rest) = Some (xs, rest)"
  unfolding p_many_def
proof (rule p_list_separated[OF assms(1-6)])
  have "length xs \<le> length (separated t (map tok xs))"
    using assms(6,7) by (intro length_separated1) auto
  then show "length xs \<le> length (separated t (map tok xs) @ rest)" by simp
qed


definition p_unsigned :: "(bool \<Rightarrow> sql_type) \<Rightarrow> token list \<Rightarrow> (sql_type \<times> token list) option" where
  "p_unsigned f ts = (case ts of t # us \<Rightarrow> if t = Word ''UNSIGNED'' then Some (f True, us) else Some (f False, ts)
     | [] \<Rightarrow> Some (f False, ts))"

fun p_sized :: "(string \<Rightarrow> 'a parser) \<Rightarrow> 'a parser" where
  "p_sized f (Sym a # Word n # Sym b # ts) = (if a = CHR ''('' \<and> b = CHR '')'' then f n ts else None)"
| "p_sized f _ = None"

definition p_int :: "string \<Rightarrow> (bool \<Rightarrow> sql_type) \<Rightarrow> sql_type parser" where
  "p_int w f = p_sized (\<lambda>n ts. if n = w then p_unsigned f ts else None)"

definition p_varchar :: "sql_type parser" where
  "p_varchar = p_sized (\<lambda>n ts. Some (Varchar (nat (digits_val n)), ts))"

definition plain_types :: "(string \<times> sql_type) list" where
  "plain_types = [(''BOOL'', Bool), (''FLOAT'', Float), (''DOUBLE'', Double), (''TEXT'', Text), (''BLOB'', Blob),
     (''TINYBLOB'', Tinyblob), (''MEDIUMBLOB'', Mediumblob), (''LONGBLOB'', Longblob)]"

fun p_type :: "sql_type parser" where
  "p_type (Word w # ts) =
     (if w = ''TINYINT'' then p_int ''3'' Tinyint ts
      else if w = ''SMALLINT'' then p_int ''5'' Smallint ts
      else if w = ''INT'' then p_int ''10'' Integer ts
      else if w = ''BIGINT'' then p_int ''20'' Bigint ts
      else if w = ''VARCHAR'' then p_varchar ts
      else map_option (\<lambda>t. (t, ts)) (map_of plain_types w))"
| "p_type _ = None"

fun p_default :: "string option parser" where
  "p_default (Word a # Word b # Word c # Str d # ts) =
     (if a = ''NOT'' \<and> b = ''NULL'' \<and> c = ''DEFAULT'' then Some (Some d, ts) else None)"
| "p_default ts = Some (None, ts)"

fun p_column :: "column parser" where
  "p_column (Ident n # ts) =
     (case p_type ts of
        None \<Rightarrow> None
      | Some (t, ts) \<Rightarrow> map_option (\<lambda>(d, ts). ((n, t, d), ts)) (p_default ts))"
| "p_column _ = None"

fun p_ident :: "string parser" where
  "p_ident (Ident n # ts) = Some (n, ts)"
| "p_ident _ = None"

fun p_literal :: "literal parser" where
  "p_literal (Word w # ts) = Some (Num w, ts)"
| "p_literal (Str s # ts) = Some (Txt s, ts)"
| "p_literal _ = None"

fun p_equation :: "(string \<times> literal) parser" where
  "p_equation (Ident n # Sym c # ts) = (if c = CHR ''='' then map_option (apfst (Pair n)) (p_literal ts) else None)"
| "p_equation _ = None"

text \<open>A rest that does not go on with a word or a text.\<close>

definition no_word :: "token list \<Rightarrow> bool" where
  "no_word ts \<longleftrightarrow> (case ts of Word _ # _ \<Rightarrow> False | _ \<Rightarrow> True)"

lemma no_word_simps [simp]: "no_word []" "no_word (Ident n # ts)" "no_word (Str s # ts)" "no_word (Sym c # ts)" "\<not> no_word (Word w # ts)"
  by (simp_all add: no_word_def)

lemma digits_val_decimal: "digits_val (decimal n) = int n"
proof -
  have "takeWhile is_digit (decimal n) = decimal n"
    using decimal_digits by (simp add: takeWhile_eq_all_conv)
  then show ?thesis by (simp only: digits_val_def decimal_val)
qed

text \<open>A type is read up to a token that is no \<open>UNSIGNED\<close>.\<close>

definition not_unsigned :: "token list \<Rightarrow> bool" where
  "not_unsigned ts \<longleftrightarrow> (case ts of t # _ \<Rightarrow> t \<noteq> Word ''UNSIGNED'' | [] \<Rightarrow> True)"

lemma p_unsigned_type: "not_unsigned rest \<Longrightarrow> p_unsigned f (unsigned u @ rest) = Some (f u, rest)"
  by (auto simp: p_unsigned_def unsigned_def not_unsigned_def split: list.splits)

lemma p_type_reads: "not_unsigned rest \<Longrightarrow> p_type (type_tokens t @ rest) = Some (t, rest)"
  by (cases t) (simp_all add: p_int_def p_varchar_def plain_types_def p_unsigned_type decimal_sizes digits_val_decimal)

lemma p_default_None: "no_word rest \<Longrightarrow> p_default rest = Some (None, rest)"
  by (cases rest rule: p_default.cases) auto

lemma p_column_reads: "no_word rest \<Longrightarrow> p_column (column_tokens c @ rest) = Some (c, rest)"
proof -
  assume r: "no_word rest"
  then have nu: "not_unsigned rest" by (auto simp: not_unsigned_def split: list.splits)
  obtain n t d where c: "c = (n, t, d)" by (cases c)
  show ?thesis
  proof (cases d)
    case None
    then show ?thesis using p_type_reads[OF nu, of t] p_default_None[OF r] by (simp add: c)
  next
    case (Some d)
    then show ?thesis
      using p_type_reads[of "Word ''NOT'' # Word ''NULL'' # Word ''DEFAULT'' # Str d # rest" t]
      by (simp add: c not_unsigned_def)
  qed
qed

lemma p_equation_reads: "p_equation (equation_tokens e @ rest) = Some (e, rest)"
  by (cases e; cases "snd e") auto

text \<open>The statements.\<close>

fun p_item :: "(column + string list) parser" where
  "p_item (Word p # Word k # Sym c # ts) =
     (if p = ''PRIMARY'' \<and> k = ''KEY'' \<and> c = CHR ''(''
      then (case p_many p_ident comma ts of
              Some (ks, Sym c # ts) \<Rightarrow> if c = CHR '')'' then Some (Inr ks, ts) else None
            | _ \<Rightarrow> None)
      else None)"
| "p_item ts = map_option (apfst Inl) (p_column ts)"

fun p_create :: "token list \<Rightarrow> stmt option" where
  "p_create (Word t # Ident tab # Sym c # ts) =
     (if t = ''TABLE'' \<and> c = CHR ''(''
      then (case p_many p_item comma ts of
              Some (items, [Sym c]) \<Rightarrow>
                if c = CHR '')''
                then Some (Create tab (concat (map (case_sum (\<lambda>c. [c]) (\<lambda>_. [])) items))
                                      (concat (map (case_sum (\<lambda>_. []) (\<lambda>ks. ks)) items)))
                else None
            | _ \<Rightarrow> None)
      else None)"
| "p_create _ = None"

fun p_insert :: "bool \<Rightarrow> token list \<Rightarrow> stmt option" where
  "p_insert repl (Word i # Ident tab # Sym c # ts) =
     (if i = ''INTO'' \<and> c = CHR ''(''
      then (case p_many p_ident comma ts of
              Some (cols, Sym c # Word v # Sym d # ts) \<Rightarrow>
                if c = CHR '')'' \<and> v = ''VALUES'' \<and> d = CHR ''(''
                then (case p_many p_literal comma ts of
                        Some (vals, [Sym c]) \<Rightarrow> if c = CHR '')'' then Some (Insert repl tab cols vals) else None
                      | _ \<Rightarrow> None)
                else None
            | _ \<Rightarrow> None)
      else None)"
| "p_insert _ _ = None"

fun p_conds :: "(string \<times> literal) list option parser" where
  "p_conds (Word w # ts) =
     (if w = ''WHERE'' then map_option (apfst Some) (p_many p_equation (Word ''AND'') ts) else Some (None, Word w # ts))"
| "p_conds ts = Some (None, ts)"

definition p_select :: "token list \<Rightarrow> stmt option" where
  "p_select ts =
     (case p_many p_ident comma ts of
        Some (cols, Word f # Ident tab # ts) \<Rightarrow>
          if f = ''FROM''
          then (case p_conds ts of
                  Some (conds, []) \<Rightarrow> Some (Select cols tab conds False)
                | Some (conds, [Word l, Word n]) \<Rightarrow>
                    if l = ''LIMIT'' \<and> n = ''1'' then Some (Select cols tab conds True) else None
                | _ \<Rightarrow> None)
          else None
      | _ \<Rightarrow> None)"

fun p_update :: "token list \<Rightarrow> stmt option" where
  "p_update (Ident tab # Word s # ts) =
     (if s = ''SET''
      then (case p_many p_equation comma ts of
              Some (sets, ts) \<Rightarrow> (case p_conds ts of Some (Some conds, []) \<Rightarrow> Some (Update tab sets conds) | _ \<Rightarrow> None)
            | None \<Rightarrow> None)
      else None)"
| "p_update _ = None"

fun p_delete :: "token list \<Rightarrow> stmt option" where
  "p_delete (Word f # Ident tab # ts) =
     (if f = ''FROM'' then (case p_conds ts of Some (conds, []) \<Rightarrow> Some (Delete tab conds) | _ \<Rightarrow> None) else None)"
| "p_delete _ = None"

fun p_show :: "token list \<Rightarrow> stmt option" where
  "p_show [Word t] = (if t = ''TABLES'' then Some Show_Tables else None)"
| "p_show [Word t, Word l, Str s] = (if t = ''TABLES'' \<and> l = ''LIKE'' then Some (Show_Like s) else None)"
| "p_show _ = None"

fun p_alter :: "token list \<Rightarrow> stmt option" where
  "p_alter (Word t # Ident tab # Word a # ts) =
     (if t = ''TABLE'' \<and> a = ''ADD''
      then (case p_column ts of Some (c, []) \<Rightarrow> Some (Add_Column tab c) | _ \<Rightarrow> None) else None)"
| "p_alter _ = None"

fun p_stmt :: "token list \<Rightarrow> stmt option" where
  "p_stmt (Word w # ts) =
     (if w = ''CREATE'' then p_create ts
      else if w = ''DROP'' then (case ts of [Word t, Ident tab] \<Rightarrow> if t = ''TABLE'' then Some (Drop tab) else None | _ \<Rightarrow> None)
      else if w = ''ALTER'' then p_alter ts
      else if w = ''SHOW'' then p_show ts
      else if w = ''DESC'' then (case ts of [Ident tab] \<Rightarrow> Some (Desc tab) | _ \<Rightarrow> None)
      else if w = ''INSERT'' then p_insert False ts
      else if w = ''REPLACE'' then p_insert True ts
      else if w = ''SELECT'' then p_select ts
      else if w = ''UPDATE'' then p_update ts
      else if w = ''DELETE'' then p_delete ts
      else None)"
| "p_stmt _ = None"

fun item_tokens :: "column + string list \<Rightarrow> token list" where
  "item_tokens (Inl c) = column_tokens c"
| "item_tokens (Inr ks) = [Word ''PRIMARY'', Word ''KEY'', Sym (CHR ''('')] @ idents_tokens ks @ [Sym (CHR '')'')]"

lemma reads_ident: "reads (\<lambda>_. True) p_ident (\<lambda>n. [Ident n]) UNIV"
  by (simp add: reads_def)

lemma reads_literal: "reads (\<lambda>_. True) p_literal (\<lambda>l. [literal_token l]) UNIV"
proof -
  have "p_literal (literal_token l # rest) = Some (l, rest)" for l rest by (cases l) auto
  then show ?thesis by (simp add: reads_def)
qed

lemma reads_equation: "reads (\<lambda>_. True) p_equation equation_tokens UNIV"
  by (simp add: reads_def p_equation_reads del: equation_tokens.simps)

lemma many_idents:
  "ns \<noteq> [] \<Longrightarrow> rest = [] \<or> hd rest \<noteq> comma \<Longrightarrow> p_many p_ident comma (idents_tokens ns @ rest) = Some (ns, rest)"
  unfolding idents_tokens_def by (rule p_many_separated[OF reads_ident]) auto

lemma many_literals:
  "ls \<noteq> [] \<Longrightarrow> rest = [] \<or> hd rest \<noteq> comma \<Longrightarrow>
   p_many p_literal comma (separated comma (map (\<lambda>l. [literal_token l]) ls) @ rest) = Some (ls, rest)"
  by (rule p_many_separated[OF reads_literal]) auto

lemma many_equations:
  "es \<noteq> [] \<Longrightarrow> rest = [] \<or> hd rest \<noteq> t \<Longrightarrow>
   p_many p_equation t (separated t (map equation_tokens es) @ rest) = Some (es, rest)"
  by (rule p_many_separated[OF reads_equation]) auto

lemma reads_item: "reads no_word p_item item_tokens (range Inl \<union> Inr ` {ks. ks \<noteq> []})"
proof -
  have "p_item (column_tokens c @ rest) = Some (Inl c, rest)" if "no_word rest" for c rest
  proof -
    obtain n t d where c: "c = (n, t, d)" by (cases c)
    have "p_item (column_tokens c @ rest) = map_option (apfst Inl) (p_column (column_tokens c @ rest))"
      by (simp add: c)
    then show ?thesis by (simp only: p_column_reads[OF that]) simp
  qed
  moreover have "p_item (item_tokens (Inr ks) @ rest) = Some (Inr ks, rest)" if "ks \<noteq> []" for ks rest
    using many_idents[OF that, of "Sym (CHR '')'') # rest"] by (simp add: comma_def)
  ultimately show ?thesis by (auto simp: reads_def simp del: column_tokens.simps)
qed

lemma many_items:
  assumes "cols \<noteq> []"
  shows "p_many p_item comma (separated comma (map column_tokens cols @
      (if keys = [] then [] else [[Word ''PRIMARY'', Word ''KEY'', Sym (CHR ''('')] @ idents_tokens keys @ [Sym (CHR '')'')]])) @
      [Sym (CHR '')'')]) = Some (map Inl cols @ (if keys = [] then [] else [Inr keys]), [Sym (CHR '')'')])"
proof -
  let ?items = "map Inl cols @ (if keys = [] then [] else [Inr keys])"
  have "p_many p_item comma (separated comma (map item_tokens ?items) @ [Sym (CHR '')'')]) = Some (?items, [Sym (CHR '')'')])"
  proof (rule p_many_separated[OF reads_item])
    show "item_tokens x \<noteq> []" for x by (cases x) auto
    show "set ?items \<subseteq> range Inl \<union> Inr ` {ks. ks \<noteq> []}" by auto
  qed (use assms in \<open>auto simp: comma_def\<close>)
  moreover have "map column_tokens cols @
      (if keys = [] then [] else [[Word ''PRIMARY'', Word ''KEY'', Sym (CHR ''('')] @ idents_tokens keys @ [Sym (CHR '')'')]])
      = map item_tokens ?items" by simp
  ultimately show ?thesis by (simp only:)
qed

lemma conds_reads:
  "conds \<noteq> Some [] \<Longrightarrow> rest = [] \<or> (\<exists>r. rest = Word ''LIMIT'' # r) \<Longrightarrow> p_conds (where_tokens conds @ rest) = Some (conds, rest)"
proof (cases conds)
  case (Some es)
  assume "conds \<noteq> Some []" "rest = [] \<or> (\<exists>r. rest = Word ''LIMIT'' # r)"
  then show ?thesis using many_equations[of es rest "Word ''AND''"] by (auto simp: Some)
qed auto

lemma p_many_empty: "p [] = None \<Longrightarrow> p_many p t [] = None" "p (u # us) = None \<Longrightarrow> p_many p t (u # us) = None"
  by (simp_all add: p_many_def)

lemma p_stmt_tokens: "complete s \<Longrightarrow> p_stmt (stmt_tokens s) = Some s"
proof (cases s)
  case (Create tab cols keys)
  assume "complete s"
  then have "cols \<noteq> []" by (simp add: Create)
  from many_items[OF this, of keys] show ?thesis
    by (simp add: Create comp_def del: p_item.simps)
next
  case (Add_Column tab c)
  then show ?thesis using p_column_reads[of "[]" c] by (simp del: column_tokens.simps)
next
  case (Insert r tab cols vals)
  assume "complete s"
  then show ?thesis using many_idents[of cols] many_literals[of vals "[Sym (CHR '')'')]"] by (simp add: Insert comma_def)
next
  case (Select cols tab conds one)
  assume "complete s"
  then show ?thesis using many_idents[of cols] conds_reads[of conds "if one then [Word ''LIMIT'', Word ''1''] else []"]
    by (cases one) (simp_all add: Select comma_def p_select_def)
next
  case (Update tab sets conds)
  assume "complete s"
  then show ?thesis using many_equations[of sets "where_tokens (Some conds)" comma] conds_reads[of "Some conds" "[]"]
    by (simp add: Update comma_def)
next
  case (Delete tab conds)
  assume "complete s"
  then show ?thesis using conds_reads[of conds "[]"] by (simp add: Delete)
qed simp_all

lemma p_stmt_empty_where: "empty_where s \<Longrightarrow> p_stmt (stmt_tokens s) = None"
proof (cases s)
  case (Select cols tab conds one)
  assume "empty_where s"
  then show ?thesis using many_idents[of cols]
    by (cases one) (simp_all add: Select comma_def p_select_def p_many_empty)
next
  case (Update tab sets conds)
  assume "empty_where s"
  then show ?thesis using many_equations[of sets "[Word ''WHERE'']" comma]
    by (simp add: Update comma_def p_many_empty)
next
  case (Delete tab conds)
  assume "empty_where s"
  then show ?thesis by (simp add: Delete p_many_empty)
qed simp_all

subsection \<open>The server\<close>

definition sql_server :: "rules \<Rightarrow> string \<Rightarrow> sql_db \<Rightarrow> result \<times> sql_db" where
  "sql_server ru text db =
     (case Option.bind (scan text) p_stmt of
        None \<Rightarrow> (Inl ''1064'', db)
      | Some s \<Rightarrow> sql_run ru s db)"

definition ascii_rules :: rules where
  "ascii_rules = \<lparr>same = (\<lambda>_. (=)), canon = (\<lambda>_ s. s), valid_text = (\<lambda>_. True), described = (\<lambda>_. [])\<rparr>"

lemma sql_server_ok: "(\<And>t. equivp (same ru t)) \<Longrightarrow> server_ok ru n (sql_server ru)"
  by (auto simp: server_ok_def sql_server_def p_stmt_tokens p_stmt_empty_where answers_exact)

lemma ascii_server_ok: "server_ok ascii_rules n (sql_server ascii_rules)"
  by (rule sql_server_ok) (simp add: ascii_rules_def identity_equivp)

end
