(* ===== verification/Orm.thy ===== *)
theory Orm
  imports Reflection Sql
begin

text \<open>
  \<open>common/tinyorm.h\<close> and \<open>tinyorm.cpp\<close>: the descriptors of fields and tables with the SQL they
  give, and the factory of tables.

  The texts are strings; the names of properties are bytes, and \<open>tx\<close> and \<open>text_of\<close> convert. The
  descriptors of tables are objects that the factory shares under a name and under a type:
  they are in a list, and the maps of the factory give positions in it.
\<close>

definition tx :: "string \<Rightarrow> bytes" where
  "tx s = map of_char s"

definition text_of :: "bytes \<Rightarrow> string" where
  "text_of bs = map (\<lambda>b. char_of (unat b)) bs"

subsection \<open>Fields\<close>

datatype FieldType = INT8 | INT16 | INT32 | INT64 | UINT8 | UINT16 | UINT32 | UINT64 | BOOL | FLOAT | DOUBLE
  | STRING | VCHAR | BYTES | BYTES_TINY | BYTES_MEDIUM | BYTES_LONG | OBJECT

record FieldDescriptor =
  fd_name :: string
  fd_type :: FieldType
  fd_deflt :: string
  fd_size :: u32

definition new_FieldDescriptor :: "string \<Rightarrow> FieldType \<Rightarrow> string \<Rightarrow> u64 \<Rightarrow> FieldDescriptor" where
  "new_FieldDescriptor name ty deflt sz = \<lparr>fd_name = name, fd_type = ty, fd_deflt = deflt, fd_size = ucast sz\<rparr>"

definition field_sql_type :: "FieldDescriptor \<Rightarrow> string" where
  "field_sql_type fd = (case fd_type fd of
     INT8 \<Rightarrow> ''TINYINT(3)'' | INT16 \<Rightarrow> ''SMALLINT(5)'' | INT32 \<Rightarrow> ''INT(10)'' | INT64 \<Rightarrow> ''BIGINT(20)''
   | UINT8 \<Rightarrow> ''TINYINT(3) UNSIGNED'' | UINT16 \<Rightarrow> ''SMALLINT(5) UNSIGNED''
   | UINT32 \<Rightarrow> ''INT(10) UNSIGNED'' | UINT64 \<Rightarrow> ''BIGINT(20) UNSIGNED''
   | BOOL \<Rightarrow> ''BOOL'' | FLOAT \<Rightarrow> ''FLOAT'' | DOUBLE \<Rightarrow> ''DOUBLE''
   | STRING \<Rightarrow> ''TEXT''
   | VCHAR \<Rightarrow> take 31 (''VARCHAR('' @ decimal (unat (fd_size fd)) @ '')'')
   | BYTES \<Rightarrow> ''BLOB'' | BYTES_TINY \<Rightarrow> ''TINYBLOB'' | BYTES_MEDIUM \<Rightarrow> ''MEDIUMBLOB'' | BYTES_LONG \<Rightarrow> ''LONGBLOB''
   | OBJECT \<Rightarrow> ''BLOB'')"

definition field_sql_default :: "FieldDescriptor \<Rightarrow> string" where
  "field_sql_default fd =
     (if fd_deflt fd = [] \<and>
         fd_type fd \<in> {INT8, INT16, INT32, INT64, UINT8, UINT16, UINT32, UINT64, BOOL, FLOAT, DOUBLE}
      then ''0'' else fd_deflt fd)"

definition sql_ddl :: "FieldDescriptor \<Rightarrow> string" where
  "sql_ddl fd = in_backquotes (fd_name fd) @ '' '' @ field_sql_type fd @
     (if fd_type fd \<in> {STRING, BYTES, BYTES_TINY, BYTES_MEDIUM, BYTES_LONG, OBJECT} then []
      else '' NOT NULL DEFAULT '' @ in_quotes (field_sql_default fd))"

subsection \<open>Tables\<close>

record TableDescriptorBase =
  table :: string
  table_keys :: "FieldDescriptor list"
  table_indexs :: "FieldDescriptor list"
  fields_ordered :: "FieldDescriptor list"
  fields_by_name :: "string \<Rightarrow> FieldDescriptor option"

record ('t, 'v) TableDescriptor = TableDescriptorBase +
  reflection :: "('t, 'v) struct"

text \<open>The loops that put a separator between their elements.\<close>

fun joined :: "string \<Rightarrow> string list \<Rightarrow> string" where
  "joined sep [] = []"
| "joined sep [x] = x"
| "joined sep (x # y # xs) = x @ sep @ joined sep (y # xs)"

definition sql_create :: "('t, 'v) TableDescriptor \<Rightarrow> string" where
  "sql_create td = ''CREATE TABLE '' @ in_backquotes (table td) @ '' ('' @
     (if table_keys td \<noteq> [] then
        concat (map (\<lambda>fd. sql_ddl fd @ '', '') (fields_ordered td)) @
        ''PRIMARY KEY('' @ joined '','' (map (\<lambda>fd. in_backquotes (fd_name fd)) (table_keys td)) @ '')''
      else joined '', '' (map sql_ddl (fields_ordered td))) @ '')''"

definition sql_drop :: "('t, 'v) TableDescriptor \<Rightarrow> string" where
  "sql_drop td = ''DROP TABLE '' @ in_backquotes (table td)"

definition getFieldDescriptor :: "string \<Rightarrow> ('t, 'v) TableDescriptor \<Rightarrow> FieldDescriptor option" where
  "getFieldDescriptor name td = fields_by_name td name"

definition sql_addfield :: "string \<Rightarrow> ('t, 'v) TableDescriptor \<Rightarrow> string" where
  "sql_addfield name td =
     (case getFieldDescriptor name td of
        Some fd \<Rightarrow> ''ALTER TABLE '' @ in_backquotes (table td) @ '' ADD '' @ sql_ddl fd
      | None \<Rightarrow> [])"

definition sql_fieldlist :: "('t, 'v) TableDescriptor \<Rightarrow> string" where
  "sql_fieldlist td = joined '','' (map (\<lambda>fd. in_backquotes (fd_name fd)) (fields_ordered td))"

definition sql_fieldlist2 :: "('t, 'v) TableDescriptor \<Rightarrow> string" where
  "sql_fieldlist2 td = joined '','' (map (\<lambda>fd. '':'' @ fd_name fd) (fields_ordered td))"

definition base_field :: "string \<Rightarrow> FieldType \<Rightarrow> string \<Rightarrow> u64 \<Rightarrow> ('t, 'v) TableDescriptor \<Rightarrow> ('t, 'v) TableDescriptor" where
  "base_field name ty deflt sz td =
     (let fd = new_FieldDescriptor name ty deflt sz
      in td\<lparr>fields_by_name := (fields_by_name td)(name \<mapsto> fd), fields_ordered := fields_ordered td @ [fd]\<rparr>)"

definition key :: "string \<Rightarrow> ('t, 'v) TableDescriptor \<Rightarrow> ('t, 'v) TableDescriptor" where
  "key name td = (case getFieldDescriptor name td of Some fd \<Rightarrow> td\<lparr>table_keys := table_keys td @ [fd]\<rparr> | None \<Rightarrow> td)"

definition keys :: "string list \<Rightarrow> ('t, 'v) TableDescriptor \<Rightarrow> ('t, 'v) TableDescriptor" where
  "keys names td = foldl (\<lambda>td name. key name td) td names"

definition index :: "string \<Rightarrow> ('t, 'v) TableDescriptor \<Rightarrow> ('t, 'v) TableDescriptor" where
  "index name td = (case getFieldDescriptor name td of Some fd \<Rightarrow> td\<lparr>table_indexs := table_indexs td @ [fd]\<rparr> | None \<Rightarrow> td)"

definition indexs :: "string list \<Rightarrow> ('t, 'v) TableDescriptor \<Rightarrow> ('t, 'v) TableDescriptor" where
  "indexs names td = foldl (\<lambda>td name. index name td) td names"

definition new_TableDescriptor :: "string \<Rightarrow> ('t, 'v) TableDescriptor" where
  "new_TableDescriptor name = \<lparr>table = name, table_keys = [], table_indexs = [], fields_ordered = [], fields_by_name = Map.empty,
     reflection = Struct (tx name) 0\<rparr>"

text \<open>
  \<open>field\<close> of a \<open>TableDescriptor<T>\<close>: \<open>prop name id\<close> is the property made from the pointer to the
  member and the serializer.
\<close>

definition field :: "(bytes \<Rightarrow> u16 \<Rightarrow> ('t, 'v) property) \<Rightarrow> string \<Rightarrow> FieldType \<Rightarrow> string \<Rightarrow> u64
    \<Rightarrow> ('t, 'v) TableDescriptor \<Rightarrow> ('t, 'v) TableDescriptor" where
  "field prop name ty deflt sz td =
     base_field name ty deflt sz (td\<lparr>reflection := add_property (prop (tx name) 0) (reflection td)\<rparr>)"

subsection \<open>The factory\<close>

record ('t, 'v) TableFactory =
  descriptors :: "('t, 'v) TableDescriptor list"
  tables_byname :: "(string \<times> nat) list"
  tables_bytype :: "string \<Rightarrow> nat option"

definition new_TableFactory :: "('t, 'v) TableFactory" where
  "new_TableFactory = \<lparr>descriptors = [], tables_byname = [], tables_bytype = Map.empty\<rparr>"

text \<open>\<open>map[k] = v\<close>; a new key goes to some place in the order of the iteration, here to the end.\<close>

fun assoc_set :: "'k \<Rightarrow> 'a \<Rightarrow> ('k \<times> 'a) list \<Rightarrow> ('k \<times> 'a) list" where
  "assoc_set k v [] = [(k, v)]"
| "assoc_set k v ((k', v') # kvs) = (if k = k' then (k, v) # kvs else (k', v') # assoc_set k v kvs)"

definition factory_table :: "string \<Rightarrow> string \<Rightarrow> ('t, 'v) TableFactory \<Rightarrow> nat \<times> ('t, 'v) TableFactory" where
  "factory_table type_name name fac =
     (let i = length (descriptors fac)
      in (i, fac\<lparr>descriptors := descriptors fac @ [new_TableDescriptor name],
                 tables_byname := assoc_set name i (tables_byname fac),
                 tables_bytype := (tables_bytype fac)(type_name \<mapsto> i)\<rparr>))"

definition tableByName :: "string \<Rightarrow> ('t, 'v) TableFactory \<Rightarrow> ('t, 'v) TableDescriptor option" where
  "tableByName name fac = map_option ((!) (descriptors fac)) (map_of (tables_byname fac) name)"

definition tableByType :: "string \<Rightarrow> ('t, 'v) TableFactory \<Rightarrow> ('t, 'v) TableDescriptor option" where
  "tableByType type_name fac = map_option ((!) (descriptors fac)) (tables_bytype fac type_name)"

definition tables :: "('t, 'v) TableFactory \<Rightarrow> (string \<times> ('t, 'v) TableDescriptor) list" where
  "tables fac = map (\<lambda>(n, i). (n, descriptors fac ! i)) (tables_byname fac)"

text \<open>A call on the descriptor that \<open>table\<close> has returned.\<close>

definition on_descriptor :: "nat \<Rightarrow> (('t, 'v) TableDescriptor \<Rightarrow> ('t, 'v) TableDescriptor)
    \<Rightarrow> ('t, 'v) TableFactory \<Rightarrow> ('t, 'v) TableFactory" where
  "on_descriptor i f fac = fac\<lparr>descriptors := (descriptors fac)[i := f (descriptors fac ! i)]\<rparr>"


subsection \<open>The statements as a server reads them\<close>

fun abs_type :: "FieldType \<Rightarrow> u32 \<Rightarrow> sql_type" where
  "abs_type INT8 _ = Tinyint False" | "abs_type INT16 _ = Smallint False"
| "abs_type INT32 _ = Integer False" | "abs_type INT64 _ = Bigint False"
| "abs_type UINT8 _ = Tinyint True" | "abs_type UINT16 _ = Smallint True"
| "abs_type UINT32 _ = Integer True" | "abs_type UINT64 _ = Bigint True"
| "abs_type BOOL _ = Bool" | "abs_type FLOAT _ = Float" | "abs_type DOUBLE _ = Double"
| "abs_type STRING _ = Text" | "abs_type VCHAR n = Varchar (unat n)"
| "abs_type BYTES _ = Blob" | "abs_type BYTES_TINY _ = Tinyblob" | "abs_type BYTES_MEDIUM _ = Mediumblob"
| "abs_type BYTES_LONG _ = Longblob" | "abs_type OBJECT _ = Blob"

definition fd_sql_type :: "FieldDescriptor \<Rightarrow> sql_type" where
  "fd_sql_type fd = abs_type (fd_type fd) (fd_size fd)"

definition column_of :: "FieldDescriptor \<Rightarrow> column" where
  "column_of fd = (fd_name fd, fd_sql_type fd, if is_blob (fd_sql_type fd) then None else Some (field_sql_default fd))"

text \<open>Names and default values that need no escape: the code writes them as they are.\<close>

definition plain_field :: "FieldDescriptor \<Rightarrow> bool" where
  "plain_field fd \<longleftrightarrow> backquote \<notin> set (fd_name fd) \<and> quote_char \<notin> set (fd_deflt fd) \<and> backslash \<notin> set (fd_deflt fd)"

definition plain_table :: "('t, 'v) TableDescriptor \<Rightarrow> bool" where
  "plain_table td \<longleftrightarrow> backquote \<notin> set (table td) \<and> list_all plain_field (fields_ordered td) \<and>
     list_all plain_field (table_keys td) \<and> (\<forall>n fd. fields_by_name td n = Some fd \<longrightarrow> plain_field fd)"

lemma separates_simps [simp]:
  "separates []" "separates (CHR '' '' # s)" "separates (CHR '','' # s)" "separates (CHR '')'' # s)"
  by (simp_all add: separates_def is_word_def special_chars)

lemma closed_constant:
  "closed ''TINYINT(3) '' (sized ''TINYINT'' 3)" "closed ''TINYINT(3)'' (sized ''TINYINT'' 3)"
  "closed ''SMALLINT(5) '' (sized ''SMALLINT'' 5)" "closed ''SMALLINT(5)'' (sized ''SMALLINT'' 5)"
  "closed ''INT(10) '' (sized ''INT'' 10)" "closed ''INT(10)'' (sized ''INT'' 10)"
  "closed ''BIGINT(20) '' (sized ''BIGINT'' 20)" "closed ''BIGINT(20)'' (sized ''BIGINT'' 20)"
  "closed ''VARCHAR('' [Word ''VARCHAR'', Sym (CHR ''('')]"
  "closed '')'' [Sym (CHR '')'')]" "closed '','' [comma]" "closed '', '' [comma]"
  by (simp_all add: closed_def scan.simps is_word_def special_chars decimal_sizes comma_def map_option_Cons)

lemma decimal_digit: "c \<in> set (decimal n) \<Longrightarrow> c \<in> set ''0123456789''"
proof -
  assume "c \<in> set (decimal n)"
  then have "of_char c \<in> {48..57::nat}" using decimal_digits by (auto simp: is_digit_def less_eq_char_def)
  then have "of_char c \<in> set [48..<58::nat]" by (simp only: set_upt) auto
  then have "c \<in> set (map char_of [48..<58::nat])" by (metis char_of_char image_eqI set_map)
  then show ?thesis by (simp add: upt_rec char_of_def bit_Suc_0_iff)
qed

lemma list_all_word_decimal: "list_all is_word (decimal n)"
  using decimal_digit by (fastforce simp: list_all_iff is_word_def)

lemma decimal_not_Nil: "decimal n \<noteq> []"
  by (simp add: decimal.simps)

lemma lexes_decimal: "lexes (decimal n) [Word (decimal n)]"
  by (rule lexes_word[OF decimal_not_Nil list_all_word_decimal])

lemma length_decimal: "0 < k \<Longrightarrow> n < 10 ^ k \<Longrightarrow> length (decimal n) \<le> k"
proof (induction k arbitrary: n)
  case (Suc k)
  show ?case
  proof (cases "n < 10")
    case False
    then have "0 < k" using Suc.prems by (cases k) simp_all
    moreover have "n div 10 < 10 ^ k" using Suc.prems by (simp add: less_mult_imp_div_less)
    ultimately show ?thesis using Suc.IH False by (subst decimal.simps) simp
  qed (simp add: decimal.simps)
qed simp

lemma lexes_keyword:
  "lexes ''UNSIGNED'' [Word ''UNSIGNED'']" "lexes ''BOOL'' [Word ''BOOL'']" "lexes ''FLOAT'' [Word ''FLOAT'']"
  "lexes ''DOUBLE'' [Word ''DOUBLE'']" "lexes ''TEXT'' [Word ''TEXT'']" "lexes ''BLOB'' [Word ''BLOB'']"
  "lexes ''TINYBLOB'' [Word ''TINYBLOB'']" "lexes ''MEDIUMBLOB'' [Word ''MEDIUMBLOB'']" "lexes ''LONGBLOB'' [Word ''LONGBLOB'']"
  by (rule lexes_word; simp add: is_word_def)+

lemma lexes_unsigned:
  "lexes ''TINYINT(3) UNSIGNED'' (sized ''TINYINT'' 3 @ [Word ''UNSIGNED''])"
  "lexes ''SMALLINT(5) UNSIGNED'' (sized ''SMALLINT'' 5 @ [Word ''UNSIGNED''])"
  "lexes ''INT(10) UNSIGNED'' (sized ''INT'' 10 @ [Word ''UNSIGNED''])"
  "lexes ''BIGINT(20) UNSIGNED'' (sized ''BIGINT'' 20 @ [Word ''UNSIGNED''])"
  using closed_constant(1,3,5,7)[THEN closed_lexes_append, OF lexes_keyword(1)] by simp_all

lemma lexes_varchar:
  fixes w :: u32
  shows "lexes (take 31 (''VARCHAR('' @ decimal (unat w) @ '')'')) (sized ''VARCHAR'' (unat w))"
proof -
  have "unat w < 10 ^ 10" using unsigned_less[of w, where 'a = nat] by simp
  then have "length (decimal (unat w)) \<le> 10" by (intro length_decimal) simp_all
  then have t: "take 31 (''VARCHAR('' @ decimal (unat w) @ '')'') = ''VARCHAR('' @ decimal (unat w) @ '')''" by simp
  have "closed (decimal (unat w) @ '')'') ([Word (decimal (unat w))] @ [Sym (CHR '')'')])"
    by (rule lexes_append_closed[OF lexes_decimal _ _ closed_constant(10)]) simp_all
  from closed_append[OF closed_constant(9) this] show ?thesis unfolding t by (simp add: closed_lexes)
qed

lemma lexes_type: "lexes (field_sql_type fd) (type_tokens (fd_sql_type fd))"
  by (cases "fd_type fd")
    (simp_all add: field_sql_type_def fd_sql_type_def unsigned_def closed_constant[THEN closed_lexes]
      lexes_unsigned lexes_keyword lexes_varchar del: sized.simps take_append take_Suc_Cons append_Cons)

lemma is_blob_fd: "is_blob (fd_sql_type fd) \<longleftrightarrow> fd_type fd \<in> {STRING, BYTES, BYTES_TINY, BYTES_MEDIUM, BYTES_LONG, OBJECT}"
  by (cases "fd_type fd") (simp_all add: is_blob_def fd_sql_type_def)

lemma plain_default: "plain_field fd \<Longrightarrow> quote_char \<notin> set (field_sql_default fd) \<and> backslash \<notin> set (field_sql_default fd)"
  by (auto simp: plain_field_def field_sql_default_def special_chars)

lemma closed_not_null: "closed '' NOT NULL DEFAULT '' [Word ''NOT'', Word ''NULL'', Word ''DEFAULT'']"
  by (simp add: closed_def scan.simps is_word_def special_chars map_option_Cons)

text \<open>A text in front of a space, a closing bracket or a comma.\<close>

lemma lexes_then: "lexes a ts \<Longrightarrow> closed (c # b) us \<Longrightarrow> separates (c # b) \<Longrightarrow> closed (a @ c # b) (ts @ us)"
  by (rule lexes_append_closed) simp_all

lemma lexes_ddl: "plain_field fd \<Longrightarrow> lexes (sql_ddl fd) (column_tokens (column_of fd))"
proof -
  assume p: "plain_field fd"
  have "lexes (in_backquotes (fd_name fd)) [Ident (fd_name fd)]"
    using p by (simp add: lexes_ident plain_field_def)
  from lexes_then[OF this closed_space] have n: "closed (in_backquotes (fd_name fd) @ '' '') [Ident (fd_name fd)]"
    by simp
  have d: "lexes (in_quotes (field_sql_default fd)) [Str (field_sql_default fd)]"
    using plain_default[OF p] by (intro lexes_str) simp_all
  have "lexes (field_sql_type fd @ '' NOT NULL DEFAULT '' @ in_quotes (field_sql_default fd))
      (type_tokens (fd_sql_type fd) @ [Word ''NOT'', Word ''NULL'', Word ''DEFAULT'', Str (field_sql_default fd)])"
    using lexes_append[OF lexes_type _ closed_lexes_append[OF closed_not_null d], of fd] by simp
  from closed_lexes_append[OF n this] closed_lexes_append[OF n lexes_type[of fd]]
  show ?thesis by (simp add: sql_ddl_def column_of_def is_blob_fd)
qed

lemma lexes_joined:
  assumes "\<And>x. x \<in> set xs \<Longrightarrow> lexes (f x) (g x)" "closed sep [t]" "separates sep" "sep \<noteq> []"
  shows "lexes (joined sep (map f xs)) (separated t (map g xs))"
  using assms(1)
proof (induction xs)
  case Nil
  then show ?case by (simp add: closed_lexes closed_Nil)
next
  case (Cons x xs)
  show ?case
  proof (cases xs)
    case (Cons y ys)
    have "separates (sep @ joined sep (map f xs))"
      using assms(3,4) by (intro separates_append) simp_all
    then have "lexes (f x @ sep @ joined sep (map f xs)) (g x @ [t] @ separated t (map g xs))"
      using Cons.prems Cons.IH by (intro lexes_append closed_lexes_append[OF assms(2)]) simp_all
    then show ?thesis by (simp add: Cons)
  qed (use Cons.prems in simp)
qed

lemma lexes_names:
  "list_all plain_field fds \<Longrightarrow> lexes (joined '','' (map (\<lambda>fd. in_backquotes (fd_name fd)) fds)) (idents_tokens (map fd_name fds))"
  using lexes_joined[OF _ closed_constant(11), of fds "\<lambda>fd. in_backquotes (fd_name fd)" "\<lambda>fd. [Ident (fd_name fd)]"]
  by (simp add: idents_tokens_def comp_def list_all_iff plain_field_def lexes_ident)

lemma separated_suffix: "separated t (xs @ [y]) = concat (map (\<lambda>x. x @ [t]) xs) @ y"
proof (induction xs)
  case (Cons x xs)
  then show ?case by (cases xs) simp_all
qed simp

lemma closed_fields:
  "list_all plain_field fds \<Longrightarrow>
   closed (concat (map (\<lambda>fd. sql_ddl fd @ '', '') fds)) (concat (map (\<lambda>ts. ts @ [comma]) (map (\<lambda>fd. column_tokens (column_of fd)) fds)))"
proof (induction fds)
  case (Cons fd fds)
  have "closed (sql_ddl fd @ '', '') (column_tokens (column_of fd) @ [comma])"
    using Cons.prems lexes_ddl by (intro lexes_then closed_constant(12)) simp_all
  from closed_append[OF this Cons.IH] Cons.prems show ?case by simp
qed (simp add: closed_Nil)

lemma closed_statement:
  "closed ''CREATE TABLE '' [Word ''CREATE'', Word ''TABLE'']" "closed '' ('' [Sym (CHR ''('')]"
  "closed ''PRIMARY KEY('' [Word ''PRIMARY'', Word ''KEY'', Sym (CHR ''('')]"
  "closed ''DROP TABLE '' [Word ''DROP'', Word ''TABLE'']" "closed ''ALTER TABLE '' [Word ''ALTER'', Word ''TABLE'']"
  "closed '' ADD '' [Word ''ADD'']"
  by (simp_all add: closed_def scan.simps is_word_def special_chars map_option_Cons)

lemma closed_bracket: "lexes s ts \<Longrightarrow> closed (s @ '')'') (ts @ [Sym (CHR '')'')])"
  by (rule lexes_then[OF _ closed_constant(10)]) simp_all

lemma ddl_texts:
  assumes "plain_table td" "fields_ordered td \<noteq> []"
  shows "scan (sql_create td) = Some (stmt_tokens
      (Create (table td) (map column_of (fields_ordered td)) (map fd_name (table_keys td)))) \<and>
    scan (sql_drop td) = Some (stmt_tokens (Drop (table td))) \<and>
    (\<forall>fd. getFieldDescriptor n td = Some fd \<longrightarrow>
       scan (sql_addfield n td) = Some (stmt_tokens (Add_Column (table td) (column_of fd))))"
proof -
  have p: "backquote \<notin> set (table td)" "list_all plain_field (fields_ordered td)" "list_all plain_field (table_keys td)"
    using assms(1) by (simp_all add: plain_table_def)
  note n = lexes_ident[OF p(1)]
  let ?cols = "map (\<lambda>fd. column_tokens (column_of fd)) (fields_ordered td)"
  have plain: "plain_field fd" if "fd \<in> set (fields_ordered td)" for fd using p(2) that by (simp add: list_all_iff)
  have open_: "closed (''CREATE TABLE '' @ in_backquotes (table td) @ '' ('')
      [Word ''CREATE'', Word ''TABLE'', Ident (table td), Sym (CHR ''('')]"
    using closed_append[OF closed_statement(1) lexes_then[OF n closed_statement(2)]] by simp
  have "lexes (sql_create td) ([Word ''CREATE'', Word ''TABLE'', Ident (table td), Sym (CHR ''('')] @
     separated comma (?cols @ (if map fd_name (table_keys td) = [] then []
       else [[Word ''PRIMARY'', Word ''KEY'', Sym (CHR ''('')] @ idents_tokens (map fd_name (table_keys td)) @ [Sym (CHR '')'')]])) @
     [Sym (CHR '')'')])"
  proof (cases "table_keys td = []")
    case True
    have "lexes (joined '', '' (map sql_ddl (fields_ordered td))) (separated comma ?cols)"
      using plain lexes_ddl by (intro lexes_joined closed_constant(12)) simp_all
    from closed_append[OF open_ closed_bracket[OF this]] show ?thesis
      by (simp add: sql_create_def True closed_lexes)
  next
    case False
    have "closed (''PRIMARY KEY('' @ joined '','' (map (\<lambda>fd. in_backquotes (fd_name fd)) (table_keys td)) @ '')'')
        ([Word ''PRIMARY'', Word ''KEY'', Sym (CHR ''('')] @ idents_tokens (map fd_name (table_keys td)) @ [Sym (CHR '')'')])"
      by (rule closed_append[OF closed_statement(3) closed_bracket[OF lexes_names[OF p(3)]]])
    from closed_append[OF open_ closed_append[OF closed_fields[OF p(2)] closed_append[OF this closed_constant(10)]]]
    show ?thesis using False by (simp add: sql_create_def separated_suffix closed_lexes)
  qed
  then have c: "scan (sql_create td) = Some (stmt_tokens
      (Create (table td) (map column_of (fields_ordered td)) (map fd_name (table_keys td))))"
    by (intro lexes_lex) (simp add: comp_def)
  have d: "scan (sql_drop td) = Some (stmt_tokens (Drop (table td)))"
    using closed_lexes_append[OF closed_statement(4) n] by (intro lexes_lex) (simp add: sql_drop_def)
  have "scan (sql_addfield n td) = Some (stmt_tokens (Add_Column (table td) (column_of fd)))"
    if "getFieldDescriptor n td = Some fd" for fd
  proof -
    have "plain_field fd" using assms(1) that by (simp add: plain_table_def getFieldDescriptor_def)
    from closed_lexes_append[OF closed_append[OF closed_statement(5) lexes_then[OF n closed_statement(6)]] lexes_ddl[OF this]]
    show ?thesis using that by (intro lexes_lex) (simp add: sql_addfield_def del: column_tokens.simps)
  qed
  with c d show ?thesis by blast
qed

text \<open>
  The texts of a descriptor whose names and defaults need no escape are the statements they are
  meant to be: \<open>sql_create\<close> creates the table with one column per field, in their order, and
  the keys as its primary key; \<open>sql_drop\<close> drops it and \<open>sql_addfield\<close> adds one column.
\<close>

theorem ddl_statements:
  assumes "plain_table td" "fields_ordered td \<noteq> []"
  shows "scan (sql_create td) = Some (stmt_tokens
      (Create (table td) (map column_of (fields_ordered td)) (map fd_name (table_keys td)))) \<and>
    scan (sql_drop td) = Some (stmt_tokens (Drop (table td))) \<and>
    (\<forall>fd. getFieldDescriptor n td = Some fd \<longrightarrow>
       scan (sql_addfield n td) = Some (stmt_tokens (Add_Column (table td) (column_of fd))))"
  using assms by (rule ddl_texts)

definition id_field :: "(nat, nat) TableDescriptor \<Rightarrow> (nat, nat) TableDescriptor" where
  "id_field = field (\<lambda>n i. Property_T n i 1 (\<lambda>v. v) (\<lambda>v. v) (\<lambda>v. v) (\<lambda>v _. v) (DummySerializer 0)) ''id'' UINT32 [] 0"

theorem ddl_statements_witness:
  "scan (sql_create (key ''id'' (id_field (new_TableDescriptor ''t'')))) =
     Some (stmt_tokens (Create ''t'' [(''id'', Integer True, Some ''0'')] [''id'']))"
proof -
  let ?fd = "\<lparr>fd_name = ''id'', fd_type = UINT32, fd_deflt = [], fd_size = 0\<rparr>"
  let ?td = "key ''id'' (id_field (new_TableDescriptor ''t''))"
  have td: "table ?td = ''t''" "fields_ordered ?td = [?fd]" "table_keys ?td = [?fd]" "fields_by_name ?td = [''id'' \<mapsto> ?fd]"
    by (simp_all add: key_def id_field_def field_def base_field_def new_TableDescriptor_def new_FieldDescriptor_def getFieldDescriptor_def Let_def)
  have "plain_table ?td" by (simp add: plain_table_def td plain_field_def special_chars)
  from ddl_statements[OF this, of "''id''"] show ?thesis
    by (simp add: td column_of_def is_blob_def fd_sql_type_def field_sql_default_def del: stmt_tokens.simps)
qed

end
