(* ===== verification/Orm_Mysql.thy ===== *)
theory Orm_Mysql
  imports Orm
begin

text \<open>
  \<open>common/tinyorm_mysql.h\<close> and \<open>tinyorm_mysql.in.h\<close>: the class \<open>TinyMySqlORM\<close>, which keeps objects
  in the tables of a MySQL server.

  MySQL++ and the server are the parameter \<open>my\<close>: the manipulator \<open>quote\<close>, the output of a
  floating-point number on a query, the conversions of a cell (\<open>mysqlpp::String\<close>), and what
  \<open>store()\<close> and \<open>execute()\<close> of a query do to the database \<open>'db\<close>. An exception is a left value or
  \<open>None\<close>; the methods catch it and return false. A member of an object is a value of
  \<open>field_value\<close>, behind the reflection of the table. A pointer to a descriptor that may be null
  is an option. Formatted arguments (\<open>clause, ...\<close>) are their formatted text.

  What the theorems rely on is \<open>mysql_ok\<close>: MySQL++ as it is documented, over a server that keeps
  \<open>server_ok\<close>.
\<close>

subsection \<open>MySQL++\<close>

datatype ('d, 'o) field_value = VInt int | VBool bool | VReal 'd | VText bytes | VObject 'o

record ('d, 'o, 'db) mysqlpp =
  quote :: "string \<Rightarrow> string"
  show_real :: "'d \<Rightarrow> string"
  conv :: "FieldType \<Rightarrow> cell \<Rightarrow> ('d, 'o) field_value option"
  cell_text :: "cell \<Rightarrow> string"
  store :: "string \<Rightarrow> 'db \<Rightarrow> (string + cell list list option) \<times> 'db"
  execute :: "string \<Rightarrow> 'db \<Rightarrow> (string + bool) \<times> 'db"

text \<open>The type identifiers of the C++ types that \<open>get\<close> and \<open>set\<close> are instantiated with.\<close>

definition typeid_of :: "FieldType \<Rightarrow> typeid" where
  "typeid_of ty = (case ty of INT8 \<Rightarrow> 1 | INT16 \<Rightarrow> 2 | INT32 \<Rightarrow> 3 | INT64 \<Rightarrow> 4
     | UINT8 \<Rightarrow> 5 | UINT16 \<Rightarrow> 6 | UINT32 \<Rightarrow> 7 | UINT64 \<Rightarrow> 8 | BOOL \<Rightarrow> 9 | FLOAT \<Rightarrow> 10 | DOUBLE \<Rightarrow> 11
     | OBJECT \<Rightarrow> 0 | _ \<Rightarrow> 12)"

definition is_text :: "FieldType \<Rightarrow> bool" where
  "is_text ty \<longleftrightarrow> ty \<in> {STRING, VCHAR, BYTES, BYTES_TINY, BYTES_MEDIUM, BYTES_LONG}"

definition default_value :: "FieldType \<Rightarrow> ('d::zero, 'o) field_value" where
  "default_value ty = (if is_text ty then VText [] else if ty = BOOL then VBool False
     else if ty \<in> {FLOAT, DOUBLE} then VReal 0 else VInt 0)"

subsection \<open>From objects to statements\<close>

fun print_value :: "('d, 'o, 'db) mysqlpp \<Rightarrow> ('d, 'o) field_value \<Rightarrow> string" where
  "print_value my (VInt i) = int_decimal i"
| "print_value my (VBool b) = (if b then ''1'' else ''0'')"
| "print_value my (VReal x) = show_real my x"
| "print_value my (VText bs) = quote my (text_of bs)"
| "print_value my (VObject _) = []"

definition get_member :: "('t, ('d::zero, 'o) field_value) TableDescriptor \<Rightarrow> 't \<Rightarrow> FieldDescriptor \<Rightarrow> ('d, 'o) field_value option" where
  "get_member td obj fd =
     struct_get (typeid_of (fd_type fd)) (default_value (fd_type fd)) obj (tx (fd_name fd)) (reflection td)"

definition fieldToQuery :: "('d::zero, 'o, 'db) mysqlpp \<Rightarrow> ('t, ('d, 'o) field_value) TableDescriptor \<Rightarrow> 't
    \<Rightarrow> FieldDescriptor \<Rightarrow> (string \<times> bool) option" where
  "fieldToQuery my td obj fd =
     (if fd_type fd = OBJECT
      then (case propertyByName (tx (fd_name fd)) (reflection td) of
              Some pd \<Rightarrow> (case prop_serialize pd obj of
                  Inr bin \<Rightarrow> Some (quote my (text_of bin), bin \<noteq> [])
                | Inl _ \<Rightarrow> None)
            | None \<Rightarrow> Some (quote my [], False))
      else map_option (\<lambda>v. (print_value my v, True)) (get_member td obj fd))"

text \<open>The loops over the fields, which end with the first exception.\<close>

definition makeValueList :: "('d::zero, 'o, 'db) mysqlpp \<Rightarrow> ('t, ('d, 'o) field_value) TableDescriptor \<Rightarrow> 't
    \<Rightarrow> FieldDescriptor list \<Rightarrow> string option" where
  "makeValueList my td obj fds =
     map_option (joined '','') (those (map (\<lambda>fd. map_option fst (fieldToQuery my td obj fd)) fds))"

definition makeKeyValueList :: "('d::zero, 'o, 'db) mysqlpp \<Rightarrow> ('t, ('d, 'o) field_value) TableDescriptor \<Rightarrow> 't
    \<Rightarrow> FieldDescriptor list \<Rightarrow> string \<Rightarrow> string option" where
  "makeKeyValueList my td obj fds sep =
     map_option (joined sep) (those (map (\<lambda>fd. map_option
       (\<lambda>(text, _). in_backquotes (fd_name fd) @ ''='' @ text) (fieldToQuery my td obj fd)) fds))"

text \<open>
  The five queries: \<open>None\<close> is an exception, otherwise the returned value and the text. A null
  descriptor is looked up.
\<close>

definition descriptor_or :: "('t, 'v) TableDescriptor option \<Rightarrow> string \<Rightarrow> ('t, 'v) TableFactory \<Rightarrow> ('t, 'v) TableDescriptor option" where
  "descriptor_or td ty fac = (case td of Some td \<Rightarrow> Some td | None \<Rightarrow> tableByType ty fac)"

definition makeSelectQuery :: "('d::zero, 'o, 'db) mysqlpp \<Rightarrow> string \<Rightarrow> ('t, ('d, 'o) field_value) TableFactory
    \<Rightarrow> ('t, ('d, 'o) field_value) TableDescriptor option \<Rightarrow> 't \<Rightarrow> (bool \<times> string) option" where
  "makeSelectQuery my ty fac td obj =
     (case descriptor_or td ty fac of
        None \<Rightarrow> Some (False, [])
      | Some td \<Rightarrow> map_option (\<lambda>kvs. (True, ''SELECT '' @ sql_fieldlist td @ '' FROM '' @ in_backquotes (table td) @ '' WHERE '' @ kvs))
          (makeKeyValueList my td obj (table_keys td) '' AND ''))"

definition makeInsertQuery :: "('d::zero, 'o, 'db) mysqlpp \<Rightarrow> string \<Rightarrow> ('t, ('d, 'o) field_value) TableFactory
    \<Rightarrow> ('t, ('d, 'o) field_value) TableDescriptor option \<Rightarrow> 't \<Rightarrow> (bool \<times> string) option" where
  "makeInsertQuery my ty fac td obj =
     (case descriptor_or td ty fac of
        None \<Rightarrow> Some (False, [])
      | Some td \<Rightarrow> map_option (\<lambda>vs. (True, ''INSERT INTO '' @ in_backquotes (table td) @ ''('' @ sql_fieldlist td @ '')'' @ '' VALUES ('' @ vs @ '')''))
          (makeValueList my td obj (fields_ordered td)))"

definition makeReplaceQuery :: "('d::zero, 'o, 'db) mysqlpp \<Rightarrow> string \<Rightarrow> ('t, ('d, 'o) field_value) TableFactory
    \<Rightarrow> ('t, ('d, 'o) field_value) TableDescriptor option \<Rightarrow> 't \<Rightarrow> (bool \<times> string) option" where
  "makeReplaceQuery my ty fac td obj =
     (case descriptor_or td ty fac of
        None \<Rightarrow> Some (False, [])
      | Some td \<Rightarrow> map_option (\<lambda>vs. (True, ''REPLACE INTO '' @ in_backquotes (table td) @ ''('' @ sql_fieldlist td @ '')'' @ '' VALUES ('' @ vs @ '')''))
          (makeValueList my td obj (fields_ordered td)))"

definition makeUpdateQuery :: "('d::zero, 'o, 'db) mysqlpp \<Rightarrow> string \<Rightarrow> ('t, ('d, 'o) field_value) TableFactory
    \<Rightarrow> ('t, ('d, 'o) field_value) TableDescriptor option \<Rightarrow> 't \<Rightarrow> (bool \<times> string) option" where
  "makeUpdateQuery my ty fac td obj =
     (case descriptor_or td ty fac of
        None \<Rightarrow> Some (False, [])
      | Some td \<Rightarrow>
          (case makeKeyValueList my td obj (fields_ordered td) '','' of
             None \<Rightarrow> None
           | Some sets \<Rightarrow> map_option (\<lambda>kvs. (True, ''UPDATE '' @ in_backquotes (table td) @ '' SET '' @ sets @ '' WHERE '' @ kvs))
               (makeKeyValueList my td obj (table_keys td) '' AND '')))"

definition makeDeleteQuery :: "('d::zero, 'o, 'db) mysqlpp \<Rightarrow> string \<Rightarrow> ('t, ('d, 'o) field_value) TableFactory
    \<Rightarrow> ('t, ('d, 'o) field_value) TableDescriptor option \<Rightarrow> 't \<Rightarrow> (bool \<times> string) option" where
  "makeDeleteQuery my ty fac td obj =
     (case descriptor_or td ty fac of
        None \<Rightarrow> Some (False, [])
      | Some td \<Rightarrow> map_option (\<lambda>kvs. (True, ''DELETE FROM '' @ in_backquotes (table td) @ '' WHERE '' @ kvs))
          (makeKeyValueList my td obj (table_keys td) '' AND ''))"

subsection \<open>From rows to objects\<close>

text \<open>
  The loop over the fields: the value returned, \<open>None\<close> when an exception leaves it, and the
  object with the members set so far. A member that is \<open>NULL\<close> or empty sets \<open>ret\<close> to true,
  whatever it was.
\<close>

fun record_loop :: "('d::zero, 'o, 'db) mysqlpp \<Rightarrow> ('t, ('d, 'o) field_value) TableDescriptor \<Rightarrow> bool
    \<Rightarrow> (FieldDescriptor \<times> cell) list \<Rightarrow> 't \<Rightarrow> bool option \<times> 't" where
  "record_loop my td ret [] obj = (Some ret, obj)"
| "record_loop my td ret ((fd, c) # fcs) obj =
     (if fd_type fd = OBJECT
      then (case propertyByName (tx (fd_name fd)) (reflection td) of
              None \<Rightarrow> record_loop my td False fcs obj
            | Some prop \<Rightarrow>
                if c = None \<or> c = Some [] then record_loop my td True fcs obj
                else (case prop_deserialize prop obj (tx (cell_text my c)) of
                        Inl _ \<Rightarrow> (None, obj)
                      | Inr (r, obj) \<Rightarrow> record_loop my td (if r then ret else False) fcs obj))
      else (case (if is_text (fd_type fd) then Some (VText (tx (cell_text my c))) else conv my (fd_type fd) c) of
              None \<Rightarrow> (None, obj)
            | Some v \<Rightarrow>
                (case struct_set (typeid_of (fd_type fd)) obj (tx (fd_name fd)) v (reflection td) of
                   None \<Rightarrow> (None, obj)
                 | Some obj \<Rightarrow> record_loop my td ret fcs obj)))"

definition recordToObject :: "('d::zero, 'o, 'db) mysqlpp \<Rightarrow> ('t, ('d, 'o) field_value) TableDescriptor
    \<Rightarrow> cell list \<Rightarrow> 't \<Rightarrow> bool option \<times> 't" where
  "recordToObject my td record obj =
     (if length record < length (fields_ordered td) then (Some False, obj)
      else record_loop my td True (zip (fields_ordered td) record) obj)"

subsection \<open>Operations on an object\<close>

definition select :: "('d::zero, 'o, 'db) mysqlpp \<Rightarrow> string \<Rightarrow> ('t, ('d, 'o) field_value) TableFactory \<Rightarrow> 't \<Rightarrow> 'db \<Rightarrow> (bool \<times> 't) \<times> 'db" where
  "select my ty fac obj db =
     (case tableByType ty fac of
        None \<Rightarrow> ((False, obj), db)
      | Some td \<Rightarrow>
          (case makeSelectQuery my ty fac (Some td) obj of
             None \<Rightarrow> ((False, obj), db)
           | Some (_, sql) \<Rightarrow>
               (case store my (sql @ '' LIMIT 1'') db of
                  (Inr (Some res), db) \<Rightarrow>
                    if length res = 1
                    then (case recordToObject my td (res ! 0) obj of (r, obj) \<Rightarrow> ((r = Some True, obj), db))
                    else ((False, obj), db)
                | (_, db) \<Rightarrow> ((False, obj), db))))"

text \<open>The common end of the operations that return no row.\<close>

definition run_query :: "('d, 'o, 'db) mysqlpp \<Rightarrow> (bool \<times> string) option \<Rightarrow> 'db \<Rightarrow> bool \<times> 'db" where
  "run_query my sql db =
     (case sql of
        None \<Rightarrow> (False, db)
      | Some (_, text) \<Rightarrow> (case execute my text db of (r, db) \<Rightarrow> (r = Inr True, db)))"

definition insert_obj :: "('d::zero, 'o, 'db) mysqlpp \<Rightarrow> string \<Rightarrow> ('t, ('d, 'o) field_value) TableFactory \<Rightarrow> 't \<Rightarrow> 'db \<Rightarrow> bool \<times> 'db" where
  "insert_obj my ty fac obj db =
     (case tableByType ty fac of None \<Rightarrow> (False, db) | Some td \<Rightarrow> run_query my (makeInsertQuery my ty fac (Some td) obj) db)"

definition replace :: "('d::zero, 'o, 'db) mysqlpp \<Rightarrow> string \<Rightarrow> ('t, ('d, 'o) field_value) TableFactory \<Rightarrow> 't \<Rightarrow> 'db \<Rightarrow> bool \<times> 'db" where
  "replace my ty fac obj db =
     (case tableByType ty fac of None \<Rightarrow> (False, db) | Some td \<Rightarrow> run_query my (makeReplaceQuery my ty fac (Some td) obj) db)"

definition update_obj :: "('d::zero, 'o, 'db) mysqlpp \<Rightarrow> string \<Rightarrow> ('t, ('d, 'o) field_value) TableFactory \<Rightarrow> 't \<Rightarrow> 'db \<Rightarrow> bool \<times> 'db" where
  "update_obj my ty fac obj db =
     (case tableByType ty fac of None \<Rightarrow> (False, db) | Some td \<Rightarrow> run_query my (makeUpdateQuery my ty fac (Some td) obj) db)"

definition del :: "('d::zero, 'o, 'db) mysqlpp \<Rightarrow> string \<Rightarrow> ('t, ('d, 'o) field_value) TableFactory \<Rightarrow> 't \<Rightarrow> 'db \<Rightarrow> bool \<times> 'db" where
  "del my ty fac obj db =
     (case tableByType ty fac of None \<Rightarrow> (False, db) | Some td \<Rightarrow> run_query my (makeDeleteQuery my ty fac (Some td) obj) db)"

subsection \<open>Loading and deleting many\<close>

text \<open>\<open>char statement[1024]\<close> and \<open>vsnprintf\<close>: the text up to a NUL, cut to 1023 bytes.\<close>

definition statement :: "string option \<Rightarrow> string" where
  "statement clause = (case clause of None \<Rightarrow> [] | Some s \<Rightarrow> take 1023 (c_str s))"

text \<open>The loop over the rows; \<open>fresh\<close> is a new object, the callback acts on a state.\<close>

fun load_loop :: "('d::zero, 'o, 'db) mysqlpp \<Rightarrow> ('t, ('d, 'o) field_value) TableDescriptor \<Rightarrow> 't \<Rightarrow> ('t \<Rightarrow> 's \<Rightarrow> 's)
    \<Rightarrow> cell list list \<Rightarrow> 's \<Rightarrow> bool \<times> 's" where
  "load_loop my td fresh callback [] s = (True, s)"
| "load_loop my td fresh callback (row # more_rows) s =
     (case recordToObject my td row fresh of
        (None, _) \<Rightarrow> (False, s)
      | (Some True, obj) \<Rightarrow> load_loop my td fresh callback more_rows (callback obj s)
      | (Some False, _) \<Rightarrow> load_loop my td fresh callback more_rows s)"

definition vloadFromDB :: "('d::zero, 'o, 'db) mysqlpp \<Rightarrow> string \<Rightarrow> ('t, ('d, 'o) field_value) TableFactory \<Rightarrow> 't \<Rightarrow> ('t \<Rightarrow> 's \<Rightarrow> 's)
    \<Rightarrow> string option \<Rightarrow> 's \<Rightarrow> 'db \<Rightarrow> (bool \<times> 's) \<times> 'db" where
  "vloadFromDB my ty fac fresh callback clause s db =
     (case tableByType ty fac of
        None \<Rightarrow> ((False, s), db)
      | Some td \<Rightarrow>
          (case store my (''SELECT '' @ sql_fieldlist td @ '' FROM '' @ in_backquotes (table td) @ '' '' @ statement clause) db of
             (Inr (Some res), db) \<Rightarrow> (load_loop my td fresh callback res s, db)
           | (_, db) \<Rightarrow> ((False, s), db)))"

definition loadFromDB_callback :: "('d::zero, 'o, 'db) mysqlpp \<Rightarrow> string \<Rightarrow> ('t, ('d, 'o) field_value) TableFactory \<Rightarrow> 't \<Rightarrow> ('t \<Rightarrow> 's \<Rightarrow> 's)
    \<Rightarrow> string option \<Rightarrow> 's \<Rightarrow> 'db \<Rightarrow> (bool \<times> 's) \<times> 'db" where
  "loadFromDB_callback my ty fac fresh callback clause s db = vloadFromDB my ty fac fresh callback clause s db"

definition loadFromDB :: "('d::zero, 'o, 'db) mysqlpp \<Rightarrow> string \<Rightarrow> ('t, ('d, 'o) field_value) TableFactory \<Rightarrow> 't
    \<Rightarrow> string option \<Rightarrow> 't list \<Rightarrow> 'db \<Rightarrow> (bool \<times> 't list) \<times> 'db" where
  "loadFromDB my ty fac fresh clause records db = vloadFromDB my ty fac fresh (\<lambda>r rs. rs @ [r]) clause records db"

definition loadFromDB_set :: "('t \<Rightarrow> 's \<Rightarrow> 's) \<Rightarrow> ('d::zero, 'o, 'db) mysqlpp \<Rightarrow> string \<Rightarrow> ('t, ('d, 'o) field_value) TableFactory \<Rightarrow> 't
    \<Rightarrow> string option \<Rightarrow> 's \<Rightarrow> 'db \<Rightarrow> (bool \<times> 's) \<times> 'db" where
  "loadFromDB_set ins my ty fac fresh clause records db = vloadFromDB my ty fac fresh ins clause records db"

definition loadFromDB2MultiIndexSet :: "('t \<Rightarrow> 's \<Rightarrow> 's) \<Rightarrow> ('d::zero, 'o, 'db) mysqlpp \<Rightarrow> string \<Rightarrow> ('t, ('d, 'o) field_value) TableFactory \<Rightarrow> 't
    \<Rightarrow> string option \<Rightarrow> 's \<Rightarrow> 'db \<Rightarrow> (bool \<times> 's) \<times> 'db" where
  "loadFromDB2MultiIndexSet ins my ty fac fresh clause records db = vloadFromDB my ty fac fresh ins clause records db"

definition deleteFromDB :: "('d, 'o, 'db) mysqlpp \<Rightarrow> string \<Rightarrow> ('t, ('d, 'o) field_value) TableFactory \<Rightarrow> string option \<Rightarrow> 'db \<Rightarrow> bool \<times> 'db" where
  "deleteFromDB my ty fac clause db =
     (case tableByType ty fac of
        None \<Rightarrow> (False, db)
      | Some td \<Rightarrow> run_query my (Some (True, ''DELETE FROM '' @ in_backquotes (table td) @ '' '' @ statement clause)) db)"

subsection \<open>The structure of tables\<close>

definition createTable :: "('d, 'o, 'db) mysqlpp \<Rightarrow> ('t, ('d, 'o) field_value) TableDescriptor \<Rightarrow> 'db \<Rightarrow> bool \<times> 'db" where
  "createTable my td db = (case execute my (sql_create td) db of (r, db) \<Rightarrow> (r = Inr True, db))"

definition dropTable :: "('d, 'o, 'db) mysqlpp \<Rightarrow> ('t, ('d, 'o) field_value) TableDescriptor \<Rightarrow> 'db \<Rightarrow> bool \<times> 'db" where
  "dropTable my td db = (case execute my (sql_drop td) db of (r, db) \<Rightarrow> (r = Inr True, db))"

text \<open>A field the table does not have is added; an exception ends the loop.\<close>

fun add_fields :: "('d, 'o, 'db) mysqlpp \<Rightarrow> ('t, ('d, 'o) field_value) TableDescriptor \<Rightarrow> string set \<Rightarrow> FieldDescriptor list \<Rightarrow> 'db \<Rightarrow> bool \<times> 'db" where
  "add_fields my td fields_db [] db = (True, db)"
| "add_fields my td fields_db (fd # fds) db =
     (if fd_name fd \<in> fields_db then add_fields my td fields_db fds db
      else (case execute my (sql_addfield (fd_name fd) td) db of
              (Inl _, db) \<Rightarrow> (False, db)
            | (Inr _, db) \<Rightarrow> add_fields my td fields_db fds db))"

definition first_texts :: "('d, 'o, 'db) mysqlpp \<Rightarrow> cell list list option \<Rightarrow> string set" where
  "first_texts my res = (case res of None \<Rightarrow> {} | Some rs \<Rightarrow> (\<lambda>row. cell_text my (row ! 0)) ` set (takeWhile (\<lambda>row. row \<noteq> []) rs))"

definition at_throws :: "cell list list option \<Rightarrow> bool" where
  "at_throws res = (case res of None \<Rightarrow> False | Some rs \<Rightarrow> [] \<in> set rs)"

definition updateExistTable :: "('d, 'o, 'db) mysqlpp \<Rightarrow> ('t, ('d, 'o) field_value) TableDescriptor \<Rightarrow> 'db \<Rightarrow> bool \<times> 'db" where
  "updateExistTable my td db =
     (case store my (''DESC '' @ in_backquotes (table td)) db of
        (Inl _, db) \<Rightarrow> (False, db)
      | (Inr res, db) \<Rightarrow>
          if at_throws res then (False, db)
          else add_fields my td (first_texts my res) (fields_ordered td) db)"

definition updateTable :: "('d, 'o, 'db) mysqlpp \<Rightarrow> ('t, ('d, 'o) field_value) TableDescriptor \<Rightarrow> 'db \<Rightarrow> bool \<times> 'db" where
  "updateTable my td db =
     (case store my (''SHOW TABLES LIKE '' @ quote my (table td)) db of
        (Inr (Some res), db) \<Rightarrow>
          (True, snd (if 0 < length res then updateExistTable my td db else createTable my td db))
      | (_, db) \<Rightarrow> (False, db))"

text \<open>The same by type and by name.\<close>

definition by_descriptor :: "(('t, 'v) TableDescriptor \<Rightarrow> 'db \<Rightarrow> bool \<times> 'db) \<Rightarrow> ('t, 'v) TableDescriptor option \<Rightarrow> 'db \<Rightarrow> bool \<times> 'db" where
  "by_descriptor f td db = (case td of None \<Rightarrow> (False, db) | Some td \<Rightarrow> f td db)"

definition createTableByType :: "('d, 'o, 'db) mysqlpp \<Rightarrow> string \<Rightarrow> ('t, ('d, 'o) field_value) TableFactory \<Rightarrow> 'db \<Rightarrow> bool \<times> 'db" where
  "createTableByType my ty fac = by_descriptor (createTable my) (tableByType ty fac)"

definition createTableByName :: "('d, 'o, 'db) mysqlpp \<Rightarrow> string \<Rightarrow> ('t, ('d, 'o) field_value) TableFactory \<Rightarrow> 'db \<Rightarrow> bool \<times> 'db" where
  "createTableByName my name fac = by_descriptor (createTable my) (tableByName name fac)"

definition dropTableByType :: "('d, 'o, 'db) mysqlpp \<Rightarrow> string \<Rightarrow> ('t, ('d, 'o) field_value) TableFactory \<Rightarrow> 'db \<Rightarrow> bool \<times> 'db" where
  "dropTableByType my ty fac = by_descriptor (dropTable my) (tableByType ty fac)"

definition dropTableByName :: "('d, 'o, 'db) mysqlpp \<Rightarrow> string \<Rightarrow> ('t, ('d, 'o) field_value) TableFactory \<Rightarrow> 'db \<Rightarrow> bool \<times> 'db" where
  "dropTableByName my name fac = by_descriptor (dropTable my) (tableByName name fac)"

definition updateTableByType :: "('d, 'o, 'db) mysqlpp \<Rightarrow> string \<Rightarrow> ('t, ('d, 'o) field_value) TableFactory \<Rightarrow> 'db \<Rightarrow> bool \<times> 'db" where
  "updateTableByType my ty fac = by_descriptor (updateTable my) (tableByType ty fac)"

definition updateTableByName :: "('d, 'o, 'db) mysqlpp \<Rightarrow> string \<Rightarrow> ('t, ('d, 'o) field_value) TableFactory \<Rightarrow> 'db \<Rightarrow> bool \<times> 'db" where
  "updateTableByName my name fac = by_descriptor (updateTable my) (tableByName name fac)"

text \<open>The names of all tables, in upper case.\<close>

definition showTables :: "('d, 'o, 'db) mysqlpp \<Rightarrow> string set \<Rightarrow> 'db \<Rightarrow> (bool \<times> string set) \<times> 'db" where
  "showTables my tabs db =
     (case store my ''SHOW TABLES'' db of
        (Inl _, db) \<Rightarrow> ((False, tabs), db)
      | (Inr res, db) \<Rightarrow>
          ((\<not> at_throws res, tabs \<union> upper ` first_texts my res), db))"

fun update_loop :: "('d, 'o, 'db) mysqlpp \<Rightarrow> ('t, ('d, 'o) field_value) TableFactory \<Rightarrow> string set
    \<Rightarrow> (string \<times> ('t, ('d, 'o) field_value) TableDescriptor) list \<Rightarrow> 'db \<Rightarrow> 'db" where
  "update_loop my fac tabs [] db = db"
| "update_loop my fac tabs ((_, td) # tds) db =
     update_loop my fac tabs tds
       (snd (if table td \<notin> tabs then createTableByName my (table td) fac db else updateExistTable my td db))"

definition updateTables :: "('d, 'o, 'db) mysqlpp \<Rightarrow> ('t, ('d, 'o) field_value) TableFactory \<Rightarrow> 'db \<Rightarrow> bool \<times> 'db" where
  "updateTables my fac db =
     (case showTables my {} db of
        ((True, tabs), db) \<Rightarrow> (True, update_loop my fac tabs (tables fac) db)
      | ((False, _), db) \<Rightarrow> (False, db))"

end
