(* ===== verification/Orm_Crud.thy ===== *)
theory Orm_Crud
  imports Orm_Mysql Sql_Server
begin

text \<open>
  What \<open>TinyMySqlORM\<close> does to the database: the texts it sends are the statements they are meant
  to be, whatever the members hold; and over a server that keeps \<open>server_ok\<close>, objects come
  back from their table.

  The locale \<open>orm_class\<close> is the contract of a class with its table: its members can be read
  and set through the reflection.
\<close>

subsection \<open>What is relied on\<close>

definition mysql_ok :: "rules \<Rightarrow> nat \<Rightarrow> ('d, 'o, sql_db) mysqlpp \<Rightarrow> bool" where
  "mysql_ok ru packet my \<longleftrightarrow>
     (\<exists>run. server_ok ru packet run \<and>
        (\<forall>text db. store my text db = (case run text db of (Inl e, db) \<Rightarrow> (Inl e, db) | (Inr rs, db) \<Rightarrow> (Inr (Some rs), db))) \<and>
        (\<forall>text db. execute my text db = (case run text db of (Inl e, db) \<Rightarrow> (Inl e, db) | (Inr rs, db) \<Rightarrow> (Inr True, db)))) \<and>
     (\<forall>s. lexes (quote my s) [Str s]) \<and>
     (\<forall>x. show_real my x \<noteq> [] \<and> list_all is_word (show_real my x)) \<and>
     (\<forall>s. cell_text my (Some s) = s) \<and>
     (\<forall>ty i lo hi. ty \<noteq> BOOL \<and> int_range (abs_type ty 0) = Some (lo, hi) \<and> lo \<le> i \<and> i < hi \<longrightarrow>
        conv my ty (Some (int_decimal i)) = Some (VInt i)) \<and>
     (\<forall>b. conv my BOOL (Some (if b then ''1'' else ''0'')) = Some (VBool b))"

fun value_literal :: "('d, 'o, 'db) mysqlpp \<Rightarrow> ('d, 'o) field_value \<Rightarrow> literal" where
  "value_literal my (VText bs) = Txt (text_of bs)"
| "value_literal my v = Num (print_value my v)"

definition has_type :: "FieldType \<Rightarrow> ('d, 'o) field_value \<Rightarrow> bool" where
  "has_type ty v = (case v of
     VInt i \<Rightarrow> ty \<noteq> BOOL \<and> (case int_range (abs_type ty 0) of Some (lo, hi) \<Rightarrow> lo \<le> i \<and> i < hi | None \<Rightarrow> False)
   | VBool b \<Rightarrow> ty = BOOL
   | VReal x \<Rightarrow> ty \<in> {FLOAT, DOUBLE}
   | VText bs \<Rightarrow> is_text ty
   | VObject _ \<Rightarrow> False)"

definition member :: "('t, ('d, 'o) field_value) TableDescriptor \<Rightarrow> FieldDescriptor \<Rightarrow> 't \<Rightarrow> ('d, 'o) field_value any option" where
  "member td fd obj = map_option (\<lambda>p. prop_get p obj) (propertyByName (tx (fd_name fd)) (reflection td))"

definition member_literal :: "('d::zero, 'o, 'db) mysqlpp \<Rightarrow> ('t, ('d, 'o) field_value) TableDescriptor \<Rightarrow> 't \<Rightarrow> FieldDescriptor \<Rightarrow> literal" where
  "member_literal my td obj fd =
     (if fd_type fd = OBJECT
      then (case propertyByName (tx (fd_name fd)) (reflection td) of
              Some p \<Rightarrow> (case prop_serialize p obj of Inr bin \<Rightarrow> Txt (text_of bin) | Inl _ \<Rightarrow> Txt [])
            | None \<Rightarrow> Txt [])
      else (case get_member td obj fd of Some v \<Rightarrow> value_literal my v | None \<Rightarrow> Num []))"

lemma unat_of_char: "unat (of_char c :: u8) = of_char c"
proof -
  have "unat (of_nat (of_char c) :: u8) = of_char c"
    using nat_of_char_less_256[of c] by (simp add: unat_of_nat del: of_nat_of_char)
  then show ?thesis by (simp only: of_nat_of_char)
qed

lemma of_char_byte: "of_char (char_of (unat b)) = (b :: u8)"
proof -
  have "unat b < 256" using unsigned_less[of b, where 'a = nat] by simp
  then have "(of_nat (of_char (char_of (unat b) :: char)) :: u8) = b" by (simp del: of_nat_of_char)
  then show ?thesis by (simp only: of_nat_of_char)
qed

lemma text_of_tx [simp]: "text_of (tx s) = s"
  by (simp add: text_of_def tx_def map_idI unat_of_char)

lemma tx_text_of [simp]: "tx (text_of bs) = bs"
  by (simp add: text_of_def tx_def map_idI of_char_byte)

lemma tx_inject [simp]: "tx a = tx b \<longleftrightarrow> a = b"
  by (metis text_of_tx)

lemma int_val_decimal [simp]: "int_val (int_decimal i) = i"
proof (cases "i < 0")
  case False
  obtain c cs where d: "decimal (nat i) = c # cs" using decimal_not_Nil by (cases "decimal (nat i)") auto
  then have "c \<in> set (decimal (nat i))" by simp
  from decimal_digit[OF this] have "c \<noteq> CHR ''-''" by auto
  then show ?thesis using False d digits_val_decimal[of "nat i"] by (simp add: int_val_def int_decimal_def)
qed (simp add: int_val_def int_decimal_def digits_val_decimal)

lemma int_decimal_word: "int_decimal i \<noteq> [] \<and> list_all is_word (int_decimal i)"
  using list_all_word_decimal decimal_not_Nil by (simp add: int_decimal_def is_word_def)

subsection \<open>Values\<close>

lemma lexes_value:
  assumes "mysql_ok ru packet my" "has_type ty v"
  shows "lexes (print_value my v) [literal_token (value_literal my v)]"
proof (cases v)
  case (VInt i)
  then show ?thesis using int_decimal_word lexes_word by simp
next
  case (VBool b)
  then show ?thesis by (auto intro!: lexes_word simp: is_word_def)
next
  case (VReal x)
  then show ?thesis using assms(1) by (simp add: mysql_ok_def lexes_word)
next
  case (VText bs)
  then show ?thesis using assms(1) by (simp add: mysql_ok_def)
next
  case (VObject x)
  then show ?thesis using assms(2) by (simp add: has_type_def)
qed

definition shown :: "('d::zero, 'o, 'db) mysqlpp \<Rightarrow> ('t, ('d, 'o) field_value) TableDescriptor \<Rightarrow> 't \<Rightarrow> FieldDescriptor \<Rightarrow> string" where
  "shown my td obj fd = fst (the (fieldToQuery my td obj fd))"

lemma those_eq_Some: "(\<And>x. x \<in> set xs \<Longrightarrow> f x = Some (g x)) \<Longrightarrow> those (map f xs) = Some (map g xs)"
  by (induction xs) simp_all

subsection \<open>The contract of a class with a table\<close>

text \<open>
  \<open>blank fd old\<close>: a member that is an object is as in a fresh object; \<open>storable fd obj\<close>: its
  serializer round-trips it; what serializes to nothing is as in a fresh object.
\<close>

locale orm_class =
  fixes td :: "('t, ('d::zero, 'o) field_value) TableDescriptor"
    and blank storable :: "FieldDescriptor \<Rightarrow> 't \<Rightarrow> bool"
  assumes known: "fd \<in> set (fields_ordered td) \<Longrightarrow> \<exists>p. propertyByName (tx (fd_name fd)) (reflection td) = Some p"
    and typed: "fd \<in> set (fields_ordered td) \<Longrightarrow> fd_type fd \<noteq> OBJECT \<Longrightarrow>
      \<exists>v. member td fd obj = Some (typeid_of (fd_type fd), v) \<and> has_type (fd_type fd) v"
    and settable: "fd \<in> set (fields_ordered td) \<Longrightarrow> fd_type fd \<noteq> OBJECT \<Longrightarrow> has_type (fd_type fd) v \<Longrightarrow>
      \<exists>obj'. struct_set (typeid_of (fd_type fd)) obj (tx (fd_name fd)) v (reflection td) = Some obj' \<and>
        member td fd obj' = Some (typeid_of (fd_type fd), v) \<and>
        (\<forall>fd'\<in>set (fields_ordered td). fd_name fd' \<noteq> fd_name fd \<longrightarrow> member td fd' obj' = member td fd' obj)"
    and serialized: "fd \<in> set (fields_ordered td) \<Longrightarrow> fd_type fd = OBJECT \<Longrightarrow>
      propertyByName (tx (fd_name fd)) (reflection td) = Some p \<Longrightarrow> \<exists>bin. prop_serialize p obj = Inr bin"
    and deserialized: "fd \<in> set (fields_ordered td) \<Longrightarrow> fd_type fd = OBJECT \<Longrightarrow>
      propertyByName (tx (fd_name fd)) (reflection td) = Some p \<Longrightarrow> storable fd obj \<Longrightarrow> prop_serialize p obj = Inr bin \<Longrightarrow>
      blank fd old \<Longrightarrow>
      if bin = [] then member td fd old = member td fd obj
      else (\<exists>obj'. prop_deserialize p old bin = Inr (True, obj') \<and>
        member td fd obj' = member td fd obj \<and>
        (\<forall>fd'\<in>set (fields_ordered td). fd_name fd' \<noteq> fd_name fd \<longrightarrow> member td fd' obj' = member td fd' old))"
    and blank_member: "member td fd o1 = member td fd o2 \<Longrightarrow> blank fd o1 = blank fd o2"
begin

lemma get_member_typed:
  assumes "fd \<in> set (fields_ordered td)" "fd_type fd \<noteq> OBJECT"
  shows "\<exists>v. get_member td obj fd = Some v \<and> has_type (fd_type fd) v \<and> member td fd obj = Some (typeid_of (fd_type fd), v)"
proof -
  obtain v where v: "member td fd obj = Some (typeid_of (fd_type fd), v)" "has_type (fd_type fd) v"
    using typed[OF assms] by blast
  then have "get_member td obj fd = Some v" by (auto simp: get_member_def struct_get_def member_def)
  with v show ?thesis by blast
qed

lemma field_text:
  assumes "mysql_ok ru packet my" "fd \<in> set (fields_ordered td)"
  shows "\<exists>text ok. fieldToQuery my td obj fd = Some (text, ok) \<and> lexes text [literal_token (member_literal my td obj fd)]"
proof (cases "fd_type fd = OBJECT")
  case True
  then obtain p bin where "propertyByName (tx (fd_name fd)) (reflection td) = Some p" "prop_serialize p obj = Inr bin"
    using known serialized assms(2) by blast
  then show ?thesis using True assms(1) by (simp add: fieldToQuery_def member_literal_def mysql_ok_def)
next
  case False
  then obtain v where "get_member td obj fd = Some v" "has_type (fd_type fd) v" using get_member_typed assms(2) by blast
  then show ?thesis using False lexes_value[OF assms(1)] by (auto simp: fieldToQuery_def member_literal_def)
qed

lemma field_shown:
  assumes "mysql_ok ru packet my" "fd \<in> set (fields_ordered td)"
  shows "\<exists>ok. fieldToQuery my td obj fd = Some (shown my td obj fd, ok)"
    and "lexes (shown my td obj fd) [literal_token (member_literal my td obj fd)]"
  using field_text[OF assms, of obj] by (auto simp: shown_def)

text \<open>The texts of the loops.\<close>

lemma value_list_text:
  assumes "mysql_ok ru packet my" "set fds \<subseteq> set (fields_ordered td)"
  shows "\<exists>text. makeValueList my td obj fds = Some text \<and>
    lexes text (separated comma (map (\<lambda>l. [literal_token l]) (map (member_literal my td obj) fds)))"
proof -
  let ?f = "shown my td obj"
  have f: "\<exists>ok. fieldToQuery my td obj fd = Some (?f fd, ok)" "lexes (?f fd) [literal_token (member_literal my td obj fd)]"
    if "fd \<in> set fds" for fd using field_shown[OF assms(1)] that assms(2) by blast+
  have "those (map (\<lambda>fd. map_option fst (fieldToQuery my td obj fd)) fds) = Some (map ?f fds)"
    using f(1) by (intro those_eq_Some) force
  moreover have "lexes (joined '','' (map ?f fds)) (separated comma (map (\<lambda>fd. [literal_token (member_literal my td obj fd)]) fds))"
    using f(2) by (intro lexes_joined closed_constant(11)) simp_all
  ultimately show ?thesis by (simp add: makeValueList_def comp_def)
qed

lemma key_value_text:
  assumes "mysql_ok ru packet my" "set fds \<subseteq> set (fields_ordered td)" "list_all plain_field fds"
    and "closed sep [t]" "separates sep" "sep \<noteq> []"
  shows "\<exists>text. makeKeyValueList my td obj fds sep = Some text \<and>
    lexes text (separated t (map equation_tokens (map (\<lambda>fd. (fd_name fd, member_literal my td obj fd)) fds)))"
proof -
  let ?f = "shown my td obj"
  have f: "\<exists>ok. fieldToQuery my td obj fd = Some (?f fd, ok)" "lexes (?f fd) [literal_token (member_literal my td obj fd)]"
    if "fd \<in> set fds" for fd using field_shown[OF assms(1)] that assms(2) by blast+
  let ?eq = "\<lambda>fd. in_backquotes (fd_name fd) @ ''='' @ ?f fd"
  have "map_option (\<lambda>(text, _). in_backquotes (fd_name fd) @ ''='' @ text) (fieldToQuery my td obj fd) = Some (?eq fd)"
    if "fd \<in> set fds" for fd using f(1)[OF that] by auto
  then have "those (map (\<lambda>fd. map_option (\<lambda>(text, _). in_backquotes (fd_name fd) @ ''='' @ text) (fieldToQuery my td obj fd)) fds)
      = Some (map ?eq fds)" by (intro those_eq_Some) simp
  moreover have "lexes (?eq fd) (equation_tokens (fd_name fd, member_literal my td obj fd))" if "fd \<in> set fds" for fd
  proof -
    have "closed ''='' [Sym (CHR ''='')]" by (simp add: closed_def scan.simps is_word_def special_chars)
    moreover have "plain_field fd" using assms(3) that by (simp add: list_all_iff)
    then have "lexes (in_backquotes (fd_name fd)) [Ident (fd_name fd)]" by (simp add: lexes_ident plain_field_def)
    moreover have "separates ''=''" by (simp add: separates_def is_word_def special_chars)
    ultimately have "closed (in_backquotes (fd_name fd) @ ''='') [Ident (fd_name fd), Sym (CHR ''='')]"
      using lexes_append_closed by fastforce
    from closed_lexes_append[OF this f(2)[OF that]] show ?thesis by simp
  qed
  then have "lexes (joined sep (map ?eq fds)) (separated t (map (\<lambda>fd. equation_tokens (fd_name fd, member_literal my td obj fd)) fds))"
    using assms(4-) by (intro lexes_joined) auto
  ultimately show ?thesis by (simp add: makeKeyValueList_def comp_def)
qed

end

subsection \<open>The statements of an object\<close>

definition equations :: "('d::zero, 'o, 'db) mysqlpp \<Rightarrow> ('t, ('d, 'o) field_value) TableDescriptor \<Rightarrow> 't \<Rightarrow> FieldDescriptor list
    \<Rightarrow> (string \<times> literal) list" where
  "equations my td obj fds = map (\<lambda>fd. (fd_name fd, member_literal my td obj fd)) fds"

definition select_stmt :: "('d::zero, 'o, 'db) mysqlpp \<Rightarrow> ('t, ('d, 'o) field_value) TableDescriptor \<Rightarrow> 't \<Rightarrow> stmt" where
  "select_stmt my td obj = Select (map fd_name (fields_ordered td)) (table td) (Some (equations my td obj (table_keys td))) True"

definition insert_stmt :: "bool \<Rightarrow> ('d::zero, 'o, 'db) mysqlpp \<Rightarrow> ('t, ('d, 'o) field_value) TableDescriptor \<Rightarrow> 't \<Rightarrow> stmt" where
  "insert_stmt repl my td obj =
     Insert repl (table td) (map fd_name (fields_ordered td)) (map (member_literal my td obj) (fields_ordered td))"

definition update_stmt :: "('d::zero, 'o, 'db) mysqlpp \<Rightarrow> ('t, ('d, 'o) field_value) TableDescriptor \<Rightarrow> 't \<Rightarrow> stmt" where
  "update_stmt my td obj = Update (table td) (equations my td obj (fields_ordered td)) (equations my td obj (table_keys td))"

definition delete_stmt :: "('d::zero, 'o, 'db) mysqlpp \<Rightarrow> ('t, ('d, 'o) field_value) TableDescriptor \<Rightarrow> 't \<Rightarrow> stmt" where
  "delete_stmt my td obj = Delete (table td) (Some (equations my td obj (table_keys td)))"

lemma closed_query:
  "closed ''SELECT '' [Word ''SELECT'']" "closed '' FROM '' [Word ''FROM'']" "closed '' WHERE '' [Word ''WHERE'']"
  "closed ''INSERT INTO '' [Word ''INSERT'', Word ''INTO'']" "closed ''REPLACE INTO '' [Word ''REPLACE'', Word ''INTO'']"
  "closed ''('' [Sym (CHR ''('')]" "closed '')'' [Sym (CHR '')'')]" "closed '' VALUES ('' [Word ''VALUES'', Sym (CHR ''('')]"
  "closed ''UPDATE '' [Word ''UPDATE'']" "closed '' SET '' [Word ''SET'']" "closed ''DELETE FROM '' [Word ''DELETE'', Word ''FROM'']"
  "closed '' AND '' [Word ''AND'']" "closed '' LIMIT '' [Word ''LIMIT'']"
  "closed ''DESC '' [Word ''DESC'']" "closed ''SHOW TABLES LIKE '' [Word ''SHOW'', Word ''TABLES'', Word ''LIKE'']"
  by (simp_all add: closed_def scan.simps is_word_def special_chars map_option_Cons)

lemma lexes_limit: "lexes '' LIMIT 1'' [Word ''LIMIT'', Word ''1'']"
  using closed_lexes_append[OF closed_query(13) lexes_word[of "''1''"]] by (simp add: is_word_def)

lemma separates_bracket [simp]: "separates (CHR ''('' # s)"
  by (simp add: separates_def is_word_def special_chars)

context orm_class
begin

lemma keys_text:
  assumes "mysql_ok ru packet my" "plain_table td" "set (table_keys td) \<subseteq> set (fields_ordered td)"
  shows "\<exists>text. makeKeyValueList my td obj (table_keys td) '' AND '' = Some text \<and>
    lexes (in_backquotes (table td) @ '' WHERE '' @ text) (Ident (table td) # where_tokens (Some (equations my td obj (table_keys td))))"
proof -
  have p: "list_all plain_field (table_keys td)" "backquote \<notin> set (table td)" using assms(2) by (simp_all add: plain_table_def)
  obtain kvs where t: "makeKeyValueList my td obj (table_keys td) '' AND '' = Some kvs"
      "lexes kvs (separated (Word ''AND'') (map equation_tokens (equations my td obj (table_keys td))))"
    using key_value_text[OF assms(1,3) p(1) closed_query(12), of obj] by (auto simp: equations_def)
  from closed_lexes_append[OF lexes_then[OF lexes_ident[OF p(2)] closed_query(3)] t(2)] t(1) show ?thesis by simp
qed

lemma select_text:
  assumes "mysql_ok ru packet my" "plain_table td" "set (table_keys td) \<subseteq> set (fields_ordered td)"
  shows "\<exists>text. makeSelectQuery my ty fac (Some td) obj = Some (True, text) \<and>
    scan (text @ '' LIMIT 1'') = Some (stmt_tokens (select_stmt my td obj))"
proof -
  obtain kvs where k: "makeKeyValueList my td obj (table_keys td) '' AND '' = Some kvs"
      "lexes (in_backquotes (table td) @ '' WHERE '' @ kvs) (Ident (table td) # where_tokens (Some (equations my td obj (table_keys td))))"
    using keys_text[OF assms] by blast
  have "list_all plain_field (fields_ordered td)" using assms(2) by (simp add: plain_table_def)
  from closed_append[OF closed_query(1) lexes_then[OF lexes_names[OF this] closed_query(2)]]
  have "closed (''SELECT '' @ sql_fieldlist td @ '' FROM '') (Word ''SELECT'' # idents_tokens (map fd_name (fields_ordered td)) @ [Word ''FROM''])"
    by (simp add: sql_fieldlist_def)
  from closed_lexes_append[OF this lexes_append[OF k(2) _ lexes_limit]] k(1) show ?thesis
    by (auto simp: makeSelectQuery_def descriptor_or_def select_stmt_def intro!: lexes_lex)
qed

lemma insert_text:
  assumes "mysql_ok ru packet my" "plain_table td"
  shows "\<exists>text. makeInsertQuery my ty fac (Some td) obj = Some (True, text) \<and>
      scan text = Some (stmt_tokens (insert_stmt False my td obj))"
    and "\<exists>text. makeReplaceQuery my ty fac (Some td) obj = Some (True, text) \<and>
      scan text = Some (stmt_tokens (insert_stmt True my td obj))"
proof -
  have p: "list_all plain_field (fields_ordered td)" "backquote \<notin> set (table td)" using assms(2) by (simp_all add: plain_table_def)
  obtain vs where v: "makeValueList my td obj (fields_ordered td) = Some vs"
      "lexes vs (separated comma (map (\<lambda>l. [literal_token l]) (map (member_literal my td obj) (fields_ordered td))))"
    using value_list_text[OF assms(1), of "fields_ordered td" obj] by blast
  have "closed (in_backquotes (table td) @ ''('' @ sql_fieldlist td @ '')'' @ '' VALUES ('' @ vs @ '')'')
    (Ident (table td) # Sym (CHR ''('') # idents_tokens (map fd_name (fields_ordered td)) @ [Sym (CHR '')''), Word ''VALUES'', Sym (CHR ''('')] @
     separated comma (map (\<lambda>l. [literal_token l]) (map (member_literal my td obj) (fields_ordered td))) @ [Sym (CHR '')'')])"
    using closed_append[OF lexes_then[OF lexes_ident[OF p(2)] closed_query(6)] closed_append[OF closed_bracket[OF lexes_names[OF p(1)]]
      closed_append[OF closed_query(8) closed_bracket[OF v(2)]]]]
    by (simp add: sql_fieldlist_def)
  from closed_append[OF closed_query(4) this] closed_append[OF closed_query(5) this] v(1)
  show "\<exists>text. makeInsertQuery my ty fac (Some td) obj = Some (True, text) \<and>
      scan text = Some (stmt_tokens (insert_stmt False my td obj))"
    and "\<exists>text. makeReplaceQuery my ty fac (Some td) obj = Some (True, text) \<and>
      scan text = Some (stmt_tokens (insert_stmt True my td obj))"
    by (auto simp: makeInsertQuery_def makeReplaceQuery_def descriptor_or_def insert_stmt_def intro!: lexes_lex closed_lexes)
qed

lemma update_text:
  assumes "mysql_ok ru packet my" "plain_table td" "set (table_keys td) \<subseteq> set (fields_ordered td)"
  shows "\<exists>text. makeUpdateQuery my ty fac (Some td) obj = Some (True, text) \<and>
    scan text = Some (stmt_tokens (update_stmt my td obj))"
proof -
  have p: "list_all plain_field (fields_ordered td)" "list_all plain_field (table_keys td)" "backquote \<notin> set (table td)"
    using assms(2) by (simp_all add: plain_table_def)
  obtain sets where s: "makeKeyValueList my td obj (fields_ordered td) '','' = Some sets"
      "lexes sets (separated comma (map equation_tokens (equations my td obj (fields_ordered td))))"
    using key_value_text[OF assms(1) subset_refl p(1) closed_constant(11), of obj] by (auto simp: equations_def)
  obtain kvs where k: "makeKeyValueList my td obj (table_keys td) '' AND '' = Some kvs"
      "lexes kvs (separated (Word ''AND'') (map equation_tokens (equations my td obj (table_keys td))))"
    using key_value_text[OF assms(1,3) p(2) closed_query(12), of obj] by (auto simp: equations_def)
  from closed_append[OF closed_query(9) lexes_then[OF lexes_ident[OF p(3)] closed_query(10)]]
    closed_lexes_append[OF lexes_then[OF s(2) closed_query(3)] k(2)]
  have "lexes ((''UPDATE '' @ in_backquotes (table td) @ '' SET '') @ sets @ '' WHERE '' @ kvs) (stmt_tokens (update_stmt my td obj))"
    unfolding update_stmt_def using closed_lexes_append by fastforce
  then show ?thesis using s(1) k(1)
    by (auto simp: makeUpdateQuery_def descriptor_or_def intro!: lexes_lex)
qed

lemma delete_text:
  assumes "mysql_ok ru packet my" "plain_table td" "set (table_keys td) \<subseteq> set (fields_ordered td)"
  shows "\<exists>text. makeDeleteQuery my ty fac (Some td) obj = Some (True, text) \<and>
    scan text = Some (stmt_tokens (delete_stmt my td obj))"
proof -
  obtain kvs where k: "makeKeyValueList my td obj (table_keys td) '' AND '' = Some kvs"
      "lexes (in_backquotes (table td) @ '' WHERE '' @ kvs) (Ident (table td) # where_tokens (Some (equations my td obj (table_keys td))))"
    using keys_text[OF assms] by blast
  from closed_lexes_append[OF closed_query(11) k(2)] k(1) show ?thesis
    by (auto simp: makeDeleteQuery_def descriptor_or_def delete_stmt_def intro!: lexes_lex)
qed

end

subsection \<open>Tables and rows\<close>

definition td_ok :: "('t, 'v) TableDescriptor \<Rightarrow> bool" where
  "td_ok td \<longleftrightarrow> plain_table td \<and> fields_ordered td \<noteq> [] \<and> distinct (map fd_name (fields_ordered td)) \<and>
     table_keys td \<noteq> [] \<and> distinct (table_keys td) \<and> set (table_keys td) \<subseteq> set (fields_ordered td) \<and>
     list_all (\<lambda>fd. \<not> is_real (fd_sql_type fd) \<and> \<not> is_blob (fd_sql_type fd)) (table_keys td)"

definition schema_ok :: "('t, 'v) TableDescriptor \<Rightarrow> sql_table \<Rightarrow> bool" where
  "schema_ok td T \<longleftrightarrow> (\<forall>fd\<in>set (fields_ordered td). \<exists>d. map_of (columns T) (fd_name fd) = Some (fd_sql_type fd, d)) \<and>
     set (primary T) = fd_name ` set (table_keys td)"

text \<open>The table of the class is there; the whole set-up of the theorems.\<close>

definition orm_db :: "('d, 'o, sql_db) mysqlpp \<Rightarrow> rules \<Rightarrow> nat \<Rightarrow> string \<Rightarrow> ('t, ('d, 'o) field_value) TableFactory
    \<Rightarrow> ('t, ('d, 'o) field_value) TableDescriptor \<Rightarrow> sql_table \<Rightarrow> sql_db \<Rightarrow> bool" where
  "orm_db my ru packet ty fac td T db \<longleftrightarrow> mysql_ok ru packet my \<and> tableByType ty fac = Some td \<and> td_ok td \<and>
     map_of db (table td) = Some T \<and> schema_ok td T"

text \<open>The members of an object that is stored, and of one that is only looked up.\<close>

definition storable_in :: "('d::zero, 'o, 'db) mysqlpp \<Rightarrow> rules \<Rightarrow> ('t, ('d, 'o) field_value) TableDescriptor
    \<Rightarrow> (FieldDescriptor \<Rightarrow> 't \<Rightarrow> bool) \<Rightarrow> 't \<Rightarrow> bool" where
  "storable_in my ru td storable obj \<longleftrightarrow>
     (\<forall>fd\<in>set (fields_ordered td).
        (fd_type fd = OBJECT \<longrightarrow> storable fd obj) \<and>
        (text_size (fd_sql_type fd) \<noteq> None \<or> is_real (fd_sql_type fd) \<longrightarrow> fits ru (fd_sql_type fd) (member_literal my td obj fd)) \<and>
        (is_real (fd_sql_type fd) \<longrightarrow> (\<exists>v. get_member td obj fd = Some v \<and>
           conv my (fd_type fd) (stored ru (fd_sql_type fd) (print_value my v)) = Some v)))"

definition keys_fit :: "('d::zero, 'o, 'db) mysqlpp \<Rightarrow> rules \<Rightarrow> ('t, ('d, 'o) field_value) TableDescriptor \<Rightarrow> 't \<Rightarrow> bool" where
  "keys_fit my ru td obj \<longleftrightarrow> (\<forall>fd\<in>set (table_keys td). fits ru (fd_sql_type fd) (member_literal my td obj fd))"

definition same_keys :: "('d::zero, 'o, 'db) mysqlpp \<Rightarrow> rules \<Rightarrow> ('t, ('d, 'o) field_value) TableDescriptor \<Rightarrow> 't \<Rightarrow> 't \<Rightarrow> bool" where
  "same_keys my ru td o1 o2 \<longleftrightarrow> (\<forall>fd\<in>set (table_keys td).
     same ru (fd_sql_type fd) (literal_text (member_literal my td o1 fd)) (literal_text (member_literal my td o2 fd)))"

text \<open>The row of an object; a row that matches its keys.\<close>

definition holds :: "('d::zero, 'o, 'db) mysqlpp \<Rightarrow> rules \<Rightarrow> ('t, ('d, 'o) field_value) TableDescriptor \<Rightarrow> 't \<Rightarrow> (string \<Rightarrow> cell) \<Rightarrow> bool" where
  "holds my ru td obj r \<longleftrightarrow> (\<forall>fd\<in>set (fields_ordered td).
     r (fd_name fd) = stored ru (fd_sql_type fd) (literal_text (member_literal my td obj fd)))"

definition has_key :: "('d::zero, 'o, 'db) mysqlpp \<Rightarrow> rules \<Rightarrow> ('t, ('d, 'o) field_value) TableDescriptor \<Rightarrow> 't \<Rightarrow> (string \<Rightarrow> cell) \<Rightarrow> bool" where
  "has_key my ru td obj r \<longleftrightarrow> (\<forall>fd\<in>set (table_keys td).
     same_cell ru (fd_sql_type fd) (r (fd_name fd)) (Some (literal_text (member_literal my td obj fd))))"

definition the_row :: "('d::zero, 'o, 'db) mysqlpp \<Rightarrow> rules \<Rightarrow> ('t, ('d, 'o) field_value) TableDescriptor \<Rightarrow> sql_table \<Rightarrow> 't \<Rightarrow> string \<Rightarrow> cell" where
  "the_row my ru td T obj = assign ru T (zip (map fd_name (fields_ordered td)) (map (member_literal my td obj) (fields_ordered td))) (default_row ru T)"

lemma column_type_field: "schema_ok td T \<Longrightarrow> fd \<in> set (fields_ordered td) \<Longrightarrow> column_type T (fd_name fd) = fd_sql_type fd"
  by (force simp: schema_ok_def column_type_def)

lemma field_column: "schema_ok td T \<Longrightarrow> fd \<in> set (fields_ordered td) \<Longrightarrow> fd_name fd \<in> fst ` set (columns T)"
  unfolding schema_ok_def by (metis map_of_eq_None_iff option.distinct(1))

lemma key_field: "td_ok td \<Longrightarrow> fd \<in> set (table_keys td) \<Longrightarrow>
    fd \<in> set (fields_ordered td) \<and> \<not> is_real (fd_sql_type fd) \<and> \<not> is_blob (fd_sql_type fd) \<and> fd_type fd \<noteq> OBJECT"
  by (auto simp: td_ok_def list_all_iff is_blob_fd)

lemma key_stored: "td_ok td \<Longrightarrow> fd \<in> set (table_keys td) \<Longrightarrow> stored ru (fd_sql_type fd) s = Some s"
  by (drule (1) key_field) (simp add: stored_def)

lemma matches_keys:
  assumes "td_ok td" "schema_ok td T"
  shows "matches ru T (Some (equations my td obj (table_keys td))) r = has_key my ru td obj r"
  using column_type_field[OF assms(2)] key_field[OF assms(1)]
  by (auto simp: matches_def equations_def has_key_def list_all_iff)

lemma map_of_fields:
  "distinct (map fd_name fds) \<Longrightarrow> fd \<in> set fds \<Longrightarrow> map_of (zip (map fd_name fds) (map f fds)) (fd_name fd) = Some (f fd)"
  by (induction fds) (auto simp: image_iff)

lemma holds_assign:
  assumes "td_ok td" "schema_ok td T"
  shows "holds my ru td obj (assign ru T (zip (map fd_name (fields_ordered td)) (map (member_literal my td obj) (fields_ordered td))) r)"
  using assms column_type_field[OF assms(2)] by (simp add: holds_def assign_def map_of_fields td_ok_def)

lemma holds_the_row: "td_ok td \<Longrightarrow> schema_ok td T \<Longrightarrow> holds my ru td obj (the_row my ru td T obj)"
  by (simp add: the_row_def holds_assign)

lemma has_key_holds:
  assumes "td_ok td" "holds my ru td obj r"
  shows "has_key my ru td other r = same_keys my ru td obj other"
  using assms key_field[OF assms(1)] key_stored[OF assms(1)]
  by (auto simp: has_key_def holds_def same_keys_def same_cell_def)

lemma same_key_holds:
  assumes "td_ok td" "schema_ok td T" "holds my ru td obj r"
  shows "same_key ru T r' r = has_key my ru td obj r'"
proof -
  have "primary T \<noteq> []" using assms(1,2) by (auto simp: td_ok_def schema_ok_def)
  moreover have "r (fd_name fd) = Some (literal_text (member_literal my td obj fd))" if "fd \<in> set (table_keys td)" for fd
    using assms(3) key_field[OF assms(1) that] key_stored[OF assms(1) that] by (simp add: holds_def)
  ultimately show ?thesis using assms(2) column_type_field[OF assms(2)] key_field[OF assms(1)]
    by (auto simp: same_key_def has_key_def list_all_iff schema_ok_def)
qed

lemma equivp_rules: "mysql_ok ru packet my \<Longrightarrow> equivp (same ru t)"
  by (auto simp: mysql_ok_def server_ok_def)

lemma same_keys_equiv:
  assumes "mysql_ok ru packet my"
  shows "same_keys my ru td o1 o1" "same_keys my ru td o1 o2 \<Longrightarrow> same_keys my ru td o2 o1"
    "same_keys my ru td o1 o2 \<Longrightarrow> same_keys my ru td o2 o3 \<Longrightarrow> same_keys my ru td o1 o3"
proof -
  note e = equivp_rules[OF assms]
  show "same_keys my ru td o1 o1" by (simp add: same_keys_def equivp_reflp[OF e])
  show "same_keys my ru td o1 o2 \<Longrightarrow> same_keys my ru td o2 o1" by (simp add: same_keys_def equivp_symp[OF e])
  show "same_keys my ru td o1 o2 \<Longrightarrow> same_keys my ru td o2 o3 \<Longrightarrow> same_keys my ru td o1 o3"
    by (auto simp: same_keys_def dest!: bspec elim: equivp_transp[OF e])
qed

lemma same_cell_equiv:
  assumes "mysql_ok ru packet my" "same_cell ru t a (Some x)"
  shows "same ru t x y \<Longrightarrow> same_cell ru t a (Some y)" "same_cell ru t a (Some y) \<Longrightarrow> same ru t x y"
proof -
  obtain z where z: "a = Some z" "same ru t z x" using assms(2) by (auto simp: same_cell_def split: option.splits)
  note e = equivp_rules[OF assms(1), of t]
  show "same ru t x y \<Longrightarrow> same_cell ru t a (Some y)" using z equivp_transp[OF e] by (auto simp: same_cell_def)
  assume "same_cell ru t a (Some y)"
  then have "same ru t z y" using z(1) by (simp add: same_cell_def)
  then show "same ru t x y" by (rule equivp_transp[OF e equivp_symp[OF e z(2)]])
qed

lemma has_key_same:
  assumes "mysql_ok ru packet my" "has_key my ru td o1 r" "same_keys my ru td o1 o2"
  shows "has_key my ru td o2 r"
  unfolding has_key_def using assms(2,3)
  by (auto simp: has_key_def same_keys_def dest!: bspec intro: same_cell_equiv(1)[OF assms(1)])

lemma has_key_both:
  assumes "mysql_ok ru packet my" "has_key my ru td o1 r" "has_key my ru td o2 r"
  shows "same_keys my ru td o1 o2"
  unfolding same_keys_def using assms(2,3)
  by (auto simp: has_key_def dest!: bspec intro: same_cell_equiv(2)[OF assms(1)])

lemma map_of_put_table [simp]:
  "map_of (put_table n tab db) m = (if m = n then map_option (\<lambda>_. tab) (map_of db n) else map_of db m)"
  by (induction db) (auto simp: put_table_def)

lemma schema_rows [simp]: "schema_ok td (T\<lparr>rows := rs\<rparr>) = schema_ok td T"
  by (simp add: schema_ok_def)

lemma take_filter_find: "take 1 (filter P xs) = (case find P xs of None \<Rightarrow> [] | Some x \<Rightarrow> [x])"
  by (induction xs) auto

lemma find_filter: "(\<And>x. x \<in> set xs \<Longrightarrow> P x \<Longrightarrow> Q x) \<Longrightarrow> find P (filter Q xs) = find P xs"
  by (induction xs) auto

lemma find_filter_None: "(\<And>x. x \<in> set xs \<Longrightarrow> P x \<Longrightarrow> \<not> Q x) \<Longrightarrow> find P (filter Q xs) = None"
  by (induction xs) auto

subsection \<open>Reading rows\<close>

text \<open>What the column of an integer or a truth value stores is read back.\<close>

lemma fits_value:
  assumes "has_type ty v" "int_range (abs_type ty n) \<noteq> None"
  shows "fits ru (abs_type ty n) (value_literal my v)"
proof -
  have a: "abs_type ty n = abs_type ty 0" using assms(2) by (cases ty) simp_all
  show ?thesis
  proof (cases v)
    case (VInt i)
    then show ?thesis using assms unfolding a
      by (cases ty) (auto simp: has_type_def fits_text_def split: option.splits)
  next
    case (VBool b)
    have "int_decimal 0 = ''0''" "int_decimal 1 = ''1''"
      by (simp_all add: int_decimal_def decimal.simps char_of_def bit_Suc_0_iff)
    then have "int_val ''0'' = 0" "int_val ''1'' = 1" using int_val_decimal[of 0] int_val_decimal[of 1] by simp_all
    then show ?thesis using assms(1) \<open>int_decimal 0 = _\<close> \<open>int_decimal 1 = _\<close> unfolding a
      by (auto simp: VBool has_type_def fits_text_def)
  next
    case (VReal x)
    then show ?thesis using assms by (cases ty) (auto simp: has_type_def)
  next
    case (VText bs)
    then show ?thesis using assms by (cases ty) (auto simp: has_type_def is_text_def)
  next
    case (VObject x)
    then show ?thesis using assms by (simp add: has_type_def)
  qed
qed

lemma conv_value:
  assumes "mysql_ok ru packet my" "has_type ty v" "int_range (abs_type ty n) \<noteq> None"
  shows "conv my ty (Some (print_value my v)) = Some v"
proof -
  have a: "abs_type ty n = abs_type ty 0" using assms(3) by (cases ty) simp_all
  have c: "\<And>b. conv my BOOL (Some (if b then ''1'' else ''0'')) = Some (VBool b)"
      "\<And>ty i lo hi. ty \<noteq> BOOL \<Longrightarrow> int_range (abs_type ty 0) = Some (lo, hi) \<Longrightarrow> lo \<le> i \<Longrightarrow> i < hi \<Longrightarrow>
        conv my ty (Some (int_decimal i)) = Some (VInt i)"
    using assms(1) by (auto simp: mysql_ok_def)
  show ?thesis
  proof (cases v)
    case (VInt i)
    then obtain lo hi where "ty \<noteq> BOOL" "int_range (abs_type ty 0) = Some (lo, hi)" "lo \<le> i" "i < hi"
      using assms(2) by (auto simp: has_type_def split: option.splits)
    then show ?thesis using c(2) VInt by simp
  next
    case (VBool b)
    then show ?thesis using assms(2) c(1)[of b] by (simp add: has_type_def)
  next
    case (VReal x)
    then show ?thesis using assms by (cases ty) (auto simp: has_type_def)
  next
    case (VText bs)
    then show ?thesis using assms by (cases ty) (auto simp: has_type_def is_text_def)
  next
    case (VObject x)
    then show ?thesis using assms by (simp add: has_type_def)
  qed
qed

lemma sql_type_cases:
  "fd_type fd = OBJECT \<or> is_text (fd_type fd) \<or> is_real (fd_sql_type fd) \<and> \<not> is_text (fd_type fd) \<and> fd_type fd \<noteq> OBJECT \<or>
   int_range (fd_sql_type fd) \<noteq> None \<and> \<not> is_real (fd_sql_type fd) \<and> \<not> is_text (fd_type fd) \<and> fd_type fd \<noteq> OBJECT"
  by (cases "fd_type fd") (simp_all add: is_text_def fd_sql_type_def is_real_def)

lemma text_size_fd: "text_size (fd_sql_type fd) = None \<longleftrightarrow> \<not> is_text (fd_type fd) \<and> fd_type fd \<noteq> OBJECT"
  by (cases "fd_type fd") (simp_all add: is_text_def fd_sql_type_def)

lemma text_not_real: "is_text (fd_type fd) \<or> fd_type fd = OBJECT \<Longrightarrow> stored ru (fd_sql_type fd) s = Some s"
  by (cases "fd_type fd") (simp_all add: is_text_def fd_sql_type_def is_real_def stored_def)

context orm_class
begin

lemma storable_fits:
  assumes "storable_in my ru td storable obj" "fd \<in> set (fields_ordered td)"
  shows "fits ru (fd_sql_type fd) (member_literal my td obj fd)"
proof (cases "int_range (fd_sql_type fd) = None")
  case True
  then have "text_size (fd_sql_type fd) \<noteq> None \<or> is_real (fd_sql_type fd)"
    by (cases "fd_type fd") (simp_all add: fd_sql_type_def is_real_def)
  then show ?thesis using assms by (auto simp: storable_in_def)
next
  case False
  then have o: "fd_type fd \<noteq> OBJECT" by (auto simp: fd_sql_type_def)
  then obtain v where "get_member td obj fd = Some v" "has_type (fd_type fd) v" using get_member_typed assms(2) by blast
  then show ?thesis using False o fits_value by (simp add: member_literal_def fd_sql_type_def)
qed

text \<open>A cell that holds the member of an object is read into a value of this member.\<close>

lemma read_cell:
  assumes "mysql_ok ru packet my" "storable_in my ru td storable obj" "fd \<in> set (fields_ordered td)" "fd_type fd \<noteq> OBJECT"
    and "c = stored ru (fd_sql_type fd) (literal_text (member_literal my td obj fd))"
  shows "\<exists>v. member td fd obj = Some (typeid_of (fd_type fd), v) \<and> has_type (fd_type fd) v \<and>
    (if is_text (fd_type fd) then Some (VText (tx (cell_text my c))) else conv my (fd_type fd) c) = Some v"
proof -
  obtain v where v: "get_member td obj fd = Some v" "has_type (fd_type fd) v" "member td fd obj = Some (typeid_of (fd_type fd), v)"
    using get_member_typed assms(3,4) by blast
  have l: "member_literal my td obj fd = value_literal my v" using v(1) assms(4) by (simp add: member_literal_def)
  consider "is_text (fd_type fd)" | "is_real (fd_sql_type fd)" "\<not> is_text (fd_type fd)"
    | "int_range (fd_sql_type fd) \<noteq> None" "\<not> is_real (fd_sql_type fd)" "\<not> is_text (fd_type fd)"
    using sql_type_cases[of fd] assms(4) by blast
  then have "(if is_text (fd_type fd) then Some (VText (tx (cell_text my c))) else conv my (fd_type fd) c) = Some v"
  proof cases
    case 1
    then obtain bs where "v = VText bs" using v(2) by (auto simp: has_type_def is_text_def split: field_value.splits option.splits)
    then show ?thesis using 1 assms(1) text_not_real[of fd] by (simp add: assms(5) l mysql_ok_def)
  next
    case 2
    then obtain x where "v = VReal x" using v(2)
      by (cases v; cases "fd_type fd") (auto simp: has_type_def is_real_def fd_sql_type_def is_text_def)
    then show ?thesis using 2 assms(2,3) v(1) by (auto simp: assms(5) l storable_in_def)
  next
    case 3
    have "v \<noteq> VText bs" for bs using v(2) 3(3) by (auto simp: has_type_def)
    then have "literal_text (value_literal my v) = print_value my v" by (cases v) auto
    then show ?thesis using 3 conv_value[OF assms(1) v(2), of "fd_size fd"] by (simp add: assms(5) l stored_def fd_sql_type_def)
  qed
  with v show ?thesis by blast
qed

lemma read_row:
  assumes my: "mysql_ok ru packet my" and obj: "storable_in my ru td storable obj" and row: "holds my ru td obj r"
    and "set fds \<subseteq> set (fields_ordered td)" "distinct (map fd_name fds)"
    and "\<And>fd. fd \<in> set fds \<Longrightarrow> fd_type fd = OBJECT \<Longrightarrow> blank fd old"
  shows "\<exists>obj'. record_loop my td True (map (\<lambda>fd. (fd, r (fd_name fd))) fds) old = (Some True, obj') \<and>
    (\<forall>fd\<in>set (fields_ordered td). member td fd obj' = (if fd_name fd \<in> fd_name ` set fds then member td fd obj else member td fd old))"
  using assms(4-)
proof (induction fds arbitrary: old)
  case Nil
  then show ?case by auto
next
  case (Cons fd fds)
  have fd: "fd \<in> set (fields_ordered td)" using Cons.prems(1) by simp
  have c: "r (fd_name fd) = stored ru (fd_sql_type fd) (literal_text (member_literal my td obj fd))"
    using row fd by (simp add: holds_def)
  have same_name: "member td f x = member td fd x" if "fd_name f = fd_name fd" for f x using that by (simp add: member_def)
  have "\<exists>old'. record_loop my td True ((fd, r (fd_name fd)) # rest) old = record_loop my td True rest old' \<and>
      member td fd old' = member td fd obj \<and>
      (\<forall>fd'\<in>set (fields_ordered td). fd_name fd' \<noteq> fd_name fd \<longrightarrow> member td fd' old' = member td fd' old)" for rest
  proof (cases "fd_type fd = OBJECT")
    case True
    obtain p bin where p: "propertyByName (tx (fd_name fd)) (reflection td) = Some p" "prop_serialize p obj = Inr bin"
      using known[OF fd] serialized[OF fd True] by blast
    have "storable fd obj" using obj fd True by (simp add: storable_in_def)
    note des = deserialized[OF fd True p(1) this p(2) Cons.prems(3)[OF _ True]]
    have cell: "r (fd_name fd) = Some (text_of bin)" "text_of bin = [] \<longleftrightarrow> bin = []"
      using c p True text_not_real[of fd] by (simp_all add: member_literal_def text_of_def)
    show ?thesis
    proof (cases "bin = []")
      case True
      then show ?thesis using des cell p(1) \<open>fd_type fd = OBJECT\<close> by auto
    next
      case False
      then obtain old' where o: "prop_deserialize p old bin = Inr (True, old')" "member td fd old' = member td fd obj"
        "\<forall>fd'\<in>set (fields_ordered td). fd_name fd' \<noteq> fd_name fd \<longrightarrow> member td fd' old' = member td fd' old"
        using des by auto
      moreover have "cell_text my (Some (text_of bin)) = text_of bin" using my by (simp add: mysql_ok_def)
      ultimately show ?thesis using cell p(1) True False by auto
    qed
  next
    case False
    obtain v where v: "member td fd obj = Some (typeid_of (fd_type fd), v)" "has_type (fd_type fd) v"
        "(if is_text (fd_type fd) then Some (VText (tx (cell_text my (r (fd_name fd))))) else conv my (fd_type fd) (r (fd_name fd))) = Some v"
      using read_cell[OF my obj fd False c] by blast
    from settable[OF fd False v(2), of old] obtain old' where
      "struct_set (typeid_of (fd_type fd)) old (tx (fd_name fd)) v (reflection td) = Some old'"
      "member td fd old' = Some (typeid_of (fd_type fd), v)"
      "\<forall>fd'\<in>set (fields_ordered td). fd_name fd' \<noteq> fd_name fd \<longrightarrow> member td fd' old' = member td fd' old" by blast
    then show ?thesis using False v by auto
  qed
  from this[of "map (\<lambda>fd. (fd, r (fd_name fd))) fds"]
  obtain old' where o: "record_loop my td True (map (\<lambda>fd. (fd, r (fd_name fd))) (fd # fds)) old =
        record_loop my td True (map (\<lambda>fd. (fd, r (fd_name fd))) fds) old'"
      "member td fd old' = member td fd obj"
      "\<forall>fd'\<in>set (fields_ordered td). fd_name fd' \<noteq> fd_name fd \<longrightarrow> member td fd' old' = member td fd' old"
    by auto
  have "blank f old'" if "f \<in> set fds" "fd_type f = OBJECT" for f
  proof -
    have "fd_name f \<noteq> fd_name fd" "f \<in> set (fields_ordered td)" using that Cons.prems(1,2) by (auto simp: image_iff)
    then show ?thesis using o(3) blank_member[of f old' old] Cons.prems(3)[of f] that by simp
  qed
  from Cons.IH[OF _ _ this] Cons.prems(1,2) obtain obj' where
    "record_loop my td True (map (\<lambda>fd. (fd, r (fd_name fd))) fds) old' = (Some True, obj')"
    and m: "\<forall>fd\<in>set (fields_ordered td). member td fd obj' = (if fd_name fd \<in> fd_name ` set fds then member td fd obj else member td fd old')"
    by auto
  moreover have "member td f obj' = (if fd_name f \<in> fd_name ` set (fd # fds) then member td f obj else member td f old)"
    if "f \<in> set (fields_ordered td)" for f
    using m o(2,3) that same_name[of f] by (cases "fd_name f = fd_name fd") auto
  ultimately show ?case using o(1) by auto
qed

lemma read_record:
  assumes "mysql_ok ru packet my" "td_ok td" "storable_in my ru td storable obj" "holds my ru td obj r"
    and "\<And>fd. fd \<in> set (fields_ordered td) \<Longrightarrow> fd_type fd = OBJECT \<Longrightarrow> blank fd old"
  shows "\<exists>obj'. recordToObject my td (map r (map fd_name (fields_ordered td))) old = (Some True, obj') \<and>
    (\<forall>fd\<in>set (fields_ordered td). member td fd obj' = member td fd obj)"
proof -
  have z: "zip fds (map r (map fd_name fds)) = map (\<lambda>fd. (fd, r (fd_name fd))) fds" for fds by (induction fds) auto
  show ?thesis unfolding recordToObject_def z
    using read_row[OF assms(1,3,4) subset_refl _ assms(5)] assms(2) by (auto simp: td_ok_def)
qed

end

subsection \<open>The operations on the table\<close>

definition short_texts :: "('d::zero, 'o, 'db) mysqlpp \<Rightarrow> nat \<Rightarrow> string \<Rightarrow> ('t, ('d, 'o) field_value) TableFactory
    \<Rightarrow> ('t, ('d, 'o) field_value) TableDescriptor \<Rightarrow> 't \<Rightarrow> bool" where
  "short_texts my packet ty fac td obj \<longleftrightarrow>
     (\<forall>f\<in>{makeSelectQuery, makeInsertQuery, makeReplaceQuery, makeUpdateQuery, makeDeleteQuery}.
        \<forall>b s. f my ty fac (Some td) obj = Some (b, s) \<longrightarrow> length s + 8 < packet)"

lemma short_simps:
  assumes "short_texts my packet ty fac td obj"
  shows "makeSelectQuery my ty fac (Some td) obj = Some (b, s) \<Longrightarrow> length (s @ '' LIMIT 1'') < packet"
    "makeInsertQuery my ty fac (Some td) obj = Some (b, s) \<Longrightarrow> length s < packet"
    "makeReplaceQuery my ty fac (Some td) obj = Some (b, s) \<Longrightarrow> length s < packet"
    "makeUpdateQuery my ty fac (Some td) obj = Some (b, s) \<Longrightarrow> length s < packet"
    "makeDeleteQuery my ty fac (Some td) obj = Some (b, s) \<Longrightarrow> length s < packet"
  using assms by (fastforce simp: short_texts_def)+

text \<open>A statement that writes, and the status of one that reads; what one that reads returns.\<close>

lemma mysql_run:
  assumes "mysql_ok ru packet my" "length s < packet" "scan s = Some (stmt_tokens stmt)" "complete stmt" "good_stmt ru stmt db"
  shows "execute my s db = (case sql_run ru stmt db of (Inl e, db) \<Rightarrow> (Inl e, db) | (Inr rs, db) \<Rightarrow> (Inr True, db))"
    and "is_query stmt \<Longrightarrow> \<exists>db'. reordered db db' \<and>
      store my s db = (case fst (sql_run ru stmt db') of Inl e \<Rightarrow> (Inl e, db) | Inr rs \<Rightarrow> (Inr (Some rs), db))"
proof -
  obtain run where run: "server_ok ru packet run"
      "\<forall>text db. store my text db = (case run text db of (Inl e, db) \<Rightarrow> (Inl e, db) | (Inr rs, db) \<Rightarrow> (Inr (Some rs), db))"
      "\<forall>text db. execute my text db = (case run text db of (Inl e, db) \<Rightarrow> (Inl e, db) | (Inr rs, db) \<Rightarrow> (Inr True, db))"
    using assms(1) by (auto simp: mysql_ok_def)
  from run(1) have a: "sql_answers ru stmt db (run s db)" using assms(2-) by (auto simp: server_ok_def)
  show "execute my s db = (case sql_run ru stmt db of (Inl e, db) \<Rightarrow> (Inl e, db) | (Inr rs, db) \<Rightarrow> (Inr True, db))"
  proof (cases "is_query stmt")
    case True
    then obtain db' where db': "reordered db db'" "run s db = (fst (sql_run ru stmt db'), db)" using a by (auto simp: sql_answers_def)
    have e: "sql_run ru stmt db = (fst (sql_run ru stmt db), db)" by (rule prod_eqI) (simp_all add: query_keeps[OF True])
    show ?thesis
    proof (cases "fst (sql_run ru stmt db)")
      case (Inl e)
      then show ?thesis using run(3) query_fails[OF True db'(1), of ru e] by (subst e) (simp add: db'(2))
    next
      case (Inr rs)
      then obtain rs' where "fst (sql_run ru stmt db') = Inr rs'"
        using query_fails[OF True db'(1), of ru] by (cases "fst (sql_run ru stmt db')") auto
      then show ?thesis using run(3) Inr by (subst e) (simp add: db'(2))
    qed
  qed (use a run(3) in \<open>simp add: sql_answers_def\<close>)
  show "\<exists>db'. reordered db db' \<and>
      store my s db = (case fst (sql_run ru stmt db') of Inl e \<Rightarrow> (Inl e, db) | Inr rs \<Rightarrow> (Inr (Some rs), db))" if "is_query stmt"
  proof -
    obtain db' where "reordered db db'" "run s db = (fst (sql_run ru stmt db'), db)" using a \<open>is_query stmt\<close> by (auto simp: sql_answers_def)
    then show ?thesis using run(2) by (intro exI[of _ db']) simp
  qed
qed

lemma mysql_select:
  assumes "mysql_ok ru packet my" "length s < packet" "scan s = Some (stmt_tokens (Select cols tab conds one))"
    and "complete (Select cols tab conds one)" "good_stmt ru (Select cols tab conds one) db" "map_of db tab = Some T"
  shows "\<exists>rs. mset rs = mset (rows T) \<and> store my s db =
    (Inr (Some (map (\<lambda>r. map r cols) (if one then take 1 (filter (matches ru T conds) rs) else filter (matches ru T conds) rs))), db)"
proof -
  obtain db' where db': "reordered db db'" "store my s db =
      (case fst (sql_run ru (Select cols tab conds one) db') of Inl e \<Rightarrow> (Inl e, db) | Inr rs \<Rightarrow> (Inr (Some rs), db))"
    using mysql_run(2)[OF assms(1-5)] by auto
  then obtain rs where rs: "map_of db' tab = Some (T\<lparr>rows := rs\<rparr>)" "mset rs = mset (rows T)"
    using reordered_table(2)[OF db'(1) assms(6)] by blast
  have "column_type (T\<lparr>rows := rs\<rparr>) = column_type T" by (rule ext) (simp add: column_type_def)
  then have "matches ru (T\<lparr>rows := rs\<rparr>) conds = matches ru T conds" by (intro ext) (simp only: matches_def)
  then show ?thesis using db'(2) rs by (intro exI[of _ rs]) (simp add: Let_def)
qed

lemma same_cell_sym: "mysql_ok ru packet my \<Longrightarrow> same_cell ru t a b \<Longrightarrow> same_cell ru t b a"
  using equivp_symp[OF equivp_rules] by (fastforce simp: same_cell_def split: option.splits)

lemma same_cell_trans:
  assumes "mysql_ok ru packet my" "same_cell ru t a b" "same_cell ru t b c"
  shows "same_cell ru t a c"
  using assms(2,3) equivp_transp[OF equivp_rules[OF assms(1), of t]] by (auto simp: same_cell_def split: option.splits)

text \<open>The rows with a key: at most one, when the keys are unique.\<close>

definition one_row :: "('d::zero, 'o, 'db) mysqlpp \<Rightarrow> rules \<Rightarrow> ('t, ('d, 'o) field_value) TableDescriptor \<Rightarrow> 't \<Rightarrow> (string \<Rightarrow> cell) list \<Rightarrow> bool" where
  "one_row my ru td obj rs \<longleftrightarrow> length (filter (has_key my ru td obj) rs) \<le> 1"

lemma sorted_wrt_one:
  "sorted_wrt (\<lambda>x y. \<not> R x y) xs \<Longrightarrow> (\<And>x y. P x \<Longrightarrow> P y \<Longrightarrow> R x y) \<Longrightarrow> length (filter P xs) \<le> 1"
proof (induction xs)
  case (Cons x xs)
  then show ?case by (cases "P x") (auto simp: filter_empty_conv)
qed simp

lemma same_filter:
  assumes "mset xs = mset ys" "length (filter P ys) \<le> 1"
  shows "filter P xs = filter P ys"
proof -
  have "mset (filter P xs) = mset (filter P ys)" using assms(1) by simp
  then show ?thesis using assms(2) by (cases "filter P ys") (auto simp del: mset_filter)
qed

lemma unique_one_row:
  assumes "mysql_ok ru packet my" "td_ok td" "schema_ok td T" "unique_keys ru T"
  shows "one_row my ru td obj (rows T)"
  unfolding one_row_def
proof (rule sorted_wrt_one)
  show "sorted_wrt (\<lambda>r r'. \<not> same_key ru T r r') (rows T)" using assms(4) by (simp add: unique_keys_def)
  fix r r' assume "has_key my ru td obj r" "has_key my ru td obj r'"
  then have "same_cell ru (fd_sql_type fd) (r (fd_name fd)) (r' (fd_name fd))" if "fd \<in> set (table_keys td)" for fd
    using that same_cell_trans[OF assms(1) _ same_cell_sym[OF assms(1)]] unfolding has_key_def by blast
  then show "same_key ru T r r'" using assms(2,3) column_type_field[OF assms(3)] key_field[OF assms(2)]
    by (auto simp: same_key_def list_all_iff schema_ok_def td_ok_def)
qed

lemma one_row_stored: "find (has_key my ru td obj) rs = None \<Longrightarrow> one_row my ru td obj (rs @ [r])"
  by (simp add: one_row_def find_None_iff filter_empty_conv)

lemma equations_zip: "equations my td obj fds = zip (map fd_name fds) (map (member_literal my td obj) fds)"
  by (induction fds) (simp_all add: equations_def)

lemma orm_dbD:
  assumes "orm_db my ru packet ty fac td T db"
  shows "mysql_ok ru packet my" "tableByType ty fac = Some td" "td_ok td" "plain_table td"
    "set (table_keys td) \<subseteq> set (fields_ordered td)" "map_of db (table td) = Some T" "schema_ok td T"
    "fields_ordered td \<noteq> []" "table_keys td \<noteq> []" "distinct (map fd_name (fields_ordered td))"
    "distinct (map fd_name (table_keys td))"
proof -
  show "mysql_ok ru packet my" "tableByType ty fac = Some td" "td_ok td" "plain_table td"
    "set (table_keys td) \<subseteq> set (fields_ordered td)" "map_of db (table td) = Some T" "schema_ok td T"
    "fields_ordered td \<noteq> []" "table_keys td \<noteq> []" "distinct (map fd_name (fields_ordered td))"
    using assms by (simp_all add: orm_db_def td_ok_def)
  then show "distinct (map fd_name (table_keys td))"
    using assms by (auto simp: orm_db_def td_ok_def distinct_map intro: inj_on_subset)
qed

lemma orm_db_put:
  "orm_db my ru packet ty fac td T db \<Longrightarrow> orm_db my ru packet ty fac td (T\<lparr>rows := rs\<rparr>) (put_table (table td) (T\<lparr>rows := rs\<rparr>) db)"
  by (simp add: orm_db_def)

lemma good_keys:
  assumes "orm_db my ru packet ty fac td T db" "keys_fit my ru td obj"
  shows "good_where ru T (Some (equations my td obj (table_keys td)))"
proof -
  note d = orm_dbD[OF assms(1)]
  have "fd_name fd \<in> fst ` set (columns T) \<and> fits ru (column_type T (fd_name fd)) (member_literal my td obj fd) \<and>
      \<not> is_real (column_type T (fd_name fd))" if "fd \<in> set (table_keys td)" for fd
    using key_field[OF d(3) that] column_type_field[OF d(7)] field_column[OF d(7)] assms(2) that by (simp add: keys_fit_def)
  then show ?thesis using d(9,11) by (auto simp: good_where_def good_equations_def equations_def comp_def)
qed

context orm_class
begin

lemma good_fields:
  assumes "orm_db my ru packet ty fac td T db" "storable_in my ru td storable obj"
  shows "good_equations ru T (equations my td obj (fields_ordered td))"
proof -
  note d = orm_dbD[OF assms(1)]
  have "fd_name fd \<in> fst ` set (columns T) \<and> fits ru (column_type T (fd_name fd)) (member_literal my td obj fd)"
    if "fd \<in> set (fields_ordered td)" for fd
    using column_type_field[OF d(7) that] field_column[OF d(7) that] storable_fits[OF assms(2) that] by simp
  then show ?thesis using d(8,10) by (auto simp: good_equations_def equations_def comp_def)
qed

lemma storable_keys: "orm_db my ru packet ty fac td T db \<Longrightarrow> storable_in my ru td storable obj \<Longrightarrow> keys_fit my ru td obj"
  using storable_fits orm_dbD(5) by (fastforce simp: keys_fit_def)

lemma select_run:
  assumes "orm_db my ru packet ty fac td T db" "keys_fit my ru td old" "short_texts my packet ty fac td old"
    and "one_row my ru td old (rows T)"
  shows "select my ty fac old db =
    (case find (has_key my ru td old) (rows T) of
       None \<Rightarrow> ((False, old), db)
     | Some r \<Rightarrow> (case recordToObject my td (map r (map fd_name (fields_ordered td))) old of (x, o') \<Rightarrow> ((x = Some True, o'), db)))"
proof -
  note d = orm_dbD[OF assms(1)]
  obtain s where s: "makeSelectQuery my ty fac (Some td) old = Some (True, s)"
      "scan (s @ '' LIMIT 1'') = Some (stmt_tokens (select_stmt my td old))"
    using select_text[OF d(1,4,5)] by blast
  have "good_stmt ru (select_stmt my td old) db"
    using good_keys[OF assms(1,2)] field_column[OF d(7)] by (auto simp: select_stmt_def d(6))
  moreover have "complete (select_stmt my td old)" using d(8,9) by (simp add: select_stmt_def equations_def)
  moreover have "matches ru T (Some (equations my td old (table_keys td))) = has_key my ru td old"
    by (rule ext) (rule matches_keys[OF d(3,7)])
  ultimately obtain rs where rs: "mset rs = mset (rows T)" "store my (s @ '' LIMIT 1'') db =
      (Inr (Some (map (\<lambda>r. map r (map fd_name (fields_ordered td))) (take 1 (filter (has_key my ru td old) rs)))), db)"
    using mysql_select[OF d(1) short_simps(1)[OF assms(3) s(1)] s(2)[unfolded select_stmt_def], folded select_stmt_def, OF _ _ d(6)] by auto
  have "filter (has_key my ru td old) rs = filter (has_key my ru td old) (rows T)"
    by (rule same_filter[OF rs(1)]) (use assms(4) in \<open>simp add: one_row_def\<close>)
  then show ?thesis using s(1) rs(2) by (simp only: take_filter_find) (auto simp: select_def d(2) split: option.splits)
qed

lemma insert_run:
  assumes "orm_db my ru packet ty fac td T db" "storable_in my ru td storable obj" "short_texts my packet ty fac td obj"
  shows "insert_obj my ty fac obj db =
      (if list_ex (has_key my ru td obj) (rows T) then (False, db)
       else (True, put_table (table td) (T\<lparr>rows := rows T @ [the_row my ru td T obj]\<rparr>) db))"
    and "replace my ty fac obj db =
      (True, put_table (table td) (T\<lparr>rows := filter (\<lambda>r. \<not> has_key my ru td obj r) (rows T) @ [the_row my ru td T obj]\<rparr>) db)"
proof -
  note d = orm_dbD[OF assms(1)]
  obtain s t where s: "makeInsertQuery my ty fac (Some td) obj = Some (True, s)" "scan s = Some (stmt_tokens (insert_stmt False my td obj))"
    and t: "makeReplaceQuery my ty fac (Some td) obj = Some (True, t)" "scan t = Some (stmt_tokens (insert_stmt True my td obj))"
    using insert_text[OF d(1,4)] by blast
  have good: "good_stmt ru (insert_stmt r my td obj) db" "complete (insert_stmt r my td obj)" for r
    using good_fields[OF assms(1,2)] d(6,8) by (simp_all add: insert_stmt_def equations_zip)
  have k: "same_key ru T r' (the_row my ru td T obj) = has_key my ru td obj r'" for r'
    by (rule same_key_holds[OF d(3,7) holds_the_row[OF d(3,7)]])
  note run = mysql_run(1)[OF d(1) _ _ good(2,1)]
  show "insert_obj my ty fac obj db =
      (if list_ex (has_key my ru td obj) (rows T) then (False, db)
       else (True, put_table (table td) (T\<lparr>rows := rows T @ [the_row my ru td T obj]\<rparr>) db))"
    using run[OF short_simps(2)[OF assms(3) s(1)] s(2)]
    by (simp add: insert_obj_def d(2,6) run_query_def s(1) insert_stmt_def Let_def k flip: the_row_def)
  show "replace my ty fac obj db =
      (True, put_table (table td) (T\<lparr>rows := filter (\<lambda>r. \<not> has_key my ru td obj r) (rows T) @ [the_row my ru td T obj]\<rparr>) db)"
    using run[OF short_simps(3)[OF assms(3) t(1)] t(2)]
    by (simp add: replace_def d(2,6) run_query_def t(1) insert_stmt_def Let_def k flip: the_row_def)
qed

lemma del_run:
  assumes "orm_db my ru packet ty fac td T db" "keys_fit my ru td obj" "short_texts my packet ty fac td obj"
  shows "del my ty fac obj db = (True, put_table (table td) (T\<lparr>rows := filter (\<lambda>r. \<not> has_key my ru td obj r) (rows T)\<rparr>) db)"
proof -
  note d = orm_dbD[OF assms(1)]
  obtain s where s: "makeDeleteQuery my ty fac (Some td) obj = Some (True, s)" "scan s = Some (stmt_tokens (delete_stmt my td obj))"
    using delete_text[OF d(1,4,5)] by blast
  have "good_stmt ru (delete_stmt my td obj) db" "complete (delete_stmt my td obj)"
    using good_keys[OF assms(1,2)] d(6,9) by (simp_all add: delete_stmt_def equations_def)
  from mysql_run(1)[OF d(1) short_simps(5)[OF assms(3) s(1)] s(2) this(2,1)]
  show ?thesis by (simp add: del_def d(2,6) run_query_def s(1) delete_stmt_def matches_keys[OF d(3,7)])
qed

end

definition written :: "('d::zero, 'o, sql_db) mysqlpp \<Rightarrow> rules \<Rightarrow> ('t, ('d, 'o) field_value) TableDescriptor \<Rightarrow> sql_table \<Rightarrow> 't
    \<Rightarrow> (string \<Rightarrow> cell) \<Rightarrow> string \<Rightarrow> cell" where
  "written my ru td T obj r =
     (if has_key my ru td obj r then assign ru T (equations my td obj (fields_ordered td)) r else r)"

text \<open>An update changes no key, up to what the server takes for the same.\<close>

lemma same_key_subst:
  assumes "mysql_ok ru packet my"
    and "\<And>n r. n \<in> set (primary T) \<Longrightarrow> f r n = r n \<or> same_cell ru (column_type T n) (r n) (f r n)"
    and "same_key ru T (f r1) (f r2)"
  shows "same_key ru T r1 r2"
proof -
  have "same_cell ru (column_type T n) (r1 n) (r2 n)" if n: "n \<in> set (primary T)" for n
  proof -
    have s: "same_cell ru (column_type T n) (f r1 n) (f r2 n)" using assms(3) n by (simp add: same_key_def list_all_iff)
    then have "same_cell ru (column_type T n) (r1 n) (f r2 n)"
      using assms(2)[OF n, of r1] same_cell_trans[OF assms(1)] by metis
    then show ?thesis
      using assms(2)[OF n, of r2] same_cell_trans[OF assms(1) _ same_cell_sym[OF assms(1)]] by metis
  qed
  then show ?thesis using assms(3) by (simp add: same_key_def list_all_iff)
qed

lemma find_map: "find P (map f xs) = map_option f (find (\<lambda>x. P (f x)) xs)"
  by (induction xs) auto

context orm_class
begin

lemma written_holds:
  assumes "td_ok td" "schema_ok td T" "has_key my ru td obj r"
  shows "holds my ru td obj (written my ru td T obj r)"
  using holds_assign[OF assms(1,2)] assms(3) by (simp add: written_def equations_zip)

lemma written_key:
  assumes "mysql_ok ru packet my" "td_ok td" "schema_ok td T"
  shows "has_key my ru td other (written my ru td T obj r) = has_key my ru td other r"
proof (cases "has_key my ru td obj r")
  case True
  have "has_key my ru td other (written my ru td T obj r) = same_keys my ru td obj other"
    by (rule has_key_holds[OF assms(2) written_holds[OF assms(2,3) True]])
  also have "\<dots> = has_key my ru td other r"
    using has_key_same[OF assms(1) True] has_key_both[OF assms(1) True] by blast
  finally show ?thesis .
qed (simp add: written_def)

lemma written_unique:
  assumes "mysql_ok ru packet my" "td_ok td" "schema_ok td T" "unique_keys ru T"
  shows "unique_keys ru (T\<lparr>rows := map (written my ru td T obj) (rows T)\<rparr>)"
proof -
  have "written my ru td T obj r n = r n \<or> same_cell ru (column_type T n) (r n) (written my ru td T obj r n)"
    if n: "n \<in> set (primary T)" for n r
  proof (cases "has_key my ru td obj r")
    case True
    obtain fd where fd: "n = fd_name fd" "fd \<in> set (table_keys td)" using n assms(3) by (auto simp: schema_ok_def)
    have "written my ru td T obj r n = Some (literal_text (member_literal my td obj fd))"
      using written_holds[OF assms(2,3) True] key_field[OF assms(2) fd(2)] key_stored[OF assms(2) fd(2)] by (simp add: holds_def fd(1))
    then show ?thesis using True column_type_field[OF assms(3)] key_field[OF assms(2) fd(2)] fd by (simp add: has_key_def)
  qed (simp add: written_def)
  note sub = same_key_subst[where f = "written my ru td T obj", OF assms(1) this]
  have "same_key ru (T\<lparr>rows := rs\<rparr>) a b = same_key ru T a b" for rs a b
    by (simp add: same_key_def column_type_def)
  then show ?thesis using assms(4) sub
    by (auto simp: unique_keys_def sorted_wrt_map elim!: sorted_wrt_mono_rel[rotated])
qed

lemma update_run:
  assumes "orm_db my ru packet ty fac td T db" "storable_in my ru td storable obj" "short_texts my packet ty fac td obj"
    and "unique_keys ru T"
  shows "update_obj my ty fac obj db = (True, put_table (table td) (T\<lparr>rows := map (written my ru td T obj) (rows T)\<rparr>) db)"
proof -
  note d = orm_dbD[OF assms(1)]
  obtain s where s: "makeUpdateQuery my ty fac (Some td) obj = Some (True, s)" "scan s = Some (stmt_tokens (update_stmt my td obj))"
    using update_text[OF d(1,4,5)] by blast
  have "good_stmt ru (update_stmt my td obj) db"
    using good_fields[OF assms(1,2)] good_keys[OF assms(1) storable_keys[OF assms(1,2)]] by (simp add: update_stmt_def d(6))
  moreover have "complete (update_stmt my td obj)" using d(8,9) by (simp add: update_stmt_def equations_def)
  moreover have "(\<lambda>r. if matches ru T (Some (equations my td obj (table_keys td))) r
      then assign ru T (equations my td obj (fields_ordered td)) r else r) = written my ru td T obj"
    by (rule ext) (simp add: written_def matches_keys[OF d(3,7)])
  ultimately show ?thesis
    using mysql_run(1)[OF d(1) short_simps(4)[OF assms(3) s(1)] s(2)] written_unique[OF d(1,3,7) assms(4)]
    by (simp add: update_obj_def d(2,6) run_query_def s(1) update_stmt_def Let_def)
qed

text \<open>A row of an object is read into an object with its keys.\<close>

lemma select_found:
  assumes "orm_db my ru packet ty fac td T db" "storable_in my ru td storable obj"
    and "keys_fit my ru td old" "short_texts my packet ty fac td old"
    and "\<And>fd. fd \<in> set (fields_ordered td) \<Longrightarrow> fd_type fd = OBJECT \<Longrightarrow> blank fd old"
    and "one_row my ru td old (rows T)" "find (has_key my ru td old) (rows T) = Some r" "holds my ru td obj r"
  shows "\<exists>obj'. select my ty fac old db = ((True, obj'), db) \<and> (\<forall>fd\<in>set (fields_ordered td). member td fd obj' = member td fd obj)"
  using read_record[OF orm_dbD(1,3)[OF assms(1)] assms(2,8,5)] assms(7)
  by (auto simp: select_run[OF assms(1,3,4,6)])

lemma has_key_cong: "mysql_ok ru packet my \<Longrightarrow> same_keys my ru td o1 o2 \<Longrightarrow> has_key my ru td o1 = has_key my ru td o2"
  using has_key_same same_keys_equiv(2) by fastforce

lemma select_stored:
  assumes "orm_db my ru packet ty fac td T db" "storable_in my ru td storable obj" "keys_fit my ru td old"
    and "short_texts my packet ty fac td old" "same_keys my ru td obj old"
    and "\<And>fd. fd \<in> set (fields_ordered td) \<Longrightarrow> fd_type fd = OBJECT \<Longrightarrow> blank fd old"
    and "find (has_key my ru td obj) rs = None" "holds my ru td obj r"
  shows "\<exists>obj'. select my ty fac old (put_table (table td) (T\<lparr>rows := rs @ [r]\<rparr>) db) =
      ((True, obj'), put_table (table td) (T\<lparr>rows := rs @ [r]\<rparr>) db) \<and>
    (\<forall>fd\<in>set (fields_ordered td). member td fd obj' = member td fd obj)"
proof (rule select_found[OF orm_db_put[OF assms(1)] assms(2-4,6) _ _ assms(8)])
  note d = orm_dbD[OF assms(1)]
  show "one_row my ru td old (rows (T\<lparr>rows := rs @ [r]\<rparr>))"
    using one_row_stored[OF assms(7)] by (simp add: one_row_def has_key_cong[OF d(1) assms(5)])
  show "find (has_key my ru td old) (rows (T\<lparr>rows := rs @ [r]\<rparr>)) = Some r"
    using assms(7) has_key_holds[OF d(3) assms(8)] same_keys_equiv(1)[OF d(1)]
    by (simp add: find_append flip: has_key_cong[OF d(1) assms(5)])
qed

end

end
