(* ===== verification/Orm_Theorems.thy ===== *)
theory Orm_Theorems
  imports Orm_Crud
begin

text \<open>
  The properties of \<open>TinyMySqlORM\<close>: the statements it sends, objects that come back, keys that do
  not interfere, the structure of tables; and what it does not do as it means to. The
  witnesses compute with a class of users and the server of \<open>Sql_Server\<close>.
\<close>

subsection \<open>A class of users\<close>

text \<open>
  A user: number, name and friends. \<open>ascii_mysql\<close> is MySQL++ over the server of \<open>Sql_Server\<close>.
\<close>

definition ascii_mysql :: "(nat, 'o, sql_db) mysqlpp" where
  "ascii_mysql = \<lparr>quote = sql_quote, show_real = decimal,
     conv = (\<lambda>ty c. case c of None \<Rightarrow> None
       | Some s \<Rightarrow> Some (if ty = BOOL then VBool (s \<noteq> ''0'')
           else if ty \<in> {FLOAT, DOUBLE} then VReal (nat (digits_val s)) else VInt (int_val s))),
     cell_text = (\<lambda>c. case c of None \<Rightarrow> ''NULL'' | Some s \<Rightarrow> s),
     store = (\<lambda>text db. case sql_server ascii_rules text db of (Inl e, db) \<Rightarrow> (Inl e, db) | (Inr rs, db) \<Rightarrow> (Inr (Some rs), db)),
     execute = (\<lambda>text db. case sql_server ascii_rules text db of (Inl e, db) \<Rightarrow> (Inl e, db) | (Inr rs, db) \<Rightarrow> (Inr True, db))\<rparr>"

lemma ascii_mysql_ok: "mysql_ok ascii_rules packet ascii_mysql"
proof -
  have "ty \<notin> {FLOAT, DOUBLE}" if "int_range (abs_type ty 0) = Some x" for ty x using that by (cases ty) simp_all
  then show ?thesis unfolding mysql_ok_def
    using ascii_server_ok[of packet] lexes_quote decimal_not_Nil list_all_word_decimal by (auto simp: ascii_mysql_def)
qed

type_synonym user = "u32 \<times> bytes \<times> bytes list"

type_synonym user_value = "(nat, bytes list) field_value"

fun the_int :: "user_value \<Rightarrow> int" where "the_int (VInt i) = i" | "the_int _ = 0"
fun the_bytes :: "user_value \<Rightarrow> bytes" where "the_bytes (VText bs) = bs" | "the_bytes _ = []"
fun the_list :: "user_value \<Rightarrow> bytes list" where "the_list (VObject x) = x" | "the_list _ = []"

definition id_prop :: "bytes \<Rightarrow> u16 \<Rightarrow> (user, user_value) property" where
  "id_prop n i = Property_T n i (typeid_of UINT32) (\<lambda>w. VInt (uint w)) (\<lambda>v. word_of_int (the_int v))
     fst (\<lambda>w (_, n, f). (w, n, f)) (Impl_Integer_unsigned wire_pb 0)"

definition name_prop :: "bytes \<Rightarrow> u16 \<Rightarrow> (user, user_value) property" where
  "name_prop n i = Property_T n i (typeid_of VCHAR) VText the_bytes
     (\<lambda>(_, n, _). n) (\<lambda>n (w, _, f). (w, n, f)) (Impl_String wire_pb)"

definition friends_prop :: "bytes \<Rightarrow> u16 \<Rightarrow> (user, user_value) property" where
  "friends_prop n i = Property_T n i 20 VObject the_list
     (\<lambda>(_, _, f). f) (\<lambda>f (w, n, _). (w, n, f)) (Impl_Seq wire_pb (Impl_String wire_pb))"

lemmas user_props = id_prop_def name_prop_def friends_prop_def

definition user_fields :: "FieldDescriptor list" where
  "user_fields = [new_FieldDescriptor ''id'' UINT32 [] 0, new_FieldDescriptor ''name'' VCHAR [] 32, new_FieldDescriptor ''friends'' OBJECT [] 0]"

definition user_td :: "string \<Rightarrow> (user, user_value) TableDescriptor" where
  "user_td n = keys [''id''] (field friends_prop ''friends'' OBJECT [] 0
     (field name_prop ''name'' VCHAR [] 32 (field id_prop ''id'' UINT32 [] 0 (new_TableDescriptor n))))"

definition one_table :: "('t, 'v) TableDescriptor \<Rightarrow> ('t, 'v) TableFactory" where
  "one_table td = (case factory_table ''4User'' (table td) new_TableFactory of (i, fac) \<Rightarrow> on_descriptor i (\<lambda>_. td) fac)"

lemma user_td_simps:
  "table (user_td n) = n" "fields_ordered (user_td n) = user_fields" "table_keys (user_td n) = [new_FieldDescriptor ''id'' UINT32 [] 0]"
  "fields_by_name (user_td n) = [''id'' \<mapsto> user_fields ! 0, ''name'' \<mapsto> user_fields ! 1, ''friends'' \<mapsto> user_fields ! 2]"
  by (simp_all add: user_td_def keys_def key_def field_def base_field_def new_TableDescriptor_def getFieldDescriptor_def user_fields_def Let_def)

lemma user_properties:
  "propertyByName (tx ''id'') (reflection (user_td n)) = Some (id_prop (tx ''id'') 0)"
  "propertyByName (tx ''name'') (reflection (user_td n)) = Some (name_prop (tx ''name'') 0)"
  "propertyByName (tx ''friends'') (reflection (user_td n)) = Some (friends_prop (tx ''friends'') 0)"
proof -
  have p: "prop_name (id_prop k i) = k" "prop_name (name_prop k i) = k" "prop_name (friends_prop k i) = k"
    "prop_number (id_prop k i) = i" "prop_number (name_prop k i) = i" "prop_number (friends_prop k i) = i" for k i
    by (simp_all add: user_props Property_T_def)
  have r: "reflection (user_td n) = add_property (friends_prop (tx ''friends'') 0)
      (add_property (name_prop (tx ''name'') 0) (add_property (id_prop (tx ''id'') 0) (Struct (tx n) 0)))"
    by (simp add: user_td_def keys_def key_def field_def base_field_def new_TableDescriptor_def getFieldDescriptor_def Let_def)
  show "propertyByName (tx ''id'') (reflection (user_td n)) = Some (id_prop (tx ''id'') 0)"
    "propertyByName (tx ''name'') (reflection (user_td n)) = Some (name_prop (tx ''name'') 0)"
    "propertyByName (tx ''friends'') (reflection (user_td n)) = Some (friends_prop (tx ''friends'') 0)"
    unfolding r by (simp_all add: add_property_def hasProperty_def propertyByName_def Struct_def p Let_def)
qed

lemma one_table_simps: "tableByType ''4User'' (one_table td) = Some td" "tables (one_table td) = [(table td, td)]"
  "tableByName (table td) (one_table td) = Some td"
  by (simp_all add: one_table_def factory_table_def on_descriptor_def new_TableFactory_def tableByType_def tableByName_def tables_def Let_def)

lemma user_members:
  "member (user_td n) (new_FieldDescriptor ''id'' ty d s) u = Some (typeid_of UINT32, VInt (uint (fst u)))"
  "member (user_td n) (new_FieldDescriptor ''name'' ty d s) u = Some (typeid_of VCHAR, VText (fst (snd u)))"
  "member (user_td n) (new_FieldDescriptor ''friends'' ty d s) u = Some (20, VObject (snd (snd u)))"
  by (simp_all add: member_def new_FieldDescriptor_def user_properties) (simp_all add: user_props Property_T_def split: prod.splits)

definition user_blank :: "string \<Rightarrow> FieldDescriptor \<Rightarrow> user \<Rightarrow> bool" where
  "user_blank n fd u \<longleftrightarrow> member (user_td n) fd u = member (user_td n) fd (0, [], [])"

definition user_storable :: "FieldDescriptor \<Rightarrow> user \<Rightarrow> bool" where
  "user_storable fd u \<longleftrightarrow> length (serialize (Impl_Seq wire_pb (Impl_String wire_pb)) (snd (snd u))) < proto_limit"

lemma strings_nothing: "serialize (Impl_Seq wire_pb (Impl_String wire_pb)) xs = [] \<Longrightarrow> xs = []"
  by (simp add: Impl_Seq_def wire_pb_def)

lemma new_field_simps [simp]:
  "fd_type (new_FieldDescriptor a b c d) = b" "fd_name (new_FieldDescriptor a b c d) = a" "fd_deflt (new_FieldDescriptor a b c d) = c"
  "fd_size (new_FieldDescriptor a b c d) = ucast d"
  by (simp_all add: new_FieldDescriptor_def)

lemma user_field_cases:
  assumes "fd \<in> set (fields_ordered (user_td n))"
  obtains "fd = new_FieldDescriptor ''id'' UINT32 [] 0" | "fd = new_FieldDescriptor ''name'' VCHAR [] 32"
    | "fd = new_FieldDescriptor ''friends'' OBJECT [] 0"
  using assms by (auto simp: user_td_simps user_fields_def)

lemma user_set:
  "struct_set (typeid_of UINT32) u (tx ''id'') (VInt i) (reflection (user_td n)) = Some (word_of_int i, snd u)"
  "struct_set (typeid_of VCHAR) u (tx ''name'') (VText bs) (reflection (user_td n)) = Some (fst u, bs, snd (snd u))"
  by (simp_all add: struct_set_def user_properties) (simp_all add: user_props Property_T_def split: prod.splits)

lemma user_class: "orm_class (user_td n) (user_blank n) user_storable"
proof
  fix fd assume "fd \<in> set (fields_ordered (user_td n))"
  then show "\<exists>p. propertyByName (tx (fd_name fd)) (reflection (user_td n)) = Some p"
    by (cases rule: user_field_cases) (simp_all add: user_properties)
next
  fix fd and obj :: user assume "fd \<in> set (fields_ordered (user_td n))" "fd_type fd \<noteq> OBJECT"
  moreover have "0 \<le> uint (fst (obj :: user))" "uint (fst obj) < 4294967296"
    using uint_lt2p[of "fst obj"] by simp_all
  ultimately show "\<exists>v. member (user_td n) fd obj = Some (typeid_of (fd_type fd), v) \<and> has_type (fd_type fd) v"
    by (cases rule: user_field_cases) (simp_all add: user_members has_type_def is_text_def)
next
  fix fd and v :: user_value and obj assume fd: "fd \<in> set (fields_ordered (user_td n))" and v: "fd_type fd \<noteq> OBJECT" "has_type (fd_type fd) v"
  show "\<exists>obj'. struct_set (typeid_of (fd_type fd)) obj (tx (fd_name fd)) v (reflection (user_td n)) = Some obj' \<and>
      member (user_td n) fd obj' = Some (typeid_of (fd_type fd), v) \<and>
      (\<forall>fd'\<in>set (fields_ordered (user_td n)). fd_name fd' \<noteq> fd_name fd \<longrightarrow> member (user_td n) fd' obj' = member (user_td n) fd' obj)"
    using fd
  proof (cases rule: user_field_cases)
    case 1
    then obtain i where "v = VInt i" "0 \<le> i" "i < 2 ^ 32" using v by (cases v) (auto simp: has_type_def is_text_def)
    then show ?thesis
      by (auto simp: 1 user_set user_members user_td_simps user_fields_def uint_word_of_int)
  next
    case 2
    then obtain bs where "v = VText bs" using v by (cases v) (auto simp: has_type_def)
    then show ?thesis by (auto simp: 2 user_set user_members user_td_simps user_fields_def)
  qed (use v in simp)
next
  fix fd p obj assume "fd \<in> set (fields_ordered (user_td n))" "fd_type fd = OBJECT"
    "propertyByName (tx (fd_name fd)) (reflection (user_td n)) = Some p"
  then show "\<exists>bin. prop_serialize p obj = Inr bin"
    by (cases rule: user_field_cases) (auto simp: user_properties user_props Property_T_def)
next
  fix fd p obj bin old assume fd: "fd \<in> set (fields_ordered (user_td n))" "fd_type fd = OBJECT"
    and p: "propertyByName (tx (fd_name fd)) (reflection (user_td n)) = Some p"
    and s: "user_storable fd obj" "prop_serialize p obj = Inr bin" "user_blank n fd old"
  let ?S = "Impl_Seq wire_pb (Impl_String wire_pb)"
  from fd have f: "fd = new_FieldDescriptor ''friends'' OBJECT [] 0" by (cases rule: user_field_cases) simp_all
  then have pf: "p = friends_prop (tx ''friends'') 0" using p by (simp add: user_properties)
  have bin: "bin = serialize ?S (snd (snd obj))" using s(2) by (auto simp: pf friends_prop_def Property_T_def split: prod.splits)
  have old: "snd (snd old) = construct ?S" using s(3) by (simp add: user_blank_def f user_members Impl_Seq_def)
  have "deserialize ?S (snd (snd old)) bin = (True, snd (snd obj))"
    using serializer.round_trip[OF strings_serializer _ s(1)[unfolded user_storable_def]] by (auto simp: bin old)
  then have d: "prop_deserialize p old bin = Inr (True, fst old, fst (snd old), snd (snd obj))"
    by (cases old) (auto simp: pf friends_prop_def Property_T_def split: prod.splits)
  have e: "snd (snd obj) = []" if "bin = []" using strings_nothing bin that by metis
  show "if bin = [] then member (user_td n) fd old = member (user_td n) fd obj
      else \<exists>obj'. prop_deserialize p old bin = Inr (True, obj') \<and> member (user_td n) fd obj' = member (user_td n) fd obj \<and>
        (\<forall>fd'\<in>set (fields_ordered (user_td n)). fd_name fd' \<noteq> fd_name fd \<longrightarrow> member (user_td n) fd' obj' = member (user_td n) fd' old)"
    using e old d by (auto simp: f user_members user_td_simps user_fields_def Impl_Seq_def)
qed (simp add: user_blank_def)

interpretation users: orm_class "user_td ''users''" "user_blank ''users''" user_storable
  by (rule user_class)

text \<open>A table of users, empty or with one user.\<close>

definition user_table :: sql_table where
  "user_table = \<lparr>columns = map column_of user_fields, primary = [''id''], rows = []\<rparr>"

abbreviation users_td :: "(user, user_value) TableDescriptor" where "users_td \<equiv> user_td ''users''"

definition ann :: user where "ann = (7, tx ''ann'', [tx ''bob''])"

definition bob :: user where "bob = (8, tx ''bob'', [])"

definition users_db :: sql_db where "users_db = [(''users'', user_table)]"

lemma users_orm_db: "orm_db ascii_mysql ascii_rules 1000 ''4User'' (one_table users_td) users_td user_table users_db"
proof -
  have "plain_table users_td" by (auto simp: plain_table_def user_td_simps user_fields_def plain_field_def special_chars split: if_splits)
  then have "td_ok users_td"
    by (simp add: td_ok_def user_td_simps user_fields_def is_blob_fd is_real_def) (simp add: fd_sql_type_def)
  then show ?thesis
    by (simp add: orm_db_def ascii_mysql_ok one_table_simps users_db_def schema_ok_def user_table_def user_td_simps user_fields_def column_of_def)
qed

lemma users_unique: "unique_keys ascii_rules user_table"
  by (simp add: unique_keys_def user_table_def)

definition some_users :: "user list" where "some_users = [ann, bob, (7, [], [])]"

lemma users_literals:
  "map (\<lambda>u. map (member_literal ascii_mysql users_td u) user_fields) some_users =
   [[Num ''7'', Txt ''ann'', Txt [CHR 0x0A, CHR 0x07, CHR 0x0A, CHR 0x05, CHR 0x0A, CHR 0x03, CHR ''b'', CHR ''o'', CHR ''b'']], [Num ''8'', Txt ''bob'', Txt []], [Num ''7'', Txt [], Txt []]]"
  by code_simp

lemma users_fit: "u \<in> set some_users \<Longrightarrow> fd \<in> set user_fields \<Longrightarrow> fits ascii_rules (fd_sql_type fd) (member_literal ascii_mysql users_td u fd)"
proof -
  have "''7'' = int_decimal 7" "''8'' = int_decimal 8" by code_simp+
  then have "int_val ''7'' = 7" "int_val ''8'' = 8" by simp_all
  then show "u \<in> set some_users \<Longrightarrow> fd \<in> set user_fields \<Longrightarrow> fits ascii_rules (fd_sql_type fd) (member_literal ascii_mysql users_td u fd)"
    using users_literals \<open>''7'' = _\<close> \<open>''8'' = _\<close>
    by (auto simp: some_users_def user_fields_def fd_sql_type_def fits_text_def is_blob_def ascii_rules_def)
qed

lemma users_storable:
  assumes "u \<in> set some_users"
  shows "storable_in ascii_mysql ascii_rules users_td user_storable u" "keys_fit ascii_mysql ascii_rules users_td u"
    "short_texts ascii_mysql 1000 ''4User'' (one_table users_td) users_td u"
proof -
  have "list_all (\<lambda>u. length (serialize (Impl_Seq wire_pb (Impl_String wire_pb)) (snd (snd u))) < 10) some_users" by code_simp
  then have "length (serialize (Impl_Seq wire_pb (Impl_String wire_pb)) (snd (snd u))) < 10" using assms unfolding list_all_iff by blast
  moreover have "10 \<le> proto_limit" by (simp add: proto_limit_def)
  ultimately have "user_storable fd u" for fd unfolding user_storable_def by linarith
  moreover have "\<not> is_real (fd_sql_type fd)" if "fd \<in> set user_fields" for fd using that by (auto simp: user_fields_def is_real_def fd_sql_type_def)
  ultimately show "storable_in ascii_mysql ascii_rules users_td user_storable u"
    using users_fit[OF assms] by (simp add: storable_in_def user_td_simps)
  show "keys_fit ascii_mysql ascii_rules users_td u"
    using users_fit[OF assms] by (simp add: keys_fit_def user_td_simps user_fields_def)
  have "list_all (\<lambda>u. list_all (\<lambda>f. case f ascii_mysql ''4User'' (one_table users_td) (Some users_td) u of Some (b, s) \<Rightarrow> length s + 8 < 1000 | None \<Rightarrow> True)
     [makeSelectQuery, makeInsertQuery, makeReplaceQuery, makeUpdateQuery, makeDeleteQuery]) some_users"
     by code_simp
  then show "short_texts ascii_mysql 1000 ''4User'' (one_table users_td) users_td u"
    using assms by (fastforce simp: short_texts_def list_all_iff)
qed

text \<open>The key of ann is that of a fresh object with her number, and her members are all there is of her.\<close>

lemma ann_keys: "same_keys ascii_mysql ascii_rules users_td ann (7, [], [])"
  using users_literals by (simp add: same_keys_def user_td_simps user_fields_def some_users_def ascii_rules_def)

lemma ann_members: "\<forall>fd\<in>set (fields_ordered users_td). member users_td fd u = member users_td fd ann \<Longrightarrow> u = ann"
  by (cases u) (auto simp: user_td_simps user_fields_def user_members ann_def word_uint_eq_iff)

lemma ann_fresh:
  assumes "fd \<in> set (fields_ordered users_td)" "fd_type fd = OBJECT"
  shows "user_blank ''users'' fd (7, [], [])"
  using assms by (cases rule: user_field_cases) (simp_all add: user_blank_def user_members)

subsection \<open>Properties\<close>

text \<open>
  C7. \<open>insert\<close> succeeds exactly if no row has the keys of the object, and otherwise changes nothing.
  After an \<open>insert\<close>, a \<open>replace\<close>, or an \<open>update\<close> of a row that is there, \<open>select\<close> into any
  object with the same keys, whose object members are fresh, reads every member back.
\<close>

theorem stored_objects_come_back:
  assumes C: "orm_class td blank storable" and db: "orm_db my ru packet ty fac td T db" "unique_keys ru T"
    and obj: "storable_in my ru td storable obj" "short_texts my packet ty fac td obj"
    and old: "same_keys my ru td obj old" "keys_fit my ru td old" "short_texts my packet ty fac td old"
      "\<And>fd. fd \<in> set (fields_ordered td) \<Longrightarrow> fd_type fd = OBJECT \<Longrightarrow> blank fd old"
  shows "fst (insert_obj my ty fac obj db) = (\<not> list_ex (has_key my ru td obj) (rows T)) \<and>
    (\<not> fst (insert_obj my ty fac obj db) \<longrightarrow> snd (insert_obj my ty fac obj db) = db) \<and>
    fst (replace my ty fac obj db) \<and> fst (update_obj my ty fac obj db) \<and>
    (\<forall>db'. (True, db') \<in> {insert_obj my ty fac obj db, replace my ty fac obj db} \<or>
       list_ex (has_key my ru td obj) (rows T) \<and> update_obj my ty fac obj db = (True, db') \<longrightarrow>
       (\<exists>obj'. select my ty fac old db' = ((True, obj'), db') \<and>
          (\<forall>fd\<in>set (fields_ordered td). member td fd obj' = member td fd obj)))"
proof -
  note d = orm_dbD[OF db(1)]
  note stored = orm_class.select_stored[OF C db(1) obj(1) old(2,3,1,4) _ holds_the_row[OF d(3,7), of my ru obj]]
  note ins = orm_class.insert_run[OF C db(1) obj] and upd = orm_class.update_run[OF C db(1) obj db(2)]
  have "\<exists>obj'. select my ty fac old db' = ((True, obj'), db') \<and> (\<forall>fd\<in>set (fields_ordered td). member td fd obj' = member td fd obj)"
    if u: "list_ex (has_key my ru td obj) (rows T)" "update_obj my ty fac obj db = (True, db')" for db'
  proof -
    let ?f = "written my ru td T obj"
    obtain r where r: "find (has_key my ru td obj) (rows T) = Some r" "has_key my ru td obj r"
      using u(1) by (cases "find (has_key my ru td obj) (rows T)") (auto simp: find_None_iff find_Some_iff list_ex_iff)
    have "find (has_key my ru td old) (map ?f (rows T)) = Some (?f r)"
      using r(1) by (simp add: find_map orm_class.written_key[OF C d(1,3,7)] flip: orm_class.has_key_cong[OF C d(1) old(1)])
    moreover have "holds my ru td obj (?f r)" by (rule orm_class.written_holds[OF C d(3,7) r(2)])
    moreover have "one_row my ru td old (map ?f (rows T))"
      using unique_one_row[OF d(1,3) _ orm_class.written_unique[OF C d(1,3,7) db(2)]] d(7) by simp
    moreover have "db' = put_table (table td) (T\<lparr>rows := map ?f (rows T)\<rparr>) db" using u(2) by (simp add: upd)
    ultimately show ?thesis
      using orm_class.select_found[OF C orm_db_put[OF db(1)] obj(1) old(2,3,4), of "map ?f (rows T)" "?f r"] by simp
  qed
  moreover have "find (has_key my ru td obj) (filter (\<lambda>r. \<not> has_key my ru td obj r) (rows T)) = None"
    by (rule find_filter_None) simp
  moreover have "find (has_key my ru td obj) (rows T) = None" if "\<not> list_ex (has_key my ru td obj) (rows T)"
    using that by (auto simp: find_None_iff list_ex_iff)
  ultimately show ?thesis using stored by (auto simp: ins upd split: if_splits)
qed

theorem stored_objects_come_back_witness:
  "\<exists>db'. insert_obj ascii_mysql ''4User'' (one_table users_td) ann users_db = (True, db') \<and>
     select ascii_mysql ''4User'' (one_table users_td) (7, [], []) db' = ((True, ann), db')"
proof -
  have n: "\<not> list_ex (has_key ascii_mysql ascii_rules users_td ann) (rows user_table)" by (simp add: user_table_def)
  have listed: "ann \<in> set some_users" "(7, [], []) \<in> set some_users" by (simp_all add: some_users_def)
  note come = stored_objects_come_back[OF user_class, OF users_orm_db users_unique, OF users_storable(1,3)[OF listed(1)] ann_keys,
      OF users_storable(2,3)[OF listed(2)] ann_fresh]
  have "fst (insert_obj ascii_mysql ''4User'' (one_table users_td) ann users_db)" using come[THEN conjunct1] n by (rule iffD2)
  then obtain db' where ins: "insert_obj ascii_mysql ''4User'' (one_table users_td) ann users_db = (True, db')"
    by (cases "insert_obj ascii_mysql ''4User'' (one_table users_td) ann users_db") auto
  then obtain obj' where "select ascii_mysql ''4User'' (one_table users_td) (7, [], []) db' = ((True, obj'), db')"
      "\<forall>fd\<in>set (fields_ordered users_td). member users_td fd obj' = member users_td fd ann"
    using come by (metis insertI1)
  then show ?thesis using ins ann_members[of obj'] by simp
qed

text \<open>
  C13. The texts of the five queries are the statements they are meant to be, on the fields and the keys
  of the table, whatever the members of the object hold: no member ends a text or adds to it.
\<close>

theorem query_statements:
  assumes "orm_class td blank storable" "mysql_ok ru packet my" "plain_table td" "set (table_keys td) \<subseteq> set (fields_ordered td)"
  shows "\<exists>sel ins rep upd del.
    makeSelectQuery my ty fac (Some td) obj = Some (True, sel) \<and> scan (sel @ '' LIMIT 1'') = Some (stmt_tokens (select_stmt my td obj)) \<and>
    makeInsertQuery my ty fac (Some td) obj = Some (True, ins) \<and> scan ins = Some (stmt_tokens (insert_stmt False my td obj)) \<and>
    makeReplaceQuery my ty fac (Some td) obj = Some (True, rep) \<and> scan rep = Some (stmt_tokens (insert_stmt True my td obj)) \<and>
    makeUpdateQuery my ty fac (Some td) obj = Some (True, upd) \<and> scan upd = Some (stmt_tokens (update_stmt my td obj)) \<and>
    makeDeleteQuery my ty fac (Some td) obj = Some (True, del) \<and> scan del = Some (stmt_tokens (delete_stmt my td obj))"
  using orm_class.select_text[OF assms, of ty fac obj] orm_class.insert_text[OF assms(1-3), of ty fac obj]
    orm_class.update_text[OF assms, of ty fac obj] orm_class.delete_text[OF assms, of ty fac obj] by (elim exE) blast

text \<open>A user whose name would end the statement and begin another.\<close>

definition mallory :: user where "mallory = (9, tx (''x'' @ [quote_char] @ '' OR 1=1 -- ''), [])"

theorem query_statements_witness:
  "\<exists>text. makeUpdateQuery ascii_mysql ''4User'' (one_table users_td) (Some users_td) mallory = Some (True, text) \<and>
     scan text = Some (stmt_tokens (Update ''users''
       [(''id'', Num ''9''), (''name'', Txt (''x'' @ [quote_char] @ '' OR 1=1 -- '')), (''friends'', Txt [])] [(''id'', Num ''9'')]))"
proof -
  have "equations ascii_mysql users_td mallory user_fields =
      [(''id'', Num ''9''), (''name'', Txt (''x'' @ [quote_char] @ '' OR 1=1 -- '')), (''friends'', Txt [])]"
    "equations ascii_mysql users_td mallory [user_fields ! 0] = [(''id'', Num ''9'')]" by code_simp+
  then have "update_stmt ascii_mysql users_td mallory = Update ''users''
       [(''id'', Num ''9''), (''name'', Txt (''x'' @ [quote_char] @ '' OR 1=1 -- '')), (''friends'', Txt [])] [(''id'', Num ''9'')]"
    by (simp add: update_stmt_def user_td_simps user_fields_def)
  then show ?thesis
    using query_statements[OF user_class orm_dbD(1,4,5)[OF users_orm_db], of "''4User''" "one_table users_td" mallory] by metis
qed

lemma find_same: "filter P xs = filter P ys \<Longrightarrow> find P xs = find P ys"
proof -
  have "find P zs = (case filter P zs of [] \<Rightarrow> None | z # _ \<Rightarrow> Some z)" for zs by (induction zs) auto
  then show "filter P xs = filter P ys \<Longrightarrow> find P xs = find P ys" by simp
qed

lemma select_other:
  assumes "orm_class td blank storable" "orm_db my ru packet ty fac td T db" "keys_fit my ru td other" "short_texts my packet ty fac td other"
    and "one_row my ru td other (rows T)" "filter (has_key my ru td other) rs = filter (has_key my ru td other) (rows T)"
  shows "select my ty fac other (put_table (table td) (T\<lparr>rows := rs\<rparr>) db) =
    (fst (select my ty fac other db), put_table (table td) (T\<lparr>rows := rs\<rparr>) db)"
proof -
  have one: "one_row my ru td other (rows (T\<lparr>rows := rs\<rparr>))" using assms(5,6) by (simp add: one_row_def)
  show ?thesis
    unfolding orm_class.select_run[OF assms(1) orm_db_put[OF assms(2)] assms(3,4) one] orm_class.select_run[OF assms(1,2,3,4,5)]
    using find_same[OF assms(6)] by (simp split: option.splits prod.splits)
qed

lemma filter_map_same: "(\<And>x. P (f x) = P x) \<Longrightarrow> (\<And>x. P x \<Longrightarrow> f x = x) \<Longrightarrow> filter P (map f xs) = filter P xs"
  by (induction xs) auto

text \<open>
  C25. An \<open>insert\<close>, \<open>replace\<close>, \<open>update\<close> or \<open>del\<close> of an object changes nothing of what \<open>select\<close> reads for other
  keys; \<open>del\<close> succeeds, and \<open>select\<close> then finds no row for the keys of the object.
\<close>

theorem other_keys_untouched:
  assumes C: "orm_class td blank storable" and db: "orm_db my ru packet ty fac td T db" "unique_keys ru T"
    and obj: "storable_in my ru td storable obj" "short_texts my packet ty fac td obj"
    and other: "\<not> same_keys my ru td obj other" "keys_fit my ru td other" "short_texts my packet ty fac td other"
  shows "(\<forall>op\<in>{insert_obj my ty fac, replace my ty fac, update_obj my ty fac, del my ty fac}.
      select my ty fac other (snd (op obj db)) = (fst (select my ty fac other db), snd (op obj db))) \<and>
    fst (del my ty fac obj db) \<and>
    select my ty fac obj (snd (del my ty fac obj db)) = ((False, obj), snd (del my ty fac obj db))"
proof -
  note d = orm_dbD[OF db(1)]
  note keys = orm_class.storable_keys[OF C db(1) obj(1)]
  have one: "one_row my ru td other (rows T)" by (rule unique_one_row[OF d(1,3,7) db(2)])
  note other_select = select_other[OF C db(1) other(2,3) one]
  have both: "\<not> has_key my ru td obj r" if "has_key my ru td other r" for r
    using has_key_both[OF d(1) _ that] other(1) by blast
  then have "filter (has_key my ru td other) (filter (\<lambda>r. \<not> has_key my ru td obj r) (rows T)) = filter (has_key my ru td other) (rows T)"
    by (auto simp: filter_filter intro!: filter_cong)
  moreover have row: "\<not> has_key my ru td other (the_row my ru td T obj)"
    using has_key_holds[OF d(3) holds_the_row[OF d(3,7)]] other(1) by blast
  moreover have "filter (has_key my ru td other) (map (written my ru td T obj) (rows T)) = filter (has_key my ru td other) (rows T)"
    using both by (intro filter_map_same orm_class.written_key[OF C d(1,3,7)]) (simp add: written_def)
  moreover have "find (has_key my ru td obj) (filter (\<lambda>r. \<not> has_key my ru td obj r) (rows T)) = None"
    by (rule find_filter_None) simp
  moreover have "one_row my ru td obj (filter (\<lambda>r. \<not> has_key my ru td obj r) (rows T))" by (simp add: one_row_def)
  moreover have "select my ty fac other db = (fst (select my ty fac other db), db)"
    unfolding orm_class.select_run[OF C db(1) other(2,3) one] by (simp split: option.splits prod.splits)
  ultimately show ?thesis
    using orm_class.select_run[OF C orm_db_put[OF db(1)] keys obj(2)]
    by (simp add: orm_class.insert_run[OF C db(1) obj] orm_class.update_run[OF C db(1) obj db(2)]
        orm_class.del_run[OF C db(1) keys obj(2)] other_select split: option.splits prod.splits)
qed


theorem other_keys_untouched_witness:
  "select ascii_mysql ''4User'' (one_table users_td) ann (snd (insert_obj ascii_mysql ''4User'' (one_table users_td) bob users_db)) =
     (fst (select ascii_mysql ''4User'' (one_table users_td) ann users_db), snd (insert_obj ascii_mysql ''4User'' (one_table users_td) bob users_db))"
proof -
  have "\<not> same_keys ascii_mysql ascii_rules users_td bob ann"
    using users_literals by (simp add: same_keys_def user_td_simps user_fields_def some_users_def ascii_rules_def)
  moreover have "ann \<in> set some_users" "bob \<in> set some_users" by (simp_all add: some_users_def)
  ultimately show ?thesis
    using other_keys_untouched[OF user_class, OF users_orm_db users_unique, OF users_storable(1,3)[of bob], of ann] users_storable(2,3)[of ann]
    by blast
qed

lemma mysql_refuse:
  assumes "mysql_ok ru packet my" "scan s = Some (stmt_tokens stmt)" "empty_where stmt"
  shows "\<exists>e. store my s db = (Inl e, db)" "\<exists>e. execute my s db = (Inl e, db)"
proof -
  obtain run where "server_ok ru packet run"
      "\<forall>text db. store my text db = (case run text db of (Inl e, db) \<Rightarrow> (Inl e, db) | (Inr rs, db) \<Rightarrow> (Inr (Some rs), db))"
      "\<forall>text db. execute my text db = (case run text db of (Inl e, db) \<Rightarrow> (Inl e, db) | (Inr rs, db) \<Rightarrow> (Inr True, db))"
    using assms(1) by (auto simp: mysql_ok_def)
  moreover from this(1) obtain e where "run s db = (Inl e, db)" using assms(2,3) unfolding server_ok_def by blast
  ultimately show "\<exists>e. store my s db = (Inl e, db)" "\<exists>e. execute my s db = (Inl e, db)" by simp_all
qed

text \<open>
  On a table without keys, \<open>select\<close>, \<open>update\<close> and \<open>del\<close> send a statement with an empty condition: the
  server refuses it, they return false and the database stays as it was.
\<close>

theorem no_keys_refused:
  assumes C: "orm_class td blank storable" and "mysql_ok ru packet my" "tableByType ty fac = Some td" "plain_table td"
    and "table_keys td = []" "fields_ordered td \<noteq> []"
  shows "select my ty fac obj db = ((False, obj), db) \<and> update_obj my ty fac obj db = (False, db) \<and> del my ty fac obj db = (False, db)"
proof -
  have k: "set (table_keys td) \<subseteq> set (fields_ordered td)" by (simp add: assms(5))
  obtain s u d where s: "makeSelectQuery my ty fac (Some td) obj = Some (True, s)" "scan (s @ '' LIMIT 1'') = Some (stmt_tokens (select_stmt my td obj))"
    and u: "makeUpdateQuery my ty fac (Some td) obj = Some (True, u)" "scan u = Some (stmt_tokens (update_stmt my td obj))"
    and d: "makeDeleteQuery my ty fac (Some td) obj = Some (True, d)" "scan d = Some (stmt_tokens (delete_stmt my td obj))"
    using orm_class.select_text[OF C assms(2,4) k] orm_class.update_text[OF C assms(2,4) k] orm_class.delete_text[OF C assms(2,4) k] by metis
  have "empty_where (select_stmt my td obj)" "empty_where (update_stmt my td obj)" "empty_where (delete_stmt my td obj)"
    using assms(6) by (simp_all add: select_stmt_def update_stmt_def delete_stmt_def equations_def assms(5))
  then have "\<exists>e. store my (s @ '' LIMIT 1'') db = (Inl e, db)" "\<exists>e. execute my u db = (Inl e, db)" "\<exists>e. execute my d db = (Inl e, db)"
    using mysql_refuse[OF assms(2)] s(2) u(2) d(2) by blast+
  then show ?thesis
    by (auto simp: select_def update_obj_def del_def run_query_def assms(3) s(1) u(1) d(1))
qed

definition keyless_td :: "(user, user_value) TableDescriptor" where "keyless_td = users_td\<lparr>table_keys := []\<rparr>"

theorem no_keys_refused_witness:
  "del ascii_mysql ''4User'' (one_table keyless_td) ann users_db = (False, users_db)"
proof -
  have same: "reflection keyless_td = reflection users_td" "fields_ordered keyless_td = fields_ordered users_td" by (simp_all add: keyless_td_def)
  then have mem: "member keyless_td = member users_td" by (intro ext) (simp add: member_def)
  have "orm_class keyless_td (user_blank ''users'') user_storable = orm_class users_td (user_blank ''users'') user_storable"
    unfolding orm_class_def same mem by (rule refl)
  then have "orm_class keyless_td (user_blank ''users'') user_storable" using user_class by blast
  moreover have "plain_table keyless_td" using orm_dbD(4)[OF users_orm_db] by (simp add: keyless_td_def plain_table_def)
  ultimately show ?thesis
    using no_keys_refused[OF _ ascii_mysql_ok[of 0] one_table_simps(1), of keyless_td "user_blank ''users''" user_storable ann users_db]
    by (simp add: keyless_td_def user_td_simps user_fields_def)
qed

lemma load_rows:
  assumes "orm_class td blank storable" "mysql_ok ru packet my" "td_ok td"
    and "list_all2 (\<lambda>obj r. storable_in my ru td storable obj \<and> holds my ru td obj r) objs rs"
    and "\<And>fd. fd \<in> set (fields_ordered td) \<Longrightarrow> fd_type fd = OBJECT \<Longrightarrow> blank fd fresh"
  shows "\<exists>objs'. load_loop my td fresh (\<lambda>r rs. rs @ [r]) (map (\<lambda>r. map r (map fd_name (fields_ordered td))) rs) acc = (True, acc @ objs') \<and>
    list_all2 (\<lambda>obj obj'. \<forall>fd\<in>set (fields_ordered td). member td fd obj' = member td fd obj) objs objs'"
  using assms(4)
proof (induction arbitrary: acc rule: list_all2_induct)
  case Nil
  then show ?case by simp
next
  case (Cons obj objs r rs)
  obtain o' where o': "recordToObject my td (map r (map fd_name (fields_ordered td))) fresh = (Some True, o')"
      "\<forall>fd\<in>set (fields_ordered td). member td fd o' = member td fd obj"
    using orm_class.read_record[OF assms(1-3) _ _ assms(5)] Cons.hyps(1) by blast
  from Cons.IH[of "acc @ [o']"] obtain objs' where
    "load_loop my td fresh (\<lambda>r rs. rs @ [r]) (map (\<lambda>r. map r (map fd_name (fields_ordered td))) rs) (acc @ [o']) = (True, (acc @ [o']) @ objs')"
    "list_all2 (\<lambda>obj obj'. \<forall>fd\<in>set (fields_ordered td). member td fd obj' = member td fd obj) objs objs'" by blast
  then show ?case using o' by (intro exI[of _ "o' # objs'"]) simp
qed

text \<open>
  C36. \<open>loadFromDB\<close> without a clause returns the object of every row, each once and with every member as it
  was stored, in the order in which the server lists the rows; \<open>deleteFromDB\<close> without a clause leaves the table without rows.
\<close>

theorem all_objects_loaded:
  assumes C: "orm_class td blank storable" and db: "orm_db my ru packet ty fac td T db"
    and rows: "list_all2 (\<lambda>obj r. storable_in my ru td storable obj \<and> holds my ru td obj r) objs (rows T)"
    and fresh: "\<And>fd. fd \<in> set (fields_ordered td) \<Longrightarrow> fd_type fd = OBJECT \<Longrightarrow> blank fd fresh"
    and short: "length (sql_fieldlist td) + length (table td) + 23 < packet"
  shows "(\<exists>objs' listed. loadFromDB my ty fac fresh None [] db = ((True, objs'), db) \<and> mset listed = mset objs \<and>
      list_all2 (\<lambda>obj obj'. \<forall>fd\<in>set (fields_ordered td). member td fd obj' = member td fd obj) listed objs') \<and>
    deleteFromDB my ty fac None db = (True, put_table (table td) (T\<lparr>rows := []\<rparr>) db)"
proof -
  note d = orm_dbD[OF db]
  have p: "backquote \<notin> set (table td)" "list_all plain_field (fields_ordered td)" using d(4) by (simp_all add: plain_table_def)
  let ?sel = "Select (map fd_name (fields_ordered td)) (table td) None False"
  have tab: "closed (in_backquotes (table td) @ '' '') [Ident (table td)]"
    using lexes_then[OF lexes_ident[OF p(1)] closed_space] by simp
  from closed_append[OF closed_query(1) lexes_then[OF lexes_names[OF p(2)] closed_query(2)]]
  have "closed (''SELECT '' @ sql_fieldlist td @ '' FROM '') (Word ''SELECT'' # idents_tokens (map fd_name (fields_ordered td)) @ [Word ''FROM''])"
    by (simp add: sql_fieldlist_def)
  from closed_append[OF this tab] have "closed (''SELECT '' @ sql_fieldlist td @ '' FROM '' @ in_backquotes (table td) @ '' '') (stmt_tokens ?sel)" by simp
  then have sel: "scan (''SELECT '' @ sql_fieldlist td @ '' FROM '' @ in_backquotes (table td) @ '' '') = Some (stmt_tokens ?sel)"
    by (rule lexes_lex[OF closed_lexes])
  from closed_append[OF closed_query(11) tab] have "closed (''DELETE FROM '' @ in_backquotes (table td) @ '' '') (stmt_tokens (Delete (table td) None))" by simp
  then have del: "scan (''DELETE FROM '' @ in_backquotes (table td) @ '' '') = Some (stmt_tokens (Delete (table td) None))"
    by (rule lexes_lex[OF closed_lexes])
  have "set (map fd_name (fields_ordered td)) \<subseteq> fst ` set (columns T)" using field_column[OF d(7)] by auto
  then have good: "good_stmt ru ?sel db" "good_stmt ru (Delete (table td) None) db" by (simp_all add: d(6) good_where_def)
  have m: "matches ru T None = (\<lambda>_. True)" by (rule ext) (simp add: matches_def)
  obtain rs where rs: "mset rs = mset (rows T)" "store my (''SELECT '' @ sql_fieldlist td @ '' FROM '' @ in_backquotes (table td) @ '' '') db =
      (Inr (Some (map (\<lambda>r. map r (map fd_name (fields_ordered td))) rs)), db)"
    using mysql_select[OF d(1) _ sel _ good(1) d(6)] short d(8) by (auto simp: in_backquotes_def m)
  have "list_all2 (\<lambda>r obj. storable_in my ru td storable obj \<and> holds my ru td obj r) (rows T) objs"
    using rows by (simp add: list_all2_conv_all_nth)
  from list_all2_reorder_left_invariance[OF this rs(1)] obtain listed where
    l: "list_all2 (\<lambda>obj r. storable_in my ru td storable obj \<and> holds my ru td obj r) listed rs" "mset listed = mset objs"
    by (auto simp: list_all2_conv_all_nth)
  have "execute my (''DELETE FROM '' @ in_backquotes (table td) @ '' '') db = (Inr True, put_table (table td) (T\<lparr>rows := []\<rparr>) db)"
    using mysql_run(1)[OF d(1) _ del _ good(2)] short by (simp add: in_backquotes_def d(6) m)
  moreover have "\<exists>objs'. loadFromDB my ty fac fresh None [] db = ((True, objs'), db) \<and>
      list_all2 (\<lambda>obj obj'. \<forall>fd\<in>set (fields_ordered td). member td fd obj' = member td fd obj) listed objs'"
    using load_rows[OF C d(1,3) l(1) fresh, of "[]"] rs(2) by (simp add: loadFromDB_def vloadFromDB_def d(2) statement_def)
  ultimately show ?thesis using l(2) by (simp add: deleteFromDB_def run_query_def d(2) statement_def) blast
qed

theorem all_objects_loaded_witness:
  "let row = the_row ascii_mysql ascii_rules users_td user_table;
       db = put_table ''users'' (user_table\<lparr>rows := [row ann, row bob]\<rparr>) users_db
   in \<exists>us. loadFromDB ascii_mysql ''4User'' (one_table users_td) (0, [], []) None [] db = ((True, us), db) \<and> mset us = {#ann, bob#}"
proof -
  let ?row = "the_row ascii_mysql ascii_rules users_td user_table"
  note d = orm_dbD[OF users_orm_db]
  have m: "u = v" if "\<forall>fd\<in>set (fields_ordered users_td). member users_td fd u = member users_td fd v" for u v
    using that by (cases u; cases v) (auto simp: user_td_simps user_fields_def user_members word_uint_eq_iff)
  have r: "list_all2 (\<lambda>u r. storable_in ascii_mysql ascii_rules users_td user_storable u \<and> holds ascii_mysql ascii_rules users_td u r)
      [ann, bob] (rows (user_table\<lparr>rows := [?row ann, ?row bob]\<rparr>))"
    by (simp add: users_storable(1) some_users_def holds_the_row[OF d(3,7)])
  have fresh: "user_blank ''users'' fd (0, [], [])" for fd by (simp add: user_blank_def)
  have l: "length (sql_fieldlist users_td) + length (table users_td) + 23 < 1000"
    by (simp add: sql_fieldlist_def user_td_simps user_fields_def in_backquotes_def)
  have same: "us = vs" if "list_all2 (\<lambda>u u'. \<forall>fd\<in>set (fields_ordered users_td). member users_td fd u' = member users_td fd u) vs us" for us vs
    using that by (induction rule: list_all2_induct) (simp, blast dest: m)
  from all_objects_loaded[OF user_class orm_db_put[OF users_orm_db] r fresh l]
  obtain us vs where us: "loadFromDB ascii_mysql ''4User'' (one_table users_td) (0, [], []) None []
        (put_table (table users_td) (user_table\<lparr>rows := [?row ann, ?row bob]\<rparr>) users_db) =
      ((True, us), put_table (table users_td) (user_table\<lparr>rows := [?row ann, ?row bob]\<rparr>) users_db)"
      "mset vs = mset [ann, bob]"
      "list_all2 (\<lambda>u u'. \<forall>fd\<in>set (fields_ordered users_td). member users_td fd u' = member users_td fd u) vs us"
    by (elim conjE exE) (rule that)
  then show ?thesis using same[OF us(3)] by (simp add: user_td_simps)
qed

end
