(* ===== verification/Orm_Structure.thy ===== *)
theory Orm_Structure
  imports Orm_Theorems
begin

text \<open>
  The structure of tables: \<open>createTable\<close>, \<open>updateTable\<close> and \<open>updateTables\<close> of \<open>TinyMySqlORM\<close> over a server
  that keeps \<open>server_ok\<close>. \<open>creatable\<close> is what a descriptor needs so that its statements are good.
\<close>

subsection \<open>Tables that can be created\<close>

lemma like_self: "backslash \<notin> set s \<Longrightarrow> like s s"
proof (induction s)
  case (Cons c s)
  have "like (CHR ''%'' # p) s" if "like p s" for p s using that by (cases s) simp_all
  then show ?case using Cons by (cases "c = CHR ''%''") (auto simp: special_chars)
qed simp

lemma put_table_same: "distinct (map fst db) \<Longrightarrow> map_of db n = Some T \<Longrightarrow> put_table n T db = db"
  by (auto simp: put_table_def intro!: map_idI dest: map_of_SomeD eq_key_imp_eq_value)

lemma put_table_twice [simp]: "put_table n a (put_table n b db) = put_table n a db"
  by (auto simp: put_table_def)

lemma upper_upper [simp]: "upper (upper s) = upper s"
proof -
  have "upper (upper [c]) = upper [c]" for c
    by (auto simp: upper_def less_eq_char_def)
  then show ?thesis by (simp add: upper_def)
qed

definition creatable :: "('d, 'o, 'db) mysqlpp \<Rightarrow> rules \<Rightarrow> nat \<Rightarrow> ('t, 'v) TableDescriptor \<Rightarrow> bool" where
  "creatable my ru packet td \<longleftrightarrow> plain_table td \<and> backslash \<notin> set (table td) \<and> fields_ordered td \<noteq> [] \<and>
     list_all (\<lambda>fd. getFieldDescriptor (fd_name fd) td = Some fd \<and> length (sql_addfield (fd_name fd) td) < packet) (fields_ordered td) \<and>
     good_columns ru (map column_of (fields_ordered td)) \<and>
     distinct (map fd_name (table_keys td)) \<and> set (table_keys td) \<subseteq> set (fields_ordered td) \<and>
     list_all (\<lambda>fd. \<not> is_blob (fd_sql_type fd)) (table_keys td) \<and>
     length (sql_create td) < packet \<and> length (quote my (table td)) + 17 < packet \<and> length (table td) + 7 < packet"

lemma creatableD:
  assumes "creatable my ru packet td"
  shows "plain_table td" "backslash \<notin> set (table td)" "fields_ordered td \<noteq> []" "backquote \<notin> set (table td)"
    "fd \<in> set (fields_ordered td) \<Longrightarrow> getFieldDescriptor (fd_name fd) td = Some fd \<and> length (sql_addfield (fd_name fd) td) < packet"
    "good_columns ru (map column_of (fields_ordered td))" "fd \<in> set (fields_ordered td) \<Longrightarrow> good_columns ru [column_of fd]"
    "length (sql_create td) < packet" "length (''SHOW TABLES LIKE '' @ quote my (table td)) < packet"
    "length (''DESC '' @ in_backquotes (table td)) < packet"
  using assms by (auto simp: creatable_def list_all_iff good_columns_def plain_table_def in_backquotes_def)

definition created :: "('t, 'v) TableDescriptor \<Rightarrow> sql_table" where
  "created td = \<lparr>columns = map column_of (fields_ordered td), primary = map fd_name (table_keys td), rows = []\<rparr>"

lemma create_run:
  assumes "mysql_ok ru packet my" "creatable my ru packet td"
  shows "createTable my td db = (if map_of db (table td) = None then (True, (table td, created td) # db) else (False, db))"
proof -
  note c = creatableD[OF assms(2)]
  let ?s = "Create (table td) (map column_of (fields_ordered td)) (map fd_name (table_keys td))"
  have "fd_name ` set (table_keys td) \<subseteq> fst ` set (map column_of (fields_ordered td))"
    using assms(2) by (force simp: creatable_def column_of_def)
  then have "good_stmt ru ?s db" "complete ?s" using assms(2) by (simp_all add: creatable_def)
  moreover have "is_blob t \<longleftrightarrow> False" if "fd \<in> set (table_keys td)" "f \<in> set (fields_ordered td)" "column_of f = (fd_name fd, t, d)" for fd f t d
  proof -
    have "getFieldDescriptor (fd_name fd) td = Some fd" "getFieldDescriptor (fd_name f) td = Some f" "\<not> is_blob (fd_sql_type fd)"
      using assms(2) that(1,2) by (auto simp: creatable_def list_all_iff)
    moreover have "fd_name f = fd_name fd" "t = fd_sql_type f" using that(3) by (simp_all add: column_of_def)
    ultimately show ?thesis by simp
  qed
  ultimately show ?thesis
    using mysql_run(1)[OF assms(1) c(8) _ , of ?s db] ddl_texts[OF c(1,3)]
    by (fastforce simp: createTable_def created_def)
qed

text \<open>What a server answers about its tables; it lists tables in an order of its own.\<close>

lemma shows_run:
  assumes "mysql_ok ru packet my" "creatable my ru packet td"
  shows "\<exists>ns. set ns = {n \<in> fst ` set db. like (table td) n} \<and>
      store my (''SHOW TABLES LIKE '' @ quote my (table td)) db = (Inr (Some (map (\<lambda>n. [Some n]) ns)), db)"
    "store my (''DESC '' @ in_backquotes (table td)) db = (case map_of db (table td) of
        None \<Rightarrow> (Inl ''1146'', db)
      | Some T \<Rightarrow> (Inr (Some (map (\<lambda>c. Some (fst c) # described ru c) (columns T))), db))"
proof -
  note c = creatableD[OF assms(2)]
  have "lexes (quote my (table td)) [Str (table td)]" using assms(1) by (simp add: mysql_ok_def)
  from lexes_lex[OF closed_lexes_append[OF closed_query(15) this]]
  have "scan (''SHOW TABLES LIKE '' @ quote my (table td)) = Some (stmt_tokens (Show_Like (table td)))" by simp
  from mysql_run(2)[OF assms(1) c(9) this, of db] c(2) obtain db' where db': "reordered db db'"
      "store my (''SHOW TABLES LIKE '' @ quote my (table td)) db =
        (Inr (Some (map (\<lambda>(n, _). [Some n]) (filter (\<lambda>(n, _). like (table td) n) db'))), db)" by auto
  have "map (\<lambda>(n, _). [Some n]) (filter (\<lambda>(n, _). like (table td) n) db') = map (\<lambda>n. [Some n]) (filter (like (table td)) (map fst db'))"
    by (induction db') auto
  then show "\<exists>ns. set ns = {n \<in> fst ` set db. like (table td) n} \<and>
      store my (''SHOW TABLES LIKE '' @ quote my (table td)) db = (Inr (Some (map (\<lambda>n. [Some n]) ns)), db)"
    using db'(2) reordered_names[OF db'(1)] by (intro exI[of _ "filter (like (table td)) (map fst db')"]) auto
  from lexes_lex[OF closed_lexes_append[OF closed_query(14) lexes_ident[OF c(4)]]]
  have "scan (''DESC '' @ in_backquotes (table td)) = Some (stmt_tokens (Desc (table td)))" by simp
  from mysql_run(2)[OF assms(1) c(10) this, of db] obtain db'' where d: "reordered db db''"
      "store my (''DESC '' @ in_backquotes (table td)) db =
        (case fst (sql_run ru (Desc (table td)) db'') of Inl e \<Rightarrow> (Inl e, db) | Inr rs \<Rightarrow> (Inr (Some rs), db))" by auto
  then show "store my (''DESC '' @ in_backquotes (table td)) db = (case map_of db (table td) of
        None \<Rightarrow> (Inl ''1146'', db)
      | Some T \<Rightarrow> (Inr (Some (map (\<lambda>c. Some (fst c) # described ru c) (columns T))), db))"
    using reordered_table[OF d(1), of "table td"] by (cases "map_of db (table td)") auto
qed

lemma show_tables_run:
  assumes "mysql_ok ru packet my" "12 < packet"
  shows "\<exists>ns. set ns = fst ` set db \<and> store my ''SHOW TABLES'' db = (Inr (Some (map (\<lambda>n. [Some n]) ns)), db)"
proof -
  have "scan ''SHOW TABLES'' = Some (stmt_tokens Show_Tables)" by (simp add: scan.simps is_word_def special_chars)
  from mysql_run(2)[OF assms(1) _ this, of db] assms(2) obtain db' where db': "reordered db db'"
      "store my ''SHOW TABLES'' db = (Inr (Some (map (\<lambda>(n, _). [Some n]) db')), db)" by auto
  have "map (\<lambda>(n, _). [Some n]) db' = map (\<lambda>n. [Some n]) (map fst db')" by auto
  then show ?thesis using db'(2) reordered_names[OF db'(1)] by (intro exI[of _ "map fst db'"]) simp
qed

lemma first_texts_rows:
  assumes "mysql_ok ru packet my"
  shows "first_texts my (Some (map (\<lambda>x. Some (f x) # g x) xs)) = f ` set xs" "\<not> at_throws (Some (map (\<lambda>x. Some (f x) # g x) xs))"
proof -
  have "takeWhile (\<lambda>row. row \<noteq> []) (map (\<lambda>x. Some (f x) # g x) xs) = map (\<lambda>x. Some (f x) # g x) xs" by (induction xs) simp_all
  moreover have "cell_text my (Some s) = s" for s using assms by (simp add: mysql_ok_def)
  ultimately show "first_texts my (Some (map (\<lambda>x. Some (f x) # g x) xs)) = f ` set xs"
    by (simp only: first_texts_def option.case set_map image_image nth_Cons_0)
  show "\<not> at_throws (Some (map (\<lambda>x. Some (f x) # g x) xs))" by (auto simp: at_throws_def)
qed

text \<open>\<open>T'\<close> is \<open>T\<close> with more columns: the old ones keep their cells.\<close>

definition extends :: "sql_table \<Rightarrow> column list \<Rightarrow> sql_table \<Rightarrow> bool" where
  "extends T cols T' \<longleftrightarrow> columns T' = columns T @ cols \<and> primary T' = primary T \<and>
     list_all2 (\<lambda>r r'. \<forall>n\<in>fst ` set (columns T). r' n = r n) (rows T) (rows T')"

lemma extends_refl: "extends T [] T"
  by (simp add: extends_def list_all2_same)

lemma extends_trans: "extends T cs T' \<Longrightarrow> extends T' ds T'' \<Longrightarrow> extends T (cs @ ds) T''"
proof -
  assume a: "extends T cs T'" "extends T' ds T''"
  have "list_all2 (\<lambda>r r'. \<forall>n\<in>fst ` set (columns T). r' n = r n) (rows T) (rows T'')"
    using a by (simp add: extends_def list_all2_conv_all_nth image_Un ball_Un)
  then show ?thesis using a by (simp add: extends_def)
qed

lemma add_fields_run:
  assumes "mysql_ok ru packet my" "creatable my ru packet td" "distinct (map fst db)"
    and "set fds \<subseteq> set (fields_ordered td)" "map_of db (table td) = Some T"
    and "distinct (map upper (map fst (columns T) @ map fd_name (filter (\<lambda>fd. fd_name fd \<notin> have) fds)))"
  shows "\<exists>T'. add_fields my td have fds db = (True, put_table (table td) T' db) \<and>
    extends T (map column_of (filter (\<lambda>fd. fd_name fd \<notin> have) fds)) T'"
  using assms(3-)
proof (induction fds arbitrary: T db)
  case Nil
  then show ?case using extends_refl[of T] put_table_same[OF Nil.prems(1,3)] by (intro exI[of _ T]) simp
next
  case (Cons fd fds)
  note c = creatableD[OF assms(2)]
  show ?case
  proof (cases "fd_name fd \<in> have")
    case True
    then show ?thesis using Cons.IH[OF Cons.prems(1) _ Cons.prems(3)] Cons.prems(2,4) by simp
  next
    case False
    obtain t d where col: "column_of fd = (fd_name fd, t, d)" by (simp add: column_of_def)
    let ?T = "(T\<lparr>columns := columns T @ [(fd_name fd, t, d)]\<rparr>)"
    let ?T' = "?T\<lparr>rows := map (\<lambda>r. r(fd_name fd := default_row ru ?T (fd_name fd))) (rows T)\<rparr>"
    have f: "getFieldDescriptor (fd_name fd) td = Some fd" "length (sql_addfield (fd_name fd) td) < packet" "good_columns ru [column_of fd]"
      using c(5,7) Cons.prems(2) by simp_all
    have new: "upper (fd_name fd) \<notin> upper ` fst ` set (columns T)" using Cons.prems(4) False by auto
    have "execute my (sql_addfield (fd_name fd) td) db = (Inr True, put_table (table td) ?T' db)"
      using mysql_run(1)[OF assms(1) f(2), of "Add_Column (table td) (column_of fd)" db] ddl_texts[OF c(1,3)] f(1,3) new Cons.prems(3)
      by (simp add: col Let_def)
    moreover have "extends T [column_of fd] ?T'"
    proof -
      have "fd_name fd \<notin> fst ` set (columns T)" using new by auto
      then show ?thesis by (auto simp: extends_def col list_all2_conv_all_nth simp del: set_map) force
    qed
    moreover have "\<exists>T''. add_fields my td have fds (put_table (table td) ?T' db) = (True, put_table (table td) T'' (put_table (table td) ?T' db)) \<and>
        extends ?T' (map column_of (filter (\<lambda>fd. fd_name fd \<notin> have) fds)) T''"
    proof (rule Cons.IH)
      show "distinct (map fst (put_table (table td) ?T' db))" using Cons.prems(1) by (simp add: put_table_def comp_def case_prod_unfold)
      show "set fds \<subseteq> set (fields_ordered td)" using Cons.prems(2) by simp
      show "map_of (put_table (table td) ?T' db) (table td) = Some ?T'" using Cons.prems(3) by simp
      show "distinct (map upper (map fst (columns ?T') @ map fd_name (filter (\<lambda>fd. fd_name fd \<notin> have) fds)))"
        using Cons.prems(4) False by auto
    qed
    ultimately show ?thesis using False extends_trans by fastforce
  qed
qed


lemma update_exist_run:
  assumes "mysql_ok ru packet my" "creatable my ru packet td" "distinct (map fst db)"
  shows "map_of db (table td) = None \<Longrightarrow> updateExistTable my td db = (False, db)"
    "map_of db (table td) = Some T \<Longrightarrow>
      distinct (map upper (map fst (columns T) @ map fd_name (filter (\<lambda>fd. fd_name fd \<notin> fst ` set (columns T)) (fields_ordered td)))) \<Longrightarrow>
      \<exists>T'. updateExistTable my td db = (True, put_table (table td) T' db) \<and>
        extends T (map column_of (filter (\<lambda>fd. fd_name fd \<notin> fst ` set (columns T)) (fields_ordered td))) T'"
proof -
  show "map_of db (table td) = None \<Longrightarrow> updateExistTable my td db = (False, db)"
    unfolding updateExistTable_def shows_run(2)[OF assms(1,2)] by simp
  assume T: "map_of db (table td) = Some T"
    "distinct (map upper (map fst (columns T) @ map fd_name (filter (\<lambda>fd. fd_name fd \<notin> fst ` set (columns T)) (fields_ordered td))))"
  then show "\<exists>T'. updateExistTable my td db = (True, put_table (table td) T' db) \<and>
        extends T (map column_of (filter (\<lambda>fd. fd_name fd \<notin> fst ` set (columns T)) (fields_ordered td))) T'"
    using add_fields_run[OF assms(1-3) subset_refl T] first_texts_rows[OF assms(1), of fst "described ru" "columns T"]
    unfolding updateExistTable_def shows_run(2)[OF assms(1,2)] by simp
qed

subsection \<open>Properties\<close>

text \<open>
  C31. \<open>updateTable\<close> brings the structure of a table up to date: a table that is there gets one column for
  each field it does not have, in the order of the fields, with its rows and other columns as
  they were; a table for whose name the server finds none is created with all columns and the primary key.
  If it finds another table only, because the name is taken for a pattern of \<open>LIKE\<close>, nothing is created, yet
  the method returns true.
\<close>

theorem structure_updated:
  assumes "mysql_ok ru packet my" "creatable my ru packet td" "distinct (map fst db)"
    and "\<And>T. map_of db (table td) = Some T \<Longrightarrow>
      distinct (map upper (map fst (columns T) @ map fd_name (filter (\<lambda>fd. fd_name fd \<notin> fst ` set (columns T)) (fields_ordered td))))"
  shows "case map_of db (table td) of
      Some T \<Rightarrow> \<exists>T'. updateTable my td db = (True, put_table (table td) T' db) \<and>
        extends T (map column_of (filter (\<lambda>fd. fd_name fd \<notin> fst ` set (columns T)) (fields_ordered td))) T'
    | None \<Rightarrow> updateTable my td db = (True, if list_ex (\<lambda>(n, _). like (table td) n) db then db else (table td, created td) # db)"
proof -
  obtain ns where ns: "set ns = {n \<in> fst ` set db. like (table td) n}"
      "store my (''SHOW TABLES LIKE '' @ quote my (table td)) db = (Inr (Some (map (\<lambda>n. [Some n]) ns)), db)"
    using shows_run(1)[OF assms(1,2)] by blast
  have empty: "ns = [] \<longleftrightarrow> \<not> list_ex (\<lambda>(n, _). like (table td) n) db"
    unfolding set_empty[symmetric] ns(1) by (force simp: list_ex_iff)
  show ?thesis
  proof (cases "map_of db (table td)")
    case None
    then show ?thesis using empty
      unfolding updateTable_def ns(2) by (simp add: update_exist_run(1)[OF assms(1-3)] create_run[OF assms(1,2)])
  next
    case (Some T)
    then have "(table td, T) \<in> set db" by (rule map_of_SomeD)
    then have "ns \<noteq> []" using empty like_self[OF creatableD(2)[OF assms(2)]] by (auto simp: list_ex_iff)
    then have "updateTable my td db = (True, snd (updateExistTable my td db))" unfolding updateTable_def ns(2) by simp
    then show ?thesis using update_exist_run(2)[OF assms(1-3) Some assms(4)[OF Some]] Some by auto
  qed
qed

text \<open>
  \<open>updateTables\<close> compares the names of the tables in upper case with the names of the descriptors as they
  are: a table whose name has a lower-case letter is always taken for missing. It tries to create
  it again, which the server refuses; no field is ever added, and the method returns true.
\<close>

theorem lower_case_tables_not_updated:
  assumes "mysql_ok ru packet my" "12 < packet"
    and "\<And>n td. (n, td) \<in> set (tables fac) \<Longrightarrow> creatable my ru packet td \<and> upper (table td) \<noteq> table td \<and>
      map_of db (table td) \<noteq> None \<and> tableByName (table td) fac = Some td"
  shows "updateTables my fac db = (True, db)"
proof -
  have loop: "update_loop my fac (upper ` ns) tds db = db" if "set tds \<subseteq> set (tables fac)" for tds ns
    using that
  proof (induction tds)
    case (Cons e tds)
    obtain n td where e: "e = (n, td)" by (cases e)
    then have td: "creatable my ru packet td" "upper (table td) \<noteq> table td" "map_of db (table td) \<noteq> None"
        "tableByName (table td) fac = Some td" using assms(3)[of n td] Cons.prems by auto
    have "table td \<notin> upper ` ns" using td(2) by (auto dest: arg_cong[of _ _ upper])
    then show ?case using Cons td(3,4) create_run[OF assms(1) td(1), of db]
      by (auto simp: e createTableByName_def by_descriptor_def)
  qed simp
  obtain ns where ns: "set ns = fst ` set db" "store my ''SHOW TABLES'' db = (Inr (Some (map (\<lambda>n. [Some n]) ns)), db)"
    using show_tables_run[OF assms(1,2)] by blast
  show ?thesis
    using first_texts_rows[OF assms(1), of "\<lambda>n. n" "\<lambda>_. []" ns] loop[OF subset_refl, of "set ns"]
    by (simp add: updateTables_def showTables_def ns(2))
qed

text \<open>A table of users that lacks the friends.\<close>

definition old_users :: sql_db where
  "old_users = [(''users'', user_table\<lparr>columns := map column_of (take 2 user_fields), rows := [(\<lambda>_. Some ''7'')]\<rparr>)]"

lemma users_creatable: "creatable ascii_mysql ascii_rules 1000 users_td"
proof -
  have l: "length (sql_create users_td) < 1000 \<and> list_all (\<lambda>fd. length (sql_addfield (fd_name fd) users_td) < 1000) user_fields" by code_simp
  have z: "int_val ''0'' = 0" "int_decimal 0 = ''0''" by code_simp+
  have g: "good_columns ascii_rules (map column_of user_fields)"
    by (auto simp: good_columns_def user_fields_def column_of_def is_blob_def fd_sql_type_def field_sql_default_def fits_text_def z ascii_rules_def upper_def)
  have q: "length (quote ascii_mysql ''users'') < 983" by code_simp
  show ?thesis using l g q orm_dbD(4)[OF users_orm_db]
    by (simp add: creatable_def user_td_simps getFieldDescriptor_def special_chars user_fields_def is_blob_fd)
qed

theorem structure_updated_witness:
  "\<exists>T'. updateTable ascii_mysql users_td old_users = (True, [(''users'', T')]) \<and> columns T' = map column_of user_fields"
proof -
  have d: "distinct (map fst old_users)" by (simp add: old_users_def)
  have u: "distinct (map upper [''id'', ''name'', ''friends''])" by code_simp
  have s: "case map_of old_users (table users_td) of
      Some T \<Rightarrow> \<exists>T'. updateTable ascii_mysql users_td old_users = (True, put_table (table users_td) T' old_users) \<and>
        extends T (map column_of (filter (\<lambda>fd. fd_name fd \<notin> fst ` set (columns T)) (fields_ordered users_td))) T'
    | None \<Rightarrow> updateTable ascii_mysql users_td old_users =
        (True, if list_ex (\<lambda>(n, _). like (table users_td) n) old_users then old_users else (table users_td, created users_td) # old_users)"
    using u by (intro structure_updated[OF ascii_mysql_ok users_creatable d])
      (auto simp: old_users_def user_td_simps user_fields_def user_table_def column_of_def)
  then show ?thesis
    by (auto simp: old_users_def user_td_simps user_fields_def user_table_def column_of_def extends_def put_table_def)
qed

theorem lower_case_tables_not_updated_witness:
  "updateTables ascii_mysql (one_table users_td) old_users = (True, old_users)"
proof (rule lower_case_tables_not_updated[OF ascii_mysql_ok[of 1000]])
  have "upper ''users'' = ''USERS''" by code_simp
  then show "creatable ascii_mysql ascii_rules 1000 td \<and> upper (table td) \<noteq> table td \<and> map_of old_users (table td) \<noteq> None \<and>
      tableByName (table td) (one_table users_td) = Some td" if "(n, td) \<in> set (tables (one_table users_td))" for n td
    using that users_creatable one_table_simps(3)[of users_td] by (auto simp: one_table_simps user_td_simps old_users_def)
qed simp

end
