(* ===== verification/Mysql_Pool.thy ===== *)
theory Mysql_Pool
  imports Url Pool_Sharding
begin

text \<open>
  \<open>common/tinymysql.h\<close> and \<open>tinymysql.cpp\<close>: connections to MySQL that are set up from a URL, the pool of
  them with its limit, and the sharding of such pools.

  \<open>MySqlConnectionPool\<close> is the limited pool of \<open>pool.h\<close> over the pool of MySQL++, which is a parameter:
  its methods \<open>grab\<close> and \<open>release\<close> are the record \<open>B\<close>. What the theorems assume of it is the locale
  \<open>base_pool\<close>, which the base pool of \<open>pool.h\<close> keeps as well. Whether MySQL++ can connect is the
  argument \<open>connects\<close>: false is an exception.
\<close>

subsection \<open>Connections\<close>

record connection =
  address :: nat
  connected :: bool
  conn_shard :: int

definition MySqlConnection :: "nat \<Rightarrow> connection" where
  "MySqlConnection a = \<lparr>address = a, connected = False, conn_shard = -1\<rparr>"

type_synonym server = "string option \<Rightarrow> string \<Rightarrow> string \<Rightarrow> string \<Rightarrow> u32 \<Rightarrow> bool"

text \<open>\<open>url.query[name]\<close>.\<close>

definition parameter :: "TinyURL \<Rightarrow> string \<Rightarrow> string" where
  "parameter u name = (case map_of (query u) name of Some v \<Rightarrow> v | None \<Rightarrow> [])"

definition connectByURL :: "server \<Rightarrow> string \<Rightarrow> connection \<Rightarrow> bool \<times> connection" where
  "connectByURL connects urltext c =
     (case TinyURL_parse urltext of (ok, u) \<Rightarrow>
       if \<not> ok then (False, c)
       else if \<not> connects (if 0 < length (path u) then Some (path u) else None)
                 (host u) (username u) (password u) (word_of_int (port u)) then (False, c)
       else (True, let c = c\<lparr>connected := True\<rparr> in
         if 0 < length (parameter u ''shard'')
         then c\<lparr>conn_shard := int_of_long (atol (parameter u ''shard''))\<rparr> else c))"

definition MySqlConnection_url :: "server \<Rightarrow> string \<Rightarrow> nat \<Rightarrow> connection" where
  "MySqlConnection_url connects url a = snd (connectByURL connects url (MySqlConnection a))"

subsection \<open>The pool\<close>

record ('c, 'b) base_methods =
  grab_base :: "'c option \<Rightarrow> int \<Rightarrow> 'b \<Rightarrow> 'c option \<times> 'b"
  release_base :: "'c option \<Rightarrow> int \<Rightarrow> 'b \<Rightarrow> 'b"

record 'b mysql_pool =
  base :: 'b
  in_use_now :: u32
  max_conns :: u32
  waittime :: int
  wait_timeout :: u32
  pool_url :: string
  pool_shard :: int

definition MySqlConnectionPool :: "'b \<Rightarrow> 'b mysql_pool" where
  "MySqlConnectionPool b = \<lparr>base = b, in_use_now = 0, max_conns = 1, waittime = -1,
     wait_timeout = 28800, pool_url = [], pool_shard = -1\<rparr>"

definition setServerAddress :: "string \<Rightarrow> 'b mysql_pool \<Rightarrow> 'b mysql_pool" where
  "setServerAddress urltext p =
     (let p = p\<lparr>pool_url := urltext\<rparr> in
      case TinyURL_parse urltext of (ok, u) \<Rightarrow>
        if \<not> ok then p
        else
          let p = (if 0 < length (parameter u ''shard'')
                   then p\<lparr>pool_shard := int_of_long (atol (parameter u ''shard''))\<rparr> else p);
              p = (if 0 < length (parameter u ''idletime'')
                   then let t = word_of_int (atol (parameter u ''idletime''))
                        in p\<lparr>wait_timeout := if t = 0 then 28800 else t\<rparr> else p)
          in if 0 < length (parameter u ''maxconn'')
             then let m = word_of_int (atol (parameter u ''maxconn''))
                  in if 0 < m then p\<lparr>max_conns := m\<rparr> else p
             else p)"

text \<open>The new connection sits at the address \<open>a\<close>, connected or not.\<close>

definition create :: "server \<Rightarrow> nat \<Rightarrow> 'b mysql_pool \<Rightarrow> connection" where
  "create connects a p = snd (connectByURL connects (pool_url p) (MySqlConnection a))"

definition mysql_grab :: "('c, 'b) base_methods \<Rightarrow> (nat \<Rightarrow> u32) \<Rightarrow> 'c \<Rightarrow> int \<Rightarrow> 'b mysql_pool
    \<Rightarrow> ('c option \<times> 'b mysql_pool) option" where
  "mysql_grab B reads fresh now p =
     (case grab_wait (waittime p) (max_conns p) reads of
        None \<Rightarrow> None
      | Some False \<Rightarrow> Some (None, p)
      | Some True \<Rightarrow>
          let p = p\<lparr>in_use_now := in_use_now p + 1\<rparr>;
              (c, b) = grab_base B (Some fresh) now (base p)
          in Some (c, p\<lparr>base := b\<rparr>))"

definition mysql_release :: "('c, 'b) base_methods \<Rightarrow> 'c option \<Rightarrow> int \<Rightarrow> 'b mysql_pool \<Rightarrow> 'b mysql_pool" where
  "mysql_release B pc now p =
     (let p = p\<lparr>base := release_base B pc now (base p)\<rparr> in p\<lparr>in_use_now := in_use_now p - 1\<rparr>)"

text \<open>One thread: every read of the counter finds the same value.\<close>

definition mysql_acquire :: "(connection, 'b) base_methods \<Rightarrow> server \<Rightarrow> nat \<Rightarrow> int \<Rightarrow> 'b mysql_pool
    \<Rightarrow> (connection option \<times> 'b mysql_pool) option" where
  "mysql_acquire B connects a now p = mysql_grab B (\<lambda>_. in_use_now p) (create connects a p) now p"

definition mysql_putback :: "('c, 'b) base_methods \<Rightarrow> int \<Rightarrow> 'c option \<Rightarrow> 'b mysql_pool \<Rightarrow> 'b mysql_pool" where
  "mysql_putback B now c p = (if c \<noteq> None then mysql_release B c now p else p)"

definition setIdleTime :: "u32 \<Rightarrow> 'b mysql_pool \<Rightarrow> 'b mysql_pool" where
  "setIdleTime seconds p = p\<lparr>wait_timeout := seconds\<rparr>"

text \<open>\<open>connect\<close>: the address, then \<open>createAll\<close>; the new connections sit from the address \<open>a\<close> on.\<close>

fun mysql_acquire_times :: "(connection, 'b) base_methods \<Rightarrow> server \<Rightarrow> nat \<Rightarrow> int \<Rightarrow> nat \<Rightarrow> connection option list
    \<Rightarrow> 'b mysql_pool \<Rightarrow> (connection option list \<times> 'b mysql_pool) option" where
  "mysql_acquire_times B connects a now 0 cs p = Some (cs, p)"
| "mysql_acquire_times B connects a now (Suc n) cs p =
     (case mysql_acquire B connects a now p of
        None \<Rightarrow> None
      | Some (c, p) \<Rightarrow> mysql_acquire_times B connects (Suc a) now n (cs @ [c]) p)"

definition pool_connect :: "(connection, 'b) base_methods \<Rightarrow> server \<Rightarrow> nat \<Rightarrow> int \<Rightarrow> string \<Rightarrow> 'b mysql_pool \<Rightarrow> 'b mysql_pool option" where
  "pool_connect B connects a now url p =
     (let p = setServerAddress url p in
      map_option (\<lambda>(cs, p). foldl (\<lambda>p c. mysql_putback B now c p) p cs)
        (mysql_acquire_times B connects a now (unat (max_conns p)) [] p))"

subsection \<open>The sharding\<close>

type_synonym 'b mysql_sharding = "'b mysql_pool sharding"

definition fini :: "'b mysql_sharding \<Rightarrow> 'b mysql_sharding" where
  "fini sh = sh\<lparr>shards := (\<lambda>_. None)\<rparr>"

definition addSharding :: "'b \<Rightarrow> string \<Rightarrow> 'b mysql_sharding \<Rightarrow> bool \<times> 'b mysql_sharding" where
  "addSharding b url sh = addShard pool_shard (Some (setServerAddress url (MySqlConnectionPool b))) sh"

fun addShardings :: "'b \<Rightarrow> string list \<Rightarrow> 'b mysql_sharding \<Rightarrow> bool \<times> 'b mysql_sharding" where
  "addShardings b [] sh = (True, sh)"
| "addShardings b (url # urls) sh =
     (case addSharding b url sh of
        (True, sh) \<Rightarrow> addShardings b urls sh
      | (False, sh) \<Rightarrow> (False, fini sh))"

definition use_shard :: "(connection, 'b) base_methods \<Rightarrow> server \<Rightarrow> nat \<Rightarrow> int \<Rightarrow> int \<Rightarrow> 'b mysql_sharding \<Rightarrow> 'b mysql_sharding option" where
  "use_shard B connects a now i sh =
     ScopedConnectionByShard conn_shard (mysql_acquire B connects a now) (mysql_putback B now) i (\<lambda>_ sh. sh) sh"

definition use_key :: "(connection, 'b) base_methods \<Rightarrow> server \<Rightarrow> nat \<Rightarrow> int \<Rightarrow> bytes \<Rightarrow> 'b mysql_sharding \<Rightarrow> 'b mysql_sharding option" where
  "use_key B connects a now key sh =
     ScopedConnectionByKey conn_shard MurmurHash_hash (mysql_acquire B connects a now) (mysql_putback B now) key (\<lambda>_ sh. sh) sh"

text \<open>\<open>init\<close>: one guard for every shard; the connection made for shard \<open>i\<close> is at the address \<open>a i\<close>.\<close>

fun init_loop :: "(connection, 'b) base_methods \<Rightarrow> server \<Rightarrow> (nat \<Rightarrow> nat) \<Rightarrow> int \<Rightarrow> nat list \<Rightarrow> 'b mysql_sharding \<Rightarrow> 'b mysql_sharding option" where
  "init_loop B connects a now [] sh = Some sh"
| "init_loop B connects a now (i # rest) sh =
     (case use_shard B connects (a i) now (int i) sh of
        None \<Rightarrow> None
      | Some sh \<Rightarrow> init_loop B connects a now rest sh)"

definition init :: "(connection, 'b) base_methods \<Rightarrow> server \<Rightarrow> (nat \<Rightarrow> nat) \<Rightarrow> int \<Rightarrow> 'b mysql_sharding \<Rightarrow> 'b mysql_sharding option" where
  "init B connects a now sh = init_loop B connects a now [0..<nat (shardnum sh)] sh"

text \<open>Guards one after the other, each for a key.\<close>

fun use_keys :: "(connection, 'b) base_methods \<Rightarrow> (nat \<times> int \<times> bytes) list \<Rightarrow> server \<Rightarrow> 'b mysql_sharding \<Rightarrow> 'b mysql_sharding option" where
  "use_keys B [] connects sh = Some sh"
| "use_keys B ((a, now, key) # uses) connects sh =
     (case use_key B connects a now key sh of None \<Rightarrow> None | Some sh \<Rightarrow> use_keys B uses connects sh)"

subsection \<open>What is asked of the pool of MySQL++\<close>

text \<open>
  \<open>lent\<close> are the connections that are in use, \<open>owned\<close> all the pool has: \<open>grab\<close> finds a free one or
  takes the new one, and may drop old ones that are free.
\<close>

locale base_pool =
  fixes B :: "('c, 'b) base_methods"
    and lent :: "'b \<Rightarrow> 'c set"
    and owned :: "'b \<Rightarrow> 'c set"
    and ok :: "'b \<Rightarrow> bool"
    and empty_pool :: 'b
  assumes empty: "ok empty_pool \<and> owned empty_pool = {}"
    and lends: "ok b \<Longrightarrow> f \<notin> owned b \<Longrightarrow>
      \<exists>c b'. grab_base B (Some f) now b = (Some c, b') \<and> ok b' \<and> c \<notin> lent b \<and>
        c \<in> insert f (owned b) \<and> lent b' = insert c (lent b) \<and> owned b' \<subseteq> insert f (owned b)"
    and releases: "ok b \<Longrightarrow> c \<in> lent b \<Longrightarrow>
      ok (release_base B (Some c) now b) \<and> lent (release_base B (Some c) now b) = lent b - {c} \<and>
      owned (release_base B (Some c) now b) = owned b"
    and lent_owned: "ok b \<Longrightarrow> lent b \<subseteq> owned b"

definition pool_ok :: "('b \<Rightarrow> 'c set) \<Rightarrow> ('b \<Rightarrow> bool) \<Rightarrow> 'b mysql_pool \<Rightarrow> bool" where
  "pool_ok lent ok p \<longleftrightarrow> ok (base p) \<and> finite (lent (base p)) \<and>
     unat (in_use_now p) = card (lent (base p)) \<and> in_use_now p \<le> max_conns p"

lemma mysql_grab_unfold:
  "mysql_grab B (\<lambda>_. in_use_now p) f now p =
     (if max_conns p \<le> in_use_now p
      then (if waittime p < 0 then None else Some (None, p))
      else (case grab_base B (Some f) now (base p) of (c, b) \<Rightarrow>
        Some (c, p\<lparr>in_use_now := in_use_now p + 1, base := b\<rparr>)))"
  by (simp add: mysql_grab_def grab_wait_const split: prod.splits)

context base_pool
begin

lemma grab_lends:
  assumes p: "pool_ok lent ok p" "f \<notin> owned (base p)" and free: "in_use_now p < max_conns p"
  obtains c b where "mysql_grab B (\<lambda>_. in_use_now p) f now p = Some (Some c, p\<lparr>in_use_now := in_use_now p + 1, base := b\<rparr>)"
    "pool_ok lent ok (p\<lparr>in_use_now := in_use_now p + 1, base := b\<rparr>)" "c \<notin> lent (base p)"
    "c \<in> insert f (owned (base p))" "lent b = insert c (lent (base p))" "owned b \<subseteq> insert f (owned (base p))"
proof -
  from p(1) have b: "ok (base p)" by (simp add: pool_ok_def)
  from lends[OF b p(2), of now] obtain c b where g: "grab_base B (Some f) now (base p) = (Some c, b)"
    and c: "ok b" "c \<notin> lent (base p)" "c \<in> insert f (owned (base p))" "lent b = insert c (lent (base p))"
      "owned b \<subseteq> insert f (owned (base p))" by blast
  have "unat (in_use_now p + 1) = Suc (unat (in_use_now p))" by (rule unat_add_one[OF free])
  moreover have "in_use_now p + 1 \<le> max_conns p" using free by (simp add: inc_le)
  ultimately have "pool_ok lent ok (p\<lparr>in_use_now := in_use_now p + 1, base := b\<rparr>)"
    using p(1) c by (simp add: pool_ok_def)
  with g c free show ?thesis by (intro that) (simp_all add: mysql_grab_unfold)
qed

lemma putback_frees:
  assumes p: "pool_ok lent ok p" "c \<in> lent (base p)"
  shows "pool_ok lent ok (mysql_putback B now (Some c) p)"
    "lent (base (mysql_putback B now (Some c) p)) = lent (base p) - {c}"
    "owned (base (mysql_putback B now (Some c) p)) = owned (base p)"
proof -
  from p(1) have b: "ok (base p)" by (simp add: pool_ok_def)
  note r = releases[OF b p(2), of now]
  have fin: "finite (lent (base p))" "unat (in_use_now p) = card (lent (base p))"
    using p(1) by (simp_all add: pool_ok_def)
  have "0 < card (lent (base p))" using fin(1) p(2) by (auto simp: card_gt_0_iff)
  then have pos: "0 < unat (in_use_now p)" by (simp add: fin)
  note one = unat_sub_one[OF pos]
  have "unat (in_use_now p) \<le> unat (max_conns p)" using p(1) by (simp add: pool_ok_def word_le_nat_alt)
  then have "in_use_now p - 1 \<le> max_conns p" by (simp only: word_le_nat_alt one)
  then show "pool_ok lent ok (mysql_putback B now (Some c) p)"
    "lent (base (mysql_putback B now (Some c) p)) = lent (base p) - {c}"
    "owned (base (mysql_putback B now (Some c) p)) = owned (base p)"
    using r fin p(2) by (simp_all add: pool_ok_def mysql_putback_def mysql_release_def Let_def one)
qed

end

text \<open>The limited pool over such a base is a pool in the sense of \<open>Pool\<close>, and so is a sharding of them.\<close>

sublocale base_pool \<subseteq> limited: conn_pool
  "\<lambda>f now p. mysql_grab B (\<lambda>_. in_use_now p) f now p" "\<lambda>c now. mysql_putback B now c"
  "\<lambda>p. lent (base p)" "\<lambda>p. owned (base p)" "pool_ok lent ok"
proof unfold_locales
  fix p f now c p'
  assume p: "pool_ok lent ok p" "f \<notin> owned (base p)"
    and g: "mysql_grab B (\<lambda>_. in_use_now p) f now p = Some (Some c, p')"
  then have "in_use_now p < max_conns p" by (auto simp: mysql_grab_unfold not_le split: if_splits)
  from grab_lends[OF p this, of now] obtain d b where
      d: "mysql_grab B (\<lambda>_. in_use_now p) f now p = Some (Some d, p\<lparr>in_use_now := in_use_now p + 1, base := b\<rparr>)"
        "pool_ok lent ok (p\<lparr>in_use_now := in_use_now p + 1, base := b\<rparr>)" "d \<notin> lent (base p)"
        "lent b = insert d (lent (base p))" "owned b \<subseteq> insert f (owned (base p))" .
  from d(1) g have e: "c = d" "p' = p\<lparr>in_use_now := in_use_now p + 1, base := b\<rparr>" by simp_all
  show "pool_ok lent ok p' \<and> c \<notin> lent (base p) \<and>
      lent (base p') = insert c (lent (base p)) \<and> owned (base p') \<subseteq> insert f (owned (base p))"
    unfolding e using d(2-5) by simp
next
  fix p f now p'
  assume p: "pool_ok lent ok p" "f \<notin> owned (base p)"
    and g: "mysql_grab B (\<lambda>_. in_use_now p) f now p = Some (None, p')"
  show "p' = p"
  proof (cases "in_use_now p < max_conns p")
    case True
    show ?thesis by (rule grab_lends[OF p True, of now]) (use g in simp)
  next
    case False
    with g show ?thesis by (simp add: mysql_grab_unfold not_less split: if_splits)
  qed
next
  fix p c now
  assume "pool_ok lent ok p" "c \<in> lent (base p)"
  from putback_frees[OF this] show "pool_ok lent ok (mysql_putback B now (Some c) p) \<and>
      lent (base (mysql_putback B now (Some c) p)) = lent (base p) - {c} \<and>
      owned (base (mysql_putback B now (Some c) p)) = owned (base p)" by simp
next
  show "mysql_putback B now None p = p" for now p by (simp add: mysql_putback_def)
  show "lent (base p) \<subseteq> owned (base p)" if "pool_ok lent ok p" for p
    using that lent_owned by (simp add: pool_ok_def)
qed


text \<open>A sharding of these pools, with any assignment of connections to shards.\<close>

sublocale base_pool \<subseteq> mysql: sharded_conn_pool
  "\<lambda>f now p. mysql_grab B (\<lambda>_. in_use_now p) f now p" "\<lambda>c now. mysql_putback B now c"
  "\<lambda>p. lent (base p)" "\<lambda>p. owned (base p)" "pool_ok lent ok" shard_of
  for shard_of :: "'c \<Rightarrow> int"
  by unfold_locales

text \<open>The pool of \<open>pool.h\<close>, written after the one of MySQL++, keeps the contract.\<close>

definition own_base :: "('c, 'c PoolT) base_methods" where
  "own_base = \<lparr>grab_base = base_grab, release_base = base_release\<rparr>"

interpretation own: base_pool own_base held known base_ok "[]"
proof unfold_locales
  show "base_ok [] \<and> known [] = {}" by simp
next
  fix b :: "'c PoolT" and f now
  assume b: "base_ok b" "f \<notin> known b"
  obtain pc b' where g: "base_grab (Some f) now b = (pc, b')" by fastforce
  from base_grab_ok[OF b g] g show "\<exists>c b'. grab_base own_base (Some f) now b = (Some c, b') \<and> base_ok b' \<and>
      c \<notin> held b \<and> c \<in> insert f (known b) \<and> held b' = insert c (held b) \<and> known b' \<subseteq> insert f (known b)"
    by (auto simp: own_base_def)
next
  fix b :: "'c PoolT" and c now
  assume b: "base_ok b" "c \<in> held b"
  from base_release_ok[OF b(1) held_known[OF b(2)], of now]
  show "base_ok (release_base own_base (Some c) now b) \<and>
      held (release_base own_base (Some c) now b) = held b - {c} \<and> known (release_base own_base (Some c) now b) = known b"
    by (simp add: own_base_def)
qed (auto dest: held_known)


subsection \<open>A sharding set up from URLs\<close>

definition new_pool :: "'b \<Rightarrow> string \<Rightarrow> 'b mysql_pool" where
  "new_pool b url = setServerAddress url (MySqlConnectionPool b)"

definition reachable :: "server \<Rightarrow> string \<Rightarrow> bool" where
  "reachable connects url \<longleftrightarrow> fst (connectByURL connects url (MySqlConnection 0))"

text \<open>A pool of shard \<open>i\<close> that lends nothing at the moment, with servers that can be reached.\<close>

definition shard_ready :: "('b \<Rightarrow> connection set) \<Rightarrow> ('b \<Rightarrow> connection set) \<Rightarrow> ('b \<Rightarrow> bool) \<Rightarrow> server \<Rightarrow> int \<Rightarrow> 'b mysql_pool \<Rightarrow> bool" where
  "shard_ready lent owned ok connects i p \<longleftrightarrow>
     pool_ok lent ok p \<and> lent (base p) = {} \<and> 0 < max_conns p \<and>
     (\<forall>c\<in>owned (base p). connected c \<and> conn_shard c = i) \<and>
     (\<forall>a. connected (create connects a p) \<and> conn_shard (create connects a p) = i)"

definition all_ready :: "('b \<Rightarrow> connection set) \<Rightarrow> ('b \<Rightarrow> connection set) \<Rightarrow> ('b \<Rightarrow> bool) \<Rightarrow> server \<Rightarrow> nat set \<Rightarrow> 'b mysql_sharding \<Rightarrow> bool" where
  "all_ready lent owned ok connects A sh \<longleftrightarrow>
     (\<forall>i p. shards sh i = Some p \<longrightarrow> shard_ready lent owned ok connects i p \<and> address ` owned (base p) \<subseteq> A)"

lemma setServerAddress_simps [simp]:
  "base (setServerAddress url p) = base p" "pool_url (setServerAddress url p) = url"
  "in_use_now (setServerAddress url p) = in_use_now p" "waittime (setServerAddress url p) = waittime p"
  "0 < max_conns p \<Longrightarrow> 0 < max_conns (setServerAddress url p)"
  by (auto simp: setServerAddress_def Let_def split: prod.splits)

lemma address_create [simp]: "address (create connects a p) = a"
  by (auto simp: create_def connectByURL_def MySqlConnection_def Let_def split: prod.splits)

lemma create_reachable:
  assumes "reachable connects url" "pool_shard (new_pool b url) \<noteq> -1"
  shows "connected (create connects a (new_pool b url))"
    "conn_shard (create connects a (new_pool b url)) = pool_shard (new_pool b url)"
proof -
  obtain ok u where u: "TinyURL_parse url = (ok, u)" by fastforce
  have "pool_shard (new_pool b url) = (if ok \<and> 0 < length (parameter u ''shard'')
      then int_of_long (atol (parameter u ''shard'')) else -1)"
    by (simp add: new_pool_def setServerAddress_def MySqlConnectionPool_def u Let_def)
  moreover have "pool_url (new_pool b url) = url" by (simp add: new_pool_def)
  ultimately show "connected (create connects a (new_pool b url))"
    "conn_shard (create connects a (new_pool b url)) = pool_shard (new_pool b url)"
    using assms by (simp_all add: reachable_def create_def connectByURL_def u Let_def split: if_splits)
qed

lemma addShardings_eq:
  "addShardings b urls sh =
     (let number = \<lambda>url. pool_shard (new_pool b url) in
      if distinct (map number urls) \<and> (\<forall>url\<in>set urls. number url \<noteq> -1 \<and> shards sh (number url) = None)
      then (True, sh\<lparr>shards := shards sh ++ map_of (map (\<lambda>url. (number url, new_pool b url)) urls)\<rparr>)
      else (False, fini sh))"
proof (induction urls arbitrary: sh)
  case (Cons url urls)
  define number where "number = (\<lambda>url. pool_shard (new_pool b url))"
  show ?case
  proof (cases "number url \<noteq> -1 \<and> shards sh (number url) = None")
    case True
    define sh' where "sh' = sh\<lparr>shards := (shards sh)(number url := Some (new_pool b url))\<rparr>"
    have a: "addSharding b url sh = (True, sh')"
      using True by (simp add: addSharding_def addShard_def sh'_def number_def new_pool_def)
    have m: "shards sh' ++ map_of kvs = shards sh ++ map_of ((number url, new_pool b url) # kvs)"
      if "number url \<notin> fst ` set kvs" for kvs
      using that by (simp add: sh'_def map_add_upd_left dom_map_of_conv_image_fst)
    define good where "good \<longleftrightarrow> distinct (map number urls) \<and> (\<forall>u\<in>set urls. number u \<noteq> -1 \<and> shards sh' (number u) = None)"
    have iff: "distinct (map number (url # urls)) \<and> (\<forall>u\<in>set (url # urls). number u \<noteq> -1 \<and> shards sh (number u) = None)
        \<longleftrightarrow> good"
      using True by (auto simp: good_def sh'_def image_iff)
    have num: "good \<Longrightarrow> number url \<notin> fst ` set (map (\<lambda>url. (number url, new_pool b url)) urls)"
      by (auto simp: good_def sh'_def)
    have "addShardings b (url # urls) sh = (if good
        then (True, sh'\<lparr>shards := shards sh' ++ map_of (map (\<lambda>url. (number url, new_pool b url)) urls)\<rparr>)
        else (False, fini sh'))"
      by (simp only: addShardings.simps a prod.case bool.case Cons.IH Let_def good_def number_def)
    also have "\<dots> = (if good
        then (True, sh\<lparr>shards := shards sh ++ map_of (map (\<lambda>url. (number url, new_pool b url)) (url # urls))\<rparr>)
        else (False, fini sh))"
      using m[OF num] by (simp add: fini_def sh'_def)
    finally show ?thesis unfolding Let_def number_def[symmetric] iff .
  next
    case False
    then have "addSharding b url sh = (False, sh)"
      by (auto simp: addSharding_def addShard_def number_def new_pool_def)
    then show ?thesis using False by (auto simp: Let_def number_def)
  qed
qed simp

text \<open>The connections of MySQL++ in particular.\<close>

locale mysql_base = base_pool B lent owned ok empty_pool
  for B :: "(connection, 'b) base_methods" and lent owned ok empty_pool
begin

lemma new_pool_ready:
  assumes "reachable connects url" "pool_shard (new_pool empty_pool url) \<noteq> -1"
  shows "shard_ready lent owned ok connects (pool_shard (new_pool empty_pool url)) (new_pool empty_pool url) \<and>
    owned (base (new_pool empty_pool url)) = {}"
proof -
  have e: "ok empty_pool" "owned empty_pool = {}" "lent empty_pool = {}"
    using empty lent_owned[of empty_pool] by auto
  have b: "base (new_pool empty_pool url) = empty_pool" "in_use_now (new_pool empty_pool url) = 0"
    "0 < max_conns (new_pool empty_pool url)"
    by (simp_all add: new_pool_def MySqlConnectionPool_def)
  then show ?thesis using create_reachable[OF assms] e by (simp add: shard_ready_def pool_ok_def)
qed

lemma guard_on_pool:
  assumes r: "shard_ready lent owned ok connects i p" and f: "a \<notin> address ` owned (base p)"
  obtains c q where "mysql_acquire B connects a now p = Some (Some c, q)" "connected c" "conn_shard c = i"
    "shard_ready lent owned ok connects i (mysql_putback B later (Some c) q)"
    "owned (base (mysql_putback B later (Some c) q)) \<subseteq> insert (create connects a p) (owned (base p))"
proof -
  have p: "pool_ok lent ok p" "lent (base p) = {}" "0 < max_conns p"
    "\<forall>c\<in>owned (base p). connected c \<and> conn_shard c = i"
    "\<And>a. connected (create connects a p) \<and> conn_shard (create connects a p) = i"
    using r by (simp_all add: shard_ready_def)
  have "create connects a p \<notin> owned (base p)" using f by force
  moreover have "in_use_now p < max_conns p" using p(1-3) by (simp add: pool_ok_def unat_eq_0)
  ultimately obtain c b where g:
      "mysql_grab B (\<lambda>_. in_use_now p) (create connects a p) now p = Some (Some c, p\<lparr>in_use_now := in_use_now p + 1, base := b\<rparr>)"
      "pool_ok lent ok (p\<lparr>in_use_now := in_use_now p + 1, base := b\<rparr>)" "c \<in> insert (create connects a p) (owned (base p))"
      "lent b = insert c (lent (base p))" "owned b \<subseteq> insert (create connects a p) (owned (base p))"
    using grab_lends[OF p(1)] by metis
  define q where "q = p\<lparr>in_use_now := in_use_now p + 1, base := b\<rparr>"
  have c: "connected c" "conn_shard c = i" using g(3) p(4,5) by auto
  have "c \<in> lent (base q)" by (simp add: q_def g(4))
  note b = putback_frees[OF g(2)[folded q_def] this, of later]
  have rest: "max_conns (mysql_putback B later (Some c) q) = max_conns p"
    "pool_url (mysql_putback B later (Some c) q) = pool_url p"
    by (simp_all add: mysql_putback_def mysql_release_def Let_def q_def)
  then have "create connects a' (mysql_putback B later (Some c) q) = create connects a' p" for a'
    by (simp add: create_def)
  moreover have "owned (base q) \<subseteq> insert (create connects a p) (owned (base p))" using g(5) by (simp add: q_def)
  moreover from this have "\<forall>d\<in>owned (base q). connected d \<and> conn_shard d = i" using p(4,5) by auto
  ultimately show ?thesis
    using that[OF _ c] g(1) b rest p(2,3,5) by (simp add: mysql_acquire_def shard_ready_def q_def g(4))
qed

lemma acquire_times_lends:
  assumes "pool_ok lent ok p" "card (lent (base p)) + n \<le> unat (max_conns p)" "\<forall>x. a \<le> address x \<longrightarrow> x \<notin> owned (base p)"
  shows "\<exists>ds q. mysql_acquire_times B connects a now n cs p = Some (cs @ map Some ds, q) \<and> pool_ok lent ok q \<and>
    distinct ds \<and> set ds \<inter> lent (base p) = {} \<and> lent (base q) = lent (base p) \<union> set ds \<and> max_conns q = max_conns p \<and>
    waittime q = waittime p \<and> pool_url q = pool_url p"
  using assms
proof (induction n arbitrary: a cs p)
  case (Suc n)
  have n: "in_use_now p < max_conns p" using Suc.prems(1,2) by (simp add: pool_ok_def word_less_nat_alt)
  have "create connects a p \<notin> owned (base p)" using Suc.prems(3) by simp
  from grab_lends[OF Suc.prems(1) this n, of now] obtain c b where
      g: "mysql_grab B (\<lambda>_. in_use_now p) (create connects a p) now p = Some (Some c, p\<lparr>in_use_now := in_use_now p + 1, base := b\<rparr>)"
        "pool_ok lent ok (p\<lparr>in_use_now := in_use_now p + 1, base := b\<rparr>)" "c \<notin> lent (base p)"
        "lent b = insert c (lent (base p))" "owned b \<subseteq> insert (create connects a p) (owned (base p))" .
  define q where "q = p\<lparr>in_use_now := in_use_now p + 1, base := b\<rparr>"
  have fin: "finite (lent (base p))" using Suc.prems(1) by (simp add: pool_ok_def)
  have "card (lent (base q)) + n \<le> unat (max_conns q)" using Suc.prems(2) g(3) fin by (simp add: q_def g(4))
  moreover have "\<forall>x. Suc a \<le> address x \<longrightarrow> x \<notin> owned (base q)"
  proof (intro allI impI)
    fix x :: connection
    assume x: "Suc a \<le> address x"
    have "address (create connects a p) = a" by simp
    with x have "x \<noteq> create connects a p" by (cases "x = create connects a p") simp_all
    moreover have "x \<notin> owned (base p)" using Suc.prems(3) x by simp
    ultimately show "x \<notin> owned (base q)" using subsetD[OF g(5), of x] by (auto simp: q_def)
  qed
  ultimately obtain ds r where r: "mysql_acquire_times B connects (Suc a) now n (cs @ [Some c]) q = Some ((cs @ [Some c]) @ map Some ds, r)"
      "pool_ok lent ok r" "distinct ds" "set ds \<inter> lent (base q) = {}" "lent (base r) = lent (base q) \<union> set ds"
      "max_conns r = max_conns q" "waittime r = waittime q" "pool_url r = pool_url q"
    using Suc.IH[OF g(2)[folded q_def]] by blast
  have "mysql_acquire_times B connects a now (Suc n) cs p = Some (cs @ map Some (c # ds), r)"
    using r(1) g(1) by (simp add: mysql_acquire_def flip: q_def)
  then show ?case using r(2-) g(3,4) by (intro exI[of _ "c # ds"] exI[of _ r]) (auto simp: q_def)
qed simp

lemma putbacks_free:
  "pool_ok lent ok p \<Longrightarrow> distinct ds \<Longrightarrow> set ds \<subseteq> lent (base p) \<Longrightarrow>
   pool_ok lent ok (foldl (\<lambda>p c. mysql_putback B now c p) p (map Some ds)) \<and>
   lent (base (foldl (\<lambda>p c. mysql_putback B now c p) p (map Some ds))) = lent (base p) - set ds"
proof (induction ds arbitrary: p)
  case (Cons d ds)
  then have "pool_ok lent ok p" "d \<in> lent (base p)" by simp_all
  note f = putback_frees[OF this, of now]
  have "set ds \<subseteq> lent (base (mysql_putback B now (Some d) p))" using Cons.prems(2,3) f(2) by auto
  from Cons.IH[OF f(1) _ this] Cons.prems(2) f(2) show ?case by auto
qed simp

lemma use_key_ready:
  assumes r: "all_ready lent owned ok connects A sh" and a: "a \<notin> A"
  shows "\<exists>sh'. use_key B connects a now key sh = Some sh' \<and> all_ready lent owned ok connects (insert a A) sh' \<and>
    shardnum sh' = shardnum sh \<and> (\<forall>i. shards sh' i = None \<longleftrightarrow> shards sh i = None)"
proof (cases "getShardByKey MurmurHash_hash sh key")
  case None
  then have "use_key B connects a now key sh = Some sh"
    by (simp add: use_key_def ScopedConnectionByKey_def ScopedConnection_def acquireByKey_def sharded_putback_def)
  then show ?thesis using r by (auto simp: all_ready_def intro: exI[of _ sh])
next
  case (Some p)
  define i where "i = shard_index (MurmurHash_hash key) (shardnum sh)"
  have p: "shards sh i = Some p"
    using Some by (simp add: getShardByKey_def getShardByHash_def getShardByID_def i_def split: if_splits)
  have ready: "shard_ready lent owned ok connects i p" "address ` owned (base p) \<subseteq> A"
    using r p by (simp_all add: all_ready_def)
  have "a \<notin> address ` owned (base p)" using ready(2) a by auto
  from guard_on_pool[OF ready(1) this, of now now] obtain c q where
      g: "mysql_acquire B connects a now p = Some (Some c, q)" "conn_shard c = i"
        "shard_ready lent owned ok connects i (mysql_putback B now (Some c) q)"
        "owned (base (mysql_putback B now (Some c) q)) \<subseteq> insert (create connects a p) (owned (base p))" .
  define sh' where "sh' = sh\<lparr>shards := (shards sh)(i := Some (mysql_putback B now (Some c) q))\<rparr>"
  have "use_key B connects a now key sh = Some sh'"
    using Some g(1,2) by (simp add: use_key_def ScopedConnectionByKey_def ScopedConnection_def acquireByKey_def
        sharded_putback_def getShardByID_def sh'_def flip: i_def)
  moreover have "address ` owned (base (mysql_putback B now (Some c) q)) \<subseteq> insert a A"
    using g(4) ready(2) by force
  then have "all_ready lent owned ok connects (insert a A) sh'"
    using r g(3) by (auto simp: all_ready_def sh'_def) blast
  ultimately show ?thesis using p by (intro exI[of _ sh']) (auto simp: sh'_def)
qed

lemma use_keys_ready:
  assumes "all_ready lent owned ok connects A sh" "distinct (map fst uses)" "fst ` set uses \<inter> A = {}"
  shows "\<exists>sh'. use_keys B uses connects sh = Some sh' \<and> all_ready lent owned ok connects (A \<union> fst ` set uses) sh' \<and>
    shardnum sh' = shardnum sh \<and> (\<forall>i. shards sh' i = None \<longleftrightarrow> shards sh i = None)"
  using assms
proof (induction uses arbitrary: A sh)
  case (Cons use uses)
  obtain a now key where u: "use = (a, now, key)" by (cases use)
  from use_key_ready[OF Cons.prems(1), of a now key] Cons.prems(3) obtain sh' where
      s: "use_key B connects a now key sh = Some sh'" "all_ready lent owned ok connects (insert a A) sh'"
        "shardnum sh' = shardnum sh" "\<forall>i. shards sh' i = None \<longleftrightarrow> shards sh i = None"
    by (auto simp: u)
  have "fst ` set uses \<inter> insert a A = {}" using Cons.prems(2,3) by (auto simp: u)
  from Cons.IH[OF s(2) _ this] Cons.prems(2) s show ?case by (simp add: u)
qed simp

lemma configured_ready:
  assumes a: "addShardings empty_pool urls (Sharding_init n) = (True, sh)"
    and r: "\<forall>url\<in>set urls. reachable connects url"
  shows "all_ready lent owned ok connects {} sh \<and> shardnum sh = n"
proof -
  from a have sh: "sh = \<lparr>shards = map_of (map (\<lambda>url. (pool_shard (new_pool empty_pool url), new_pool empty_pool url)) urls), shardnum = n\<rparr>"
    and ok: "\<forall>url\<in>set urls. pool_shard (new_pool empty_pool url) \<noteq> -1"
    by (auto simp: addShardings_eq Sharding_init_def Let_def split: if_splits)
  have "shard_ready lent owned ok connects i p \<and> address ` owned (base p) \<subseteq> {}" if "shards sh i = Some p" for i p
  proof -
    from that sh obtain url where "url \<in> set urls" "i = pool_shard (new_pool empty_pool url)" "p = new_pool empty_pool url"
      by (auto dest!: map_of_SomeD)
    with new_pool_ready[of connects url] r ok show ?thesis by simp
  qed
  then show ?thesis by (simp add: all_ready_def sh)
qed

lemma unreachable_blocks:
  assumes a: "addSharding empty_pool url (Sharding_init n) = (True, sh)" "max_conns (new_pool empty_pool url) = 1"
    and f: "\<not> fst (connectByURL connects url (MySqlConnection a))"
  shows "\<exists>sh'. use_shard B connects a now (pool_shard (new_pool empty_pool url)) sh = Some sh' \<and>
    (\<forall>connects' a' now'. use_shard B connects' a' now' (pool_shard (new_pool empty_pool url)) sh' = None)"
proof -
  define p where "p = new_pool empty_pool url"
  define c where "c = create connects a p"
  have sh: "sh = \<lparr>shards = [pool_shard p \<mapsto> p], shardnum = n\<rparr>" and shard: "pool_shard p \<noteq> -1"
    using a(1) by (auto simp: addSharding_def addShard_def Sharding_init_def p_def new_pool_def split: if_splits)
  have p: "base p = empty_pool" "in_use_now p = 0" "max_conns p = 1" "waittime p = -1" "pool_url p = url"
    using a(2) by (simp_all add: p_def) (simp_all add: new_pool_def MySqlConnectionPool_def)
  have c: "conn_shard c = -1"
    using f by (auto simp: c_def create_def p(5) connectByURL_def MySqlConnection_def split: prod.splits if_splits)
  have e: "ok (base p)" "c \<notin> owned (base p)" "owned (base p) = {}" using empty by (simp_all add: p(1))
  from lends[OF e(1,2), of now] e(3) obtain b where "grab_base B (Some c) now (base p) = (Some c, b)" by auto
  then have g: "mysql_acquire B connects a now p = Some (Some c, p\<lparr>in_use_now := 1, base := b\<rparr>)"
    unfolding mysql_acquire_def mysql_grab_unfold by (simp add: p(2,3) flip: c_def)
  define sh' where "sh' = \<lparr>shards = [pool_shard p \<mapsto> p\<lparr>in_use_now := 1, base := b\<rparr>], shardnum = n\<rparr>"
  have "use_shard B connects a now (pool_shard p) sh = Some sh'"
    using shard by (simp add: use_shard_def ScopedConnectionByShard_def ScopedConnection_def acquireByShard_def
        getShardByID_def sh g sharded_putback_def c sh'_def)
  moreover have "use_shard B connects' a' now' (pool_shard p) sh' = None" for connects' a' now'
    unfolding use_shard_def ScopedConnectionByShard_def ScopedConnection_def acquireByShard_def mysql_acquire_def
      mysql_grab_unfold by (simp add: getShardByID_def sh'_def p)
  ultimately show ?thesis by (auto simp: p_def)
qed

end

interpretation own_mysql: mysql_base own_base held known base_ok "[]"
  by unfold_locales

subsection \<open>Properties\<close>

text \<open>
  A sharding set up from URLs: it is accepted when every URL names a shard of its own, and then
  holds one pool for each; otherwise no pool is left, not even the ones that were accepted. It is
  ready when the shards named cover the numbers below its size.
\<close>

theorem sharding_from_urls:
  "let number = \<lambda>url. pool_shard (new_pool b url);
       sh = \<lparr>shards = map_of (map (\<lambda>url. (number url, new_pool b url)) urls), shardnum = n\<rparr>
   in addShardings b urls (Sharding_init n) =
        (if distinct (map number urls) \<and> -1 \<notin> set (map number urls) then (True, sh) else (False, Sharding_init n)) \<and>
      (isReady sh \<longleftrightarrow> {0..<n} \<subseteq> set (map number urls))"
proof -
  have "{i. map_of (map (\<lambda>url. (pool_shard (new_pool b url), new_pool b url)) urls) i \<noteq> None} =
      (\<lambda>url. pool_shard (new_pool b url)) ` set urls"
    by (simp add: map_of_eq_None_iff image_image)
  moreover have "-1 \<notin> set (map f urls) \<longleftrightarrow> (\<forall>url\<in>set urls. f url \<noteq> -1)" for f :: "string \<Rightarrow> int"
    by force
  ultimately show ?thesis
    by (simp add: Let_def addShardings_eq Sharding_init_def fini_def isReady_iff)
qed

text \<open>
  \<open>connect\<close> on a new pool returns, whether the server can be reached or not, and gives back every
  connection it has taken: the pool lends nothing and counts none as in use.
\<close>

theorem pool_connect_returns:
  assumes "mysql_base B lent owned ok e"
  shows "\<exists>p. pool_connect B connects a now url (MySqlConnectionPool e) = Some p \<and>
    pool_ok lent ok p \<and> lent (base p) = {} \<and> in_use_now p = 0"
proof -
  define p where "p = new_pool e url"
  have base: "base_pool B lent owned ok e" using assms by (simp add: mysql_base_def)
  note empty = base_pool.empty[OF base] base_pool.lent_owned[OF base, of e]
  have p: "base p = e" "in_use_now p = 0" by (simp_all add: p_def new_pool_def MySqlConnectionPool_def)
  then have ok: "pool_ok lent ok p" "card (lent (base p)) + unat (max_conns p) \<le> unat (max_conns p)"
      "\<forall>x. a \<le> address x \<longrightarrow> x \<notin> owned (base p)" "lent (base p) = {}"
    using empty by (simp_all add: pool_ok_def)
  from mysql_base.acquire_times_lends[OF assms ok(1-3), of connects now "[]"] obtain ds q where
      q: "mysql_acquire_times B connects a now (unat (max_conns p)) [] p = Some (map Some ds, q)" "pool_ok lent ok q"
        "distinct ds" "lent (base q) = set ds"
    by (auto simp: ok(4))
  define r where "r = foldl (\<lambda>p c. mysql_putback B now c p) q (map Some ds)"
  have r: "pool_ok lent ok r" "lent (base r) = {}"
    using mysql_base.putbacks_free[OF assms q(2,3), of now] by (simp_all add: q(4) r_def)
  then have "in_use_now r = 0" by (simp add: pool_ok_def unat_eq_0)
  moreover have "pool_connect B connects a now url (MySqlConnectionPool e) = Some r"
    using q(1) by (simp add: pool_connect_def Let_def r_def p_def new_pool_def)
  ultimately show ?thesis using r by blast
qed

theorem pool_connect_returns_witness:
  "\<exists>p. pool_connect own_base (\<lambda>_ _ _ _ _. False) 0 5 ''mysql://db/game?maxconn=3'' (MySqlConnectionPool []) = Some p \<and>
    pool_ok held base_ok p \<and> held (base p) = {} \<and> in_use_now p = 0"
  by (rule pool_connect_returns[OF own_mysql.mysql_base_axioms])

text \<open>
  C24. A sharding set up from URLs whose servers can be reached never blocks: after any number of
  guards, one after the other and for any keys, a key that is routed to a shard gets a connection
  at once; it is connected, and its shard is the one of the key.
\<close>

theorem configured_pools_serve:
  assumes "mysql_base B lent owned ok e"
    and "addShardings e urls (Sharding_init n) = (True, sh)" "\<forall>url\<in>set urls. reachable connects url"
    and "distinct (a # map fst uses)" "getShardByKey MurmurHash_hash sh key \<noteq> None"
  shows "\<exists>sh' c sh''. use_keys B uses connects sh = Some sh' \<and>
    acquireByKey MurmurHash_hash (mysql_acquire B connects a now) key sh' = Some (Some c, sh'') \<and>
    connected c \<and> conn_shard c = shard_index (MurmurHash_hash key) n"
proof -
  note ready = mysql_base.configured_ready[OF assms(1-3)]
  have "distinct (map fst uses)" "fst ` set uses \<inter> {} = {}" using assms(4) by simp_all
  from mysql_base.use_keys_ready[OF assms(1) ready[THEN conjunct1] this] ready obtain sh' where
      s: "use_keys B uses connects sh = Some sh'" "all_ready lent owned ok connects (fst ` set uses) sh'"
        "shardnum sh' = n" "\<forall>i. shards sh' i = None \<longleftrightarrow> shards sh i = None"
    by auto
  define i where "i = shard_index (MurmurHash_hash key) n"
  have n: "0 < n" "shards sh' i \<noteq> None"
    using assms(5) ready s(3,4) by (auto simp: getShardByKey_def getShardByHash_def getShardByID_def i_def split: if_splits)
  then obtain p where p: "shards sh' i = Some p" by auto
  have r: "shard_ready lent owned ok connects i p" "a \<notin> address ` owned (base p)"
    using s(2) p assms(4) by (auto simp: all_ready_def)
  from mysql_base.guard_on_pool[OF assms(1) r, of now now] obtain c q where
      g: "mysql_acquire B connects a now p = Some (Some c, q)" "connected c" "conn_shard c = i" .
  then have "acquireByKey MurmurHash_hash (mysql_acquire B connects a now) key sh' =
      Some (Some c, sh'\<lparr>shards := (shards sh')(i := Some q)\<rparr>)"
    using p n s(3) by (simp add: acquireByKey_def getShardByKey_def getShardByHash_def getShardByID_def i_def)
  then show ?thesis using s(1) g(2,3) by (auto simp: i_def)
qed

definition example_urls :: "string list" where
  "example_urls = [''mysql://db/game?shard=0'', ''mysql://db/game?shard=1'']"

lemma example_parsed:
  "TinyURL_parse ''mysql://db/game?shard=0'' = (True, TinyURL_reset\<lparr>schema := ''mysql'', host := ''db'', path := ''game'',
     query := [(''shard'', ''0'')]\<rparr>)"
  "TinyURL_parse ''mysql://db/game?shard=1'' = (True, TinyURL_reset\<lparr>schema := ''mysql'', host := ''db'', path := ''game'',
     query := [(''shard'', ''1'')]\<rparr>)"
  by code_simp+

lemma example_numbers:
  "int_of_long (atol ''0'') = 0" "int_of_long (atol ''1'') = 1"
  by code_simp+

lemma example_pools:
  "pool_shard (new_pool b ''mysql://db/game?shard=0'') = 0" "pool_shard (new_pool b ''mysql://db/game?shard=1'') = 1"
  "max_conns (new_pool b ''mysql://db/game?shard=0'') = 1"
  by (simp_all add: new_pool_def setServerAddress_def example_parsed example_numbers parameter_def
      MySqlConnectionPool_def Let_def)

theorem configured_pools_serve_witness:
  "\<exists>sh' c sh''. use_keys own_base [(1, 0, [97]), (2, 0, [98])] (\<lambda>_ _ _ _ _. True)
      (snd (addShardings [] example_urls (Sharding_init 2))) = Some sh' \<and>
    acquireByKey MurmurHash_hash (mysql_acquire own_base (\<lambda>_ _ _ _ _. True) 3 0) [99] sh' = Some (Some c, sh'') \<and>
    connected c \<and> conn_shard c = shard_index (MurmurHash_hash [99]) 2"
proof -
  define sh :: "connection PoolT mysql_sharding" where "sh = snd (addShardings [] example_urls (Sharding_init 2))"
  have a: "addShardings [] example_urls (Sharding_init 2) = (True, sh)"
    by (simp add: sh_def addShardings_eq example_urls_def example_pools Sharding_init_def)
  have sh: "shards sh 0 \<noteq> None \<and> shards sh 1 \<noteq> None \<and> shardnum sh = 2"
    by (simp add: sh_def addShardings_eq example_urls_def example_pools Sharding_init_def)
  have "shard_index h 2 = 0 \<or> shard_index h 2 = 1" for h
  proof -
    have "uint h \<le> 4294967295" using uint_lt2p[of h] by simp
    then have "uint h div 2147483648 \<le> 4294967295 div 2147483648" by (rule zdiv_mono1) simp
    moreover have "0 \<le> uint h div 2147483648" by (simp add: pos_imp_zdiv_nonneg_iff)
    ultimately show ?thesis by (auto simp: shard_index_div)
  qed
  then have k: "getShardByKey MurmurHash_hash sh [99] \<noteq> None"
    using sh by (simp add: getShardByKey_def getShardByHash_def getShardByID_def) metis
  have r: "\<forall>url\<in>set example_urls. reachable (\<lambda>_ _ _ _ _. True) url"
    by (simp add: example_urls_def reachable_def connectByURL_def example_parsed)
  show ?thesis
    unfolding sh_def[symmetric]
    by (rule configured_pools_serve[OF own_mysql.mysql_base_axioms a r _ k]) simp
qed

text \<open>
  C32. A server that cannot be reached blocks its shard for good: \<open>create\<close> hands out a connection
  that could not be set up, it does not know its shard, so the sharding cannot put it back; with
  the limit of one connection a URL has by default, no guard on that shard returns again, even
  when the server is back.
\<close>

theorem unreachable_server_blocks:
  assumes "mysql_base B lent owned ok e"
    and "addSharding e url (Sharding_init n) = (True, sh)" "max_conns (new_pool e url) = 1"
    and "\<not> fst (connectByURL connects url (MySqlConnection a))"
  shows "\<exists>sh'. use_shard B connects a now (pool_shard (new_pool e url)) sh = Some sh' \<and>
    (\<forall>connects' a' now'. use_shard B connects' a' now' (pool_shard (new_pool e url)) sh' = None)"
  by (rule mysql_base.unreachable_blocks[OF assms])

theorem unreachable_server_blocks_witness:
  "\<exists>sh'. use_shard own_base (\<lambda>_ _ _ _ _. False) 1 0 0 (snd (addSharding [] ''mysql://db/game?shard=0'' (Sharding_init 1))) = Some sh' \<and>
    (\<forall>connects' a' now'. use_shard own_base connects' a' now' 0 sh' = None)"
proof -
  define sh :: "connection PoolT mysql_sharding"
    where "sh = snd (addSharding [] ''mysql://db/game?shard=0'' (Sharding_init 1))"
  have a: "addSharding [] ''mysql://db/game?shard=0'' (Sharding_init 1) = (True, sh)"
    by (simp add: sh_def addSharding_def addShard_def Sharding_init_def example_pools(1)[unfolded new_pool_def])
  show ?thesis
    using unreachable_server_blocks[OF own_mysql.mysql_base_axioms a, of "\<lambda>_ _ _ _ _. False" 1 0]
    by (simp add: example_pools connectByURL_def example_parsed flip: sh_def)
qed

end
