(* ===== verification/Orm_Pool.thy ===== *)
theory Orm_Pool
  imports Mysql_Pool Orm_Theorems
begin

text \<open>
  The rest of \<open>common/tinyorm_mysql.h\<close> and \<open>tinyorm.h\<close>: how a \<open>TinyMySqlORM\<close> gets its connection from
  a pool and puts it back, and \<open>Object2DB_T\<close>, an object with its operations on the database.

  A connection decides which MySQL++ the operations run over: the parameter \<open>my\<close> is a function of
  it, and the operations are the ones of \<open>Orm_Mysql\<close>. A call on a null connection has no result.
\<close>

subsection \<open>The connection of a TinyMySqlORM\<close>

text \<open>The two constructors and the destructor: \<open>mysql_\<close>, and the pool it was taken from.\<close>

record 'b orm =
  mysql_conn :: "connection option"
  orm_pool :: "'b mysql_pool option"

definition orm_of_pool :: "(connection, 'b) base_methods \<Rightarrow> server \<Rightarrow> nat \<Rightarrow> int \<Rightarrow> 'b mysql_pool option \<Rightarrow> 'b orm option" where
  "orm_of_pool B connects a now pl =
     (case pl of
        None \<Rightarrow> Some \<lparr>mysql_conn = None, orm_pool = None\<rparr>
      | Some p \<Rightarrow> map_option (\<lambda>(c, p). \<lparr>mysql_conn = c, orm_pool = Some p\<rparr>) (mysql_acquire B connects a now p))"

definition orm_of_connection :: "connection option \<Rightarrow> 'b orm" where
  "orm_of_connection c = \<lparr>mysql_conn = c, orm_pool = None\<rparr>"

definition orm_destroy :: "(connection, 'b) base_methods \<Rightarrow> int \<Rightarrow> 'b orm \<Rightarrow> 'b mysql_pool option" where
  "orm_destroy B now x =
     (case orm_pool x of None \<Rightarrow> None | Some p \<Rightarrow> Some (mysql_putback B now (mysql_conn x) p))"

subsection \<open>Object2DB_T\<close>

datatype 'r outcome = Returned 'r | Waits | Null_connection

text \<open>
  A method of the mapping on the connection of \<open>x\<close>: without a descriptor it returns \<open>r\<close> before it
  looks at the connection.
\<close>

definition on_connection :: "(connection \<Rightarrow> 'db \<Rightarrow> 'r \<times> 'db) \<Rightarrow> bool \<Rightarrow> 'r \<Rightarrow> 'b orm \<Rightarrow> 'db \<Rightarrow> ('r \<times> 'db) outcome" where
  "on_connection method found r x db =
     (case mysql_conn x of
        Some c \<Rightarrow> Returned (method c db)
      | None \<Rightarrow> if found then Null_connection else Returned (r, db))"

text \<open>\<open>ORM orm(pool); return orm.method();\<close> and the same with a connection.\<close>

definition with_pool :: "(connection, 'b) base_methods \<Rightarrow> server \<Rightarrow> nat \<Rightarrow> int \<Rightarrow> (connection \<Rightarrow> 'db \<Rightarrow> 'r \<times> 'db) \<Rightarrow> bool \<Rightarrow> 'r
    \<Rightarrow> 'b mysql_pool option \<Rightarrow> 'db \<Rightarrow> ('r \<times> 'db \<times> 'b mysql_pool option) outcome" where
  "with_pool B connects a now method found r pl db =
     (case orm_of_pool B connects a now pl of
        None \<Rightarrow> Waits
      | Some x \<Rightarrow> (case on_connection method found r x db of
            Returned (v, db) \<Rightarrow> Returned (v, db, orm_destroy B now x)
          | Waits \<Rightarrow> Waits
          | Null_connection \<Rightarrow> Null_connection))"

definition with_connection :: "(connection \<Rightarrow> 'db \<Rightarrow> 'r \<times> 'db) \<Rightarrow> bool \<Rightarrow> 'r \<Rightarrow> connection option \<Rightarrow> 'db \<Rightarrow> ('r \<times> 'db) outcome" where
  "with_connection method found r c db = on_connection method found r (orm_of_connection c :: unit orm) db"

text \<open>What an object needs to reach its table: the type, the factory, and the ways to connect.\<close>

record ('t, 'd, 'o, 'db, 'b) object_db =
  methods :: "(connection, 'b) base_methods"
  net :: server
  driver :: "connection \<Rightarrow> ('d, 'o, 'db) mysqlpp"
  type_name :: string
  factory :: "('t, ('d, 'o) field_value) TableFactory"

definition registered :: "('t, 'd::zero, 'o, 'db, 'b) object_db \<Rightarrow> bool" where
  "registered D \<longleftrightarrow> tableByType (type_name D) (factory D) \<noteq> None"

definition object_createTable :: "('t, 'd::zero, 'o, 'db, 'b) object_db \<Rightarrow> nat \<Rightarrow> int \<Rightarrow> 'b mysql_pool option \<Rightarrow> 'db
    \<Rightarrow> (bool \<times> 'db \<times> 'b mysql_pool option) outcome" where
  "object_createTable D a now = with_pool (methods D) (net D) a now
     (\<lambda>c. createTableByType (driver D c) (type_name D) (factory D)) (registered D) False"

definition object_createTable_on :: "('t, 'd::zero, 'o, 'db, 'b) object_db \<Rightarrow> connection option \<Rightarrow> 'db \<Rightarrow> (bool \<times> 'db) outcome" where
  "object_createTable_on D = with_connection
     (\<lambda>c. createTableByType (driver D c) (type_name D) (factory D)) (registered D) False"

definition object_dropTable :: "('t, 'd::zero, 'o, 'db, 'b) object_db \<Rightarrow> nat \<Rightarrow> int \<Rightarrow> 'b mysql_pool option \<Rightarrow> 'db
    \<Rightarrow> (bool \<times> 'db \<times> 'b mysql_pool option) outcome" where
  "object_dropTable D a now = with_pool (methods D) (net D) a now
     (\<lambda>c. dropTableByType (driver D c) (type_name D) (factory D)) (registered D) False"

definition object_dropTable_on :: "('t, 'd::zero, 'o, 'db, 'b) object_db \<Rightarrow> connection option \<Rightarrow> 'db \<Rightarrow> (bool \<times> 'db) outcome" where
  "object_dropTable_on D = with_connection
     (\<lambda>c. dropTableByType (driver D c) (type_name D) (factory D)) (registered D) False"

definition object_updateTable :: "('t, 'd::zero, 'o, 'db, 'b) object_db \<Rightarrow> nat \<Rightarrow> int \<Rightarrow> 'b mysql_pool option \<Rightarrow> 'db
    \<Rightarrow> (bool \<times> 'db \<times> 'b mysql_pool option) outcome" where
  "object_updateTable D a now = with_pool (methods D) (net D) a now
     (\<lambda>c. updateTableByType (driver D c) (type_name D) (factory D)) (registered D) False"

definition object_updateTable_on :: "('t, 'd::zero, 'o, 'db, 'b) object_db \<Rightarrow> connection option \<Rightarrow> 'db \<Rightarrow> (bool \<times> 'db) outcome" where
  "object_updateTable_on D = with_connection
     (\<lambda>c. updateTableByType (driver D c) (type_name D) (factory D)) (registered D) False"

definition selectDB :: "('t, 'd::zero, 'o, 'db, 'b) object_db \<Rightarrow> nat \<Rightarrow> int \<Rightarrow> 't \<Rightarrow> 'b mysql_pool option \<Rightarrow> 'db
    \<Rightarrow> ((bool \<times> 't) \<times> 'db \<times> 'b mysql_pool option) outcome" where
  "selectDB D a now obj = with_pool (methods D) (net D) a now
     (\<lambda>c. select (driver D c) (type_name D) (factory D) obj) (registered D) (False, obj)"

definition selectDB_on :: "('t, 'd::zero, 'o, 'db, 'b) object_db \<Rightarrow> 't \<Rightarrow> connection option \<Rightarrow> 'db \<Rightarrow> ((bool \<times> 't) \<times> 'db) outcome" where
  "selectDB_on D obj = with_connection
     (\<lambda>c. select (driver D c) (type_name D) (factory D) obj) (registered D) (False, obj)"

definition insertDB :: "('t, 'd::zero, 'o, 'db, 'b) object_db \<Rightarrow> nat \<Rightarrow> int \<Rightarrow> 't \<Rightarrow> 'b mysql_pool option \<Rightarrow> 'db
    \<Rightarrow> (bool \<times> 'db \<times> 'b mysql_pool option) outcome" where
  "insertDB D a now obj = with_pool (methods D) (net D) a now
     (\<lambda>c. insert_obj (driver D c) (type_name D) (factory D) obj) (registered D) False"

definition insertDB_on :: "('t, 'd::zero, 'o, 'db, 'b) object_db \<Rightarrow> 't \<Rightarrow> connection option \<Rightarrow> 'db \<Rightarrow> (bool \<times> 'db) outcome" where
  "insertDB_on D obj = with_connection
     (\<lambda>c. insert_obj (driver D c) (type_name D) (factory D) obj) (registered D) False"

definition replaceDB :: "('t, 'd::zero, 'o, 'db, 'b) object_db \<Rightarrow> nat \<Rightarrow> int \<Rightarrow> 't \<Rightarrow> 'b mysql_pool option \<Rightarrow> 'db
    \<Rightarrow> (bool \<times> 'db \<times> 'b mysql_pool option) outcome" where
  "replaceDB D a now obj = with_pool (methods D) (net D) a now
     (\<lambda>c. replace (driver D c) (type_name D) (factory D) obj) (registered D) False"

definition replaceDB_on :: "('t, 'd::zero, 'o, 'db, 'b) object_db \<Rightarrow> 't \<Rightarrow> connection option \<Rightarrow> 'db \<Rightarrow> (bool \<times> 'db) outcome" where
  "replaceDB_on D obj = with_connection
     (\<lambda>c. replace (driver D c) (type_name D) (factory D) obj) (registered D) False"

definition updateDB :: "('t, 'd::zero, 'o, 'db, 'b) object_db \<Rightarrow> nat \<Rightarrow> int \<Rightarrow> 't \<Rightarrow> 'b mysql_pool option \<Rightarrow> 'db
    \<Rightarrow> (bool \<times> 'db \<times> 'b mysql_pool option) outcome" where
  "updateDB D a now obj = with_pool (methods D) (net D) a now
     (\<lambda>c. update_obj (driver D c) (type_name D) (factory D) obj) (registered D) False"

definition updateDB_on :: "('t, 'd::zero, 'o, 'db, 'b) object_db \<Rightarrow> 't \<Rightarrow> connection option \<Rightarrow> 'db \<Rightarrow> (bool \<times> 'db) outcome" where
  "updateDB_on D obj = with_connection
     (\<lambda>c. update_obj (driver D c) (type_name D) (factory D) obj) (registered D) False"

definition deleteDB :: "('t, 'd::zero, 'o, 'db, 'b) object_db \<Rightarrow> nat \<Rightarrow> int \<Rightarrow> 't \<Rightarrow> 'b mysql_pool option \<Rightarrow> 'db
    \<Rightarrow> (bool \<times> 'db \<times> 'b mysql_pool option) outcome" where
  "deleteDB D a now obj = with_pool (methods D) (net D) a now
     (\<lambda>c. del (driver D c) (type_name D) (factory D) obj) (registered D) False"

definition deleteDB_on :: "('t, 'd::zero, 'o, 'db, 'b) object_db \<Rightarrow> 't \<Rightarrow> connection option \<Rightarrow> 'db \<Rightarrow> (bool \<times> 'db) outcome" where
  "deleteDB_on D obj = with_connection
     (\<lambda>c. del (driver D c) (type_name D) (factory D) obj) (registered D) False"


lemmas object_defs = object_createTable_def object_dropTable_def object_updateTable_def
  selectDB_def insertDB_def replaceDB_def updateDB_def deleteDB_def

lemma with_pool_acquired:
  "mysql_acquire B connects a now p = Some (Some c, q) \<Longrightarrow>
   with_pool B connects a now method found r (Some p) db =
     (case method c db of (v, db) \<Rightarrow> Returned (v, db, Some (mysql_putback B now (Some c) q)))"
  by (simp add: with_pool_def orm_of_pool_def on_connection_def orm_destroy_def split: prod.splits)

subsection \<open>Properties\<close>

text \<open>
  C15. An object that is stored through a pool of connections is read back through it: both operations
  get a connection that is set up and give it back, and the object read has the members that were stored.
\<close>

theorem objects_through_pool:
  fixes D :: "('t, 'd::zero, 'o, sql_db, 'b) object_db"
  assumes B: "mysql_base (methods D) lent owned ok e" and p: "shard_ready lent owned ok (net D) i p"
    and a: "distinct [a, a']" "{a, a'} \<inter> address ` owned (base p) = {}" and dr: "\<And>c. connected c \<Longrightarrow> driver D c = my"
    and C: "orm_class td blank storable" and db: "orm_db my ru packet (type_name D) (factory D) td T db"
    and obj: "storable_in my ru td storable obj" "short_texts my packet (type_name D) (factory D) td obj"
    and old: "same_keys my ru td obj old" "keys_fit my ru td old" "short_texts my packet (type_name D) (factory D) td old"
      "\<And>fd. fd \<in> set (fields_ordered td) \<Longrightarrow> fd_type fd = OBJECT \<Longrightarrow> blank fd old"
  shows "\<exists>db' p' obj' p''. replaceDB D a now obj (Some p) db = Returned (True, db', Some p') \<and>
    selectDB D a' now' old (Some p') db' = Returned ((True, obj'), db', Some p'') \<and>
    (\<forall>fd\<in>set (fields_ordered td). member td fd obj' = member td fd obj) \<and> shard_ready lent owned ok (net D) i p''"
proof -
  have "a \<notin> address ` owned (base p)" using a(2) by simp
  from mysql_base.guard_on_pool[OF B p this, of now now] obtain c q where c: "connected c"
      "mysql_acquire (methods D) (net D) a now p = Some (Some c, q)"
      "shard_ready lent owned ok (net D) i (mysql_putback (methods D) now (Some c) q)"
      "owned (base (mysql_putback (methods D) now (Some c) q)) \<subseteq> insert (create (net D) a p) (owned (base p))" .
  define p' where "p' = mysql_putback (methods D) now (Some c) q"
  have "address ` owned (base p') \<subseteq> address ` insert (create (net D) a p) (owned (base p))"
    unfolding p'_def by (rule image_mono[OF c(4)])
  then have "a' \<notin> address ` owned (base p')" using a by auto
  from mysql_base.guard_on_pool[OF B c(3)[folded p'_def] this, of now' now'] obtain c' q' where c': "connected c'"
      "mysql_acquire (methods D) (net D) a' now' p' = Some (Some c', q')"
      "shard_ready lent owned ok (net D) i (mysql_putback (methods D) now' (Some c') q')" .
  note d = orm_dbD[OF db]
  have "find (has_key my ru td obj) (filter (\<lambda>r. \<not> has_key my ru td obj r) (rows T)) = None"
    by (rule find_filter_None) simp
  from orm_class.select_stored[OF C db obj(1) old(2,3,1,4) this holds_the_row[OF d(3,7), of my ru obj]]
  show ?thesis
    using orm_class.insert_run(2)[OF C db obj] c'(3)
    by (auto simp: replaceDB_def selectDB_def with_pool_acquired[OF c(2)] with_pool_acquired[OF c'(2)]
        dr[OF c(1)] dr[OF c'(1)] p'_def[symmetric])
qed

definition users_through_pool :: "(user, nat, bytes list, sql_db, connection PoolT) object_db" where
  "users_through_pool = \<lparr>methods = own_base, net = \<lambda>_ _ _ _ _. True, driver = \<lambda>_. ascii_mysql,
     type_name = ''4User'', factory = one_table users_td\<rparr>"

theorem objects_through_pool_witness:
  "\<exists>db' p' p''. replaceDB users_through_pool 1 0 ann (Some (new_pool [] ''mysql://db/game?shard=0'')) users_db = Returned (True, db', Some p') \<and>
    selectDB users_through_pool 2 0 (7, [], []) (Some p') db' = Returned ((True, ann), db', Some p'')"
proof -
  let ?p = "new_pool [] ''mysql://db/game?shard=0'' :: connection PoolT mysql_pool"
  have "reachable (\<lambda>_ _ _ _ _. True) ''mysql://db/game?shard=0''"
    by (simp add: reachable_def connectByURL_def example_parsed)
  then have p: "shard_ready held known base_ok (\<lambda>_ _ _ _ _. True) 0 ?p" "known (base ?p) = {}"
    using own_mysql.new_pool_ready[of "\<lambda>_ _ _ _ _. True" "''mysql://db/game?shard=0''"] by (simp_all add: example_pools)
  have listed: "ann \<in> set some_users" "(7, [], []) \<in> set some_users" by (simp_all add: some_users_def)
  have m: "mysql_base (methods users_through_pool) held known base_ok []"
    and r: "shard_ready held known base_ok (net users_through_pool) 0 ?p"
    and d: "orm_db ascii_mysql ascii_rules 1000 (type_name users_through_pool) (factory users_through_pool) users_td user_table users_db"
    and t: "short_texts ascii_mysql 1000 (type_name users_through_pool) (factory users_through_pool) users_td ann"
      "short_texts ascii_mysql 1000 (type_name users_through_pool) (factory users_through_pool) users_td (7, [], [])"
    and v: "driver users_through_pool c = ascii_mysql" for c
    using own_mysql.mysql_base_axioms p(1) users_orm_db users_storable(3)[OF listed(1)] users_storable(3)[OF listed(2)]
    by (simp_all add: users_through_pool_def)
  have "distinct [1, 2 :: nat]" "{1, 2} \<inter> address ` known (base ?p) = {}" by (simp_all add: p(2))
  from objects_through_pool[of users_through_pool held known base_ok "[]" 0 ?p 1 2 ascii_mysql
        users_td "user_blank ''users''" user_storable ascii_rules 1000 user_table users_db ann "(7, [], [])" 0 0,
      OF m r this v users.orm_class_axioms d users_storable(1)[OF listed(1)] t(1) ann_keys
        users_storable(2)[OF listed(2)] t(2) ann_fresh]
  obtain db' p' obj' p'' where "replaceDB users_through_pool 1 0 ann (Some ?p) users_db = Returned (True, db', Some p')"
      "selectDB users_through_pool 2 0 (7, [], []) (Some p') db' = Returned ((True, obj'), db', Some p'')"
      "\<forall>fd\<in>set (fields_ordered users_td). member users_td fd obj' = member users_td fd ann" by blast
  then show ?thesis using ann_members[of obj'] by blast
qed

text \<open>
  A pool that does not wait gives out no connection when all are lent; no operation of an object
  of a registered class looks whether it got one.
\<close>

theorem exhausted_pool_unchecked:
  assumes "waittime p = 0" "max_conns p \<le> in_use_now p" "registered D"
  shows "selectDB D a now obj (Some p) db = Null_connection \<and> insertDB D a now obj (Some p) db = Null_connection \<and>
    replaceDB D a now obj (Some p) db = Null_connection \<and> updateDB D a now obj (Some p) db = Null_connection \<and>
    deleteDB D a now obj (Some p) db = Null_connection \<and> object_createTable D a now (Some p) db = Null_connection \<and>
    object_dropTable D a now (Some p) db = Null_connection \<and> object_updateTable D a now (Some p) db = Null_connection"
proof -
  have "mysql_acquire (methods D) (net D) a now p = Some (None, p)"
    unfolding mysql_acquire_def mysql_grab_unfold using assms(1,2) by simp
  then show ?thesis
    using assms(3) by (simp add: object_defs with_pool_def orm_of_pool_def on_connection_def)
qed

theorem exhausted_pool_unchecked_witness:
  "insertDB users_through_pool 1 0 ann (Some ((MySqlConnectionPool [])\<lparr>waittime := 0, in_use_now := 1\<rparr>)) users_db = Null_connection"
  using exhausted_pool_unchecked[of "(MySqlConnectionPool [])\<lparr>waittime := 0, in_use_now := 1\<rparr>" users_through_pool 1 0 ann users_db]
  by (simp add: MySqlConnectionPool_def registered_def users_through_pool_def one_table_simps)

end
