(* ===== verification/Tiny_Table.thy ===== *)
theory Tiny_Table
  imports Serializer
begin

text \<open>
  \<open>common/tinytable.h\<close>, \<open>tinytable_server.h\<close> and \<open>tinytable_server.in.h\<close>: tables of objects that a
  server keeps in a database, in memory, or in a cache in front of the database, and the
  handlers of \<open>TableServer\<close>.

  A class \<open>T\<close> with its key is \<open>TableMeta<T>\<close> with the default serializers: a serialization that
  throws is \<open>None\<close>; \<open>deserialize_object\<close> gives the object as it was left, with \<open>None\<close> for an
  exception. The tables of a factory are over one type of objects, the sum of the classes. What
  \<open>TinyORM\<close> does with an object is the argument \<open>D\<close>; the database is \<open>'db\<close>, the pool is
  assumed to have a connection. An exception that leaves a handler is \<open>None\<close>, and goes to the
  RPC layer. Fields of a message may be unset.
\<close>

subsection \<open>The messages\<close>

record tt_Get =
  get_type :: "bytes option"
  get_key :: "bytes option"

record tt_GetReply =
  getr_type :: "bytes option"
  getr_key :: "bytes option"
  getr_retcode :: "u32 option"
  getr_value :: "bytes option"

record tt_Set =
  set_type :: "bytes option"
  set_key :: "bytes option"
  set_value :: "bytes option"

record tt_SetReply =
  setr_type :: "bytes option"
  setr_retcode :: "u32 option"

record tt_Del =
  del_type :: "bytes option"
  del_key :: "bytes option"

record tt_DelReply =
  delr_type :: "bytes option"
  delr_key :: "bytes option"
  delr_retcode :: "u32 option"

definition get_code :: "u32 option \<Rightarrow> u32" where
  "get_code m = (case m of Some v \<Rightarrow> v | None \<Rightarrow> 0)"

subsection \<open>Classes and their database\<close>

record ('k, 't) table_meta =
  table_name :: bytes
  table_key :: "'t \<Rightarrow> 'k"
  set_table_key :: "'t \<Rightarrow> 'k \<Rightarrow> 't"
  new_key :: 'k
  new_object :: 't
  serialize_key :: "'k \<Rightarrow> bytes option"
  deserialize_key :: "bytes \<Rightarrow> 'k \<Rightarrow> (bool \<times> 'k) option"
  serialize_object :: "'t \<Rightarrow> bytes option"
  deserialize_object :: "bytes \<Rightarrow> 't \<Rightarrow> bool option \<times> 't"

record ('t, 'db) table_db =
  db_select :: "'t \<Rightarrow> 'db \<Rightarrow> (bool \<times> 't) \<times> 'db"
  db_replace :: "'t \<Rightarrow> 'db \<Rightarrow> bool \<times> 'db"
  db_del :: "'t \<Rightarrow> 'db \<Rightarrow> bool \<times> 'db"

text \<open>A new object with a key.\<close>

definition keyed_object :: "('k, 't) table_meta \<Rightarrow> 'k \<Rightarrow> 't" where
  "keyed_object M k = set_table_key M (new_object M) k"

definition code_of :: "bool \<Rightarrow> u32" where
  "code_of ok = (if ok then 0 else 1)"

subsection \<open>Tables in the database\<close>

definition db_processGet :: "('k, 't) table_meta \<Rightarrow> ('t, 'db) table_db \<Rightarrow> tt_Get \<Rightarrow> tt_GetReply \<Rightarrow> 'db
    \<Rightarrow> (bool \<times> tt_GetReply) option \<times> 'db" where
  "db_processGet M D request reply db =
     (case deserialize_key M (get_bytes (get_key request)) (new_key M) of
        None \<Rightarrow> (None, db)
      | Some (False, _) \<Rightarrow> (Some (False, reply\<lparr>getr_retcode := Some 11\<rparr>), db)
      | Some (True, k) \<Rightarrow>
          (case db_select D (keyed_object M k) db of
             ((True, obj), db) \<Rightarrow>
               (map_option (\<lambda>v. (True, reply\<lparr>getr_value := Some v, getr_retcode := Some 0\<rparr>)) (serialize_object M obj), db)
           | ((False, _), db) \<Rightarrow> (Some (False, reply\<lparr>getr_retcode := Some 1\<rparr>), db)))"

definition db_proceeSet :: "('k, 't) table_meta \<Rightarrow> ('t, 'db) table_db \<Rightarrow> tt_Set \<Rightarrow> tt_SetReply \<Rightarrow> 'db
    \<Rightarrow> (bool \<times> tt_SetReply) option \<times> 'db" where
  "db_proceeSet M D request reply db =
     (case deserialize_object M (get_bytes (set_value request)) (new_object M) of
        (None, _) \<Rightarrow> (None, db)
      | (Some False, _) \<Rightarrow> (Some (False, reply\<lparr>setr_retcode := Some 11\<rparr>), db)
      | (Some True, obj) \<Rightarrow>
          (case db_replace D obj db of (ok, db) \<Rightarrow> (Some (ok, reply\<lparr>setr_retcode := Some (code_of ok)\<rparr>), db)))"

definition db_proceeDel :: "('k, 't) table_meta \<Rightarrow> ('t, 'db) table_db \<Rightarrow> tt_Del \<Rightarrow> tt_DelReply \<Rightarrow> 'db
    \<Rightarrow> (bool \<times> tt_DelReply) option \<times> 'db" where
  "db_proceeDel M D request reply db =
     (case deserialize_key M (get_bytes (del_key request)) (new_key M) of
        None \<Rightarrow> (None, db)
      | Some (False, _) \<Rightarrow> (Some (False, reply\<lparr>delr_retcode := Some 11\<rparr>), db)
      | Some (True, k) \<Rightarrow>
          (case db_del D (keyed_object M k) db of
             (ok, db) \<Rightarrow> (Some (ok, reply\<lparr>delr_retcode := Some (code_of ok)\<rparr>), db)))"

subsection \<open>Tables in memory\<close>

text \<open>\<open>items_\<close>; \<open>insert\<close> keeps an entry that is there.\<close>

type_synonym ('k, 't) items = "'k \<Rightarrow> 't option"

definition items_insert :: "'k \<Rightarrow> 't \<Rightarrow> ('k, 't) items \<Rightarrow> ('k, 't) items" where
  "items_insert k obj its = (case its k of Some _ \<Rightarrow> its | None \<Rightarrow> its(k \<mapsto> obj))"

definition mem_processGet :: "('k, 't) table_meta \<Rightarrow> tt_Get \<Rightarrow> tt_GetReply \<Rightarrow> ('k, 't) items
    \<Rightarrow> (bool \<times> tt_GetReply) option" where
  "mem_processGet M request reply its =
     (case deserialize_key M (get_bytes (get_key request)) (new_key M) of
        None \<Rightarrow> None
      | Some (False, _) \<Rightarrow> Some (False, reply\<lparr>getr_retcode := Some 11\<rparr>)
      | Some (True, k) \<Rightarrow>
          (case its k of
             Some obj \<Rightarrow> map_option (\<lambda>v. (True, reply\<lparr>getr_value := Some v, getr_retcode := Some 0\<rparr>)) (serialize_object M obj)
           | None \<Rightarrow> Some (False, reply\<lparr>getr_retcode := Some 1\<rparr>)))"

text \<open>
  The object in memory is replaced by the new one if there is one; after an exception of
  \<open>deserialize\<close>, which is caught, the method goes on with the object as it is.
\<close>

definition replace_in_memory :: "('k, 't) table_meta \<Rightarrow> 't \<Rightarrow> ('k, 't) items \<Rightarrow> ('k, 't) items" where
  "replace_in_memory M obj its =
     (case its (table_key M obj) of
        Some memobj \<Rightarrow> items_insert (table_key M obj) obj (its(table_key M memobj := None))
      | None \<Rightarrow> its)"

definition mem_proceeSet :: "('k, 't) table_meta \<Rightarrow> ('t, 'db) table_db \<Rightarrow> tt_Set \<Rightarrow> tt_SetReply \<Rightarrow> ('k, 't) items \<Rightarrow> 'db
    \<Rightarrow> (bool \<times> tt_SetReply) option \<times> ('k, 't) items \<times> 'db" where
  "mem_proceeSet M D request reply its db =
     (let reply = reply\<lparr>setr_type := Some (get_bytes (set_type request))\<rparr> in
      case deserialize_object M (get_bytes (set_value request)) (new_object M) of
        (Some False, _) \<Rightarrow> (Some (False, reply\<lparr>setr_retcode := Some 11\<rparr>), its, db)
      | (_, obj) \<Rightarrow>
          (case db_replace D obj db of
             (ok, db) \<Rightarrow> (Some (ok, reply\<lparr>setr_retcode := Some (code_of ok)\<rparr>), replace_in_memory M obj its, db)))"

definition mem_proceeDel :: "('k, 't) table_meta \<Rightarrow> ('t, 'db) table_db \<Rightarrow> tt_Del \<Rightarrow> tt_DelReply \<Rightarrow> ('k, 't) items \<Rightarrow> 'db
    \<Rightarrow> (bool \<times> tt_DelReply) option \<times> 'db" where
  "mem_proceeDel M D request reply its db =
     (let reply = reply\<lparr>delr_type := Some (get_bytes (del_type request)), delr_key := Some (get_bytes (del_key request))\<rparr> in
      case deserialize_key M (get_bytes (del_key request)) (new_key M) of
        None \<Rightarrow> (None, db)
      | Some (False, _) \<Rightarrow> (Some (False, reply\<lparr>delr_retcode := Some 11\<rparr>), db)
      | Some (True, k) \<Rightarrow>
          (case db_del D (case its k of Some memobj \<Rightarrow> memobj | None \<Rightarrow> keyed_object M k) db of
             (ok, db) \<Rightarrow> (Some (ok, reply\<lparr>delr_retcode := Some (code_of ok)\<rparr>), db)))"

subsection \<open>Tables with a cache\<close>

definition cache_processGet :: "('k, 't) table_meta \<Rightarrow> ('t, 'db) table_db \<Rightarrow> tt_Get \<Rightarrow> tt_GetReply \<Rightarrow> ('k, 't) items \<Rightarrow> 'db
    \<Rightarrow> (bool \<times> tt_GetReply) option \<times> ('k, 't) items \<times> 'db" where
  "cache_processGet M D request reply its db =
     (case deserialize_key M (get_bytes (get_key request)) (new_key M) of
        None \<Rightarrow> (None, its, db)
      | Some (False, _) \<Rightarrow> (Some (False, reply\<lparr>getr_retcode := Some 11\<rparr>), its, db)
      | Some (True, k) \<Rightarrow>
          (case its k of
             Some memobj \<Rightarrow>
               (map_option (\<lambda>v. (True, reply\<lparr>getr_value := Some v, getr_retcode := Some 0\<rparr>)) (serialize_object M memobj), its, db)
           | None \<Rightarrow>
               (case db_select D (keyed_object M k) db of
                  ((True, obj), db) \<Rightarrow>
                    (case serialize_object M obj of
                       None \<Rightarrow> (None, its, db)
                     | Some v \<Rightarrow> (Some (True, reply\<lparr>getr_value := Some v, getr_retcode := Some 0\<rparr>),
                         items_insert (table_key M obj) obj its, db))
                | ((False, _), db) \<Rightarrow> (Some (False, reply\<lparr>getr_retcode := Some 1\<rparr>), its, db))))"

text \<open>The other two are as in \<open>TinyMemTable\<close>, word for word.\<close>

definition cache_proceeSet :: "('k, 't) table_meta \<Rightarrow> ('t, 'db) table_db \<Rightarrow> tt_Set \<Rightarrow> tt_SetReply \<Rightarrow> ('k, 't) items \<Rightarrow> 'db
    \<Rightarrow> (bool \<times> tt_SetReply) option \<times> ('k, 't) items \<times> 'db" where
  "cache_proceeSet = mem_proceeSet"

definition cache_proceeDel :: "('k, 't) table_meta \<Rightarrow> ('t, 'db) table_db \<Rightarrow> tt_Del \<Rightarrow> tt_DelReply \<Rightarrow> ('k, 't) items \<Rightarrow> 'db
    \<Rightarrow> (bool \<times> tt_DelReply) option \<times> 'db" where
  "cache_proceeDel = mem_proceeDel"

subsection \<open>The factory\<close>

datatype table_kind = TinyDBTable | TinyMemTable | TinyCacheTable

record ('k, 't) tiny_table =
  kind :: table_kind
  meta :: "('k, 't) table_meta"
  cached :: "('k, 't) items"

record ('k, 't, 'db) table_factory =
  factory_tables :: "bytes \<Rightarrow> ('k, 't) tiny_table option"
  mysql :: 'db

definition factory_insert :: "table_kind \<Rightarrow> ('k, 't) table_meta \<Rightarrow> ('k, 't, 'db) table_factory \<Rightarrow> ('k, 't, 'db) table_factory" where
  "factory_insert kd M fac =
     (case factory_tables fac (table_name M) of
        Some _ \<Rightarrow> fac
      | None \<Rightarrow> fac\<lparr>factory_tables := (factory_tables fac)(table_name M \<mapsto> \<lparr>kind = kd, meta = M, cached = Map.empty\<rparr>)\<rparr>)"

definition dbTable :: "('k, 't) table_meta \<Rightarrow> ('k, 't, 'db) table_factory \<Rightarrow> ('k, 't, 'db) table_factory" where
  "dbTable = factory_insert TinyDBTable"

definition memTable :: "('k, 't) table_meta \<Rightarrow> ('k, 't, 'db) table_factory \<Rightarrow> ('k, 't, 'db) table_factory" where
  "memTable = factory_insert TinyMemTable"

definition cacheTable :: "('k, 't) table_meta \<Rightarrow> ('k, 't, 'db) table_factory \<Rightarrow> ('k, 't, 'db) table_factory" where
  "cacheTable = factory_insert TinyCacheTable"

text \<open>The virtual methods of a table, and the factory, which finds the table by its name.\<close>

definition table_get :: "('t, 'db) table_db \<Rightarrow> tt_Get \<Rightarrow> tt_GetReply \<Rightarrow> ('k, 't) tiny_table \<Rightarrow> 'db
    \<Rightarrow> (bool \<times> tt_GetReply) option \<times> ('k, 't) items \<times> 'db" where
  "table_get D request reply t db = (case kind t of
       TinyDBTable \<Rightarrow> (case db_processGet (meta t) D request reply db of (r, db) \<Rightarrow> (r, cached t, db))
     | TinyMemTable \<Rightarrow> (mem_processGet (meta t) request reply (cached t), cached t, db)
     | TinyCacheTable \<Rightarrow> cache_processGet (meta t) D request reply (cached t) db)"

definition table_set :: "('t, 'db) table_db \<Rightarrow> tt_Set \<Rightarrow> tt_SetReply \<Rightarrow> ('k, 't) tiny_table \<Rightarrow> 'db
    \<Rightarrow> (bool \<times> tt_SetReply) option \<times> ('k, 't) items \<times> 'db" where
  "table_set D request reply t db = (case kind t of
       TinyDBTable \<Rightarrow> (case db_proceeSet (meta t) D request reply db of (r, db) \<Rightarrow> (r, cached t, db))
     | TinyMemTable \<Rightarrow> mem_proceeSet (meta t) D request reply (cached t) db
     | TinyCacheTable \<Rightarrow> cache_proceeSet (meta t) D request reply (cached t) db)"

definition table_del :: "('t, 'db) table_db \<Rightarrow> tt_Del \<Rightarrow> tt_DelReply \<Rightarrow> ('k, 't) tiny_table \<Rightarrow> 'db
    \<Rightarrow> (bool \<times> tt_DelReply) option \<times> ('k, 't) items \<times> 'db" where
  "table_del D request reply t db =
     (case (case kind t of
          TinyDBTable \<Rightarrow> db_proceeDel (meta t) D request reply db
        | TinyMemTable \<Rightarrow> mem_proceeDel (meta t) D request reply (cached t) db
        | TinyCacheTable \<Rightarrow> cache_proceeDel (meta t) D request reply (cached t) db) of (r, db) \<Rightarrow> (r, cached t, db))"

definition getTableByName :: "bytes \<Rightarrow> ('k, 't, 'db) table_factory \<Rightarrow> ('k, 't) tiny_table option" where
  "getTableByName name fac = factory_tables fac name"

definition on_table :: "(('k, 't) tiny_table \<Rightarrow> 'db \<Rightarrow> (bool \<times> 'r) option \<times> ('k, 't) items \<times> 'db) \<Rightarrow> bytes \<Rightarrow> 'r
    \<Rightarrow> ('k, 't, 'db) table_factory \<Rightarrow> (bool \<times> 'r) option \<times> ('k, 't, 'db) table_factory" where
  "on_table f name reply fac =
     (case getTableByName name fac of
        None \<Rightarrow> (Some (False, reply), fac)
      | Some t \<Rightarrow>
          (case f t (mysql fac) of
             (r, its, db) \<Rightarrow> (r, fac\<lparr>factory_tables := (factory_tables fac)(name \<mapsto> t\<lparr>cached := its\<rparr>), mysql := db\<rparr>)))"

definition factory_processGet :: "('t, 'db) table_db \<Rightarrow> tt_Get \<Rightarrow> tt_GetReply \<Rightarrow> ('k, 't, 'db) table_factory
    \<Rightarrow> (bool \<times> tt_GetReply) option \<times> ('k, 't, 'db) table_factory" where
  "factory_processGet D request reply = on_table (table_get D request reply) (get_bytes (get_type request)) reply"

definition factory_proceeSet :: "('t, 'db) table_db \<Rightarrow> tt_Set \<Rightarrow> tt_SetReply \<Rightarrow> ('k, 't, 'db) table_factory
    \<Rightarrow> (bool \<times> tt_SetReply) option \<times> ('k, 't, 'db) table_factory" where
  "factory_proceeSet D request reply = on_table (table_set D request reply) (get_bytes (set_type request)) reply"

definition factory_proceeDel :: "('t, 'db) table_db \<Rightarrow> tt_Del \<Rightarrow> tt_DelReply \<Rightarrow> ('k, 't, 'db) table_factory
    \<Rightarrow> (bool \<times> tt_DelReply) option \<times> ('k, 't, 'db) table_factory" where
  "factory_proceeDel D request reply = on_table (table_del D request reply) (get_bytes (del_type request)) reply"

subsection \<open>The server\<close>

text \<open>The three handlers: they return the reply, whatever the factory returned.\<close>

definition server_on_get :: "('t, 'db) table_db \<Rightarrow> tt_Get \<Rightarrow> ('k, 't, 'db) table_factory
    \<Rightarrow> tt_GetReply option \<times> ('k, 't, 'db) table_factory" where
  "server_on_get D request fac =
     apfst (map_option snd) (factory_processGet D request
       \<lparr>getr_type = Some (get_bytes (get_type request)), getr_key = Some (get_bytes (get_key request)),
        getr_retcode = None, getr_value = None\<rparr> fac)"

definition server_on_set :: "('t, 'db) table_db \<Rightarrow> tt_Set \<Rightarrow> ('k, 't, 'db) table_factory
    \<Rightarrow> tt_SetReply option \<times> ('k, 't, 'db) table_factory" where
  "server_on_set D request fac =
     apfst (map_option snd) (factory_proceeSet D request
       \<lparr>setr_type = Some (get_bytes (set_type request)), setr_retcode = None\<rparr> fac)"

definition server_on_del :: "('t, 'db) table_db \<Rightarrow> tt_Del \<Rightarrow> ('k, 't, 'db) table_factory
    \<Rightarrow> tt_DelReply option \<times> ('k, 't, 'db) table_factory" where
  "server_on_del D request fac =
     apfst (map_option snd) (factory_proceeDel D request
       \<lparr>delr_type = Some (get_bytes (del_type request)), delr_key = None, delr_retcode = None\<rparr> fac)"

end
