(* ===== verification/Table_Client.thy ===== *)
theory Table_Client
  imports Tiny_Table
begin

text \<open>
  \<open>common/tinytable_client.h\<close> and \<open>tinytable_client.in.h\<close>: \<open>TableClient\<close> with the handlers of its
  requests.

  A handler is in \<open>handlers_\<close> under its number until its call has ended; \<open>done\<close> emits the call, and
  binds the callbacks of the RPC layer to the address of the handler. What is emitted is in
  \<open>emitted\<close>, with the number of the handler: the RPC layer (\<open>Rpc\<close>) ends every call at most once, by
  \<open>rpc_done\<close>, \<open>rpc_timeout\<close> or \<open>rpc_error\<close>. A method of a handler that has been deleted is
  undefined: \<open>None\<close>. The boolean of a result is false when an exception has left the method. The
  callbacks of the user act on a state \<open>'s\<close> and do not call the client.
\<close>

subsection \<open>Handlers\<close>

record tt_LoadRequest =
  load_type :: "bytes option"
  load_direct :: "bool option"
  load_cacheit :: "bool option"
  load_where :: "bytes option"

record tt_LoadReply =
  loadr_type :: "bytes option"
  loadr_values :: "bytes option"

datatype tt_request = Get_request tt_Get | Set_request tt_Set | Del_request tt_Del | Load_request tt_LoadRequest

record ('k, 't, 's) TableGetHandler =
  gh_key :: 'k
  gh_done :: "('t \<Rightarrow> 's \<Rightarrow> 's) option"
  gh_timeout :: "('k \<Rightarrow> 's \<Rightarrow> 's) option"
  gh_nonexist :: "('k \<Rightarrow> 's \<Rightarrow> 's) option"

record ('t, 's) TableSetHandler =
  sh_value :: 't
  sh_done :: "('t \<Rightarrow> 's \<Rightarrow> 's) option"
  sh_timeout :: "('t \<Rightarrow> 's \<Rightarrow> 's) option"

record ('k, 's) TableDelHandler =
  dh_key :: 'k
  dh_done :: "('k \<Rightarrow> 's \<Rightarrow> 's) option"
  dh_timeout :: "('k \<Rightarrow> 's \<Rightarrow> 's) option"

record ('t, 's) TableLoadHandler =
  lh_direct :: bool
  lh_where :: bytes
  lh_cache :: bool
  lh_done :: "('t list \<Rightarrow> 's \<Rightarrow> 's) option"
  lh_timeout :: "('s \<Rightarrow> 's) option"
  lh_error :: "('s \<Rightarrow> 's) option"

datatype ('k, 't, 's) table_handler =
    Get_handler "('k, 't, 's) TableGetHandler"
  | Set_handler "('t, 's) TableSetHandler"
  | Del_handler "('k, 's) TableDelHandler"
  | Load_handler "('t, 's) TableLoadHandler"

record ('k, 't, 's) TableClient =
  handlers :: "u64 \<Rightarrow> (u32 \<times> ('k, 't, 's) table_handler) option"
  total_id :: u64
  emitted :: "(u64 \<times> tt_request \<times> u32) list"

definition new_TableClient :: "('k, 't, 's) TableClient" where
  "new_TableClient = \<lparr>handlers = Map.empty, total_id = 0, emitted = []\<rparr>"

text \<open>\<open>++total_id_\<close> and the entry; with the number that stands for the returned reference.\<close>

definition new_handler :: "u32 \<Rightarrow> ('k, 't, 's) table_handler \<Rightarrow> ('k, 't, 's) TableClient \<Rightarrow> u64 \<times> ('k, 't, 's) TableClient" where
  "new_handler ms h c =
     (let i = total_id c + 1 in (i, c\<lparr>total_id := i, handlers := (handlers c)(i \<mapsto> (ms, h))\<rparr>))"

definition client_get :: "'k \<Rightarrow> u32 \<Rightarrow> ('k, 't, 's) TableClient \<Rightarrow> u64 \<times> ('k, 't, 's) TableClient" where
  "client_get k ms = new_handler ms (Get_handler \<lparr>gh_key = k, gh_done = None, gh_timeout = None, gh_nonexist = None\<rparr>)"

definition client_set :: "'t \<Rightarrow> u32 \<Rightarrow> ('k, 't, 's) TableClient \<Rightarrow> u64 \<times> ('k, 't, 's) TableClient" where
  "client_set v ms = new_handler ms (Set_handler \<lparr>sh_value = v, sh_done = None, sh_timeout = None\<rparr>)"

definition client_del :: "'k \<Rightarrow> u32 \<Rightarrow> ('k, 't, 's) TableClient \<Rightarrow> u64 \<times> ('k, 't, 's) TableClient" where
  "client_del k ms = new_handler ms (Del_handler \<lparr>dh_key = k, dh_done = None, dh_timeout = None\<rparr>)"

text \<open>\<open>clause\<close> is the formatted text, cut to the 1023 bytes of \<open>statement\<close>; a null pointer gives none.\<close>

definition new_load :: "u32 \<Rightarrow> bool \<Rightarrow> bool \<Rightarrow> bytes \<Rightarrow> ('k, 't, 's) TableClient \<Rightarrow> u64 \<times> ('k, 't, 's) TableClient" where
  "new_load ms direct cacheit statement =
     new_handler ms (Load_handler \<lparr>lh_direct = direct, lh_where = statement, lh_cache = cacheit,
       lh_done = None, lh_timeout = None, lh_error = None\<rparr>)"

definition vLoad :: "u32 \<Rightarrow> bool \<Rightarrow> bool \<Rightarrow> bytes option \<Rightarrow> ('k, 't, 's) TableClient \<Rightarrow> u64 \<times> ('k, 't, 's) TableClient" where
  "vLoad ms direct cacheit clause =
     new_load ms direct cacheit (case clause of None \<Rightarrow> [] | Some s \<Rightarrow> take 1023 (takeWhile (\<lambda>b. b \<noteq> 0) s))"

definition client_load :: "u32 \<Rightarrow> ('k, 't, 's) TableClient \<Rightarrow> u64 \<times> ('k, 't, 's) TableClient" where
  "client_load ms = new_load ms False False []"

definition client_loadFromDB :: "bytes option \<Rightarrow> ('k, 't, 's) TableClient \<Rightarrow> u64 \<times> ('k, 't, 's) TableClient" where
  "client_loadFromDB clause = vLoad 1000 False False clause"

definition client_loadFromDBAndCache :: "bytes option \<Rightarrow> ('k, 't, 's) TableClient \<Rightarrow> u64 \<times> ('k, 't, 's) TableClient" where
  "client_loadFromDBAndCache clause = vLoad 1000 False True clause"

definition removeHandler :: "u64 \<Rightarrow> ('k, 't, 's) TableClient \<Rightarrow> ('k, 't, 's) TableClient" where
  "removeHandler i c = c\<lparr>handlers := (handlers c)(i := None)\<rparr>"

subsection \<open>Setting callbacks and emitting\<close>

definition change_handler :: "u64 \<Rightarrow> u32 \<Rightarrow> ('k, 't, 's) table_handler \<Rightarrow> ('k, 't, 's) TableClient \<Rightarrow> ('k, 't, 's) TableClient" where
  "change_handler i ms h c = c\<lparr>handlers := (handlers c)(i \<mapsto> (ms, h))\<rparr>"

definition emit :: "u64 \<Rightarrow> tt_request \<Rightarrow> u32 \<Rightarrow> ('k, 't, 's) TableClient \<Rightarrow> ('k, 't, 's) TableClient" where
  "emit i request ms c = c\<lparr>emitted := emitted c @ [(i, request, ms)]\<rparr>"

definition get_timeout :: "u64 \<Rightarrow> ('k \<Rightarrow> 's \<Rightarrow> 's) option \<Rightarrow> ('k, 't, 's) TableClient \<Rightarrow> ('k, 't, 's) TableClient option" where
  "get_timeout i cb c = (case handlers c i of
       Some (ms, Get_handler h) \<Rightarrow> Some (change_handler i ms (Get_handler (h\<lparr>gh_timeout := cb\<rparr>)) c) | _ \<Rightarrow> None)"

definition get_nonexist :: "u64 \<Rightarrow> ('k \<Rightarrow> 's \<Rightarrow> 's) option \<Rightarrow> ('k, 't, 's) TableClient \<Rightarrow> ('k, 't, 's) TableClient option" where
  "get_nonexist i cb c = (case handlers c i of
       Some (ms, Get_handler h) \<Rightarrow> Some (change_handler i ms (Get_handler (h\<lparr>gh_nonexist := cb\<rparr>)) c) | _ \<Rightarrow> None)"

definition set_timeout :: "u64 \<Rightarrow> ('t \<Rightarrow> 's \<Rightarrow> 's) option \<Rightarrow> ('k, 't, 's) TableClient \<Rightarrow> ('k, 't, 's) TableClient option" where
  "set_timeout i cb c = (case handlers c i of
       Some (ms, Set_handler h) \<Rightarrow> Some (change_handler i ms (Set_handler (h\<lparr>sh_timeout := cb\<rparr>)) c) | _ \<Rightarrow> None)"

definition del_timeout :: "u64 \<Rightarrow> ('k \<Rightarrow> 's \<Rightarrow> 's) option \<Rightarrow> ('k, 't, 's) TableClient \<Rightarrow> ('k, 't, 's) TableClient option" where
  "del_timeout i cb c = (case handlers c i of
       Some (ms, Del_handler h) \<Rightarrow> Some (change_handler i ms (Del_handler (h\<lparr>dh_timeout := cb\<rparr>)) c) | _ \<Rightarrow> None)"

definition load_timeout :: "u64 \<Rightarrow> ('s \<Rightarrow> 's) option \<Rightarrow> ('k, 't, 's) TableClient \<Rightarrow> ('k, 't, 's) TableClient option" where
  "load_timeout i cb c = (case handlers c i of
       Some (ms, Load_handler h) \<Rightarrow> Some (change_handler i ms (Load_handler (h\<lparr>lh_timeout := cb\<rparr>)) c) | _ \<Rightarrow> None)"

definition load_error :: "u64 \<Rightarrow> ('s \<Rightarrow> 's) option \<Rightarrow> ('k, 't, 's) TableClient \<Rightarrow> ('k, 't, 's) TableClient option" where
  "load_error i cb c = (case handlers c i of
       Some (ms, Load_handler h) \<Rightarrow> Some (change_handler i ms (Load_handler (h\<lparr>lh_error := cb\<rparr>)) c) | _ \<Rightarrow> None)"

definition get_done :: "('k, 't) table_meta \<Rightarrow> u64 \<Rightarrow> ('t \<Rightarrow> 's \<Rightarrow> 's) option \<Rightarrow> ('k, 't, 's) TableClient
    \<Rightarrow> (bool \<times> ('k, 't, 's) TableClient) option" where
  "get_done M i cb c = (case handlers c i of
       Some (ms, Get_handler h) \<Rightarrow>
         (let c = change_handler i ms (Get_handler (h\<lparr>gh_done := cb\<rparr>)) c in
          Some (case serialize_key M (gh_key h) of
            None \<Rightarrow> (False, c)
          | Some k \<Rightarrow> (True, emit i (Get_request \<lparr>get_type = Some (table_name M), get_key = Some k\<rparr>) ms c)))
     | _ \<Rightarrow> None)"

definition set_done :: "('k, 't) table_meta \<Rightarrow> u64 \<Rightarrow> ('t \<Rightarrow> 's \<Rightarrow> 's) option \<Rightarrow> ('k, 't, 's) TableClient
    \<Rightarrow> (bool \<times> ('k, 't, 's) TableClient) option" where
  "set_done M i cb c = (case handlers c i of
       Some (ms, Set_handler h) \<Rightarrow>
         (let c = change_handler i ms (Set_handler (h\<lparr>sh_done := cb\<rparr>)) c in
          Some (case (serialize_key M (table_key M (sh_value h)), serialize_object M (sh_value h)) of
            (Some k, Some v) \<Rightarrow>
              (True, emit i (Set_request \<lparr>set_type = Some (table_name M), set_key = Some k, set_value = Some v\<rparr>) ms c)
          | _ \<Rightarrow> (False, c)))
     | _ \<Rightarrow> None)"

definition del_done :: "('k, 't) table_meta \<Rightarrow> u64 \<Rightarrow> ('k \<Rightarrow> 's \<Rightarrow> 's) option \<Rightarrow> ('k, 't, 's) TableClient
    \<Rightarrow> (bool \<times> ('k, 't, 's) TableClient) option" where
  "del_done M i cb c = (case handlers c i of
       Some (ms, Del_handler h) \<Rightarrow>
         (let c = change_handler i ms (Del_handler (h\<lparr>dh_done := cb\<rparr>)) c in
          Some (case serialize_key M (dh_key h) of
            None \<Rightarrow> (False, c)
          | Some k \<Rightarrow> (True, emit i (Del_request \<lparr>del_type = Some (table_name M), del_key = Some k\<rparr>) ms c)))
     | _ \<Rightarrow> None)"

definition load_done :: "('k, 't) table_meta \<Rightarrow> u64 \<Rightarrow> ('t list \<Rightarrow> 's \<Rightarrow> 's) option \<Rightarrow> ('k, 't, 's) TableClient
    \<Rightarrow> (bool \<times> ('k, 't, 's) TableClient) option" where
  "load_done M i cb c = (case handlers c i of
       Some (ms, Load_handler h) \<Rightarrow>
         Some (True, emit i (Load_request \<lparr>load_type = Some (table_name M), load_direct = Some (lh_direct h),
             load_cacheit = Some (lh_cache h), load_where = (if lh_where h \<noteq> [] then Some (lh_where h) else None)\<rparr>) ms
           (change_handler i ms (Load_handler (h\<lparr>lh_done := cb\<rparr>)) c))
     | _ \<Rightarrow> None)"

subsection \<open>The end of a call\<close>

definition call_back :: "('a \<Rightarrow> 's \<Rightarrow> 's) option \<Rightarrow> 'a \<Rightarrow> 's \<Rightarrow> 's" where
  "call_back cb x s = (case cb of Some f \<Rightarrow> f x s | None \<Rightarrow> s)"

text \<open>The value of a \<open>get\<close> is read into a new object; the result of \<open>deserialize\<close> is not looked at.\<close>

definition get_rpc_done :: "('k, 't) table_meta \<Rightarrow> u64 \<Rightarrow> tt_GetReply \<Rightarrow> ('k, 't, 's) TableClient \<times> 's
    \<Rightarrow> (bool \<times> ('k, 't, 's) TableClient \<times> 's) option" where
  "get_rpc_done M i reply = (\<lambda>(c, s). case handlers c i of
       Some (_, Get_handler h) \<Rightarrow>
         Some (if gh_done h = None then (True, removeHandler i c, s)
           else if get_code (getr_retcode reply) = 0
           then (case deserialize_object M (get_bytes (getr_value reply)) (new_object M) of
                   (None, _) \<Rightarrow> (False, c, s)
                 | (Some _, v) \<Rightarrow> (True, removeHandler i c, call_back (gh_done h) v s))
           else (True, removeHandler i c, call_back (gh_nonexist h) (gh_key h) s))
     | _ \<Rightarrow> None)"

definition set_rpc_done :: "u64 \<Rightarrow> tt_SetReply \<Rightarrow> ('k, 't, 's) TableClient \<times> 's
    \<Rightarrow> (bool \<times> ('k, 't, 's) TableClient \<times> 's) option" where
  "set_rpc_done i reply = (\<lambda>(c, s). case handlers c i of
       Some (_, Set_handler h) \<Rightarrow> Some (True, removeHandler i c, call_back (sh_done h) (sh_value h) s) | _ \<Rightarrow> None)"

definition del_rpc_done :: "u64 \<Rightarrow> tt_DelReply \<Rightarrow> ('k, 't, 's) TableClient \<times> 's
    \<Rightarrow> (bool \<times> ('k, 't, 's) TableClient \<times> 's) option" where
  "del_rpc_done i reply = (\<lambda>(c, s). case handlers c i of
       Some (_, Del_handler h) \<Rightarrow> Some (True, removeHandler i c, call_back (dh_done h) (dh_key h) s) | _ \<Rightarrow> None)"

text \<open>
  \<open>parse\<close> reads a vector of objects. \<open>cb_done_\<close> is called without a test: a callback that is empty
  throws.
\<close>

definition load_rpc_done :: "(bytes \<Rightarrow> (bool \<times> 't list) option) \<Rightarrow> u64 \<Rightarrow> tt_LoadReply \<Rightarrow> ('k, 't, 's) TableClient \<times> 's
    \<Rightarrow> (bool \<times> ('k, 't, 's) TableClient \<times> 's) option" where
  "load_rpc_done parse i reply = (\<lambda>(c, s). case handlers c i of
       Some (_, Load_handler h) \<Rightarrow>
         Some (case parse (get_bytes (loadr_values reply)) of
             None \<Rightarrow> (False, c, s)
           | Some (False, _) \<Rightarrow> (True, removeHandler i c, s)
           | Some (True, vs) \<Rightarrow>
               (case lh_done h of None \<Rightarrow> (False, c, s) | Some f \<Rightarrow> (True, removeHandler i c, f vs s)))
     | _ \<Rightarrow> None)"

text \<open>A \<open>get\<close> that times out reports a new key, not the one it was for.\<close>

definition rpc_timeout :: "('k, 't) table_meta \<Rightarrow> u64 \<Rightarrow> ('k, 't, 's) TableClient \<times> 's
    \<Rightarrow> (bool \<times> ('k, 't, 's) TableClient \<times> 's) option" where
  "rpc_timeout M i = (\<lambda>(c, s). case handlers c i of
       None \<Rightarrow> None
     | Some (_, h) \<Rightarrow> Some (True, removeHandler i c, (case h of
           Get_handler h \<Rightarrow> call_back (gh_timeout h) (new_key M) s
         | Set_handler h \<Rightarrow> call_back (sh_timeout h) (sh_value h) s
         | Del_handler h \<Rightarrow> call_back (dh_timeout h) (dh_key h) s
         | Load_handler h \<Rightarrow> (case lh_timeout h of Some f \<Rightarrow> f s | None \<Rightarrow> s))))"

text \<open>An error is printed only.\<close>

definition rpc_error :: "u64 \<Rightarrow> ('k, 't, 's) TableClient \<times> 's \<Rightarrow> (bool \<times> ('k, 't, 's) TableClient \<times> 's) option" where
  "rpc_error i = (\<lambda>(c, s). case handlers c i of None \<Rightarrow> None | Some _ \<Rightarrow> Some (True, removeHandler i c, s))"

end
