(* ===== verification/Table_Session.thy ===== *)
theory Table_Session
  imports Table_Client
begin

text \<open>
  The tables over RPC as a whole: a user's operations go through the client to the server, to
  the database or a cache in front of it, and back. The RPC layer in between (\<open>Rpc\<close>, \<open>Zmq\<close>)
  hands over the messages. The reference is a map from keys to objects.

  The locale \<open>object_store\<close> is the contract the tables have with the database and the
  serializers.
\<close>

subsection \<open>Sessions\<close>

text \<open>A call from the client to the server and back.\<close>

datatype ('k, 't) table_op = Op_get 'k | Op_set 't | Op_del 'k

datatype ('k, 't) table_event = Got 't | Missing 'k | Stored 't | Deleted 'k

definition serve :: "('k, 't) table_meta \<Rightarrow> ('t, 'db) table_db \<Rightarrow> u64 \<times> tt_request \<times> u32 \<Rightarrow> ('k, 't, 'db) table_factory
    \<Rightarrow> ('k, 't, 's) TableClient \<times> 's \<Rightarrow> ((bool \<times> ('k, 't, 's) TableClient \<times> 's) \<times> ('k, 't, 'db) table_factory) option" where
  "serve M D call fac cs = (case call of (i, request, _) \<Rightarrow>
     (case request of
        Get_request q \<Rightarrow> (case server_on_get D q fac of
            (Some reply, fac) \<Rightarrow> map_option (\<lambda>r. (r, fac)) (get_rpc_done M i reply cs) | (None, _) \<Rightarrow> None)
      | Set_request q \<Rightarrow> (case server_on_set D q fac of
            (Some reply, fac) \<Rightarrow> map_option (\<lambda>r. (r, fac)) (set_rpc_done i reply cs) | (None, _) \<Rightarrow> None)
      | Del_request q \<Rightarrow> (case server_on_del D q fac of
            (Some reply, fac) \<Rightarrow> map_option (\<lambda>r. (r, fac)) (del_rpc_done i reply cs) | (None, _) \<Rightarrow> None)
      | Load_request _ \<Rightarrow> None))"

definition log :: "('a \<Rightarrow> ('k, 't) table_event) \<Rightarrow> ('a \<Rightarrow> ('k, 't) table_event list \<Rightarrow> ('k, 't) table_event list) option" where
  "log f = Some (\<lambda>x es. es @ [f x])"

text \<open>One operation of a user: a request with its callbacks, sent, served and answered.\<close>

definition start_op :: "('k, 't) table_meta \<Rightarrow> ('k, 't) table_op \<Rightarrow> ('k, 't, ('k, 't) table_event list) TableClient
    \<Rightarrow> (bool \<times> ('k, 't, ('k, 't) table_event list) TableClient) option" where
  "start_op M op c = (case op of
       Op_get k \<Rightarrow> (case client_get k 1000 c of (i, c) \<Rightarrow> Option.bind (get_nonexist i (log Missing) c) (get_done M i (log Got)))
     | Op_set v \<Rightarrow> (case client_set v 1000 c of (i, c) \<Rightarrow> set_done M i (log Stored) c)
     | Op_del k \<Rightarrow> (case client_del k 1000 c of (i, c) \<Rightarrow> del_done M i (log Deleted) c))"

type_synonym ('k, 't, 'db) session =
  "('k, 't, ('k, 't) table_event list) TableClient \<times> ('k, 't) table_event list \<times> ('k, 't, 'db) table_factory"

definition run_op :: "('k, 't) table_meta \<Rightarrow> ('t, 'db) table_db \<Rightarrow> ('k, 't) table_op \<Rightarrow> ('k, 't, 'db) session
    \<Rightarrow> ('k, 't, 'db) session option" where
  "run_op M D op = (\<lambda>(c, es, fac).
     (case start_op M op c of
        Some (True, c) \<Rightarrow>
          (case serve M D (last (emitted c)) fac (c, es) of
             Some ((True, c, es), fac) \<Rightarrow> Some (c, es, fac)
           | _ \<Rightarrow> None)
      | _ \<Rightarrow> None))"

fun run_ops :: "('k, 't) table_meta \<Rightarrow> ('t, 'db) table_db \<Rightarrow> ('k, 't) table_op list \<Rightarrow> ('k, 't, 'db) session
    \<Rightarrow> ('k, 't, 'db) session option" where
  "run_ops M D [] s = Some s"
| "run_ops M D (op # ops) s = Option.bind (run_op M D op s) (run_ops M D ops)"

text \<open>The same on a map.\<close>

fun map_op :: "('t \<Rightarrow> 'k) \<Rightarrow> ('k, 't) table_op \<Rightarrow> ('k \<Rightarrow> 't option) \<Rightarrow> ('k, 't) table_event \<times> ('k \<Rightarrow> 't option)" where
  "map_op key (Op_get k) m = (case m k of Some v \<Rightarrow> Got v | None \<Rightarrow> Missing k, m)"
| "map_op key (Op_set v) m = (Stored v, m(key v \<mapsto> v))"
| "map_op key (Op_del k) m = (Deleted k, m(k := None))"

fun map_ops :: "('t \<Rightarrow> 'k) \<Rightarrow> ('k, 't) table_op list \<Rightarrow> ('k \<Rightarrow> 't option) \<Rightarrow> ('k, 't) table_event list \<times> ('k \<Rightarrow> 't option)" where
  "map_ops key [] m = ([], m)"
| "map_ops key (op # ops) m = (case map_op key op m of (e, m) \<Rightarrow> apfst (Cons e) (map_ops key ops m))"

subsection \<open>The contract with the database\<close>

locale object_store =
  fixes M :: "('k, 't) table_meta" and D :: "('t, 'db) table_db"
    and valid :: "'db \<Rightarrow> bool" and content :: "'db \<Rightarrow> 'k \<Rightarrow> 't option"
    and good :: "'t \<Rightarrow> bool" and good_key :: "'k \<Rightarrow> bool"
  assumes select_some: "valid db \<Longrightarrow> good_key k \<Longrightarrow> content db k = Some obj \<Longrightarrow> db_select D (keyed_object M k) db = ((True, obj), db)"
    and select_none: "valid db \<Longrightarrow> good_key k \<Longrightarrow> content db k = None \<Longrightarrow> \<exists>obj. db_select D (keyed_object M k) db = ((False, obj), db)"
    and content_key: "valid db \<Longrightarrow> content db k = Some obj \<Longrightarrow> table_key M obj = k \<and> good obj"
    and replaces: "valid db \<Longrightarrow> good obj \<Longrightarrow>
      \<exists>db'. db_replace D obj db = (True, db') \<and> valid db' \<and> content db' = (content db)(table_key M obj \<mapsto> obj)"
    and deletes: "valid db \<Longrightarrow> good_key k \<Longrightarrow> obj = keyed_object M k \<or> good obj \<and> table_key M obj = k \<Longrightarrow>
      \<exists>db'. db_del D obj db = (True, db') \<and> valid db' \<and> content db' = (content db)(k := None)"
    and key_codec: "good_key k \<Longrightarrow> \<exists>bs. serialize_key M k = Some bs \<and> deserialize_key M bs (new_key M) = Some (True, k)"
    and object_codec: "good obj \<Longrightarrow> \<exists>bs. serialize_object M obj = Some bs \<and> deserialize_object M bs (new_object M) = (Some True, obj)"
    and good_has_key: "good obj \<Longrightarrow> good_key (table_key M obj)"

definition good_op :: "('t \<Rightarrow> bool) \<Rightarrow> ('k \<Rightarrow> bool) \<Rightarrow> ('k, 't) table_op \<Rightarrow> bool" where
  "good_op good good_key op = (case op of Op_get k \<Rightarrow> good_key k | Op_set v \<Rightarrow> good v | Op_del k \<Rightarrow> good_key k)"

definition is_del :: "('k, 't) table_op \<Rightarrow> bool" where
  "is_del op = (case op of Op_del _ \<Rightarrow> True | _ \<Rightarrow> False)"

text \<open>The table of the class is there; what is cached is in the database.\<close>

definition session_ok :: "('k, 't) table_meta \<Rightarrow> ('db \<Rightarrow> bool) \<Rightarrow> ('db \<Rightarrow> 'k \<Rightarrow> 't option) \<Rightarrow> table_kind
    \<Rightarrow> ('k, 't, 'db) table_factory \<Rightarrow> bool" where
  "session_ok M valid content kd fac \<longleftrightarrow> kd \<noteq> TinyMemTable \<and> valid (mysql fac) \<and>
     (\<exists>its. factory_tables fac (table_name M) = Some \<lparr>kind = kd, meta = M, cached = its\<rparr> \<and>
        (kd = TinyCacheTable \<longrightarrow> (\<forall>k obj. its k = Some obj \<longrightarrow> content (mysql fac) k = Some obj)))"

definition is_cached :: "('k, 't) table_meta \<Rightarrow> 'k \<Rightarrow> 't \<Rightarrow> ('k, 't, 'db) table_factory \<Rightarrow> bool" where
  "is_cached M k obj fac \<longleftrightarrow>
     (\<exists>its. factory_tables fac (table_name M) = Some \<lparr>kind = TinyCacheTable, meta = M, cached = its\<rparr> \<and> its k = Some obj)"

lemma get_bytes_simps [simp]: "get_bytes (Some bs) = bs" "get_bytes None = []"
  by (simp_all add: get_bytes_def)

lemma on_table_found:
  "factory_tables fac name = Some t \<Longrightarrow> f t (mysql fac) = (r, its, db) \<Longrightarrow>
   on_table f name reply fac = (r, fac\<lparr>factory_tables := (factory_tables fac)(name \<mapsto> t\<lparr>cached := its\<rparr>), mysql := db\<rparr>)"
  by (simp add: on_table_def getTableByName_def)

lemma session_okI:
  "kd \<noteq> TinyMemTable \<Longrightarrow> valid db \<Longrightarrow> (kd = TinyCacheTable \<Longrightarrow> \<forall>k obj. its k = Some obj \<longrightarrow> content db k = Some obj) \<Longrightarrow>
   session_ok M valid content kd
     (fac\<lparr>factory_tables := (factory_tables fac)(table_name M \<mapsto> \<lparr>kind = kd, meta = M, cached = its\<rparr>), mysql := db\<rparr>)"
  by (simp add: session_ok_def)

text \<open>One operation, given the reply of the server.\<close>

lemmas op_steps = run_op_def start_op_def client_get_def client_set_def client_del_def new_handler_def get_nonexist_def get_done_def
  set_done_def del_done_def change_handler_def emit_def serve_def get_rpc_done_def set_rpc_done_def del_rpc_done_def
  get_code_def log_def call_back_def removeHandler_def Let_def

lemma run_get:
  assumes "handlers c = Map.empty" "serialize_key M k = Some bs"
    and "server_on_get D \<lparr>get_type = Some (table_name M), get_key = Some bs\<rparr> fac = (Some reply, fac')"
  shows "getr_retcode reply = Some 1 \<Longrightarrow> \<exists>c'. run_op M D (Op_get k) (c, es, fac) = Some (c', es @ [Missing k], fac') \<and> handlers c' = Map.empty"
    "getr_retcode reply \<in> {None, Some 0} \<Longrightarrow> deserialize_object M (get_bytes (getr_value reply)) (new_object M) = (Some b, obj) \<Longrightarrow>
     \<exists>c'. run_op M D (Op_get k) (c, es, fac) = Some (c', es @ [Got obj], fac') \<and> handlers c' = Map.empty"
  using assms by (auto simp: op_steps)

lemma run_set:
  assumes "handlers c = Map.empty" "serialize_key M (table_key M obj) = Some bs" "serialize_object M obj = Some v"
    and "server_on_set D \<lparr>set_type = Some (table_name M), set_key = Some bs, set_value = Some v\<rparr> fac = (Some reply, fac')"
  shows "\<exists>c'. run_op M D (Op_set obj) (c, es, fac) = Some (c', es @ [Stored obj], fac') \<and> handlers c' = Map.empty"
  using assms by (simp add: op_steps)

lemma run_del:
  assumes "handlers c = Map.empty" "serialize_key M k = Some bs"
    and "server_on_del D \<lparr>del_type = Some (table_name M), del_key = Some bs\<rparr> fac = (Some reply, fac')"
  shows "\<exists>c'. run_op M D (Op_del k) (c, es, fac) = Some (c', es @ [Deleted k], fac') \<and> handlers c' = Map.empty"
  using assms by (simp add: op_steps)

context object_store
begin

definition got :: "'k \<Rightarrow> 'db \<Rightarrow> tt_GetReply \<Rightarrow> bool" where
  "got k db reply = (case content db k of
     Some obj \<Rightarrow> \<exists>v. getr_retcode reply = Some 0 \<and> getr_value reply = Some v \<and> serialize_object M obj = Some v
   | None \<Rightarrow> getr_retcode reply = Some 1)"

lemma server_get:
  assumes "session_ok M valid content kd fac" "good_key k" "serialize_key M k = Some bs"
  shows "\<exists>reply fac'. server_on_get D \<lparr>get_type = Some (table_name M), get_key = Some bs\<rparr> fac = (Some reply, fac') \<and>
    session_ok M valid content kd fac' \<and> content (mysql fac') = content (mysql fac) \<and> got k (mysql fac) reply \<and>
    (kd = TinyCacheTable \<longrightarrow> (\<forall>obj. content (mysql fac) k = Some obj \<longrightarrow> is_cached M k obj fac'))"
proof -
  let ?q = "\<lparr>get_type = Some (table_name M), get_key = Some bs\<rparr>" and ?db = "mysql fac"
  let ?r = "\<lparr>getr_type = Some (table_name M), getr_key = Some bs, getr_retcode = None, getr_value = None\<rparr>"
  obtain its where t: "factory_tables fac (table_name M) = Some \<lparr>kind = kd, meta = M, cached = its\<rparr>"
    and ok: "valid ?db" "kd \<noteq> TinyMemTable" "kd = TinyCacheTable \<Longrightarrow> \<forall>k obj. its k = Some obj \<longrightarrow> content ?db k = Some obj"
    using assms(1) by (auto simp: session_ok_def)
  have k: "deserialize_key M bs (new_key M) = Some (True, k)" using key_codec[OF assms(2)] assms(3) by auto
  have "\<exists>reply b its'. table_get D ?q ?r \<lparr>kind = kd, meta = M, cached = its\<rparr> ?db = (Some (b, reply), its', ?db) \<and>
      (kd = TinyCacheTable \<longrightarrow> (\<forall>k obj. its' k = Some obj \<longrightarrow> content ?db k = Some obj)) \<and> got k ?db reply \<and>
      (kd = TinyCacheTable \<longrightarrow> (\<forall>obj. content ?db k = Some obj \<longrightarrow> its' k = Some obj))"
  proof (cases "content ?db k")
    case None
    obtain obj where s: "db_select D (keyed_object M k) ?db = ((False, obj), ?db)" using select_none[OF ok(1) assms(2) None] by blast
    have "its k = None" if "kd = TinyCacheTable" using ok(3)[OF that] None by (cases "its k") auto
    then show ?thesis using ok(2,3) k s None
      by (cases kd) (auto simp: table_get_def db_processGet_def cache_processGet_def got_def)
  next
    case (Some obj)
    note s = select_some[OF ok(1) assms(2) Some]
    have key: "table_key M obj = k" "good obj" using content_key[OF ok(1) Some] by simp_all
    obtain v where v: "serialize_object M obj = Some v" using object_codec[OF key(2)] by blast
    show ?thesis
    proof (cases kd)
      case TinyCacheTable
      then have "its k = None \<or> its k = Some obj" using ok(3) Some by (cases "its k") auto
      then show ?thesis using TinyCacheTable ok(3) k s v Some key(1)
        by (auto simp: table_get_def cache_processGet_def got_def items_insert_def)
    qed (use ok(2) k s v Some in \<open>auto simp: table_get_def db_processGet_def got_def\<close>)
  qed
  then obtain reply b its' where g: "table_get D ?q ?r \<lparr>kind = kd, meta = M, cached = its\<rparr> ?db = (Some (b, reply), its', ?db)"
      "kd = TinyCacheTable \<Longrightarrow> \<forall>k obj. its' k = Some obj \<longrightarrow> content ?db k = Some obj" "got k ?db reply"
      "kd = TinyCacheTable \<Longrightarrow> \<forall>obj. content ?db k = Some obj \<longrightarrow> its' k = Some obj" by blast
  have s: "server_on_get D ?q fac = (Some reply, fac\<lparr>factory_tables := (factory_tables fac)(table_name M \<mapsto> \<lparr>kind = kd, meta = M, cached = its'\<rparr>), mysql := ?db\<rparr>)"
    using on_table_found[OF t, where f = "table_get D ?q ?r", OF g(1), of ?r] by (simp add: server_on_get_def factory_processGet_def)
  have "session_ok M valid content kd (fac\<lparr>factory_tables := (factory_tables fac)(table_name M \<mapsto> \<lparr>kind = kd, meta = M, cached = its'\<rparr>), mysql := ?db\<rparr>)"
    by (rule session_okI[where valid = valid and content = content, OF ok(2,1) g(2)])
  then show ?thesis unfolding s using g(3,4) by (simp add: is_cached_def)
qed

lemma server_set:
  assumes "session_ok M valid content kd fac" "good obj" "serialize_object M obj = Some v"
  shows "\<exists>reply fac'. server_on_set D \<lparr>set_type = Some (table_name M), set_key = bs, set_value = Some v\<rparr> fac = (Some reply, fac') \<and>
    session_ok M valid content kd fac' \<and> content (mysql fac') = (content (mysql fac))(table_key M obj \<mapsto> obj)"
proof -
  let ?q = "\<lparr>set_type = Some (table_name M), set_key = bs, set_value = Some v\<rparr>" and ?db = "mysql fac"
  let ?r = "\<lparr>setr_type = Some (table_name M), setr_retcode = None\<rparr>"
  obtain its where t: "factory_tables fac (table_name M) = Some \<lparr>kind = kd, meta = M, cached = its\<rparr>"
    and ok: "valid ?db" "kd \<noteq> TinyMemTable" "kd = TinyCacheTable \<Longrightarrow> \<forall>k obj. its k = Some obj \<longrightarrow> content ?db k = Some obj"
    using assms(1) by (auto simp: session_ok_def)
  have d: "deserialize_object M v (new_object M) = (Some True, obj)" using object_codec[OF assms(2)] assms(3) by auto
  obtain db' where r: "db_replace D obj ?db = (True, db')" "valid db'" "content db' = (content ?db)(table_key M obj \<mapsto> obj)"
    using replaces[OF ok(1) assms(2)] by blast
  have c: "replace_in_memory M obj its = (if its (table_key M obj) = None then its else its(table_key M obj \<mapsto> obj))" if "kd = TinyCacheTable"
  proof (cases "its (table_key M obj)")
    case (Some memobj)
    then have "table_key M memobj = table_key M obj" using ok(3)[OF that] content_key[OF ok(1)] by blast
    then show ?thesis using Some by (simp add: replace_in_memory_def items_insert_def fun_eq_iff)
  qed (simp add: replace_in_memory_def)
  have "\<exists>reply its'. table_set D ?q ?r \<lparr>kind = kd, meta = M, cached = its\<rparr> ?db = (Some (True, reply), its', db') \<and>
      (kd = TinyCacheTable \<longrightarrow> (\<forall>k obj. its' k = Some obj \<longrightarrow> content db' k = Some obj))"
    using ok(2,3) c d r(1,3)
    by (cases kd) (auto simp: table_set_def db_proceeSet_def cache_proceeSet_def mem_proceeSet_def)
  then obtain reply its' where g: "table_set D ?q ?r \<lparr>kind = kd, meta = M, cached = its\<rparr> ?db = (Some (True, reply), its', db')"
      "kd = TinyCacheTable \<Longrightarrow> \<forall>k obj. its' k = Some obj \<longrightarrow> content db' k = Some obj" by blast
  have s: "server_on_set D ?q fac = (Some reply, fac\<lparr>factory_tables := (factory_tables fac)(table_name M \<mapsto> \<lparr>kind = kd, meta = M, cached = its'\<rparr>), mysql := db'\<rparr>)"
    using on_table_found[OF t, where f = "table_set D ?q ?r", OF g(1), of ?r] by (simp add: server_on_set_def factory_proceeSet_def)
  show ?thesis unfolding s
    using session_okI[where valid = valid and content = content, OF ok(2) r(2) g(2)] r(3) by simp
qed

lemma server_del:
  assumes "session_ok M valid content kd fac" "good_key k" "serialize_key M k = Some bs"
  shows "\<exists>reply fac'. server_on_del D \<lparr>del_type = Some (table_name M), del_key = Some bs\<rparr> fac = (Some reply, fac') \<and>
    factory_tables fac' = factory_tables fac \<and> valid (mysql fac') \<and> content (mysql fac') = (content (mysql fac))(k := None)"
proof -
  let ?q = "\<lparr>del_type = Some (table_name M), del_key = Some bs\<rparr>" and ?db = "mysql fac"
  let ?r = "\<lparr>delr_type = Some (table_name M), delr_key = None, delr_retcode = None\<rparr>"
  obtain its where t: "factory_tables fac (table_name M) = Some \<lparr>kind = kd, meta = M, cached = its\<rparr>"
    and ok: "valid ?db" "kd \<noteq> TinyMemTable" "kd = TinyCacheTable \<Longrightarrow> \<forall>k obj. its k = Some obj \<longrightarrow> content ?db k = Some obj"
    using assms(1) by (auto simp: session_ok_def)
  have k: "deserialize_key M bs (new_key M) = Some (True, k)" using key_codec[OF assms(2)] assms(3) by auto
  define obj where "obj = (case its k of Some memobj \<Rightarrow> if kd = TinyCacheTable then memobj else keyed_object M k | None \<Rightarrow> keyed_object M k)"
  have "obj = keyed_object M k \<or> good obj \<and> table_key M obj = k"
    using ok(3) content_key[OF ok(1)] by (auto simp: obj_def split: option.splits)
  then obtain db' where r: "db_del D obj ?db = (True, db')" "valid db'" "content db' = (content ?db)(k := None)"
    using deletes[OF ok(1) assms(2)] by blast
  have "\<exists>reply. table_del D ?q ?r \<lparr>kind = kd, meta = M, cached = its\<rparr> ?db = (Some (True, reply), its, db')"
    using k r(1) ok(2)
    by (cases kd; cases "its k") (simp_all add: obj_def table_del_def db_proceeDel_def cache_proceeDel_def mem_proceeDel_def)
  then obtain reply where g: "table_del D ?q ?r \<lparr>kind = kd, meta = M, cached = its\<rparr> ?db = (Some (True, reply), its, db')" by blast
  have "server_on_del D ?q fac = (Some reply, fac\<lparr>factory_tables := factory_tables fac, mysql := db'\<rparr>)"
    using on_table_found[OF t, where f = "table_del D ?q ?r", OF g, of ?r] t
    by (simp add: server_on_del_def factory_proceeDel_def fun_upd_idem)
  then show ?thesis using r(2,3) by simp
qed

text \<open>One operation: the event is that of the map, and the handler is gone.\<close>

lemma op_refines:
  assumes "session_ok M valid content kd fac" "good_op good good_key op" "kd = TinyCacheTable \<longrightarrow> \<not> is_del op" "handlers c = Map.empty"
  shows "\<exists>c' e fac'. run_op M D op (c, es, fac) = Some (c', es @ [e], fac') \<and> session_ok M valid content kd fac' \<and>
    map_op (table_key M) op (content (mysql fac)) = (e, content (mysql fac')) \<and> handlers c' = Map.empty"
proof (cases op)
  case (Op_get k)
  then have k: "good_key k" using assms(2) by (simp add: good_op_def)
  obtain bs where bs: "serialize_key M k = Some bs" using key_codec[OF k] by blast
  obtain reply fac' where s: "server_on_get D \<lparr>get_type = Some (table_name M), get_key = Some bs\<rparr> fac = (Some reply, fac')"
      "session_ok M valid content kd fac'" "content (mysql fac') = content (mysql fac)" "got k (mysql fac) reply"
    using server_get[OF assms(1) k bs] by blast
  note run = run_get[OF assms(4) bs s(1)]
  show ?thesis
  proof (cases "content (mysql fac) k")
    case None
    then show ?thesis using run(1)[of es] s(2-4) by (auto simp: Op_get got_def)
  next
    case (Some obj)
    have "valid (mysql fac)" using assms(1) by (simp add: session_ok_def)
    then obtain v where v: "serialize_object M obj = Some v" "deserialize_object M v (new_object M) = (Some True, obj)"
      using object_codec content_key Some by blast
    then show ?thesis using run(2)[of True obj es] s(2-4) Some by (auto simp: Op_get got_def)
  qed
next
  case (Op_set obj)
  then have g: "good obj" using assms(2) by (simp add: good_op_def)
  obtain bs v where b: "serialize_key M (table_key M obj) = Some bs" "serialize_object M obj = Some v"
    using key_codec[OF good_has_key[OF g]] object_codec[OF g] by blast
  obtain reply fac' where s: "server_on_set D \<lparr>set_type = Some (table_name M), set_key = Some bs, set_value = Some v\<rparr> fac = (Some reply, fac')"
      "session_ok M valid content kd fac'" "content (mysql fac') = (content (mysql fac))(table_key M obj \<mapsto> obj)"
    using server_set[OF assms(1) g b(2), of "Some bs"] by blast
  then show ?thesis using run_set[OF assms(4) b s(1), of es] by (auto simp: Op_set)
next
  case (Op_del k)
  then have k: "good_key k" "kd = TinyDBTable" using assms(1-3) by (cases kd; simp add: good_op_def is_del_def session_ok_def)+
  obtain bs where bs: "serialize_key M k = Some bs" using key_codec[OF k(1)] by blast
  obtain reply fac' where s: "server_on_del D \<lparr>del_type = Some (table_name M), del_key = Some bs\<rparr> fac = (Some reply, fac')"
      "factory_tables fac' = factory_tables fac" "valid (mysql fac')" "content (mysql fac') = (content (mysql fac))(k := None)"
    using server_del[OF assms(1) k(1) bs] by blast
  have "session_ok M valid content kd fac'" using assms(1) s(2,3) k(2) by (auto simp: session_ok_def)
  then show ?thesis using run_del[OF assms(4) bs s(1), of es] s(4) by (auto simp: Op_del)
qed

lemma ops_refine:
  assumes "session_ok M valid content kd fac" "list_all (good_op good good_key) ops"
    and "kd = TinyCacheTable \<longrightarrow> list_all (\<lambda>op. \<not> is_del op) ops" "handlers c = Map.empty"
  shows "\<exists>c' es' fac'. run_ops M D ops (c, es, fac) = Some (c', es @ es', fac') \<and> session_ok M valid content kd fac' \<and>
    map_ops (table_key M) ops (content (mysql fac)) = (es', content (mysql fac')) \<and> handlers c' = Map.empty"
  using assms
proof (induction ops arbitrary: c es fac)
  case (Cons op ops)
  obtain c' e fac' where a: "run_op M D op (c, es, fac) = Some (c', es @ [e], fac')" "session_ok M valid content kd fac'"
      "map_op (table_key M) op (content (mysql fac)) = (e, content (mysql fac'))" "handlers c' = Map.empty"
    using op_refines[OF Cons.prems(1) _ _ Cons.prems(4), of op es] Cons.prems(2,3) by (metis list.pred_inject(2))
  from Cons.IH[OF a(2) _ _ a(4), of "es @ [e]"] Cons.prems(2,3) show ?case using a(1,3) by auto
qed simp

text \<open>An object in the cache is served, whatever the database holds.\<close>

lemma serves_deleted:
  assumes "session_ok M valid content TinyCacheTable fac" "good_key k" "content (mysql fac) k = Some obj" "handlers c = Map.empty"
  shows "\<exists>c' fac'. run_ops M D [Op_get k, Op_del k, Op_get k] (c, es, fac) = Some (c', es @ [Got obj, Deleted k, Got obj], fac') \<and>
    content (mysql fac') k = None"
proof -
  obtain bs where bs: "serialize_key M k = Some bs" "deserialize_key M bs (new_key M) = Some (True, k)" using key_codec[OF assms(2)] by blast
  have "valid (mysql fac)" using assms(1) by (simp add: session_ok_def)
  then obtain v where v: "serialize_object M obj = Some v" "deserialize_object M v (new_object M) = (Some True, obj)"
    using object_codec content_key assms(3) by blast
  obtain r1 f1 where g1: "server_on_get D \<lparr>get_type = Some (table_name M), get_key = Some bs\<rparr> fac = (Some r1, f1)"
      "session_ok M valid content TinyCacheTable f1" "content (mysql f1) = content (mysql fac)" "got k (mysql fac) r1" "is_cached M k obj f1"
    using server_get[OF assms(1,2) bs(1)] assms(3) by blast
  obtain c1 where c1: "run_op M D (Op_get k) (c, es, fac) = Some (c1, es @ [Got obj], f1)" "handlers c1 = Map.empty"
    using run_get(2)[OF assms(4) bs(1) g1(1), of True obj es] g1(4) assms(3) v by (auto simp: got_def)
  obtain r2 f2 where g2: "server_on_del D \<lparr>del_type = Some (table_name M), del_key = Some bs\<rparr> f1 = (Some r2, f2)"
      "factory_tables f2 = factory_tables f1" "content (mysql f2) = (content (mysql f1))(k := None)"
    using server_del[OF g1(2) assms(2) bs(1)] by blast
  obtain c2 where c2: "run_op M D (Op_del k) (c1, es @ [Got obj], f1) = Some (c2, es @ [Got obj, Deleted k], f2)" "handlers c2 = Map.empty"
    using run_del[OF c1(2) bs(1) g2(1), of "es @ [Got obj]"] by auto
  obtain its where its: "factory_tables f2 (table_name M) = Some \<lparr>kind = TinyCacheTable, meta = M, cached = its\<rparr>" "its k = Some obj"
    using g1(5) g2(2) by (auto simp: is_cached_def)
  let ?q = "\<lparr>get_type = Some (table_name M), get_key = Some bs\<rparr>"
  let ?r = "\<lparr>getr_type = Some (table_name M), getr_key = Some bs, getr_retcode = None, getr_value = None\<rparr>"
  have hit: "table_get D ?q ?r \<lparr>kind = TinyCacheTable, meta = M, cached = its\<rparr> (mysql f2) =
      (Some (True, ?r\<lparr>getr_value := Some v, getr_retcode := Some 0\<rparr>), its, mysql f2)"
    using bs(2) v(1) its(2) by (simp add: table_get_def cache_processGet_def)
  have "server_on_get D ?q f2 = (Some (?r\<lparr>getr_value := Some v, getr_retcode := Some 0\<rparr>), f2)"
    using on_table_found[OF its(1), where f = "table_get D ?q ?r", OF hit, of ?r] its(1)
    by (simp add: server_on_get_def factory_processGet_def fun_upd_idem)
  from run_get(2)[OF c2(2) bs(1) this, of True obj "es @ [Got obj, Deleted k]"] v(2) obtain c3 where
    "run_op M D (Op_get k) (c2, es @ [Got obj, Deleted k], f2) = Some (c3, es @ [Got obj, Deleted k, Got obj], f2)" by auto
  then show ?thesis using c1(1) c2(1) g1(3) g2(3) by simp
qed

end

subsection \<open>Tables in memory\<close>

text \<open>A table in memory has no object: nothing puts one there.\<close>

definition empty_memory :: "('k, 't) table_meta \<Rightarrow> ('k, 't, 'db) table_factory \<Rightarrow> bool" where
  "empty_memory M fac \<longleftrightarrow> factory_tables fac (table_name M) = Some \<lparr>kind = TinyMemTable, meta = M, cached = Map.empty\<rparr>"

definition handle :: "('t, 'db) table_db \<Rightarrow> tt_request \<Rightarrow> ('k, 't, 'db) table_factory \<Rightarrow> ('k, 't, 'db) table_factory" where
  "handle D request fac = (case request of
       Get_request q \<Rightarrow> snd (server_on_get D q fac)
     | Set_request q \<Rightarrow> snd (server_on_set D q fac)
     | Del_request q \<Rightarrow> snd (server_on_del D q fac)
     | Load_request _ \<Rightarrow> fac)"

lemma on_table_keeps:
  assumes "factory_tables fac n = Some t" "\<And>db. fst (snd (f t db)) = cached t"
  shows "factory_tables (snd (on_table f name reply fac)) n = Some t"
proof (cases "factory_tables fac name")
  case (Some t')
  obtain r its db where f: "f t' (mysql fac) = (r, its, db)" by (cases "f t' (mysql fac)") auto
  have "its = cached t" if "name = n" using assms(1) assms(2)[of "mysql fac"] f Some that by simp
  then show ?thesis using assms(1) Some by (auto simp: on_table_found[where f = f, OF Some f])
qed (use assms(1) in \<open>simp add: on_table_def getTableByName_def\<close>)

lemma memory_stays_empty:
  assumes "empty_memory M fac"
  shows "empty_memory M (handle D request fac)"
proof -
  let ?t = "\<lparr>kind = TinyMemTable, meta = M, cached = Map.empty\<rparr>"
  have t: "factory_tables fac (table_name M) = Some ?t" using assms by (simp add: empty_memory_def)
  have g: "fst (snd (table_get D q r ?t db)) = cached ?t" for q r db by (simp add: table_get_def)
  have s: "fst (snd (table_set D q r ?t db)) = cached ?t" for q r db
    by (auto simp: table_set_def mem_proceeSet_def replace_in_memory_def Let_def split: prod.splits option.splits bool.splits)
  have d: "fst (snd (table_del D q r ?t db)) = cached ?t" for q r db
    by (simp add: table_del_def split: prod.splits)
  show ?thesis
    by (cases request) (simp_all only: handle_def empty_memory_def server_on_get_def server_on_set_def server_on_del_def
      factory_processGet_def factory_proceeSet_def factory_proceeDel_def tt_request.case snd_apfst on_table_keeps[OF t] g s d t)
qed

end
