(* ===== verification/Table_Orm.thy ===== *)
theory Table_Orm
  imports Table_Session Orm_Theorems
begin

text \<open>
  Tables over RPC whose objects are kept by \<open>TinyMySqlORM\<close> (\<open>Orm_Mysql\<close>): the contract \<open>object_store\<close>
  follows from that of a class with its table, and the properties of the tables.
\<close>

subsection \<open>The database of a table\<close>

definition orm_ops :: "('d::zero, 'o, 'db) mysqlpp \<Rightarrow> string \<Rightarrow> ('t, ('d, 'o) field_value) TableFactory \<Rightarrow> ('t, 'db) table_db" where
  "orm_ops my ty fac = \<lparr>db_select = select my ty fac, db_replace = replace my ty fac, db_del = del my ty fac\<rparr>"

text \<open>
  The key of the class is what its table has as primary key; two objects with the same members are
  the same.
\<close>

locale orm_table = orm_class td blank storable
  for td :: "('t, ('d::zero, 'o) field_value) TableDescriptor" and blank storable :: "FieldDescriptor \<Rightarrow> 't \<Rightarrow> bool" +
  fixes my :: "('d, 'o, sql_db) mysqlpp" and ru :: rules and packet :: nat and ty :: string
    and fac :: "('t, ('d, 'o) field_value) TableFactory" and M :: "('k, 't) table_meta"
  assumes my_ok: "mysql_ok ru packet my" and in_factory: "tableByType ty fac = Some td" and fit: "td_ok td"
    and fresh_blank: "fd \<in> set (fields_ordered td) \<Longrightarrow> fd_type fd = OBJECT \<Longrightarrow> blank fd (keyed_object M k)"
    and keyed: "table_key M (keyed_object M k) = k"
    and keys_same: "same_keys my ru td a b \<longleftrightarrow> table_key M a = table_key M b"
    and members_all: "(\<And>fd. fd \<in> set (fields_ordered td) \<Longrightarrow> member td fd a = member td fd b) \<Longrightarrow> a = b"
begin

definition good_key :: "'k \<Rightarrow> bool" where
  "good_key k \<longleftrightarrow> keys_fit my ru td (keyed_object M k) \<and> short_texts my packet ty fac td (keyed_object M k) \<and>
     (\<exists>bs. serialize_key M k = Some bs \<and> deserialize_key M bs (new_key M) = Some (True, k))"

definition good :: "'t \<Rightarrow> bool" where
  "good obj \<longleftrightarrow> storable_in my ru td storable obj \<and> short_texts my packet ty fac td obj \<and> good_key (table_key M obj) \<and>
     (\<exists>bs. serialize_object M obj = Some bs \<and> deserialize_object M bs (new_object M) = (Some True, obj))"

definition valid :: "sql_db \<Rightarrow> bool" where
  "valid db \<longleftrightarrow> (\<exists>T. orm_db my ru packet ty fac td T db \<and> unique_keys ru T \<and> (\<forall>r\<in>set (rows T). \<exists>obj. good obj \<and> holds my ru td obj r))"

definition view :: "'k \<Rightarrow> (string \<Rightarrow> cell) \<Rightarrow> 't option" where
  "view k r = (case recordToObject my td (map r (map fd_name (fields_ordered td))) (keyed_object M k) of
     (Some True, obj) \<Rightarrow> Some obj | _ \<Rightarrow> None)"

definition content :: "sql_db \<Rightarrow> 'k \<Rightarrow> 't option" where
  "content db k = (case map_of db (table td) of
     Some T \<Rightarrow> if good_key k then Option.bind (find (has_key my ru td (keyed_object M k)) (rows T)) (view k) else None
   | None \<Rightarrow> None)"

lemma view_Some: "view k r = Some obj \<longleftrightarrow> recordToObject my td (map r (map fd_name (fields_ordered td))) (keyed_object M k) = (Some True, obj)"
  by (auto simp: view_def split: prod.splits option.splits bool.splits)

lemma view_holds: "good obj \<Longrightarrow> holds my ru td obj r \<Longrightarrow> view k r = Some obj"
proof -
  assume "good obj" "holds my ru td obj r"
  then obtain obj' where o: "recordToObject my td (map r (map fd_name (fields_ordered td))) (keyed_object M k) = (Some True, obj')"
      "\<forall>fd\<in>set (fields_ordered td). member td fd obj' = member td fd obj"
    using read_record[OF my_ok fit _ _ fresh_blank] unfolding good_def by blast
  then have "obj' = obj" using members_all by blast
  then show ?thesis using o(1) by (simp add: view_Some)
qed

lemma find_row: "find P rs = Some r \<Longrightarrow> r \<in> set rs \<and> P r"
  by (auto simp: find_Some_iff)

lemma validE:
  assumes "valid db"
  obtains T where "orm_db my ru packet ty fac td T db" "map_of db (table td) = Some T"
    "\<And>r. r \<in> set (rows T) \<Longrightarrow> \<exists>obj. good obj \<and> holds my ru td obj r" "unique_keys ru T"
  using assms orm_dbD(6) unfolding valid_def by blast

lemma valid_put:
  assumes "orm_db my ru packet ty fac td T db" "\<And>r. r \<in> set rs \<Longrightarrow> \<exists>obj. good obj \<and> holds my ru td obj r"
    and "unique_keys ru (T\<lparr>rows := rs\<rparr>)"
  shows "valid (put_table (table td) (T\<lparr>rows := rs\<rparr>) db)"
  unfolding valid_def using orm_db_put[OF assms(1)] assms(2,3) by (intro exI[of _ "T\<lparr>rows := rs\<rparr>"]) simp

lemma unique_without:
  assumes "orm_db my ru packet ty fac td T db" "unique_keys ru T"
  shows "unique_keys ru (T\<lparr>rows := filter (\<lambda>r. \<not> has_key my ru td obj r) (rows T)\<rparr>)"
    "unique_keys ru (T\<lparr>rows := filter (\<lambda>r. \<not> has_key my ru td obj r) (rows T) @ [the_row my ru td T obj]\<rparr>)"
proof -
  note d = orm_dbD[OF assms(1)]
  have same: "same_key ru (T\<lparr>rows := rs\<rparr>) a b = same_key ru T a b" for rs a b
    by (simp add: same_key_def column_type_def)
  show "unique_keys ru (T\<lparr>rows := filter (\<lambda>r. \<not> has_key my ru td obj r) (rows T)\<rparr>)"
    using assms(2) by (simp add: unique_keys_def same sorted_wrt_filter)
  then show "unique_keys ru (T\<lparr>rows := filter (\<lambda>r. \<not> has_key my ru td obj r) (rows T) @ [the_row my ru td T obj]\<rparr>)"
    by (simp add: unique_keys_def same sorted_wrt_append same_key_holds[OF d(3,7) holds_the_row[OF d(3,7)]])
qed

lemma content_put:
  "map_of db (table td) = Some T \<Longrightarrow> content (put_table (table td) (T\<lparr>rows := rs\<rparr>) db) k =
     (if good_key k then Option.bind (find (has_key my ru td (keyed_object M k)) rs) (view k) else None)"
  by (simp add: content_def)

lemma same_has_key: "table_key M obj = k \<Longrightarrow> has_key my ru td (keyed_object M k) = has_key my ru td obj"
  by (rule has_key_cong[OF my_ok]) (simp add: keys_same keyed)

lemma other_has_key: "table_key M obj \<noteq> k \<Longrightarrow> has_key my ru td (keyed_object M k) r \<Longrightarrow> \<not> has_key my ru td obj r"
  using has_key_both[OF my_ok, of td obj r "keyed_object M k"] by (auto simp: keys_same keyed)

lemma find_without:
  "find (has_key my ru td (keyed_object M k)) (filter (\<lambda>r. \<not> has_key my ru td obj r) rs) =
     (if table_key M obj = k then None else find (has_key my ru td (keyed_object M k)) rs)"
  using same_has_key other_has_key by (auto intro!: find_filter find_filter_None)

lemma replaced:
  assumes "valid db" "good obj"
  shows "\<exists>db'. replace my ty fac obj db = (True, db') \<and> valid db' \<and> content db' = (content db)(table_key M obj \<mapsto> obj)"
proof -
  obtain T where T: "orm_db my ru packet ty fac td T db" "map_of db (table td) = Some T"
      "\<And>r. r \<in> set (rows T) \<Longrightarrow> \<exists>obj. good obj \<and> holds my ru td obj r" "unique_keys ru T"
    using validE[OF assms(1)] by blast
  let ?row = "the_row my ru td T obj"
  let ?rs = "filter (\<lambda>r. \<not> has_key my ru td obj r) (rows T) @ [?row]"
  have row: "holds my ru td obj ?row" using holds_the_row[OF fit orm_dbD(7)[OF T(1)]] by blast
  have "has_key my ru td (keyed_object M k) ?row \<longleftrightarrow> table_key M obj = k" for k
    using has_key_holds[OF fit row] by (simp add: keys_same keyed)
  then have "content (put_table (table td) (T\<lparr>rows := ?rs\<rparr>) db) k = ((content db)(table_key M obj \<mapsto> obj)) k" for k
    using assms(2) view_holds[OF assms(2) row]
    by (auto simp: content_put[OF T(2)] find_append find_without content_def T(2) good_def split: option.splits)
  moreover have "valid (put_table (table td) (T\<lparr>rows := ?rs\<rparr>) db)"
    using valid_put[OF T(1) _ unique_without(2)[OF T(1,4)], of obj] T(3) assms(2) row by auto
  moreover have "replace my ty fac obj db = (True, put_table (table td) (T\<lparr>rows := ?rs\<rparr>) db)"
    using insert_run(2)[OF T(1)] assms(2) by (simp add: good_def)
  ultimately show ?thesis by (intro exI conjI ext) assumption+
qed

lemma deleted:
  assumes "valid db" "good_key k" "obj = keyed_object M k \<or> good obj \<and> table_key M obj = k"
  shows "\<exists>db'. del my ty fac obj db = (True, db') \<and> valid db' \<and> content db' = (content db)(k := None)"
proof -
  obtain T where T: "orm_db my ru packet ty fac td T db" "map_of db (table td) = Some T"
      "\<And>r. r \<in> set (rows T) \<Longrightarrow> \<exists>obj. good obj \<and> holds my ru td obj r" "unique_keys ru T"
    using validE[OF assms(1)] by blast
  have obj: "table_key M obj = k" "keys_fit my ru td obj" "short_texts my packet ty fac td obj"
    using assms(2,3) keyed storable_keys[OF T(1)] by (auto simp: good_key_def good_def)
  let ?rs = "filter (\<lambda>r. \<not> has_key my ru td obj r) (rows T)"
  have "content (put_table (table td) (T\<lparr>rows := ?rs\<rparr>) db) j = ((content db)(k := None)) j" for j
    using obj(1) by (simp add: content_put[OF T(2)] find_without content_def T(2))
  moreover have "valid (put_table (table td) (T\<lparr>rows := ?rs\<rparr>) db)" using valid_put[OF T(1) _ unique_without(1)[OF T(1,4)]] T(3) by simp
  ultimately show ?thesis using del_run[OF T(1) obj(2,3)] by (intro exI conjI ext) assumption+
qed

lemma selected:
  assumes "valid db" "good_key k"
  shows "content db k = Some obj \<Longrightarrow> select my ty fac (keyed_object M k) db = ((True, obj), db)"
    "content db k = None \<Longrightarrow> \<exists>obj. select my ty fac (keyed_object M k) db = ((False, obj), db)"
proof -
  obtain T where T: "orm_db my ru packet ty fac td T db" "map_of db (table td) = Some T"
      "\<And>r. r \<in> set (rows T) \<Longrightarrow> \<exists>obj. good obj \<and> holds my ru td obj r" "unique_keys ru T"
    using validE[OF assms(1)] by blast
  have k: "keys_fit my ru td (keyed_object M k)" "short_texts my packet ty fac td (keyed_object M k)"
    using assms(2) by (simp_all add: good_key_def)
  have v: "\<exists>obj. view k r = Some obj" if "find (has_key my ru td (keyed_object M k)) (rows T) = Some r" for r
    using T(3)[of r] find_row[OF that] view_holds by blast
  note d = orm_dbD[OF T(1)]
  note sel = select_run[OF T(1) k unique_one_row[OF d(1,3,7) T(4)]]
  show "select my ty fac (keyed_object M k) db = ((True, obj), db)" if c: "content db k = Some obj"
  proof -
    obtain r where "find (has_key my ru td (keyed_object M k)) (rows T) = Some r" "view k r = Some obj"
      using c by (auto simp: content_def T(2) bind_eq_Some_conv split: if_splits)
    then show ?thesis by (simp add: sel view_Some)
  qed
  show "\<exists>obj. select my ty fac (keyed_object M k) db = ((False, obj), db)" if "content db k = None"
    using that v assms(2) by (cases "find (has_key my ru td (keyed_object M k)) (rows T)") (auto simp: sel content_def T(2))
qed

lemma contents:
  assumes "valid db" "content db k = Some obj"
  shows "table_key M obj = k \<and> good obj"
proof -
  obtain T where T: "orm_db my ru packet ty fac td T db" "map_of db (table td) = Some T"
      "\<And>r. r \<in> set (rows T) \<Longrightarrow> \<exists>obj. good obj \<and> holds my ru td obj r" "unique_keys ru T"
    using validE[OF assms(1)] by blast
  obtain r where r: "find (has_key my ru td (keyed_object M k)) (rows T) = Some r" "view k r = Some obj"
    using assms(2) by (auto simp: content_def T(2) bind_eq_Some_conv split: if_splits)
  obtain obj' where o: "good obj'" "holds my ru td obj' r" using T(3) find_row[OF r(1)] by blast
  then have "obj' = obj" using view_holds r(2) by fastforce
  moreover have "table_key M obj' = k"
    using has_key_holds[OF fit o(2), of "keyed_object M k"] find_row[OF r(1)] by (simp add: keys_same keyed)
  ultimately show ?thesis using o(1) by simp
qed

end

sublocale orm_table \<subseteq> object_store M "orm_ops my ty fac" valid content good good_key
proof
  show "valid db \<Longrightarrow> good_key k \<Longrightarrow> content db k = Some obj \<Longrightarrow>
      db_select (orm_ops my ty fac) (keyed_object M k) db = ((True, obj), db)" for db k obj
    using selected(1) by (simp add: orm_ops_def)
  show "valid db \<Longrightarrow> good_key k \<Longrightarrow> content db k = None \<Longrightarrow>
      \<exists>obj. db_select (orm_ops my ty fac) (keyed_object M k) db = ((False, obj), db)" for db k
    using selected(2) by (simp add: orm_ops_def)
  show "valid db \<Longrightarrow> content db k = Some obj \<Longrightarrow> table_key M obj = k \<and> good obj" for db k obj
    by (rule contents)
  show "valid db \<Longrightarrow> good obj \<Longrightarrow> \<exists>db'. db_replace (orm_ops my ty fac) obj db = (True, db') \<and> valid db' \<and>
      content db' = (content db)(table_key M obj \<mapsto> obj)" for db obj
    using replaced by (simp add: orm_ops_def)
  show "valid db \<Longrightarrow> good_key k \<Longrightarrow> obj = keyed_object M k \<or> good obj \<and> table_key M obj = k \<Longrightarrow>
      \<exists>db'. db_del (orm_ops my ty fac) obj db = (True, db') \<and> valid db' \<and> content db' = (content db)(k := None)" for db k obj
    using deleted by (simp add: orm_ops_def)
qed (auto simp: good_key_def good_def)

subsection \<open>The users\<close>

definition user_meta :: "(u32, user) table_meta" where
  "user_meta = (let S = Impl_Seq wire_pb (Impl_String wire_pb) in
     \<lparr>table_name = tx ''users'', table_key = fst, set_table_key = (\<lambda>(_, n, f) k. (k, n, f)), new_key = 0, new_object = (0, [], []),
      serialize_key = (\<lambda>k. Some (put_le 4 k)),
      deserialize_key = (\<lambda>bs k. Some (if length bs = 4 then (True, get_le bs) else (False, k))),
      serialize_object = (\<lambda>(k, n, f). Some (serialize S (put_le 4 k # n # f))),
      deserialize_object = (\<lambda>bs obj. case deserialize S [] bs of
          (True, k # n # f) \<Rightarrow> (Some True, get_le k, n, f) | _ \<Rightarrow> (Some False, obj))\<rparr>)"

lemma whole_word: "take_bit 32 (w :: u32) = w"
  using take_bit_length_eq[of w] by simp

lemma user_meta_simps:
  "table_name user_meta = tx ''users''" "table_key user_meta = fst" "keyed_object user_meta k = (k, [], [])" "new_object user_meta = (0, [], [])"
  "serialize_key user_meta k = Some (put_le 4 k)" "deserialize_key user_meta (put_le 4 k) j = Some (True, k)"
  by (simp_all add: user_meta_def keyed_object_def Let_def get_put_le whole_word)

lemma user_codec:
  "length (serialize (Impl_Seq wire_pb (Impl_String wire_pb)) (put_le 4 (fst u) # fst (snd u) # snd (snd u))) < proto_limit \<Longrightarrow>
   \<exists>bs. serialize_object user_meta u = Some bs \<and> deserialize_object user_meta bs obj = (Some True, u)"
proof -
  let ?S = "Impl_Seq wire_pb (Impl_String wire_pb)"
  assume "length (serialize ?S (put_le 4 (fst u) # fst (snd u) # snd (snd u))) < proto_limit"
  from serializer.round_trip[OF strings_serializer _ this]
  have "deserialize ?S [] (serialize ?S (put_le 4 (fst u) # fst (snd u) # snd (snd u))) = (True, put_le 4 (fst u) # fst (snd u) # snd (snd u))"
    by (simp add: Impl_Seq_def)
  then show ?thesis by (cases u) (simp add: user_meta_def Let_def get_put_le whole_word)
qed

lemma users_table: "orm_table users_td (user_blank ''users'') user_storable ascii_mysql ascii_rules 1000 ''4User'' (one_table users_td) user_meta"
proof (rule orm_table.intro[OF user_class], unfold_locales)
  show "mysql_ok ascii_rules 1000 ascii_mysql" by (rule ascii_mysql_ok)
  show "tableByType ''4User'' (one_table users_td) = Some users_td" by (rule one_table_simps)
  show "td_ok users_td" by (rule orm_dbD(3)[OF users_orm_db])
  show "user_blank ''users'' fd (keyed_object user_meta k)" if "fd \<in> set (fields_ordered users_td)" "fd_type fd = OBJECT" for fd k
    using that by (cases rule: user_field_cases) (simp_all add: user_blank_def user_members user_meta_simps)
  show "table_key user_meta (keyed_object user_meta k) = k" for k by (simp add: user_meta_simps)
  have "member_literal ascii_mysql users_td u (new_FieldDescriptor ''id'' UINT32 [] 0) = Num (int_decimal (uint (fst u)))" for u
    by (simp add: member_literal_def get_member_def struct_get_def user_properties) (simp add: user_props Property_T_def)
  moreover have "int_decimal (uint a) = int_decimal (uint b) \<longleftrightarrow> a = b" for a b :: u32
    by (metis int_val_decimal word_uint_eq_iff)
  ultimately show "same_keys ascii_mysql ascii_rules users_td a b \<longleftrightarrow> table_key user_meta a = table_key user_meta b" for a b
    by (simp add: same_keys_def user_td_simps user_meta_simps ascii_rules_def)
  show "a = b" if "\<And>fd. fd \<in> set (fields_ordered users_td) \<Longrightarrow> member users_td fd a = member users_td fd b" for a b
  proof -
    have "\<forall>fd\<in>set (fields_ordered users_td). member users_td fd a = member users_td fd b" using that by blast
    then show ?thesis
      by (cases a; cases b) (auto simp: user_td_simps user_fields_def user_members word_uint_eq_iff)
  qed
qed

interpretation user_table: orm_table users_td "user_blank ''users''" user_storable ascii_mysql ascii_rules 1000 "''4User''"
  "one_table users_td" user_meta
  by (rule users_table)

abbreviation users_ops :: "(user, sql_db) table_db" where "users_ops \<equiv> orm_ops ascii_mysql ''4User'' (one_table users_td)"

lemma users_store: "object_store user_meta users_ops user_table.valid user_table.content user_table.good user_table.good_key"
  by (rule user_table.object_store_axioms)

lemma users_good: "user_table.good ann" "user_table.good_key 7"
proof -
  have l: "(7, [], []) \<in> set some_users" "ann \<in> set some_users" by (simp_all add: some_users_def)
  show k: "user_table.good_key 7"
    using users_storable(2,3)[OF l(1)] by (simp add: user_table.good_key_def user_meta_simps)
  have "length (serialize (Impl_Seq wire_pb (Impl_String wire_pb)) (put_le 4 (fst ann) # fst (snd ann) # snd (snd ann))) < 100" by code_simp
  moreover have "100 \<le> proto_limit" by (simp add: proto_limit_def)
  ultimately have "\<exists>bs. serialize_object user_meta ann = Some bs \<and> deserialize_object user_meta bs (new_object user_meta) = (Some True, ann)"
    by (intro user_codec) linarith
  then show "user_table.good ann"
    using users_storable(1,3)[OF l(2)] k by (simp add: user_table.good_def user_meta_simps ann_def)
qed

lemma users_valid: "user_table.valid users_db" "user_table.content users_db = Map.empty"
proof -
  show "user_table.valid users_db"
    unfolding user_table.valid_def using users_orm_db users_unique by (intro exI[of _ user_table]) (simp add: user_table_def)
  show "user_table.content users_db = Map.empty"
    by (rule ext) (simp add: user_table.content_def users_db_def user_td_simps user_table_def)
qed

definition users_factory :: "table_kind \<Rightarrow> (u32, user, sql_db) table_factory" where
  "users_factory kd = factory_insert kd user_meta \<lparr>factory_tables = Map.empty, mysql = users_db\<rparr>"

lemma users_session: "kd \<noteq> TinyMemTable \<Longrightarrow> session_ok user_meta user_table.valid user_table.content kd (users_factory kd)"
  using users_valid by (simp add: session_ok_def users_factory_def factory_insert_def)

subsection \<open>Properties\<close>

text \<open>
  C10. A user of \<open>TableClient\<close> sees a map: every \<open>get\<close>, \<open>set\<close> and \<open>del\<close> ends with the callback, and
  the object, that a map from keys to objects gives, the database then holds this map, and no
  handler is left. This holds for tables in the database, and for tables with a cache as long as
  nothing is deleted.
\<close>

theorem tables_refine_map:
  assumes "object_store M D valid content good good_key" "session_ok M valid content kd fac"
    and "list_all (good_op good good_key) ops" "kd = TinyCacheTable \<longrightarrow> list_all (\<lambda>op. \<not> is_del op) ops"
  shows "\<exists>c es fac'. run_ops M D ops (new_TableClient, [], fac) = Some (c, es, fac') \<and>
    map_ops (table_key M) ops (content (mysql fac)) = (es, content (mysql fac')) \<and> handlers c = Map.empty"
  using object_store.ops_refine[OF assms, of new_TableClient "[]"] by (auto simp: new_TableClient_def)

theorem tables_refine_map_witness:
  "\<exists>c fac'. run_ops user_meta users_ops [Op_get 7, Op_set ann, Op_get 7, Op_del 7, Op_get 7] (new_TableClient, [], users_factory TinyDBTable) =
     Some (c, [Missing 7, Stored ann, Got ann, Deleted 7, Missing 7], fac')"
proof -
  have "fst ann = 7" by (simp add: ann_def)
  then show ?thesis
    using tables_refine_map[OF users_store users_session[of TinyDBTable], of "[Op_get 7, Op_set ann, Op_get 7, Op_del 7, Op_get 7]"] users_good
    by (auto simp: good_op_def users_factory_def factory_insert_def users_valid user_meta_simps)
qed

text \<open>
  A table with a cache serves what has been deleted: after a \<open>get\<close> has put an object into the cache,
  \<open>del\<close> takes it out of the database only, and a later \<open>get\<close> still returns it.
\<close>

theorem deleted_objects_served:
  assumes "object_store M D valid content good good_key" "session_ok M valid content TinyCacheTable fac"
    and "good_key k" "content (mysql fac) k = Some obj" "handlers c = Map.empty"
  shows "\<exists>c' fac'. run_ops M D [Op_get k, Op_del k, Op_get k] (c, es, fac) = Some (c', es @ [Got obj, Deleted k, Got obj], fac') \<and>
    content (mysql fac') k = None"
  by (rule object_store.serves_deleted[OF assms])

theorem deleted_objects_served_witness:
  "\<exists>c fac'. run_ops user_meta users_ops [Op_set ann, Op_get 7, Op_del 7, Op_get 7] (new_TableClient, [], users_factory TinyCacheTable) =
     Some (c, [Stored ann, Got ann, Deleted 7, Got ann], fac')"
proof -
  have a: "fst ann = 7" by (simp add: ann_def)
  obtain c e fac' where s: "run_op user_meta users_ops (Op_set ann) (new_TableClient, [], users_factory TinyCacheTable) = Some (c, [e], fac')"
      "session_ok user_meta user_table.valid user_table.content TinyCacheTable fac'"
      "map_op fst (Op_set ann) (user_table.content users_db) = (e, user_table.content (mysql fac'))" "handlers c = Map.empty"
    using user_table.op_refines[OF users_session[of TinyCacheTable], of "Op_set ann" new_TableClient "[]"] users_good(1)
    by (auto simp: good_op_def is_del_def new_TableClient_def user_meta_simps users_factory_def factory_insert_def)
  have e: "user_table.content (mysql fac') = (user_table.content users_db)(7 \<mapsto> ann)" "e = Stored ann" using s(3) a by simp_all
  then have "user_table.content (mysql fac') 7 = Some ann" by simp
  from deleted_objects_served[OF users_store s(2) users_good(2) this s(4), of "[e]"] e(2) s(1) show ?thesis by auto
qed

text \<open>
  A table in memory never returns an object, whatever requests it has served: a \<open>set\<close> replaces an object
  that is in memory only, and nothing puts the first one there.
\<close>

theorem memory_tables_miss:
  "case server_on_get D \<lparr>get_type = Some (table_name M), get_key = k\<rparr>
     (foldl (\<lambda>fac request. handle D request fac) (memTable M \<lparr>factory_tables = Map.empty, mysql = db\<rparr>) requests) of
    (Some reply, _) \<Rightarrow> getr_retcode reply \<in> {Some 1, Some 11} \<and> getr_value reply = None | (None, _) \<Rightarrow> True"
proof -
  have "empty_memory M fac \<Longrightarrow> empty_memory M (foldl (\<lambda>fac request. handle D request fac) fac requests)" for fac
    by (induction requests arbitrary: fac) (simp_all add: memory_stays_empty)
  moreover have "empty_memory M (memTable M \<lparr>factory_tables = Map.empty, mysql = db\<rparr>)"
    by (simp add: empty_memory_def memTable_def factory_insert_def)
  ultimately have "empty_memory M (foldl (\<lambda>fac request. handle D request fac) (memTable M \<lparr>factory_tables = Map.empty, mysql = db\<rparr>) requests)"
    by blast
  then show ?thesis
    by (auto simp: empty_memory_def server_on_get_def factory_processGet_def on_table_def getTableByName_def table_get_def mem_processGet_def
        split: option.splits bool.splits)
qed

text \<open>
  A server that does not know the table leaves the code of its reply unset, which the client reads as
  success: a \<open>get\<close> hands over the object read from no bytes, and \<open>set\<close> and \<open>del\<close> report that they are done.
\<close>

theorem unknown_table_succeeds:
  assumes "factory_tables fac (table_name M) = None" "handlers c = Map.empty"
    and "serialize_key M k = Some bs" "serialize_key M (table_key M v) = Some vs" "serialize_object M v = Some ws"
    and "deserialize_object M [] (new_object M) = (Some b, obj)"
  shows "(\<exists>c'. run_op M D (Op_get k) (c, es, fac) = Some (c', es @ [Got obj], fac)) \<and>
    (\<exists>c'. run_op M D (Op_set v) (c, es, fac) = Some (c', es @ [Stored v], fac)) \<and>
    (\<exists>c'. run_op M D (Op_del k) (c, es, fac) = Some (c', es @ [Deleted k], fac))"
proof -
  have "server_on_get D \<lparr>get_type = Some (table_name M), get_key = Some bs\<rparr> fac =
      (Some \<lparr>getr_type = Some (table_name M), getr_key = Some bs, getr_retcode = None, getr_value = None\<rparr>, fac)"
    "server_on_set D \<lparr>set_type = Some (table_name M), set_key = Some vs, set_value = Some ws\<rparr> fac =
      (Some \<lparr>setr_type = Some (table_name M), setr_retcode = None\<rparr>, fac)"
    "server_on_del D \<lparr>del_type = Some (table_name M), del_key = Some bs\<rparr> fac =
      (Some \<lparr>delr_type = Some (table_name M), delr_key = None, delr_retcode = None\<rparr>, fac)"
    using assms(1) by (simp_all add: server_on_get_def server_on_set_def server_on_del_def factory_processGet_def factory_proceeSet_def
        factory_proceeDel_def on_table_def getTableByName_def)
  from run_get(2)[OF assms(2,3) this(1), of b obj es] run_set[OF assms(2,4,5) this(2), of es] run_del[OF assms(2,3) this(3), of es]
  show ?thesis using assms(6) by auto
qed

theorem unknown_table_succeeds_witness:
  "\<exists>c'. run_op user_meta users_ops (Op_get 7) (new_TableClient, [], \<lparr>factory_tables = Map.empty, mysql = users_db\<rparr>) =
     Some (c', [Got (0, [], [])], \<lparr>factory_tables = Map.empty, mysql = users_db\<rparr>)"
proof -
  obtain ws where "serialize_object user_meta ann = Some ws" by (simp add: user_meta_def ann_def Let_def)
  moreover have "deserialize_object user_meta [] (new_object user_meta) = (Some False, (0, [], []))" by code_simp
  ultimately show ?thesis
    using unknown_table_succeeds[of "\<lparr>factory_tables = Map.empty, mysql = users_db\<rparr>" user_meta new_TableClient 7 _ ann _ ws False "(0, [], [])" users_ops "[]"]
    by (simp add: user_meta_simps new_TableClient_def)
qed

end
