(* ===== verification/Orm_Soci.thy ===== *)
theory Orm_Soci
  imports Orm_Mysql
begin

text \<open>
  \<open>common/tinyorm_soci.h\<close> and \<open>tinyorm_soci.in.h\<close>: the class \<open>TinySociORM\<close>, the mapping of objects to
  tables over the library SOCI, with statements whose values are bound to placeholders.

  SOCI and the server are the parameter \<open>so\<close>: \<open>exec\<close> is a statement that is prepared, bound by
  position and executed, with the rows it gives; a text without placeholders is the case without
  values. An exception is a left value or \<open>None\<close>; the methods catch it and return false. The session
  is there, and formatted arguments are their formatted text.
\<close>

subsection \<open>SOCI\<close>

text \<open>The values that are bound, and the cells of a \<open>soci::row\<close> by the type SOCI gives them.\<close>

datatype 'd use_value = UseInt int | UseLongLong int | UseULongLong int | UseDouble 'd | UseText bytes

datatype 'd soci_value = CInt int | CLongLong int | CULongLong int | CDouble 'd | CText string | CDate

type_synonym 'd soci_cell = "'d soci_value option"

record ('d, 'db) soci =
  exec :: "string \<Rightarrow> 'd use_value list \<Rightarrow> 'db \<Rightarrow> (string + 'd soci_cell list list) \<times> 'db"
  float_of :: "'d \<Rightarrow> 'd"   \<comment> \<open>the conversion of a \<open>double\<close> to a \<open>float\<close>\<close>

text \<open>\<open>row.get<T>(i)\<close> throws for \<open>NULL\<close> and for another type.\<close>

fun get_int :: "'d soci_cell \<Rightarrow> int option" where
  "get_int (Some (CInt i)) = Some i"
| "get_int _ = None"

fun get_long_long :: "'d soci_cell \<Rightarrow> int option" where
  "get_long_long (Some (CLongLong i)) = Some i"
| "get_long_long _ = None"

fun get_ulong_long :: "'d soci_cell \<Rightarrow> int option" where
  "get_ulong_long (Some (CULongLong i)) = Some i"
| "get_ulong_long _ = None"

fun get_double :: "'d soci_cell \<Rightarrow> 'd option" where
  "get_double (Some (CDouble x)) = Some x"
| "get_double _ = None"

fun get_string :: "'d soci_cell \<Rightarrow> string option" where
  "get_string (Some (CText s)) = Some s"
| "get_string _ = None"

subsection \<open>From objects to statements\<close>

fun value_int :: "('d, 'o) field_value \<Rightarrow> int" where
  "value_int (VInt i) = i"
| "value_int (VBool b) = (if b then 1 else 0)"
| "value_int _ = 0"

fun value_real :: "('d::zero, 'o) field_value \<Rightarrow> 'd" where
  "value_real (VReal x) = x"
| "value_real _ = 0"

fun value_bytes :: "('d, 'o) field_value \<Rightarrow> bytes" where
  "value_bytes (VText bs) = bs"
| "value_bytes _ = []"

text \<open>The inner option is the pointer that is returned.\<close>

definition fieldToStatement :: "('t, ('d::zero, 'o) field_value) TableDescriptor \<Rightarrow> 't \<Rightarrow> FieldDescriptor
    \<Rightarrow> 'd use_value option option" where
  "fieldToStatement td obj fd =
     (case fd_type fd of
        INT8 \<Rightarrow> map_option (\<lambda>v. Some (UseInt (value_int v))) (get_member td obj fd)
      | INT16 \<Rightarrow> map_option (\<lambda>v. Some (UseInt (value_int v))) (get_member td obj fd)
      | INT32 \<Rightarrow> map_option (\<lambda>v. Some (UseInt (value_int v))) (get_member td obj fd)
      | INT64 \<Rightarrow> map_option (\<lambda>v. Some (UseLongLong (value_int v))) (get_member td obj fd)
      | UINT8 \<Rightarrow> map_option (\<lambda>v. Some (UseInt (value_int v))) (get_member td obj fd)
      | UINT16 \<Rightarrow> map_option (\<lambda>v. Some (UseInt (value_int v))) (get_member td obj fd)
      | UINT32 \<Rightarrow> map_option (\<lambda>v. Some (UseLongLong (value_int v))) (get_member td obj fd)
      | UINT64 \<Rightarrow> map_option (\<lambda>v. Some (UseULongLong (value_int v))) (get_member td obj fd)
      | BOOL \<Rightarrow> map_option (\<lambda>v. Some (UseInt (value_int v))) (get_member td obj fd)
      | FLOAT \<Rightarrow> map_option (\<lambda>v. Some (UseDouble (value_real v))) (get_member td obj fd)
      | DOUBLE \<Rightarrow> map_option (\<lambda>v. Some (UseDouble (value_real v))) (get_member td obj fd)
      | OBJECT \<Rightarrow>
          (case propertyByName (tx (fd_name fd)) (reflection td) of
             Some pd \<Rightarrow> (case prop_serialize pd obj of Inr bin \<Rightarrow> Some (Some (UseText bin)) | Inl _ \<Rightarrow> None)
           | None \<Rightarrow> Some None)
      | _ \<Rightarrow> map_option (\<lambda>v. Some (UseText (value_bytes v))) (get_member td obj fd))"

text \<open>The loop that binds the members; a null pointer is left out.\<close>

fun bind_fields :: "('t, ('d::zero, 'o) field_value) TableDescriptor \<Rightarrow> 't \<Rightarrow> FieldDescriptor list \<Rightarrow> 'd use_value list option" where
  "bind_fields td obj [] = Some []"
| "bind_fields td obj (fd # fds) =
     (case fieldToStatement td obj fd of
        None \<Rightarrow> None
      | Some u \<Rightarrow> map_option ((@) (case u of None \<Rightarrow> [] | Some u \<Rightarrow> [u])) (bind_fields td obj fds))"

definition placeholder_equations :: "string \<Rightarrow> FieldDescriptor list \<Rightarrow> string" where
  "placeholder_equations sep fds =
     joined sep (map (\<lambda>fd. in_backquotes (fd_name fd) @ ''=:'' @ fd_name fd) fds)"

text \<open>A statement that is executed with its values; whether no exception is thrown.\<close>

definition run_bound :: "('d, 'db) soci \<Rightarrow> string \<Rightarrow> 'd use_value list option \<Rightarrow> 'db \<Rightarrow> bool \<times> 'db" where
  "run_bound so text uses db =
     (case uses of
        None \<Rightarrow> (False, db)
      | Some us \<Rightarrow> (case exec so text us db of (Inl _, db) \<Rightarrow> (False, db) | (Inr _, db) \<Rightarrow> (True, db)))"

definition soci_insert :: "('d::zero, 'db) soci \<Rightarrow> string \<Rightarrow> ('t, ('d, 'o) field_value) TableFactory \<Rightarrow> 't \<Rightarrow> 'db \<Rightarrow> bool \<times> 'db" where
  "soci_insert so ty fac obj db =
     (case tableByType ty fac of
        None \<Rightarrow> (False, db)
      | Some td \<Rightarrow>
          run_bound so (''INSERT INTO '' @ in_backquotes (table td) @ ''('' @ sql_fieldlist td @ '')'' @
            '' VALUES ('' @ sql_fieldlist2 td @ '')'') (bind_fields td obj (fields_ordered td)) db)"

definition soci_replace :: "('d::zero, 'db) soci \<Rightarrow> string \<Rightarrow> ('t, ('d, 'o) field_value) TableFactory \<Rightarrow> 't \<Rightarrow> 'db \<Rightarrow> bool \<times> 'db" where
  "soci_replace so ty fac obj db =
     (case tableByType ty fac of
        None \<Rightarrow> (False, db)
      | Some td \<Rightarrow>
          run_bound so (''REPLACE INTO '' @ in_backquotes (table td) @ ''('' @ sql_fieldlist td @ '')'' @
            '' VALUES ('' @ sql_fieldlist2 td @ '')'') (bind_fields td obj (fields_ordered td)) db)"

definition soci_update :: "('d::zero, 'db) soci \<Rightarrow> string \<Rightarrow> ('t, ('d, 'o) field_value) TableFactory \<Rightarrow> 't \<Rightarrow> 'db \<Rightarrow> bool \<times> 'db" where
  "soci_update so ty fac obj db =
     (case tableByType ty fac of
        None \<Rightarrow> (False, db)
      | Some td \<Rightarrow>
          run_bound so (''UPDATE '' @ in_backquotes (table td) @ '' SET '' @ placeholder_equations '','' (fields_ordered td) @
            '' WHERE '' @ placeholder_equations '' AND '' (table_keys td))
            (case bind_fields td obj (fields_ordered td) of
               None \<Rightarrow> None | Some us \<Rightarrow> map_option ((@) us) (bind_fields td obj (table_keys td))) db)"

definition soci_del :: "('d::zero, 'db) soci \<Rightarrow> string \<Rightarrow> ('t, ('d, 'o) field_value) TableFactory \<Rightarrow> 't \<Rightarrow> 'db \<Rightarrow> bool \<times> 'db" where
  "soci_del so ty fac obj db =
     (case tableByType ty fac of
        None \<Rightarrow> (False, db)
      | Some td \<Rightarrow>
          run_bound so (''DELETE FROM '' @ in_backquotes (table td) @ '' WHERE '' @
            placeholder_equations '' AND '' (table_keys td)) (bind_fields td obj (table_keys td)) db)"

subsection \<open>From rows to objects\<close>

text \<open>What \<open>get\<close> gives for a field, converted to the type of the member.\<close>

definition cell_value :: "('d, 'db) soci \<Rightarrow> FieldType \<Rightarrow> 'd soci_cell \<Rightarrow> ('d, 'o) field_value option" where
  "cell_value so ty c = (case ty of
       INT8 \<Rightarrow> map_option (\<lambda>i. VInt (sint (word_of_int i :: u8))) (get_int c)
     | INT16 \<Rightarrow> map_option (\<lambda>i. VInt (sint (word_of_int i :: u16))) (get_int c)
     | INT32 \<Rightarrow> map_option (\<lambda>i. VInt (sint (word_of_int i :: u32))) (get_int c)
     | INT64 \<Rightarrow> map_option (\<lambda>i. VInt (sint (word_of_int i :: u64))) (get_long_long c)
     | UINT8 \<Rightarrow> map_option (\<lambda>i. VInt (uint (word_of_int i :: u8))) (get_int c)
     | UINT16 \<Rightarrow> map_option (\<lambda>i. VInt (uint (word_of_int i :: u16))) (get_int c)
     | UINT32 \<Rightarrow> map_option (\<lambda>i. VInt (uint (word_of_int i :: u32))) (get_long_long c)
     | UINT64 \<Rightarrow> map_option (\<lambda>i. VInt (uint (word_of_int i :: u64))) (get_ulong_long c)
     | BOOL \<Rightarrow> map_option (\<lambda>i. VBool (i \<noteq> 0)) (get_int c)
     | FLOAT \<Rightarrow> map_option (\<lambda>x. VReal (float_of so x)) (get_double c)
     | DOUBLE \<Rightarrow> map_option VReal (get_double c)
     | _ \<Rightarrow> map_option (\<lambda>s. VText (tx s)) (get_string c))"

fun soci_record_loop :: "('d, 'db) soci \<Rightarrow> ('t, ('d, 'o) field_value) TableDescriptor \<Rightarrow> bool
    \<Rightarrow> (FieldDescriptor \<times> 'd soci_cell) list \<Rightarrow> 't \<Rightarrow> bool option \<times> 't" where
  "soci_record_loop so td ret [] obj = (Some ret, obj)"
| "soci_record_loop so td ret ((fd, c) # fcs) obj =
     (if fd_type fd = OBJECT
      then (case propertyByName (tx (fd_name fd)) (reflection td) of
              None \<Rightarrow> soci_record_loop so td False fcs obj
            | Some prop \<Rightarrow>
                (case get_string c of
                   None \<Rightarrow> (None, obj)
                 | Some s \<Rightarrow>
                     (case prop_deserialize prop obj (tx s) of
                        Inl _ \<Rightarrow> (None, obj)
                      | Inr (r, obj) \<Rightarrow> soci_record_loop so td (if r then ret else False) fcs obj)))
      else (case cell_value so (fd_type fd) c of
              None \<Rightarrow> (None, obj)
            | Some v \<Rightarrow>
                (case struct_set (typeid_of (fd_type fd)) obj (tx (fd_name fd)) v (reflection td) of
                   None \<Rightarrow> (None, obj)
                 | Some obj \<Rightarrow> soci_record_loop so td ret fcs obj)))"

definition soci_recordToObject :: "('d, 'db) soci \<Rightarrow> ('t, ('d, 'o) field_value) TableDescriptor
    \<Rightarrow> 'd soci_cell list \<Rightarrow> 't \<Rightarrow> bool option \<times> 't" where
  "soci_recordToObject so td record obj =
     (if length record < length (fields_ordered td) then (Some False, obj)
      else soci_record_loop so td True (zip (fields_ordered td) record) obj)"

text \<open>The text of \<open>select\<close> has no space behind \<open>WHERE\<close>; only the first row is fetched.\<close>

definition soci_select :: "('d::zero, 'db) soci \<Rightarrow> string \<Rightarrow> ('t, ('d, 'o) field_value) TableFactory \<Rightarrow> 't \<Rightarrow> 'db \<Rightarrow> (bool \<times> 't) \<times> 'db" where
  "soci_select so ty fac obj db =
     (case tableByType ty fac of
        None \<Rightarrow> ((False, obj), db)
      | Some td \<Rightarrow>
          (case bind_fields td obj (table_keys td) of
             None \<Rightarrow> ((False, obj), db)
           | Some us \<Rightarrow>
               (case exec so (''select '' @ sql_fieldlist td @ '' from '' @ in_backquotes (table td) @ '' WHERE'' @
                    placeholder_equations '' AND '' (table_keys td)) us db of
                  (Inr (row # _), db) \<Rightarrow>
                    (case soci_recordToObject so td row obj of (r, obj) \<Rightarrow> ((r = Some True, obj), db))
                | (_, db) \<Rightarrow> ((False, obj), db))))"

subsection \<open>Loading and deleting many\<close>

text \<open>The loop over the rows; an exception ends it. Whatever happens, the function returns false.\<close>

fun soci_load_loop :: "('d, 'db) soci \<Rightarrow> ('t, ('d, 'o) field_value) TableDescriptor \<Rightarrow> 't \<Rightarrow> ('t \<Rightarrow> 's \<Rightarrow> 's)
    \<Rightarrow> 'd soci_cell list list \<Rightarrow> 's \<Rightarrow> 's" where
  "soci_load_loop so td fresh callback [] s = s"
| "soci_load_loop so td fresh callback (row # more_rows) s =
     (case soci_recordToObject so td row fresh of
        (None, _) \<Rightarrow> s
      | (Some True, obj) \<Rightarrow> soci_load_loop so td fresh callback more_rows (callback obj s)
      | (Some False, _) \<Rightarrow> soci_load_loop so td fresh callback more_rows s)"

definition soci_vloadFromDB :: "('d, 'db) soci \<Rightarrow> string \<Rightarrow> ('t, ('d, 'o) field_value) TableFactory \<Rightarrow> 't \<Rightarrow> ('t \<Rightarrow> 's \<Rightarrow> 's)
    \<Rightarrow> string option \<Rightarrow> 's \<Rightarrow> 'db \<Rightarrow> (bool \<times> 's) \<times> 'db" where
  "soci_vloadFromDB so ty fac fresh callback clause s db =
     (case tableByType ty fac of
        None \<Rightarrow> ((False, s), db)
      | Some td \<Rightarrow>
          (case exec so (''SELECT '' @ sql_fieldlist td @ '' FROM '' @ in_backquotes (table td) @ '' '' @ statement clause) [] db of
             (Inl _, db) \<Rightarrow> ((False, s), db)
           | (Inr res, db) \<Rightarrow> ((False, soci_load_loop so td fresh callback res s), db)))"

definition soci_loadFromDB_callback :: "('d, 'db) soci \<Rightarrow> string \<Rightarrow> ('t, ('d, 'o) field_value) TableFactory \<Rightarrow> 't \<Rightarrow> ('t \<Rightarrow> 's \<Rightarrow> 's)
    \<Rightarrow> string option \<Rightarrow> 's \<Rightarrow> 'db \<Rightarrow> (bool \<times> 's) \<times> 'db" where
  "soci_loadFromDB_callback so ty fac fresh callback clause s db = soci_vloadFromDB so ty fac fresh callback clause s db"

definition soci_loadFromDB :: "('d, 'db) soci \<Rightarrow> string \<Rightarrow> ('t, ('d, 'o) field_value) TableFactory \<Rightarrow> 't
    \<Rightarrow> string option \<Rightarrow> 't list \<Rightarrow> 'db \<Rightarrow> (bool \<times> 't list) \<times> 'db" where
  "soci_loadFromDB so ty fac fresh clause records db = soci_vloadFromDB so ty fac fresh (\<lambda>r rs. rs @ [r]) clause records db"

definition soci_loadFromDB_set :: "('t \<Rightarrow> 's \<Rightarrow> 's) \<Rightarrow> ('d, 'db) soci \<Rightarrow> string \<Rightarrow> ('t, ('d, 'o) field_value) TableFactory \<Rightarrow> 't
    \<Rightarrow> string option \<Rightarrow> 's \<Rightarrow> 'db \<Rightarrow> (bool \<times> 's) \<times> 'db" where
  "soci_loadFromDB_set ins so ty fac fresh clause records db = soci_vloadFromDB so ty fac fresh ins clause records db"

definition soci_loadFromDB2MultiIndexSet :: "('t \<Rightarrow> 's \<Rightarrow> 's) \<Rightarrow> ('d, 'db) soci \<Rightarrow> string \<Rightarrow> ('t, ('d, 'o) field_value) TableFactory \<Rightarrow> 't
    \<Rightarrow> string option \<Rightarrow> 's \<Rightarrow> 'db \<Rightarrow> (bool \<times> 's) \<times> 'db" where
  "soci_loadFromDB2MultiIndexSet ins so ty fac fresh clause records db = soci_vloadFromDB so ty fac fresh ins clause records db"

definition soci_deleteFromDB :: "('d, 'db) soci \<Rightarrow> string \<Rightarrow> ('t, ('d, 'o) field_value) TableFactory \<Rightarrow> string option \<Rightarrow> 'db \<Rightarrow> bool \<times> 'db" where
  "soci_deleteFromDB so ty fac clause db =
     (case tableByType ty fac of
        None \<Rightarrow> (False, db)
      | Some td \<Rightarrow> run_bound so (''DELETE FROM '' @ in_backquotes (table td) @ '' '' @ statement clause) (Some []) db)"

subsection \<open>The structure of tables\<close>

definition soci_createTable :: "('d, 'db) soci \<Rightarrow> ('t, 'v) TableDescriptor \<Rightarrow> 'db \<Rightarrow> bool \<times> 'db" where
  "soci_createTable so td db = run_bound so (sql_create td) (Some []) db"

definition soci_dropTable :: "('d, 'db) soci \<Rightarrow> ('t, 'v) TableDescriptor \<Rightarrow> 'db \<Rightarrow> bool \<times> 'db" where
  "soci_dropTable so td db = run_bound so (sql_drop td) (Some []) db"

text \<open>The first cells of rows, \<open>None\<close> when one of them is not a text; those before it.\<close>

definition first_cell :: "'d soci_cell list \<Rightarrow> string option" where
  "first_cell row = (case row of [] \<Rightarrow> None | c # _ \<Rightarrow> get_string c)"

fun soci_add_fields :: "('d, 'db) soci \<Rightarrow> ('t, 'v) TableDescriptor \<Rightarrow> string set \<Rightarrow> FieldDescriptor list \<Rightarrow> 'db \<Rightarrow> bool \<times> 'db" where
  "soci_add_fields so td fields_db [] db = (True, db)"
| "soci_add_fields so td fields_db (fd # fds) db =
     (if fd_name fd \<in> fields_db then soci_add_fields so td fields_db fds db
      else (case exec so (sql_addfield (fd_name fd) td) [] db of
              (Inl _, db) \<Rightarrow> (False, db)
            | (Inr _, db) \<Rightarrow> soci_add_fields so td fields_db fds db))"

definition soci_updateExistTable :: "('d, 'db) soci \<Rightarrow> ('t, 'v) TableDescriptor \<Rightarrow> 'db \<Rightarrow> bool \<times> 'db" where
  "soci_updateExistTable so td db =
     (case exec so (''DESC '' @ in_backquotes (table td)) [] db of
        (Inl _, db) \<Rightarrow> (False, db)
      | (Inr res, db) \<Rightarrow>
          (case those (map first_cell res) of
             None \<Rightarrow> (False, db)
           | Some names \<Rightarrow> soci_add_fields so td (set names) (fields_ordered td) db))"

definition soci_updateTable :: "('d, 'db) soci \<Rightarrow> ('t, 'v) TableDescriptor \<Rightarrow> 'db \<Rightarrow> bool \<times> 'db" where
  "soci_updateTable so td db =
     (case exec so (''SHOW TABLES LIKE '' @ [CHR 0x22] @ table td @ [CHR 0x22]) [] db of
        (Inl _, db) \<Rightarrow> (False, db)
      | (Inr res, db) \<Rightarrow> if res \<noteq> [] then soci_updateExistTable so td db else soci_createTable so td db)"

definition soci_createTableByType :: "('d, 'db) soci \<Rightarrow> string \<Rightarrow> ('t, 'v) TableFactory \<Rightarrow> 'db \<Rightarrow> bool \<times> 'db" where
  "soci_createTableByType so ty fac = by_descriptor (soci_createTable so) (tableByType ty fac)"

definition soci_createTableByName :: "('d, 'db) soci \<Rightarrow> string \<Rightarrow> ('t, 'v) TableFactory \<Rightarrow> 'db \<Rightarrow> bool \<times> 'db" where
  "soci_createTableByName so name fac = by_descriptor (soci_createTable so) (tableByName name fac)"

definition soci_dropTableByType :: "('d, 'db) soci \<Rightarrow> string \<Rightarrow> ('t, 'v) TableFactory \<Rightarrow> 'db \<Rightarrow> bool \<times> 'db" where
  "soci_dropTableByType so ty fac = by_descriptor (soci_dropTable so) (tableByType ty fac)"

definition soci_dropTableByName :: "('d, 'db) soci \<Rightarrow> string \<Rightarrow> ('t, 'v) TableFactory \<Rightarrow> 'db \<Rightarrow> bool \<times> 'db" where
  "soci_dropTableByName so name fac = by_descriptor (soci_dropTable so) (tableByName name fac)"

definition soci_updateTableByType :: "('d, 'db) soci \<Rightarrow> string \<Rightarrow> ('t, 'v) TableFactory \<Rightarrow> 'db \<Rightarrow> bool \<times> 'db" where
  "soci_updateTableByType so ty fac = by_descriptor (soci_updateTable so) (tableByType ty fac)"

definition soci_updateTableByName :: "('d, 'db) soci \<Rightarrow> string \<Rightarrow> ('t, 'v) TableFactory \<Rightarrow> 'db \<Rightarrow> bool \<times> 'db" where
  "soci_updateTableByName so name fac = by_descriptor (soci_updateTable so) (tableByName name fac)"

definition soci_showTables :: "('d, 'db) soci \<Rightarrow> string set \<Rightarrow> 'db \<Rightarrow> (bool \<times> string set) \<times> 'db" where
  "soci_showTables so tabs db =
     (case exec so ''SHOW TABLES'' [] db of
        (Inl _, db) \<Rightarrow> ((False, tabs), db)
      | (Inr res, db) \<Rightarrow>
          ((None \<notin> set (map first_cell res),
            tabs \<union> (\<lambda>row. upper (the (first_cell row))) ` set (takeWhile (\<lambda>row. first_cell row \<noteq> None) res)), db))"

fun soci_update_loop :: "('d, 'db) soci \<Rightarrow> ('t, 'v) TableFactory \<Rightarrow> string set
    \<Rightarrow> (string \<times> ('t, 'v) TableDescriptor) list \<Rightarrow> 'db \<Rightarrow> 'db" where
  "soci_update_loop so fac tabs [] db = db"
| "soci_update_loop so fac tabs ((_, td) # tds) db =
     soci_update_loop so fac tabs tds
       (snd (if table td \<notin> tabs then soci_createTableByName so (table td) fac db else soci_updateExistTable so td db))"

definition soci_updateTables :: "('d, 'db) soci \<Rightarrow> ('t, 'v) TableFactory \<Rightarrow> 'db \<Rightarrow> bool \<times> 'db" where
  "soci_updateTables so fac db =
     (case soci_showTables so {} db of
        ((True, tabs), db) \<Rightarrow> (True, soci_update_loop so fac tabs (tables fac) db)
      | ((False, _), db) \<Rightarrow> (False, db))"

end
