(* ===== verification/Orm_Soci_Theorems.thy ===== *)
theory Orm_Soci_Theorems
  imports Orm_Soci Orm_Theorems
begin

text \<open>
  What \<open>TinySociORM\<close> does to the database: the placeholders of its statements take the members they
  are meant to, so that it writes what \<open>TinyMySqlORM\<close> writes and reads what was stored; its loading
  of many objects works, but reports a failure.

  The locale \<open>soci_class\<close> extends the contract of a class by what this mapping asks of it besides.
\<close>

subsection \<open>What is relied on\<close>

text \<open>
  SOCI puts the values, in their order, in the places of the names behind the colons. The words of
  a statement mean the same in small letters.
\<close>

definition name_char :: "char \<Rightarrow> bool" where
  "name_char c \<longleftrightarrow> c \<in> set ''ABCDEFGHIJKLMNOPQRSTUVWXYZabcdefghijklmnopqrstuvwxyz0123456789_''"

fun bind_tokens :: "literal list \<Rightarrow> token list \<Rightarrow> token list option"
  and bind_place :: "literal list \<Rightarrow> token list \<Rightarrow> token list option" where
  "bind_tokens ls [] = (if ls = [] then Some [] else None)"
| "bind_tokens ls (Word w # ts) = map_option (Cons (Word (upper w))) (bind_tokens ls ts)"
| "bind_tokens ls (Ident n # ts) = (if CHR '':'' \<in> set n then None else map_option (Cons (Ident n)) (bind_tokens ls ts))"
| "bind_tokens ls (Str s # ts) = (if CHR '':'' \<in> set s then None else map_option (Cons (Str s)) (bind_tokens ls ts))"
| "bind_tokens ls (Sym c # ts) = (if c = CHR '':'' then bind_place ls ts else map_option (Cons (Sym c)) (bind_tokens ls ts))"
| "bind_place (l # ls) (Word n # ts) =
     (if list_all name_char n then map_option (Cons (literal_token l)) (bind_tokens ls ts) else None)"
| "bind_place _ _ = None"

fun use_literal :: "('d \<Rightarrow> string) \<Rightarrow> 'd use_value \<Rightarrow> literal" where
  "use_literal sh (UseInt i) = Num (int_decimal i)"
| "use_literal sh (UseLongLong i) = Num (int_decimal i)"
| "use_literal sh (UseULongLong i) = Num (int_decimal i)"
| "use_literal sh (UseDouble x) = Num (sh x)"
| "use_literal sh (UseText bs) = Txt (text_of bs)"

fun typed_cell :: "(string \<Rightarrow> 'd) \<Rightarrow> sql_type \<Rightarrow> string \<Rightarrow> 'd soci_value" where
  "typed_cell rd (Tinyint _) s = CInt (int_val s)"
| "typed_cell rd (Smallint _) s = CInt (int_val s)"
| "typed_cell rd (Integer u) s = (if u then CLongLong (int_val s) else CInt (int_val s))"
| "typed_cell rd (Bigint u) s = (if u then CULongLong (int_val s) else CLongLong (int_val s))"
| "typed_cell rd Bool s = CInt (int_val s)"
| "typed_cell rd Float s = CDouble (rd s)"
| "typed_cell rd Double s = CDouble (rd s)"
| "typed_cell rd _ s = CText s"

fun soci_rows :: "(string \<Rightarrow> 'd) \<Rightarrow> stmt \<Rightarrow> sql_db \<Rightarrow> cell list list \<Rightarrow> 'd soci_cell list list" where
  "soci_rows rd (Select cols tab _ _) db rs =
     map (map2 (\<lambda>n. map_option (typed_cell rd (case map_of db tab of Some T \<Rightarrow> column_type T n | None \<Rightarrow> Text))) cols) rs"
| "soci_rows rd _ db rs = map (map (map_option CText)) rs"

text \<open>A bound text is at most twice as long in the statement, and in quotes.\<close>

definition bound_size :: "('d \<Rightarrow> string) \<Rightarrow> string \<Rightarrow> 'd use_value list \<Rightarrow> nat" where
  "bound_size sh text uses = length text + sum_list (map (\<lambda>u. 2 * length (literal_text (use_literal sh u)) + 2) uses)"

definition soci_ok :: "rules \<Rightarrow> nat \<Rightarrow> ('d \<Rightarrow> string) \<Rightarrow> (string \<Rightarrow> 'd) \<Rightarrow> ('d, sql_db) soci \<Rightarrow> bool" where
  "soci_ok ru packet sh rd so \<longleftrightarrow>
     (\<forall>text uses ts stmt db. scan text = Some ts \<and> bind_tokens (map (use_literal sh) uses) ts = Some (stmt_tokens stmt) \<and>
        complete stmt \<and> good_stmt ru stmt db \<and> bound_size sh text uses < packet \<longrightarrow>
        (\<exists>out. sql_answers ru stmt db out \<and> exec so text uses db = (case out of
            (Inl e, db') \<Rightarrow> (Inl e, db')
          | (Inr rs, db') \<Rightarrow> (Inr (soci_rows rd stmt db rs), db'))))"

text \<open>
  How SOCI prints a floating-point number (\<open>sh\<close>) is not how MySQL++ prints it: what is written is the same for
  classes without such members.
\<close>

definition no_reals :: "('t, 'v) TableDescriptor \<Rightarrow> bool" where
  "no_reals td \<longleftrightarrow> list_all (\<lambda>fd. \<not> is_real (fd_sql_type fd)) (fields_ordered td)"

definition soci_names :: "('t, 'v) TableDescriptor \<Rightarrow> bool" where
  "soci_names td \<longleftrightarrow> CHR '':'' \<notin> set (table td) \<and>
     list_all (\<lambda>fd. fd_name fd \<noteq> [] \<and> list_all name_char (fd_name fd)) (fields_ordered td)"

subsection \<open>Binding\<close>

definition binds :: "token list \<Rightarrow> literal list \<Rightarrow> token list \<Rightarrow> bool" where
  "binds ts ls us \<longleftrightarrow> (\<forall>ls' rest. bind_tokens (ls @ ls') (ts @ rest) = map_option ((@) us) (bind_tokens ls' rest))"

lemma binds_all: "binds ts ls us \<Longrightarrow> bind_tokens ls ts = Some us"
  unfolding binds_def by (drule spec[of _ "[]"], drule spec[of _ "[]"]) simp

lemma binds_append: "binds ts ls us \<Longrightarrow> binds ts' ls' us' \<Longrightarrow> binds (ts @ ts') (ls @ ls') (us @ us')"
  by (simp add: binds_def map_option_append)

lemma binds_Nil: "binds [] [] []"
  by (simp add: binds_def)

lemma binds_token:
  "upper w = w' \<Longrightarrow> binds [Word w] [] [Word w']" "CHR '':'' \<notin> set n \<Longrightarrow> binds [Ident n] [] [Ident n]"
  "c \<noteq> CHR '':'' \<Longrightarrow> binds [Sym c] [] [Sym c]"
  "list_all name_char n \<Longrightarrow> binds [Sym (CHR '':''), Word n] [l] [literal_token l]"
  by (auto simp: binds_def)

lemma binds_Cons: "binds [t] [] [t'] \<Longrightarrow> binds ts ls us \<Longrightarrow> binds (t # ts) ls (t' # us)"
  using binds_append[of "[t]" "[]" "[t']"] by simp

lemma binds_separated:
  assumes "\<And>x. x \<in> set xs \<Longrightarrow> binds (f x) (ls x) (g x)" "binds [t] [] [t]"
  shows "binds (separated t (map f xs)) (concat (map ls xs)) (separated t (map g xs))"
  using assms(1)
proof (induction xs)
  case (Cons x xs)
  show ?case
  proof (cases xs)
    case (Cons y ys)
    have "binds (f x @ [t] @ separated t (map f xs)) (ls x @ [] @ concat (map ls xs)) (g x @ [t] @ separated t (map g xs))"
      using Cons.prems Cons.IH assms(2) by (intro binds_append) simp_all
    then show ?thesis by (simp add: Cons)
  qed (use Cons.prems in simp)
qed (simp add: binds_Nil)

lemma name_char_word: "name_char c \<Longrightarrow> is_word c \<and> c \<noteq> CHR '':''"
  by (auto simp: name_char_def is_word_def)

lemma lexes_placeholder:
  assumes "n \<noteq> []" "list_all name_char n"
  shows "lexes ('':'' @ n) [Sym (CHR '':''), Word n]"
    and "backquote \<notin> set n \<Longrightarrow> lexes (in_backquotes n @ ''=:'' @ n) [Ident n, Sym (CHR ''=''), Sym (CHR '':''), Word n]"
proof -
  have w: "lexes n [Word n]" using assms name_char_word by (intro lexes_word) (auto simp: list_all_iff)
  have "closed '':'' [Sym (CHR '':'')]" by (simp add: closed_def scan.simps is_word_def special_chars)
  from closed_lexes_append[OF this w] show "lexes ('':'' @ n) [Sym (CHR '':''), Word n]" by simp
  assume "backquote \<notin> set n"
  then have "lexes (in_backquotes n) [Ident n]" by (rule lexes_ident)
  moreover have "closed ''=:'' [Sym (CHR ''=''), Sym (CHR '':'')]"
    by (simp add: closed_def scan.simps is_word_def special_chars map_option_Cons)
  moreover have "separates ''=:''" by (simp add: separates_def is_word_def special_chars)
  ultimately have "closed (in_backquotes n @ ''=:'') [Ident n, Sym (CHR ''=''), Sym (CHR '':'')]"
    using lexes_append_closed by fastforce
  from closed_lexes_append[OF this w] show "lexes (in_backquotes n @ ''=:'' @ n) [Ident n, Sym (CHR ''=''), Sym (CHR '':''), Word n]"
    by simp
qed

text \<open>The templates of names, of values and of equations, with what they are bound to.\<close>

lemma fields_named:
  assumes "soci_names td" "plain_table td" "fd \<in> set (fields_ordered td)"
  shows "fd_name fd \<noteq> []" "list_all name_char (fd_name fd)" "backquote \<notin> set (fd_name fd)" "CHR '':'' \<notin> set (fd_name fd)"
proof -
  show n: "fd_name fd \<noteq> []" "list_all name_char (fd_name fd)" using assms(1,3) by (auto simp: soci_names_def list_all_iff)
  show "backquote \<notin> set (fd_name fd)" using assms(2,3) by (auto simp: plain_table_def plain_field_def list_all_iff)
  show "CHR '':'' \<notin> set (fd_name fd)" using n(2) name_char_word by (auto simp: list_all_iff)
qed

lemma binds_comma: "binds [comma] [] [comma]"
  by (simp add: comma_def binds_token(3))

lemma names_template:
  assumes "soci_names td" "plain_table td"
  shows "lexes (sql_fieldlist td) (idents_tokens (map fd_name (fields_ordered td)))"
    "binds (idents_tokens (map fd_name (fields_ordered td))) [] (idents_tokens (map fd_name (fields_ordered td)))"
proof -
  show "lexes (sql_fieldlist td) (idents_tokens (map fd_name (fields_ordered td)))"
    using assms(2) by (simp add: sql_fieldlist_def plain_table_def lexes_names)
  have "binds (separated comma (map (\<lambda>fd. [Ident (fd_name fd)]) (fields_ordered td))) (concat (map (\<lambda>_. []) (fields_ordered td)))
      (separated comma (map (\<lambda>fd. [Ident (fd_name fd)]) (fields_ordered td)))"
    using fields_named(4)[OF assms] by (intro binds_separated binds_token(2) binds_comma) auto
  then show "binds (idents_tokens (map fd_name (fields_ordered td))) [] (idents_tokens (map fd_name (fields_ordered td)))"
    by (simp add: idents_tokens_def comp_def map_replicate_const)
qed

lemma values_template:
  assumes "soci_names td" "plain_table td"
  shows "lexes (sql_fieldlist2 td) (separated comma (map (\<lambda>fd. [Sym (CHR '':''), Word (fd_name fd)]) (fields_ordered td)))"
    "binds (separated comma (map (\<lambda>fd. [Sym (CHR '':''), Word (fd_name fd)]) (fields_ordered td))) (map l (fields_ordered td))
      (separated comma (map (\<lambda>l. [literal_token l]) (map l (fields_ordered td))))"
proof -
  show "lexes (sql_fieldlist2 td) (separated comma (map (\<lambda>fd. [Sym (CHR '':''), Word (fd_name fd)]) (fields_ordered td)))"
    unfolding sql_fieldlist2_def using fields_named[OF assms] by (intro lexes_joined lexes_placeholder(1) closed_constant(11)) simp_all
  have c: "concat (map (\<lambda>fd. [l fd]) fds) = map l fds" for fds by (induction fds) simp_all
  have "binds (separated comma (map (\<lambda>fd. [Sym (CHR '':''), Word (fd_name fd)]) (fields_ordered td))) (concat (map (\<lambda>fd. [l fd]) (fields_ordered td)))
      (separated comma (map (\<lambda>fd. [literal_token (l fd)]) (fields_ordered td)))"
    using fields_named(2)[OF assms] by (intro binds_separated binds_token(4) binds_comma) simp_all
  then show "binds (separated comma (map (\<lambda>fd. [Sym (CHR '':''), Word (fd_name fd)]) (fields_ordered td))) (map l (fields_ordered td))
      (separated comma (map (\<lambda>l. [literal_token l]) (map l (fields_ordered td))))"
    by (simp add: c comp_def)
qed

definition eq_template :: "FieldDescriptor \<Rightarrow> token list" where
  "eq_template fd = [Ident (fd_name fd), Sym (CHR ''=''), Sym (CHR '':''), Word (fd_name fd)]"

lemma equations_template:
  assumes "soci_names td" "plain_table td" "set fds \<subseteq> set (fields_ordered td)"
    and "closed sep [t]" "separates sep" "sep \<noteq> []" "binds [t] [] [t]"
  shows "lexes (placeholder_equations sep fds) (separated t (map eq_template fds))"
    "binds (separated t (map eq_template fds)) (map l fds) (separated t (map equation_tokens (map (\<lambda>fd. (fd_name fd, l fd)) fds)))"
proof -
  have n: "fd_name fd \<noteq> []" "list_all name_char (fd_name fd)" "backquote \<notin> set (fd_name fd)" "CHR '':'' \<notin> set (fd_name fd)"
    if "fd \<in> set fds" for fd using fields_named[OF assms(1,2)] that assms(3) by blast+
  show "lexes (placeholder_equations sep fds) (separated t (map eq_template fds))"
    unfolding placeholder_equations_def using lexes_placeholder(2)[OF n(1-3)]
    by (intro lexes_joined assms(4-6)) (simp add: eq_template_def)
  have "binds (eq_template fd) [l fd] (equation_tokens (fd_name fd, l fd))" if "fd \<in> set fds" for fd
    unfolding eq_template_def equation_tokens.simps
    using n[OF that] by (intro binds_Cons[OF binds_token(2)] binds_Cons[OF binds_token(3)] binds_token(4)) simp_all
  then have "binds (separated t (map eq_template fds)) (concat (map (\<lambda>fd. [l fd]) fds)) (separated t (map (\<lambda>fd. equation_tokens (fd_name fd, l fd)) fds))"
    by (intro binds_separated assms(7))
  moreover have "concat (map (\<lambda>fd. [l fd]) fds) = map l fds" by (induction fds) simp_all
  ultimately show "binds (separated t (map eq_template fds)) (map l fds) (separated t (map equation_tokens (map (\<lambda>fd. (fd_name fd, l fd)) fds)))"
    by (simp add: comp_def)
qed

subsection \<open>The statements\<close>

lemma binds_words:
  "binds [Word ''INSERT''] [] [Word ''INSERT'']" "binds [Word ''REPLACE''] [] [Word ''REPLACE'']" "binds [Word ''INTO''] [] [Word ''INTO'']"
  "binds [Word ''VALUES''] [] [Word ''VALUES'']" "binds [Word ''select''] [] [Word ''SELECT'']" "binds [Word ''from''] [] [Word ''FROM'']"
  "binds [Word ''SELECT''] [] [Word ''SELECT'']" "binds [Word ''FROM''] [] [Word ''FROM'']"
  "binds [Word ''WHERE''] [] [Word ''WHERE'']" "binds [Word ''AND''] [] [Word ''AND'']" "binds [Word ''UPDATE''] [] [Word ''UPDATE'']"
  "binds [Word ''SET''] [] [Word ''SET'']" "binds [Word ''DELETE''] [] [Word ''DELETE'']"
  "binds [Sym (CHR ''('')] [] [Sym (CHR ''('')]" "binds [Sym (CHR '')'')] [] [Sym (CHR '')'')]"
  by (rule binds_token(1,3); simp add: upper_def char_of_def bit_Suc_0_iff less_eq_char_def)+

lemma insert_template:
  assumes "soci_names td" "plain_table td"
  shows "\<exists>ts. scan ((if r then ''REPLACE INTO '' else ''INSERT INTO '') @ in_backquotes (table td) @ ''('' @ sql_fieldlist td @ '')'' @
      '' VALUES ('' @ sql_fieldlist2 td @ '')'') = Some ts \<and>
    bind_tokens (map l (fields_ordered td)) ts = Some (stmt_tokens (Insert r (table td) (map fd_name (fields_ordered td)) (map l (fields_ordered td))))"
proof -
  have p: "backquote \<notin> set (table td)" "CHR '':'' \<notin> set (table td)" using assms by (simp_all add: plain_table_def soci_names_def)
  let ?ns = "idents_tokens (map fd_name (fields_ordered td))"
  let ?vs = "separated comma (map (\<lambda>fd. [Sym (CHR '':''), Word (fd_name fd)]) (fields_ordered td))"
  let ?ts = "Ident (table td) # Sym (CHR ''('') # ?ns @ Sym (CHR '')'') # Word ''VALUES'' # Sym (CHR ''('') # ?vs @ [Sym (CHR '')'')]"
  have "closed (in_backquotes (table td) @ ''('' @ sql_fieldlist td @ '')'' @ '' VALUES ('' @ sql_fieldlist2 td @ '')'') ?ts"
    using closed_append[OF lexes_then[OF lexes_ident[OF p(1)] closed_query(6)] closed_append[OF closed_bracket[OF names_template(1)[OF assms]]
      closed_append[OF closed_query(8) closed_bracket[OF values_template(1)[OF assms]]]]]
    by simp
  from closed_append[OF closed_query(4) this] closed_append[OF closed_query(5) this]
  have "scan ((if r then ''REPLACE INTO '' else ''INSERT INTO '') @ in_backquotes (table td) @ ''('' @ sql_fieldlist td @ '')'' @
      '' VALUES ('' @ sql_fieldlist2 td @ '')'') = Some (Word (if r then ''REPLACE'' else ''INSERT'') # Word ''INTO'' # ?ts)"
    by (auto intro!: lexes_lex closed_lexes)
  moreover have "binds (?ns @ Sym (CHR '')'') # Word ''VALUES'' # Sym (CHR ''('') # ?vs @ [Sym (CHR '')'')]) (map l (fields_ordered td))
      (?ns @ Sym (CHR '')'') # Word ''VALUES'' # Sym (CHR ''('') # separated comma (map (\<lambda>l. [literal_token l]) (map l (fields_ordered td))) @ [Sym (CHR '')'')])"
    using binds_append[OF names_template(2)[OF assms] binds_Cons[OF binds_words(15) binds_Cons[OF binds_words(4) binds_Cons[OF binds_words(14)
      binds_append[OF values_template(2)[OF assms] binds_words(15)]]]]] by simp
  then have "binds (Word (if r then ''REPLACE'' else ''INSERT'') # Word ''INTO'' # ?ts) (map l (fields_ordered td))
      (stmt_tokens (Insert r (table td) (map fd_name (fields_ordered td)) (map l (fields_ordered td))))"
    using binds_words(1,2) p(2)
    by (cases r) (simp_all add: binds_Cons[OF binds_words(1)] binds_Cons[OF binds_words(2)] binds_Cons[OF binds_words(3)]
      binds_Cons[OF binds_token(2)] binds_Cons[OF binds_words(14)])
  ultimately show ?thesis using binds_all by blast
qed

lemmas keys_template = equations_template[OF _ _ _ closed_query(12) _ _ binds_words(10)]

lemma scan_where:
  assumes "rest \<noteq> []" "\<not> is_word (hd rest)"
  shows "scan ('' WHERE'' @ rest) = map_option (Cons (Word ''WHERE'')) (scan rest)"
proof -
  have "takeWhile is_word rest = []" "dropWhile is_word rest = rest" using assms by (cases rest; simp)+
  then show ?thesis by (simp add: scan.simps(2) is_word_def special_chars)
qed

lemma lexes_where:
  assumes "lexes s ts" "s \<noteq> []" "hd s = backquote"
  shows "lexes ('' WHERE'' @ s) (Word ''WHERE'' # ts)"
  using assms scan_where[of "s @ rest" for rest]
  by (auto simp: lexes_def map_option_Cons is_word_def special_chars)

text \<open>A condition on the keys, as three of the statements end.\<close>

lemma condition_template:
  assumes "soci_names td" "plain_table td" "set (table_keys td) \<subseteq> set (fields_ordered td)" "table_keys td \<noteq> []"
  shows "lexes ('' WHERE'' @ placeholder_equations '' AND '' (table_keys td)) (Word ''WHERE'' # separated (Word ''AND'') (map eq_template (table_keys td)))"
    "lexes ('' WHERE '' @ placeholder_equations '' AND '' (table_keys td)) (Word ''WHERE'' # separated (Word ''AND'') (map eq_template (table_keys td)))"
    "binds (Word ''WHERE'' # separated (Word ''AND'') (map eq_template (table_keys td))) (map l (table_keys td))
       (where_tokens (Some (map (\<lambda>fd. (fd_name fd, l fd)) (table_keys td))))"
proof -
  note k = keys_template[OF assms(1-3)]
  have e: "lexes (placeholder_equations '' AND '' (table_keys td)) (separated (Word ''AND'') (map eq_template (table_keys td)))"
    using k(1) by simp
  obtain fd fds where ks: "table_keys td = fd # fds" using assms(4) by (cases "table_keys td") auto
  have "placeholder_equations '' AND '' (table_keys td) \<noteq> [] \<and> hd (placeholder_equations '' AND '' (table_keys td)) = backquote"
    by (cases fds) (simp_all add: ks placeholder_equations_def in_backquotes_def backquote_def)
  then show "lexes ('' WHERE'' @ placeholder_equations '' AND '' (table_keys td)) (Word ''WHERE'' # separated (Word ''AND'') (map eq_template (table_keys td)))"
    using lexes_where[OF e] by blast
  show "lexes ('' WHERE '' @ placeholder_equations '' AND '' (table_keys td)) (Word ''WHERE'' # separated (Word ''AND'') (map eq_template (table_keys td)))"
    using closed_lexes_append[OF closed_query(3) e] by simp
  show "binds (Word ''WHERE'' # separated (Word ''AND'') (map eq_template (table_keys td))) (map l (table_keys td))
       (where_tokens (Some (map (\<lambda>fd. (fd_name fd, l fd)) (table_keys td))))"
    using binds_Cons[OF binds_words(9) k(2), of l] by simp
qed

lemma select_template:
  assumes "soci_names td" "plain_table td" "set (table_keys td) \<subseteq> set (fields_ordered td)" "table_keys td \<noteq> []"
  shows "\<exists>ts. scan (''select '' @ sql_fieldlist td @ '' from '' @ in_backquotes (table td) @ '' WHERE'' @
      placeholder_equations '' AND '' (table_keys td)) = Some ts \<and>
    bind_tokens (map l (table_keys td)) ts =
      Some (stmt_tokens (Select (map fd_name (fields_ordered td)) (table td) (Some (map (\<lambda>fd. (fd_name fd, l fd)) (table_keys td))) False))"
proof -
  have p: "backquote \<notin> set (table td)" "CHR '':'' \<notin> set (table td)" using assms by (simp_all add: plain_table_def soci_names_def)
  note c = condition_template[OF assms]
  let ?ns = "idents_tokens (map fd_name (fields_ordered td))"
  have w: "closed ''select '' [Word ''select'']" "closed '' from '' [Word ''from'']"
    by (simp_all add: closed_def scan.simps is_word_def special_chars map_option_Cons)
  have "lexes (in_backquotes (table td) @ '' WHERE'' @ placeholder_equations '' AND '' (table_keys td))
      (Ident (table td) # Word ''WHERE'' # separated (Word ''AND'') (map eq_template (table_keys td)))"
    using lexes_append[OF lexes_ident[OF p(1)] _ c(1)] by simp
  from closed_lexes_append[OF w(1) closed_lexes_append[OF lexes_then[OF names_template(1)[OF assms(1,2)] w(2)] this]]
  have "scan (''select '' @ sql_fieldlist td @ '' from '' @ in_backquotes (table td) @ '' WHERE'' @ placeholder_equations '' AND '' (table_keys td)) =
      Some (Word ''select'' # ?ns @ Word ''from'' # Ident (table td) # Word ''WHERE'' # separated (Word ''AND'') (map eq_template (table_keys td)))"
    by (auto intro!: lexes_lex)
  moreover from binds_Cons[OF binds_words(5) binds_append[OF names_template(2)[OF assms(1,2)] binds_Cons[OF binds_words(6) binds_Cons[OF binds_token(2)[OF p(2)] c(3)[of l]]]]]
  have "bind_tokens (map l (table_keys td)) (Word ''select'' # ?ns @ Word ''from'' # Ident (table td) # Word ''WHERE'' # separated (Word ''AND'') (map eq_template (table_keys td))) =
      Some (stmt_tokens (Select (map fd_name (fields_ordered td)) (table td) (Some (map (\<lambda>fd. (fd_name fd, l fd)) (table_keys td))) False))"
    by (intro binds_all) simp
  ultimately show ?thesis by blast
qed

lemma delete_template:
  assumes "soci_names td" "plain_table td" "set (table_keys td) \<subseteq> set (fields_ordered td)" "table_keys td \<noteq> []"
  shows "\<exists>ts. scan (''DELETE FROM '' @ in_backquotes (table td) @ '' WHERE '' @ placeholder_equations '' AND '' (table_keys td)) = Some ts \<and>
    bind_tokens (map l (table_keys td)) ts = Some (stmt_tokens (Delete (table td) (Some (map (\<lambda>fd. (fd_name fd, l fd)) (table_keys td)))))"
proof -
  have p: "backquote \<notin> set (table td)" "CHR '':'' \<notin> set (table td)" using assms by (simp_all add: plain_table_def soci_names_def)
  note c = condition_template[OF assms]
  have "lexes (in_backquotes (table td) @ '' WHERE '' @ placeholder_equations '' AND '' (table_keys td))
      (Ident (table td) # Word ''WHERE'' # separated (Word ''AND'') (map eq_template (table_keys td)))"
    using lexes_append[OF lexes_ident[OF p(1)] _ c(2)] by simp
  from closed_lexes_append[OF closed_query(11) this]
  have "scan (''DELETE FROM '' @ in_backquotes (table td) @ '' WHERE '' @ placeholder_equations '' AND '' (table_keys td)) =
      Some (Word ''DELETE'' # Word ''FROM'' # Ident (table td) # Word ''WHERE'' # separated (Word ''AND'') (map eq_template (table_keys td)))"
    by (auto intro!: lexes_lex)
  moreover from binds_Cons[OF binds_words(13) binds_Cons[OF binds_words(8) binds_Cons[OF binds_token(2)[OF p(2)] c(3)[of l]]]]
  have "bind_tokens (map l (table_keys td)) (Word ''DELETE'' # Word ''FROM'' # Ident (table td) # Word ''WHERE'' # separated (Word ''AND'') (map eq_template (table_keys td))) =
      Some (stmt_tokens (Delete (table td) (Some (map (\<lambda>fd. (fd_name fd, l fd)) (table_keys td)))))"
    by (intro binds_all) simp
  ultimately show ?thesis by blast
qed

lemma update_template:
  assumes "soci_names td" "plain_table td" "set (table_keys td) \<subseteq> set (fields_ordered td)" "table_keys td \<noteq> []"
  shows "\<exists>ts. scan (''UPDATE '' @ in_backquotes (table td) @ '' SET '' @ placeholder_equations '','' (fields_ordered td) @
      '' WHERE '' @ placeholder_equations '' AND '' (table_keys td)) = Some ts \<and>
    bind_tokens (map l (fields_ordered td) @ map l (table_keys td)) ts =
      Some (stmt_tokens (Update (table td) (map (\<lambda>fd. (fd_name fd, l fd)) (fields_ordered td)) (map (\<lambda>fd. (fd_name fd, l fd)) (table_keys td))))"
proof -
  have p: "backquote \<notin> set (table td)" "CHR '':'' \<notin> set (table td)" using assms by (simp_all add: plain_table_def soci_names_def)
  note c = condition_template[OF assms]
  have e: "lexes (placeholder_equations '','' (fields_ordered td)) (separated comma (map eq_template (fields_ordered td)))"
    "binds (separated comma (map eq_template (fields_ordered td))) (map l (fields_ordered td))
       (separated comma (map equation_tokens (map (\<lambda>fd. (fd_name fd, l fd)) (fields_ordered td))))"
    using equations_template[OF assms(1,2) subset_refl closed_constant(11) _ _ binds_comma] by simp_all
  let ?ts = "Word ''UPDATE'' # Ident (table td) # Word ''SET'' # separated comma (map eq_template (fields_ordered td)) @
      Word ''WHERE'' # separated (Word ''AND'') (map eq_template (table_keys td))"
  have "lexes (placeholder_equations '','' (fields_ordered td) @ '' WHERE '' @ placeholder_equations '' AND '' (table_keys td))
      (separated comma (map eq_template (fields_ordered td)) @ Word ''WHERE'' # separated (Word ''AND'') (map eq_template (table_keys td)))"
    using lexes_append[OF e(1) _ c(2)] by simp
  from closed_lexes_append[OF closed_query(9) closed_lexes_append[OF lexes_then[OF lexes_ident[OF p(1)] closed_query(10)] this]]
  have "scan (''UPDATE '' @ in_backquotes (table td) @ '' SET '' @ placeholder_equations '','' (fields_ordered td) @
      '' WHERE '' @ placeholder_equations '' AND '' (table_keys td)) = Some ?ts"
    by (auto intro!: lexes_lex)
  moreover from binds_Cons[OF binds_words(11) binds_Cons[OF binds_token(2)[OF p(2)] binds_Cons[OF binds_words(12) binds_append[OF e(2) c(3)[of l]]]]]
  have "bind_tokens (map l (fields_ordered td) @ map l (table_keys td)) ?ts =
      Some (stmt_tokens (Update (table td) (map (\<lambda>fd. (fd_name fd, l fd)) (fields_ordered td)) (map (\<lambda>fd. (fd_name fd, l fd)) (table_keys td))))"
    by (intro binds_all) simp
  ultimately show ?thesis by blast
qed

subsection \<open>The contract of a class\<close>

text \<open>An object member that serializes to nothing is read as well.\<close>

locale soci_class = orm_class td blank storable
  for td :: "('t, ('d::zero, 'o) field_value) TableDescriptor" and blank storable :: "FieldDescriptor \<Rightarrow> 't \<Rightarrow> bool" +
  assumes deserialized_empty: "fd \<in> set (fields_ordered td) \<Longrightarrow> fd_type fd = OBJECT \<Longrightarrow>
      propertyByName (tx (fd_name fd)) (reflection td) = Some p \<Longrightarrow> storable fd obj \<Longrightarrow> prop_serialize p obj = Inr [] \<Longrightarrow>
      blank fd old \<Longrightarrow>
      \<exists>obj'. prop_deserialize p old [] = Inr (True, obj') \<and> member td fd obj' = member td fd obj \<and>
        (\<forall>fd'\<in>set (fields_ordered td). fd_name fd' \<noteq> fd_name fd \<longrightarrow> member td fd' obj' = member td fd' old)"
begin

lemma field_bound:
  assumes "fd \<in> set (fields_ordered td)" "\<not> is_real (fd_sql_type fd)"
  shows "\<exists>u. fieldToStatement td obj fd = Some (Some u) \<and> use_literal sh u = member_literal my td obj fd"
proof (cases "fd_type fd = OBJECT")
  case True
  then obtain p bin where "propertyByName (tx (fd_name fd)) (reflection td) = Some p" "prop_serialize p obj = Inr bin"
    using known serialized assms(1) by blast
  then show ?thesis using True by (simp add: fieldToStatement_def member_literal_def)
next
  case False
  then obtain v where v: "get_member td obj fd = Some v" "has_type (fd_type fd) v" using get_member_typed assms(1) by blast
  have digits: "int_decimal 0 = ''0''" "int_decimal 1 = ''1''"
    by (simp_all add: int_decimal_def decimal.simps char_of_def bit_Suc_0_iff)
  have "fd_type fd \<notin> {FLOAT, DOUBLE}" using assms(2) by (auto simp: fd_sql_type_def is_real_def)
  then show ?thesis using v False digits
    by (cases "fd_type fd"; cases v) (auto simp: fieldToStatement_def member_literal_def has_type_def is_text_def)
qed

lemma fields_bound:
  assumes "set fds \<subseteq> set (fields_ordered td)" "\<And>fd. fd \<in> set fds \<Longrightarrow> \<not> is_real (fd_sql_type fd)"
  shows "\<exists>us. bind_fields td obj fds = Some us \<and> map (use_literal sh) us = map (member_literal my td obj) fds"
  using assms
proof (induction fds)
  case (Cons fd fds)
  then obtain us where "bind_fields td obj fds = Some us" "map (use_literal sh) us = map (member_literal my td obj) fds" by auto
  moreover obtain u where "fieldToStatement td obj fd = Some (Some u)" "use_literal sh u = member_literal my td obj fd"
    using field_bound[of fd obj sh my] Cons.prems by auto
  ultimately show ?case by simp
qed simp

lemma all_bound:
  assumes "no_reals td"
  shows "\<exists>us. bind_fields td obj (fields_ordered td) = Some us \<and> map (use_literal sh) us = map (member_literal my td obj) (fields_ordered td)"
  using assms by (intro fields_bound subset_refl) (simp add: no_reals_def list_all_iff)

lemma keys_bound:
  assumes "orm_db my ru packet ty fac td T db"
  shows "\<exists>us. bind_fields td obj (table_keys td) = Some us \<and> map (use_literal sh) us = map (member_literal my td obj) (table_keys td)"
  using orm_dbD[OF assms] key_field by (intro fields_bound) blast+

end

subsection \<open>The operations\<close>

definition soci_texts :: "('t, 'v) TableDescriptor \<Rightarrow> string list" where
  "soci_texts td =
     [''INSERT INTO '' @ in_backquotes (table td) @ ''('' @ sql_fieldlist td @ '')'' @ '' VALUES ('' @ sql_fieldlist2 td @ '')'',
      ''REPLACE INTO '' @ in_backquotes (table td) @ ''('' @ sql_fieldlist td @ '')'' @ '' VALUES ('' @ sql_fieldlist2 td @ '')'',
      ''UPDATE '' @ in_backquotes (table td) @ '' SET '' @ placeholder_equations '','' (fields_ordered td) @
        '' WHERE '' @ placeholder_equations '' AND '' (table_keys td),
      ''DELETE FROM '' @ in_backquotes (table td) @ '' WHERE '' @ placeholder_equations '' AND '' (table_keys td),
      ''select '' @ sql_fieldlist td @ '' from '' @ in_backquotes (table td) @ '' WHERE'' @ placeholder_equations '' AND '' (table_keys td)]"

text \<open>The statements of an object fit into the packets of the server.\<close>

definition soci_short :: "('d::zero, 'o, 'db) mysqlpp \<Rightarrow> nat \<Rightarrow> ('t, ('d, 'o) field_value) TableDescriptor \<Rightarrow> 't \<Rightarrow> bool" where
  "soci_short my packet td obj \<longleftrightarrow>
     list_all (\<lambda>text. length text + sum_list (map (\<lambda>l. 2 * length (literal_text l) + 2)
       (map (member_literal my td obj) (fields_ordered td @ table_keys td))) < packet) (soci_texts td)"

lemma soci_size:
  assumes "soci_short my packet td obj" "text \<in> set (soci_texts td)"
    and "map (use_literal sh) us = map (member_literal my td obj) fds" "fds \<in> {fields_ordered td, table_keys td, fields_ordered td @ table_keys td}"
  shows "bound_size sh text us < packet"
proof -
  have "sum_list (map (\<lambda>u. 2 * length (literal_text (use_literal sh u)) + 2) us) =
      sum_list (map (\<lambda>l. 2 * length (literal_text l) + 2) (map (use_literal sh) us))" by (simp add: comp_def)
  also have "\<dots> \<le> sum_list (map (\<lambda>l. 2 * length (literal_text l) + 2) (map (member_literal my td obj) (fields_ordered td @ table_keys td)))"
    unfolding assms(3) using assms(4) by auto
  finally show ?thesis using assms(1,2) unfolding soci_short_def bound_size_def list_all_iff by fastforce
qed

lemma soci_run:
  assumes "soci_ok ru packet sh rd so" "scan text = Some ts \<and> bind_tokens ls ts = Some (stmt_tokens stmt)" "map (use_literal sh) us = ls"
    and "complete stmt" "good_stmt ru stmt db" "bound_size sh text us < packet" "\<not> is_query stmt"
  shows "exec so text us db = (case sql_run ru stmt db of (Inl e, db') \<Rightarrow> (Inl e, db') | (Inr rs, db') \<Rightarrow> (Inr (soci_rows rd stmt db rs), db'))"
proof -
  obtain out where "sql_answers ru stmt db out" "exec so text us db = (case out of
      (Inl e, db') \<Rightarrow> (Inl e, db') | (Inr rs, db') \<Rightarrow> (Inr (soci_rows rd stmt db rs), db'))"
    using assms(1-6) unfolding soci_ok_def by blast
  then show ?thesis using assms(7) by (simp add: sql_answers_def)
qed

lemma soci_run_select:
  assumes "soci_ok ru packet sh rd so" "scan text = Some ts \<and> bind_tokens ls ts = Some (stmt_tokens (Select cols tab conds False))"
    and "map (use_literal sh) us = ls" "complete (Select cols tab conds False)" "good_stmt ru (Select cols tab conds False) db"
    and "bound_size sh text us < packet" "map_of db tab = Some T"
  shows "\<exists>rs. mset rs = mset (rows T) \<and>
    exec so text us db = (Inr (soci_rows rd (Select cols tab conds False) db (map (\<lambda>r. map r cols) (filter (matches ru T conds) rs))), db)"
proof -
  obtain out where out: "sql_answers ru (Select cols tab conds False) db out" "exec so text us db = (case out of
      (Inl e, db') \<Rightarrow> (Inl e, db') | (Inr rs, db') \<Rightarrow> (Inr (soci_rows rd (Select cols tab conds False) db rs), db'))"
    using assms(1-6) unfolding soci_ok_def by blast
  then obtain db' where db': "reordered db db'" "out = (fst (sql_run ru (Select cols tab conds False) db'), db)"
    by (auto simp: sql_answers_def)
  obtain rs where rs: "map_of db' tab = Some (T\<lparr>rows := rs\<rparr>)" "mset rs = mset (rows T)"
    using reordered_table(2)[OF db'(1) assms(7)] by blast
  have "column_type (T\<lparr>rows := rs\<rparr>) = column_type T" by (rule ext) (simp add: column_type_def)
  then have "matches ru (T\<lparr>rows := rs\<rparr>) conds = matches ru T conds" by (intro ext) (simp only: matches_def)
  then show ?thesis using out(2) rs unfolding db'(2) by (intro exI[of _ rs]) (simp add: Let_def)
qed

lemma not_queries: "\<not> is_query (insert_stmt b my td obj)" "\<not> is_query (delete_stmt my td obj)" "\<not> is_query (update_stmt my td obj)"
  by (simp_all add: insert_stmt_def delete_stmt_def update_stmt_def)

text \<open>The same statement through both libraries.\<close>

lemma same_run:
  assumes "exec so text us db = (case sql_run ru stmt db of (Inl e, db') \<Rightarrow> (Inl e, db') | (Inr rs, db') \<Rightarrow> (Inr (soci_rows rd stmt db rs), db'))"
    and "execute my s db = (case sql_run ru stmt db of (Inl e, db) \<Rightarrow> (Inl e, db) | (Inr rs, db) \<Rightarrow> (Inr True, db))"
  shows "run_bound so text (Some us) db = run_query my (Some (b, s)) db"
  by (simp add: run_bound_def run_query_def assms split: prod.splits sum.splits)

context soci_class
begin

lemma soci_insert_run:
  assumes db: "orm_db my ru packet ty fac td T db" "no_reals td" and so: "soci_ok ru packet sh rd so" "soci_names td" "soci_short my packet td obj"
    and obj: "storable_in my ru td storable obj" "short_texts my packet ty fac td obj"
  shows "soci_insert so ty fac obj db = insert_obj my ty fac obj db" "soci_replace so ty fac obj db = replace my ty fac obj db"
proof -
  note d = orm_dbD[OF db(1)]
  obtain us where us: "bind_fields td obj (fields_ordered td) = Some us"
      "map (use_literal sh) us = map (member_literal my td obj) (fields_ordered td)"
    using all_bound[OF db(2)] by blast
  obtain s t where s: "makeInsertQuery my ty fac (Some td) obj = Some (True, s)" "scan s = Some (stmt_tokens (insert_stmt False my td obj))"
    and t: "makeReplaceQuery my ty fac (Some td) obj = Some (True, t)" "scan t = Some (stmt_tokens (insert_stmt True my td obj))"
    using insert_text[OF d(1,4)] by blast
  have good: "good_stmt ru (insert_stmt r my td obj) db" "complete (insert_stmt r my td obj)" for r
    using good_fields[OF db(1) obj(1)] d(6,8) by (simp_all add: insert_stmt_def equations_zip)
  have fits_in: "bound_size sh q us < packet" if "q \<in> set (soci_texts td)" for q
    using soci_size[OF so(3) that us(2)] by simp
  obtain ts where ts: "scan (soci_texts td ! 0) = Some ts \<and> bind_tokens (map (member_literal my td obj) (fields_ordered td)) ts = Some (stmt_tokens (insert_stmt False my td obj))"
    using insert_template[OF so(2) d(4), of False "member_literal my td obj"] by (auto simp: soci_texts_def insert_stmt_def)
  obtain ts' where ts': "scan (soci_texts td ! 1) = Some ts' \<and> bind_tokens (map (member_literal my td obj) (fields_ordered td)) ts' = Some (stmt_tokens (insert_stmt True my td obj))"
    using insert_template[OF so(2) d(4), of True "member_literal my td obj"] by (auto simp: soci_texts_def insert_stmt_def)
  have m: "soci_texts td ! 0 \<in> set (soci_texts td)" "soci_texts td ! 1 \<in> set (soci_texts td)" by (simp_all add: soci_texts_def)
  show "soci_insert so ty fac obj db = insert_obj my ty fac obj db"
    using same_run[OF soci_run[OF so(1) ts us(2) good(2,1) fits_in[OF m(1)] not_queries(1)] mysql_run(1)[OF d(1) short_simps(2)[OF obj(2) s(1)] s(2) good(2,1)]]
    by (simp add: soci_insert_def insert_obj_def d(2) us(1) s(1) soci_texts_def)
  show "soci_replace so ty fac obj db = replace my ty fac obj db"
    using same_run[OF soci_run[OF so(1) ts' us(2) good(2,1) fits_in[OF m(2)] not_queries(1)] mysql_run(1)[OF d(1) short_simps(3)[OF obj(2) t(1)] t(2) good(2,1)]]
    by (simp add: soci_replace_def replace_def d(2) us(1) t(1) soci_texts_def)
qed

lemma soci_del_run:
  assumes db: "orm_db my ru packet ty fac td T db" and so: "soci_ok ru packet sh rd so" "soci_names td" "soci_short my packet td obj"
    and obj: "keys_fit my ru td obj" "short_texts my packet ty fac td obj"
  shows "soci_del so ty fac obj db = del my ty fac obj db"
proof -
  note d = orm_dbD[OF db]
  obtain us where us: "bind_fields td obj (table_keys td) = Some us"
      "map (use_literal sh) us = map (member_literal my td obj) (table_keys td)"
    using keys_bound[OF db] by blast
  obtain s where s: "makeDeleteQuery my ty fac (Some td) obj = Some (True, s)" "scan s = Some (stmt_tokens (delete_stmt my td obj))"
    using delete_text[OF d(1,4,5)] by blast
  have good: "good_stmt ru (delete_stmt my td obj) db" "complete (delete_stmt my td obj)"
    using good_keys[OF db obj(1)] d(6,9) by (simp_all add: delete_stmt_def equations_def)
  have m: "soci_texts td ! 3 \<in> set (soci_texts td)" by (simp add: soci_texts_def)
  obtain ts where ts: "scan (soci_texts td ! 3) = Some ts \<and> bind_tokens (map (member_literal my td obj) (table_keys td)) ts = Some (stmt_tokens (delete_stmt my td obj))"
    using delete_template[OF so(2) d(4,5,9), of "member_literal my td obj"] by (auto simp: soci_texts_def delete_stmt_def equations_def)
  show ?thesis
    using same_run[OF soci_run[OF so(1) ts us(2) good(2,1) soci_size[OF so(3) m us(2)] not_queries(2)] mysql_run(1)[OF d(1) short_simps(5)[OF obj(2) s(1)] s(2) good(2,1)]]
    by (simp add: soci_del_def del_def d(2) us(1) s(1) soci_texts_def)
qed

lemma soci_update_run:
  assumes db: "orm_db my ru packet ty fac td T db" "no_reals td" and so: "soci_ok ru packet sh rd so" "soci_names td" "soci_short my packet td obj"
    and obj: "storable_in my ru td storable obj" "short_texts my packet ty fac td obj"
  shows "soci_update so ty fac obj db = update_obj my ty fac obj db"
proof -
  note d = orm_dbD[OF db(1)]
  obtain us where us: "bind_fields td obj (fields_ordered td) = Some us"
      "map (use_literal sh) us = map (member_literal my td obj) (fields_ordered td)"
    using all_bound[OF db(2)] by blast
  obtain vs where vs: "bind_fields td obj (table_keys td) = Some vs"
      "map (use_literal sh) vs = map (member_literal my td obj) (table_keys td)"
    using keys_bound[OF db(1)] by blast
  have uvs: "map (use_literal sh) (us @ vs) = map (member_literal my td obj) (fields_ordered td @ table_keys td)"
    by (simp add: us(2) vs(2))
  obtain s where s: "makeUpdateQuery my ty fac (Some td) obj = Some (True, s)" "scan s = Some (stmt_tokens (update_stmt my td obj))"
    using update_text[OF d(1,4,5)] by blast
  have good: "good_stmt ru (update_stmt my td obj) db" "complete (update_stmt my td obj)"
    using good_fields[OF db(1) obj(1)] good_keys[OF db(1) storable_keys[OF db(1) obj(1)]] d(6,8,9) by (simp_all add: update_stmt_def equations_def)
  have m: "soci_texts td ! 2 \<in> set (soci_texts td)" by (simp add: soci_texts_def)
  obtain ts where ts: "scan (soci_texts td ! 2) = Some ts \<and>
      bind_tokens (map (member_literal my td obj) (fields_ordered td @ table_keys td)) ts = Some (stmt_tokens (update_stmt my td obj))"
    using update_template[OF so(2) d(4,5,9), of "member_literal my td obj"] by (auto simp: soci_texts_def update_stmt_def equations_def)
  show ?thesis
    using same_run[OF soci_run[OF so(1) ts uvs good(2,1) soci_size[OF so(3) m uvs] not_queries(3)] mysql_run(1)[OF d(1) short_simps(4)[OF obj(2) s(1)] s(2) good(2,1)]]
    by (simp add: soci_update_def update_obj_def d(2) us(1) vs(1) s(1) soci_texts_def)
qed

lemma soci_select_run:
  assumes db: "orm_db my ru packet ty fac td T db" and so: "soci_ok ru packet sh rd so" "soci_names td" "soci_short my packet td old"
    and "keys_fit my ru td old" "one_row my ru td old (rows T)"
  shows "soci_select so ty fac old db =
    (case find (has_key my ru td old) (rows T) of
       None \<Rightarrow> ((False, old), db)
     | Some r \<Rightarrow> (case soci_recordToObject so td
           (map (\<lambda>fd. map_option (typed_cell rd (fd_sql_type fd)) (r (fd_name fd))) (fields_ordered td)) old of (x, o') \<Rightarrow> ((x = Some True, o'), db)))"
proof -
  note d = orm_dbD[OF db]
  obtain us where us: "bind_fields td old (table_keys td) = Some us"
      "map (use_literal sh) us = map (member_literal my td old) (table_keys td)"
    using keys_bound[OF db] by blast
  let ?stmt = "Select (map fd_name (fields_ordered td)) (table td) (Some (equations my td old (table_keys td))) False"
  have good: "good_stmt ru ?stmt db" "complete ?stmt"
    using good_keys[OF db assms(5)] field_column[OF d(7)] d(8,9) by (auto simp: d(6) equations_def)
  have m: "soci_texts td ! 4 \<in> set (soci_texts td)" by (simp add: soci_texts_def)
  obtain ts where ts: "scan (soci_texts td ! 4) = Some ts \<and> bind_tokens (map (member_literal my td old) (table_keys td)) ts = Some (stmt_tokens ?stmt)"
    using select_template[OF so(2) d(4,5,9), of "member_literal my td old"] by (auto simp: soci_texts_def equations_def)
  have k: "matches ru T (Some (equations my td old (table_keys td))) = has_key my ru td old"
    by (rule ext) (rule matches_keys[OF d(3,7)])
  have cells: "map2 (\<lambda>n. map_option (typed_cell rd (column_type T n))) (map fd_name fds) (map (r \<circ> fd_name) fds) =
      map (\<lambda>fd. map_option (typed_cell rd (fd_sql_type fd)) (r (fd_name fd))) fds" if "set fds \<subseteq> set (fields_ordered td)" for r fds
    using that by (induction fds) (auto simp: column_type_field[OF d(7)])
  have f: "filter P xs = [] \<longleftrightarrow> find P xs = None" "filter P xs = y # ys \<Longrightarrow> find P xs = Some y" for P and xs ys :: "(string \<Rightarrow> cell) list" and y
    by (induction xs; auto split: if_splits)+
  obtain rs where rs: "mset rs = mset (rows T)" "exec so (soci_texts td ! 4) us db =
      (Inr (soci_rows rd ?stmt db (map (\<lambda>r. map r (map fd_name (fields_ordered td))) (filter (has_key my ru td old) rs))), db)"
    using soci_run_select[OF so(1) ts us(2) good(2,1) soci_size[OF so(3) m us(2)] d(6)] unfolding k by auto
  have "filter (has_key my ru td old) rs = filter (has_key my ru td old) (rows T)"
    by (rule same_filter[OF rs(1)]) (use assms(6) in \<open>simp add: one_row_def\<close>)
  with rs(2) have e: "exec so (soci_texts td ! 4) us db =
      (Inr (soci_rows rd ?stmt db (map (\<lambda>r. map r (map fd_name (fields_ordered td))) (filter (has_key my ru td old) (rows T)))), db)" by simp
  show ?thesis using e
    by (cases "filter (has_key my ru td old) (rows T)")
      (auto simp: soci_select_def soci_texts_def d(2,6) us(1) f cells)
qed

end

subsection \<open>Reading rows\<close>

text \<open>A floating-point member is read back as it was.\<close>

definition soci_reals :: "(string \<Rightarrow> 'd) \<Rightarrow> ('d, 'db) soci \<Rightarrow> ('d::zero, 'o, 'e) mysqlpp \<Rightarrow> rules
    \<Rightarrow> ('t, ('d, 'o) field_value) TableDescriptor \<Rightarrow> 't \<Rightarrow> bool" where
  "soci_reals rd so my ru td obj \<longleftrightarrow> (\<forall>fd\<in>set (fields_ordered td). is_real (fd_sql_type fd) \<longrightarrow>
     cell_value so (fd_type fd) (Some (CDouble (rd (canon ru (fd_sql_type fd) (literal_text (member_literal my td obj fd)))))) =
       get_member td obj fd)"

lemma int_cell:
  assumes "has_type ty v" "int_range (abs_type ty n) \<noteq> None"
  shows "cell_value so ty (Some (typed_cell rd (abs_type ty n) (print_value my v))) = Some v"
proof (cases v)
  case (VInt i)
  show ?thesis using assms
    by (cases ty) (auto simp: VInt has_type_def cell_value_def is_text_def uint_word_of_int sint_sbintrunc' signed_take_bit_int_eq_self)
next
  case (VBool b)
  have "int_decimal 0 = ''0''" "int_decimal 1 = ''1''"
    by (simp_all add: int_decimal_def decimal.simps char_of_def bit_Suc_0_iff)
  then have "int_val ''0'' = 0" "int_val ''1'' = 1" using int_val_decimal[of 0] int_val_decimal[of 1] by simp_all
  then show ?thesis using assms(1) by (auto simp: VBool has_type_def cell_value_def)
qed (use assms in \<open>cases ty; auto simp: has_type_def is_text_def\<close>)+

lemma text_cell: "text_size (fd_sql_type fd) \<noteq> None \<Longrightarrow> typed_cell rd (fd_sql_type fd) s = CText s"
  by (cases "fd_type fd") (simp_all add: fd_sql_type_def)

lemma real_cell: "is_real t \<Longrightarrow> typed_cell rd t s = CDouble (rd s)"
  by (auto simp: is_real_def)

context soci_class
begin

lemma soci_read_cell:
  assumes "soci_reals rd so my ru td obj" "fd \<in> set (fields_ordered td)" "fd_type fd \<noteq> OBJECT"
    and "c = stored ru (fd_sql_type fd) (literal_text (member_literal my td obj fd))"
  shows "\<exists>v. member td fd obj = Some (typeid_of (fd_type fd), v) \<and> has_type (fd_type fd) v \<and>
    cell_value so (fd_type fd) (map_option (typed_cell rd (fd_sql_type fd)) c) = Some v"
proof -
  obtain v where v: "get_member td obj fd = Some v" "has_type (fd_type fd) v" "member td fd obj = Some (typeid_of (fd_type fd), v)"
    using get_member_typed assms(2,3) by blast
  have l: "member_literal my td obj fd = value_literal my v" using v(1) assms(3) by (simp add: member_literal_def)
  consider "is_text (fd_type fd)" | "is_real (fd_sql_type fd)" "\<not> is_text (fd_type fd)"
    | "int_range (fd_sql_type fd) \<noteq> None" "\<not> is_real (fd_sql_type fd)" "\<not> is_text (fd_type fd)"
    using sql_type_cases[of fd] assms(3) by blast
  then have "cell_value so (fd_type fd) (map_option (typed_cell rd (fd_sql_type fd)) c) = Some v"
  proof cases
    case 1
    then obtain bs where bs: "v = VText bs" using v(2) by (auto simp: has_type_def is_text_def split: field_value.splits option.splits)
    have "text_size (fd_sql_type fd) \<noteq> None" using 1 by (simp add: text_size_fd)
    then show ?thesis using 1 text_not_real[of fd] by (cases "fd_type fd") (simp_all add: assms(4) l bs text_cell cell_value_def is_text_def)
  next
    case 2
    then show ?thesis using assms(1,2) v(1) by (simp add: assms(4) soci_reals_def stored_def real_cell)
  next
    case 3
    have "v \<noteq> VText bs" for bs using v(2) 3(3) by (auto simp: has_type_def)
    then have "literal_text (value_literal my v) = print_value my v" by (cases v) auto
    then show ?thesis using 3 int_cell[OF v(2), of "fd_size fd"] by (simp add: assms(4) l stored_def fd_sql_type_def)
  qed
  with v show ?thesis by blast
qed

lemma soci_read_field:
  assumes obj: "storable_in my ru td storable obj" "soci_reals rd so my ru td obj" and fd: "fd \<in> set (fields_ordered td)"
    and c: "c = stored ru (fd_sql_type fd) (literal_text (member_literal my td obj fd))"
    and "fd_type fd = OBJECT \<Longrightarrow> blank fd old"
  shows "\<exists>old'. soci_record_loop so td True ((fd, map_option (typed_cell rd (fd_sql_type fd)) c) # rest) old =
      soci_record_loop so td True rest old' \<and> member td fd old' = member td fd obj \<and>
      (\<forall>fd'\<in>set (fields_ordered td). fd_name fd' \<noteq> fd_name fd \<longrightarrow> member td fd' old' = member td fd' old)"
proof (cases "fd_type fd = OBJECT")
  case True
  obtain p bin where p: "propertyByName (tx (fd_name fd)) (reflection td) = Some p" "prop_serialize p obj = Inr bin"
    using known[OF fd] serialized[OF fd True] by blast
  have s: "storable fd obj" using obj(1) fd True by (simp add: storable_in_def)
  have "text_size (fd_sql_type fd) \<noteq> None" using True by (simp add: text_size_fd)
  then have cell: "map_option (typed_cell rd (fd_sql_type fd)) c = Some (CText (text_of bin))"
    using p True text_not_real[of fd] by (simp add: c member_literal_def text_cell)
  obtain old' where "prop_deserialize p old bin = Inr (True, old')" "member td fd old' = member td fd obj"
    "\<forall>fd'\<in>set (fields_ordered td). fd_name fd' \<noteq> fd_name fd \<longrightarrow> member td fd' old' = member td fd' old"
    using deserialized[OF fd True p(1) s p(2) assms(5)[OF True]] deserialized_empty[OF fd True p(1) s _ assms(5)[OF True]] p(2)
    by (cases "bin = []") auto
  then show ?thesis using True p(1) by (auto simp: cell)
next
  case False
  obtain v where v: "member td fd obj = Some (typeid_of (fd_type fd), v)" "has_type (fd_type fd) v"
      "cell_value so (fd_type fd) (map_option (typed_cell rd (fd_sql_type fd)) c) = Some v"
    using soci_read_cell[OF obj(2) fd False c] by blast
  from settable[OF fd False v(2), of old] obtain old' where
    "struct_set (typeid_of (fd_type fd)) old (tx (fd_name fd)) v (reflection td) = Some old'"
    "member td fd old' = Some (typeid_of (fd_type fd), v)"
    "\<forall>fd'\<in>set (fields_ordered td). fd_name fd' \<noteq> fd_name fd \<longrightarrow> member td fd' old' = member td fd' old" by blast
  then show ?thesis using False v by auto
qed

lemma soci_read_row:
  assumes obj: "storable_in my ru td storable obj" "soci_reals rd so my ru td obj" and row: "holds my ru td obj r"
    and "set fds \<subseteq> set (fields_ordered td)" "distinct (map fd_name fds)"
    and "\<And>fd. fd \<in> set fds \<Longrightarrow> fd_type fd = OBJECT \<Longrightarrow> blank fd old"
  shows "\<exists>obj'. soci_record_loop so td True (map (\<lambda>fd. (fd, map_option (typed_cell rd (fd_sql_type fd)) (r (fd_name fd)))) fds) old = (Some True, obj') \<and>
    (\<forall>fd\<in>set (fields_ordered td). member td fd obj' = (if fd_name fd \<in> fd_name ` set fds then member td fd obj else member td fd old))"
  using assms(4-)
proof (induction fds arbitrary: old)
  case Nil
  then show ?case by auto
next
  case (Cons fd fds)
  have fd: "fd \<in> set (fields_ordered td)" using Cons.prems(1) by simp
  have c: "r (fd_name fd) = stored ru (fd_sql_type fd) (literal_text (member_literal my td obj fd))"
    using row fd by (simp add: holds_def)
  have same_name: "member td f x = member td fd x" if "fd_name f = fd_name fd" for f x using that by (simp add: member_def)
  let ?cells = "map (\<lambda>fd. (fd, map_option (typed_cell rd (fd_sql_type fd)) (r (fd_name fd))))"
  obtain old' where o: "soci_record_loop so td True (?cells (fd # fds)) old = soci_record_loop so td True (?cells fds) old'"
      "member td fd old' = member td fd obj"
      "\<forall>fd'\<in>set (fields_ordered td). fd_name fd' \<noteq> fd_name fd \<longrightarrow> member td fd' old' = member td fd' old"
    using soci_read_field[OF obj fd c Cons.prems(3), of "?cells fds"] by auto
  have "blank f old'" if "f \<in> set fds" "fd_type f = OBJECT" for f
  proof -
    have "fd_name f \<noteq> fd_name fd" "f \<in> set (fields_ordered td)" using that Cons.prems(1,2) by (auto simp: image_iff)
    then show ?thesis using o(3) blank_member[of f old' old] Cons.prems(3)[of f] that by simp
  qed
  from Cons.IH[OF _ _ this] Cons.prems(1,2) obtain obj' where
    "soci_record_loop so td True (?cells fds) old' = (Some True, obj')"
    and m: "\<forall>fd\<in>set (fields_ordered td). member td fd obj' = (if fd_name fd \<in> fd_name ` set fds then member td fd obj else member td fd old')"
    by auto
  moreover have "member td f obj' = (if fd_name f \<in> fd_name ` set (fd # fds) then member td f obj else member td f old)"
    if "f \<in> set (fields_ordered td)" for f
    using m o(2,3) that same_name[of f] by (cases "fd_name f = fd_name fd") auto
  ultimately show ?case using o(1) by auto
qed

lemma soci_read_record:
  assumes "td_ok td" "storable_in my ru td storable obj" "soci_reals rd so my ru td obj" "holds my ru td obj r"
    and "\<And>fd. fd \<in> set (fields_ordered td) \<Longrightarrow> fd_type fd = OBJECT \<Longrightarrow> blank fd old"
  shows "\<exists>obj'. soci_recordToObject so td (map (\<lambda>fd. map_option (typed_cell rd (fd_sql_type fd)) (r (fd_name fd))) (fields_ordered td)) old =
      (Some True, obj') \<and> (\<forall>fd\<in>set (fields_ordered td). member td fd obj' = member td fd obj)"
proof -
  have z: "zip fds (map f fds) = map (\<lambda>fd. (fd, f fd)) fds" for fds and f :: "FieldDescriptor \<Rightarrow> 'd soci_cell" by (induction fds) auto
  show ?thesis unfolding soci_recordToObject_def z
    using soci_read_row[OF assms(2,3,4) subset_refl _ assms(5)] assms(1) by (auto simp: td_ok_def)
qed

lemma soci_select_found:
  assumes "orm_db my ru packet ty fac td T db" "soci_ok ru packet sh rd so" "soci_names td" "soci_short my packet td old"
    and "keys_fit my ru td old" "storable_in my ru td storable obj" "soci_reals rd so my ru td obj"
    and "\<And>fd. fd \<in> set (fields_ordered td) \<Longrightarrow> fd_type fd = OBJECT \<Longrightarrow> blank fd old"
    and "one_row my ru td old (rows T)" "find (has_key my ru td old) (rows T) = Some r" "holds my ru td obj r"
  shows "\<exists>obj'. soci_select so ty fac old db = ((True, obj'), db) \<and> (\<forall>fd\<in>set (fields_ordered td). member td fd obj' = member td fd obj)"
  using soci_read_record[OF orm_dbD(3)[OF assms(1)] assms(6,7,11,8)] assms(10)
  by (auto simp: soci_select_run[OF assms(1-5,9)])

end

subsection \<open>The users through SOCI\<close>

definition ascii_soci :: "(nat, sql_db) soci" where
  "ascii_soci = \<lparr>exec = (\<lambda>text uses db.
       case Option.bind (Option.bind (scan text) (bind_tokens (map (use_literal decimal) uses))) p_stmt of
         None \<Rightarrow> (Inl ''1064'', db)
       | Some stmt \<Rightarrow> (case sql_run ascii_rules stmt db of
             (Inl e, db') \<Rightarrow> (Inl e, db')
           | (Inr rs, db') \<Rightarrow> (Inr (soci_rows (\<lambda>s. nat (digits_val s)) stmt db rs), db'))),
     float_of = (\<lambda>x. x)\<rparr>"

lemma ascii_soci_ok: "soci_ok ascii_rules packet decimal (\<lambda>s. nat (digits_val s)) ascii_soci"
  unfolding soci_ok_def
proof (intro allI impI)
  fix s uses ts stmt db
  assume "scan s = Some ts \<and> bind_tokens (map (use_literal decimal) uses) ts = Some (stmt_tokens stmt) \<and>
    complete stmt \<and> good_stmt ascii_rules stmt db \<and> bound_size decimal s uses < packet"
  then show "\<exists>out. sql_answers ascii_rules stmt db out \<and> exec ascii_soci s uses db = (case out of
      (Inl e, db') \<Rightarrow> (Inl e, db') | (Inr rs, db') \<Rightarrow> (Inr (soci_rows (\<lambda>s. nat (digits_val s)) stmt db rs), db'))"
    by (intro exI[of _ "sql_run ascii_rules stmt db"]) (simp add: answers_exact ascii_soci_def p_stmt_tokens)
qed

lemma user_soci_class: "soci_class (user_td n) (user_blank n) user_storable"
proof (intro soci_class.intro[OF user_class] soci_class_axioms.intro)
  fix fd p obj old assume fd: "fd \<in> set (fields_ordered (user_td n))" "fd_type fd = OBJECT"
    and p: "propertyByName (tx (fd_name fd)) (reflection (user_td n)) = Some p"
    and s: "prop_serialize p obj = Inr []" "user_blank n fd old"
  let ?S = "Impl_Seq wire_pb (Impl_String wire_pb)"
  from fd have f: "fd = new_FieldDescriptor ''friends'' OBJECT [] 0" by (cases rule: user_field_cases) simp_all
  then have pf: "p = friends_prop (tx ''friends'') 0" using p by (simp add: user_properties)
  have "serialize ?S (snd (snd obj)) = []" using s(1) by (auto simp: pf friends_prop_def Property_T_def split: prod.splits)
  then have obj: "snd (snd obj) = []" by (rule strings_nothing)
  have old: "snd (snd old) = []" using s(2) by (simp add: user_blank_def f user_members)
  have "deserialize ?S [] [] = (True, [])" by code_simp
  then have "prop_deserialize p old [] = Inr (True, old)"
    using old by (cases old) (auto simp: pf friends_prop_def Property_T_def split: prod.splits)
  then show "\<exists>obj'. prop_deserialize p old [] = Inr (True, obj') \<and> member (user_td n) fd obj' = member (user_td n) fd obj \<and>
      (\<forall>fd'\<in>set (fields_ordered (user_td n)). fd_name fd' \<noteq> fd_name fd \<longrightarrow> member (user_td n) fd' obj' = member (user_td n) fd' old)"
    using obj old by (auto simp: f user_members)
qed

interpretation soci_users: soci_class "user_td ''users''" "user_blank ''users''" user_storable
  by (rule user_soci_class)

lemma users_soci:
  "soci_names users_td"
  "u \<in> set some_users \<Longrightarrow> soci_short ascii_mysql 1000 users_td u"
  "soci_reals rd so my ru users_td u" "no_reals users_td"
proof -
  show "soci_names users_td" by code_simp
  have "list_all (soci_short ascii_mysql 1000 users_td) some_users" by code_simp
  then show "u \<in> set some_users \<Longrightarrow> soci_short ascii_mysql 1000 users_td u" by (simp add: list_all_iff)
  show "soci_reals rd so my ru users_td u" by (auto simp: soci_reals_def user_td_simps user_fields_def fd_sql_type_def is_real_def)
  show "no_reals users_td" by (simp add: no_reals_def user_td_simps user_fields_def fd_sql_type_def is_real_def)
qed

subsection \<open>Properties\<close>

text \<open>
  C21. Over the same server, \<open>insert\<close>, \<open>replace\<close>, \<open>update\<close> and \<open>del\<close> of \<open>TinySociORM\<close> return what those of
  \<open>TinyMySqlORM\<close> return, and leave the same database: every placeholder takes its member. This is for
  classes without floating-point members, which the two libraries print differently.
\<close>

theorem soci_writes_as_mysql:
  assumes C: "soci_class td blank storable" and db: "orm_db my ru packet ty fac td T db" "no_reals td"
    and so: "soci_ok ru packet sh rd so" "soci_names td" "soci_short my packet td obj"
    and obj: "storable_in my ru td storable obj" "short_texts my packet ty fac td obj"
  shows "soci_insert so ty fac obj db = insert_obj my ty fac obj db \<and> soci_replace so ty fac obj db = replace my ty fac obj db \<and>
    soci_update so ty fac obj db = update_obj my ty fac obj db \<and> soci_del so ty fac obj db = del my ty fac obj db"
proof -
  have "orm_class td blank storable" using C by (simp add: soci_class_def)
  from orm_class.storable_keys[OF this db(1) obj(1)] have "keys_fit my ru td obj" .
  then show ?thesis
    using soci_class.soci_insert_run[OF C db so obj] soci_class.soci_update_run[OF C db so obj] soci_class.soci_del_run[OF C db(1) so _ obj(2)]
    by simp
qed

theorem soci_writes_as_mysql_witness:
  "soci_update ascii_soci ''4User'' (one_table users_td) bob users_db = update_obj ascii_mysql ''4User'' (one_table users_td) bob users_db"
proof -
  have b: "bob \<in> set some_users" by (simp add: some_users_def)
  show ?thesis
    using soci_writes_as_mysql[OF user_soci_class users_orm_db users_soci(4) ascii_soci_ok users_soci(1,2) users_storable(1,3)] b by blast
qed

text \<open>
  What is stored through SOCI comes back through SOCI: after an \<open>insert\<close> that succeeds or a
  \<open>replace\<close>, \<open>select\<close> into any object with the same keys, whose object members are fresh, reads
  every member. Again for classes without floating-point members.
\<close>

theorem soci_objects_come_back:
  assumes C: "soci_class td blank storable" and db: "orm_db my ru packet ty fac td T db" "no_reals td"
    and so: "soci_ok ru packet sh rd so" "soci_names td" "soci_short my packet td obj"
    and obj: "storable_in my ru td storable obj" "short_texts my packet ty fac td obj"
    and old: "same_keys my ru td obj old" "keys_fit my ru td old" "soci_short my packet td old"
      "\<And>fd. fd \<in> set (fields_ordered td) \<Longrightarrow> fd_type fd = OBJECT \<Longrightarrow> blank fd old"
  shows "fst (soci_insert so ty fac obj db) = (\<not> list_ex (has_key my ru td obj) (rows T)) \<and> fst (soci_replace so ty fac obj db) \<and>
    (\<forall>db'. (True, db') \<in> {soci_insert so ty fac obj db, soci_replace so ty fac obj db} \<longrightarrow>
       (\<exists>obj'. soci_select so ty fac old db' = ((True, obj'), db') \<and>
          (\<forall>fd\<in>set (fields_ordered td). member td fd obj' = member td fd obj)))"
proof -
  note d = orm_dbD[OF db(1)]
  have reals: "soci_reals rd so my ru td obj" using db(2) by (simp add: soci_reals_def no_reals_def list_all_iff)
  have O: "orm_class td blank storable" using C by (simp add: soci_class_def)
  note w = soci_class.soci_insert_run[OF C db so obj(1,2)] and ins = orm_class.insert_run[OF O db(1) obj(1,2)]
  note h = holds_the_row[OF d(3,7), of my ru obj]
  have read: "\<exists>obj'. soci_select so ty fac old (put_table (table td) (T\<lparr>rows := rs @ [the_row my ru td T obj]\<rparr>) db) =
        ((True, obj'), put_table (table td) (T\<lparr>rows := rs @ [the_row my ru td T obj]\<rparr>) db) \<and>
      (\<forall>fd\<in>set (fields_ordered td). member td fd obj' = member td fd obj)" if "find (has_key my ru td obj) rs = None" for rs
  proof (rule soci_class.soci_select_found[OF C orm_db_put[OF db(1)] so(1,2) old(3,2) obj(1) reals old(4) _ _ h])
    show "one_row my ru td old (rows (T\<lparr>rows := rs @ [the_row my ru td T obj]\<rparr>))"
      using one_row_stored[OF that] by (simp add: one_row_def orm_class.has_key_cong[OF O d(1) old(1)])
    show "find (has_key my ru td old) (rows (T\<lparr>rows := rs @ [the_row my ru td T obj]\<rparr>)) = Some (the_row my ru td T obj)"
      using that has_key_holds[OF d(3) h] same_keys_equiv(1)[OF d(1)]
      by (simp add: find_append flip: orm_class.has_key_cong[OF O d(1) old(1)])
  qed
  have "find (has_key my ru td obj) (filter (\<lambda>r. \<not> has_key my ru td obj r) (rows T)) = None"
    by (rule find_filter_None) simp
  moreover have "find (has_key my ru td obj) (rows T) = None" if "\<not> list_ex (has_key my ru td obj) (rows T)"
    using that by (auto simp: find_None_iff list_ex_iff)
  ultimately show ?thesis using read by (auto simp: w ins split: if_splits)
qed

theorem soci_objects_come_back_witness:
  "\<exists>db'. soci_insert ascii_soci ''4User'' (one_table users_td) ann users_db = (True, db') \<and>
     soci_select ascii_soci ''4User'' (one_table users_td) (7, [], []) db' = ((True, ann), db')"
proof -
  have n: "\<not> list_ex (has_key ascii_mysql ascii_rules users_td ann) (rows user_table)" by (simp add: user_table_def)
  have listed: "ann \<in> set some_users" "(7, [], []) \<in> set some_users" by (simp_all add: some_users_def)
  note come = soci_objects_come_back[OF user_soci_class, OF users_orm_db users_soci(4), OF ascii_soci_ok users_soci(1), OF users_soci(2)[OF listed(1)],
      OF users_storable(1,3)[OF listed(1)], OF ann_keys, OF users_storable(2)[OF listed(2)], OF users_soci(2)[OF listed(2)], OF ann_fresh]
  have "fst (soci_insert ascii_soci ''4User'' (one_table users_td) ann users_db)" using come[THEN conjunct1] n by (rule iffD2)
  then obtain db' where ins: "soci_insert ascii_soci ''4User'' (one_table users_td) ann users_db = (True, db')"
    by (cases "soci_insert ascii_soci ''4User'' (one_table users_td) ann users_db") auto
  then obtain obj' where "soci_select ascii_soci ''4User'' (one_table users_td) (7, [], []) db' = ((True, obj'), db')"
      "\<forall>fd\<in>set (fields_ordered users_td). member users_td fd obj' = member users_td fd ann"
    using come by (metis insertI1)
  then show ?thesis using ins ann_members[of obj'] by simp
qed

lemma soci_load_rows:
  assumes "soci_class td blank storable" "td_ok td"
    and "list_all2 (\<lambda>obj r. storable_in my ru td storable obj \<and> soci_reals rd so my ru td obj \<and> holds my ru td obj r) objs rs"
    and "\<And>fd. fd \<in> set (fields_ordered td) \<Longrightarrow> fd_type fd = OBJECT \<Longrightarrow> blank fd fresh"
  shows "\<exists>objs'. soci_load_loop so td fresh (\<lambda>r rs. rs @ [r])
      (map (\<lambda>r. map (\<lambda>fd. map_option (typed_cell rd (fd_sql_type fd)) (r (fd_name fd))) (fields_ordered td)) rs) acc = acc @ objs' \<and>
    list_all2 (\<lambda>obj obj'. \<forall>fd\<in>set (fields_ordered td). member td fd obj' = member td fd obj) objs objs'"
  using assms(3)
proof (induction arbitrary: acc rule: list_all2_induct)
  case Nil
  then show ?case by simp
next
  case (Cons obj objs r rs)
  obtain o' where o': "soci_recordToObject so td (map (\<lambda>fd. map_option (typed_cell rd (fd_sql_type fd)) (r (fd_name fd))) (fields_ordered td)) fresh = (Some True, o')"
      "\<forall>fd\<in>set (fields_ordered td). member td fd o' = member td fd obj"
    using soci_class.soci_read_record[OF assms(1,2) _ _ _ assms(4)] Cons.hyps(1) by blast
  from Cons.IH[of "acc @ [o']"] obtain objs' where
    "soci_load_loop so td fresh (\<lambda>r rs. rs @ [r])
      (map (\<lambda>r. map (\<lambda>fd. map_option (typed_cell rd (fd_sql_type fd)) (r (fd_name fd))) (fields_ordered td)) rs) (acc @ [o']) = (acc @ [o']) @ objs'"
    "list_all2 (\<lambda>obj obj'. \<forall>fd\<in>set (fields_ordered td). member td fd obj' = member td fd obj) objs objs'" by blast
  then show ?case using o' by (intro exI[of _ "o' # objs'"]) simp
qed

text \<open>
  \<open>loadFromDB\<close> of \<open>TinySociORM\<close> always returns false, even when it has loaded the object of every
  row: without a clause, it does so, each once and with every member as it was stored.
\<close>

theorem soci_load_reports_failure:
  assumes C: "soci_class td blank storable" and db: "orm_db my ru packet ty fac td T db"
    and so: "soci_ok ru packet sh rd so" "soci_names td"
    and rows: "list_all2 (\<lambda>obj r. storable_in my ru td storable obj \<and> soci_reals rd so my ru td obj \<and> holds my ru td obj r) objs (rows T)"
    and fresh: "\<And>fd. fd \<in> set (fields_ordered td) \<Longrightarrow> fd_type fd = OBJECT \<Longrightarrow> blank fd fresh"
    and short: "length (sql_fieldlist td) + length (table td) + 23 < packet"
  shows "(\<exists>objs' listed. soci_loadFromDB so ty fac fresh None [] db = ((False, objs'), db) \<and> mset listed = mset objs \<and>
      list_all2 (\<lambda>obj obj'. \<forall>fd\<in>set (fields_ordered td). member td fd obj' = member td fd obj) listed objs') \<and>
    \<not> fst (fst (soci_vloadFromDB so' ty' fac' fresh' callback clause s db'))"
proof -
  note d = orm_dbD[OF db]
  have p: "backquote \<notin> set (table td)" "CHR '':'' \<notin> set (table td)" using d(4) so(2) by (simp_all add: plain_table_def soci_names_def)
  let ?sel = "Select (map fd_name (fields_ordered td)) (table td) None False"
  let ?ts = "Word ''SELECT'' # idents_tokens (map fd_name (fields_ordered td)) @ [Word ''FROM'', Ident (table td)]"
  have "closed (in_backquotes (table td) @ '' '') [Ident (table td)]" using lexes_then[OF lexes_ident[OF p(1)] closed_space] by simp
  from closed_append[OF closed_query(1) closed_append[OF lexes_then[OF names_template(1)[OF so(2) d(4)] closed_query(2)] this]]
  have "scan (''SELECT '' @ sql_fieldlist td @ '' FROM '' @ in_backquotes (table td) @ '' '') = Some ?ts"
    by (intro lexes_lex closed_lexes) simp
  moreover from binds_Cons[OF binds_words(7) binds_append[OF names_template(2)[OF so(2) d(4)] binds_Cons[OF binds_words(8) binds_token(2)[OF p(2)]]]]
  have "bind_tokens [] ?ts = Some (stmt_tokens ?sel)" by (intro binds_all) simp
  ultimately have t: "scan (''SELECT '' @ sql_fieldlist td @ '' FROM '' @ in_backquotes (table td) @ '' '') = Some ?ts \<and>
      bind_tokens [] ?ts = Some (stmt_tokens ?sel)" by blast
  have "set (map fd_name (fields_ordered td)) \<subseteq> fst ` set (columns T)" using field_column[OF d(7)] by auto
  then have good: "good_stmt ru ?sel db" "complete ?sel" using d(8) by (simp_all add: d(6) good_where_def)
  have cells: "map2 (\<lambda>n. map_option (typed_cell rd (column_type T n))) (map fd_name fds) (map (r \<circ> fd_name) fds) =
      map (\<lambda>fd. map_option (typed_cell rd (fd_sql_type fd)) (r (fd_name fd))) fds" if "set fds \<subseteq> set (fields_ordered td)" for r fds
    using that by (induction fds) (auto simp: column_type_field[OF d(7)])
  have m: "matches ru T None = (\<lambda>_. True)" by (rule ext) (simp add: matches_def)
  obtain rs where rs: "mset rs = mset (rows T)" "exec so (''SELECT '' @ sql_fieldlist td @ '' FROM '' @ in_backquotes (table td) @ '' '') [] db =
      (Inr (soci_rows rd ?sel db (map (\<lambda>r. map r (map fd_name (fields_ordered td))) rs)), db)"
    using soci_run_select[OF so(1) t _ good(2,1) _ d(6), of "[]"] short by (auto simp: bound_size_def in_backquotes_def m)
  have e: "exec so (''SELECT '' @ sql_fieldlist td @ '' FROM '' @ in_backquotes (table td) @ '' '') [] db =
      (Inr (map (\<lambda>r. map (\<lambda>fd. map_option (typed_cell rd (fd_sql_type fd)) (r (fd_name fd))) (fields_ordered td)) rs), db)"
    unfolding rs(2) by (simp add: d(6) comp_def cells[unfolded comp_def])
  have "list_all2 (\<lambda>r obj. storable_in my ru td storable obj \<and> soci_reals rd so my ru td obj \<and> holds my ru td obj r) (rows T) objs"
    using rows by (simp add: list_all2_conv_all_nth)
  from list_all2_reorder_left_invariance[OF this rs(1)] obtain listed where
    l: "list_all2 (\<lambda>obj r. storable_in my ru td storable obj \<and> soci_reals rd so my ru td obj \<and> holds my ru td obj r) listed rs"
      "mset listed = mset objs"
    by (auto simp: list_all2_conv_all_nth)
  then have "\<exists>objs' listed. soci_loadFromDB so ty fac fresh None [] db = ((False, objs'), db) \<and> mset listed = mset objs \<and>
      list_all2 (\<lambda>obj obj'. \<forall>fd\<in>set (fields_ordered td). member td fd obj' = member td fd obj) listed objs'"
    using soci_load_rows[OF C d(3) l(1) fresh, of "[]"] e
    by (simp add: soci_loadFromDB_def soci_vloadFromDB_def d(2) statement_def) blast
  moreover have "\<not> fst (fst (soci_vloadFromDB so' ty' fac' fresh' callback clause s db'))"
    by (simp add: soci_vloadFromDB_def split: option.splits prod.splits sum.splits)
  ultimately show ?thesis by blast
qed

theorem soci_load_reports_failure_witness:
  "let row = the_row ascii_mysql ascii_rules users_td user_table;
       db = put_table ''users'' (user_table\<lparr>rows := [row ann, row bob]\<rparr>) users_db
   in \<exists>us. soci_loadFromDB ascii_soci ''4User'' (one_table users_td) (0, [], []) None [] db = ((False, us), db) \<and> mset us = {#ann, bob#}"
proof -
  let ?row = "the_row ascii_mysql ascii_rules users_td user_table"
  note d = orm_dbD[OF users_orm_db]
  have m: "u = v" if "\<forall>fd\<in>set (fields_ordered users_td). member users_td fd u = member users_td fd v" for u v
    using that by (cases u; cases v) (auto simp: user_td_simps user_fields_def user_members word_uint_eq_iff)
  have r: "list_all2 (\<lambda>u r. storable_in ascii_mysql ascii_rules users_td user_storable u \<and>
      soci_reals (\<lambda>s. nat (digits_val s)) ascii_soci ascii_mysql ascii_rules users_td u \<and> holds ascii_mysql ascii_rules users_td u r)
      [ann, bob] (rows (user_table\<lparr>rows := [?row ann, ?row bob]\<rparr>))"
    by (simp add: users_storable(1) some_users_def users_soci(3) holds_the_row[OF d(3,7)])
  have fresh: "user_blank ''users'' fd (0, [], [])" for fd by (simp add: user_blank_def)
  have l: "length (sql_fieldlist users_td) + length (table users_td) + 23 < 1000"
    by (simp add: sql_fieldlist_def user_td_simps user_fields_def in_backquotes_def)
  have same: "us = vs" if "list_all2 (\<lambda>u u'. \<forall>fd\<in>set (fields_ordered users_td). member users_td fd u' = member users_td fd u) vs us" for us vs
    using that by (induction rule: list_all2_induct) (simp, blast dest: m)
  from soci_load_reports_failure[OF user_soci_class, OF orm_db_put[OF users_orm_db], OF ascii_soci_ok users_soci(1), OF r, OF fresh, OF l, THEN conjunct1]
  obtain us vs where us: "soci_loadFromDB ascii_soci ''4User'' (one_table users_td) (0, [], []) None []
        (put_table (table users_td) (user_table\<lparr>rows := [?row ann, ?row bob]\<rparr>) users_db) =
      ((False, us), put_table (table users_td) (user_table\<lparr>rows := [?row ann, ?row bob]\<rparr>) users_db)"
      "mset vs = mset [ann, bob]"
      "list_all2 (\<lambda>u u'. \<forall>fd\<in>set (fields_ordered users_td). member users_td fd u' = member users_td fd u) vs us"
    by (elim exE conjE) (rule that)
  then show ?thesis using same[OF us(3)] by (simp add: user_td_simps)
qed

end
