(* ===== verification/Redis_Sync.thy ===== *)
theory Redis_Sync
  imports Redis_Cmd
begin

text \<open>
  \<open>common/myredis_sync.h\<close>, \<open>myredis_sync.cpp\<close> and \<open>myredis.cpp\<close>: the older synchronous client of redis, and
  the functions that run one command on a connection of the pool.

  hiredis with the server behind it is the parameter \<open>io\<close> over a state \<open>'w\<close>: opening a connection,
  and the answer to the words of a command. A format string is given as the words that hiredis makes
  of it: an argument \<open>%s\<close> is one word, up to its first NUL, whatever it holds. The pool has one
  connection or none. \<open>URL\<close> is the class that is now \<open>TinyURL\<close>.
\<close>

subsection \<open>Replies\<close>

record RedisReply =
  rr_type :: nat
  rr_integer :: u64
  rr_str :: string
  rr_elements :: "string list"

definition RedisReply_reset :: RedisReply where
  "RedisReply_reset = \<lparr>rr_type = 0, rr_integer = 0, rr_str = [], rr_elements = []\<rparr>"

definition parseFrom :: "reply option \<Rightarrow> RedisReply \<Rightarrow> bool \<times> RedisReply" where
  "parseFrom reply this = (case reply of
     None \<Rightarrow> (False, this)
   | Some r \<Rightarrow>
       let this = RedisReply_reset\<lparr>rr_type := rtype r\<rparr>;
           this = (if rtype r = REDIS_REPLY_INTEGER then this\<lparr>rr_integer := integer r\<rparr> else this);
           this = (if rtype r \<in> {REDIS_REPLY_ERROR, REDIS_REPLY_STRING, REDIS_REPLY_STATUS} then this\<lparr>rr_str := str_len r\<rparr> else this)
       in (True, if rtype r = REDIS_REPLY_ARRAY then this\<lparr>rr_elements := map str_len (elements r)\<rparr> else this))"

definition isNil :: "RedisReply \<Rightarrow> bool" where
  "isNil r \<longleftrightarrow> rr_type r = REDIS_REPLY_NIL"

definition typeString :: "RedisReply \<Rightarrow> string" where
  "typeString r =
     (if rr_type r = REDIS_REPLY_STRING then ''STRING'' else if rr_type r = REDIS_REPLY_ARRAY then ''ARRAY''
      else if rr_type r = REDIS_REPLY_INTEGER then ''INTEGER'' else if rr_type r = REDIS_REPLY_NIL then ''NILL''
      else if rr_type r = REDIS_REPLY_STATUS then ''STATUS'' else if rr_type r = REDIS_REPLY_ERROR then ''ERROR'' else ''UNKOWN'')"

subsection \<open>The client\<close>

text \<open>A context is a connection, or the error that was found on it (\<open>err\<close>).\<close>

record client =
  ip :: string
  portno :: int
  index :: int
  shard :: int
  context_err :: "bool option"

record 'w hiredis =
  redisConnect :: "string \<Rightarrow> int \<Rightarrow> int option \<Rightarrow> 'w \<Rightarrow> bool option \<times> 'w"
  redisCommand :: "string list \<Rightarrow> 'w \<Rightarrow> (reply option \<times> bool) \<times> 'w"

definition RedisClient :: "string \<Rightarrow> int \<Rightarrow> client" where
  "RedisClient a p = \<lparr>ip = a, portno = p, index = 0, shard = -1, context_err = None\<rparr>"

definition url_parameter :: "TinyURL \<Rightarrow> string \<Rightarrow> string" where
  "url_parameter u name = (case map_of (query u) name of Some v \<Rightarrow> v | None \<Rightarrow> [])"

definition RedisClient_url :: "string \<Rightarrow> client" where
  "RedisClient_url urltext =
     (let c = RedisClient [] 0 in
      case TinyURL_parse urltext of (good, u) \<Rightarrow>
        if \<not> good then c
        else
          let c = c\<lparr>ip := host u, portno := port u\<rparr>;
              c = (if 0 < length (url_parameter u ''shard'') then c\<lparr>shard := int_of_long (atol (url_parameter u ''shard''))\<rparr> else c)
          in if 0 < length (path u) then c\<lparr>index := int_of_long (atol (path u))\<rparr> else c)"

definition isConnected :: "client \<Rightarrow> bool" where
  "isConnected c \<longleftrightarrow> context_err c = Some False"

definition close :: "client \<Rightarrow> client" where
  "close c = c\<lparr>context_err := None\<rparr>"

text \<open>The part of \<open>command_v\<close> and \<open>command_argv\<close> behind the check of the connection.\<close>

definition exchange :: "'w hiredis \<Rightarrow> string list \<Rightarrow> RedisReply \<Rightarrow> client \<Rightarrow> 'w \<Rightarrow> (bool \<times> RedisReply) \<times> client \<times> 'w" where
  "exchange io ws reply c w =
     (if \<not> isConnected c then ((False, reply), c, w)
      else (case redisCommand io ws w of
        ((r, err), w) \<Rightarrow> ((True, snd (parseFrom r reply)), c\<lparr>context_err := Some err\<rparr>, w)))"

text \<open>
  \<open>connect\<close>, with a timeout in milliseconds or without one. The context before it is not freed;
  \<open>select\<close> in it finds the connection open.
\<close>

definition connect :: "'w hiredis \<Rightarrow> int option \<Rightarrow> client \<Rightarrow> 'w \<Rightarrow> bool \<times> client \<times> 'w" where
  "connect io timeout c w =
     (case redisConnect io (ip c) (portno c) timeout w of
        (None, w) \<Rightarrow> (False, c\<lparr>context_err := None\<rparr>, w)
      | (Some True, w) \<Rightarrow> (False, close (c\<lparr>context_err := Some True\<rparr>), w)
      | (Some False, w) \<Rightarrow>
          let c = c\<lparr>context_err := Some False\<rparr>
          in (True, if 0 < index c then snd (exchange io [''SELECT'', int_decimal (index c)] RedisReply_reset c w) else (c, w)))"

definition checkConnection :: "'w hiredis \<Rightarrow> client \<Rightarrow> 'w \<Rightarrow> client \<times> 'w" where
  "checkConnection io c w = (if \<not> isConnected c then snd (connect io None c w) else (c, w))"

definition command_v :: "'w hiredis \<Rightarrow> string list \<Rightarrow> RedisReply \<Rightarrow> client \<Rightarrow> 'w \<Rightarrow> (bool \<times> RedisReply) \<times> client \<times> 'w" where
  "command_v io ws reply c w = (case checkConnection io c w of (c, w) \<Rightarrow> exchange io ws reply c w)"

definition command_argv :: "'w hiredis \<Rightarrow> string list \<Rightarrow> RedisReply \<Rightarrow> client \<Rightarrow> 'w \<Rightarrow> (bool \<times> RedisReply) \<times> client \<times> 'w" where
  "command_argv io args reply c w = (case checkConnection io c w of (c, w) \<Rightarrow> exchange io args reply c w)"

definition client_select :: "'w hiredis \<Rightarrow> int \<Rightarrow> client \<Rightarrow> 'w \<Rightarrow> bool \<times> client \<times> 'w" where
  "client_select io i c w = (case command_v io [''SELECT'', int_decimal i] RedisReply_reset c w of
     ((_, r), s) \<Rightarrow> (rr_str r = ''OK'', s))"

definition client_del :: "'w hiredis \<Rightarrow> string \<Rightarrow> client \<Rightarrow> 'w \<Rightarrow> bool \<times> client \<times> 'w" where
  "client_del io key c w = (case command_v io [''DEL'', c_str key] RedisReply_reset c w of
     ((_, r), s) \<Rightarrow> (rr_integer r = 1, s))"

definition publish :: "'w hiredis \<Rightarrow> string \<Rightarrow> string \<Rightarrow> client \<Rightarrow> 'w \<Rightarrow> u32 \<times> client \<times> 'w" where
  "publish io channel message c w = (case command_v io [''PUBLISH'', channel, message] RedisReply_reset c w of
     ((good, r), s) \<Rightarrow> (if good then ucast (rr_integer r) else 0, s))"

text \<open>\<open>subscribe\<close> and its three relatives: the command in front of the words of the format.\<close>

definition with_format :: "string \<Rightarrow> 'w hiredis \<Rightarrow> string list \<Rightarrow> client \<Rightarrow> 'w \<Rightarrow> bool \<times> client \<times> 'w" where
  "with_format cmd io ws c w = (case command_v io (cmd # ws) RedisReply_reset c w of ((good, _), s) \<Rightarrow> (good, s))"

definition subscribe :: "'w hiredis \<Rightarrow> string list \<Rightarrow> client \<Rightarrow> 'w \<Rightarrow> bool \<times> client \<times> 'w" where
  "subscribe = with_format ''SUBSCRIBE''"

definition psubscribe :: "'w hiredis \<Rightarrow> string list \<Rightarrow> client \<Rightarrow> 'w \<Rightarrow> bool \<times> client \<times> 'w" where
  "psubscribe = with_format ''PSUBSCRIBE''"

definition unsubscribe :: "'w hiredis \<Rightarrow> string list \<Rightarrow> client \<Rightarrow> 'w \<Rightarrow> bool \<times> client \<times> 'w" where
  "unsubscribe = with_format ''UNSUBSCRIBE''"

definition punsubscribe :: "'w hiredis \<Rightarrow> string list \<Rightarrow> client \<Rightarrow> 'w \<Rightarrow> bool \<times> client \<times> 'w" where
  "punsubscribe = with_format ''PUNSUBSCRIBE''"

text \<open>The loop over the elements by pairs; the last element of an odd number is left out.\<close>

fun pairs_into :: "string list \<Rightarrow> (string \<Rightarrow> string option) \<Rightarrow> string \<Rightarrow> string option" where
  "pairs_into (f # v # es) kvs = pairs_into es (kvs(f \<mapsto> v))"
| "pairs_into _ kvs = kvs"

definition client_hgetall :: "'w hiredis \<Rightarrow> string \<Rightarrow> (string \<Rightarrow> string option) \<Rightarrow> client \<Rightarrow> 'w
    \<Rightarrow> (bool \<times> (string \<Rightarrow> string option)) \<times> client \<times> 'w" where
  "client_hgetall io key kvs c w = (case command_v io [''HGETALL'', key] RedisReply_reset c w of
     ((good, r), s) \<Rightarrow> (if good \<and> 2 \<le> length (rr_elements r) then (True, pairs_into (rr_elements r) kvs) else (False, kvs), s))"

text \<open>The map is in the order of its keys.\<close>

definition map2vector :: "(string \<times> string) list \<Rightarrow> string list" where
  "map2vector kvs = concat (map (\<lambda>(k, v). [k, v]) kvs)"

definition client_hmset :: "'w hiredis \<Rightarrow> string \<Rightarrow> (string \<times> string) list \<Rightarrow> client \<Rightarrow> 'w \<Rightarrow> bool \<times> client \<times> 'w" where
  "client_hmset io key kvs c w = (case command_argv io ([''HMSET'', key] @ map2vector kvs) RedisReply_reset c w of
     ((good, r), s) \<Rightarrow> (good \<and> rr_str r = ''OK'', s))"

subsection \<open>Commands on the pool\<close>

type_synonym 'w pool_state = "client option \<times> 'w"

definition pool_command :: "'w hiredis \<Rightarrow> string list \<Rightarrow> 'w pool_state \<Rightarrow> (bool \<times> RedisReply) \<times> 'w pool_state" where
  "pool_command io ws s = (case s of
     (None, w) \<Rightarrow> ((False, RedisReply_reset), s)
   | (Some c, w) \<Rightarrow> (case command_v io ws RedisReply_reset c w of (r, c, w) \<Rightarrow> (r, Some c, w)))"

text \<open>\<open>commandv\<close> returns false whatever the command returned.\<close>

definition pool_commandv :: "'w hiredis \<Rightarrow> string list \<Rightarrow> 'w pool_state \<Rightarrow> (bool \<times> RedisReply) \<times> 'w pool_state" where
  "pool_commandv io ws s = (case pool_command io ws s of ((_, r), s) \<Rightarrow> ((False, r), s))"

text \<open>The four ways in which the functions end.\<close>

definition integer_is :: "u64 \<Rightarrow> (bool \<times> RedisReply) \<times> 's \<Rightarrow> bool \<times> 's" where
  "integer_is n = (\<lambda>((good, r), s). (good \<and> rr_integer r = n, s))"

definition integer_or_0 :: "(bool \<times> RedisReply) \<times> 's \<Rightarrow> u32 \<times> 's" where
  "integer_or_0 = (\<lambda>((good, r), s). (if good then ucast (rr_integer r) else 0, s))"

definition str_is_ok :: "(bool \<times> RedisReply) \<times> 's \<Rightarrow> bool \<times> 's" where
  "str_is_ok = (\<lambda>((good, r), s). (good \<and> rr_str r = ''OK'', s))"

definition str_into :: "string \<Rightarrow> (bool \<times> RedisReply) \<times> 's \<Rightarrow> (bool \<times> string) \<times> 's" where
  "str_into old = (\<lambda>((good, r), s). (if good then (True, rr_str r) else (False, old), s))"

definition array_into :: "string list \<Rightarrow> (bool \<times> RedisReply) \<times> 's \<Rightarrow> (bool \<times> string list) \<times> 's" where
  "array_into old = (\<lambda>((good, r), s). (if good then (True, rr_elements r) else (False, old), s))"

subsubsection \<open>Keys\<close>

definition redis_del :: "'w hiredis \<Rightarrow> string \<Rightarrow> 'w pool_state \<Rightarrow> bool \<times> 'w pool_state" where
  "redis_del io key s = integer_is 1 (pool_command io [''DEL'', c_str key] s)"

definition redis_exists :: "'w hiredis \<Rightarrow> string \<Rightarrow> 'w pool_state \<Rightarrow> bool \<times> 'w pool_state" where
  "redis_exists io key s = integer_is 1 (pool_command io [''EXISTS'', c_str key] s)"

text \<open>The unsigned arguments are printed with \<open>%d\<close>.\<close>

definition redis_expire :: "'w hiredis \<Rightarrow> string \<Rightarrow> u32 \<Rightarrow> 'w pool_state \<Rightarrow> bool \<times> 'w pool_state" where
  "redis_expire io key secs s = integer_is 1 (pool_command io [''EXPIRE'', c_str key, int_decimal (sint secs)] s)"

definition redis_expireat :: "'w hiredis \<Rightarrow> string \<Rightarrow> u32 \<Rightarrow> 'w pool_state \<Rightarrow> bool \<times> 'w pool_state" where
  "redis_expireat io key timestamp s = integer_is 1 (pool_command io [''EXPIREAT'', c_str key, int_decimal (sint timestamp)] s)"

definition redis_pexpire :: "'w hiredis \<Rightarrow> string \<Rightarrow> u32 \<Rightarrow> 'w pool_state \<Rightarrow> bool \<times> 'w pool_state" where
  "redis_pexpire io key millsecs s = integer_is 1 (pool_command io [''PEXPIRE'', c_str key, int_decimal (sint millsecs)] s)"

definition redis_pexpireat :: "'w hiredis \<Rightarrow> string \<Rightarrow> u32 \<Rightarrow> 'w pool_state \<Rightarrow> bool \<times> 'w pool_state" where
  "redis_pexpireat io key timestamp s = integer_is 1 (pool_command io [''PEXPIREAT'', c_str key, int_decimal (sint timestamp)] s)"

definition redis_ttl :: "'w hiredis \<Rightarrow> string \<Rightarrow> 'w pool_state \<Rightarrow> u32 \<times> 'w pool_state" where
  "redis_ttl io key s = integer_or_0 (pool_command io [''TTL'', c_str key] s)"

definition redis_pttl :: "'w hiredis \<Rightarrow> string \<Rightarrow> 'w pool_state \<Rightarrow> u32 \<times> 'w pool_state" where
  "redis_pttl io key s = integer_or_0 (pool_command io [''PTTL'', c_str key] s)"

subsubsection \<open>Strings\<close>

definition redis_get :: "'w hiredis \<Rightarrow> string \<Rightarrow> string \<Rightarrow> 'w pool_state \<Rightarrow> (bool \<times> string) \<times> 'w pool_state" where
  "redis_get io value key s = str_into value (pool_command io [''GET'', c_str key] s)"

definition redis_set :: "'w hiredis \<Rightarrow> string \<Rightarrow> string \<Rightarrow> 'w pool_state \<Rightarrow> bool \<times> 'w pool_state" where
  "redis_set io key value s = str_is_ok (pool_command io [''SET'', c_str key, value] s)"

definition redis_append :: "'w hiredis \<Rightarrow> string \<Rightarrow> string \<Rightarrow> 'w pool_state \<Rightarrow> u32 \<times> 'w pool_state" where
  "redis_append io key value s = integer_or_0 (pool_command io [''APPEND'', c_str key, value] s)"

definition redis_strlen :: "'w hiredis \<Rightarrow> string \<Rightarrow> 'w pool_state \<Rightarrow> u32 \<times> 'w pool_state" where
  "redis_strlen io key s = integer_or_0 (pool_command io [''STRLEN'', c_str key] s)"

definition redis_setex :: "'w hiredis \<Rightarrow> string \<Rightarrow> string \<Rightarrow> u32 \<Rightarrow> 'w pool_state \<Rightarrow> bool \<times> 'w pool_state" where
  "redis_setex io key value secs s = str_is_ok (pool_command io [''SETEX'', c_str key, decimal (unat secs), value] s)"

definition redis_psetex :: "'w hiredis \<Rightarrow> string \<Rightarrow> string \<Rightarrow> u32 \<Rightarrow> 'w pool_state \<Rightarrow> bool \<times> 'w pool_state" where
  "redis_psetex io key value millsecs s = str_is_ok (pool_command io [''PSETEX'', c_str key, decimal (unat millsecs), value] s)"

text \<open>\<open>setnx\<close> expects a status; \<open>SETNX\<close> answers with an integer.\<close>

definition redis_setnx :: "'w hiredis \<Rightarrow> string \<Rightarrow> string \<Rightarrow> 'w pool_state \<Rightarrow> bool \<times> 'w pool_state" where
  "redis_setnx io key value s = str_is_ok (pool_command io [''SETNX'', c_str key, value] s)"

definition redis_setbit :: "'w hiredis \<Rightarrow> string \<Rightarrow> u32 \<Rightarrow> u32 \<Rightarrow> 'w pool_state \<Rightarrow> bool \<times> 'w pool_state" where
  "redis_setbit io key offset value s =
     integer_is 1 (pool_command io [''SETBIT'', c_str key, int_decimal (sint offset), int_decimal (if 0 <s value then 1 else 0)] s)"

definition redis_getbit :: "'w hiredis \<Rightarrow> string \<Rightarrow> u32 \<Rightarrow> 'w pool_state \<Rightarrow> bool \<times> 'w pool_state" where
  "redis_getbit io key offset s = (case pool_command io [''GETBIT'', c_str key, int_decimal (sint offset)] s of
     ((good, r), s) \<Rightarrow> (good \<and> 0 <s rr_integer r, s))"

text \<open>A truth value, as an integer.\<close>

definition redis_bitcount :: "'w hiredis \<Rightarrow> string \<Rightarrow> u32 \<Rightarrow> u32 \<Rightarrow> 'w pool_state \<Rightarrow> u32 \<times> 'w pool_state" where
  "redis_bitcount io key i j s =
     (case pool_command io [''BITCOUNT'', c_str key, int_decimal (sint i), int_decimal (sint j)] s of
        ((good, r), s) \<Rightarrow> (if good \<and> 0 <s rr_integer r then 1 else 0, s))"

definition redis_setrange :: "'w hiredis \<Rightarrow> string \<Rightarrow> string \<Rightarrow> u32 \<Rightarrow> 'w pool_state \<Rightarrow> u32 \<times> 'w pool_state" where
  "redis_setrange io key value offset s = integer_or_0 (pool_command io [''SETRANGE'', c_str key, int_decimal (sint offset), value] s)"

definition redis_getrange :: "'w hiredis \<Rightarrow> string \<Rightarrow> string \<Rightarrow> u32 \<Rightarrow> u32 \<Rightarrow> 'w pool_state \<Rightarrow> (bool \<times> string) \<times> 'w pool_state" where
  "redis_getrange io value key i j s =
     str_into value (pool_command io [''GETRANGE'', c_str key, int_decimal (sint i), int_decimal (sint j)] s)"

definition redis_incr :: "'w hiredis \<Rightarrow> string \<Rightarrow> 'w pool_state \<Rightarrow> u32 \<times> 'w pool_state" where
  "redis_incr io key s = integer_or_0 (pool_command io [''INCR'', c_str key] s)"

definition redis_incrby :: "'w hiredis \<Rightarrow> string \<Rightarrow> u32 \<Rightarrow> 'w pool_state \<Rightarrow> u32 \<times> 'w pool_state" where
  "redis_incrby io key increment s = integer_or_0 (pool_command io [''INCRBY'', c_str key, int_decimal (sint increment)] s)"

definition redis_decr :: "'w hiredis \<Rightarrow> string \<Rightarrow> 'w pool_state \<Rightarrow> u32 \<times> 'w pool_state" where
  "redis_decr io key s = integer_or_0 (pool_command io [''DECR'', c_str key] s)"

definition redis_decrby :: "'w hiredis \<Rightarrow> string \<Rightarrow> u32 \<Rightarrow> 'w pool_state \<Rightarrow> u32 \<times> 'w pool_state" where
  "redis_decrby io key increment s = integer_or_0 (pool_command io [''DECRBY'', c_str key, int_decimal (sint increment)] s)"

subsubsection \<open>Hashes\<close>

definition redis_hset :: "'w hiredis \<Rightarrow> string \<Rightarrow> string \<Rightarrow> string \<Rightarrow> 'w pool_state \<Rightarrow> bool \<times> 'w pool_state" where
  "redis_hset io key f value s = integer_is 0 (pool_command io [''HSET'', c_str key, c_str f, value] s)"

definition makeValuesFormat :: "string list \<Rightarrow> string" where
  "makeValuesFormat values = concat (map (\<lambda>v. '' '' @ v) values)"

text \<open>\<open>hmset\<close> does not use its key: the words are those of the format alone.\<close>

definition redis_hmset :: "'w hiredis \<Rightarrow> string \<Rightarrow> string list \<Rightarrow> 'w pool_state \<Rightarrow> bool \<times> 'w pool_state" where
  "redis_hmset io key format_words s = str_is_ok (pool_commandv io (''hmset'' # format_words) s)"

definition redis_hsetnx :: "'w hiredis \<Rightarrow> string \<Rightarrow> string \<Rightarrow> string \<Rightarrow> 'w pool_state \<Rightarrow> bool \<times> 'w pool_state" where
  "redis_hsetnx io key f value s = integer_is 0 (pool_command io [''HSETNX'', c_str key, c_str f, value] s)"

definition redis_hget :: "'w hiredis \<Rightarrow> string \<Rightarrow> string \<Rightarrow> string \<Rightarrow> 'w pool_state \<Rightarrow> (bool \<times> string) \<times> 'w pool_state" where
  "redis_hget io value key f s = str_into value (pool_command io [''HGET'', c_str key, c_str f] s)"

definition redis_hmget :: "'w hiredis \<Rightarrow> string list \<Rightarrow> string \<Rightarrow> string list \<Rightarrow> 'w pool_state \<Rightarrow> (bool \<times> string list) \<times> 'w pool_state" where
  "redis_hmget io values key fs s = array_into values (pool_command io [''HMGET'', c_str key, c_str (makeValuesFormat fs)] s)"

text \<open>\<open>insert\<close> keeps the value of a field that is there.\<close>

fun pairs_insert :: "string list \<Rightarrow> (string \<Rightarrow> string option) \<Rightarrow> string \<Rightarrow> string option" where
  "pairs_insert (f # v # es) kvs = pairs_insert es (if kvs f = None then kvs(f \<mapsto> v) else kvs)"
| "pairs_insert _ kvs = kvs"

definition redis_hgetall :: "'w hiredis \<Rightarrow> (string \<Rightarrow> string option) \<Rightarrow> string \<Rightarrow> 'w pool_state
    \<Rightarrow> (bool \<times> (string \<Rightarrow> string option)) \<times> 'w pool_state" where
  "redis_hgetall io fs key s = (case pool_command io [''HGETALL'', c_str key] s of
     ((good, r), s) \<Rightarrow> (if good then (True, pairs_insert (rr_elements r) fs) else (False, fs), s))"

definition redis_hdel :: "'w hiredis \<Rightarrow> string \<Rightarrow> string list \<Rightarrow> 'w pool_state \<Rightarrow> bool \<times> 'w pool_state" where
  "redis_hdel io key fs s = integer_is 1 (pool_command io [''HDEL'', c_str key, c_str (makeValuesFormat fs)] s)"

definition redis_hexists :: "'w hiredis \<Rightarrow> string \<Rightarrow> string \<Rightarrow> 'w pool_state \<Rightarrow> bool \<times> 'w pool_state" where
  "redis_hexists io key f s = integer_is 1 (pool_command io [''HEXISTS'', c_str key, c_str f] s)"

definition redis_hlen :: "'w hiredis \<Rightarrow> string \<Rightarrow> 'w pool_state \<Rightarrow> u32 \<times> 'w pool_state" where
  "redis_hlen io key s = integer_or_0 (pool_command io [''HLEN'', c_str key] s)"

definition redis_hkeys :: "'w hiredis \<Rightarrow> string list \<Rightarrow> string \<Rightarrow> 'w pool_state \<Rightarrow> (bool \<times> string list) \<times> 'w pool_state" where
  "redis_hkeys io fs key s = array_into fs (pool_command io [''HKEYS'', c_str key] s)"

definition redis_hvals :: "'w hiredis \<Rightarrow> string list \<Rightarrow> string \<Rightarrow> 'w pool_state \<Rightarrow> (bool \<times> string list) \<times> 'w pool_state" where
  "redis_hvals io values key s = array_into values (pool_command io [''HVALS'', c_str key] s)"

definition redis_hincrby :: "'w hiredis \<Rightarrow> string \<Rightarrow> string \<Rightarrow> u32 \<Rightarrow> 'w pool_state \<Rightarrow> u32 \<times> 'w pool_state" where
  "redis_hincrby io key f increment s =
     integer_or_0 (pool_command io [''HINCRBY'', c_str key, c_str f, int_decimal (sint increment)] s)"

subsection \<open>Strings as a map\<close>

text \<open>What redis documents of six commands on strings: the answer, and the database behind it.\<close>

abbreviation int_reply :: "nat \<Rightarrow> reply" where
  "int_reply n \<equiv> Reply REDIS_REPLY_INTEGER (of_nat n) None []"

fun served :: "string list \<Rightarrow> (string \<Rightarrow> string option) \<Rightarrow> (reply \<times> (string \<Rightarrow> string option)) option" where
  "served [cmd, k] m =
     (if cmd = ''GET'' then Some (case m k of None \<Rightarrow> Reply REDIS_REPLY_NIL 0 None [] | Some v \<Rightarrow> Reply REDIS_REPLY_STRING 0 (Some v) [], m)
      else if cmd = ''DEL'' then Some (int_reply (if m k = None then 0 else 1), m(k := None))
      else if cmd = ''EXISTS'' then Some (int_reply (if m k = None then 0 else 1), m)
      else if cmd = ''STRLEN'' then Some (int_reply (length (case m k of None \<Rightarrow> [] | Some v \<Rightarrow> v)), m)
      else None)"
| "served [cmd, k, v] m =
     (if cmd = ''SET'' then Some (Reply REDIS_REPLY_STATUS 0 (Some ''OK'') [], m(k \<mapsto> v))
      else if cmd = ''APPEND''
      then (case (case m k of None \<Rightarrow> [] | Some u \<Rightarrow> u) @ v of new \<Rightarrow> Some (int_reply (length new), m(k \<mapsto> new)))
      else None)"
| "served _ m = None"

definition serves :: "'w hiredis \<Rightarrow> ('w \<Rightarrow> string \<Rightarrow> string option) \<Rightarrow> bool" where
  "serves io view \<longleftrightarrow> (\<forall>ws w r m. served ws (view w) = Some (r, m) \<longrightarrow>
     (\<exists>w'. redisCommand io ws w = ((Some r, False), w') \<and> view w' = m))"

datatype string_op = Set string string | Get string | Del string | Exists string | Append string string | Strlen string

datatype string_result = Truth bool | Value bool string | Number u32

fun run_op :: "'w hiredis \<Rightarrow> string_op \<Rightarrow> 'w pool_state \<Rightarrow> string_result \<times> 'w pool_state" where
  "run_op io (Set k v) s = apfst Truth (redis_set io k v s)"
| "run_op io (Get k) s = apfst (\<lambda>(b, v). Value b v) (redis_get io [] k s)"
| "run_op io (Del k) s = apfst Truth (redis_del io k s)"
| "run_op io (Exists k) s = apfst Truth (redis_exists io k s)"
| "run_op io (Append k v) s = apfst Number (redis_append io k v s)"
| "run_op io (Strlen k) s = apfst Number (redis_strlen io k s)"

fun run_ops :: "'w hiredis \<Rightarrow> string_op list \<Rightarrow> 'w pool_state \<Rightarrow> string_result list \<times> 'w pool_state" where
  "run_ops io [] s = ([], s)"
| "run_ops io (op # ops) s = (case run_op io op s of (r, s) \<Rightarrow> apfst (Cons r) (run_ops io ops s))"

text \<open>The same on a map from keys to values; a key ends at its first NUL.\<close>

definition lookup :: "(string \<Rightarrow> string option) \<Rightarrow> string \<Rightarrow> string" where
  "lookup m k = (case m (c_str k) of None \<Rightarrow> [] | Some v \<Rightarrow> v)"

fun map_op :: "string_op \<Rightarrow> (string \<Rightarrow> string option) \<Rightarrow> string_result \<times> (string \<Rightarrow> string option)" where
  "map_op (Set k v) m = (Truth True, m(c_str k \<mapsto> v))"
| "map_op (Get k) m = (Value True (lookup m k), m)"
| "map_op (Del k) m = (Truth (m (c_str k) \<noteq> None), m(c_str k := None))"
| "map_op (Exists k) m = (Truth (m (c_str k) \<noteq> None), m)"
| "map_op (Append k v) m = (Number (of_nat (length (lookup m k @ v))), m(c_str k \<mapsto> lookup m k @ v))"
| "map_op (Strlen k) m = (Number (of_nat (length (lookup m k))), m)"

fun map_ops :: "string_op list \<Rightarrow> (string \<Rightarrow> string option) \<Rightarrow> string_result list \<times> (string \<Rightarrow> string option)" where
  "map_ops [] m = ([], m)"
| "map_ops (op # ops) m = (case map_op op m of (r, m) \<Rightarrow> apfst (Cons r) (map_ops ops m))"

lemma connected_command:
  assumes "isConnected c" "redisCommand io ws w = ((r, err), w')"
  shows "pool_command io ws (Some c, w) = ((True, snd (parseFrom r RedisReply_reset)), Some (c\<lparr>context_err := Some err\<rparr>), w')"
  using assms by (simp add: pool_command_def command_v_def checkConnection_def exchange_def)

lemma served_command:
  assumes "serves io view" "isConnected c" "served ws (view w) = Some (r, m)"
  shows "\<exists>c' w'. pool_command io ws (Some c, w) = ((True, snd (parseFrom (Some r) RedisReply_reset)), Some c', w') \<and>
    isConnected c' \<and> view w' = m"
proof -
  obtain w' where w': "redisCommand io ws w = ((Some r, False), w')" "view w' = m" using assms(1,3) unfolding serves_def by blast
  show ?thesis unfolding connected_command[OF assms(2) w'(1)] using w'(2) by (auto simp: isConnected_def)
qed

lemma down_of_nat: "ucast (of_nat n :: u64) = (of_nat n :: u32)"
  by (simp add: unsigned_of_nat word_of_nat_eq_iff)

lemma run_op_map:
  assumes "serves io view" "isConnected c"
  shows "\<exists>c' w'. run_op io op (Some c, w) = (fst (map_op op (view w)), Some c', w') \<and> isConnected c' \<and> view w' = snd (map_op op (view w))"
proof -
  note sc = served_command[OF assms, of _ w]
  have reset: "RedisReply_reset = \<lparr>rr_type = 0, rr_integer = 0, rr_str = [], rr_elements = []\<rparr>" by (rule RedisReply_reset_def)
  show ?thesis
  proof (cases op)
    case (Set k v)
    from sc[of "[''SET'', c_str k, v]"] show ?thesis
      by (fastforce simp: Set redis_set_def str_is_ok_def parseFrom_def str_len_def reset Let_def)
  next
    case (Get k)
    from sc[of "[''GET'', c_str k]"] show ?thesis
      by (cases "view w (c_str k)") (fastforce simp: Get redis_get_def str_into_def parseFrom_def str_len_def reset lookup_def Let_def)+
  next
    case (Del k)
    from sc[of "[''DEL'', c_str k]"] show ?thesis
      by (cases "view w (c_str k)") (fastforce simp: Del redis_del_def integer_is_def parseFrom_def reset Let_def)+
  next
    case (Exists k)
    from sc[of "[''EXISTS'', c_str k]"] show ?thesis
      by (cases "view w (c_str k)") (fastforce simp: Exists redis_exists_def integer_is_def parseFrom_def reset Let_def)+
  next
    case (Append k v)
    from sc[of "[''APPEND'', c_str k, v]"] show ?thesis
      by (cases "view w (c_str k)")
        (fastforce simp: Append redis_append_def integer_or_0_def parseFrom_def reset lookup_def down_of_nat Let_def simp del: of_nat_add)+
  next
    case (Strlen k)
    from sc[of "[''STRLEN'', c_str k]"] show ?thesis
      by (cases "view w (c_str k)") (fastforce simp: Strlen redis_strlen_def integer_or_0_def parseFrom_def reset lookup_def down_of_nat Let_def)+
  qed
qed

subsection \<open>Properties\<close>

text \<open>
  C39. On a connection that is open, any commands on strings have the results of a map from keys, up to
  their first NUL, to values, and leave this map behind; \<open>get\<close> of a missing key succeeds with the
  empty string.
\<close>

theorem redis_strings_as_map:
  assumes "serves io view" "isConnected c"
  shows "\<exists>c' w'. run_ops io ops (Some c, w) = (fst (map_ops ops (view w)), Some c', w') \<and> isConnected c' \<and>
    view w' = snd (map_ops ops (view w))"
  using assms(2)
proof (induction ops arbitrary: c w)
  case (Cons op ops)
  obtain c1 w1 where s: "run_op io op (Some c, w) = (fst (map_op op (view w)), Some c1, w1)" "isConnected c1"
      "view w1 = snd (map_op op (view w))"
    using run_op_map[OF assms(1) Cons.prems, of op w] by blast
  obtain c2 w2 where "run_ops io ops (Some c1, w1) = (fst (map_ops ops (view w1)), Some c2, w2)" "isConnected c2"
      "view w2 = snd (map_ops ops (view w1))"
    using Cons.IH[OF s(2), of w1] by blast
  with s show ?case by (simp split: prod.splits)
qed auto

text \<open>A server of strings over one map.\<close>

definition map_redis :: "(string \<Rightarrow> string option) hiredis" where
  "map_redis = \<lparr>redisConnect = (\<lambda>_ _ _ m. (Some False, m)),
     redisCommand = (\<lambda>ws m. case served ws m of Some (r, m) \<Rightarrow> ((Some r, False), m)
       | None \<Rightarrow> ((Some (Reply REDIS_REPLY_ERROR 0 (Some ''ERR'') []), False), m))\<rparr>"

lemma map_redis_serves: "serves map_redis (\<lambda>m. m)"
  by (auto simp: serves_def map_redis_def)

theorem redis_strings_as_map_witness:
  "fst (run_ops map_redis [Set ''a'' ''x'', Append ''a'' ''yz'', Get ''a'', Del ''a'', Get ''a'', Exists ''a'']
      (Some ((RedisClient ''h'' 1)\<lparr>context_err := Some False\<rparr>), Map.empty)) =
   [Truth True, Number 3, Value True ''xyz'', Truth True, Value True [], Truth False]"
proof -
  have "isConnected ((RedisClient ''h'' 1)\<lparr>context_err := Some False\<rparr>)" by (simp add: isConnected_def)
  from redis_strings_as_map[OF map_redis_serves this]
  have "fst (run_ops map_redis ops (Some ((RedisClient ''h'' 1)\<lparr>context_err := Some False\<rparr>), Map.empty)) = fst (map_ops ops Map.empty)" for ops
    by (metis fst_conv)
  then show ?thesis by (simp only:) (simp add: c_str_def lookup_def)
qed

text \<open>
  \<open>connect\<close> does not look at the answer to its \<open>SELECT\<close>: when the server refuses it, the command that
  caused the connection is sent all the same, to the database the server starts with.
\<close>

theorem select_failure_ignored:
  assumes "\<not> isConnected c" "0 < index c" "redisConnect io (ip c) (portno c) None w = (Some False, w1)"
    and "redisCommand io [''SELECT'', int_decimal (index c)] w1 = ((refusal, False), w2)"
    and "redisCommand io ws w2 = ((r, err), w3)"
  shows "pool_command io ws (Some c, w) =
    ((True, snd (parseFrom r RedisReply_reset)), Some (c\<lparr>context_err := Some err\<rparr>), w3)"
  using assms by (simp add: pool_command_def command_v_def checkConnection_def connect_def exchange_def isConnected_def Let_def)

theorem select_failure_ignored_witness:
  "fst (redis_set map_redis ''a'' ''x'' (Some ((RedisClient ''h'' 1)\<lparr>index := 3\<rparr>), Map.empty))"
proof -
  let ?c = "(RedisClient ''h'' 1)\<lparr>index := 3\<rparr>"
  have "pool_command map_redis [''SET'', ''a'', ''x''] (Some ?c, Map.empty) =
      ((True, snd (parseFrom (Some (Reply REDIS_REPLY_STATUS 0 (Some ''OK'') [])) RedisReply_reset)), Some (?c\<lparr>context_err := Some False\<rparr>), [''a'' \<mapsto> ''x''])"
    by (rule select_failure_ignored[where ?w1.0 = Map.empty and ?w2.0 = Map.empty and refusal = "Some (Reply REDIS_REPLY_ERROR 0 (Some ''ERR'') [])"])
      (simp_all add: isConnected_def RedisClient_def map_redis_def)
  then show ?thesis by (simp add: redis_set_def str_is_ok_def c_str_def parseFrom_def str_len_def Let_def)
qed

text \<open>
  Some functions report failures that are none: \<open>hmset\<close> never succeeds; \<open>setnx\<close> does not when the server
  answers with a number, as it does; \<open>hset\<close> of a field that is new returns false. \<open>hmget\<close> and \<open>hdel\<close>
  ask for one field whose name is all the names behind spaces.
\<close>

theorem redis_results_wrong:
  assumes "isConnected c"
    and "redisCommand io [''SETNX'', c_str key, v] w = ((Some (int_reply n), e1), w1)"
    and "redisCommand io [''HSET'', c_str key, c_str f, v] w = ((Some (int_reply 1), e2), w2)"
  shows "\<not> fst (redis_hmset io key format_words s) \<and> \<not> fst (redis_setnx io key v (Some c, w)) \<and> \<not> fst (redis_hset io key f v (Some c, w)) \<and>
    snd (redis_hmget io values key [f, g] s) = snd (pool_command io [''HMGET'', c_str key, c_str ('' '' @ f @ '' '' @ g)] s)"
proof -
  have "\<not> fst (redis_hmset io key format_words s)"
    by (simp add: redis_hmset_def str_is_ok_def pool_commandv_def split: prod.splits)
  moreover have "\<not> fst (redis_setnx io key v (Some c, w))"
    unfolding redis_setnx_def connected_command[OF assms(1,2)]
    by (simp add: str_is_ok_def parseFrom_def RedisReply_reset_def Let_def)
  moreover have "\<not> fst (redis_hset io key f v (Some c, w))"
    unfolding redis_hset_def connected_command[OF assms(1,3)]
    by (simp add: integer_is_def parseFrom_def RedisReply_reset_def Let_def)
  moreover have "snd (redis_hmget io values key [f, g] s) = snd (pool_command io [''HMGET'', c_str key, c_str ('' '' @ f @ '' '' @ g)] s)"
    by (simp add: redis_hmget_def array_into_def makeValuesFormat_def split: prod.splits)
  ultimately show ?thesis by blast
qed

definition one_redis :: "unit hiredis" where
  "one_redis = \<lparr>redisConnect = (\<lambda>_ _ _ w. (Some False, w)), redisCommand = (\<lambda>_ w. ((Some (int_reply 1), False), w))\<rparr>"

theorem redis_results_wrong_witness:
  "\<not> fst (redis_setnx one_redis ''k'' ''v'' (Some ((RedisClient ''h'' 1)\<lparr>context_err := Some False\<rparr>), ()))"
  using redis_results_wrong[of "(RedisClient ''h'' 1)\<lparr>context_err := Some False\<rparr>" one_redis "''k''" "''v''" "()" 1 False "()" "''f''" False "()"]
  by (simp add: isConnected_def one_redis_def)

end
