(* ===== verification/Mycache.thy ===== *)
theory Mycache
  imports Prelude
begin

text \<open>
  \<open>common/mycache.h\<close> and \<open>mycache.cpp\<close>: the messages of the older object cache and its synchronous
  client, which sends a request again when no answer comes in time.

  The encoding of \<open>Cmd::Set\<close> by protobuf is the parameter \<open>ser\<close>. The network is a parameter as well:
  for every poll of a request it says whether the socket before it could be opened, whether the message
  could be sent, and what the poll found; an exception of ZeroMQ is one of the outcomes. The
  asynchronous client, which is built on \<open>callback.h\<close>, is not modelled.
\<close>

subsection \<open>Messages\<close>

definition kMyCacheCmd_Get :: u8 where "kMyCacheCmd_Get = 103"
definition kMyCacheCmd_Set :: u8 where "kMyCacheCmd_Set = 115"
definition kMyCacheCmd_Del :: u8 where "kMyCacheCmd_Del = 100"

definition packBinMsg :: "u64 \<Rightarrow> u8 \<Rightarrow> bytes \<Rightarrow> bytes" where
  "packBinMsg ident cmd msg = [cmd] @ put_le 8 ident @ msg"

text \<open>What is passed by reference comes in and goes out; an empty body leaves \<open>msgbody\<close> as it is.\<close>

definition parseBinMsg :: "bytes \<Rightarrow> u64 \<times> u8 \<times> bytes \<Rightarrow> bool \<times> u64 \<times> u8 \<times> bytes" where
  "parseBinMsg message = (\<lambda>(ident, cmd, msgbody).
     if length message < 1 + 8 then (False, ident, cmd, msgbody)
     else
       let bodylen = length message - (1 + 8);
           cmd = message ! 0;
           msgdata = drop 1 message;
           ident = get_le (take 8 msgdata);
           msgdata = drop 8 msgdata
       in (True, ident, cmd, if 0 < bodylen then take bodylen msgdata else msgbody))"

subsection \<open>The client\<close>

text \<open>
  \<open>sock\<close>: whether \<open>socket_\<close> is set. \<open>sent\<close> are the messages written to the sockets, one list for
  each socket that was opened, the latest first.
\<close>

record client =
  sock :: bool
  server_address :: bytes
  sent :: "bytes list list"

definition MyCacheClient :: client where
  "MyCacheClient = \<lparr>sock = False, server_address = map of_char ''tcp://localhost:5555'', sent = []\<rparr>"

definition close :: "client \<Rightarrow> client" where
  "close c = c\<lparr>sock := False\<rparr>"

definition connect :: "bytes \<Rightarrow> bool \<Rightarrow> client \<Rightarrow> bool \<times> client" where
  "connect serveraddr opens c =
     (let c = (close c)\<lparr>server_address := serveraddr\<rparr>
      in if opens then (True, c\<lparr>sock := True, sent := [] # sent c\<rparr>) else (False, close c))"

datatype polled = Answer bytes | Silence | Throws

record attempt =
  opens :: bool
  sends :: bool
  poll_found :: polled

datatype outcome = Returned bool | Null_socket

definition send_on :: "bytes \<Rightarrow> client \<Rightarrow> client" where
  "send_on msg c = c\<lparr>sent := (case sent c of [] \<Rightarrow> [[msg]] | ms # mss \<Rightarrow> (ms @ [msg]) # mss)\<rparr>"

text \<open>
  The loop with a message sent and \<open>retries_left\<close> polls to go; the next poll is the \<open>k\<close>-th. When it
  ends, \<open>retries_left\<close> is zero or the function has returned, so the loop around it runs once.
\<close>

fun await_reply :: "nat \<Rightarrow> nat \<Rightarrow> (nat \<Rightarrow> attempt) \<Rightarrow> bytes \<Rightarrow> bytes \<Rightarrow> client \<Rightarrow> outcome \<times> bytes \<times> client" where
  "await_reply 0 k net m reply c = (Returned False, reply, c)"
| "await_reply (Suc n) k net m reply c =
     (case poll_found (net k) of
        Answer a \<Rightarrow> (case parseBinMsg a (0, 0, reply) of (ok, _, _, reply) \<Rightarrow> (Returned ok, reply, c))
      | Throws \<Rightarrow> (Returned False, reply, close c)
      | Silence \<Rightarrow>
          if n = 0 then (Returned False, reply, c)
          else (case connect (server_address c) (opens (net (Suc k))) c of (_, c) \<Rightarrow>
            if \<not> sock c then (Null_socket, reply, c)
            else if \<not> sends (net (Suc k)) then (Returned False, reply, close c)
            else await_reply n (Suc k) net m reply (send_on m c)))"

definition REQUEST_RETRIES :: nat where "REQUEST_RETRIES = 3"

definition request :: "(nat \<Rightarrow> attempt) \<Rightarrow> bytes \<Rightarrow> u8 \<Rightarrow> bytes \<Rightarrow> client \<Rightarrow> outcome \<times> bytes \<times> client" where
  "request net reply cmdtype msg c =
     (let c = (if \<not> sock c then snd (connect (server_address c) (opens (net 0)) c) else c) in
      if \<not> sock c then (Returned False, reply, c)
      else if \<not> sends (net 0) then (Returned False, reply, close c)
      else await_reply REQUEST_RETRIES 0 net (packBinMsg 0 cmdtype msg) reply (send_on (packBinMsg 0 cmdtype msg) c))"

definition client_get :: "(nat \<Rightarrow> attempt) \<Rightarrow> bytes \<Rightarrow> bytes \<Rightarrow> client \<Rightarrow> outcome \<times> bytes \<times> client" where
  "client_get net key val c = request net val kMyCacheCmd_Get key c"

definition is_ok :: "outcome \<times> bytes \<times> client \<Rightarrow> outcome \<times> client" where
  "is_ok = (\<lambda>(r, ret, c). (case r of Returned b \<Rightarrow> Returned (b \<and> ret = map of_char ''OK'') | Null_socket \<Rightarrow> Null_socket, c))"

definition client_set :: "(bytes \<Rightarrow> bytes \<Rightarrow> bytes) \<Rightarrow> (nat \<Rightarrow> attempt) \<Rightarrow> bytes \<Rightarrow> bytes \<Rightarrow> client \<Rightarrow> outcome \<times> client" where
  "client_set ser net key val c = is_ok (request net [] kMyCacheCmd_Set (ser key val) c)"

definition client_del :: "(nat \<Rightarrow> attempt) \<Rightarrow> bytes \<Rightarrow> client \<Rightarrow> outcome \<times> client" where
  "client_del net key c = is_ok (request net [] kMyCacheCmd_Del key c)"

subsection \<open>Lemmas\<close>

lemma parse_pack:
  "parseBinMsg (packBinMsg i cmd msg) (i', cmd', old) = (True, i, cmd, if msg = [] then old else msg)"
  by (auto simp: parseBinMsg_def packBinMsg_def Let_def le_simps take_bit_word_eq_self)

lemma parseBinMsg_short: "length m < 9 \<Longrightarrow> parseBinMsg m (i, cmd, old) = (False, i, cmd, old)"
  by (simp add: parseBinMsg_def)

lemma connect_simps [simp]:
  "sock (snd (connect a b c)) = b" "server_address (snd (connect a b c)) = a"
  "sent (snd (connect a b c)) = (if b then [] # sent c else sent c)"
  by (simp_all add: connect_def close_def Let_def)

text \<open>The poll that finds something first, the sockets up to it being opened and written to.\<close>

definition first_answer :: "(nat \<Rightarrow> attempt) \<Rightarrow> nat \<Rightarrow> nat \<Rightarrow> bytes \<Rightarrow> bool" where
  "first_answer net k j a \<longleftrightarrow> k \<le> j \<and> poll_found (net j) = Answer a \<and>
     (\<forall>i. k \<le> i \<and> i < j \<longrightarrow> poll_found (net i) = Silence \<and> opens (net (Suc i)) \<and> sends (net (Suc i)))"

lemma await_answer:
  "first_answer net k j a \<Longrightarrow> j < k + n \<Longrightarrow>
   \<exists>c'. await_reply n k net m reply c =
     (Returned (fst (parseBinMsg a (0, 0, reply))), snd (snd (snd (parseBinMsg a (0, 0, reply)))), c') \<and>
     length (sent c') = length (sent c) + (j - k)"
proof (induction n arbitrary: k c)
  case (Suc n)
  show ?case
  proof (cases "j = k")
    case True
    then show ?thesis using Suc.prems by (simp add: first_answer_def split: prod.splits)
  next
    case False
    then have s: "poll_found (net k) = Silence" "opens (net (Suc k))" "sends (net (Suc k))" "n \<noteq> 0"
        "first_answer net (Suc k) j a" "j < Suc k + n"
      using Suc.prems by (auto simp: first_answer_def Suc_le_eq)
    define c1 where "c1 = send_on m (snd (connect (server_address c) True c))"
    have "length (sent c1) = Suc (length (sent c))" by (simp add: c1_def send_on_def)
    moreover have "await_reply (Suc n) k net m reply c = await_reply n (Suc k) net m reply c1"
      using s(1-4) by (simp add: c1_def connect_def Let_def)
    moreover have "Suc k \<le> j" using s(5) by (simp add: first_answer_def)
    then have "j - Suc k + Suc (length (sent c)) = length (sent c) + (j - k)" by simp
    ultimately show ?thesis using Suc.IH[OF s(5,6), of c1] by auto
  qed
qed (simp add: first_answer_def)

lemma await_true:
  "await_reply n k net m reply c = (Returned True, reply', c') \<Longrightarrow> \<exists>j a. first_answer net k j a \<and> j < k + n"
proof (induction n arbitrary: k c)
  case (Suc n)
  show ?case
  proof (cases "poll_found (net k)")
    case (Answer a)
    then have "first_answer net k k a" by (auto simp: first_answer_def)
    then show ?thesis by (intro exI[of _ k] exI[of _ a]) simp
  next
    case Silence
    define c1 where "c1 = send_on m (snd (connect (server_address c) True c))"
    have s: "opens (net (Suc k))" "sends (net (Suc k))" "await_reply n (Suc k) net m reply c1 = (Returned True, reply', c')"
      using Suc.prems Silence by (auto simp: connect_def close_def Let_def c1_def split: if_splits)
    from Suc.IH[OF s(3)] obtain j a where j: "first_answer net (Suc k) j a" "j < Suc k + n" by blast
    have "first_answer net k j a"
      unfolding first_answer_def
    proof (intro conjI allI impI)
      fix i
      assume "k \<le> i \<and> i < j"
      then show "poll_found (net i) = Silence" "opens (net (Suc i))" "sends (net (Suc i))"
        using j(1) Silence s(1,2) unfolding first_answer_def by (cases "i = k"; force simp: Suc_le_eq)+
    qed (use j(1) in \<open>simp_all add: first_answer_def\<close>)
    then show ?thesis using j(2) by auto
  next
    case Throws
    then show ?thesis using Suc.prems by simp
  qed
qed simp

subsection \<open>Properties\<close>

text \<open>
  What \<open>packBinMsg\<close> has packed, \<open>parseBinMsg\<close> takes apart again, number, command and body; a message
  shorter than its header is refused and changes nothing. But an empty body leaves the one the
  caller had.
\<close>

theorem cache_messages_come_back:
  "parseBinMsg (packBinMsg i cmd msg) (i', cmd', old) = (True, i, cmd, if msg = [] then old else msg) \<and>
   (length m < 9 \<longrightarrow> parseBinMsg m (i', cmd', old) = (False, i', cmd', old))"
  by (simp add: parse_pack parseBinMsg_short)

theorem cache_messages_come_back_witness:
  "parseBinMsg (packBinMsg 7 103 [1, 2]) (0, 0, []) = (True, 7, 103, [1, 2]) \<and> parseBinMsg [103, 0] (0, 0, []) = (False, 0, 0, [])"
  using cache_messages_come_back[of 7 103 "[1, 2]" 0 0 "[]" "[103, 0]"] by simp

text \<open>
  A request, on a socket that is open or can be opened, always ends after at most three polls. It
  returns true just if one of them finds a message with a whole header before anything else happens,
  the polls before it finding nothing and the new sockets being opened and written to; then the
  reply is the body of this message, or what the caller passed if the body is empty.
\<close>

theorem request_retries:
  assumes "sock c \<or> opens (net 0)" "sends (net 0)"
  shows "((\<exists>reply' c'. request net reply cmd msg c = (Returned True, reply', c')) \<longleftrightarrow>
      (\<exists>j a. j < 3 \<and> first_answer net 0 j a \<and> 9 \<le> length a)) \<and>
    (\<forall>j a. j < 3 \<and> first_answer net 0 j a \<and> 9 \<le> length a \<longrightarrow>
      (\<exists>c'. request net reply cmd msg c = (Returned True, if drop 9 a = [] then reply else drop 9 a, c') \<and>
        length (sent c') \<le> length (sent c) + 3))"
proof -
  define c1 where "c1 = send_on (packBinMsg 0 cmd msg) (if sock c then c else snd (connect (server_address c) True c))"
  have r: "request net reply cmd msg c = await_reply 3 0 net (packBinMsg 0 cmd msg) reply c1"
    using assms by (auto simp: request_def c1_def REQUEST_RETRIES_def Let_def)
  have len: "length (sent c1) \<le> length (sent c) + 1"
    by (auto simp: c1_def send_on_def split: list.splits)
  have answer: "\<exists>c'. request net reply cmd msg c =
        (Returned (9 \<le> length a), if length a < 9 \<or> drop 9 a = [] then reply else drop 9 a, c') \<and> length (sent c') \<le> length (sent c) + 3"
    if "j < 3" "first_answer net 0 j a" for j a
    using await_answer[OF that(2), of 3 "packBinMsg 0 cmd msg" reply c1] that(1) len
    by (auto simp: r parseBinMsg_def Let_def not_less)
  show ?thesis
  proof (intro conjI iffI allI impI)
    assume "\<exists>reply' c'. request net reply cmd msg c = (Returned True, reply', c')"
    then obtain reply' c' where t: "request net reply cmd msg c = (Returned True, reply', c')" by blast
    then obtain j a where j: "first_answer net 0 j a" "j < 3" using await_true[of 3 0 net] unfolding r by fastforce
    with answer[OF j(2,1)] t have "9 \<le> length a" by auto
    with j show "\<exists>j a. j < 3 \<and> first_answer net 0 j a \<and> 9 \<le> length a" by blast
  next
    assume "\<exists>j a. j < 3 \<and> first_answer net 0 j a \<and> 9 \<le> length a"
    then obtain j a where "j < 3" "first_answer net 0 j a" "9 \<le> length a" by blast
    with answer[of j a] show "\<exists>reply' c'. request net reply cmd msg c = (Returned True, reply', c')" by auto
  next
    fix j and a
    assume "j < 3 \<and> first_answer net 0 j a \<and> 9 \<le> length a"
    with answer[of j a] show "\<exists>c'. request net reply cmd msg c = (Returned True, if drop 9 a = [] then reply else drop 9 a, c') \<and>
        length (sent c') \<le> length (sent c) + 3" by (auto split: if_splits)
  qed
qed

text \<open>The first poll finds nothing, the second one an answer.\<close>

definition slow_net :: "bytes \<Rightarrow> nat \<Rightarrow> attempt" where
  "slow_net a i = \<lparr>opens = True, sends = True, poll_found = (if i = 1 then Answer a else Silence)\<rparr>"

theorem request_retries_witness:
  "\<exists>c'. request (slow_net (packBinMsg 0 103 [4, 5])) [] 103 [1] MyCacheClient = (Returned True, [4, 5], c')"
proof -
  define a :: bytes where "a = packBinMsg 0 103 [4, 5]"
  have a: "9 \<le> length a" "drop 9 a = [4, 5]" by (simp_all add: a_def packBinMsg_def)
  have "first_answer (slow_net a) 0 1 a" by (auto simp: first_answer_def slow_net_def)
  moreover have "opens (slow_net a 0)" "sends (slow_net a 0)" by (simp_all add: slow_net_def)
  ultimately have "\<exists>c'. request (slow_net a) [] 103 [1] MyCacheClient = (Returned True, if drop 9 a = [] then [] else drop 9 a, c') \<and>
      length (sent c') \<le> length (sent MyCacheClient) + 3"
    using request_retries[of MyCacheClient "slow_net a" "[]" 103 "[1]", THEN conjunct2, rule_format, of 1 a] a(1) by simp
  then show ?thesis by (auto simp: a(2) simp flip: a_def)
qed

text \<open>
  When a new socket cannot be opened for a retry, the request goes on with the null pointer that
  the closed one left.
\<close>

theorem retry_without_socket:
  assumes "sock c \<or> opens (net 0)" "sends (net 0)" "poll_found (net 0) = Silence" "\<not> opens (net 1)"
  shows "fst (request net reply cmd msg c) = Null_socket"
  using assms by (auto simp: request_def REQUEST_RETRIES_def numeral_3_eq_3 connect_def close_def send_on_def Let_def)

theorem retry_without_socket_witness:
  "fst (request (\<lambda>i. \<lparr>opens = i = 0, sends = True, poll_found = Silence\<rparr>) [] 103 [1] MyCacheClient) = Null_socket"
  by (rule retry_without_socket) simp_all

end
