(* ===== verification/Mycached.thy ===== *)
theory Mycached
  imports Mycache Redis_Sync Orm_Crud Hashes "HOL-Library.AList"
begin

text \<open>
  \<open>common/mycached.h\<close> and \<open>mycached.cpp\<close>: the server of the older object cache. A broker hands the
  requests of the clients to its workers; a worker answers them from redis and, unless it only
  caches, from tables in MySQL.

  Parameters are hiredis and MySQL++ with their servers, the function \<open>hmset\<close> with a format, which
  \<open>RedisClient\<close> does not have, so that the file does not compile, the parser of \<open>Cmd::Set\<close>, and
  which connections the pools give for a key. \<open>None\<close> is the use of a null pointer. The sockets of the broker are streams of frames, and
  reading from an empty stream (\<open>None\<close>) blocks.
\<close>

subsection \<open>The handlers\<close>

record ('w, 'db) cache_env =
  redis_io :: "'w hiredis"
  hmset_format :: "string list \<Rightarrow> Redis_Sync.client \<Rightarrow> 'w \<Rightarrow> Redis_Sync.client \<times> 'w"
  kv_quote :: "string \<Rightarrow> string"
  kv_store :: "string \<Rightarrow> 'db \<Rightarrow> (string + (string \<Rightarrow> cell) list option) \<times> 'db"
  kv_execute :: "string \<Rightarrow> 'db \<Rightarrow> (string + bool) \<times> 'db"
  parse_set :: "bytes \<Rightarrow> (bytes \<times> bytes) option"
  shard_of :: "bytes \<Rightarrow> int"
  mysql_ready :: "bytes \<Rightarrow> bool"
  s_tablenum :: u32
  s_cacheonly :: bool
  time_now :: nat

text \<open>What a worker acts on: its connections to the shards of redis, the shards, and the database.\<close>

record ('w, 'db) cache_state =
  conns :: "int \<Rightarrow> Redis_Sync.client option"
  worlds :: "int \<Rightarrow> 'w"
  kvdb :: 'db

text \<open>The name that a worker gets if no other writes to the static buffer before it is copied.\<close>

definition getKVSTableName :: "('w, 'db) cache_env \<Rightarrow> bytes \<Rightarrow> string" where
  "getKVSTableName E k = ''kvs_'' @ decimal (unat (hash_murmur k mod s_tablenum E))"

text \<open>\<open>RedisConnectionByKey\<close>: a call on the connection for a key, if there is one.\<close>

definition on_redis :: "('w, 'db) cache_env \<Rightarrow> bytes \<Rightarrow> (Redis_Sync.client \<Rightarrow> 'w \<Rightarrow> 'r \<times> Redis_Sync.client \<times> 'w)
    \<Rightarrow> ('w, 'db) cache_state \<Rightarrow> 'r option \<times> ('w, 'db) cache_state" where
  "on_redis E k f st =
     (case conns st (shard_of E k) of
        None \<Rightarrow> (None, st)
      | Some c \<Rightarrow> (case f c (worlds st (shard_of E k)) of
          (r, c, w) \<Rightarrow> (Some r, st\<lparr>conns := (conns st)(shard_of E k \<mapsto> c), worlds := (worlds st)(shard_of E k := w)\<rparr>)))"

definition hash_words :: "string \<Rightarrow> bytes \<Rightarrow> ('w, 'db) cache_env \<Rightarrow> string list" where
  "hash_words k val E =
     [k, ''value'', text_of val, ''flag'', ''0'', ''touchtime'', decimal (unat (of_nat (time_now E) :: u32))]"

definition put_hash :: "('w, 'db) cache_env \<Rightarrow> string \<Rightarrow> bytes \<Rightarrow> Redis_Sync.client \<Rightarrow> 'w \<Rightarrow> unit \<times> Redis_Sync.client \<times> 'w" where
  "put_hash E k val c w = ((), hmset_format E (hash_words k val E) c w)"

definition get_query :: "('w, 'db) cache_env \<Rightarrow> bytes \<Rightarrow> string" where
  "get_query E k = ''select * from '' @ getKVSTableName E k @ '' where `key`='' @ kv_quote E (text_of k)"

definition set_query :: "('w, 'db) cache_env \<Rightarrow> bytes \<Rightarrow> bytes \<Rightarrow> string" where
  "set_query E k val = ''replace into '' @ getKVSTableName E k @ ''(`key`, value, flag, touchtime) values('' @
     kv_quote E (text_of k) @ '','' @ kv_quote E (text_of val) @ '','' @ ''0'' @ '','' @ decimal (time_now E) @ '')''"

definition del_query :: "('w, 'db) cache_env \<Rightarrow> bytes \<Rightarrow> string" where
  "del_query E k = ''delete from '' @ getKVSTableName E k @ '' where `key`='' @ kv_quote E (text_of k)"

definition cell_data :: "cell \<Rightarrow> bytes" where
  "cell_data c = (case c of None \<Rightarrow> tx ''NULL'' | Some s \<Rightarrow> tx s)"

definition doMsg_get :: "('w, 'db) cache_env \<Rightarrow> bytes \<Rightarrow> bytes \<Rightarrow> ('w, 'db) cache_state
    \<Rightarrow> ((bool \<times> bytes) \<times> ('w, 'db) cache_state) option" where
  "doMsg_get E reply msg st =
     (case on_redis E msg (client_hgetall (redis_io E) (text_of msg) Map.empty) st of (r, st) \<Rightarrow>
       (case r of
          Some (True, kvs) \<Rightarrow> Some ((True, tx (case kvs ''value'' of None \<Rightarrow> [] | Some v \<Rightarrow> v)), st)
        | _ \<Rightarrow>
            if \<not> s_cacheonly E \<and> mysql_ready E msg
            then (case kv_store E (get_query E msg) (kvdb st) of
                    (Inl _, d) \<Rightarrow> Some ((False, reply), st\<lparr>kvdb := d\<rparr>)
                  | (Inr (Some [row]), d) \<Rightarrow>
                      (case on_redis E msg (put_hash E (text_of msg) (cell_data (row ''value''))) (st\<lparr>kvdb := d\<rparr>) of
                         (None, _) \<Rightarrow> None
                       | (Some _, st) \<Rightarrow> Some ((True, cell_data (row ''value'')), st))
                  | (Inr _, d) \<Rightarrow> Some ((True, []), st\<lparr>kvdb := d\<rparr>))
            else Some ((True, []), st)))"

text \<open>A message that does not parse is acknowledged as well.\<close>

definition doMsg_set :: "('w, 'db) cache_env \<Rightarrow> bytes \<Rightarrow> bytes \<Rightarrow> ('w, 'db) cache_state \<Rightarrow> (bool \<times> bytes) \<times> ('w, 'db) cache_state" where
  "doMsg_set E reply msg st =
     (case parse_set E msg of
        None \<Rightarrow> ((True, tx ''OK''), st)
      | Some (k, val) \<Rightarrow>
          (case on_redis E k (put_hash E (c_str (text_of k)) val) st of (_, st) \<Rightarrow>
            if \<not> s_cacheonly E \<and> mysql_ready E k
            then (case kv_execute E (set_query E k val) (kvdb st) of
                    (Inl _, d) \<Rightarrow> ((False, reply), st\<lparr>kvdb := d\<rparr>)
                  | (Inr _, d) \<Rightarrow> ((True, tx ''OK''), st\<lparr>kvdb := d\<rparr>))
            else ((True, tx ''OK''), st)))"

definition doMsg_del :: "('w, 'db) cache_env \<Rightarrow> bytes \<Rightarrow> bytes \<Rightarrow> ('w, 'db) cache_state \<Rightarrow> (bool \<times> bytes) \<times> ('w, 'db) cache_state" where
  "doMsg_del E reply msg st =
     (case on_redis E msg (Redis_Sync.client_del (redis_io E) (text_of msg)) st of (_, st) \<Rightarrow>
       if \<not> s_cacheonly E \<and> mysql_ready E msg
       then (case kv_execute E (del_query E msg) (kvdb st) of
               (Inl _, d) \<Rightarrow> ((False, reply), st\<lparr>kvdb := d\<rparr>)
             | (Inr _, d) \<Rightarrow> ((True, tx ''OK''), st\<lparr>kvdb := d\<rparr>))
       else ((True, reply), st))"

text \<open>\<open>createByType\<close> with the call of \<open>doMsg\<close>; there is no handler for another command.\<close>

definition handle :: "('w, 'db) cache_env \<Rightarrow> u8 \<Rightarrow> bytes \<Rightarrow> ('w, 'db) cache_state \<Rightarrow> (bytes \<times> ('w, 'db) cache_state) option" where
  "handle E cmd body st =
     (if cmd = kMyCacheCmd_Get then map_option (apfst snd) (doMsg_get E [] body st)
      else if cmd = kMyCacheCmd_Set then Some (apfst snd (doMsg_set E [] body st))
      else if cmd = kMyCacheCmd_Del then Some (apfst snd (doMsg_del E [] body st))
      else Some ([], st))"

subsection \<open>The worker\<close>

text \<open>One round of \<open>run\<close>: the frames that are read, those that are sent.\<close>

definition worker_answer :: "('w, 'db) cache_env \<Rightarrow> bytes \<Rightarrow> bytes \<Rightarrow> ('w, 'db) cache_state \<Rightarrow> (bytes list \<times> ('w, 'db) cache_state) option" where
  "worker_answer E client_addr req st =
     (case parseBinMsg req (0, 0, []) of (parsed, ident, cmd, body) \<Rightarrow>
       map_option (\<lambda>(reply, st). ([client_addr, [], packBinMsg ident cmd reply], st))
         (if parsed then handle E cmd body st else Some ([], st)))"

definition READY :: bytes where "READY = tx ''READY''"

definition worker_name :: "nat \<Rightarrow> bytes" where
  "worker_name i = tx (''w'' @ decimal i)"

subsection \<open>The broker\<close>

record broker =
  worker_queue :: "bytes list"
  worker_queue_selector :: u64
  to_clients :: "bytes list list"
  to_workers :: "bytes list list"

definition new_broker :: broker where
  "new_broker = \<lparr>worker_queue = [], worker_queue_selector = 0, to_clients = [], to_workers = []\<rparr>"

text \<open>\<open>id[0] != '_'\<close>: a client with a \<open>REQ\<close> socket, which puts an empty frame before its message.\<close>

definition sync_client :: "bytes \<Rightarrow> bool" where
  "sync_client addr \<longleftrightarrow> (case addr of [] \<Rightarrow> True | b # _ \<Rightarrow> b \<noteq> 95)"

text \<open>The backend: \<open>worker, empty, READY\<close>, or \<open>worker, empty, client, empty, reply\<close>.\<close>

definition broker_backend :: "bytes list \<Rightarrow> broker \<Rightarrow> (bytes list \<times> broker) option" where
  "broker_backend frames b =
     (case frames of
        worker # _ # client_addr # rest \<Rightarrow>
          if client_addr \<noteq> READY
          then (case rest of
                  _ # reply # rest \<Rightarrow>
                    Some (rest, b\<lparr>to_clients := to_clients b @
                      [if sync_client client_addr then [client_addr, [], reply] else [client_addr, reply]]\<rparr>)
                | _ \<Rightarrow> None)
          else Some (rest, b\<lparr>worker_queue := worker_queue b @ [worker]\<rparr>)
      | _ \<Rightarrow> None)"

definition broker_frontend :: "bytes list \<Rightarrow> broker \<Rightarrow> (bytes list \<times> broker) option" where
  "broker_frontend frames b =
     (case frames of
        client_addr # rest \<Rightarrow>
          (case (if sync_client client_addr then drop 1 rest else rest) of
             req # rest' \<Rightarrow>
               if worker_queue b \<noteq> []
               then Some (rest', b\<lparr>worker_queue_selector := worker_queue_selector b + 1,
                      to_workers := to_workers b @
                        [[worker_queue b ! (unat (worker_queue_selector b) mod length (worker_queue b)), [], client_addr, [], req]]\<rparr>)
               else Some (rest', b)
           | [] \<Rightarrow> None)
      | [] \<Rightarrow> None)"

text \<open>One round of the loop of \<open>run\<close>: what \<open>poll\<close> found at the two sockets, and the streams behind them.\<close>

definition broker_round :: "bool \<Rightarrow> bool \<Rightarrow> bytes list \<times> bytes list \<Rightarrow> broker \<Rightarrow> ((bytes list \<times> bytes list) \<times> broker) option" where
  "broker_round backend_in frontend_in streams b = (case streams of (backend, frontend) \<Rightarrow>
     (let polled = worker_queue b \<noteq> [] in
      case (if backend_in then broker_backend backend b else Some (backend, b)) of
        None \<Rightarrow> None
      | Some (backend, b) \<Rightarrow>
          if polled \<and> frontend_in then map_option (\<lambda>(frontend, b). ((backend, frontend), b)) (broker_frontend frontend b)
          else Some ((backend, frontend), b)))"

subsection \<open>What is relied on\<close>

text \<open>Redis with hashes: \<open>view w k\<close> are the fields of the hash at \<open>k\<close>; a hash without fields is none.\<close>

definition redis_hash_ok :: "('w, 'db) cache_env \<Rightarrow> ('w \<Rightarrow> string \<Rightarrow> string \<Rightarrow> string option) \<Rightarrow> bool" where
  "redis_hash_ok E view \<longleftrightarrow>
     (\<forall>k w. \<exists>kvs. redisCommand (redis_io E) [''HGETALL'', k] w =
          ((Some (Reply REDIS_REPLY_ARRAY 0 None (map (\<lambda>s. Reply REDIS_REPLY_STRING 0 (Some s) []) (map2vector kvs))), False), w) \<and>
        distinct (map fst kvs) \<and> map_of kvs = view w k) \<and>
     (\<forall>k w. \<exists>r w'. redisCommand (redis_io E) [''DEL'', k] w = ((r, False), w') \<and> view w' = (view w)(k := Map.empty)) \<and>
     (\<forall>k v f t c w. Redis_Sync.isConnected c \<longrightarrow>
        (\<exists>c' w'. hmset_format E [k, ''value'', v, ''flag'', f, ''touchtime'', t] c w = (c', w') \<and> Redis_Sync.isConnected c' \<and>
           view w' = (view w)(k := (view w k)(''value'' \<mapsto> v, ''flag'' \<mapsto> f, ''touchtime'' \<mapsto> t))))"

text \<open>The three statements, as they are read, and what they do to the tables \<open>kv d n\<close>.\<close>

definition get_tokens :: "string \<Rightarrow> string \<Rightarrow> token list" where
  "get_tokens n k = [Word ''select'', Sym (CHR ''*''), Word ''from'', Word n, Word ''where'', Ident ''key'', Sym (CHR ''=''), Str k]"

definition set_tokens :: "string \<Rightarrow> string \<Rightarrow> string \<Rightarrow> string \<Rightarrow> token list" where
  "set_tokens n k v t = [Word ''replace'', Word ''into'', Word n, Sym (CHR ''(''), Ident ''key'', comma, Word ''value'', comma, Word ''flag'', comma,
     Word ''touchtime'', Sym (CHR '')''), Word ''values'', Sym (CHR ''(''), Str k, comma, Str v, comma, Word ''0'', comma, Word t, Sym (CHR '')'')]"

definition del_tokens :: "string \<Rightarrow> string \<Rightarrow> token list" where
  "del_tokens n k = [Word ''delete'', Word ''from'', Word n, Word ''where'', Ident ''key'', Sym (CHR ''=''), Str k]"

text \<open>\<open>good\<close> keys fit into the column and are no two the same for the server.\<close>

definition kvs_ok :: "('w, 'db) cache_env \<Rightarrow> (string \<Rightarrow> bool) \<Rightarrow> ('db \<Rightarrow> string \<Rightarrow> string \<Rightarrow> string option) \<Rightarrow> bool" where
  "kvs_ok E good kv \<longleftrightarrow> (\<forall>s. lexes (kv_quote E s) [Str s]) \<and>
     (\<forall>q n k d. scan q = Some (get_tokens n k) \<and> good k \<longrightarrow>
        (\<exists>rs. kv_store E q d = (Inr (Some rs), d) \<and>
          (case kv d n k of None \<Rightarrow> rs = [] | Some v \<Rightarrow> \<exists>r. rs = [r] \<and> r ''value'' = Some v))) \<and>
     (\<forall>q n k v t d. scan q = Some (set_tokens n k v t) \<and> good k \<and> length v < 2 ^ 16 \<longrightarrow>
        (\<exists>d'. kv_execute E q d = (Inr True, d') \<and> kv d' = (kv d)(n := (kv d n)(k \<mapsto> v)))) \<and>
     (\<forall>q n k d. scan q = Some (del_tokens n k) \<and> good k \<longrightarrow>
        (\<exists>d'. kv_execute E q d = (Inr True, d') \<and> kv d' = (kv d)(n := (kv d n)(k := None))))"

lemma lexes_table: "lexes (getKVSTableName E k) [Word (getKVSTableName E k)]"
  unfolding getKVSTableName_def by (rule lexes_word) (simp_all add: list_all_word_decimal is_word_def)

lemma closed_kvs:
  "closed ''select * from '' [Word ''select'', Sym (CHR ''*''), Word ''from'']" "closed ''delete from '' [Word ''delete'', Word ''from'']"
  "closed '' where `key`='' [Word ''where'', Ident ''key'', Sym (CHR ''='')]" "closed ''replace into '' [Word ''replace'', Word ''into'']"
  "closed ''(`key`, value, flag, touchtime) values('' [Sym (CHR ''(''), Ident ''key'', comma, Word ''value'', comma, Word ''flag'', comma,
     Word ''touchtime'', Sym (CHR '')''), Word ''values'', Sym (CHR ''('')]"
  "closed '',0,'' [comma, Word ''0'', comma]"
  by (simp_all add: closed_def scan.simps is_word_def special_chars map_option_Cons comma_def)

lemma query_tokens:
  assumes "kvs_ok E good kv"
  shows "scan (get_query E k) = Some (get_tokens (getKVSTableName E k) (text_of k))"
    "scan (del_query E k) = Some (del_tokens (getKVSTableName E k) (text_of k))"
    "scan (set_query E k v) = Some (set_tokens (getKVSTableName E k) (text_of k) (text_of v) (decimal (time_now E)))"
proof -
  have q: "lexes (kv_quote E s) [Str s]" for s using assms by (simp add: kvs_ok_def)
  have w: "lexes (getKVSTableName E k @ '' where `key`='' @ kv_quote E (text_of k))
      [Word (getKVSTableName E k), Word ''where'', Ident ''key'', Sym (CHR ''=''), Str (text_of k)]"
    using lexes_append[OF lexes_table _ closed_lexes_append[OF closed_kvs(3) q]] by simp
  from closed_lexes_append[OF closed_kvs(1) w] show "scan (get_query E k) = Some (get_tokens (getKVSTableName E k) (text_of k))"
    unfolding get_query_def get_tokens_def by (intro lexes_lex) simp
  from closed_lexes_append[OF closed_kvs(2) w] show "scan (del_query E k) = Some (del_tokens (getKVSTableName E k) (text_of k))"
    unfolding del_query_def del_tokens_def by (intro lexes_lex) simp
  have t: "closed (decimal (time_now E) @ '')'') [Word (decimal (time_now E)), Sym (CHR '')'')]"
    using closed_bracket[OF lexes_decimal] by simp
  have "closed (kv_quote E (text_of v) @ '',0,'' @ decimal (time_now E) @ '')'')
      (Str (text_of v) # [comma, Word ''0'', comma] @ [Word (decimal (time_now E)), Sym (CHR '')'')])"
    using closed_append[OF lexes_then[OF q closed_kvs(6)] t] by simp
  from closed_append[OF lexes_then[OF q closed_constant(11)] this]
  have "closed (kv_quote E (text_of k) @ '','' @ kv_quote E (text_of v) @ '',0,'' @ decimal (time_now E) @ '')'')
      (Str (text_of k) # comma # Str (text_of v) # [comma, Word ''0'', comma] @ [Word (decimal (time_now E)), Sym (CHR '')'')])" by simp
  from closed_append[OF closed_kvs(4) closed_append[OF lexes_then[OF lexes_table closed_kvs(5)] this]]
  show "scan (set_query E k v) = Some (set_tokens (getKVSTableName E k) (text_of k) (text_of v) (decimal (time_now E)))"
    unfolding set_query_def set_tokens_def by (intro lexes_lex closed_lexes) simp
qed

subsection \<open>A cache in front of tables is a map\<close>

definition good_key :: "(string \<Rightarrow> bool) \<Rightarrow> bytes \<Rightarrow> bool" where
  "good_key good k \<longleftrightarrow> good (text_of k) \<and> c_str (text_of k) = text_of k"

text \<open>The tables hold the map, and what redis holds for a key is its value.\<close>

definition cache_inv :: "('w, 'db) cache_env \<Rightarrow> (string \<Rightarrow> bool) \<Rightarrow> ('w \<Rightarrow> string \<Rightarrow> string \<Rightarrow> string option)
    \<Rightarrow> ('db \<Rightarrow> string \<Rightarrow> string \<Rightarrow> string option) \<Rightarrow> (int \<Rightarrow> 'w) \<Rightarrow> 'db \<Rightarrow> (bytes \<Rightarrow> bytes option) \<Rightarrow> bool" where
  "cache_inv E good view kv ws d m \<longleftrightarrow> (\<forall>k. good_key good k \<longrightarrow>
     kv d (getKVSTableName E k) (text_of k) = map_option text_of (m k) \<and>
     (view (ws (shard_of E k)) (text_of k) = Map.empty \<or>
      (\<exists>v. m k = Some v \<and> view (ws (shard_of E k)) (text_of k) ''value'' = Some (text_of v))))"

definition all_open :: "(int \<Rightarrow> Redis_Sync.client option) \<Rightarrow> bool" where
  "all_open cs \<longleftrightarrow> (\<forall>i. \<exists>c. cs i = Some c \<and> Redis_Sync.isConnected c)"

datatype cache_op = Cget bytes | Cset bytes bytes | Cdel bytes

fun op_key :: "cache_op \<Rightarrow> bytes" where
  "op_key (Cget k) = k" | "op_key (Cset k _) = k" | "op_key (Cdel k) = k"

fun op_fits :: "cache_op \<Rightarrow> bool" where
  "op_fits (Cset k v) \<longleftrightarrow> length k < 2 ^ 16 \<and> length v < 2 ^ 16" | "op_fits _ \<longleftrightarrow> True"

fun op_command :: "(bytes \<Rightarrow> bytes \<Rightarrow> bytes) \<Rightarrow> cache_op \<Rightarrow> u8 \<times> bytes" where
  "op_command ser (Cget k) = (kMyCacheCmd_Get, k)"
| "op_command ser (Cset k v) = (kMyCacheCmd_Set, ser k v)"
| "op_command ser (Cdel k) = (kMyCacheCmd_Del, k)"

fun op_map :: "cache_op \<Rightarrow> (bytes \<Rightarrow> bytes option) \<Rightarrow> bytes \<times> (bytes \<Rightarrow> bytes option)" where
  "op_map (Cget k) m = ((case m k of None \<Rightarrow> [] | Some v \<Rightarrow> v), m)"
| "op_map (Cset k v) m = (tx ''OK'', m(k \<mapsto> v))"
| "op_map (Cdel k) m = (tx ''OK'', m(k := None))"

lemma text_of_inject [simp]: "text_of a = text_of b \<longleftrightarrow> a = b"
  by (metis tx_text_of)

lemma pairs_into_vector: "distinct (map fst kvs) \<Longrightarrow> pairs_into (map2vector kvs) m = m ++ map_of kvs"
proof (induction kvs arbitrary: m)
  case (Cons kv kvs)
  obtain k v where kv: "kv = (k, v)" by (cases kv)
  then have "k \<notin> dom (map_of kvs)" using Cons.prems by (simp add: dom_map_of_conv_image_fst)
  then have "m(k \<mapsto> v) ++ map_of kvs = m ++ map_of (kv # kvs)" by (auto simp: kv map_add_def fun_eq_iff split: option.splits)
  moreover have "pairs_into (map2vector (kv # kvs)) m = pairs_into (map2vector kvs) (m(k \<mapsto> v))" by (simp add: kv map2vector_def)
  moreover have "pairs_into (map2vector kvs) (m(k \<mapsto> v)) = m(k \<mapsto> v) ++ map_of kvs" using Cons by simp
  ultimately show ?case by (simp only:)
qed (simp add: map2vector_def)

text \<open>The three calls on an open connection.\<close>

lemma redis_calls:
  assumes "redis_hash_ok E view" "Redis_Sync.isConnected c"
  shows "\<exists>c' kvs. client_hgetall (redis_io E) k Map.empty c w = ((view w k \<noteq> Map.empty, kvs), c', w) \<and> Redis_Sync.isConnected c' \<and>
      (view w k \<noteq> Map.empty \<longrightarrow> kvs = view w k)"
    "\<exists>c' w' r. Redis_Sync.client_del (redis_io E) k c w = (r, c', w') \<and> Redis_Sync.isConnected c' \<and> view w' = (view w)(c_str k := Map.empty)"
    "\<exists>c' w'. put_hash E k v c w = ((), c', w') \<and> Redis_Sync.isConnected c' \<and>
      (\<exists>h. view w' = (view w)(k := h) \<and> h \<noteq> Map.empty \<and> h ''value'' = Some (text_of v))"
proof -
  have run: "command_v io q r c w = (case redisCommand io q w of ((a, err), w') \<Rightarrow> ((True, snd (parseFrom a r)), c\<lparr>context_err := Some err\<rparr>, w'))" for io q r
    using assms(2) by (simp add: command_v_def checkConnection_def exchange_def)
  obtain kvs where kvs: "redisCommand (redis_io E) [''HGETALL'', k] w =
        ((Some (Reply REDIS_REPLY_ARRAY 0 None (map (\<lambda>s. Reply REDIS_REPLY_STRING 0 (Some s) []) (map2vector kvs))), False), w)"
      "distinct (map fst kvs)" "map_of kvs = view w k"
    using assms(1) unfolding redis_hash_ok_def by blast
  have len: "length (map2vector kvs) = 2 * length kvs" by (induction kvs) (auto simp: map2vector_def)
  have p: "pairs_into (map2vector kvs) Map.empty = view w k" using kvs(2,3) by (simp add: pairs_into_vector)
  have el: "map (str_len \<circ> (\<lambda>s. Reply (Suc 0) 0 (Some s) [])) xs = xs" for xs by (induction xs) (simp_all add: str_len_def)
  have "kvs \<noteq> [] \<longleftrightarrow> view w k \<noteq> Map.empty" using kvs(3) map_of_eq_empty_iff by metis
  then show "\<exists>c' kvs. client_hgetall (redis_io E) k Map.empty c w = ((view w k \<noteq> Map.empty, kvs), c', w) \<and> Redis_Sync.isConnected c' \<and>
      (view w k \<noteq> Map.empty \<longrightarrow> kvs = view w k)"
    using p len by (cases "kvs = []") (auto simp: client_hgetall_def run kvs(1) parseFrom_def Let_def el Redis_Sync.isConnected_def Suc_le_eq)
  obtain r w' where "redisCommand (redis_io E) [''DEL'', c_str k] w = ((r, False), w')" "view w' = (view w)(c_str k := Map.empty)"
    using assms(1) unfolding redis_hash_ok_def by blast
  then show "\<exists>c' w' r. Redis_Sync.client_del (redis_io E) k c w = (r, c', w') \<and> Redis_Sync.isConnected c' \<and> view w' = (view w)(c_str k := Map.empty)"
    by (simp add: Redis_Sync.client_del_def run Redis_Sync.isConnected_def)
  obtain c' w' where "hmset_format E (hash_words k v E) c w = (c', w')" "Redis_Sync.isConnected c'"
      "view w' = (view w)(k := (view w k)(''value'' \<mapsto> text_of v, ''flag'' \<mapsto> ''0'', ''touchtime'' \<mapsto> decimal (unat (of_nat (time_now E) :: u32))))"
    using assms unfolding redis_hash_ok_def hash_words_def by blast
  then show "\<exists>c' w'. put_hash E k v c w = ((), c', w') \<and> Redis_Sync.isConnected c' \<and>
      (\<exists>h. view w' = (view w)(k := h) \<and> h \<noteq> Map.empty \<and> h ''value'' = Some (text_of v))"
    by (auto simp: put_hash_def intro!: exI)
qed

lemma inv_update:
  assumes "cache_inv E good view kv ws d m" "view w' = (view (ws (shard_of E k)))(text_of k := h)"
    "h = Map.empty \<or> (\<exists>v. x = Some v \<and> h ''value'' = Some (text_of v))"
    "kv d' = (kv d)(getKVSTableName E k := (kv d (getKVSTableName E k))(text_of k := map_option text_of x))"
  shows "cache_inv E good view kv (ws(shard_of E k := w')) d' (m(k := x))"
  unfolding cache_inv_def
proof (intro allI impI)
  fix k'
  assume g: "good_key good k'"
  show "kv d' (getKVSTableName E k') (text_of k') = map_option text_of ((m(k := x)) k') \<and>
      (view ((ws(shard_of E k := w')) (shard_of E k')) (text_of k') = Map.empty \<or>
       (\<exists>v. (m(k := x)) k' = Some v \<and> view ((ws(shard_of E k := w')) (shard_of E k')) (text_of k') ''value'' = Some (text_of v)))"
  proof (cases "k' = k")
    case True
    then show ?thesis using assms(3) by (simp add: assms(2,4))
  next
    case False
    have "view ((ws(shard_of E k := w')) (shard_of E k')) (text_of k') = view (ws (shard_of E k')) (text_of k')"
      using False by (simp add: assms(2))
    moreover have "kv d' (getKVSTableName E k') (text_of k') = kv d (getKVSTableName E k') (text_of k')" using False by (simp add: assms(4))
    ultimately show ?thesis using assms(1) g False unfolding cache_inv_def by simp
  qed
qed

lemma inv_same:
  assumes "cache_inv E good view kv ws d m" "view w' = (view (ws (shard_of E k)))(text_of k := h)" "good_key good k"
    "h = Map.empty \<or> (\<exists>v. m k = Some v \<and> h ''value'' = Some (text_of v))"
  shows "cache_inv E good view kv (ws(shard_of E k := w')) d m"
proof -
  have "kv d (getKVSTableName E k) (text_of k) = map_option text_of (m k)" using assms(1,3) by (simp add: cache_inv_def)
  then have "kv d = (kv d)(getKVSTableName E k := (kv d (getKVSTableName E k))(text_of k := map_option text_of (m k)))" by (simp add: fun_upd_idem)
  from inv_update[OF assms(1,2,4) this] show ?thesis by simp
qed

lemma on_redis_open:
  assumes "all_open (conns st)" "\<And>c. Redis_Sync.isConnected c \<Longrightarrow> \<exists>r c' w'. f c (worlds st (shard_of E k)) = (r, c', w') \<and> Redis_Sync.isConnected c' \<and> P r w'"
  shows "\<exists>r cs' w'. on_redis E k f st = (Some r, st\<lparr>conns := cs', worlds := (worlds st)(shard_of E k := w')\<rparr>) \<and> all_open cs' \<and> P r w'"
proof -
  obtain c where c: "conns st (shard_of E k) = Some c" "Redis_Sync.isConnected c" using assms(1) by (auto simp: all_open_def)
  obtain r c' w' where f: "f c (worlds st (shard_of E k)) = (r, c', w')" "Redis_Sync.isConnected c'" "P r w'" using assms(2)[OF c(2)] by blast
  have "on_redis E k f st = (Some r, st\<lparr>conns := (conns st)(shard_of E k \<mapsto> c'), worlds := (worlds st)(shard_of E k := w')\<rparr>)"
    by (simp add: on_redis_def c f)
  moreover have "all_open ((conns st)(shard_of E k \<mapsto> c'))" using assms(1) f(2) by (simp add: all_open_def)
  ultimately show ?thesis using f(3) by blast
qed

text \<open>What a worker needs to answer for one key.\<close>

definition worker_ready :: "('w, 'db) cache_env \<Rightarrow> (string \<Rightarrow> bool) \<Rightarrow> ('w \<Rightarrow> string \<Rightarrow> string \<Rightarrow> string option)
    \<Rightarrow> ('db \<Rightarrow> string \<Rightarrow> string \<Rightarrow> string option) \<Rightarrow> (bytes \<Rightarrow> bytes \<Rightarrow> bytes) \<Rightarrow> bool" where
  "worker_ready E good view kv ser \<longleftrightarrow> redis_hash_ok E view \<and> kvs_ok E good kv \<and> \<not> s_cacheonly E \<and> (\<forall>k. mysql_ready E k) \<and>
     (\<forall>k v. length k < 2 ^ 16 \<and> length v < 2 ^ 16 \<longrightarrow> parse_set E (ser k v) = Some (k, v))"

lemma get_answers:
  assumes "worker_ready E good view kv ser" "cache_inv E good view kv (worlds st) (kvdb st) m" "all_open (conns st)" "good_key good k"
  shows "\<exists>st'. doMsg_get E [] k st = Some ((True, case m k of None \<Rightarrow> [] | Some v \<Rightarrow> v), st') \<and>
     cache_inv E good view kv (worlds st') (kvdb st') m \<and> all_open (conns st')"
proof -
  have red: "redis_hash_ok E view" and kvs: "kvs_ok E good kv" and other: "\<not> s_cacheonly E" "mysql_ready E k"
    using assms(1) by (simp_all add: worker_ready_def)
  let ?V = "view (worlds st (shard_of E k)) (text_of k)"
  obtain r cs' where r: "on_redis E k (client_hgetall (redis_io E) (text_of k) Map.empty) st =
        (Some r, st\<lparr>conns := cs', worlds := (worlds st)(shard_of E k := worlds st (shard_of E k))\<rparr>)"
      "all_open cs'" "fst r = (?V \<noteq> Map.empty)" "?V \<noteq> Map.empty \<longrightarrow> snd r = ?V"
    using on_redis_open[OF assms(3), of "client_hgetall (redis_io E) (text_of k) Map.empty" E k
        "\<lambda>r w'. w' = worlds st (shard_of E k) \<and> fst r = (?V \<noteq> Map.empty) \<and> (?V \<noteq> Map.empty \<longrightarrow> snd r = ?V)"]
      redis_calls(1)[OF red] by fastforce
  define st1 where "st1 = st\<lparr>conns := cs'\<rparr>"
  have r1: "on_redis E k (client_hgetall (redis_io E) (text_of k) Map.empty) st = (Some r, st1)" using r(1) by (simp add: st1_def)
  have st1: "worlds st1 = worlds st" "kvdb st1 = kvdb st" "all_open (conns st1)" using r(2) by (simp_all add: st1_def)
  show ?thesis
  proof (cases "?V = Map.empty")
    case False
    then obtain v where "m k = Some v" "snd r ''value'' = Some (text_of v)" using assms(2,4) r(4) by (auto simp: cache_inv_def)
    then show ?thesis using False r1 r(3) st1 assms(2) by (cases r) (simp add: doMsg_get_def)
  next
    case True
    have t: "kv (kvdb st) (getKVSTableName E k) (text_of k) = map_option text_of (m k)" using assms(2,4) by (simp add: cache_inv_def)
    obtain rs where rs: "kv_store E (get_query E k) (kvdb st) = (Inr (Some rs), kvdb st)"
        "case kv (kvdb st) (getKVSTableName E k) (text_of k) of None \<Rightarrow> rs = [] | Some v \<Rightarrow> \<exists>r. rs = [r] \<and> r ''value'' = Some v"
      using kvs query_tokens(1)[OF kvs] assms(4) unfolding kvs_ok_def good_key_def by blast
    have st1': "st1\<lparr>kvdb := kvdb st\<rparr> = st1" by (simp add: st1_def)
    show ?thesis
    proof (cases "m k")
      case None
      then show ?thesis using True r1 r(3) rs t st1 other assms(2) by (cases r) (simp add: doMsg_get_def st1')
    next
      case (Some v)
      then obtain row where row: "rs = [row]" "row ''value'' = Some (text_of v)" using rs(2) t by auto
      obtain cs2 w' h where put: "on_redis E k (put_hash E (text_of k) v) st1 = (Some (), st1\<lparr>conns := cs2, worlds := (worlds st1)(shard_of E k := w')\<rparr>)"
          "all_open cs2" "view w' = (view (worlds st1 (shard_of E k)))(text_of k := h)" "h ''value'' = Some (text_of v)"
        using on_redis_open[OF st1(3), of "put_hash E (text_of k) v" E k
            "\<lambda>_ w'. \<exists>h. view w' = (view (worlds st1 (shard_of E k)))(text_of k := h) \<and> h ''value'' = Some (text_of v)"]
          redis_calls(3)[OF red] by fastforce
      have "cache_inv E good view kv ((worlds st)(shard_of E k := w')) (kvdb st) m"
        using inv_same[OF assms(2) put(3)[unfolded st1(1)] assms(4)] Some put(4) by blast
      then show ?thesis using True r1 r(3) rs(1) row st1 other put(1,2) Some by (cases r) (simp add: doMsg_get_def cell_data_def st1')
    qed
  qed
qed

lemma set_answers:
  assumes "worker_ready E good view kv ser" "cache_inv E good view kv (worlds st) (kvdb st) m" "all_open (conns st)" "good_key good k"
    "length k < 2 ^ 16" "length v < 2 ^ 16"
  shows "\<exists>st'. doMsg_set E [] (ser k v) st = ((True, tx ''OK''), st') \<and>
     cache_inv E good view kv (worlds st') (kvdb st') (m(k \<mapsto> v)) \<and> all_open (conns st')"
proof -
  have red: "redis_hash_ok E view" and kvs: "kvs_ok E good kv" and other: "\<not> s_cacheonly E" "mysql_ready E k" "parse_set E (ser k v) = Some (k, v)"
    using assms(1,5,6) by (simp_all add: worker_ready_def)
  obtain cs w' h where put: "on_redis E k (put_hash E (text_of k) v) st = (Some (), st\<lparr>conns := cs, worlds := (worlds st)(shard_of E k := w')\<rparr>)"
      "all_open cs" "view w' = (view (worlds st (shard_of E k)))(text_of k := h)" "h ''value'' = Some (text_of v)"
    using on_redis_open[OF assms(3), of "put_hash E (text_of k) v" E k
        "\<lambda>_ w'. \<exists>h. view w' = (view (worlds st (shard_of E k)))(text_of k := h) \<and> h ''value'' = Some (text_of v)"]
      redis_calls(3)[OF red] by fastforce
  have "length (text_of v) < 2 ^ 16" using assms(6) by (simp add: text_of_def)
  then obtain d' where d: "kv_execute E (set_query E k v) (kvdb st) = (Inr True, d')"
      "kv d' = (kv (kvdb st))(getKVSTableName E k := (kv (kvdb st) (getKVSTableName E k))(text_of k \<mapsto> text_of v))"
    using kvs query_tokens(3)[OF kvs] assms(4) unfolding kvs_ok_def good_key_def by blast
  have "cache_inv E good view kv ((worlds st)(shard_of E k := w')) d' (m(k \<mapsto> v))"
    using inv_update[OF assms(2) put(3), of "Some v" d'] put(4) d(2) by simp
  then show ?thesis using other put(1,2) d(1) assms(4) by (simp add: doMsg_set_def good_key_def)
qed

lemma del_answers:
  assumes "worker_ready E good view kv ser" "cache_inv E good view kv (worlds st) (kvdb st) m" "all_open (conns st)" "good_key good k"
  shows "\<exists>st'. doMsg_del E [] k st = ((True, tx ''OK''), st') \<and>
     cache_inv E good view kv (worlds st') (kvdb st') (m(k := None)) \<and> all_open (conns st')"
proof -
  have red: "redis_hash_ok E view" and kvs: "kvs_ok E good kv" and other: "\<not> s_cacheonly E" "mysql_ready E k"
    using assms(1) by (simp_all add: worker_ready_def)
  have c: "c_str (text_of k) = text_of k" using assms(4) by (simp add: good_key_def)
  obtain r cs w' where del: "on_redis E k (Redis_Sync.client_del (redis_io E) (text_of k)) st =
        (Some r, st\<lparr>conns := cs, worlds := (worlds st)(shard_of E k := w')\<rparr>)"
      "all_open cs" "view w' = (view (worlds st (shard_of E k)))(text_of k := Map.empty)"
    using on_redis_open[OF assms(3), of "Redis_Sync.client_del (redis_io E) (text_of k)" E k
        "\<lambda>_ w'. view w' = (view (worlds st (shard_of E k)))(text_of k := Map.empty)"]
      redis_calls(2)[OF red, of _ "text_of k"] unfolding c by blast
  obtain d' where d: "kv_execute E (del_query E k) (kvdb st) = (Inr True, d')"
      "kv d' = (kv (kvdb st))(getKVSTableName E k := (kv (kvdb st) (getKVSTableName E k))(text_of k := None))"
    using kvs query_tokens(2)[OF kvs] assms(4) unfolding kvs_ok_def good_key_def by blast
  have "cache_inv E good view kv ((worlds st)(shard_of E k := w')) d' (m(k := None))"
    using inv_update[OF assms(2) del(3), of None d'] d(2) by simp
  then show ?thesis using other del(1,2) d(1) by (simp add: doMsg_del_def)
qed

lemma handle_answers:
  assumes "worker_ready E good view kv ser" "cache_inv E good view kv (worlds st) (kvdb st) m" "all_open (conns st)"
    "good_key good (op_key c)" "op_fits c"
  shows "\<exists>st'. handle E (fst (op_command ser c)) (snd (op_command ser c)) st = Some (fst (op_map c m), st') \<and>
     cache_inv E good view kv (worlds st') (kvdb st') (snd (op_map c m)) \<and> all_open (conns st')"
proof (cases c)
  case (Cget k)
  then show ?thesis using get_answers[OF assms(1-3), of k] assms(4) by (auto simp: handle_def)
next
  case (Cset k v)
  then show ?thesis using set_answers[OF assms(1-3), of k v] assms(4,5) by (auto simp: handle_def kMyCacheCmd_Get_def kMyCacheCmd_Set_def)
next
  case (Cdel k)
  then show ?thesis using del_answers[OF assms(1-3), of k] assms(4)
    by (auto simp: handle_def kMyCacheCmd_Get_def kMyCacheCmd_Set_def kMyCacheCmd_Del_def)
qed

subsection \<open>A worker and the broker\<close>

text \<open>The rounds of \<open>run\<close> of one worker: the addresses and requests that are read, the frames that are sent.\<close>

fun worker_run :: "('w, 'db) cache_env \<Rightarrow> (bytes \<times> bytes) list \<Rightarrow> ('w, 'db) cache_state \<Rightarrow> (bytes list list \<times> ('w, 'db) cache_state) option" where
  "worker_run E [] st = Some ([], st)"
| "worker_run E ((addr, req) # qs) st =
     (case worker_answer E addr req st of
        None \<Rightarrow> None
      | Some (answer, st) \<Rightarrow> map_option (apfst (Cons answer)) (worker_run E qs st))"

text \<open>The requests of clients, and what a map answers.\<close>

fun cache_requests :: "(bytes \<Rightarrow> bytes \<Rightarrow> bytes) \<Rightarrow> (bytes \<times> u64 \<times> cache_op) list \<Rightarrow> (bytes \<times> bytes) list" where
  "cache_requests ser [] = []"
| "cache_requests ser ((addr, ident, c) # qs) =
     (addr, packBinMsg ident (fst (op_command ser c)) (snd (op_command ser c))) # cache_requests ser qs"

fun map_answers :: "(bytes \<Rightarrow> bytes \<Rightarrow> bytes) \<Rightarrow> (bytes \<times> u64 \<times> cache_op) list \<Rightarrow> (bytes \<Rightarrow> bytes option) \<Rightarrow> bytes list list \<times> (bytes \<Rightarrow> bytes option)" where
  "map_answers ser [] m = ([], m)"
| "map_answers ser ((addr, ident, c) # qs) m =
     apfst ((#) [addr, [], packBinMsg ident (fst (op_command ser c)) (fst (op_map c m))]) (map_answers ser qs (snd (op_map c m)))"

text \<open>The frames between the broker and a client.\<close>

definition client_frames :: "bytes \<Rightarrow> bytes \<Rightarrow> bytes list" where
  "client_frames addr msg = (if sync_client addr then [addr, [], msg] else [addr, msg])"

subsection \<open>Properties\<close>

text \<open>
  A worker that has redis and the tables to itself answers as a map would, each request by the number it
  had, and leaves the tables and what redis holds of them as the map. Keys are those the table can tell
  apart and that \<open>%s\<close> does not cut short, and \<open>hmset\<close> with a format does what its callers mean it to do.

  Several workers do not act as one map: between the miss of a \<open>get\<close> and its \<open>hmset\<close> another
  worker may \<open>set\<close> the key, and redis then keeps the older value; and all of them write the name of
  their table to the one static buffer of \<open>getKVSTableName\<close>.
\<close>

theorem single_worker_refines_map:
  assumes "worker_ready E good view kv ser" "cache_inv E good view kv (worlds st) (kvdb st) m" "all_open (conns st)"
    "\<forall>(_, _, c)\<in>set qs. good_key good (op_key c) \<and> op_fits c"
  shows "\<exists>st'. worker_run E (cache_requests ser qs) st = Some (fst (map_answers ser qs m), st') \<and>
     cache_inv E good view kv (worlds st') (kvdb st') (snd (map_answers ser qs m))"
  using assms(2-)
proof (induction qs arbitrary: st m)
  case (Cons q qs)
  obtain addr ident c where q: "q = (addr, ident, c)" by (cases q)
  let ?cmd = "fst (op_command ser c)" and ?body = "snd (op_command ser c)"
  obtain st1 where st1: "handle E ?cmd ?body st = Some (fst (op_map c m), st1)"
      "cache_inv E good view kv (worlds st1) (kvdb st1) (snd (op_map c m))" "all_open (conns st1)"
    using handle_answers[OF assms(1) Cons.prems(1,2), of c] Cons.prems(3) by (auto simp: q)
  have "worker_answer E addr (packBinMsg ident ?cmd ?body) st = Some ([addr, [], packBinMsg ident ?cmd (fst (op_map c m))], st1)"
    using st1(1) by (cases "op_command ser c"; cases "?body = []") (simp_all add: worker_answer_def parse_pack)
  then show ?case using Cons.IH[OF st1(2,3)] Cons.prems(3) by (auto simp: q)
qed simp

text \<open>
  The broker hands a request to the next worker in turn and the answer of a worker to its client,
  each with the frames the other side expects.
\<close>

theorem broker_routes:
  assumes "worker_queue b \<noteq> []" "addr \<noteq> READY"
  shows "broker_frontend (client_frames addr req @ rest) b = Some (rest, b\<lparr>worker_queue_selector := worker_queue_selector b + 1,
      to_workers := to_workers b @ [[worker_queue b ! (unat (worker_queue_selector b) mod length (worker_queue b)), [], addr, [], req]]\<rparr>) \<and>
    broker_backend ([worker, [], addr, [], reply] @ rest) b = Some (rest, b\<lparr>to_clients := to_clients b @ [client_frames addr reply]\<rparr>)"
  using assms by (simp add: broker_frontend_def broker_backend_def client_frames_def)

definition ex_hiredis :: "(string \<Rightarrow> (string \<times> string) list) hiredis" where
  "ex_hiredis = \<lparr>redisConnect = (\<lambda>_ _ _ w. (Some False, w)),
     redisCommand = (\<lambda>ws w. case ws of
       [cmd, k] \<Rightarrow>
         if cmd = ''HGETALL''
         then ((Some (Reply REDIS_REPLY_ARRAY 0 None (map (\<lambda>s. Reply REDIS_REPLY_STRING 0 (Some s) []) (map2vector (AList.clearjunk (w k))))), False), w)
         else ((Some (Reply REDIS_REPLY_INTEGER 1 None []), False), w(k := []))
     | _ \<Rightarrow> ((None, False), w))\<rparr>"

fun token_text :: "token \<Rightarrow> string" where
  "token_text (Word n) = n" | "token_text (Str s) = s" | "token_text _ = []"

definition ex_execute :: "token list \<Rightarrow> (string \<Rightarrow> string \<Rightarrow> string option) \<Rightarrow> string \<Rightarrow> string \<Rightarrow> string option" where
  "ex_execute ts d = d(token_text (ts ! 2) := (d (token_text (ts ! 2)))
     (token_text (ts ! (if length ts = 7 then 6 else 14)) := (if length ts = 7 then None else Some (token_text (ts ! 16)))))"

definition ex_env :: "(string \<Rightarrow> (string \<times> string) list, string \<Rightarrow> string \<Rightarrow> string option) cache_env" where
  "ex_env = \<lparr>redis_io = ex_hiredis,
     hmset_format = (\<lambda>ws c w. (c, w(hd ws := [(ws ! 5, ws ! 6), (ws ! 3, ws ! 4), (ws ! 1, ws ! 2)] @ w (hd ws)))),
     kv_quote = sql_quote,
     kv_store = (\<lambda>q d. case scan q of None \<Rightarrow> (Inl [], d)
       | Some ts \<Rightarrow> (Inr (Some (case d (token_text (ts ! 3)) (token_text (ts ! 7)) of None \<Rightarrow> [] | Some v \<Rightarrow> [\<lambda>_. Some v])), d)),
     kv_execute = (\<lambda>q d. case scan q of None \<Rightarrow> (Inl [], d) | Some ts \<Rightarrow> (Inr True, ex_execute ts d)),
     parse_set = (\<lambda>m. let n = unat (get_le (take 8 m) :: u64) in Some (take n (drop 8 m), drop (8 + n) m)),
     shard_of = (\<lambda>k. int (length k) mod 2), mysql_ready = (\<lambda>_. True), s_tablenum = 10, s_cacheonly = False, time_now = 5\<rparr>"

definition ex_ser :: "bytes \<Rightarrow> bytes \<Rightarrow> bytes" where
  "ex_ser k v = put_le 8 (of_nat (length k) :: u64) @ k @ v"

lemma ex_ready: "worker_ready ex_env (\<lambda>_. True) (\<lambda>w k. map_of (w k)) (\<lambda>d. d) ex_ser"
proof -
  have "redis_hash_ok ex_env (\<lambda>w k. map_of (w k))"
    unfolding redis_hash_ok_def ex_env_def ex_hiredis_def by (auto simp: distinct_clearjunk map_of_clearjunk intro!: ext)
  moreover have "kvs_ok ex_env (\<lambda>_. True) (\<lambda>d. d)"
    by (auto simp: kvs_ok_def ex_env_def lexes_quote get_tokens_def set_tokens_def del_tokens_def ex_execute_def split: option.splits)
  moreover have "parse_set ex_env (ex_ser k v) = Some (k, v)" if "length k < 2 ^ 16" for k v
    using that by (simp add: ex_env_def ex_ser_def Let_def le_simps take_bit_word_eq_self unat_of_nat)
  ultimately show ?thesis by (simp add: worker_ready_def) (simp add: ex_env_def)
qed

theorem single_worker_refines_map_witness:
  "\<exists>st. worker_run ex_env (cache_requests ex_ser
       [([1], 7, Cset (tx ''A'') (tx ''BC'')), ([95, 1], 8, Cget (tx ''A'')), ([1], 9, Cdel (tx ''A'')), ([1], 10, Cget (tx ''A''))])
       \<lparr>conns = \<lambda>_. Some ((RedisClient ''h'' 1)\<lparr>context_err := Some False\<rparr>), worlds = \<lambda>_ _. [], kvdb = \<lambda>_. Map.empty\<rparr> =
     Some ([[[1], [], packBinMsg 7 kMyCacheCmd_Set (tx ''OK'')], [[95, 1], [], packBinMsg 8 kMyCacheCmd_Get (tx ''BC'')],
       [[1], [], packBinMsg 9 kMyCacheCmd_Del (tx ''OK'')], [[1], [], packBinMsg 10 kMyCacheCmd_Get []]], st)"
proof -
  let ?qs = "[([1], 7, Cset (tx ''A'') (tx ''BC'')), ([95, 1], 8, Cget (tx ''A'')), ([1], 9, Cdel (tx ''A'')), ([1], 10, Cget (tx ''A''))]"
  let ?st = "\<lparr>conns = \<lambda>_. Some ((RedisClient ''h'' 1)\<lparr>context_err := Some False\<rparr>), worlds = \<lambda>_ _. [], kvdb = \<lambda>_. Map.empty\<rparr>"
  have "cache_inv ex_env (\<lambda>_. True) (\<lambda>w k. map_of (w k)) (\<lambda>d. d) (worlds ?st) (kvdb ?st) Map.empty"
    by (simp add: cache_inv_def fun_eq_iff)
  moreover have "all_open (conns ?st)" by (simp add: all_open_def Redis_Sync.isConnected_def)
  moreover have "\<forall>(_, _, c)\<in>set ?qs. good_key (\<lambda>_. True) (op_key c) \<and> op_fits c"
    by (simp add: good_key_def c_str_def) (simp add: tx_def)
  ultimately obtain st where "worker_run ex_env (cache_requests ex_ser ?qs) ?st = Some (fst (map_answers ex_ser ?qs Map.empty), st)"
    using single_worker_refines_map[OF ex_ready, of ?st Map.empty ?qs] by blast
  then show ?thesis by (intro exI[of _ st]) simp
qed

text \<open>
  Without a connection to redis, a key that is in the tables takes the worker down with it: the row
  is put into redis through the pointer that was found to be null.
\<close>

theorem get_without_redis_crashes:
  assumes "conns st (shard_of E k) = None" "\<not> s_cacheonly E" "mysql_ready E k"
    and "kv_store E (get_query E k) (kvdb st) = (Inr (Some [row]), d)"
  shows "handle E kMyCacheCmd_Get k st = None"
  using assms by (simp add: handle_def doMsg_get_def on_redis_def)

theorem get_without_redis_crashes_witness:
  "handle ex_env kMyCacheCmd_Get (tx ''A'') \<lparr>conns = \<lambda>_. None, worlds = \<lambda>_ _. [], kvdb = \<lambda>_. [''A'' \<mapsto> ''x'']\<rparr> = None"
proof -
  have "kv_store ex_env (get_query ex_env (tx ''A'')) (\<lambda>_. [''A'' \<mapsto> ''x'']) = (Inr (Some [\<lambda>_. Some ''x'']), \<lambda>_. [''A'' \<mapsto> ''x''])"
    using query_tokens(1)[of ex_env "\<lambda>_. True" "\<lambda>d. d" "(tx ''A'')"] ex_ready
    by (simp add: worker_ready_def) (simp add: ex_env_def get_tokens_def)
  then show ?thesis by (intro get_without_redis_crashes) (simp_all add: ex_env_def)
qed

text \<open>
  A message \<open>Set\<close> that cannot be parsed is answered as if it were stored; and the answer to a client
  that calls itself \<open>READY\<close> is taken for a worker that is ready: it is queued once more, and the rest
  of the answer is left in the socket, for the next round to take for another.
\<close>

theorem broken_requests_taken:
  "parse_set E body = None \<Longrightarrow> handle E kMyCacheCmd_Set body st = Some (tx ''OK'', st)"
  "broker_backend [worker, [], READY, [], reply] b = Some ([[], reply], b\<lparr>worker_queue := worker_queue b @ [worker]\<rparr>)"
  by (simp_all add: handle_def doMsg_set_def kMyCacheCmd_Get_def kMyCacheCmd_Set_def broker_backend_def)

end
