(* ===== verification/Spec2Isabelle.thy ===== *)
theory Spec2Isabelle
  imports Prelude ByteHash Crc Hashes Jenkins Md5 Hashkit Sharding Pool Pool_Threads Pool_Sharding Url Timer Fsm Message Async Async_Clone Net_Message Connection Net_Client Acceptor Redis_Cmd Proto_Wire Serializer Reflection Proto_Dyn Rpc Zmq
    Sql Sql_Server Orm Orm_Mysql Orm_Crud Orm_Theorems Orm_Structure Mysql_Pool Orm_Pool
    Tiny_Table Table_Client Table_Session Table_Orm Orm_Soci Orm_Soci_Theorems Redis_Sync Mycache Mycached
begin

text \<open>
  \<^bold>\<open>Verification of tinyworld\<close>, a C++ library for game servers (\<open>src/common\<close>) and a few
  skeletons of servers over it. The library holds the parts a server is put together from:
  hashing and sharding of keys, pools of connections, asynchronous tasks, timers and state
  machines, messages with their dispatchers, a TCP layer over Boost.Asio, a layer over ZeroMQ
  with remote procedure calls on top, a redis client, serialization with reflection, a mapping of
  objects to the tables of MySQL, and tables of objects that are served over RPC.

  \<^bold>\<open>How the theories correspond to the code.\<close> Each theory opens with what it models.
  \<^item> \<open>Prelude\<close>: bytes, words at the width of the C types, little-endian loads and stores, sorted maps.
  \<^item> \<open>ByteHash\<close>, \<open>Crc\<close>, \<open>Hashes\<close>, \<open>Jenkins\<close>, \<open>Md5\<close>, \<open>Hashkit\<close>: \<open>hashkit/*.c\<close> and \<open>hashkit.cpp\<close>. The
    tables and loops are those of the files; the specifications are the remainders computed bit by
    bit, the published FNV, and the MD5 of a whole message (for the context that is fed in pieces).
  \<^item> \<open>Sharding\<close> (\<open>sharding.h\<close>), \<open>Pool\<close> (\<open>pool.h\<close>), \<open>Pool_Threads\<close> (its interleavings, as a step
    relation), \<open>Pool_Sharding\<close> (\<open>pool_sharding.h\<close>).
  \<^item> \<open>Url\<close>: \<open>url.cpp\<close>, the parser with its stages and \<open>TinyURL\<close>.
  \<^item> \<open>Timer\<close>, \<open>Fsm\<close>: \<open>tinytimer.h\<close>, \<open>tinyfsm.h\<close>. \<open>Async\<close>, \<open>Async_Clone\<close>: \<open>async.h\<close> and
    \<open>async.cpp\<close>, tasks in a store with pointers to their parents, the scheduler, and clones of tasks.
  \<^item> \<open>Message\<close>: \<open>message.h\<close>, \<open>message_dispatcher.h\<close>, \<open>message_helper.h\<close>.
  \<^item> \<open>Net_Message\<close>, \<open>Connection\<close>, \<open>Net_Client\<close>, \<open>Acceptor\<close>: \<open>net_asio/\<close>, from the header of a message
    to the server with its sessions.
  \<^item> \<open>Redis_Cmd\<close>: \<open>redis_cmd.h\<close>, \<open>redis_cmd.cpp\<close>, \<open>redis.cpp\<close>.
  \<^item> \<open>Serializer\<close>: \<open>tinyserializer.h\<close>, \<open>tinyserializer_proto.h\<close>; \<open>Reflection\<close>: \<open>tinyreflection.h\<close>;
    \<open>Proto_Dyn\<close>: \<open>tinyserializer_proto_mapping.h\<close> and \<open>tinyserializer_proto_dyn.h\<close>. \<open>Proto_Wire\<close> is
    no code of the library: it is the documented encoding of protobuf, the instance the
    witnesses use.
  \<^item> \<open>Rpc\<close>: \<open>tinyrpc_client.h\<close>, \<open>tinyrpc_server.h\<close>, \<open>tinyrpc.cpp\<close>; \<open>Zmq\<close>: \<open>zmq_client.h\<close>,
    \<open>zmq_server.h\<close> and the RPC client and servers over them.

  \<^item> \<open>Orm\<close>: \<open>tinyorm.h\<close> and \<open>tinyorm.cpp\<close>, the descriptors and the SQL texts they hand out; \<open>Orm_Mysql\<close>:
    \<open>tinyorm_mysql.in.h\<close>, the class \<open>TinyMySqlORM\<close> over a connection of MySQL++; \<open>Orm_Crud\<close>, \<open>Orm_Theorems\<close>
    and \<open>Orm_Structure\<close> hold what is proved of them. \<open>Sql\<close> and \<open>Sql_Server\<close> are no code of the library:
    they say what a MySQL server does with the statements it is sent (the laws \<open>server_ok\<close>: the rows
    of a table have no order, and a query lists them in any), and give one server that does so, the
    instance of the witnesses.
  \<^item> \<open>Mysql_Pool\<close>: \<open>tinymysql.h\<close> and \<open>tinymysql.cpp\<close>, connections, pools and shardings set up from
    URLs; \<open>Orm_Pool\<close>: how the mapping gets its connection from a pool, and \<open>Object2DB_T\<close> of \<open>tinyorm.h\<close>.
  \<^item> \<open>Tiny_Table\<close>: \<open>tinytable_server.h\<close> and \<open>tinytable_server.in.h\<close>, the handlers of the server with a
    database, a cache or memory behind them; \<open>Table_Client\<close>: \<open>tinytable_client.in.h\<close>; \<open>Table_Session\<close>
    and \<open>Table_Orm\<close> put the two together.
  \<^item> \<open>Orm_Soci\<close>: \<open>tinyorm_soci.h\<close> and \<open>tinyorm_soci.in.h\<close>, the mapping over SOCI, with \<open>Orm_Soci_Theorems\<close>.
  \<^item> Older code that is not built any more: \<open>Redis_Sync\<close>, the synchronous client of redis (\<open>myredis_sync.h\<close>,
    \<open>myredis_sync.cpp\<close>, \<open>myredis.cpp\<close>); \<open>Mycache\<close>, the messages and the client of the object cache (\<open>mycache.cpp\<close>);
    \<open>Mycached\<close>, its server (\<open>mycached.cpp\<close>).

  \<^bold>\<open>State and operations.\<close> A class is a record of its fields, a method a function from the record
  to the new one; what the method calls outside of it is returned (bytes written, connections
  destroyed, operations started). An exception is a value of a sum or an option. Integers
  are words where they wrap; a \<open>std::map\<close> is a sorted list of pairs, an \<open>unordered_map\<close> a
  partial function where its order cannot be seen.

  \<^bold>\<open>What the lemmas show.\<close>
  \<^item> Hashing: table-driven and optimised routines equal their definitions, MD5 is independent of
    how a message is cut, and which changes of a key always change its hash.
  \<^item> Pools: no connection is lent twice, sequentially and for any interleaving of threads; the
    limit holds for one user and does not for several threads; a sharding of pools keeps the
    contract of one pool. Pools set up from URLs always serve while their servers can be reached;
    one failed connection blocks its shard for good.
  \<^item> Tasks, timers, machines: the order of calls, when a group is done and how often, what a
    clone does, when a timer fires, the machine as the automaton of its table.
  \<^item> Messages and TCP: packing and dispatch are inverse, which bytes make a dispatcher read out of
    bounds, when a stream cut into pieces is delivered and what becomes of messages sent before the
    write of an earlier one has ended, the sessions of a server as connections come, go and are stopped,
    the states of a client.
  \<^item> ZeroMQ and RPC: a call runs through client, socket and server and back; every call ends at
    most once; which errors a caller sees; what breaks the framing.
  \<^item> Redis: a command hands over exactly the replies of its types, and its data in order; the older
    client keeps strings as a map does. A worker of the object cache that is alone with its redis and
    tables answers as a map does; several workers at once do not.
  \<^item> Serialization: everything comes back from its serialization; two versions of a class
    understand each other.
  \<^item> Objects in a database: the texts sent are the statements that were meant, whatever bytes the
    strings of an object hold; what was stored is loaded again, other keys keep their objects, all
    objects of a table are loaded, in an order of the server's; the tables of a program are created and
    extended with the columns they lack, unless their names are written in lower case. The mapping over
    SOCI writes what the one over MySQL++ writes, and reads it back, for classes without floating-point
    members: the two libraries print those differently.
  \<^item> Tables over RPC: a session of gets, sets and deletions through client, server and database is a
    session with a finite map; with a cache in front, a deleted object is still served.
  Several theorems state what the code does where this is not what it means to do.

  \<^bold>\<open>Interfaces.\<close> \<open>strict_weak_order\<close> and \<open>conn_pool\<close> (\<open>Pool\<close>), \<open>framing\<close> (\<open>Message\<close>), \<open>properties\<close>
  (\<open>Reflection\<close>) and the locales of the other theories are interpreted on the definitions of the
  model in the theory that provides them; the theorems use the interpreted facts. \<open>orm_class\<close>
  (\<open>Orm_Crud\<close>) is what the mapping asks of a class and its table, and \<open>soci_class\<close>
  (\<open>Orm_Soci_Theorems\<close>) extends it; \<open>object_store\<close> (\<open>Table_Session\<close>) is what
  the tables over RPC ask of the database behind them, and \<open>orm_table\<close> (\<open>Table_Orm\<close>) extends the first
  and gives the second (\<open>sublocale\<close>): the mapping is a store that the tables can be served from.
  \<open>base_pool\<close> (\<open>Mysql_Pool\<close>) is what is asked of the pool of MySQL++; with it the limited pool and
  its sharding are a \<open>conn_pool\<close> (\<open>sublocale\<close>), and the pool of \<open>pool.h\<close> is an instance.

  \<^bold>\<open>Parameters.\<close> Code that is not in the repository is an argument of the definitions: the
  encoding of protobuf (\<open>protobuf\<close>, \<open>message_of\<close>, the descriptor pool), ZeroMQ sockets, hiredis, the
  sockets and queues of Boost.Asio (\<open>writes\<close>: what a connection's pending writes may put on the wire),
  MySQL++ with the server behind it (\<open>mysql_ok\<close>, \<open>server_ok\<close>), SOCI (\<open>soci_ok\<close>). What the theorems
  assume of them is what their documentation promises, and every such theorem has a witness with a
  concrete instance.

  \<^bold>\<open>Bounds and fuel.\<close> The mutually recursive functions of \<open>Async\<close> carry fuel;
  \<open>4 * length cs + 5\<close> is enough for a group in series of the tasks \<open>cs\<close> and \<open>length cs + 6\<close> for one in
  parallel. \<open>Connection.readMessages\<close> can run for ever, so it is a partial function and
  \<open>None\<close> stands for not returning. A server numbers its sessions with 32 bits from 10001 on, so the
  invariant of the sessions holds for fewer than \<open>2^32 - 10001\<close> of them. Protobuf
  messages are shorter than 2 GB (\<open>proto_limit\<close>). A client makes fewer than \<open>2^64\<close> calls.

  \<^bold>\<open>Not modelled.\<close> Logging, statistics, command lines, signals and the creation of threads;
  callbacks that call back into the object that runs them; older code that is not built any more (the
  asynchronous client of redis and its pools, the asynchronous client of the object cache and the
  setup of its server, \<open>callback.cpp\<close>); generated code, examples and tests.
\<close>

end
